(* ===== verification/Prelude.thy ===== *)
theory Prelude
  imports Main "HOL-Library.Word" "HOL-Library.AList" "HOL-Library.Sublist"
    "HOL-Library.Char_ord" "HOL-Library.List_Lexorder"
begin

text \<open>
  The vocabulary every component shares: how a Go byte, string, error and multiple return value
  are represented, and the generic lemmas on lists and association lists that the component
  proofs use.

  \<^item> A Go \<^verbatim>\<open>byte\<close> is an 8-bit \<open>char\<close>; a \<^verbatim>\<open>[]byte\<close> and a \<^verbatim>\<open>string\<close> are both char lists,
    so the conversions \<^verbatim>\<open>string(b)\<close> and \<^verbatim>\<open>[]byte(s)\<close> are the identity, and \<^verbatim>\<open>len\<close> counts bytes.
  \<^item> A Go map that is only read by key is a partial function; a map that is ranged over is an
    association list with distinct keys, so that the iteration is a recursion. Go leaves the
    iteration order open; the list fixes one.
  \<^item> Wrapped errors keep their structure: the format string, its arguments and the cause.
\<close>

type_synonym byte = char

type_synonym gostring = string

abbreviation byte_val :: "byte \<Rightarrow> nat" where
  "byte_val b \<equiv> of_char b"

datatype fmt_arg = FStr gostring | FInt int

datatype go_error =
    EOF
  | Errorf gostring "fmt_arg list"
  | Join go_error go_error
  | ParseError int
  | ErrorLines "go_error list"
  | External gostring
  | UUIDNotFoundError gostring
  | NoSessionFoundError
  | DocumentNotFoundError gostring
  | DocumentSizeLimitError int
  | DocumentOutdatedError gostring int int

text \<open>What a call that returns \<^verbatim>\<open>(value, error)\<close> does: a value, an error, or a run-time panic.\<close>

datatype 'a outcome = Ok 'a | Fail go_error | Panic

fun obind :: "'a outcome \<Rightarrow> ('a \<Rightarrow> 'b outcome) \<Rightarrow> 'b outcome" where
  "obind (Ok x) f = f x"
| "obind (Fail e) f = Fail e"
| "obind Panic f = Panic"

text \<open>\<open>if err != nil { return errors.Join(fmt.Errorf(...), err) }\<close>\<close>

fun wrap_err :: "go_error \<Rightarrow> 'a outcome \<Rightarrow> 'a outcome" where
  "wrap_err w (Ok x) = Ok x"
| "wrap_err w (Fail e) = Fail (Join w e)"
| "wrap_err w Panic = Panic"

text \<open>How a loop over callbacks ends; the state it reached is returned beside it.\<close>

datatype status = Done | Failed go_error | Panicked

named_theorems wire_simps \<open>evaluation of the wire format on encoded fields\<close>

named_theorems tree_simps \<open>walking the symbol prefix tree after an update\<close>

lemma obind_Ok_iff: "obind m f = Ok y \<longleftrightarrow> (\<exists>x. m = Ok x \<and> f x = Ok y)"
  by (cases m) auto

lemma obind_assoc: "obind (obind m f) g = obind m (\<lambda>x. obind (f x) g)"
  by (cases m) auto

lemma sint_inject: "sint a = sint b \<longleftrightarrow> a = b"
  by (auto intro: signed_word_eqI)

lemma wrap_err_Ok_iff [simp]: "wrap_err w m = Ok y \<longleftrightarrow> m = Ok y"
  by (cases m) auto

lemma byte_val_less [simp]: "byte_val b < 256"
  by (metis UNIV_I atLeastLessThan_iff imageI range_nat_of_char)

lemma byte_val_char_of [simp]: "n < 256 \<Longrightarrow> byte_val (char_of n) = n"
  by (simp add: of_char_of)

lemma sint64_id: "- (2 ^ 63) \<le> x \<Longrightarrow> x < 2 ^ 63 \<Longrightarrow> sint (word_of_int x :: 64 word) = x"
  by (simp add: sint_sbintrunc' signed_take_bit_int_eq_self)

lemma sint64_wrap:
  assumes "0 \<le> x" and "x < 2 ^ 64"
  shows "sint (word_of_int x :: 64 word) = (if x < 2 ^ 63 then x else x - 2 ^ 64)"
proof (cases "x < 2 ^ 63")
  case True
  with assms show ?thesis by (simp add: sint64_id)
next
  case False
  have "(x + 2 ^ 63) mod 2 ^ 64 = (x + 2 ^ 63 - 2 ^ 64) mod 2 ^ 64"
    using mod_add_self2 [of "x + 2 ^ 63 - 2 ^ 64" "2 ^ 64"] by (simp add: add.commute)
  also have "\<dots> = x + 2 ^ 63 - 2 ^ 64"
    using assms False by (intro mod_pos_pos_trivial) simp_all
  finally show ?thesis using False by (simp add: int_word_sint)
qed

lemma sint64_of_nat: "n < 2 ^ 63 \<Longrightarrow> sint (of_nat n :: 64 word) = int n"
  using sint64_id [of "int n"] by simp

lemma unat32_of_nat: "n < 2 ^ 32 \<Longrightarrow> unat (of_nat n :: 32 word) = n"
  by (simp add: unat_of_nat take_bit_nat_eq_self)

lemma take_drop_append [simp]:
  "i = length xs \<Longrightarrow> take n (drop i (xs @ ys)) = take n ys"
  by simp

subsection \<open>Keyed stores\<close>

text \<open>
  The contract of a component that stores values under keys: what a lookup returns after a store. The
  extra argument of \<open>put\<close> is what the operation takes beside key and value. The lemmas say what
  a sequence of stores leaves behind: the last value of each key.
\<close>

locale keyed_store =
  fixes inv :: "'s \<Rightarrow> bool" and ok :: "'k \<Rightarrow> bool"
    and lookup :: "'s \<Rightarrow> 'k \<Rightarrow> 'v option" and put :: "'x \<Rightarrow> 'k \<Rightarrow> 'v \<Rightarrow> 's \<Rightarrow> 's"
  assumes put_inv: "inv s \<Longrightarrow> ok k \<Longrightarrow> inv (put x k v s)"
    and lookup_put: "inv s \<Longrightarrow> ok k \<Longrightarrow> ok k' \<Longrightarrow> lookup (put x k v s) k' = (if k' = k then Some v else lookup s k')"
begin

lemma put_twice:
  "inv s \<Longrightarrow> ok k \<Longrightarrow> ok k' \<Longrightarrow> lookup (put x k v (put y k w s)) k' = lookup (put x k v s) k'"
  by (simp add: put_inv lookup_put)

lemma put_all_inv: "inv s \<Longrightarrow> \<forall>(x, k, v) \<in> set es. ok k \<Longrightarrow> inv (fold (\<lambda>(x, k, v). put x k v) es s)"
  by (induction es arbitrary: s) (auto simp: put_inv)

lemma lookup_put_all:
  "inv s \<Longrightarrow> \<forall>(x, k, v) \<in> set es. ok k \<Longrightarrow> ok k' \<Longrightarrow>
   lookup (fold (\<lambda>(x, k, v). put x k v) es s) k' =
     (case map_of (rev (map snd es)) k' of Some v \<Rightarrow> Some v | None \<Rightarrow> lookup s k')"
proof (induction es arbitrary: s)
  case (Cons e es)
  obtain x k v where e: "e = (x, k, v)" by (cases e)
  with Cons.prems have "inv (put x k v s)" by (simp add: put_inv)
  from Cons.IH [OF this] Cons.prems e show ?case
    by (auto simp: lookup_put map_add_def split: option.splits)
qed simp

end
text \<open>
  Stores from which keys are removed as well. What is found under a key is decided by the last operation on it.
\<close>

datatype ('x, 'k, 'v) store_op = StorePut 'x 'k 'v | StoreDel 'k

fun last_value :: "('x, 'k, 'v) store_op list \<Rightarrow> 'k \<Rightarrow> 'v option option" where
  "last_value [] k = None"
| "last_value (op # ops) k =
     (case last_value ops k of
        Some r \<Rightarrow> Some r
      | None \<Rightarrow> (case op of StorePut x k' v \<Rightarrow> if k' = k then Some (Some v) else None | StoreDel k' \<Rightarrow> if k' = k then Some None else None))"

fun op_key :: "('x, 'k, 'v) store_op \<Rightarrow> 'k" where
  "op_key (StorePut x k v) = k"
| "op_key (StoreDel k) = k"

locale erasable_store = keyed_store inv ok lookup put
  for inv :: "'s \<Rightarrow> bool" and ok :: "'k \<Rightarrow> bool" and lookup :: "'s \<Rightarrow> 'k \<Rightarrow> 'v option" and put :: "'x \<Rightarrow> 'k \<Rightarrow> 'v \<Rightarrow> 's \<Rightarrow> 's" +
  fixes del :: "'k \<Rightarrow> 's \<Rightarrow> 's"
  assumes del_inv: "inv s \<Longrightarrow> ok k \<Longrightarrow> inv (del k s)"
    and lookup_del: "inv s \<Longrightarrow> ok k \<Longrightarrow> ok k' \<Longrightarrow> lookup (del k s) k' = (if k' = k then None else lookup s k')"
begin

definition apply_op :: "('x, 'k, 'v) store_op \<Rightarrow> 's \<Rightarrow> 's" where
  "apply_op op s = (case op of StorePut x k v \<Rightarrow> put x k v s | StoreDel k \<Rightarrow> del k s)"

lemma apply_op_inv: "inv s \<Longrightarrow> ok (op_key op) \<Longrightarrow> inv (apply_op op s)"
  by (cases op) (simp_all add: apply_op_def put_inv del_inv)

lemma put_del: "inv s \<Longrightarrow> ok k \<Longrightarrow> ok k' \<Longrightarrow> lookup s k = None \<Longrightarrow> lookup (del k (put x k v s)) k' = lookup s k'"
  by (simp add: put_inv lookup_put lookup_del)

lemma lookup_history:
  "inv s \<Longrightarrow> \<forall>op \<in> set ops. ok (op_key op) \<Longrightarrow> ok k \<Longrightarrow>
   lookup (fold apply_op ops s) k = (case last_value ops k of Some r \<Rightarrow> r | None \<Rightarrow> lookup s k)"
proof (induction ops arbitrary: s)
  case (Cons op ops)
  then have "inv (apply_op op s)" by (simp add: apply_op_inv)
  from Cons.IH [OF this] Cons.prems show ?case
    by (cases op) (auto simp: apply_op_def lookup_put lookup_del split: option.split)
qed simp

end

end
