(* ===== verification/ScipModel.thy ===== *)
theory ScipModel
  imports Prelude
begin

text \<open>
  \<^verbatim>\<open>src/scip-lib/model/scip.go\<close> and the mappers of \<^verbatim>\<open>src/scip-lib/mapper\<close>: the messages of the
  SCIP protobuf bindings, the program's own copies of them, and the conversions between the two
  and to the types of the LSP protocol library.

  An \<^verbatim>\<open>int32\<close> is a 32-bit word read with \<open>sint\<close>, an \<^verbatim>\<open>uint32\<close> the same word read with \<open>uint\<close>, so
  the conversions between them are the identity. A pointer that may be nil is an option; the
  elements of a decoded list are never nil. \<^verbatim>\<open>scip.NewRange\<close>, \<^verbatim>\<open>Range.IsSingleLine\<close> and
  \<^verbatim>\<open>scip.ParseSymbol\<close> are library code and appear as arguments.
\<close>

type_synonym int32 = "32 word"

type_synonym uri = gostring

subsection \<open>Messages of the SCIP bindings\<close>

text \<open>Enumerations of the bindings, with the constants the program names.\<close>

datatype scip_kind =
    ScipFunction | ScipFile | ScipModule | ScipNamespace | ScipPackage |
    ScipPackageObject | ScipClass | ScipTypeClass | ScipMethod | ScipMethodReceiver |
    ScipProperty | ScipField | ScipConstructor | ScipEnum | ScipEnumMember |
    ScipInterface | ScipVariable | ScipConstant | ScipString | ScipNumber | ScipBoolean |
    ScipArray | ScipObject | ScipKey | ScipNull | ScipStruct | ScipEvent | ScipOperator |
    ScipType | ScipOtherKind int

datatype descriptor_suffix = Descriptor_Namespace | Descriptor_Type | OtherSuffix int

record scip_position =
  sp_Line :: int32
  sp_Character :: int32

record scip_range =
  sr_Start :: scip_position
  sr_End :: scip_position

record rangelib =
  NewRange :: "int32 list \<Rightarrow> scip_range outcome"
  IsSingleLine :: "scip_range \<Rightarrow> bool"

record scip_diagnostic =
  sd_Severity :: int32
  sd_Code :: gostring
  sd_Message :: gostring
  sd_Source :: gostring
  sd_Tags :: "int32 list"

record scip_occurrence =
  so_Range :: "int32 list"
  so_Symbol :: gostring
  so_SymbolRoles :: int32
  so_OverrideDocumentation :: "gostring list"
  so_SyntaxKind :: int32
  so_Diagnostics :: "scip_diagnostic list"
  so_EnclosingRange :: "int32 list"

record scip_relationship =
  srel_Symbol :: gostring
  srel_IsReference :: bool
  srel_IsImplementation :: bool
  srel_IsTypeDefinition :: bool
  srel_IsDefinition :: bool

datatype scip_symbol_information =
  ScipSymbolInformation (ssi_Symbol: gostring) (ssi_Documentation: "gostring list")
    (ssi_Relationships: "scip_relationship list") (ssi_Kind: scip_kind) (ssi_DisplayName: gostring)
    (ssi_SignatureDocumentation: "scip_document option") (ssi_EnclosingSymbol: gostring)
and scip_document =
  ScipDocument (sdoc_Language: gostring) (sdoc_RelativePath: gostring)
    (sdoc_Occurrences: "scip_occurrence list") (sdoc_Symbols: "scip_symbol_information list")
    (sdoc_Text: gostring)

record scip_package =
  spkg_Manager :: gostring
  spkg_Name :: gostring
  spkg_Version :: gostring

record descriptor =
  Name :: gostring
  Suffix :: descriptor_suffix
  Disambiguator :: gostring

text \<open>A descriptor of the bindings has the same fields as the program's; so do their symbols.\<close>

record scip_symbol =
  Scheme :: gostring
  Package :: "scip_package option"
  Descriptors :: "descriptor list"

subsection \<open>Types of the LSP protocol library\<close>

record position =
  Line :: int32
  Character :: int32

record lsp_range =
  Start :: position
  End :: position

record location =
  loc_URI :: uri
  loc_Range :: lsp_range

record location_link =
  OriginSelectionRange :: "lsp_range option"
  TargetURI :: uri
  TargetRange :: lsp_range
  TargetSelectionRange :: lsp_range

record lsp_diagnostic =
  ld_Range :: lsp_range
  ld_Severity :: int
  ld_Code :: gostring
  ld_Message :: gostring
  ld_Source :: gostring
  ld_Tags :: "int list"

datatype lsp_symbol_kind =
    SymbolKindFunction | SymbolKindFile | SymbolKindModule | SymbolKindNamespace |
    SymbolKindPackage | SymbolKindClass | SymbolKindMethod | SymbolKindProperty |
    SymbolKindField | SymbolKindConstructor | SymbolKindEnum | SymbolKindEnumMember |
    SymbolKindInterface | SymbolKindVariable | SymbolKindConstant | SymbolKindString |
    SymbolKindNumber | SymbolKindBoolean | SymbolKindArray | SymbolKindObject |
    SymbolKindKey | SymbolKindNull | SymbolKindStruct | SymbolKindEvent |
    SymbolKindOperator | SymbolKindTypeParameter

definition zero_range :: lsp_range where
  "zero_range = \<lparr>Start = \<lparr>Line = 0, Character = 0\<rparr>, End = \<lparr>Line = 0, Character = 0\<rparr>\<rparr>"

subsection \<open>The program's model\<close>

record occurrence =
  Range :: "int32 list"
  Symbol :: gostring
  SymbolRoles :: int32
  OverrideDocumentation :: "gostring list"
  SyntaxKind :: int32
  EnclosingRange :: "int32 list"

record relationship =
  rel_Symbol :: gostring
  IsReference :: bool
  IsImplementation :: bool
  IsTypeDefinition :: bool
  IsDefinition :: bool

text \<open>\<^verbatim>\<open>SymbolMap\<close> is an association list with distinct keys.\<close>

datatype symbol_information =
  SymbolInformation (si_Symbol: gostring) (Documentation: "gostring list")
    (Relationships: "relationship list") (Kind: scip_kind) (DisplayName: gostring)
    (SignatureDocumentation: "document option") (EnclosingSymbol: gostring)
and document =
  Document (Occurrences: "occurrence list") (Language: gostring) (RelativePath: gostring)
    (Symbols: "symbol_information list") (SymbolMap: "(gostring \<times> symbol_information) list")
    (doc_Text: gostring) (doc_Diagnostics: "lsp_diagnostic list")

record symbol_occurrence =
  Location :: uri
  Occurrence :: "occurrence option"
  Info :: "symbol_information option"

text \<open>The fields of \<^verbatim>\<open>model.ScipPackage\<close> are those of the bindings' package.\<close>

definition ID :: "scip_package \<Rightarrow> gostring" where
  "ID x = spkg_Manager x @ '' '' @ spkg_Name x @ '' '' @ spkg_Version x"

subsection \<open>Parsing symbols\<close>

fun strings_Join :: "gostring list \<Rightarrow> gostring \<Rightarrow> gostring" where
  "strings_Join [] sep = ''''"
| "strings_Join [x] sep = x"
| "strings_Join (x # y # xs) sep = x @ sep @ strings_Join (y # xs) sep"

definition namespace_name :: "descriptor list \<Rightarrow> gostring" where
  "namespace_name ds = strings_Join (map Name (filter (\<lambda>d. Suffix d = Descriptor_Namespace) ds)) ''/''"

definition defaultPackageVersion :: gostring where
  "defaultPackageVersion = ''.''"

text \<open>The package of a parsed symbol with its name and version filled in.\<close>

definition fill_package :: "descriptor list \<Rightarrow> scip_package \<Rightarrow> scip_package" where
  "fill_package ds p =
     (let p1 = (if spkg_Name p = '''' then p\<lparr>spkg_Name := namespace_name ds\<rparr> else p)
      in if spkg_Version p1 = '''' then p1\<lparr>spkg_Version := defaultPackageVersion\<rparr> else p1)"

definition ParseScipSymbol :: "(gostring \<Rightarrow> scip_symbol outcome) \<Rightarrow> gostring \<Rightarrow> scip_symbol outcome" where
  "ParseScipSymbol ParseSymbol sy =
     obind (ParseSymbol sy) (\<lambda>parsed.
       Ok (parsed\<lparr>Package := map_option (fill_package (Descriptors parsed)) (Package parsed)\<rparr>))"

text \<open>A panic of the library is the caller's.\<close>

definition ParseScipSymbolToDisplayName ::
  "(gostring \<Rightarrow> scip_symbol outcome) \<Rightarrow> gostring \<Rightarrow> gostring outcome" where
  "ParseScipSymbolToDisplayName ParseSymbol symbolStr =
     (case ParseSymbol symbolStr of
        Panic \<Rightarrow> Panic
      | Fail e \<Rightarrow> Ok symbolStr
      | Ok symbol \<Rightarrow>
          (if Descriptors symbol = [] then Ok symbolStr else Ok (Name (last (Descriptors symbol)))))"

subsection \<open>Mappers from the bindings to the model (\<^verbatim>\<open>scip_types.go\<close>)\<close>

definition localDiagnosticsPrefix :: gostring where
  "localDiagnosticsPrefix = ''local diagnostic_''"

definition ScipOccurrenceToModelOccurrence :: "scip_occurrence option \<Rightarrow> occurrence option" where
  "ScipOccurrenceToModelOccurrence occ =
     map_option (\<lambda>o'. \<lparr>Range = so_Range o', Symbol = so_Symbol o', SymbolRoles = so_SymbolRoles o',
       OverrideDocumentation = so_OverrideDocumentation o', SyntaxKind = so_SyntaxKind o',
       EnclosingRange = so_EnclosingRange o'\<rparr>) occ"

definition diagnostic_range :: "int32 list \<Rightarrow> lsp_range" where
  "diagnostic_range r =
     (if 4 \<le> length r
      then \<lparr>Start = \<lparr>Line = r ! 0, Character = r ! 1\<rparr>, End = \<lparr>Line = r ! 2, Character = r ! 3\<rparr>\<rparr>
      else if 3 \<le> length r
      then \<lparr>Start = \<lparr>Line = r ! 0, Character = r ! 1\<rparr>, End = \<lparr>Line = r ! 0, Character = r ! 2\<rparr>\<rparr>
      else zero_range)"

definition convertDiagnosticTags :: "int32 list \<Rightarrow> int list" where
  "convertDiagnosticTags tags = map sint tags"

definition ScipDiagnosticToModelDiagnostic :: "scip_occurrence option \<Rightarrow> lsp_diagnostic list" where
  "ScipDiagnosticToModelDiagnostic occ =
     (case occ of
        None \<Rightarrow> []
      | Some o' \<Rightarrow>
          map (\<lambda>diag. \<lparr>ld_Range = diagnostic_range (so_Range o'), ld_Severity = sint (sd_Severity diag),
            ld_Code = sd_Code diag, ld_Message = sd_Message diag, ld_Source = sd_Source diag,
            ld_Tags = convertDiagnosticTags (sd_Tags diag)\<rparr>) (so_Diagnostics o'))"

definition ScipOccurrenceToModelOccurrenceWithDiagnostics ::
  "scip_occurrence option \<Rightarrow> occurrence option \<times> lsp_diagnostic list" where
  "ScipOccurrenceToModelOccurrenceWithDiagnostics occ =
     (case occ of
        None \<Rightarrow> (None, [])
      | Some _ \<Rightarrow> (ScipOccurrenceToModelOccurrence occ, ScipDiagnosticToModelDiagnostic occ))"

definition ScipRelationshipToModelRelationship :: "scip_relationship option \<Rightarrow> relationship option" where
  "ScipRelationshipToModelRelationship rel =
     map_option (\<lambda>r. \<lparr>rel_Symbol = srel_Symbol r, IsReference = srel_IsReference r,
       IsImplementation = srel_IsImplementation r, IsTypeDefinition = srel_IsTypeDefinition r,
       IsDefinition = srel_IsDefinition r\<rparr>) rel"

text \<open>The loop over the occurrences of a document: the kept occurrences and all diagnostics.\<close>

fun document_occurrences ::
  "scip_occurrence list \<Rightarrow> occurrence list \<Rightarrow> lsp_diagnostic list \<Rightarrow> occurrence list \<times> lsp_diagnostic list" where
  "document_occurrences [] occs diags = (occs, diags)"
| "document_occurrences (occ # rest) occs diags =
     (case ScipOccurrenceToModelOccurrenceWithDiagnostics (Some occ) of
        (occurrence, diagnostics) \<Rightarrow>
          if so_Symbol occ = '''' \<or> prefix localDiagnosticsPrefix (so_Symbol occ)
          then document_occurrences rest occs (diags @ diagnostics)
          else document_occurrences rest (occs @ [the occurrence]) (diags @ diagnostics))"

fun symbol_map :: "symbol_information list \<Rightarrow> (gostring \<times> symbol_information) list \<Rightarrow>
  (gostring \<times> symbol_information) list" where
  "symbol_map [] m = m"
| "symbol_map (info # rest) m = symbol_map rest (AList.update (si_Symbol info) info m)"

fun to_model_symbol :: "scip_symbol_information \<Rightarrow> symbol_information"
and to_model_document :: "scip_document \<Rightarrow> document" where
  "to_model_symbol (ScipSymbolInformation sy docs rels kind name sig enc) =
     SymbolInformation sy docs (map (\<lambda>r. the (ScipRelationshipToModelRelationship (Some r))) rels)
       kind name (map_option to_model_document sig) enc"
| "to_model_document (ScipDocument lang path occs syms text) =
     (let infos = map to_model_symbol syms; (occurrences, diagnostics) = document_occurrences occs [] []
      in Document occurrences lang path infos (symbol_map infos []) text diagnostics)"

definition ScipSymbolInformationToModelSymbolInformation ::
  "scip_symbol_information option \<Rightarrow> symbol_information option" where
  "ScipSymbolInformationToModelSymbolInformation info = map_option to_model_symbol info"

definition ScipDocumentToModelDocument :: "scip_document option \<Rightarrow> document option" where
  "ScipDocumentToModelDocument doc = map_option to_model_document doc"

definition ScipPackageToModelScipPackage :: "scip_package option \<Rightarrow> scip_package option" where
  "ScipPackageToModelScipPackage pkg =
     map_option (\<lambda>p. \<lparr>spkg_Manager = spkg_Manager p, spkg_Name = spkg_Name p,
       spkg_Version = spkg_Version p\<rparr>) pkg"

definition ScipDescriptorToModelDescriptor :: "descriptor option \<Rightarrow> descriptor" where
  "ScipDescriptorToModelDescriptor desc =
     (case desc of
        None \<Rightarrow> \<lparr>Name = '''', Suffix = OtherSuffix 0, Disambiguator = ''''\<rparr>
      | Some d \<Rightarrow> \<lparr>Name = Name d, Suffix = Suffix d, Disambiguator = Disambiguator d\<rparr>)"

definition ScipDescriptorsToModelDescriptors :: "descriptor list \<Rightarrow> descriptor list" where
  "ScipDescriptorsToModelDescriptors ds = map (\<lambda>d. ScipDescriptorToModelDescriptor (Some d)) ds"

subsection \<open>Mappers to the LSP protocol (\<^verbatim>\<open>scip_lsp.go\<close>)\<close>

definition ScipToProtocolPosition :: "scip_position \<Rightarrow> position" where
  "ScipToProtocolPosition pos = \<lparr>Line = sp_Line pos, Character = sp_Character pos\<rparr>"

text \<open>A panic of \<^verbatim>\<open>NewRange\<close> does not occur: it only indexes after checking the length.\<close>

definition ScipToProtocolRange :: "rangelib \<Rightarrow> int32 list \<Rightarrow> lsp_range" where
  "ScipToProtocolRange rl rng =
     (case NewRange rl rng of
        Ok parsed \<Rightarrow> \<lparr>Start = ScipToProtocolPosition (sr_Start parsed),
                      End = ScipToProtocolPosition (sr_End parsed)\<rparr>
      | _ \<Rightarrow> zero_range)"

definition ScipOccurrenceToLocation :: "rangelib \<Rightarrow> uri \<Rightarrow> occurrence \<Rightarrow> location" where
  "ScipOccurrenceToLocation rl uri occ = \<lparr>loc_URI = uri, loc_Range = ScipToProtocolRange rl (Range occ)\<rparr>"

definition ScipOccurrenceToLocationLink ::
  "rangelib \<Rightarrow> uri \<Rightarrow> occurrence \<Rightarrow> lsp_range option \<Rightarrow> location_link" where
  "ScipOccurrenceToLocationLink rl uri occ origSelection =
     \<lparr>OriginSelectionRange = origSelection, TargetURI = uri,
      TargetRange = ScipToProtocolRange rl (Range occ),
      TargetSelectionRange = ScipToProtocolRange rl (Range occ)\<rparr>"

record document_symbol =
  ds_Name :: gostring
  ds_Detail :: gostring
  ds_Kind :: lsp_symbol_kind
  ds_Range :: lsp_range
  ds_SelectionRange :: lsp_range

definition ulspDocumentSymbolPrefix :: gostring where
  "ulspDocumentSymbolPrefix = ''[uLSP]''"

fun ScipSymbolKindToDocumentSymbolKind :: "scip_kind \<Rightarrow> lsp_symbol_kind" where
  "ScipSymbolKindToDocumentSymbolKind ScipFunction = SymbolKindFunction"
| "ScipSymbolKindToDocumentSymbolKind ScipFile = SymbolKindFile"
| "ScipSymbolKindToDocumentSymbolKind ScipModule = SymbolKindModule"
| "ScipSymbolKindToDocumentSymbolKind ScipNamespace = SymbolKindNamespace"
| "ScipSymbolKindToDocumentSymbolKind ScipPackage = SymbolKindPackage"
| "ScipSymbolKindToDocumentSymbolKind ScipPackageObject = SymbolKindPackage"
| "ScipSymbolKindToDocumentSymbolKind ScipClass = SymbolKindClass"
| "ScipSymbolKindToDocumentSymbolKind ScipTypeClass = SymbolKindClass"
| "ScipSymbolKindToDocumentSymbolKind ScipMethod = SymbolKindMethod"
| "ScipSymbolKindToDocumentSymbolKind ScipMethodReceiver = SymbolKindMethod"
| "ScipSymbolKindToDocumentSymbolKind ScipProperty = SymbolKindProperty"
| "ScipSymbolKindToDocumentSymbolKind ScipField = SymbolKindField"
| "ScipSymbolKindToDocumentSymbolKind ScipConstructor = SymbolKindConstructor"
| "ScipSymbolKindToDocumentSymbolKind ScipEnum = SymbolKindEnum"
| "ScipSymbolKindToDocumentSymbolKind ScipEnumMember = SymbolKindEnumMember"
| "ScipSymbolKindToDocumentSymbolKind ScipInterface = SymbolKindInterface"
| "ScipSymbolKindToDocumentSymbolKind ScipVariable = SymbolKindVariable"
| "ScipSymbolKindToDocumentSymbolKind ScipConstant = SymbolKindConstant"
| "ScipSymbolKindToDocumentSymbolKind ScipString = SymbolKindString"
| "ScipSymbolKindToDocumentSymbolKind ScipNumber = SymbolKindNumber"
| "ScipSymbolKindToDocumentSymbolKind ScipBoolean = SymbolKindBoolean"
| "ScipSymbolKindToDocumentSymbolKind ScipArray = SymbolKindArray"
| "ScipSymbolKindToDocumentSymbolKind ScipObject = SymbolKindObject"
| "ScipSymbolKindToDocumentSymbolKind ScipKey = SymbolKindKey"
| "ScipSymbolKindToDocumentSymbolKind ScipNull = SymbolKindNull"
| "ScipSymbolKindToDocumentSymbolKind ScipStruct = SymbolKindStruct"
| "ScipSymbolKindToDocumentSymbolKind ScipEvent = SymbolKindEvent"
| "ScipSymbolKindToDocumentSymbolKind ScipOperator = SymbolKindOperator"
| "ScipSymbolKindToDocumentSymbolKind ScipType = SymbolKindTypeParameter"
| "ScipSymbolKindToDocumentSymbolKind (ScipOtherKind k) = SymbolKindNull"

definition ScipSymbolInformationToDocumentSymbol ::
  "rangelib \<Rightarrow> symbol_information \<Rightarrow> occurrence \<Rightarrow> document_symbol" where
  "ScipSymbolInformationToDocumentSymbol rl symbolInfo occ =
     \<lparr>ds_Name = DisplayName symbolInfo, ds_Detail = ulspDocumentSymbolPrefix @ DisplayName symbolInfo,
      ds_Kind = ScipSymbolKindToDocumentSymbolKind (Kind symbolInfo),
      ds_Range = ScipToProtocolRange rl (Range occ), ds_SelectionRange = ScipToProtocolRange rl (Range occ)\<rparr>"

subsection \<open>What the mappers keep\<close>

lemma document_occurrences_eq:
  "document_occurrences os occs diags =
     (occs @ map (\<lambda>o'. the (ScipOccurrenceToModelOccurrence (Some o')))
        (filter (\<lambda>o'. so_Symbol o' \<noteq> '''' \<and> \<not> prefix localDiagnosticsPrefix (so_Symbol o')) os),
      diags @ concat (map (\<lambda>o'. ScipDiagnosticToModelDiagnostic (Some o')) os))"
  by (induction os arbitrary: occs diags) (auto simp: ScipOccurrenceToModelOccurrenceWithDiagnostics_def)

lemma symbol_map_lookup:
  "map_of (symbol_map infos m) s = (case find (\<lambda>i. si_Symbol i = s) (rev infos) of
     Some i \<Rightarrow> Some i | None \<Rightarrow> map_of m s)"
proof (induction infos arbitrary: m)
  case (Cons info infos)
  have "find P (xs @ [x]) = (case find P xs of None \<Rightarrow> if P x then Some x else None | Some y \<Rightarrow> Some y)"
    for P :: "symbol_information \<Rightarrow> bool" and xs x
    by (induction xs) auto
  with Cons.IH show ?case by (auto simp: update_conv' split: option.splits)
qed simp

lemma symbol_map_distinct: "distinct (map fst m) \<Longrightarrow> distinct (map fst (symbol_map infos m))"
  by (induction infos arbitrary: m) (auto simp: distinct_update)

lemma to_model_document_sel [simp]:
  "RelativePath (to_model_document d) = sdoc_RelativePath d"
  "Language (to_model_document d) = sdoc_Language d"
  "doc_Text (to_model_document d) = sdoc_Text d"
  "Symbols (to_model_document d) = map to_model_symbol (sdoc_Symbols d)"
  "SymbolMap (to_model_document d) = symbol_map (map to_model_symbol (sdoc_Symbols d)) []"
  by (cases d; simp add: document_occurrences_eq Let_def)+

lemma to_model_symbol_sel [simp]:
  "si_Symbol (to_model_symbol i) = ssi_Symbol i"
  "DisplayName (to_model_symbol i) = ssi_DisplayName i"
  "Kind (to_model_symbol i) = ssi_Kind i"
  by (cases i; simp)+

text \<open>
  \<^verbatim>\<open>ScipDocumentToModelDocument\<close>: the document keeps, in order, exactly the occurrences with a
  symbol that is neither empty nor a diagnostic's; it keeps the diagnostics of every occurrence;
  its symbol map has distinct keys and maps a moniker to the last symbol with that moniker.
\<close>

theorem document_mapping:
  assumes "ScipDocumentToModelDocument (Some d) = Some doc"
  shows "Occurrences doc = map (\<lambda>o'. the (ScipOccurrenceToModelOccurrence (Some o')))
      (filter (\<lambda>o'. so_Symbol o' \<noteq> '''' \<and> \<not> prefix localDiagnosticsPrefix (so_Symbol o')) (sdoc_Occurrences d)) \<and>
    doc_Diagnostics doc = concat (map (\<lambda>o'. ScipDiagnosticToModelDiagnostic (Some o')) (sdoc_Occurrences d)) \<and>
    distinct (map fst (SymbolMap doc)) \<and>
    map_of (SymbolMap doc) s = find (\<lambda>i. si_Symbol i = s) (rev (Symbols doc))"
proof -
  from assms have doc: "doc = to_model_document d" by (simp add: ScipDocumentToModelDocument_def)
  then show ?thesis
    using symbol_map_distinct [of "[]"]
    by (cases d) (simp add: document_occurrences_eq symbol_map_lookup Let_def split: option.split)
qed

definition sample_occurrence :: "gostring \<Rightarrow> scip_occurrence" where
  "sample_occurrence s = \<lparr>so_Range = [1, 2, 3], so_Symbol = s, so_SymbolRoles = 1,
     so_OverrideDocumentation = [], so_SyntaxKind = 0,
     so_Diagnostics = [\<lparr>sd_Severity = 1, sd_Code = ''c'', sd_Message = ''m'', sd_Source = ''s'', sd_Tags = []\<rparr>],
     so_EnclosingRange = []\<rparr>"

theorem document_mapping_witness:
  "length (Occurrences (to_model_document (ScipDocument ''go'' ''a.go''
     [sample_occurrence ''x'', sample_occurrence '''', sample_occurrence ''local diagnostic_1''] [] ''''))) = 1"
  using document_mapping [of "ScipDocument ''go'' ''a.go''
     [sample_occurrence ''x'', sample_occurrence '''', sample_occurrence ''local diagnostic_1''] [] ''''" _ "''''"]
  by (simp add: ScipDocumentToModelDocument_def sample_occurrence_def localDiagnosticsPrefix_def)

lemma fill_package_sel:
  "spkg_Version (fill_package ds p) \<noteq> ''''"
  "spkg_Name (fill_package ds p) = (if spkg_Name p = '''' then namespace_name ds else spkg_Name p)"
  by (simp_all add: fill_package_def defaultPackageVersion_def Let_def)

text \<open>
  \<^verbatim>\<open>ParseScipSymbol\<close> fails exactly when the library's parser does; it keeps the descriptors, never
  leaves the version empty, and replaces only an empty package name, by the names of the symbol's
  namespaces.
\<close>

lemma ParseScipSymbol_spec:
  "ParseScipSymbol ps sy =
     (case ps sy of Ok raw \<Rightarrow> Ok (raw\<lparr>Package := map_option (fill_package (Descriptors raw)) (Package raw)\<rparr>)
      | Fail e \<Rightarrow> Fail e | Panic \<Rightarrow> Panic)"
  by (cases "ps sy") (simp_all add: ParseScipSymbol_def)

end
