(* ===== verification/TextOffsetSpec.thy ===== *)
theory TextOffsetSpec
  imports TextOffset
begin

text \<open>
  Texts as sequences of Unicode code points: their UTF-8 encoding, their UTF-16 width, and the round trip
  between offsets at rune boundaries and protocol positions.
\<close>

subsection \<open>Encoding\<close>

definition valid_rune :: "nat \<Rightarrow> bool" where
  "valid_rune r \<longleftrightarrow> r < 0xD800 \<or> (0xE000 \<le> r \<and> r < 0x110000)"

definition utf8_values :: "nat \<Rightarrow> nat list" where
  "utf8_values r =
     (if r < 0x80 then [r]
      else if r < 0x800 then [0xC0 + r div 64, 0x80 + r mod 64]
      else if r < 0x10000 then [0xE0 + r div 4096, 0x80 + r div 64 mod 64, 0x80 + r mod 64]
      else [0xF0 + r div 262144, 0x80 + r div 4096 mod 64, 0x80 + r div 64 mod 64, 0x80 + r mod 64])"

definition utf8_encode :: "nat \<Rightarrow> byte list" where
  "utf8_encode r = map char_of (utf8_values r)"

abbreviation encode_text :: "nat list \<Rightarrow> byte list" where
  "encode_text rs \<equiv> concat (map utf8_encode rs)"

definition utf16_width :: "nat \<Rightarrow> nat" where
  "utf16_width r = (if 0x10000 \<le> r then 2 else 1)"

abbreviation text_width :: "nat list \<Rightarrow> nat" where
  "text_width rs \<equiv> sum_list (map utf16_width rs)"

lemma utf8_values_byte: "valid_rune r \<Longrightarrow> \<forall>b \<in> set (utf8_values r). b < 256"
  by (auto simp: valid_rune_def utf8_values_def)

lemma utf8_values_length: "length (utf8_values r) \<le> 4" "utf8_values r \<noteq> []"
  by (auto simp: utf8_values_def)

lemma map_byte_val_encode: "valid_rune r \<Longrightarrow> map byte_val (utf8_encode r) = utf8_values r"
  using utf8_values_byte [of r] by (simp add: utf8_encode_def map_idI)

lemma digits3:
  fixes r :: nat
  obtains a b c where "r = a * 4096 + b * 64 + c" and "b < 64" and "c < 64"
    and "r div 4096 = a" and "r div 64 mod 64 = b" and "r mod 64 = c"
proof (rule that [of "r div 64 div 64" "r div 64 mod 64" "r mod 64"])
  have "r = (r div 64 div 64 * 64 + r div 64 mod 64) * 64 + r mod 64" by simp
  then show "r = r div 64 div 64 * 4096 + r div 64 mod 64 * 64 + r mod 64" by (simp only: distrib_right)
  show "r div 4096 = r div 64 div 64" using div_mult2_eq [of r 64 64] by simp
qed simp_all

lemma digits4:
  fixes r :: nat
  obtains a b c d where "r = a * 262144 + b * 4096 + c * 64 + d" and "b < 64" and "c < 64" and "d < 64"
    and "r div 262144 = a" and "r div 4096 mod 64 = b" and "r div 64 mod 64 = c" and "r mod 64 = d"
proof -
  obtain x c d where x: "r = x * 4096 + c * 64 + d" "c < 64" "d < 64" "r div 4096 = x" "r div 64 mod 64 = c" "r mod 64 = d"
    by (rule digits3 [of r])
  have "r div 262144 = x div 64" using div_mult2_eq [of r 4096 64] x(4) by simp
  moreover have "x div 64 * 64 + x mod 64 = x" by simp
  moreover from this have "r = x div 64 * 262144 + x mod 64 * 4096 + c * 64 + d" using x(1) by linarith
  ultimately show thesis using x that [of "x div 64" "x mod 64" c d] by simp
qed

lemma top_bits: "x < n \<Longrightarrow> c mod n = 0 \<Longrightarrow> (c + x) mod n = (x :: nat)"
  by (metis add_0 mod_add_left_eq mod_less)

lemma decode_values2:
  assumes "0x80 \<le> r" and "r < 0x800"
  shows "decode_bytes ([0xC0 + r div 64, 0x80 + r mod 64] @ bs) = (r, 2)"
proof -
  have h: "r div 64 < 32" "2 \<le> r div 64" using assms by auto
  have "(0xC0 + r div 64) mod 32 = r div 64" "(0x80 + r mod 64) mod 64 = r mod 64"
    using h by (auto intro: top_bits)
  moreover have "r mod 64 < 64" by simp
  moreover have "r div 64 * 64 + r mod 64 = r" by simp
  ultimately show ?thesis using h by (auto simp: second_ok_def)
qed

lemma decode_values3:
  assumes "0x800 \<le> r" and "r < 0x10000" and "valid_rune r"
  shows "decode_bytes ([0xE0 + r div 4096, 0x80 + r div 64 mod 64, 0x80 + r mod 64] @ bs) = (r, 3)"
proof -
  obtain a b c where r: "r = a * 4096 + b * 64 + c" and bc: "b < 64" "c < 64"
    and eq: "r div 4096 = a" "r div 64 mod 64 = b" "r mod 64 = c" by (rule digits3 [of r])
  have a: "a < 16" using assms(2) unfolding eq(1) [symmetric] by auto
  have "second_ok (0xE0 + a) (0x80 + b)"
  proof -
    have "a = 0 \<Longrightarrow> 32 \<le> b" using assms(1) r bc by linarith
    moreover have "a = 13 \<Longrightarrow> b < 32" using assms(3) r bc unfolding valid_rune_def by linarith
    ultimately show ?thesis using a bc by (auto simp: second_ok_def)
  qed
  moreover have "(0xE0 + a) mod 16 = a" "(0x80 + b) mod 64 = b" "(0x80 + c) mod 64 = c"
    using a bc by (auto intro: top_bits)
  ultimately show ?thesis unfolding eq using a bc r by simp
qed

lemma decode_values4:
  assumes "0x10000 \<le> r" and "r < 0x110000"
  shows "decode_bytes ([0xF0 + r div 262144, 0x80 + r div 4096 mod 64, 0x80 + r div 64 mod 64, 0x80 + r mod 64] @ bs) = (r, 4)"
proof -
  obtain a b c d where r: "r = a * 262144 + b * 4096 + c * 64 + d" and bcd: "b < 64" "c < 64" "d < 64"
    and eq: "r div 262144 = a" "r div 4096 mod 64 = b" "r div 64 mod 64 = c" "r mod 64 = d" by (rule digits4 [of r])
  have a: "a \<le> 4" using assms(2) unfolding eq(1) [symmetric] by auto
  have "second_ok (0xF0 + a) (0x80 + b)"
  proof -
    have "a = 0 \<Longrightarrow> 16 \<le> b" using assms(1) r bcd by linarith
    moreover have "a = 4 \<Longrightarrow> b < 16" using assms(2) r bcd by linarith
    ultimately show ?thesis using a bcd by (auto simp: second_ok_def)
  qed
  moreover have "(0xF0 + a) mod 8 = a" "(0x80 + b) mod 64 = b" "(0x80 + c) mod 64 = c" "(0x80 + d) mod 64 = d"
    using a bcd by (auto intro: top_bits)
  ultimately show ?thesis unfolding eq using a bcd r by simp
qed

lemma decode_values:
  assumes "valid_rune r"
  shows "decode_bytes (utf8_values r @ bs) = (r, length (utf8_values r))"
proof -
  consider "r < 0x80" | "0x80 \<le> r" "r < 0x800" | "0x800 \<le> r" "r < 0x10000" | "0x10000 \<le> r" by linarith
  then show ?thesis
  proof cases
    case 1 then show ?thesis by (simp add: utf8_values_def)
  next
    case 2 with decode_values2 [of r bs] show ?thesis by (simp add: utf8_values_def del: decode_bytes.simps)
  next
    case 3 with decode_values3 [of r bs] assms show ?thesis by (simp add: utf8_values_def del: decode_bytes.simps)
  next
    case 4 with decode_values4 [of r bs] assms show ?thesis
      by (simp add: utf8_values_def valid_rune_def del: decode_bytes.simps)
  qed
qed

lemma DecodeRune_encode:
  assumes "valid_rune r"
  shows "DecodeRune (utf8_encode r @ rest) = (r, length (utf8_encode r))"
proof -
  have "map byte_val (take 4 (utf8_encode r @ rest)) = utf8_values r @ map byte_val (take (4 - length (utf8_values r)) rest)"
    using utf8_values_length(1) [of r] map_byte_val_encode [OF assms]
    by (simp add: utf8_encode_def take_map)
  then show ?thesis using decode_values [OF assms] by (simp add: DecodeRune_def utf8_encode_def)
qed


text \<open>Only the code point 10 has the byte 10 in its encoding, and only ASCII code points have bytes below 128.\<close>

lemma newline_encode:
  assumes "valid_rune r"
  shows "CHR 0x0A \<in> set (utf8_encode r) \<longleftrightarrow> r = 10" and "utf8_encode 10 = [CHR 0x0A]"
proof -
  have "10 \<in> set (utf8_values r) \<longleftrightarrow> r = 10" by (auto simp: utf8_values_def)
  moreover have "CHR 0x0A \<in> set (utf8_encode r) \<longleftrightarrow> 10 \<in> byte_val ` set (utf8_encode r)"
  proof
    assume "10 \<in> byte_val ` set (utf8_encode r)"
    then obtain b where "b \<in> set (utf8_encode r)" "byte_val b = (10 :: nat)" by auto
    moreover from this have "b = CHR 0x0A" using of_char_eq_iff [of b "CHR 0x0A", where ?'a = nat] by simp
    ultimately show "CHR 0x0A \<in> set (utf8_encode r)" by simp
  qed force
  moreover have "byte_val ` set (utf8_encode r) = set (utf8_values r)"
    using map_byte_val_encode [OF assms] by (metis set_map)
  ultimately show "CHR 0x0A \<in> set (utf8_encode r) \<longleftrightarrow> r = 10" by simp
  show "utf8_encode 10 = [CHR 0x0A]" by code_simp
qed

lemma ascii_width:
  assumes "valid_rune r" and "\<forall>b \<in> set (utf8_encode r). byte_val b < (0x80 :: nat)"
  shows "length (utf8_encode r) = utf16_width r"
proof -
  have "\<forall>b \<in> set (utf8_values r). b < 0x80"
    using assms(2) map_byte_val_encode [OF assms(1)] by (metis (no_types, lifting) image_iff set_map)
  with utf8_values_length(2) [of r] have "hd (utf8_values r) < 0x80" by simp
  then have "r < 0x80" by (auto simp: utf8_values_def split: if_splits)
  then show ?thesis by (simp add: utf8_encode_def utf8_values_def utf16_width_def)
qed

lemma text_ascii_width:
  "list_all valid_rune rs \<Longrightarrow> \<forall>b \<in> set (encode_text rs). byte_val b < (0x80 :: nat) \<Longrightarrow>
   length (encode_text rs) = text_width rs"
  by (induction rs) (auto simp: ascii_width)

subsection \<open>Columns\<close>

lemma utf8_encode_ne: "utf8_encode r \<noteq> []"
  by (simp add: utf8_encode_def utf8_values_length)

lemma utf8_encode_head:
  assumes "valid_rune r" and "utf8_encode r = b # bs" and "byte_val b < (0x80 :: nat)"
  shows "bs = []" and "r < 0x80"
proof -
  have "utf8_values r = byte_val b # map byte_val bs"
    using map_byte_val_encode [OF assms(1)] assms(2) by simp
  then show "r < 0x80" "bs = []" using assms(3) by (auto simp: utf8_values_def split: if_splits)
qed

lemma UTF16Len_encode_step:
  assumes "valid_rune r"
  shows "UTF16Len (utf8_encode r @ rest) = utf16_width r + UTF16Len rest"
proof -
  obtain b bs where b: "utf8_encode r = b # bs" using utf8_encode_ne [of r] by (cases "utf8_encode r") auto
  show ?thesis
  proof (cases "byte_val b < (0x80 :: nat)")
    case True
    with utf8_encode_head [OF assms b] b show ?thesis
      by (subst UTF16Len.simps) (simp add: utf16_width_def)
  next
    case False
    have "DecodeRune (b # bs @ rest) = (r, length (utf8_encode r))"
      using DecodeRune_encode [OF assms, of rest] b by simp
    moreover have "drop (length (utf8_encode r)) (b # bs @ rest) = rest" using b by simp
    ultimately show ?thesis using False b by (subst UTF16Len.simps) (simp add: utf16_width_def)
  qed
qed

lemma UTF16Len_encode: "list_all valid_rune rs \<Longrightarrow> UTF16Len (encode_text rs) = text_width rs"
  by (induction rs) (simp_all add: UTF16Len_encode_step UTF16Len.simps [of "[]"])

lemma advance_encode:
  "list_all valid_rune rs \<Longrightarrow> 10 \<notin> set rs \<Longrightarrow> character = col16 + text_width rs \<Longrightarrow>
   advance_cols (encode_text rs @ rest) character col16 col8 = Ok (col8 + length (encode_text rs))"
proof (induction rs arbitrary: col16 col8)
  case Nil
  then show ?case by (simp add: advance_cols.simps)
next
  case (Cons r rs)
  have dec: "DecodeRune (utf8_encode r @ encode_text rs @ rest) = (r, length (utf8_encode r))"
    using Cons.prems(1) by (intro DecodeRune_encode) simp
  have size: "length (utf8_encode r) \<noteq> 0" "\<not> (length (utf8_encode r) = 1 \<and> r = RuneError)"
    using utf8_encode_ne [of r] by (auto simp: utf8_encode_def utf8_values_def RuneError_def)
  have lt: "col16 < character" using Cons.prems(3) by (simp add: utf16_width_def)
  have IH: "advance_cols (encode_text rs @ rest) character (col16 + utf16_width r) (col8 + length (utf8_encode r)) =
      Ok (col8 + length (utf8_encode r) + length (encode_text rs))"
    using Cons.prems by (intro Cons.IH) simp_all
  show ?case
    using dec size lt IH Cons.prems by (subst advance_cols.simps) (auto simp: utf16_width_def)
qed

subsection \<open>Lines\<close>

text \<open>The line starts a run of bytes contributes when it begins at offset \<open>o'\<close>.\<close>

fun nls :: "nat \<Rightarrow> byte list \<Rightarrow> nat list" where
  "nls o' [] = []"
| "nls o' (b # bs) = (if b = CHR 0x0A then [o' + 1] else []) @ nls (o' + 1) bs"

lemma init_lines_nls:
  "init_lines o' bs ls f = (ls @ nls o' bs, f \<or> (\<exists>b \<in> set bs. 0x80 \<le> (byte_val b :: nat)))"
  by (induction bs arbitrary: o' ls f) auto

lemma initLines_nls: "initLines content = (0 # nls 0 content, \<exists>b \<in> set content. 0x80 \<le> (byte_val b :: nat))"
  by (simp add: initLines_def init_lines_nls)

lemma nls_append: "nls o' (xs @ ys) = nls o' xs @ nls (o' + length xs) ys"
  by (induction xs arbitrary: o') auto

lemma nls_none: "CHR 0x0A \<notin> set xs \<Longrightarrow> nls o' xs = []"
  by (induction xs arbitrary: o') auto

lemma nls_bounds: "\<forall>i \<in> set (nls o' xs). o' < i \<and> i \<le> o' + length xs"
  by (induction xs arbitrary: o') fastforce+

lemma nls_length: "length (nls o' xs) \<le> length xs"
  by (induction xs arbitrary: o') (auto intro: le_SucI)

lemma nls_hd: "nls o' xs \<noteq> [] \<Longrightarrow> hd (nls o' xs) = o' + 1 \<longleftrightarrow> hd xs = CHR 0x0A"
proof (induction xs arbitrary: o')
  case (Cons b bs)
  have "nls (o' + 1) bs \<noteq> [] \<Longrightarrow> hd (nls (o' + 1) bs) \<noteq> o' + 1"
    using nls_bounds [of "o' + 1" bs] hd_in_set [of "nls (o' + 1) bs"] by fastforce
  with Cons.prems show ?case by auto
qed simp

text \<open>The search finds the only place where the predicate changes.\<close>

lemma sort_search_eq:
  "i \<le> n \<Longrightarrow> n \<le> j \<Longrightarrow> (\<And>h. i \<le> h \<Longrightarrow> h < j \<Longrightarrow> f h \<longleftrightarrow> n \<le> h) \<Longrightarrow> sort_search f i j = n"
proof (induction f i j rule: sort_search.induct)
  case (1 f i j)
  show ?case
  proof (cases "i < j")
    case True
    let ?h = "(i + j) div 2"
    have h: "i \<le> ?h" "?h < j" using True by auto
    show ?thesis
    proof (cases "f ?h")
      case True
      with 1(5) h have "n \<le> ?h" by simp
      with 1(2) [OF \<open>i < j\<close> refl] True 1(3,5) h show ?thesis
        using \<open>i < j\<close> by (subst sort_search.simps) (simp add: Let_def)
    next
      case False
      with 1(5) h have "?h + 1 \<le> n" by (metis not_less_eq_eq Suc_eq_plus1)
      with 1(1) [OF \<open>i < j\<close> refl] False 1(4,5) h show ?thesis
        using \<open>i < j\<close> by (subst sort_search.simps) (simp add: Let_def)
    qed
  next
    case False
    with 1(3,4) show ?thesis by (subst sort_search.simps) simp
  qed
qed

lemma nth_last: "xs \<noteq> [] \<Longrightarrow> (xs @ ys) ! (length xs - 1) = last xs"
  by (simp add: last_conv_nth nth_append)

lemma line_start:
  assumes "lines = [] \<or> last lines = CHR 0x0A" and "CHR 0x0A \<notin> set start"
  shows "(0 # nls 0 lines @ nls (length lines) (start @ rest)) ! length (nls 0 lines) = length lines"
proof (cases "lines = []")
  case False
  then have l: "lines = butlast lines @ [CHR 0x0A]" using assms(1) by (metis append_butlast_last_id)
  from nls_append [of 0 "butlast lines" "[CHR 0x0A]"]
  have "nls 0 lines = nls 0 (butlast lines) @ [length (butlast lines) + 1]"
    unfolding l [symmetric] by simp
  moreover have "length (butlast lines) + 1 = length lines" using False by simp
  ultimately show ?thesis by (simp add: nth_append)
qed simp

text \<open>A text in three parts: whole lines, the start of the line that holds the offset, and the rest.\<close>

lemma line_of_split:
  assumes "lines = [] \<or> last lines = CHR 0x0A" and "CHR 0x0A \<notin> set start"
  shows "line_of (lines @ start @ rest) (length lines + length start) =
    (length (nls 0 lines), length lines,
     (rest = [] \<or> hd rest = CHR 0x0A) \<and> lines @ start \<noteq> [] \<and> last (lines @ start) = CHR 0x0D)"
proof -
  let ?n = "length (nls 0 lines)" and ?o = "length lines + length start" and ?content = "lines @ start @ rest"
  let ?ls = "0 # nls 0 lines @ nls ?o rest"
  have ls: "fst (initLines ?content) = ?ls"
    using assms(2) by (simp add: initLines_nls nls_append nls_none)
  have start: "?ls ! ?n = length lines"
    using line_start [OF assms, of rest] assms(2) by (simp add: nls_append nls_none)
  have le: "?ls ! h \<le> ?o" if "h \<le> ?n" for h
  proof -
    have "?ls ! h \<in> set (0 # nls 0 lines)"
      using that nth_mem [of h "0 # nls 0 lines"] by (auto simp: nth_append nth_Cons')
    then show ?thesis using nls_bounds [of 0 lines] by auto
  qed
  have gt: "?o < ?ls ! h" if "?n < h" "h < length ?ls" for h
  proof -
    have "?ls ! h = nls ?o rest ! (h - 1 - ?n)" using that by (auto simp: nth_append nth_Cons')
    moreover have "h - 1 - ?n < length (nls ?o rest)" using that by simp
    ultimately show ?thesis using nls_bounds [of ?o rest] nth_mem by metis
  qed
  have search: "sort_search (\<lambda>i. ?o < ?ls ! i) 0 (length ?ls) = ?n + 1"
  proof (rule sort_search_eq)
    fix h assume "h < length ?ls"
    then show "?o < ?ls ! h \<longleftrightarrow> ?n + 1 \<le> h" using le [of h] gt [of h] by (cases "h \<le> ?n") auto
  qed simp_all
  have eol: "?o = (if ?n + 1 = length ?ls then length ?content else ?ls ! (?n + 1) - 1) \<longleftrightarrow> rest = [] \<or> hd rest = CHR 0x0A"
  proof (cases "nls ?o rest")
    case Nil
    then have "rest \<noteq> [] \<Longrightarrow> hd rest \<noteq> CHR 0x0A" by (cases rest) auto
    with Nil show ?thesis by auto
  next
    case (Cons x xs)
    then have "rest \<noteq> []" "?o < x" using nls_bounds [of ?o rest] by auto
    moreover have "x = ?o + 1 \<longleftrightarrow> hd rest = CHR 0x0A" using nls_hd [of ?o rest] Cons by simp
    moreover have "?ls ! (?n + 1) = x" "?n + 1 \<noteq> length ?ls" using Cons by (simp_all add: nth_append)
    ultimately show ?thesis by auto
  qed
  have last: "?content ! (?o - 1) = last (lines @ start)" if "lines @ start \<noteq> []"
    using nth_last [OF that, of rest] by simp
  have pos: "0 < ?o \<longleftrightarrow> lines @ start \<noteq> []" by auto
  from eol show ?thesis
    unfolding line_of_def ls Let_def search using start last pos by auto
qed

subsection \<open>The round trip\<close>

lemma last_newline_split:
  obtains xs ys where "rs = xs @ ys" and "xs = [] \<or> last xs = 10" and "(10 :: nat) \<notin> set ys"
proof (induction rs arbitrary: thesis rule: rev_induct)
  case Nil
  then show ?case by simp
next
  case (snoc r rs)
  show ?case
  proof (cases "r = 10")
    case True
    with snoc.prems [of "rs @ [r]" "[]"] show ?thesis by simp
  next
    case False
    obtain xs ys where "rs = xs @ ys" "xs = [] \<or> last xs = 10" "10 \<notin> set ys" by (rule snoc.IH)
    with False snoc.prems [of xs "ys @ [r]"] show ?thesis by simp
  qed
qed

lemma encode_newlines:
  "list_all valid_rune rs \<Longrightarrow> CHR 0x0A \<in> set (encode_text rs) \<longleftrightarrow> 10 \<in> set rs"
  by (induction rs) (auto simp: newline_encode)

lemma last_encode_text: "rs \<noteq> [] \<Longrightarrow> last (encode_text rs) = last (utf8_encode (last rs))"
  by (induction rs rule: rev_induct) (auto simp: utf8_encode_ne)

lemma encode_last:
  assumes "list_all valid_rune rs" and "rs \<noteq> []" and "valid_rune c" and "c < 0x80"
  shows "last (encode_text rs) = char_of c \<longleftrightarrow> last rs = c"
proof -
  have "valid_rune (last rs)" using assms(1,2) by (simp add: list_all_iff)
  have "last (encode_text rs) = last (utf8_encode (last rs))"
    using assms(2) by (rule last_encode_text)
  also have "\<dots> = char_of (last (utf8_values (last rs)))"
    by (simp add: utf8_encode_def last_map utf8_values_length)
  also have "\<dots> = char_of c \<longleftrightarrow> last (utf8_values (last rs)) = c"
  proof -
    have "last (utf8_values (last rs)) < 256"
      using utf8_values_byte [OF \<open>valid_rune (last rs)\<close>] utf8_values_length(2) by simp
    moreover have "c < 256" using assms(4) by simp
    ultimately show ?thesis by (metis byte_val_char_of)
  qed
  also have "\<dots> \<longleftrightarrow> last rs = c" using assms(4) by (auto simp: utf8_values_def)
  finally show ?thesis .
qed

lemma encode_hd:
  assumes "list_all valid_rune rs" and "rs \<noteq> []"
  shows "hd (encode_text rs) = CHR 0x0A \<longleftrightarrow> hd rs = 10"
proof -
  obtain r rs' where rs: "rs = r # rs'" using assms(2) by (cases rs) auto
  have "hd (encode_text rs) = hd (utf8_encode r)" using rs utf8_encode_ne [of r] by simp
  moreover have "hd (utf8_encode r) = CHR 0x0A \<longleftrightarrow> r = 10"
  proof
    assume "hd (utf8_encode r) = CHR 0x0A"
    then show "r = 10" using newline_encode(1) [of r] assms(1) rs hd_in_set [OF utf8_encode_ne [of r]] by simp
  qed (use newline_encode(2) [of 10] in \<open>simp add: valid_rune_def\<close>)
  ultimately show ?thesis using rs by simp
qed

lemma text_width_le: "list_all valid_rune rs \<Longrightarrow> text_width rs \<le> length (encode_text rs)"
  by (induction rs) (auto simp: utf16_width_def utf8_encode_def utf8_values_def)

text \<open>Whether an offset after the runes \<open>rs1\<close> and before \<open>rs2\<close> denotes a carriage return at the end of a line.\<close>

definition at_cr :: "nat list \<Rightarrow> nat list \<Rightarrow> bool" where
  "at_cr rs1 rs2 \<longleftrightarrow> rs1 \<noteq> [] \<and> last rs1 = 13 \<and> (rs2 = [] \<or> hd rs2 = 10)"

text \<open>The runes of the last line.\<close>

definition last_line :: "nat list \<Rightarrow> nat list" where
  "last_line rs = rev (takeWhile (\<lambda>r. r \<noteq> 10) (rev rs))"

lemma last_line_split:
  assumes "xs = [] \<or> last xs = 10" and "10 \<notin> set ys"
  shows "last_line (xs @ ys) = ys"
proof -
  have "takeWhile (\<lambda>r. r \<noteq> 10) (rev ys @ rev xs) = rev ys @ takeWhile (\<lambda>r. r \<noteq> 10) (rev xs)"
    using assms(2) by (intro takeWhile_append2) auto
  moreover have "takeWhile (\<lambda>r. r \<noteq> 10) (rev xs) = []"
    using assms(1) by (cases xs rule: rev_cases) auto
  ultimately show ?thesis by (simp add: last_line_def)
qed

lemma nls_encode:
  assumes "list_all valid_rune rs"
  shows "length (nls o' (encode_text rs)) = length (filter (\<lambda>r. r = 10) rs)"
  using assms
proof (induction rs arbitrary: o')
  case (Cons r rs)
  have "length (nls o' (utf8_encode r)) = (if r = 10 then 1 else 0)"
    using Cons.prems newline_encode [of r] by (auto simp: nls_none)
  with Cons show ?case by (simp add: nls_append)
qed simp

lemma lineCol16_encode:
  assumes "list_all valid_rune (xs @ ys @ rs2)" and "xs = [] \<or> last xs = 10" and "10 \<notin> set ys"
  shows "lineCol16 (encode_text (xs @ ys @ rs2)) (length (encode_text (xs @ ys))) =
    (length (filter (\<lambda>r. r = 10) xs), int (text_width ys) - (if at_cr (xs @ ys) rs2 then 1 else 0))"
proof -
  let ?A = "encode_text xs" and ?M = "encode_text ys" and ?R = "encode_text rs2"
  have v: "list_all valid_rune xs" "list_all valid_rune ys" "list_all valid_rune rs2" "list_all valid_rune (xs @ ys)"
    using assms(1) by simp_all
  have empty: "encode_text zs = [] \<longleftrightarrow> zs = []" for zs by (cases zs) (auto simp: utf8_encode_ne)
  have chars: "char_of (10 :: nat) = CHR 0x0A" "char_of (13 :: nat) = CHR 0x0D" by code_simp+
  have vr: "valid_rune 10" "valid_rune 13" by (simp_all add: valid_rune_def)
  have A: "?A = [] \<or> last ?A = CHR 0x0A"
    using assms(2) encode_last [OF v(1) _ vr(1)] chars empty [of xs] by auto
  have M: "CHR 0x0A \<notin> set ?M" using encode_newlines [OF v(2)] assms(3) by simp
  have cr: "(?R = [] \<or> hd ?R = CHR 0x0A) \<and> ?A @ ?M \<noteq> [] \<and> last (?A @ ?M) = CHR 0x0D \<longleftrightarrow> at_cr (xs @ ys) rs2"
    using encode_hd [OF v(3)] encode_last [OF v(4) _ vr(2)] chars empty [of rs2] empty [of "xs @ ys"]
    by (auto simp: at_cr_def)
  have line: "line_of (?A @ ?M @ ?R) (length ?A + length ?M) =
      (length (filter (\<lambda>r. r = 10) xs), length ?A, at_cr (xs @ ys) rs2)"
    using line_of_split [OF A M, of ?R] cr nls_encode [OF v(1)] by simp
  have "(if snd (initLines (?A @ ?M @ ?R)) then UTF16Len ?M else length ?M) = text_width ys"
    using UTF16Len_encode [OF v(2)] text_ascii_width [OF v(2)] by (auto simp: initLines_nls not_le)
  with line show ?thesis by (auto simp: lineCol16_def split: if_splits)
qed

lemma PositionOffset_encode:
  assumes "list_all valid_rune xs" and "list_all valid_rune zs" and "xs = [] \<or> last xs = 10" and "10 \<notin> set zs"
    and "length (encode_text xs @ encode_text zs @ rest) + 1 < 2 ^ 32"
    and "unat (Line p) = length (filter (\<lambda>r. r = 10) xs)" and "unat (Character p) = text_width zs"
  shows "PositionOffset (encode_text xs @ encode_text zs @ rest) p = Ok (int (length (encode_text xs) + length (encode_text zs)))"
proof -
  let ?content = "encode_text xs @ encode_text zs @ rest" and ?n = "length (filter (\<lambda>r. r = 10) xs)"
  let ?ls = "fst (initLines ?content)"
  have A: "encode_text xs = [] \<or> last (encode_text xs) = CHR 0x0A"
  proof -
    have "char_of (10 :: nat) = CHR 0x0A" by code_simp
    with assms(3) encode_last [OF assms(1), of 10] show ?thesis by (cases xs) (auto simp: valid_rune_def)
  qed
  have M: "CHR 0x0A \<notin> set (encode_text zs)" using encode_newlines [OF assms(2)] assms(4) by simp
  have start: "?ls ! ?n = length (encode_text xs)" and less: "?n < length ?ls"
    using line_start [OF A M, of rest] nls_encode [OF assms(1), of 0] by (simp_all add: initLines_nls nls_append)
  have "length ?ls < 2 ^ 32"
    using nls_length [of 0 ?content] assms(5) by (simp add: initLines_nls)
  then have n: "unat (of_nat (length ?ls) :: 32 word) = length ?ls" by (simp add: unat32_of_nat)
  have "\<not> of_nat (length ?ls) < Line p" "Line p \<noteq> of_nat (length ?ls)"
    using less n assms(6) by (auto simp: word_less_nat_alt)
  moreover have "advance_cols (drop (length (encode_text xs)) ?content) (unat (Character p)) 0 0 = Ok (length (encode_text zs))"
    using advance_encode [OF assms(2,4), of "unat (Character p)" 0 rest 0] assms(7) by simp
  ultimately show ?thesis using start assms(6) by (simp add: PositionOffset_def Let_def)
qed

lemma roundtrip_at:
  assumes "list_all valid_rune (rs1 @ rs2)" and "length (encode_text (rs1 @ rs2)) + 1 < 2 ^ 32"
  defines "cr \<equiv> if at_cr rs1 rs2 then 1 else 0"
  shows "\<exists>p. OffsetPosition (encode_text (rs1 @ rs2)) (int (length (encode_text rs1))) = Ok p \<and>
    unat (Line p) = length (filter (\<lambda>r. r = 10) rs1) \<and>
    unat (Character p) = text_width (last_line rs1) - cr \<and>
    PositionOffset (encode_text (rs1 @ rs2)) p = Ok (int (length (encode_text rs1) - cr))"
proof -
  obtain xs ys where rs1: "rs1 = xs @ ys" and xs: "xs = [] \<or> last xs = 10" and ys: "10 \<notin> set ys"
    by (rule last_newline_split)
  define zs where "zs = (if at_cr rs1 rs2 then butlast ys else ys)"
  have v: "list_all valid_rune xs" "list_all valid_rune ys" using assms(1) rs1 by simp_all
  have cr_ys: "at_cr rs1 rs2 \<Longrightarrow> ys = butlast ys @ [13]"
    using xs rs1 by (cases ys rule: rev_cases) (auto simp: at_cr_def)
  then have ys_zs: "ys = zs @ (if at_cr rs1 rs2 then [13] else [])" by (simp add: zs_def)
  have one: "utf16_width 13 = 1" "length (utf8_encode 13) = 1"
    by (simp_all add: utf16_width_def utf8_encode_def utf8_values_def)
  have width: "text_width zs = text_width ys - cr" "length (encode_text zs) = length (encode_text ys) - cr"
    using arg_cong [OF ys_zs, of text_width] arg_cong [OF ys_zs, of "\<lambda>rs. length (encode_text rs)"] one
    by (auto simp: cr_def split: if_splits)
  have le: "cr \<le> text_width ys" "cr \<le> length (encode_text ys)"
    using arg_cong [OF ys_zs, of text_width] arg_cong [OF ys_zs, of "\<lambda>rs. length (encode_text rs)"] one
    by (auto simp: cr_def)
  let ?n = "length (filter (\<lambda>r. r = 10) xs)"
  let ?p = "\<lparr>Line = of_nat ?n, Character = of_int (int (text_width ys) - int cr)\<rparr> :: position"
  have off: "OffsetPosition (encode_text (rs1 @ rs2)) (int (length (encode_text rs1))) = Ok ?p"
    using lineCol16_encode [of xs ys rs2] assms(1) xs ys rs1 by (simp add: OffsetPosition_def cr_def nat_int_add)
  have "?n < 2 ^ 32" "text_width ys < 2 ^ 32"
  proof -
    have "?n \<le> length (encode_text xs)"
      using nls_encode [OF v(1), of 0] nls_length [of 0 "encode_text xs"] by simp
    with text_width_le [OF v(2)] assms(2) rs1 show "?n < 2 ^ 32" "text_width ys < 2 ^ 32" by simp_all
  qed
  moreover have "of_int (int (text_width ys) - int cr) = (of_nat (text_width ys - cr) :: 32 word)"
    using le(1) by (metis of_int_of_nat_eq of_nat_diff)
  ultimately have p: "unat (Line ?p) = ?n" "unat (Character ?p) = text_width ys - cr"
    by (simp_all add: unat32_of_nat)
  have "list_all valid_rune zs" "10 \<notin> set zs" using v(2) ys by (auto simp: zs_def list_all_iff dest: in_set_butlastD)
  moreover have "encode_text (rs1 @ rs2) =
      encode_text xs @ encode_text zs @ encode_text ((if at_cr rs1 rs2 then [13] else []) @ rs2)"
  proof -
    have "encode_text ys = encode_text zs @ encode_text (if at_cr rs1 rs2 then [13] else [])"
      using arg_cong [OF ys_zs, of encode_text] by simp
    then show ?thesis unfolding rs1 by simp
  qed
  ultimately have "PositionOffset (encode_text (rs1 @ rs2)) ?p = Ok (int (length (encode_text xs) + length (encode_text zs)))"
    using PositionOffset_encode [OF v(1) _ xs, of zs "encode_text ((if at_cr rs1 rs2 then [13] else []) @ rs2)" ?p] p width assms(2)
    by (simp only: simp_thms)
  with off p width le rs1 ys show ?thesis
    by (intro exI [of _ ?p]) (auto simp: last_line_split [OF xs ys] filter_empty_conv)
qed

text \<open>
  C12. For every UTF-8 text shorter than \<^verbatim>\<open>2^32 - 1\<close> bytes and every offset at a rune boundary,
  \<^verbatim>\<open>OffsetPosition\<close> gives the number of newlines before the offset and the UTF-16 width of the text since
  the last one, and \<^verbatim>\<open>PositionOffset\<close> maps that position back to the offset; a carriage return at the end of
  a line is stepped over in both.
\<close>

theorem offset_position_roundtrip:
  assumes "list_all valid_rune (rs1 @ rs2)" and "length (encode_text (rs1 @ rs2)) + 1 < 2 ^ 32"
  shows "\<exists>p. OffsetPosition (encode_text (rs1 @ rs2)) (int (length (encode_text rs1))) = Ok p \<and>
    unat (Line p) = length (filter (\<lambda>r. r = 10) rs1) \<and>
    unat (Character p) = text_width (last_line rs1) - (if at_cr rs1 rs2 then 1 else 0) \<and>
    PositionOffset (encode_text (rs1 @ rs2)) p = Ok (int (length (encode_text rs1) - (if at_cr rs1 rs2 then 1 else 0)))"
  using assms by (rule roundtrip_at)

text \<open>The text \<^verbatim>\<open>a\<close>, newline, an emoji of two UTF-16 codes, \<^verbatim>\<open>b\<close>: the offset after the emoji.\<close>

theorem offset_position_roundtrip_witness:
  "\<exists>p. OffsetPosition (encode_text [97, 10, 0x1F600, 98]) 6 = Ok p \<and> unat (Line p) = 1 \<and> unat (Character p) = 2 \<and>
     PositionOffset (encode_text [97, 10, 0x1F600, 98]) p = Ok 6"
  using offset_position_roundtrip [of "[97, 10, 0x1F600]" "[98]"]
  by (simp add: valid_rune_def utf8_encode_def utf8_values_def at_cr_def last_line_def utf16_width_def)

end
