(* ===== verification/TextEdits.thy ===== *)
theory TextEdits
  imports TextOffsetSpec
begin

text \<open>
  \<^verbatim>\<open>src/ulsp/mapper/lsp.go\<close> and \<^verbatim>\<open>src/ulsp/mapper/document.go\<close>: content changes of the editor, diffs turned
  into text edits, and regular-expression matches turned into ranges; also the mappers from JSON-RPC
  parameters. \<^verbatim>\<open>json.Unmarshal\<close>, \<^verbatim>\<open>json.Marshal\<close> and the regular-expression engine are arguments.
\<close>

subsection \<open>Requests\<close>

text \<open>
  Every \<^verbatim>\<open>RequestTo...Params\<close> decodes the raw parameters into the type of its result; the decoder for
  that type is the argument.
\<close>

definition wrapErrParse :: "go_error \<Rightarrow> go_error" where
  "wrapErrParse err = Join (External ''jsonrpc2.ErrParse'') err"

definition RequestToParams :: "(byte list \<Rightarrow> 'a outcome) \<Rightarrow> byte list \<Rightarrow> 'a outcome" where
  "RequestToParams Unmarshal params =
     (case Unmarshal params of Ok p \<Rightarrow> Ok p | Fail err \<Rightarrow> Fail (wrapErrParse err) | Panic \<Rightarrow> Panic)"

record 'arg execute_command_params =
  ec_Command :: gostring
  ec_Arguments :: "'arg list"

fun marshal_arguments :: "('a \<Rightarrow> byte list outcome) \<Rightarrow> 'a list \<Rightarrow> byte list list outcome" where
  "marshal_arguments Marshal [] = Ok []"
| "marshal_arguments Marshal (arg # args) =
     (case Marshal arg of
        Ok rawArg \<Rightarrow> obind (marshal_arguments Marshal args) (\<lambda>rawArgs. Ok (rawArg # rawArgs))
      | Fail err \<Rightarrow> Fail (wrapErrParse err)
      | Panic \<Rightarrow> Panic)"

definition RequestToExecuteCommandParams ::
  "(byte list \<Rightarrow> 'a execute_command_params outcome) \<Rightarrow> ('a \<Rightarrow> byte list outcome) \<Rightarrow> byte list \<Rightarrow>
   byte list execute_command_params outcome" where
  "RequestToExecuteCommandParams Unmarshal Marshal params =
     obind (RequestToParams Unmarshal params) (\<lambda>p.
     obind (marshal_arguments Marshal (ec_Arguments p)) (\<lambda>rawArgs.
       Ok \<lparr>ec_Command = ec_Command p, ec_Arguments = rawArgs\<rparr>))"

subsection \<open>Code lenses and code actions\<close>

record 'arg lsp_command =
  cmd_Title :: gostring
  cmd_Command :: gostring
  cmd_Arguments :: "'arg list"

record 'arg code_lens =
  cl_Range :: lsp_range
  cl_Command :: "'arg lsp_command"

record 'arg code_action =
  ca_Title :: gostring
  ca_Kind :: gostring
  ca_Command :: "'arg lsp_command"

record 'arg code_action_with_range =
  cwr_CodeAction :: "'arg code_action"
  cwr_Range :: lsp_range

definition NewCodeLens :: "lsp_range \<Rightarrow> gostring \<Rightarrow> gostring \<Rightarrow> 'arg \<Rightarrow> 'arg code_lens" where
  "NewCodeLens placementRange title command arguments =
     \<lparr>cl_Range = placementRange,
      cl_Command = \<lparr>cmd_Title = title, cmd_Command = command, cmd_Arguments = [arguments]\<rparr>\<rparr>"

definition NewCodeAction :: "gostring \<Rightarrow> gostring \<Rightarrow> gostring \<Rightarrow> 'arg \<Rightarrow> 'arg code_action" where
  "NewCodeAction title command kind arguments =
     \<lparr>ca_Title = title, ca_Kind = kind,
      ca_Command = \<lparr>cmd_Title = title, cmd_Command = command, cmd_Arguments = [arguments]\<rparr>\<rparr>"

definition NewCodeActionWithRange ::
  "lsp_range \<Rightarrow> gostring \<Rightarrow> gostring \<Rightarrow> gostring \<Rightarrow> 'arg \<Rightarrow> 'arg code_action_with_range" where
  "NewCodeActionWithRange placementRange title command kind arguments =
     \<lparr>cwr_CodeAction = NewCodeAction title command kind arguments, cwr_Range = placementRange\<rparr>"

subsection \<open>Content changes\<close>

record content_change =
  cc_Range :: lsp_range
  cc_Text :: gostring

text \<open>
  The offset mapper \<open>m\<close> is built once from the initial text and serves every change. Slicing beyond the
  length panics; a start beyond the length whose end is not is only reached with a reversed range.
\<close>

fun apply_changes :: "byte list \<Rightarrow> byte list \<Rightarrow> content_change list \<Rightarrow> byte list outcome" where
  "apply_changes m content [] = Ok content"
| "apply_changes m content (change # changes) =
     obind (wrap_err (Errorf ''unable to apply changes: %w'' []) (PositionOffset m (Start (cc_Range change)))) (\<lambda>start.
     obind (wrap_err (Errorf ''unable to apply changes: %w'' []) (PositionOffset m (End (cc_Range change)))) (\<lambda>end'.
       if int (length content) < start \<or> int (length content) < end' then Panic
       else apply_changes m (take (nat start) content @ cc_Text change @ drop (nat end') content) changes))"

definition ApplyContentChanges :: "gostring \<Rightarrow> content_change list \<Rightarrow> gostring outcome" where
  "ApplyContentChanges initialText changes = apply_changes initialText initialText changes"

subsection \<open>Diffs and edits\<close>

datatype diff_op = DiffDelete | DiffEqual | DiffInsert

record diff =
  diff_Type :: diff_op
  diff_Text :: gostring

record edit_offset =
  eo_start :: nat
  eo_end :: nat
  eo_text :: gostring

record text_edit =
  te_Range :: lsp_range
  te_NewText :: gostring

fun diffs_loop :: "diff list \<Rightarrow> nat \<Rightarrow> byte list \<Rightarrow> edit_offset list \<Rightarrow> byte list \<times> edit_offset list" where
  "diffs_loop [] offset initialText edits = (initialText, edits)"
| "diffs_loop (d # ds) offset initialText edits =
     (let start = offset in
      case diff_Type d of
        DiffDelete \<Rightarrow>
          diffs_loop ds (offset + length (diff_Text d)) (initialText @ diff_Text d)
            (edits @ [\<lparr>eo_start = start, eo_end = offset + length (diff_Text d), eo_text = []\<rparr>])
      | DiffEqual \<Rightarrow> diffs_loop ds (offset + length (diff_Text d)) (initialText @ diff_Text d) edits
      | DiffInsert \<Rightarrow>
          diffs_loop ds offset initialText (edits @ [\<lparr>eo_start = start, eo_end = start, eo_text = diff_Text d\<rparr>]))"

definition DiffsToEditOffsets :: "diff list \<Rightarrow> byte list \<times> edit_offset list" where
  "DiffsToEditOffsets diffs = diffs_loop diffs 0 [] []"

definition PositionsToRange :: "position \<Rightarrow> position \<Rightarrow> lsp_range" where
  "PositionsToRange start end' = \<lparr>Start = start, End = end'\<rparr>"

definition rangeToTextEdit :: "lsp_range \<Rightarrow> gostring \<Rightarrow> text_edit" where
  "rangeToTextEdit r text = \<lparr>te_Range = r, te_NewText = text\<rparr>"

fun EditOffsetsToTextEdits :: "byte list \<Rightarrow> edit_offset list \<Rightarrow> text_edit list outcome" where
  "EditOffsetsToTextEdits initialText [] = Ok []"
| "EditOffsetsToTextEdits initialText (edit # edits) =
     obind (OffsetPosition initialText (int (eo_start edit))) (\<lambda>startPosition.
     obind (OffsetPosition initialText (int (eo_end edit))) (\<lambda>endPosition.
     obind (EditOffsetsToTextEdits initialText edits) (\<lambda>protocolTextEdits.
       Ok (rangeToTextEdit (PositionsToRange startPosition endPosition) (eo_text edit) # protocolTextEdits))))"

definition DiffsToTextEdits :: "diff list \<Rightarrow> text_edit list outcome" where
  "DiffsToTextEdits diffs =
     (let (foundText, edits) = DiffsToEditOffsets diffs in EditOffsetsToTextEdits foundText edits)"

subsection \<open>Regular-expression matches\<close>

record regex_match =
  rm_Range :: lsp_range
  TextMatch :: gostring
  CapturingGroups :: "gostring list"

text \<open>
  The two calls to the engine are arguments: the submatches of every match (the full match first) and the
  index pairs of every match, \<open>None\<close> for the nil of no match. An index out of range panics.
\<close>

fun match_results :: "text_edit list \<Rightarrow> gostring list list \<Rightarrow> regex_match list outcome" where
  "match_results [] textSubmatches = Ok []"
| "match_results (r # ranges) textSubmatches =
     (case textSubmatches of
        (m # groups) # rest \<Rightarrow>
          obind (match_results ranges rest) (\<lambda>results.
            Ok (\<lparr>rm_Range = te_Range r, TextMatch = m, CapturingGroups = groups\<rparr> # results))
      | _ \<Rightarrow> Panic)"

definition FindAllStringMatches ::
  "(gostring \<Rightarrow> gostring list list) \<Rightarrow> (gostring \<Rightarrow> (nat \<times> nat) list option) \<Rightarrow> gostring \<Rightarrow>
   regex_match list option outcome" where
  "FindAllStringMatches submatches matchIndexes text =
     (case matchIndexes text of
        None \<Rightarrow> Ok None
      | Some indexMatches \<Rightarrow>
          (case EditOffsetsToTextEdits text (map (\<lambda>(i, j). \<lparr>eo_start = i, eo_end = j, eo_text = []\<rparr>) indexMatches) of
             Fail e \<Rightarrow> Ok None
           | Panic \<Rightarrow> Panic
           | Ok ranges \<Rightarrow> obind (match_results ranges (submatches text)) (\<lambda>rs. Ok (Some rs))))"

record text_document_edit =
  tde_URI :: uri
  tde_Edits :: "text_edit list"

record apply_edit_params =
  ae_Label :: gostring
  ae_DocumentChanges :: "text_document_edit list"

definition SingleEditToApplyWorkspaceEditParams :: "gostring \<Rightarrow> uri \<Rightarrow> lsp_range \<Rightarrow> gostring \<Rightarrow> apply_edit_params" where
  "SingleEditToApplyWorkspaceEditParams label doc editRange newText =
     \<lparr>ae_Label = label,
      ae_DocumentChanges = [\<lparr>tde_URI = doc, tde_Edits = [\<lparr>te_Range = editRange, te_NewText = newText\<rparr>]\<rparr>]\<rparr>"

subsection \<open>Specification\<close>

text \<open>The texts a diff leads from and to, and the effect of edits that all refer to the initial text.\<close>

definition diff_source :: "diff list \<Rightarrow> byte list" where
  "diff_source ds = concat (map diff_Text (filter (\<lambda>d. diff_Type d \<noteq> DiffInsert) ds))"

definition diff_target :: "diff list \<Rightarrow> byte list" where
  "diff_target ds = concat (map diff_Text (filter (\<lambda>d. diff_Type d \<noteq> DiffDelete) ds))"

fun apply_edits :: "nat \<Rightarrow> byte list \<Rightarrow> edit_offset list \<Rightarrow> byte list" where
  "apply_edits pos text [] = drop pos text"
| "apply_edits pos text (e # es) =
     take (eo_start e - pos) (drop pos text) @ eo_text e @ apply_edits (eo_end e) text es"

lemma diffs_loop_fst: "fst (diffs_loop ds offset t es) = t @ diff_source ds"
  by (induction ds arbitrary: offset t es) (auto simp: diff_source_def Let_def split: diff_op.split)

lemma diffs_loop_acc: "snd (diffs_loop ds offset t es) = es @ snd (diffs_loop ds offset t' [])"
proof (induction ds arbitrary: offset t t' es)
  case (Cons d ds)
  note IH = Cons.IH
  show ?case
  proof (cases "diff_Type d")
    case DiffDelete
    let ?e = "\<lparr>eo_start = offset, eo_end = offset + length (diff_Text d), eo_text = []\<rparr>"
    from IH [of "offset + length (diff_Text d)" "t @ diff_Text d" "es @ [?e]" t']
      IH [of "offset + length (diff_Text d)" "t' @ diff_Text d" "[?e]" t'] DiffDelete
    show ?thesis by simp
  next
    case DiffEqual
    with IH [of "offset + length (diff_Text d)" "t @ diff_Text d" es "t' @ diff_Text d"] show ?thesis by simp
  next
    case DiffInsert
    let ?e = "\<lparr>eo_start = offset, eo_end = offset, eo_text = diff_Text d\<rparr>"
    from IH [of offset t "es @ [?e]" t'] IH [of offset t' "[?e]" t'] DiffInsert show ?thesis by simp
  qed
qed simp

text \<open>The edits of a diff from an offset on.\<close>

definition edits_from :: "nat \<Rightarrow> diff list \<Rightarrow> edit_offset list" where
  "edits_from offset ds = snd (diffs_loop ds offset [] [])"

lemma edits_from_Nil [simp]: "edits_from offset [] = []"
  by (simp add: edits_from_def)

lemma edits_from_Cons [simp]:
  "edits_from offset (d # ds) =
     (case diff_Type d of
        DiffDelete \<Rightarrow> \<lparr>eo_start = offset, eo_end = offset + length (diff_Text d), eo_text = []\<rparr> #
          edits_from (offset + length (diff_Text d)) ds
      | DiffEqual \<Rightarrow> edits_from (offset + length (diff_Text d)) ds
      | DiffInsert \<Rightarrow> \<lparr>eo_start = offset, eo_end = offset, eo_text = diff_Text d\<rparr> # edits_from offset ds)"
  using diffs_loop_acc [of ds "offset + length (diff_Text d)" "diff_Text d"
      "[\<lparr>eo_start = offset, eo_end = offset + length (diff_Text d), eo_text = []\<rparr>]" "[]"]
    diffs_loop_acc [of ds "offset + length (diff_Text d)" "diff_Text d" "[]" "[]"]
    diffs_loop_acc [of ds offset "[]" "[\<lparr>eo_start = offset, eo_end = offset, eo_text = diff_Text d\<rparr>]" "[]"]
  by (simp add: edits_from_def split: diff_op.split)

lemma DiffsToEditOffsets_eq: "DiffsToEditOffsets ds = (diff_source ds, edits_from 0 ds)"
  by (simp add: DiffsToEditOffsets_def edits_from_def prod_eq_iff diffs_loop_fst)

lemma apply_edits_from:
  "pos \<le> length pre \<Longrightarrow>
   apply_edits pos (pre @ diff_source ds) (edits_from (length pre) ds) = drop pos pre @ diff_target ds"
proof (induction ds arbitrary: pos pre)
  case Nil
  then show ?case by (simp add: diff_source_def diff_target_def)
next
  case (Cons d ds)
  have IH: "apply_edits pos' (pre @ diff_Text d @ diff_source ds) (edits_from (length pre + length (diff_Text d)) ds) =
      drop pos' (pre @ diff_Text d) @ diff_target ds" if "pos' \<le> length pre + length (diff_Text d)" for pos'
    using Cons.IH [of pos' "pre @ diff_Text d"] that by simp
  show ?case
  proof (cases "diff_Type d")
    case DiffDelete
    with IH [of "length pre + length (diff_Text d)"] Cons.prems show ?thesis
      by (simp add: diff_source_def diff_target_def)
  next
    case DiffEqual
    with IH [of pos] Cons.prems show ?thesis by (simp add: diff_source_def diff_target_def)
  next
    case DiffInsert
    with Cons.IH [of "length pre" pre] Cons.prems show ?thesis by (simp add: diff_source_def diff_target_def)
  qed
qed

text \<open>
  The edits computed from a diff turn the diff's initial text into its final text: the collected text is
  the source of the diff, and applying the edits to it gives the target.
\<close>

theorem DiffsToEditOffsets_correct:
  "fst (DiffsToEditOffsets ds) = diff_source ds \<and>
   apply_edits 0 (fst (DiffsToEditOffsets ds)) (snd (DiffsToEditOffsets ds)) = diff_target ds"
  using apply_edits_from [of 0 "[]" ds] by (simp add: DiffsToEditOffsets_eq)

subsection \<open>Edits with protocol positions\<close>

text \<open>What a client does with text edits: resolve the positions against its text, then apply the edits.\<close>

fun edit_offsets :: "byte list \<Rightarrow> text_edit list \<Rightarrow> edit_offset list outcome" where
  "edit_offsets content [] = Ok []"
| "edit_offsets content (te # tes) =
     obind (PositionOffset content (Start (te_Range te))) (\<lambda>i.
     obind (PositionOffset content (End (te_Range te))) (\<lambda>j.
     obind (edit_offsets content tes) (\<lambda>es. Ok (\<lparr>eo_start = nat i, eo_end = nat j, eo_text = te_NewText te\<rparr> # es))))"

definition apply_text_edits :: "byte list \<Rightarrow> text_edit list \<Rightarrow> byte list outcome" where
  "apply_text_edits content tes = obind (edit_offsets content tes) (\<lambda>es. Ok (apply_edits 0 content es))"

text \<open>An offset between two runes of the text, but not behind a carriage return that ends a line.\<close>

definition boundary :: "nat list \<Rightarrow> nat \<Rightarrow> bool" where
  "boundary rs i \<longleftrightarrow> (\<exists>rs1 rs2. rs = rs1 @ rs2 \<and> i = length (encode_text rs1) \<and> \<not> at_cr rs1 rs2)"

lemma boundaryI: "\<not> at_cr rs1 rs2 \<Longrightarrow> boundary (rs1 @ rs2) (length (encode_text rs1))"
  by (auto simp: boundary_def)

lemma boundary_roundtrip:
  assumes "list_all valid_rune rs" and "length (encode_text rs) + 1 < 2 ^ 32" and "boundary rs i"
  obtains p where "OffsetPosition (encode_text rs) (int i) = Ok p" and "PositionOffset (encode_text rs) p = Ok (int i)"
proof -
  from assms(3) obtain rs1 rs2 where "rs = rs1 @ rs2" "i = length (encode_text rs1)" "\<not> at_cr rs1 rs2" by (auto simp: boundary_def)
  with roundtrip_at [of rs1 rs2] assms(1,2) that show thesis by auto
qed

lemma edit_offsets_roundtrip:
  assumes "list_all valid_rune rs" and "length (encode_text rs) + 1 < 2 ^ 32"
    and "\<forall>e \<in> set es. boundary rs (eo_start e) \<and> boundary rs (eo_end e)"
  shows "\<exists>tes. EditOffsetsToTextEdits (encode_text rs) es = Ok tes \<and> edit_offsets (encode_text rs) tes = Ok es"
  using assms(3)
proof (induction es)
  case (Cons e es)
  obtain p q where
    "OffsetPosition (encode_text rs) (int (eo_start e)) = Ok p" "PositionOffset (encode_text rs) p = Ok (int (eo_start e))"
    "OffsetPosition (encode_text rs) (int (eo_end e)) = Ok q" "PositionOffset (encode_text rs) q = Ok (int (eo_end e))"
    using boundary_roundtrip [OF assms(1,2), of "eo_start e"] boundary_roundtrip [OF assms(1,2), of "eo_end e"] Cons.prems
    by (metis list.set_intros(1))
  moreover obtain tes where "EditOffsetsToTextEdits (encode_text rs) es = Ok tes" "edit_offsets (encode_text rs) tes = Ok es"
    using Cons by auto
  ultimately show ?case by (cases e) (simp add: PositionsToRange_def rangeToTextEdit_def)
qed simp

text \<open>A diff given by runes.\<close>

definition rune_diff :: "(diff_op \<times> nat list) list \<Rightarrow> diff list" where
  "rune_diff rds = map (\<lambda>(op, rs). \<lparr>diff_Type = op, diff_Text = encode_text rs\<rparr>) rds"

definition source_runes :: "(diff_op \<times> nat list) list \<Rightarrow> nat list" where
  "source_runes rds = concat (map snd (filter (\<lambda>d. fst d \<noteq> DiffInsert) rds))"

lemma diff_source_runes: "diff_source (rune_diff rds) = encode_text (source_runes rds)"
  by (induction rds) (auto simp: diff_source_def rune_diff_def source_runes_def)

text \<open>
  No edit of the diff begins or ends behind a carriage return that ends a line: between the carriage return and the newline,
  or at the end of the text. The runes \<open>pre\<close> precede the diff.
\<close>

fun cuts_ok :: "nat list \<Rightarrow> (diff_op \<times> nat list) list \<Rightarrow> bool" where
  "cuts_ok pre [] \<longleftrightarrow> True"
| "cuts_ok pre ((op, rs) # rds) \<longleftrightarrow>
     (let next = (if op = DiffInsert then pre else pre @ rs)
      in (op = DiffEqual \<or> \<not> at_cr pre (source_runes ((op, rs) # rds)) \<and> \<not> at_cr next (source_runes rds)) \<and> cuts_ok next rds)"

lemma cuts_ok_no_cr: "13 \<notin> set pre \<Longrightarrow> 13 \<notin> set (source_runes rds) \<Longrightarrow> cuts_ok pre rds"
proof (induction pre rds rule: cuts_ok.induct)
  case (2 pre op rs rds)
  have "\<not> at_cr xs ys" if "13 \<notin> set xs" for xs ys using that last_in_set by (fastforce simp: at_cr_def)
  with 2 show ?case by (cases op) (auto simp: source_runes_def Let_def)
qed simp

lemma edits_boundary:
  "cuts_ok pre rds \<Longrightarrow> e \<in> set (edits_from (length (encode_text pre)) (rune_diff rds)) \<Longrightarrow>
   boundary (pre @ source_runes rds) (eo_start e) \<and> boundary (pre @ source_runes rds) (eo_end e)"
proof (induction pre rds rule: cuts_ok.induct)
  case (1 pre)
  then show ?case by (simp add: rune_diff_def)
next
  case (2 pre op rs rds)
  let ?src = "source_runes rds"
  have IH: "boundary (pre' @ ?src) (eo_start e) \<and> boundary (pre' @ ?src) (eo_end e)"
    if "pre' = (if op = DiffInsert then pre else pre @ rs)" "e \<in> set (edits_from (length (encode_text pre')) (rune_diff rds))" for pre'
    using 2(1) [OF that(1)] 2(2) that by (simp add: Let_def)
  show ?case
  proof (cases op)
    case DiffDelete
    with 2(2) have "boundary (pre @ rs @ ?src) (length (encode_text pre))" "boundary ((pre @ rs) @ ?src) (length (encode_text (pre @ rs)))"
      using boundaryI [of pre "rs @ ?src"] boundaryI [of "pre @ rs" ?src] by (simp_all add: source_runes_def Let_def)
    with DiffDelete IH [of "pre @ rs"] 2(3) show ?thesis by (auto simp: rune_diff_def source_runes_def)
  next
    case DiffEqual
    with IH [of "pre @ rs"] 2(3) show ?thesis by (auto simp: rune_diff_def source_runes_def)
  next
    case DiffInsert
    with 2(2) have "boundary (pre @ ?src) (length (encode_text pre))" by (auto simp: Let_def intro!: boundaryI)
    with DiffInsert IH [of pre] 2(3) show ?thesis by (auto simp: rune_diff_def source_runes_def)
  qed
qed

text \<open>
  C21. The text edits computed from a diff of UTF-8 texts lead a client that resolves their positions against the initial text exactly to
  the final text, and neither step fails, provided that no edit begins or ends behind a carriage return that ends a line. The condition
  holds for every diff of a text without carriage returns, and it is needed (\<open>crlf_edit_lost\<close>).
\<close>

theorem DiffsToTextEdits_correct:
  assumes "list_all valid_rune (source_runes rds)" and "cuts_ok [] rds" and "length (encode_text (source_runes rds)) + 1 < 2 ^ 32"
  shows "\<exists>tes. DiffsToTextEdits (rune_diff rds) = Ok tes \<and>
    apply_text_edits (encode_text (source_runes rds)) tes = Ok (diff_target (rune_diff rds))"
proof -
  have "\<forall>e \<in> set (edits_from 0 (rune_diff rds)). boundary (source_runes rds) (eo_start e) \<and> boundary (source_runes rds) (eo_end e)"
    using edits_boundary [of "[]" rds] assms(2) by simp
  from edit_offsets_roundtrip [OF assms(1,3) this] obtain tes where
    "EditOffsetsToTextEdits (encode_text (source_runes rds)) (edits_from 0 (rune_diff rds)) = Ok tes"
    "edit_offsets (encode_text (source_runes rds)) tes = Ok (edits_from 0 (rune_diff rds))" by blast
  moreover have "apply_edits 0 (encode_text (source_runes rds)) (edits_from 0 (rune_diff rds)) = diff_target (rune_diff rds)"
    using apply_edits_from [of 0 "[]" "rune_diff rds"] by (simp add: diff_source_runes)
  ultimately show ?thesis
    by (auto simp: DiffsToTextEdits_def DiffsToEditOffsets_eq diff_source_runes apply_text_edits_def)
qed

text \<open>A text with a carriage return, and an emoji that is replaced behind it.\<close>

theorem DiffsToTextEdits_correct_witness:
  "\<exists>tes. DiffsToTextEdits (rune_diff [(DiffEqual, [97, 13, 10]), (DiffDelete, [0x1F600]), (DiffInsert, [98])]) = Ok tes \<and>
     apply_text_edits (encode_text [97, 13, 10, 0x1F600]) tes = Ok (encode_text [97, 13, 10, 98])"
  using DiffsToTextEdits_correct [of "[(DiffEqual, [97, 13, 10]), (DiffDelete, [0x1F600]), (DiffInsert, [98])]"]
  by (simp add: source_runes_def valid_rune_def utf8_encode_def utf8_values_def rune_diff_def diff_target_def at_cr_def)

text \<open>
  An edit that ends between a carriage return and its newline: the position of its end is that of the carriage return, so an
  edit that drops the carriage returns of a text changes nothing.
\<close>

lemma crlf_edit_lost:
  "\<not> cuts_ok [] [(DiffEqual, [97]), (DiffDelete, [13]), (DiffEqual, [10])] \<and>
   obind (DiffsToTextEdits (rune_diff [(DiffEqual, [97]), (DiffDelete, [13]), (DiffEqual, [10])]))
     (apply_text_edits (encode_text [97, 13, 10])) = Ok (encode_text [97, 13, 10])"
proof -
  have chars: "char_of (97 :: nat) = CHR ''a''" "char_of (13 :: nat) = CHR 0x0D" "char_of (10 :: nat) = CHR 0x0A" by code_simp+
  have "OffsetPosition [CHR ''a'', CHR 0x0D, CHR 0x0A] 1 = Ok \<lparr>Line = 0, Character = 1\<rparr>"
    "OffsetPosition [CHR ''a'', CHR 0x0D, CHR 0x0A] 2 = Ok \<lparr>Line = 0, Character = 1\<rparr>"
    "PositionOffset [CHR ''a'', CHR 0x0D, CHR 0x0A] \<lparr>Line = 0, Character = 1\<rparr> = Ok 1"
    by (simp_all add: PositionOffset_def initLines_def advance_cols.simps DecodeRune_def RuneError_def OffsetPosition_def
        lineCol16_def line_of_def sort_search.simps)
  then show ?thesis
    by (simp add: at_cr_def source_runes_def utf8_encode_def utf8_values_def rune_diff_def diff_source_def DiffsToTextEdits_def
        DiffsToEditOffsets_eq PositionsToRange_def rangeToTextEdit_def apply_text_edits_def chars)
qed

subsection \<open>Content changes\<close>

text \<open>
  A single content change replaces exactly the text between its positions: for UTF-8 texts and positions between runes, not
  behind a carriage return that ends a line, the result is the text before, the new text, and the text after.
\<close>

theorem ApplyContentChanges_single:
  assumes "list_all valid_rune (rs1 @ rs2 @ rs3)" and "\<not> at_cr rs1 (rs2 @ rs3)" and "\<not> at_cr (rs1 @ rs2) rs3"
    and "length (encode_text (rs1 @ rs2 @ rs3)) + 1 < 2 ^ 32"
    and "OffsetPosition (encode_text (rs1 @ rs2 @ rs3)) (int (length (encode_text rs1))) = Ok p"
    and "OffsetPosition (encode_text (rs1 @ rs2 @ rs3)) (int (length (encode_text (rs1 @ rs2)))) = Ok q"
  shows "ApplyContentChanges (encode_text (rs1 @ rs2 @ rs3)) [\<lparr>cc_Range = \<lparr>Start = p, End = q\<rparr>, cc_Text = new\<rparr>] =
    Ok (encode_text rs1 @ new @ encode_text rs3)"
proof -
  let ?rs = "rs1 @ rs2 @ rs3"
  have "boundary ?rs (length (encode_text rs1))" "boundary ?rs (length (encode_text (rs1 @ rs2)))"
    using boundaryI [OF assms(2)] boundaryI [OF assms(3)] by simp_all
  with boundary_roundtrip [OF assms(1,4)] assms(5,6)
  have "PositionOffset (encode_text ?rs) p = Ok (int (length (encode_text rs1)))"
    "PositionOffset (encode_text ?rs) q = Ok (int (length (encode_text (rs1 @ rs2))))"
    by (metis outcome.inject(1))+
  then show ?thesis by (simp add: ApplyContentChanges_def nat_int_add)
qed

theorem ApplyContentChanges_single_witness:
  "ApplyContentChanges (encode_text [97, 10, 98, 99])
     [\<lparr>cc_Range = \<lparr>Start = \<lparr>Line = 1, Character = 0\<rparr>, End = \<lparr>Line = 1, Character = 1\<rparr>\<rparr>, cc_Text = ''xy''\<rparr>] = Ok (encode_text [97, 10] @ ''xy'' @ encode_text [99])"
proof -
  have "OffsetPosition (encode_text ([97, 10] @ [98] @ [99])) (int (length (encode_text [97, 10]))) = Ok \<lparr>Line = 1, Character = 0\<rparr>"
    "OffsetPosition (encode_text ([97, 10] @ [98] @ [99])) (int (length (encode_text ([97, 10] @ [98])))) = Ok \<lparr>Line = 1, Character = 1\<rparr>"
    by code_simp+
  from ApplyContentChanges_single [OF _ _ _ _ this, of "''xy''"] show ?thesis
    by (simp add: at_cr_def valid_rune_def utf8_encode_def utf8_values_def)
qed

definition insert_at :: "32 word \<Rightarrow> 32 word \<Rightarrow> gostring \<Rightarrow> content_change" where
  "insert_at l c text = \<lparr>cc_Range = \<lparr>Start = \<lparr>Line = l, Character = c\<rparr>, End = \<lparr>Line = l, Character = c\<rparr>\<rparr>, cc_Text = text\<rparr>"

text \<open>The start of the second line, and of the first.\<close>

lemma PositionOffset_line_start:
  assumes "CHR 0x0A \<notin> set l" and "length (l @ CHR 0x0A # rest) + 1 < 2 ^ 32"
  shows "PositionOffset (l @ CHR 0x0A # rest) \<lparr>Line = 1, Character = 0\<rparr> = Ok (int (length l) + 1)"
    and "PositionOffset (l @ CHR 0x0A # rest) \<lparr>Line = 0, Character = 0\<rparr> = Ok 0"
proof -
  let ?content = "l @ CHR 0x0A # rest"
  let ?ls = "fst (initLines ?content)"
  have ls: "?ls = 0 # Suc (length l) # nls (Suc (length l)) rest" using assms(1) by (simp add: initLines_nls nls_append nls_none)
  have "length ?ls < 2 ^ 32" using nls_length [of 0 ?content] assms(2) by (simp add: initLines_nls)
  then have "unat (of_nat (length ?ls) :: 32 word) = length ?ls" by (simp add: unat32_of_nat)
  then have line: "\<not> of_nat (length ?ls) < (n :: 32 word)" "n \<noteq> of_nat (length ?ls)" if "unat n < 2" for n :: "32 word"
    using that ls by (auto simp: word_less_nat_alt)
  show "PositionOffset ?content \<lparr>Line = 1, Character = 0\<rparr> = Ok (int (length l) + 1)"
    using line [of 1] ls by (simp add: PositionOffset_def Let_def advance_cols.simps)
  show "PositionOffset ?content \<lparr>Line = 0, Character = 0\<rparr> = Ok 0"
    using line [of 0] ls by (simp add: PositionOffset_def Let_def advance_cols.simps)
qed

lemma ApplyContentChanges_insert:
  assumes "PositionOffset m \<lparr>Line = l, Character = c\<rparr> = Ok (int k)" and "k \<le> length content"
  shows "apply_changes m content (insert_at l c x # changes) = apply_changes m (take k content @ x @ drop k content) changes"
  using assms by (simp add: insert_at_def)



end
