(* ===== verification/PositionMapper.thy ===== *)
theory PositionMapper
  imports TextEdits
begin

text \<open>
  \<^verbatim>\<open>src/ulsp/controller/doc-sync/position_mapper.go\<close>: positions of an edited document mapped to the version
  that was indexed, and back. The diff library is the argument \<open>DiffMain\<close>; that its diff leads from the first
  text to the second is a hypothesis of the properties.
\<close>

subsection \<open>Operations\<close>

record position_mapper =
  modified :: bool
  baseTextOffsetMapper :: "byte list option"
  updatedTextOffsetMapper :: "byte list option"
  forwardDiffs :: "diff list"
  reverseDiffs :: "diff list"

type_synonym diff_main = "gostring \<Rightarrow> gostring \<Rightarrow> diff list"

definition NewPositionMapper :: "diff_main \<Rightarrow> gostring \<Rightarrow> gostring \<Rightarrow> position_mapper" where
  "NewPositionMapper DiffMain baseText updatedText =
     (if baseText = updatedText
      then \<lparr>modified = False, baseTextOffsetMapper = None, updatedTextOffsetMapper = None,
            forwardDiffs = [], reverseDiffs = []\<rparr>
      else \<lparr>modified = True, baseTextOffsetMapper = Some baseText, updatedTextOffsetMapper = Some updatedText,
            forwardDiffs = DiffMain baseText updatedText, reverseDiffs = DiffMain updatedText baseText\<rparr>)"

text \<open>
  The loop of \<^verbatim>\<open>diffXIndex\<close>: the lengths passed on both sides, those before the current diff, and the type of
  the diff the location was overshot in (\<^verbatim>\<open>DiffEqual\<close>, the zero value, if it was not).
\<close>

fun xindex_loop :: "diff list \<Rightarrow> int \<Rightarrow> int \<Rightarrow> int \<Rightarrow> int \<Rightarrow> int \<Rightarrow> int \<times> int \<times> diff_op" where
  "xindex_loop [] loc chars1 chars2 lastChars1 lastChars2 = (lastChars1, lastChars2, DiffEqual)"
| "xindex_loop (aDiff # diffs) loc chars1 chars2 lastChars1 lastChars2 =
     (let chars1 = (if diff_Type aDiff \<noteq> DiffInsert then chars1 + int (length (diff_Text aDiff)) else chars1);
          chars2 = (if diff_Type aDiff \<noteq> DiffDelete then chars2 + int (length (diff_Text aDiff)) else chars2)
      in if loc < chars1 then (lastChars1, lastChars2, diff_Type aDiff)
         else xindex_loop diffs loc chars1 chars2 chars1 chars2)"

definition diffXIndex :: "diff list \<Rightarrow> int \<Rightarrow> int \<times> bool" where
  "diffXIndex diffs loc =
     (let (lastChars1, lastChars2, lastType) = xindex_loop diffs loc 0 0 0 0
      in if lastType = DiffDelete then (lastChars2, True) else (lastChars2 + (loc - lastChars1), False))"

text \<open>All three results, the position and the flag beside an error included.\<close>

definition mapPosition :: "position_mapper \<Rightarrow> position \<Rightarrow> bool \<Rightarrow> position \<times> bool \<times> go_error option" where
  "mapPosition m position reverse =
     (if \<not> modified m then (position, False, None)
      else case (baseTextOffsetMapper m, updatedTextOffsetMapper m) of
          (Some base, Some updated) \<Rightarrow>
            (let (source, target, diffs) =
                   (if reverse then (updated, base, reverseDiffs m) else (base, updated, forwardDiffs m))
             in case PositionOffset source position of
                  Ok initialOffset \<Rightarrow>
                    (let (shiftedOffset, deleted) = diffXIndex diffs initialOffset
                     in case OffsetPosition target shiftedOffset of
                          Ok result \<Rightarrow> (result, deleted, None)
                        | Fail err \<Rightarrow> (position, deleted, Some err)
                        | Panic \<Rightarrow> (position, deleted, None))
                | Fail err \<Rightarrow> (position, False, Some err)
                | Panic \<Rightarrow> (position, False, None))
        | _ \<Rightarrow> (position, False, Some (Errorf ''position mapper not initialized'' [])))"

definition MapCurrentPositionToBase :: "position_mapper \<Rightarrow> position \<Rightarrow> position \<times> bool \<times> go_error option" where
  "MapCurrentPositionToBase m currentPosition = mapPosition m currentPosition True"

definition MapBasePositionToCurrent :: "position_mapper \<Rightarrow> position \<Rightarrow> position \<times> go_error option" where
  "MapBasePositionToCurrent m position = (let (pos, _, err) = mapPosition m position False in (pos, err))"

subsection \<open>The shifted offset\<close>

text \<open>For every byte of the source text: the offset it is mapped to, and whether it is deleted.\<close>

fun byte_images :: "int \<Rightarrow> diff list \<Rightarrow> (int \<times> bool) list" where
  "byte_images o' [] = []"
| "byte_images o' (d # ds) =
     (case diff_Type d of
        DiffDelete \<Rightarrow> replicate (length (diff_Text d)) (o', True) @ byte_images o' ds
      | DiffEqual \<Rightarrow> map (\<lambda>i. (o' + int i, False)) [0..<length (diff_Text d)] @ byte_images (o' + int (length (diff_Text d))) ds
      | DiffInsert \<Rightarrow> byte_images (o' + int (length (diff_Text d))) ds)"

lemma length_byte_images: "length (byte_images o' ds) = length (diff_source ds)"
  by (induction ds arbitrary: o') (auto simp: diff_source_def split: diff_op.split)

definition xindex_from :: "diff list \<Rightarrow> int \<Rightarrow> int \<Rightarrow> int \<Rightarrow> int \<times> bool" where
  "xindex_from ds loc c1 c2 =
     (let (lastChars1, lastChars2, lastType) = xindex_loop ds loc c1 c2 c1 c2
      in if lastType = DiffDelete then (lastChars2, True) else (lastChars2 + (loc - lastChars1), False))"

lemma xindex_from_Nil: "xindex_from [] loc c1 c2 = (c2 + (loc - c1), False)"
  by (simp add: xindex_from_def)

lemma xindex_from_Cons:
  "xindex_from (d # ds) loc c1 c2 =
     (let n = int (length (diff_Text d));
          c1' = (if diff_Type d = DiffInsert then c1 else c1 + n);
          c2' = (if diff_Type d = DiffDelete then c2 else c2 + n)
      in if loc < c1' then (if diff_Type d = DiffDelete then (c2, True) else (c2 + (loc - c1), False))
         else xindex_from ds loc c1' c2')"
  by (simp add: xindex_from_def Let_def)

lemma diff_source_Nil [simp]: "diff_source [] = []"
  by (simp add: diff_source_def)

lemma diff_source_Cons [simp]:
  "diff_source (d # ds) = (if diff_Type d = DiffInsert then [] else diff_Text d) @ diff_source ds"
  by (simp add: diff_source_def)

lemma diff_target_Nil [simp]: "diff_target [] = []"
  by (simp add: diff_target_def)

lemma diff_target_Cons [simp]:
  "diff_target (d # ds) = (if diff_Type d = DiffDelete then [] else diff_Text d) @ diff_target ds"
  by (simp add: diff_target_def)

lemma xindex_from_images:
  "c1 \<le> loc \<Longrightarrow> loc < c1 + int (length (diff_source ds)) \<Longrightarrow> xindex_from ds loc c1 c2 = byte_images c2 ds ! nat (loc - c1)"
proof (induction ds arbitrary: c1 c2)
  case (Cons d ds)
  let ?n = "int (length (diff_Text d))"
  have shift: "nat (loc - c1) - length (diff_Text d) = nat (loc - (c1 + ?n))" by simp
  show ?case
    using Cons.IH [of c1 "c2 + ?n"] Cons.IH [of "c1 + ?n" c2] Cons.IH [of "c1 + ?n" "c2 + ?n"] Cons.prems
    by (cases "diff_Type d") (auto simp: xindex_from_Cons Let_def nth_append shift nat_less_iff)
qed simp

lemma xindex_from_end:
  "loc = c1 + int (length (diff_source ds)) \<Longrightarrow> xindex_from ds loc c1 c2 = (c2 + int (length (diff_target ds)), False)"
proof (induction ds arbitrary: c1 c2)
  case (Cons d ds)
  let ?n = "int (length (diff_Text d))"
  show ?case
    using Cons.IH [of "c1 + ?n" "c2 + ?n"] Cons.IH [of "c1 + ?n" c2] Cons.IH [of c1 "c2 + ?n"] Cons.prems
    by (cases "diff_Type d") (simp_all add: xindex_from_Cons Let_def)
qed (simp add: xindex_from_Nil)

lemma nat_shift: "nat (x - o') - n = nat (x - (o' + int n))"
  by simp

lemma byte_images_bounds:
  "j < length (byte_images o' ds) \<Longrightarrow> o' \<le> fst (byte_images o' ds ! j) \<and>
   fst (byte_images o' ds ! j) \<le> o' + int (length (diff_target ds))"
proof (induction ds arbitrary: o' j)
  case (Cons d ds)
  let ?n = "length (diff_Text d)"
  have rest: "\<not> j < ?n \<Longrightarrow> j < ?n + length (byte_images x ds) \<Longrightarrow> j - ?n < length (byte_images x ds)" for x by arith
  show ?case
    using Cons.prems Cons.IH [of "j - ?n" o', OF rest] Cons.IH [of "j - ?n" "o' + int ?n", OF rest] Cons.IH [of j "o' + int ?n"]
    by (cases "diff_Type d") (fastforce simp: nth_append)+
qed simp

lemma byte_images_same:
  "j < length (byte_images o' ds) \<Longrightarrow> \<not> snd (byte_images o' ds ! j) \<Longrightarrow>
   fst (byte_images o' ds ! j) < o' + int (length (diff_target ds)) \<and>
   diff_target ds ! nat (fst (byte_images o' ds ! j) - o') = diff_source ds ! j"
proof (induction ds arbitrary: o' j)
  case (Cons d ds)
  let ?n = "length (diff_Text d)"
  have rest: "\<not> j < ?n \<Longrightarrow> j < ?n + length (byte_images x ds) \<Longrightarrow> j - ?n < length (byte_images x ds)" for x by arith
  show ?case
  proof (cases "diff_Type d")
    case DiffDelete
    with Cons.IH [of "j - ?n" o', OF rest] Cons.prems show ?thesis
      by (auto simp: nth_append split: if_splits)
  next
    case DiffInsert
    with Cons.IH [of j "o' + int ?n"] Cons.prems byte_images_bounds [of j "o' + int ?n" ds] show ?thesis
      by (auto simp: nth_append nat_shift nat_less_iff)
  next
    case DiffEqual
    show ?thesis
    proof (cases "j < ?n")
      case True
      with DiffEqual show ?thesis by (simp add: nth_append)
    next
      case False
      with DiffEqual Cons.prems have "j - ?n < length (byte_images (o' + int ?n) ds)"
        "\<not> snd (byte_images (o' + int ?n) ds ! (j - ?n))" by (auto simp: nth_append)
      with Cons.IH [OF this] byte_images_bounds [OF this(1)] False DiffEqual show ?thesis
        by (auto simp: nth_append nat_shift nat_less_iff)
    qed
  qed
qed simp

lemma diffXIndex_from: "diffXIndex ds loc = xindex_from ds loc 0 0"
  by (simp add: diffXIndex_def xindex_from_def)

lemma diffXIndex_bounds:
  assumes "0 \<le> loc" and "loc \<le> int (length (diff_source ds))"
  shows "0 \<le> fst (diffXIndex ds loc) \<and> fst (diffXIndex ds loc) \<le> int (length (diff_target ds))"
proof (cases "loc = int (length (diff_source ds))")
  case True
  with xindex_from_end [of loc 0 ds 0] show ?thesis by (simp add: diffXIndex_from)
next
  case False
  with assms xindex_from_images [of 0 loc ds 0] byte_images_bounds [of "nat loc" 0 ds] show ?thesis
    by (simp add: diffXIndex_from length_byte_images)
qed

text \<open>
  \<^verbatim>\<open>diffXIndex\<close> stays within the target text and follows the bytes: a byte the diff keeps is mapped to the
  same byte of the target, a byte the diff deletes is reported as deleted, and the end is mapped to the end.
\<close>

theorem diffXIndex_follows:
  assumes "0 \<le> loc" and "loc \<le> int (length (diff_source ds))"
  shows "let (off, deleted) = diffXIndex ds loc in
    0 \<le> off \<and> off \<le> int (length (diff_target ds)) \<and>
    (loc = int (length (diff_source ds)) \<longrightarrow> off = int (length (diff_target ds)) \<and> \<not> deleted) \<and>
    (loc < int (length (diff_source ds)) \<longrightarrow> (off, deleted) = byte_images 0 ds ! nat loc) \<and>
    (loc < int (length (diff_source ds)) \<and> \<not> deleted \<longrightarrow>
       off < int (length (diff_target ds)) \<and> diff_target ds ! nat off = diff_source ds ! nat loc)"
proof -
  obtain off deleted where x: "diffXIndex ds loc = (off, deleted)" by fastforce
  have img: "(off, deleted) = byte_images 0 ds ! nat loc" if "loc < int (length (diff_source ds))"
    using xindex_from_images [of 0 loc ds 0] assms that x by (simp add: diffXIndex_from)
  have "diff_target ds ! nat off = diff_source ds ! nat loc \<and> off < int (length (diff_target ds))"
    if "loc < int (length (diff_source ds))" "\<not> deleted"
    using byte_images_same [of "nat loc" 0 ds] img [OF that(1), symmetric] assms that by (simp add: length_byte_images)
  with img x diffXIndex_bounds [OF assms] xindex_from_end [of loc 0 ds 0] show ?thesis
    by (auto simp: diffXIndex_from)
qed

text \<open>Replacing the middle of \<^verbatim>\<open>abc\<close> by \<^verbatim>\<open>xy\<close>: the third byte is followed to offset 3.\<close>

theorem diffXIndex_follows_witness:
  "diffXIndex [\<lparr>diff_Type = DiffEqual, diff_Text = ''a''\<rparr>, \<lparr>diff_Type = DiffDelete, diff_Text = ''b''\<rparr>,
      \<lparr>diff_Type = DiffInsert, diff_Text = ''xy''\<rparr>, \<lparr>diff_Type = DiffEqual, diff_Text = ''c''\<rparr>] 2 = (3, False)"
  using diffXIndex_follows [of 2 "[\<lparr>diff_Type = DiffEqual, diff_Text = ''a''\<rparr>, \<lparr>diff_Type = DiffDelete, diff_Text = ''b''\<rparr>,
      \<lparr>diff_Type = DiffInsert, diff_Text = ''xy''\<rparr>, \<lparr>diff_Type = DiffEqual, diff_Text = ''c''\<rparr>]"]
  by (auto simp: Let_def split: prod.splits)

subsection \<open>Positions\<close>

lemma decode_bytes_le: "snd (decode_bytes bs) \<le> length bs"
  by (cases bs) (auto split: list.split)

lemma DecodeRune_le: "snd (DecodeRune s) \<le> length s"
  using decode_bytes_le [of "map byte_val (take 4 s)"] by (simp add: DecodeRune_def)

lemma advance_cols_le: "advance_cols content character col16 col8 = Ok k \<Longrightarrow> k \<le> col8 + length content"
proof (induction content character col16 col8 rule: advance_cols.induct)
  case (1 content character col16 col8)
  let ?sz = "snd (DecodeRune content)"
  have step: "k \<le> col8 + ?sz + length (drop ?sz content) \<Longrightarrow> k \<le> col8 + length content"
    using DecodeRune_le [of content] by simp
  show ?case
    using 1(3) 1(1) [OF _ refl refl] 1(2) [OF _ refl refl] step
    by (subst (asm) advance_cols.simps) (auto simp: Let_def split: if_splits)
qed

lemma PositionOffset_bounds:
  assumes "PositionOffset content p = Ok i"
  shows "0 \<le> i \<and> i \<le> int (length content)"
proof -
  let ?ls = "fst (initLines content)"
  have "?ls ! unat (Line p) \<le> length content" if "unat (Line p) < length ?ls"
    using that nls_bounds [of 0 content] nth_mem [OF that] by (auto simp: initLines_nls)
  moreover have "unat (Line p) < length ?ls" if "\<not> of_nat (length ?ls) < Line p" "Line p \<noteq> of_nat (length ?ls)"
  proof -
    have "Line p < of_nat (length ?ls)" using that by simp
    then have "unat (Line p) < unat (of_nat (length ?ls) :: 32 word)" by (simp add: word_less_nat_alt)
    moreover have "unat (of_nat (length ?ls) :: 32 word) \<le> length ?ls"
      by (simp add: unat_of_nat take_bit_nat_less_eq_self)
    ultimately show ?thesis by linarith
  qed
  moreover have "k \<le> length content - j" if "advance_cols (drop j content) c 0 0 = Ok k" for k j c
    using advance_cols_le [OF that] by simp
  ultimately show ?thesis
    using assms by (fastforce simp: PositionOffset_def Let_def obind_Ok_iff split: if_splits)
qed

lemma OffsetPosition_total: "0 \<le> i \<Longrightarrow> i \<le> int (length content) \<Longrightarrow> \<exists>p. OffsetPosition content i = Ok p"
  by (auto simp: OffsetPosition_def split: prod.split)

text \<open>The location in the middle of a diff list: all that precedes it is passed on both sides.\<close>

lemma xindex_from_at:
  assumes "c1 + int (length (diff_source ds1)) \<le> loc" and "loc < c1 + int (length (diff_source (ds1 @ [d])))"
  shows "xindex_from (ds1 @ d # ds2) loc c1 c2 =
    (if diff_Type d = DiffDelete then (c2 + int (length (diff_target ds1)), True)
     else (c2 + int (length (diff_target ds1)) + (loc - c1 - int (length (diff_source ds1))), False))"
  using assms
proof (induction ds1 arbitrary: c1 c2)
  case Nil
  then show ?case by (cases "diff_Type d") (auto simp: xindex_from_Cons Let_def)
next
  case (Cons e ds1)
  let ?n = "int (length (diff_Text e))"
  show ?case
    using Cons.IH [of "c1 + ?n" "c2 + ?n"] Cons.IH [of "c1 + ?n" c2] Cons.IH [of c1 "c2 + ?n"] Cons.prems
    by (cases "diff_Type e") (auto simp: xindex_from_Cons Let_def)
qed

lemma diff_source_append [simp]: "diff_source (ds @ es) = diff_source ds @ diff_source es"
  by (induction ds) simp_all

lemma diff_target_append [simp]: "diff_target (ds @ es) = diff_target ds @ diff_target es"
  by (induction ds) simp_all

text \<open>A byte the diff keeps stands in the target as far behind the start of its piece as in the source.\<close>

lemma kept_byte:
  assumes "diff_Type d = DiffEqual" and "k < length (diff_Text d)"
  shows "diff_target (ds1 @ d # ds2) ! (length (diff_target ds1) + k) = diff_source (ds1 @ d # ds2) ! (length (diff_source ds1) + k)"
  using assms by (simp add: nth_append)

lemma MapCurrentPositionToBase_modified:
  assumes "base \<noteq> updated" and "PositionOffset updated p = Ok i" and "diffXIndex (dm updated base) i = (off, isNew)"
    and "0 \<le> off" and "off \<le> int (length base)"
  obtains q where "OffsetPosition base off = Ok q" and "MapCurrentPositionToBase (NewPositionMapper dm base updated) p = (q, isNew, None)"
  using OffsetPosition_total [OF assms(4,5)] assms(1-3)
  by (auto simp: MapCurrentPositionToBase_def mapPosition_def NewPositionMapper_def)

text \<open>
  C20. Where a position of the edited text stood in the base text. Every position of the edited text is mapped without an error. With equal texts it
  is mapped to itself. Otherwise let the diff from the edited text to the base text be split at the piece the
  position is in. If the piece is kept, the position is mapped to the same place of that piece in the base text, so to the same byte, and is
  not reported as new. If the piece is not in the base text, the position is mapped to where the piece was inserted, and
  is reported as new. The end of the text is mapped to the end, not as new.
\<close>

theorem MapCurrentPositionToBase_exact:
  assumes "diff_source (dm updated base) = updated" and "diff_target (dm updated base) = base" and "PositionOffset updated p = Ok i"
  shows "let answer = MapCurrentPositionToBase (NewPositionMapper dm base updated) p in
    (\<exists>q isNew. answer = (q, isNew, None)) \<and> (base = updated \<longrightarrow> answer = (p, False, None)) \<and>
    (base \<noteq> updated \<and> dm updated base = ds1 @ d # ds2 \<and> i = int (length (diff_source ds1) + k) \<and> k < length (diff_Text d) \<longrightarrow>
       (diff_Type d = DiffEqual \<longrightarrow> base ! (length (diff_target ds1) + k) = updated ! nat i \<and>
          (\<exists>q. OffsetPosition base (int (length (diff_target ds1) + k)) = Ok q \<and> answer = (q, False, None))) \<and>
       (diff_Type d = DiffDelete \<longrightarrow>
          (\<exists>q. OffsetPosition base (int (length (diff_target ds1))) = Ok q \<and> answer = (q, True, None)))) \<and>
    (base \<noteq> updated \<and> i = int (length updated) \<longrightarrow>
       (\<exists>q. OffsetPosition base (int (length base)) = Ok q \<and> answer = (q, False, None)))"
proof -
  let ?ds = "dm updated base"
  define answer where "answer = MapCurrentPositionToBase (NewPositionMapper dm base updated) p"
  note i = PositionOffset_bounds [OF assms(3)]
  have bounds: "0 \<le> fst (diffXIndex ?ds i)" "fst (diffXIndex ?ds i) \<le> int (length base)"
    using diffXIndex_bounds [of i ?ds] i assms(1,2) by simp_all
  have shifted: "\<exists>q. OffsetPosition base off = Ok q \<and> answer = (q, isNew, None)"
    if "base \<noteq> updated" "diffXIndex ?ds i = (off, isNew)" for off isNew
    using MapCurrentPositionToBase_modified [of base updated p i dm off isNew, OF that(1) assms(3) that(2)] bounds that(2) unfolding answer_def by (metis fst_conv)
  have equal: "answer = (p, False, None)" if "base = updated"
    using that by (simp add: answer_def MapCurrentPositionToBase_def mapPosition_def NewPositionMapper_def)
  have total: "\<exists>q isNew. answer = (q, isNew, None)" using shifted equal by (metis prod.exhaust_sel)
  have piece: "diffXIndex ?ds i = (int (length (diff_target ds1)) + (if diff_Type d = DiffDelete then 0 else int k), diff_Type d = DiffDelete)"
    if "?ds = ds1 @ d # ds2" "i = int (length (diff_source ds1) + k)" "k < length (diff_Text d)" "diff_Type d \<noteq> DiffInsert"
    using that by (simp add: diffXIndex_from xindex_from_at)
  have end': "diffXIndex ?ds i = (int (length base), False)" if "i = int (length updated)"
    using xindex_from_end [of i 0 ?ds 0] that assms(1,2) by (simp add: diffXIndex_from)
  have byte: "base ! (length (diff_target ds1) + k) = updated ! nat i"
    if "?ds = ds1 @ d # ds2" "i = int (length (diff_source ds1) + k)" "k < length (diff_Text d)" "diff_Type d = DiffEqual"
    using kept_byte [OF that(4,3), of ds1 ds2] assms(1,2) unfolding that(1,2) nat_int by (simp only:)
  show ?thesis unfolding Let_def answer_def [symmetric] using total equal shifted piece end' byte by auto
qed

text \<open>A diff that keeps the common first byte.\<close>

definition sample_diff :: diff_main where
  "sample_diff a b =
     (case (a, b) of
        (x # xs, y # ys) \<Rightarrow>
          (if x = y then [\<lparr>diff_Type = DiffEqual, diff_Text = [x]\<rparr>, \<lparr>diff_Type = DiffDelete, diff_Text = xs\<rparr>,
                          \<lparr>diff_Type = DiffInsert, diff_Text = ys\<rparr>]
           else [\<lparr>diff_Type = DiffDelete, diff_Text = a\<rparr>, \<lparr>diff_Type = DiffInsert, diff_Text = b\<rparr>])
      | _ \<Rightarrow> [\<lparr>diff_Type = DiffDelete, diff_Text = a\<rparr>, \<lparr>diff_Type = DiffInsert, diff_Text = b\<rparr>])"

text \<open>The first byte is kept and followed, the second is new.\<close>

theorem MapCurrentPositionToBase_exact_witness:
  "MapCurrentPositionToBase (NewPositionMapper sample_diff ''ab'' ''axyb'') \<lparr>Line = 0, Character = 0\<rparr> = (\<lparr>Line = 0, Character = 0\<rparr>, False, None) \<and>
   MapCurrentPositionToBase (NewPositionMapper sample_diff ''ab'' ''axyb'') \<lparr>Line = 0, Character = 1\<rparr> = (\<lparr>Line = 0, Character = 1\<rparr>, True, None)"
proof -
  let ?keep = "\<lparr>diff_Type = DiffEqual, diff_Text = ''a''\<rparr>" and ?new = "\<lparr>diff_Type = DiffDelete, diff_Text = ''xyb''\<rparr>"
    and ?old = "\<lparr>diff_Type = DiffInsert, diff_Text = ''b''\<rparr>"
  have d: "sample_diff ''axyb'' ''ab'' = [?keep, ?new, ?old]" by (simp add: sample_diff_def)
  have "PositionOffset ''axyb'' \<lparr>Line = 0, Character = 0\<rparr> = Ok 0" "PositionOffset ''axyb'' \<lparr>Line = 0, Character = 1\<rparr> = Ok 1"
    "OffsetPosition ''ab'' 0 = Ok \<lparr>Line = 0, Character = 0\<rparr>" "OffsetPosition ''ab'' 1 = Ok \<lparr>Line = 0, Character = 1\<rparr>"
    by (simp_all add: PositionOffset_def initLines_def advance_cols.simps DecodeRune_def RuneError_def OffsetPosition_def
        lineCol16_def line_of_def sort_search.simps)
  with MapCurrentPositionToBase_exact [of sample_diff "''axyb''" "''ab''" "\<lparr>Line = 0, Character = 0\<rparr>" 0 "[]" ?keep "[?new, ?old]" 0]
    MapCurrentPositionToBase_exact [of sample_diff "''axyb''" "''ab''" "\<lparr>Line = 0, Character = 1\<rparr>" 1 "[?keep]" ?new "[?old]" 0]
  show ?thesis by (simp add: d Let_def)
qed

end
