(* ===== verification/Sessions.thy ===== *)
theory Sessions
  imports Prelude
begin

text \<open>
  \<^verbatim>\<open>src/ulsp/repository/session/session.go\<close> with the session mappers of \<^verbatim>\<open>src/ulsp/mapper/ulsp_daemon.go\<close>: the
  store of IDE sessions. A context is the session UUID it carries, if any; the initialize parameters and
  the connection are opaque. The lock makes every operation atomic; the gauge is part of the state.
\<close>

type_synonym uuid = gostring

record ('p, 'c) session =
  ses_UUID :: uuid
  ses_InitializeParams :: "'p option"
  ses_Conn :: "'c option"
  ses_WorkspaceRoot :: gostring
  ses_Monorepo :: gostring
  ses_Env :: "gostring list"
  ses_UlspEnabled :: bool

record ('p, 'c) model_session =
  ms_UUID :: uuid
  ms_InitializeParams :: "'p option"
  ms_Conn :: "'c option"
  ms_WorkspaceRoot :: gostring
  ms_Monorepo :: gostring
  ms_Env :: "gostring list"
  ms_UlspEnabled :: bool

definition SessionToModel :: "('p, 'c) session \<Rightarrow> ('p, 'c) model_session" where
  "SessionToModel f = \<lparr>ms_UUID = ses_UUID f, ms_InitializeParams = ses_InitializeParams f, ms_Conn = ses_Conn f,
     ms_WorkspaceRoot = ses_WorkspaceRoot f, ms_Monorepo = ses_Monorepo f, ms_Env = ses_Env f,
     ms_UlspEnabled = ses_UlspEnabled f\<rparr>"

definition ModelToSession :: "('p, 'c) model_session \<Rightarrow> ('p, 'c) session outcome" where
  "ModelToSession f = Ok \<lparr>ses_UUID = ms_UUID f, ses_InitializeParams = ms_InitializeParams f, ses_Conn = ms_Conn f,
     ses_WorkspaceRoot = ms_WorkspaceRoot f, ses_Monorepo = ms_Monorepo f, ses_Env = ms_Env f,
     ses_UlspEnabled = ms_UlspEnabled f\<rparr>"

definition UUIDToSession :: "uuid \<Rightarrow> 'c option \<Rightarrow> ('p, 'c) session" where
  "UUIDToSession u c = \<lparr>ses_UUID = u, ses_InitializeParams = None, ses_Conn = c, ses_WorkspaceRoot = [],
     ses_Monorepo = [], ses_Env = [], ses_UlspEnabled = True\<rparr>"

type_synonym ctx = "uuid option"

definition ContextToSessionUUID :: "ctx \<Rightarrow> uuid outcome" where
  "ContextToSessionUUID c = (case c of None \<Rightarrow> Fail NoSessionFoundError | Some s \<Rightarrow> Ok s)"

record ('p, 'c) repository =
  memstore :: "(uuid \<times> ('p, 'c) model_session) list"
  active_connections :: nat

definition NewSessionRepository :: "('p, 'c) repository" where
  "NewSessionRepository = \<lparr>memstore = [], active_connections = 0\<rparr>"

definition GetSession :: "('p, 'c) repository \<Rightarrow> uuid \<Rightarrow> ('p, 'c) session outcome" where
  "GetSession r id' =
     (case map_of (memstore r) id' of None \<Rightarrow> Fail (UUIDNotFoundError id') | Some f \<Rightarrow> ModelToSession f)"

definition GetFromContext :: "('p, 'c) repository \<Rightarrow> ctx \<Rightarrow> ('p, 'c) session outcome" where
  "GetFromContext r c = obind (ContextToSessionUUID c) (\<lambda>u. GetSession r u)"

definition SetSession :: "('p, 'c) repository \<Rightarrow> ('p, 'c) session option \<Rightarrow> unit outcome \<times> ('p, 'c) repository" where
  "SetSession r f =
     (case f of
        None \<Rightarrow> (Fail (Errorf ''can't save nil session'' []), r)
      | Some f' \<Rightarrow>
          (let store = AList.update (ses_UUID f') (SessionToModel f') (memstore r)
           in (Ok (), r\<lparr>memstore := store, active_connections := length store\<rparr>)))"

definition DeleteSession :: "('p, 'c) repository \<Rightarrow> uuid \<Rightarrow> ('p, 'c) repository" where
  "DeleteSession r id' =
     (let store = AList.delete id' (memstore r) in r\<lparr>memstore := store, active_connections := length store\<rparr>)"

definition SessionCount :: "('p, 'c) repository \<Rightarrow> nat" where
  "SessionCount r = length (memstore r)"

fun sessions_in :: "gostring \<Rightarrow> (uuid \<times> ('p, 'c) model_session) list \<Rightarrow> ('p, 'c) session list" where
  "sessions_in workspaceRoot [] = []"
| "sessions_in workspaceRoot ((u, s) # ss) =
     (if ms_WorkspaceRoot s = workspaceRoot
      then (case ModelToSession s of Ok sess \<Rightarrow> sess # sessions_in workspaceRoot ss | _ \<Rightarrow> sessions_in workspaceRoot ss)
      else sessions_in workspaceRoot ss)"

definition GetAllFromWorkspaceRoot :: "('p, 'c) repository \<Rightarrow> gostring \<Rightarrow> ('p, 'c) session list" where
  "GetAllFromWorkspaceRoot r workspaceRoot = sessions_in workspaceRoot (memstore r)"

subsection \<open>The store\<close>

text \<open>Every session is stored under its own UUID, once, and the gauge shows their number.\<close>

definition sessions_inv :: "('p, 'c) repository \<Rightarrow> bool" where
  "sessions_inv r \<longleftrightarrow> distinct (map fst (memstore r)) \<and> active_connections r = length (memstore r) \<and>
     (\<forall>(u, s) \<in> set (memstore r). ms_UUID s = u)"

text \<open>The data of a session beside its UUID.\<close>

type_synonym ('p, 'c) session_data = "'p option \<times> 'c option \<times> gostring \<times> gostring \<times> gostring list \<times> bool"

definition session_data :: "('p, 'c) session \<Rightarrow> ('p, 'c) session_data" where
  "session_data s = (ses_InitializeParams s, ses_Conn s, ses_WorkspaceRoot s, ses_Monorepo s, ses_Env s, ses_UlspEnabled s)"

definition make_session :: "uuid \<Rightarrow> ('p, 'c) session_data \<Rightarrow> ('p, 'c) session" where
  "make_session u d = (case d of (p, c, root, repo, env, enabled) \<Rightarrow>
     \<lparr>ses_UUID = u, ses_InitializeParams = p, ses_Conn = c, ses_WorkspaceRoot = root, ses_Monorepo = repo,
      ses_Env = env, ses_UlspEnabled = enabled\<rparr>)"

definition session_at :: "('p, 'c) repository \<Rightarrow> uuid \<Rightarrow> ('p, 'c) session_data option" where
  "session_at r u = (case GetSession r u of Ok s \<Rightarrow> Some (session_data s) | _ \<Rightarrow> None)"

definition put_session :: "unit \<Rightarrow> uuid \<Rightarrow> ('p, 'c) session_data \<Rightarrow> ('p, 'c) repository \<Rightarrow> ('p, 'c) repository" where
  "put_session x u d r = snd (SetSession r (Some (make_session u d)))"

lemma model_roundtrip [simp]: "ModelToSession (SessionToModel s) = Ok s"
  by (simp add: ModelToSession_def SessionToModel_def)

lemma ModelToSession_sel:
  "ModelToSession m = Ok s \<Longrightarrow> ses_UUID s = ms_UUID m \<and> ses_WorkspaceRoot s = ms_WorkspaceRoot m"
  by (auto simp: ModelToSession_def)

lemma update_subset: "set (AList.update k v xs) \<subseteq> insert (k, v) (set xs)"
  by (induction xs) auto

lemma SetSession_inv: "sessions_inv r \<Longrightarrow> sessions_inv (snd (SetSession r f))"
proof (cases f)
  case (Some f')
  assume "sessions_inv r"
  with Some update_subset [of "ses_UUID f'" "SessionToModel f'" "memstore r"] show ?thesis
    by (auto simp: sessions_inv_def SetSession_def Let_def distinct_update SessionToModel_def)
qed (simp add: SetSession_def)

lemma DeleteSession_inv: "sessions_inv r \<Longrightarrow> sessions_inv (DeleteSession r u)"
  by (auto simp: sessions_inv_def DeleteSession_def Let_def distinct_map_filter AList.delete_eq)

lemma GetSession_Set:
  "GetSession (snd (SetSession r (Some s))) u = (if u = ses_UUID s then Ok s else GetSession r u)"
  by (simp add: GetSession_def SetSession_def Let_def update_conv')

lemma GetSession_Delete:
  "GetSession (DeleteSession r u) v = (if v = u then Fail (UUIDNotFoundError v) else GetSession r v)"
  by (simp add: GetSession_def DeleteSession_def Let_def delete_conv')

interpretation sessions: erasable_store sessions_inv "\<lambda>u. True" session_at put_session "\<lambda>u r. DeleteSession r u"
  by unfold_locales
    (auto simp: put_session_def SetSession_inv DeleteSession_inv session_at_def GetSession_Set GetSession_Delete make_session_def session_data_def
      split: prod.splits)

text \<open>However sessions were stored and deleted, the last operation on a UUID decides what is found there.\<close>

lemma session_history:
  "sessions_inv r \<Longrightarrow> session_at (fold sessions.apply_op ops r) u = (case last_value ops u of Some d \<Rightarrow> d | None \<Rightarrow> session_at r u)"
  by (simp add: sessions.lookup_history)

lemma sessions_in_set:
  "s \<in> set (sessions_in root ss) \<longleftrightarrow> (\<exists>u m. (u, m) \<in> set ss \<and> ms_WorkspaceRoot m = root \<and> ModelToSession m = Ok s)"
proof (induction ss)
  case (Cons x ss)
  obtain u m where x: "x = (u, m)" by (cases x)
  show ?case by (cases "ModelToSession m") (auto simp: x Cons.IH)
qed simp

lemma GetAll_iff:
  assumes "sessions_inv r"
  shows "s \<in> set (GetAllFromWorkspaceRoot r root) \<longleftrightarrow> GetSession r (ses_UUID s) = Ok s \<and> ses_WorkspaceRoot s = root"
proof
  assume "s \<in> set (GetAllFromWorkspaceRoot r root)"
  then obtain u m where m: "(u, m) \<in> set (memstore r)" "ms_WorkspaceRoot m = root" "ModelToSession m = Ok s"
    by (auto simp: GetAllFromWorkspaceRoot_def sessions_in_set)
  with assms have "u = ms_UUID m" "map_of (memstore r) u = Some m" by (auto simp: sessions_inv_def)
  with m ModelToSession_sel [OF m(3)] show "GetSession r (ses_UUID s) = Ok s \<and> ses_WorkspaceRoot s = root"
    by (simp add: GetSession_def)
next
  assume a: "GetSession r (ses_UUID s) = Ok s \<and> ses_WorkspaceRoot s = root"
  then obtain m where m: "map_of (memstore r) (ses_UUID s) = Some m" "ModelToSession m = Ok s"
    by (auto simp: GetSession_def split: option.splits)
  with a ModelToSession_sel [OF m(2)] show "s \<in> set (GetAllFromWorkspaceRoot r root)"
    by (auto simp: GetAllFromWorkspaceRoot_def sessions_in_set dest: map_of_SomeD)
qed

text \<open>
  The session store: what is stored under a UUID is returned unchanged until it is replaced or deleted,
  other sessions are not touched, a deleted session is reported as not found, the gauge always shows the
  number of sessions, and the sessions of a workspace root are exactly the stored ones with that root.
\<close>

theorem session_store:
  assumes "sessions_inv r"
  shows "sessions_inv (snd (SetSession r f)) \<and> sessions_inv (DeleteSession r u) \<and>
    GetSession (snd (SetSession r (Some s))) v = (if v = ses_UUID s then Ok s else GetSession r v) \<and>
    GetSession (DeleteSession r u) v = (if v = u then Fail (UUIDNotFoundError v) else GetSession r v) \<and>
    active_connections r = SessionCount r \<and>
    set (GetAllFromWorkspaceRoot r root) = {s. GetSession r (ses_UUID s) = Ok s \<and> ses_WorkspaceRoot s = root}"
  using assms SetSession_inv [OF assms] DeleteSession_inv [OF assms]
  by (simp add: GetSession_Set GetSession_Delete set_eq_iff GetAll_iff) (simp add: sessions_inv_def SessionCount_def)

theorem session_store_witness:
  "GetSession (snd (SetSession (NewSessionRepository :: (unit, unit) repository) (Some (UUIDToSession ''u'' None)))) ''u'' =
     Ok (UUIDToSession ''u'' None)"
proof -
  have "sessions_inv (NewSessionRepository :: (unit, unit) repository)"
    by (simp add: sessions_inv_def NewSessionRepository_def)
  from session_store [OF this, of None "''u''" "UUIDToSession ''u'' None" "''u''" "[]"] show ?thesis
    by (simp add: UUIDToSession_def)
qed

end
