(* ===== verification/DocSync.thy ===== *)
theory DocSync
  imports PositionMapper Sessions
begin

text \<open>
  \<^verbatim>\<open>src/ulsp/controller/doc-sync/doc_sync.go\<close>: the documents open in each session, their pending edits, and the
  mapper between the indexed and the edited version of a document. Locks make every operation atomic. An
  entry's base is an earlier entry that is no longer reachable otherwise, so it is kept as a value. The IDE
  gateway is the argument \<open>gw\<close>, whose calls are logged; metrics are the sums \<open>open_docs\<close> and \<open>open_bytes\<close>.
\<close>

subsection \<open>State\<close>

datatype document_state = DocumentStateOpenClean | DocumentStateOpenDirty | DocumentStateClosed

record doc_item =
  di_URI :: uri
  di_LanguageID :: gostring
  di_Version :: int
  di_Text :: gostring

datatype store_entry = StoreEntry
  (se_Document: doc_item) (se_Edits: "text_edit list") (EditedSinceLastSave: bool)
  (ProgressToken: "gostring option") (se_Base: "store_entry option") (se_positionMapper: "position_mapper option")

text \<open>A progress bar begins with the name of the file whose fixes are available, in a fixed text.\<close>

datatype ide_call =
    WorkDoneProgressCreate gostring
  | ProgressBegin gostring gostring
  | ProgressEnd gostring

type_synonym session_docs = "(uri \<times> store_entry) list"

record doc_sync =
  documents :: "(uuid \<times> session_docs) list"
  ide_calls :: "ide_call list"
  maxFileSizeBytes :: int

type_synonym 'a ds_result = "'a outcome \<times> doc_sync"

definition newDocumentStoreEntry :: "doc_item \<Rightarrow> store_entry option \<Rightarrow> store_entry" where
  "newDocumentStoreEntry doc base = StoreEntry doc [] False None base None"

fun clearBase :: "store_entry \<Rightarrow> store_entry" where
  "clearBase (StoreEntry doc edits edited token base mapper) = StoreEntry doc edits edited token None None"

fun append_edits :: "text_edit list \<Rightarrow> store_entry \<Rightarrow> store_entry" where
  "append_edits new (StoreEntry doc edits edited token base mapper) = StoreEntry doc (edits @ new) edited token base mapper"

fun set_token :: "gostring \<Rightarrow> store_entry \<Rightarrow> store_entry" where
  "set_token t (StoreEntry doc edits edited token base mapper) = StoreEntry doc edits edited (Some t) base mapper"

fun set_mapper :: "position_mapper \<Rightarrow> store_entry \<Rightarrow> store_entry" where
  "set_mapper m (StoreEntry doc edits edited token base mapper) = StoreEntry doc edits edited token base (Some m)"

fun set_edited :: "store_entry \<Rightarrow> store_entry" where
  "set_edited (StoreEntry doc edits edited token base mapper) = StoreEntry doc edits True token base mapper"

text \<open>\<^verbatim>\<open>c.documents[u][doc]\<close>, reading through a missing session as Go reads a nil map, and the assignment to it.\<close>

definition entry_at :: "doc_sync \<Rightarrow> uuid \<Rightarrow> uri \<Rightarrow> store_entry option" where
  "entry_at c u doc = (case map_of (documents c) u of None \<Rightarrow> None | Some docs \<Rightarrow> map_of docs doc)"

definition put_entry :: "uuid \<Rightarrow> uri \<Rightarrow> store_entry \<Rightarrow> doc_sync \<Rightarrow> doc_sync" where
  "put_entry u doc e c =
     (case map_of (documents c) u of
        None \<Rightarrow> c
      | Some docs \<Rightarrow> c\<lparr>documents := AList.update u (AList.update doc e docs) (documents c)\<rparr>)"

definition session_uuid :: "('p, 'c) repository \<Rightarrow> ctx \<Rightarrow> uuid outcome" where
  "session_uuid sessions cx = obind (GetFromContext sessions cx) (\<lambda>s. Ok (ses_UUID s))"

text \<open>The prologue \<^verbatim>\<open>s, err := c.sessions.GetFromContext(ctx); if err != nil { return err }\<close>.\<close>

definition with_session :: "('p, 'c) repository \<Rightarrow> ctx \<Rightarrow> doc_sync \<Rightarrow> (uuid \<Rightarrow> 'a ds_result) \<Rightarrow> 'a ds_result" where
  "with_session sessions cx c k =
     (case session_uuid sessions cx of Ok u \<Rightarrow> k u | Fail e \<Rightarrow> (Fail e, c) | Panic \<Rightarrow> (Panic, c))"

subsection \<open>Queries\<close>

definition getDocumentStoreEntry :: "('p, 'c) repository \<Rightarrow> ctx \<Rightarrow> doc_sync \<Rightarrow> uri \<Rightarrow> store_entry outcome" where
  "getDocumentStoreEntry sessions cx c doc =
     obind (session_uuid sessions cx) (\<lambda>u.
       case map_of (documents c) u of
         None \<Rightarrow> Fail (UUIDNotFoundError u)
       | Some docs \<Rightarrow> (case map_of docs doc of None \<Rightarrow> Fail (DocumentNotFoundError doc) | Some e \<Rightarrow> Ok e))"

definition GetTextDocument :: "('p, 'c) repository \<Rightarrow> ctx \<Rightarrow> doc_sync \<Rightarrow> uri \<Rightarrow> doc_item outcome" where
  "GetTextDocument sessions cx c doc = obind (getDocumentStoreEntry sessions cx c doc) (\<lambda>e. Ok (se_Document e))"

definition GetDocumentState ::
  "('p, 'c) repository \<Rightarrow> (uri \<Rightarrow> gostring) \<Rightarrow> (gostring \<Rightarrow> gostring outcome) \<Rightarrow> ctx \<Rightarrow> doc_sync \<Rightarrow> uri \<Rightarrow>
   document_state outcome" where
  "GetDocumentState sessions Filename ReadFile cx c doc =
     obind (session_uuid sessions cx) (\<lambda>u.
       case map_of (documents c) u of
         None \<Rightarrow> Fail (UUIDNotFoundError u)
       | Some docs \<Rightarrow>
           (case map_of docs doc of
              None \<Rightarrow> Ok DocumentStateClosed
            | Some e \<Rightarrow>
                if EditedSinceLastSave e
                then obind (wrap_err (Errorf ''unable to open file %q: %w'' [FStr (Filename doc)]) (ReadFile (Filename doc))) (\<lambda>contentOnDisk.
                       if contentOnDisk \<noteq> di_Text (se_Document e) then Ok DocumentStateOpenDirty
                       else Ok DocumentStateOpenClean)
                else Ok DocumentStateOpenClean))"

text \<open>\<^verbatim>\<open>errors.As(err, &docNotFound)\<close>, through wrapped errors.\<close>

fun is_doc_not_found :: "go_error \<Rightarrow> bool" where
  "is_doc_not_found (DocumentNotFoundError d) = True"
| "is_doc_not_found (Join a b) = (is_doc_not_found a \<or> is_doc_not_found b)"
| "is_doc_not_found _ = False"

definition mapper_for :: "diff_main \<Rightarrow> store_entry \<Rightarrow> position_mapper" where
  "mapper_for dm d =
     (case (se_positionMapper d, se_Base d) of
        (Some m, _) \<Rightarrow> m
      | (None, Some b) \<Rightarrow> NewPositionMapper dm (di_Text (se_Document b)) (di_Text (se_Document d))
      | (None, None) \<Rightarrow> NewPositionMapper dm (di_Text (se_Document d)) (di_Text (se_Document d)))"

definition GetPositionMapper ::
  "diff_main \<Rightarrow> ('p, 'c) repository \<Rightarrow> ctx \<Rightarrow> doc_sync \<Rightarrow> uri \<Rightarrow> position_mapper option ds_result" where
  "GetPositionMapper dm sessions cx c doc =
     (case getDocumentStoreEntry sessions cx c doc of
        Fail err \<Rightarrow>
          if is_doc_not_found err then (Ok None, c)
          else (Fail (Join (Errorf ''getting document: %w'' []) err), c)
      | Panic \<Rightarrow> (Panic, c)
      | Ok d \<Rightarrow>
          with_session sessions cx c (\<lambda>u.
            (Ok (Some (mapper_for dm d)), put_entry u doc (set_mapper (mapper_for dm d) d) c)))"

subsection \<open>Pending edits\<close>

definition addEdits ::
  "('p, 'c) repository \<Rightarrow> ctx \<Rightarrow> doc_sync \<Rightarrow> doc_item \<Rightarrow> text_edit list \<Rightarrow> unit ds_result" where
  "addEdits sessions cx c doc edits =
     with_session sessions cx c (\<lambda>u.
       if map_of (documents c) u = None then (Fail (UUIDNotFoundError u), c)
       else case entry_at c u (di_URI doc) of
           None \<Rightarrow> (Fail (DocumentNotFoundError (di_URI doc)), c)
         | Some entry \<Rightarrow>
             if di_Version (se_Document entry) \<noteq> di_Version doc
             then (Fail (DocumentOutdatedError (di_URI doc) (di_Version (se_Document entry)) (di_Version doc)), c)
             else (Ok (), put_entry u (di_URI doc) (append_edits edits entry) c))"

definition setProgressToken ::
  "('p, 'c) repository \<Rightarrow> ctx \<Rightarrow> gostring \<Rightarrow> doc_sync \<Rightarrow> uri \<Rightarrow> gostring ds_result" where
  "setProgressToken sessions cx token c doc =
     with_session sessions cx c (\<lambda>u.
       if map_of (documents c) u = None then (Fail (UUIDNotFoundError u), c)
       else case entry_at c u doc of
           None \<Rightarrow> (Fail (DocumentNotFoundError doc), c)
         | Some entry \<Rightarrow> (Ok token, put_entry u doc (set_token token entry) c))"

text \<open>
  The error of \<^verbatim>\<open>setProgressToken\<close> is not looked at: its nil entry is dereferenced. The new token is an argument;
  the results of the two gateway calls are ignored.
\<close>

definition AddPendingEdits ::
  "('p, 'c) repository \<Rightarrow> ctx \<Rightarrow> gostring \<Rightarrow> (uri \<Rightarrow> gostring) \<Rightarrow> doc_sync \<Rightarrow> doc_item \<Rightarrow> text_edit list \<Rightarrow> bool ds_result" where
  "AddPendingEdits sessions cx token fileName c doc edits =
     (if edits = [] then (Ok False, c)
      else case addEdits sessions cx c doc edits of
          (Fail e, c1) \<Rightarrow> (Fail e, c1)
        | (Panic, c1) \<Rightarrow> (Panic, c1)
        | (Ok _, c1) \<Rightarrow>
            (case setProgressToken sessions cx token c1 (di_URI doc) of
               (Ok t, c2) \<Rightarrow>
                 (Ok True, c2\<lparr>ide_calls := ide_calls c2 @ [WorkDoneProgressCreate t,
                    ProgressBegin t (fileName (di_URI doc))]\<rparr>)
             | (_, c2) \<Rightarrow> (Panic, c2)))"

definition willSaveWaitUntil ::
  "('p, 'c) repository \<Rightarrow> ctx \<Rightarrow> doc_sync \<Rightarrow> uri \<Rightarrow> text_edit list \<Rightarrow> text_edit list outcome" where
  "willSaveWaitUntil sessions cx c doc result =
     obind (session_uuid sessions cx) (\<lambda>u.
       case entry_at c u doc of
         None \<Rightarrow> Fail (DocumentNotFoundError doc)
       | Some entry \<Rightarrow> Ok (result @ se_Edits entry))"

subsection \<open>Sessions\<close>

definition disposeSession :: "doc_sync \<Rightarrow> uuid \<Rightarrow> doc_sync" where
  "disposeSession c u = c\<lparr>documents := AList.delete u (documents c)\<rparr>"

definition initialize :: "('p, 'c) repository \<Rightarrow> ctx \<Rightarrow> doc_sync \<Rightarrow> unit ds_result" where
  "initialize sessions cx c =
     with_session sessions cx c (\<lambda>u. (Ok (), c\<lparr>documents := AList.update u [] (documents c)\<rparr>))"

definition shutdown :: "('p, 'c) repository \<Rightarrow> ctx \<Rightarrow> doc_sync \<Rightarrow> unit ds_result" where
  "shutdown sessions cx c = with_session sessions cx c (\<lambda>u. (Ok (), disposeSession c u))"

definition endSession :: "doc_sync \<Rightarrow> uuid \<Rightarrow> unit ds_result" where
  "endSession c u = (Ok (), disposeSession c u)"

fun reset_base :: "(('p, 'c) session) list \<Rightarrow> uri \<Rightarrow> doc_sync \<Rightarrow> doc_sync" where
  "reset_base [] doc c = c"
| "reset_base (s # ss) doc c =
     reset_base ss doc
       (case entry_at c (ses_UUID s) doc of None \<Rightarrow> c | Some e \<Rightarrow> put_entry (ses_UUID s) doc (clearBase e) c)"

definition ResetBase :: "('p, 'c) repository \<Rightarrow> doc_sync \<Rightarrow> gostring \<Rightarrow> uri \<Rightarrow> unit ds_result" where
  "ResetBase sessions c workspaceRoot doc = (Ok (), reset_base (GetAllFromWorkspaceRoot sessions workspaceRoot) doc c)"

subsection \<open>Documents\<close>

definition validateSize :: "doc_sync \<Rightarrow> gostring \<Rightarrow> unit outcome" where
  "validateSize c text =
     (if maxFileSizeBytes c = 0 then Fail (Errorf ''max file size is not set'' [])
      else if maxFileSizeBytes c < int (length text) then Fail (DocumentSizeLimitError (int (length text)))
      else Ok ())"

text \<open>A document over the limit is not tracked; that is not an error.\<close>

definition didOpen :: "('p, 'c) repository \<Rightarrow> ctx \<Rightarrow> doc_sync \<Rightarrow> doc_item \<Rightarrow> unit ds_result" where
  "didOpen sessions cx c doc =
     with_session sessions cx c (\<lambda>u.
       if map_of (documents c) u = None then (Fail (UUIDNotFoundError u), c)
       else case validateSize c (di_Text doc) of
           Ok _ \<Rightarrow> (Ok (), put_entry u (di_URI doc) (newDocumentStoreEntry doc None) c)
         | _ \<Rightarrow> (Ok (), c))"

definition deleteDocument :: "('p, 'c) repository \<Rightarrow> ctx \<Rightarrow> doc_sync \<Rightarrow> uri \<Rightarrow> store_entry option ds_result" where
  "deleteDocument sessions cx c doc =
     with_session sessions cx c (\<lambda>u.
       case map_of (documents c) u of
         None \<Rightarrow> (Ok None, c)
       | Some docs \<Rightarrow>
           (case map_of docs doc of
              None \<Rightarrow> (Ok None, c)
            | Some e \<Rightarrow> (Ok (Some e), c\<lparr>documents := AList.update u (AList.delete doc docs) (documents c)\<rparr>)))"

text \<open>The gateway call that ends a progress bar, and its result.\<close>

definition end_progress :: "(ide_call \<Rightarrow> unit outcome) \<Rightarrow> gostring \<Rightarrow> doc_sync \<Rightarrow> unit ds_result" where
  "end_progress gw token c = (gw (ProgressEnd token), c\<lparr>ide_calls := ide_calls c @ [ProgressEnd token]\<rparr>)"

definition didClose ::
  "(ide_call \<Rightarrow> unit outcome) \<Rightarrow> ('p, 'c) repository \<Rightarrow> ctx \<Rightarrow> doc_sync \<Rightarrow> uri \<Rightarrow> unit ds_result" where
  "didClose gw sessions cx c doc =
     (case deleteDocument sessions cx c doc of
        (Ok (Some deletedEntry), c1) \<Rightarrow>
          (case ProgressToken deletedEntry of None \<Rightarrow> (Ok (), c1) | Some t \<Rightarrow> end_progress gw t c1)
      | (Ok None, c1) \<Rightarrow> (Ok (), c1)
      | (Fail e, c1) \<Rightarrow> (Fail e, c1)
      | (Panic, c1) \<Rightarrow> (Panic, c1))"

definition updateDocumentText ::
  "('p, 'c) repository \<Rightarrow> ctx \<Rightarrow> doc_sync \<Rightarrow> uri \<Rightarrow> int \<Rightarrow> content_change list \<Rightarrow> (store_entry \<times> store_entry) ds_result" where
  "updateDocumentText sessions cx c doc version changes =
     with_session sessions cx c (\<lambda>u.
       case entry_at c u doc of
         None \<Rightarrow> (Fail (DocumentNotFoundError doc), c)
       | Some initialEntry \<Rightarrow>
           (case ApplyContentChanges (di_Text (se_Document initialEntry)) changes of
              Fail e \<Rightarrow> (Fail e, c)
            | Panic \<Rightarrow> (Panic, c)
            | Ok text \<Rightarrow>
                (case validateSize c text of
                   Ok _ \<Rightarrow>
                     (let d = (se_Document initialEntry)\<lparr>di_Text := text, di_Version := version\<rparr>;
                          base = (case se_Base initialEntry of None \<Rightarrow> initialEntry | Some b \<Rightarrow> b);
                          result = set_edited (newDocumentStoreEntry d (Some base))
                      in (Ok (initialEntry, result), put_entry u doc result c))
                 | Fail e \<Rightarrow> (Fail (Join (Errorf ''unable to add changes to document %q: %w'' [FStr doc]) e), c)
                 | Panic \<Rightarrow> (Panic, c))))"

text \<open>An error of the gateway is only logged.\<close>

definition didChange ::
  "(ide_call \<Rightarrow> unit outcome) \<Rightarrow> ('p, 'c) repository \<Rightarrow> ctx \<Rightarrow> doc_sync \<Rightarrow> uri \<Rightarrow> int \<Rightarrow> content_change list \<Rightarrow> unit ds_result" where
  "didChange gw sessions cx c doc version changes =
     (case updateDocumentText sessions cx c doc version changes of
        (Ok (oldEntry, newEntry), c1) \<Rightarrow>
          (case ProgressToken oldEntry of
             None \<Rightarrow> (Ok (), c1)
           | Some t \<Rightarrow> (Ok (), snd (end_progress gw t c1)))
      | (Fail e, c1) \<Rightarrow> (Fail (Join (Errorf ''adding changes to document: %w'' []) e), c1)
      | (Panic, c1) \<Rightarrow> (Panic, c1))"

definition didSave :: "('p, 'c) repository \<Rightarrow> ctx \<Rightarrow> doc_sync \<Rightarrow> uri \<Rightarrow> gostring \<Rightarrow> unit ds_result" where
  "didSave sessions cx c doc text =
     with_session sessions cx c (\<lambda>u.
       case entry_at c u doc of
         None \<Rightarrow> (Fail (DocumentNotFoundError doc), c)
       | Some docEntry \<Rightarrow>
           (Ok (), put_entry u doc (newDocumentStoreEntry ((se_Document docEntry)\<lparr>di_Text := text\<rparr>) (se_Base docEntry)) c))"

subsection \<open>Metrics and start\<close>

definition open_docs :: "doc_sync \<Rightarrow> nat" where
  "open_docs c = sum_list (map (\<lambda>(u, docs). length docs) (documents c))"

definition open_bytes :: "doc_sync \<Rightarrow> nat" where
  "open_bytes c = sum_list (map (\<lambda>(u, docs). sum_list (map (\<lambda>(d, e). length (di_Text (se_Document e))) docs)) (documents c))"

text \<open>\<open>None\<close> is the panic when the configuration has no size limit.\<close>

definition NewDocSync :: "int outcome \<Rightarrow> doc_sync option" where
  "NewDocSync limit =
     (case limit of
        Ok n \<Rightarrow> if n = 0 then None else Some \<lparr>documents = [], ide_calls = [], maxFileSizeBytes = n\<rparr>
      | _ \<Rightarrow> None)"

end
