(* ===== verification/DocSyncSpec.thy ===== *)
theory DocSyncSpec
  imports DocSync
begin

text \<open>
  The document store as a state machine: the reachable states, the invariant of its entries, and the abstract
  view of a document as a pair of texts, the indexed one and the edited one.
\<close>

subsection \<open>Reading after writing\<close>

lemma entry_at_put:
  "entry_at (put_entry u d e c) u' d' =
     (if u' = u \<and> d' = d \<and> map_of (documents c) u \<noteq> None then Some e else entry_at c u' d')"
  by (auto simp: entry_at_def put_entry_def update_conv' split: option.splits)

lemma put_entry_session: "map_of (documents (put_entry u d e c)) v = None \<longleftrightarrow> map_of (documents c) v = None"
  by (auto simp: put_entry_def update_conv' split: option.splits)

lemma entry_at_session: "entry_at c u d = Some e \<Longrightarrow> map_of (documents c) u \<noteq> None"
  by (auto simp: entry_at_def split: option.splits)

interpretation docs: keyed_store "\<lambda>c. map_of (documents c) u \<noteq> None" "\<lambda>d. True" "\<lambda>c d. entry_at c u d"
  "\<lambda>(x :: unit) d e c. put_entry u d e c" for u
  by unfold_locales (simp_all add: put_entry_session entry_at_put)

lemma entry_at_dispose: "entry_at (disposeSession c u) v d = (if v = u then None else entry_at c v d)"
  by (simp add: entry_at_def disposeSession_def delete_conv')

lemma with_session_cases:
  assumes "with_session sessions cx c k = r"
  obtains u where "session_uuid sessions cx = Ok u" and "r = k u"
    | e where "r = (Fail e, c)" | "r = (Panic, c)"
  using assms by (auto simp: with_session_def split: outcome.splits)

lemma GetSession_uuid: "sessions_inv r \<Longrightarrow> GetSession r u = Ok s \<Longrightarrow> ses_UUID s = u"
  by (auto simp: sessions_inv_def GetSession_def ModelToSession_def dest: map_of_SomeD split: option.splits)

subsection \<open>The invariant\<close>

definition base_text :: "store_entry \<Rightarrow> gostring" where
  "base_text e = di_Text (se_Document (case se_Base e of None \<Rightarrow> e | Some b \<Rightarrow> b))"

text \<open>
  A cached mapper is the one for the entry's two texts; a progress bar is shown only while there are pending
  edits; an entry is stored under its own URI.
\<close>

definition entry_ok :: "diff_main \<Rightarrow> uri \<Rightarrow> store_entry \<Rightarrow> bool" where
  "entry_ok dm d e \<longleftrightarrow>
     (case se_positionMapper e of None \<Rightarrow> True | Some m \<Rightarrow> m = NewPositionMapper dm (base_text e) (di_Text (se_Document e))) \<and>
     (ProgressToken e \<noteq> None \<longrightarrow> se_Edits e \<noteq> []) \<and> di_URI (se_Document e) = d"

definition ds_inv :: "diff_main \<Rightarrow> doc_sync \<Rightarrow> bool" where
  "ds_inv dm c \<longleftrightarrow> (\<forall>u d e. entry_at c u d = Some e \<longrightarrow> entry_ok dm d e)"

lemma ds_invI: "(\<And>u d e. entry_at c u d = Some e \<Longrightarrow> entry_ok dm d e) \<Longrightarrow> ds_inv dm c"
  by (auto simp: ds_inv_def)

lemma ds_invD: "ds_inv dm c \<Longrightarrow> entry_at c u d = Some e \<Longrightarrow> entry_ok dm d e"
  by (auto simp: ds_inv_def)

lemma ds_inv_put:
  assumes "ds_inv dm c" and "entry_ok dm d e"
  shows "ds_inv dm (put_entry u d e c)"
proof (rule ds_invI)
  fix u' d' e' assume "entry_at (put_entry u d e c) u' d' = Some e'"
  with assms ds_invD [OF assms(1)] show "entry_ok dm d' e'" by (auto simp: entry_at_put split: if_splits)
qed

lemma ds_inv_calls [simp]: "ds_inv dm (c\<lparr>ide_calls := l\<rparr>) \<longleftrightarrow> ds_inv dm c"
  by (simp add: ds_inv_def entry_at_def)

lemma mapper_for_ok: "entry_ok dm d e \<Longrightarrow> mapper_for dm e = NewPositionMapper dm (base_text e) (di_Text (se_Document e))"
  by (simp add: entry_ok_def mapper_for_def base_text_def split: option.splits)

lemma entry_sel [simp]:
  "se_Document (clearBase e) = se_Document e" "se_positionMapper (clearBase e) = None"
  "ProgressToken (clearBase e) = ProgressToken e" "se_Edits (clearBase e) = se_Edits e" "se_Base (clearBase e) = None"
  "se_Document (set_mapper m e) = se_Document e" "se_positionMapper (set_mapper m e) = Some m"
  "ProgressToken (set_mapper m e) = ProgressToken e" "se_Edits (set_mapper m e) = se_Edits e" "se_Base (set_mapper m e) = se_Base e"
  "se_Document (set_token t e) = se_Document e" "se_positionMapper (set_token t e) = se_positionMapper e"
  "ProgressToken (set_token t e) = Some t" "se_Edits (set_token t e) = se_Edits e" "se_Base (set_token t e) = se_Base e"
  "se_Document (append_edits new e) = se_Document e" "se_positionMapper (append_edits new e) = se_positionMapper e"
  "ProgressToken (append_edits new e) = ProgressToken e" "se_Edits (append_edits new e) = se_Edits e @ new"
  "se_Base (append_edits new e) = se_Base e"
  by (cases e; simp)+

lemma base_text_sel [simp]:
  "base_text (set_mapper m e) = base_text e" "base_text (set_token t e) = base_text e"
  "base_text (append_edits new e) = base_text e" "base_text (clearBase e) = di_Text (se_Document e)"
  by (simp_all add: base_text_def split: option.split)

lemma entry_ok_clear: "entry_ok dm d e \<Longrightarrow> entry_ok dm d (clearBase e)"
  by (simp add: entry_ok_def)

lemma entry_ok_mapper:
  "entry_ok dm d e \<Longrightarrow> entry_ok dm d (set_mapper (NewPositionMapper dm (base_text e) (di_Text (se_Document e))) e)"
  by (simp add: entry_ok_def)

lemma entry_ok_token: "entry_ok dm d e \<Longrightarrow> new \<noteq> [] \<Longrightarrow> entry_ok dm d (set_token t (append_edits new e))"
  by (cases "se_positionMapper e") (simp_all add: entry_ok_def)

lemma entry_ok_new: "di_URI doc = d \<Longrightarrow> entry_ok dm d (newDocumentStoreEntry doc b)"
  by (simp add: entry_ok_def newDocumentStoreEntry_def)

lemma entry_ok_edited: "di_URI doc = d \<Longrightarrow> entry_ok dm d (set_edited (newDocumentStoreEntry doc b))"
  by (simp add: entry_ok_def newDocumentStoreEntry_def)

lemma entry_ok_uri: "entry_ok dm d e \<Longrightarrow> di_URI (se_Document e) = d"
  by (simp add: entry_ok_def)

subsection \<open>Reachable states\<close>

inductive ds_reachable :: "diff_main \<Rightarrow> (('p, 'c) repository \<Rightarrow> bool) \<Rightarrow> doc_sync \<Rightarrow> bool" for dm S where
  start: "NewDocSync limit = Some c \<Longrightarrow> ds_reachable dm S c"
| initialize: "ds_reachable dm S c \<Longrightarrow> S ss \<Longrightarrow> ds_reachable dm S (snd (initialize ss cx c))"
| shutdown: "ds_reachable dm S c \<Longrightarrow> S ss \<Longrightarrow> ds_reachable dm S (snd (shutdown ss cx c))"
| endSession: "ds_reachable dm S c \<Longrightarrow> ds_reachable dm S (snd (endSession c u))"
| didOpen: "ds_reachable dm S c \<Longrightarrow> S ss \<Longrightarrow> ds_reachable dm S (snd (didOpen ss cx c doc))"
| didChange: "ds_reachable dm S c \<Longrightarrow> S ss \<Longrightarrow> ds_reachable dm S (snd (didChange gw ss cx c d v changes))"
| didSave: "ds_reachable dm S c \<Longrightarrow> S ss \<Longrightarrow> ds_reachable dm S (snd (didSave ss cx c d text))"
| didClose: "ds_reachable dm S c \<Longrightarrow> S ss \<Longrightarrow> ds_reachable dm S (snd (didClose gw ss cx c d))"
| AddPendingEdits: "ds_reachable dm S c \<Longrightarrow> S ss \<Longrightarrow> ds_reachable dm S (snd (AddPendingEdits ss cx t fname c doc edits))"
| GetPositionMapper: "ds_reachable dm S c \<Longrightarrow> S ss \<Longrightarrow> ds_reachable dm S (snd (GetPositionMapper dm ss cx c d))"
| ResetBase: "ds_reachable dm S c \<Longrightarrow> S ss \<Longrightarrow> ds_reachable dm S (snd (ResetBase ss c root d))"

lemma inv_initialize: "ds_inv dm c \<Longrightarrow> ds_inv dm (snd (initialize ss cx c))"
proof (cases "session_uuid ss cx")
  case (Ok u)
  assume inv: "ds_inv dm c"
  show ?thesis
  proof (rule ds_invI)
    fix v d e assume "entry_at (snd (initialize ss cx c)) v d = Some e"
    with Ok have "entry_at c v d = Some e"
      by (simp add: initialize_def with_session_def entry_at_def update_conv' split: if_splits)
    with inv show "entry_ok dm d e" by (rule ds_invD)
  qed
qed (simp_all add: initialize_def with_session_def)

lemma inv_dispose: "ds_inv dm c \<Longrightarrow> ds_inv dm (disposeSession c u)"
  by (rule ds_invI) (auto simp: entry_at_dispose split: if_splits dest: ds_invD)

lemma inv_shutdown: "ds_inv dm c \<Longrightarrow> ds_inv dm (snd (shutdown ss cx c))"
  by (simp add: shutdown_def with_session_def inv_dispose split: outcome.split)

lemma inv_didOpen: "ds_inv dm c \<Longrightarrow> ds_inv dm (snd (didOpen ss cx c doc))"
  by (simp add: didOpen_def with_session_def ds_inv_put entry_ok_new split: outcome.split)

lemma inv_update:
  assumes "ds_inv dm c"
  shows "ds_inv dm (snd (updateDocumentText ss cx c d v changes))"
proof (cases "session_uuid ss cx")
  case (Ok u)
  show ?thesis
  proof (cases "entry_at c u d")
    case (Some e)
    with assms have "di_URI (se_Document e) = d" by (intro entry_ok_uri ds_invD)
    with Ok Some assms show ?thesis
      by (simp add: updateDocumentText_def with_session_def Let_def ds_inv_put entry_ok_edited split: outcome.split)
  qed (use Ok assms in \<open>simp add: updateDocumentText_def with_session_def\<close>)
qed (use assms in \<open>simp_all add: updateDocumentText_def with_session_def\<close>)

lemma inv_didChange: "ds_inv dm c \<Longrightarrow> ds_inv dm (snd (didChange gw ss cx c d v changes))"
  using inv_update [of dm c ss cx d v changes]
  by (cases "updateDocumentText ss cx c d v changes")
    (auto simp: didChange_def end_progress_def split: outcome.split option.split)

lemma inv_didSave:
  assumes "ds_inv dm c"
  shows "ds_inv dm (snd (didSave ss cx c d text))"
proof (cases "session_uuid ss cx")
  case (Ok u)
  show ?thesis
  proof (cases "entry_at c u d")
    case (Some e)
    with assms have "di_URI (se_Document e) = d" by (intro entry_ok_uri ds_invD)
    with Ok Some assms show ?thesis by (simp add: didSave_def with_session_def ds_inv_put entry_ok_new)
  qed (use Ok assms in \<open>simp add: didSave_def with_session_def\<close>)
qed (use assms in \<open>simp_all add: didSave_def with_session_def\<close>)

lemma entry_at_delete:
  "map_of (documents c) u = Some docs \<Longrightarrow>
   entry_at (c\<lparr>documents := AList.update u (AList.delete d docs) (documents c)\<rparr>) v d' =
     (if v = u \<and> d' = d then None else entry_at c v d')"
  by (simp add: entry_at_def update_conv' delete_conv')

lemma inv_delete:
  assumes "ds_inv dm c"
  shows "ds_inv dm (snd (deleteDocument ss cx c d))"
proof (rule ds_invI)
  fix v d' e assume "entry_at (snd (deleteDocument ss cx c d)) v d' = Some e"
  then have "entry_at c v d' = Some e"
    by (auto simp: deleteDocument_def with_session_def entry_at_delete split: outcome.splits option.splits if_splits)
  with assms show "entry_ok dm d' e" by (rule ds_invD)
qed

lemma inv_didClose: "ds_inv dm c \<Longrightarrow> ds_inv dm (snd (didClose gw ss cx c d))"
  using inv_delete [of dm c ss cx d]
  by (cases "deleteDocument ss cx c d")
    (auto simp: didClose_def end_progress_def split: outcome.split option.split)

lemma inv_mapper:
  assumes "ds_inv dm c"
  shows "ds_inv dm (snd (GetPositionMapper dm ss cx c d))"
proof (cases "getDocumentStoreEntry ss cx c d")
  case (Ok e)
  then obtain u where u: "session_uuid ss cx = Ok u" and at: "entry_at c u d = Some e"
    by (auto simp: getDocumentStoreEntry_def entry_at_def obind_Ok_iff split: option.splits)
  note ok = ds_invD [OF assms at]
  from Ok u ds_inv_put [OF assms entry_ok_mapper [OF ok]] show ?thesis
    by (simp add: GetPositionMapper_def with_session_def mapper_for_ok [OF ok])
qed (use assms in \<open>simp_all add: GetPositionMapper_def\<close>)

lemma inv_reset: "ds_inv dm c \<Longrightarrow> ds_inv dm (reset_base sl d c)"
proof (induction sl d c rule: reset_base.induct)
  case (2 s ss d c)
  have "ds_inv dm (case entry_at c (ses_UUID s) d of None \<Rightarrow> c | Some e \<Rightarrow> put_entry (ses_UUID s) d (clearBase e) c)"
    using 2(2) by (auto intro!: ds_inv_put entry_ok_clear dest: ds_invD split: option.split)
  from 2(1) [OF this] show ?case by simp
qed simp

text \<open>Adding edits puts them, with a new token, behind those of the entry with that version; or changes nothing.\<close>

lemma AddPendingEdits_cases:
  assumes "edits \<noteq> []" and "session_uuid ss cx = Ok u"
  shows "AddPendingEdits ss cx t fname c doc edits =
    (if map_of (documents c) u = None then (Fail (UUIDNotFoundError u), c)
     else case entry_at c u (di_URI doc) of
         None \<Rightarrow> (Fail (DocumentNotFoundError (di_URI doc)), c)
       | Some e \<Rightarrow>
           if di_Version (se_Document e) \<noteq> di_Version doc
           then (Fail (DocumentOutdatedError (di_URI doc) (di_Version (se_Document e)) (di_Version doc)), c)
           else (Ok True, (put_entry u (di_URI doc) (set_token t (append_edits edits e))
                  (put_entry u (di_URI doc) (append_edits edits e) c))
                  \<lparr>ide_calls := ide_calls c @ [WorkDoneProgressCreate t, ProgressBegin t (fname (di_URI doc))]\<rparr>))"
proof -
  have "ide_calls (put_entry u d x (put_entry u d y c)) = ide_calls c" for d x y
    by (simp add: put_entry_def split: option.split)
  with assms show ?thesis
    by (simp add: AddPendingEdits_def addEdits_def setProgressToken_def with_session_def entry_at_put put_entry_session
        split: option.split)
qed

lemma put_entry_twice: "put_entry u d x (put_entry u d y c) = put_entry u d x c"
proof (cases "map_of (documents c) u")
  case (Some docs)
  then have "map_of (AList.update u (AList.update d y docs) (documents c)) u = Some (AList.update d y docs)"
    by (simp add: update_conv')
  with Some show ?thesis by (simp add: put_entry_def)
qed (simp add: put_entry_def)

lemma inv_AddPendingEdits:
  assumes "ds_inv dm c"
  shows "ds_inv dm (snd (AddPendingEdits ss cx t fname c doc edits))"
proof (cases "edits = [] \<or> (\<nexists>u. session_uuid ss cx = Ok u)")
  case True
  with assms show ?thesis
    by (auto simp: AddPendingEdits_def addEdits_def with_session_def split: outcome.split)
next
  case False
  then obtain u where "edits \<noteq> []" "session_uuid ss cx = Ok u" by auto
  with assms show ?thesis
    by (auto simp: AddPendingEdits_cases put_entry_twice intro!: ds_inv_put entry_ok_token dest: ds_invD split: option.split)
qed

lemma reachable_inv: "ds_reachable dm S c \<Longrightarrow> ds_inv dm c"
proof (induction rule: ds_reachable.induct)
  case (start limit c)
  then show ?case by (auto simp: NewDocSync_def ds_inv_def entry_at_def split: outcome.splits if_splits)
qed (simp_all add: inv_initialize inv_shutdown inv_didOpen inv_didChange inv_didSave inv_didClose inv_AddPendingEdits
    inv_mapper endSession_def inv_dispose ResetBase_def inv_reset)

subsection \<open>The two texts of a document\<close>

definition doc_view :: "doc_sync \<Rightarrow> uuid \<Rightarrow> uri \<Rightarrow> (gostring \<times> gostring) option" where
  "doc_view c u d = map_option (\<lambda>e. (base_text e, di_Text (se_Document e))) (entry_at c u d)"

lemma doc_view_put:
  "map_of (documents c) u \<noteq> None \<Longrightarrow>
   doc_view (put_entry u d e c) v d' = (if v = u \<and> d' = d then Some (base_text e, di_Text (se_Document e)) else doc_view c v d')"
  by (simp add: doc_view_def entry_at_put)

lemma doc_view_calls [simp]: "doc_view (c\<lparr>ide_calls := l\<rparr>) = doc_view c"
  by (intro ext) (simp add: doc_view_def entry_at_def)

lemma doc_view_Some:
  assumes "doc_view c u d = Some (b, t)"
  obtains e where "entry_at c u d = Some e" and "base_text e = b" and "di_Text (se_Document e) = t"
  using assms by (auto simp: doc_view_def)

lemma view_didOpen:
  assumes "session_uuid ss cx = Ok u" and "map_of (documents c) u \<noteq> None"
    and "validateSize c (di_Text doc) = Ok ()"
  shows "doc_view (snd (didOpen ss cx c doc)) v d' =
    (if v = u \<and> d' = di_URI doc then Some (di_Text doc, di_Text doc) else doc_view c v d')"
  using assms by (auto simp: didOpen_def with_session_def doc_view_put newDocumentStoreEntry_def base_text_def)

lemma view_didChange:
  assumes "session_uuid ss cx = Ok u" and "map_of (documents c) u \<noteq> None"
    and *: "doc_view c u d = Some (b, t) \<and> ApplyContentChanges t changes = Ok t' \<and> validateSize c t' = Ok ()"
  shows "fst (didChange gw ss cx c d n changes) = Ok ()"
    and "doc_view (snd (didChange gw ss cx c d n changes)) v d' = (if v = u \<and> d' = d then Some (b, t') else doc_view c v d')"
proof -
  from * obtain e where e: "entry_at c u d = Some e" "base_text e = b" "di_Text (se_Document e) = t" by (auto elim: doc_view_Some)
  let ?new = "set_edited (newDocumentStoreEntry ((se_Document e)\<lparr>di_Text := t', di_Version := n\<rparr>)
    (Some (case se_Base e of None \<Rightarrow> e | Some b \<Rightarrow> b)))"
  have "updateDocumentText ss cx c d n changes = (Ok (e, ?new), put_entry u d ?new c)"
    using assms * e by (simp add: updateDocumentText_def with_session_def Let_def)
  then have d: "didChange gw ss cx c d n changes =
      (Ok (), case ProgressToken e of None \<Rightarrow> put_entry u d ?new c | Some tok \<Rightarrow> snd (end_progress gw tok (put_entry u d ?new c)))"
    by (simp add: didChange_def split: option.split)
  show "fst (didChange gw ss cx c d n changes) = Ok ()" by (simp add: d)
  have "base_text ?new = b" "di_Text (se_Document ?new) = t'"
    using e(2) by (simp_all add: base_text_def newDocumentStoreEntry_def)
  with assms(2) show "doc_view (snd (didChange gw ss cx c d n changes)) v d' = (if v = u \<and> d' = d then Some (b, t') else doc_view c v d')"
    by (simp add: d end_progress_def doc_view_put split: option.split)
qed

lemma view_didSave:
  assumes "session_uuid ss cx = Ok u" and "map_of (documents c) u \<noteq> None" and "entry_at c u d = Some e"
  shows "fst (didSave ss cx c d t) = Ok ()"
    and "doc_view (snd (didSave ss cx c d t)) v d' =
      (if v = u \<and> d' = d then Some (case se_Base e of None \<Rightarrow> t | Some b \<Rightarrow> di_Text (se_Document b), t) else doc_view c v d')"
  using assms
  by (auto simp: didSave_def with_session_def newDocumentStoreEntry_def doc_view_def entry_at_put base_text_def split: option.split)

lemma view_didClose:
  assumes "session_uuid ss cx = Ok u" and "map_of (documents c) u \<noteq> None"
  shows "doc_view (snd (didClose gw ss cx c d)) v d' = (if v = u \<and> d' = d then None else doc_view c v d')"
proof -
  obtain docs where docs: "map_of (documents c) u = Some docs" using assms(2) by auto
  show "doc_view (snd (didClose gw ss cx c d)) v d' = (if v = u \<and> d' = d then None else doc_view c v d')"
  proof (cases "map_of docs d")
    case None
    then have "entry_at c u d = None" using docs by (simp add: entry_at_def)
    with assms docs None show ?thesis
      by (auto simp: didClose_def deleteDocument_def with_session_def doc_view_def)
  next
    case (Some e)
    let ?c = "c\<lparr>documents := AList.update u (AList.delete d docs) (documents c)\<rparr>"
    have "doc_view ?c v d' = (if v = u \<and> d' = d then None else doc_view c v d')"
      by (simp only: doc_view_def entry_at_delete [OF docs]) simp
    moreover have "\<exists>l. snd (didClose gw ss cx c d) = ?c\<lparr>ide_calls := l\<rparr> \<or> snd (didClose gw ss cx c d) = ?c"
      using assms docs Some by (auto simp: didClose_def deleteDocument_def with_session_def end_progress_def split: option.split)
    ultimately show ?thesis by (metis doc_view_calls)
  qed
qed

text \<open>
  C10. The document store implements the two-text view: opening a document sets both texts; a change applies
  its edits to the current text and keeps the base; saving replaces the current text by the saved one, and keeps the base of a
  document that was changed since it was opened or its base was reset (otherwise the saved text is the base as well); closing forgets the
  document. No step touches another document or another session.
\<close>

theorem doc_sync_refines:
  assumes "session_uuid ss cx = Ok u" and "map_of (documents c) u \<noteq> None"
  shows "(validateSize c (di_Text doc) = Ok () \<longrightarrow>
      doc_view (snd (didOpen ss cx c doc)) v d' =
        (if v = u \<and> d' = di_URI doc then Some (di_Text doc, di_Text doc) else doc_view c v d')) \<and>
    (doc_view c u d = Some (b, t) \<and> ApplyContentChanges t changes = Ok t' \<and> validateSize c t' = Ok () \<longrightarrow>
      fst (didChange gw ss cx c d n changes) = Ok () \<and>
      doc_view (snd (didChange gw ss cx c d n changes)) v d' = (if v = u \<and> d' = d then Some (b, t') else doc_view c v d')) \<and>
    (entry_at c u d = Some e \<longrightarrow>
      fst (didSave ss cx c d s) = Ok () \<and>
      doc_view (snd (didSave ss cx c d s)) v d' =
        (if v = u \<and> d' = d then Some (case se_Base e of None \<Rightarrow> s | Some b \<Rightarrow> di_Text (se_Document b), s) else doc_view c v d')) \<and>
    doc_view (snd (didClose gw ss cx c d)) v d' = (if v = u \<and> d' = d then None else doc_view c v d')"
  by (intro conjI impI; (rule view_didOpen [OF assms] view_didChange [OF assms] view_didSave [OF assms] view_didClose [OF assms])?; assumption?)

text \<open>
  C11. In every reachable state the position mapper that is handed out for a tracked document, cached or
  new, is the one between the document's base text and its current text.
\<close>

theorem position_mapper_current:
  assumes "ds_reachable dm S c" and "session_uuid ss cx = Ok u" and "doc_view c u d = Some (b, t)"
  shows "fst (GetPositionMapper dm ss cx c d) = Ok (Some (NewPositionMapper dm b t))"
proof -
  from assms(3) obtain e where e: "entry_at c u d = Some e" "base_text e = b" "di_Text (se_Document e) = t"
    by (auto elim: doc_view_Some)
  then have "getDocumentStoreEntry ss cx c d = Ok e"
    using assms(2) by (auto simp: getDocumentStoreEntry_def entry_at_def split: option.splits)
  with e mapper_for_ok [OF ds_invD [OF reachable_inv [OF assms(1)] e(1)]] assms(2) show ?thesis
    by (simp add: GetPositionMapper_def with_session_def)
qed

lemma reset_base_view:
  "doc_view (reset_base sl d c) v d' =
     (if d' = d \<and> v \<in> ses_UUID ` set sl then map_option (\<lambda>(b, t). (t, t)) (doc_view c v d') else doc_view c v d')"
proof (induction sl arbitrary: c)
  case (Cons s ss)
  let ?c = "case entry_at c (ses_UUID s) d of None \<Rightarrow> c | Some e \<Rightarrow> put_entry (ses_UUID s) d (clearBase e) c"
  have "doc_view ?c v d' =
      (if d' = d \<and> v = ses_UUID s then map_option (\<lambda>(b, t). (t, t)) (doc_view c v d') else doc_view c v d')"
    by (auto simp: doc_view_def entry_at_put dest: entry_at_session split: option.split)
  moreover have "map_option (\<lambda>(b, t). (t, t)) (map_option (\<lambda>(b, t). (t, t)) x) = map_option (\<lambda>(b, t). (t, t)) x"
    for x :: "(gostring \<times> gostring) option" by (cases x) auto
  ultimately show ?case using Cons.IH [of ?c] by auto
qed simp

text \<open>
  \<^verbatim>\<open>ResetBase\<close> makes the current text of the document the base text in exactly the sessions of the workspace
  root, and changes nothing else that is visible.
\<close>

theorem ResetBase_view:
  assumes "sessions_inv ss"
  shows "doc_view (snd (ResetBase ss c root d)) v d' =
    (if d' = d \<and> (\<exists>s. GetSession ss v = Ok s \<and> ses_WorkspaceRoot s = root)
     then map_option (\<lambda>(b, t). (t, t)) (doc_view c v d') else doc_view c v d')"
proof -
  have "v \<in> ses_UUID ` set (GetAllFromWorkspaceRoot ss root) \<longleftrightarrow> (\<exists>s. GetSession ss v = Ok s \<and> ses_WorkspaceRoot s = root)"
    by (simp add: image_iff Bex_def GetAll_iff [OF assms]) (metis GetSession_uuid [OF assms])
  then show ?thesis by (simp add: ResetBase_def reset_base_view)
qed

text \<open>
  Pending edits never outlive the version they were made for: edits for another version are refused and
  leave the store as it was, accepted edits are offered on save behind the earlier ones, and after a change
  none are left.
\<close>

theorem pending_edits_safe:
  assumes "session_uuid ss cx = Ok u" and "entry_at c u (di_URI doc) = Some e" and "edits \<noteq> []"
  shows "(di_Version (se_Document e) \<noteq> di_Version doc \<longrightarrow>
      AddPendingEdits ss cx t fname c doc edits =
        (Fail (DocumentOutdatedError (di_URI doc) (di_Version (se_Document e)) (di_Version doc)), c)) \<and>
    (di_Version (se_Document e) = di_Version doc \<longrightarrow>
      fst (AddPendingEdits ss cx t fname c doc edits) = Ok True \<and>
      willSaveWaitUntil ss cx (snd (AddPendingEdits ss cx t fname c doc edits)) (di_URI doc) r = Ok (r @ se_Edits e @ edits)) \<and>
    (fst (didChange gw ss cx c (di_URI doc) n changes) = Ok () \<longrightarrow>
      willSaveWaitUntil ss cx (snd (didChange gw ss cx c (di_URI doc) n changes)) (di_URI doc) r = Ok r)"
proof (intro conjI impI)
  assume "fst (didChange gw ss cx c (di_URI doc) n changes) = Ok ()"
  then obtain x y c1 where up: "updateDocumentText ss cx c (di_URI doc) n changes = (Ok (x, y), c1)"
    by (auto simp: didChange_def split: prod.splits outcome.splits)
  then have "y = set_edited (newDocumentStoreEntry (se_Document y) (se_Base y))" "c1 = put_entry u (di_URI doc) y c"
    using assms(1,2)
    by (auto simp: updateDocumentText_def with_session_def Let_def newDocumentStoreEntry_def split: outcome.splits)
  then have "entry_at c1 u (di_URI doc) = Some y" "se_Edits y = []"
    using entry_at_session [OF assms(2)] by (auto simp: entry_at_put newDocumentStoreEntry_def) (metis store_entry.sel(2) set_edited.simps)
  moreover have "entry_at (snd (didChange gw ss cx c (di_URI doc) n changes)) u (di_URI doc) = entry_at c1 u (di_URI doc)"
    using up by (simp add: didChange_def end_progress_def entry_at_def split: option.split)
  ultimately show "willSaveWaitUntil ss cx (snd (didChange gw ss cx c (di_URI doc) n changes)) (di_URI doc) r = Ok r"
    using assms(1) by (simp add: willSaveWaitUntil_def)
qed (use assms entry_at_session [OF assms(2)] in
    \<open>auto simp: AddPendingEdits_cases willSaveWaitUntil_def put_entry_twice entry_at_put entry_at_def [of "c\<lparr>ide_calls := l\<rparr>" for c l]
        entry_at_def [symmetric]\<close>)

subsection \<open>Witnesses\<close>

text \<open>One session with one open document.\<close>

definition sample_session :: "(unit, unit) session" where
  "sample_session = (UUIDToSession ''u'' None)\<lparr>ses_WorkspaceRoot := ''/w''\<rparr>"

definition sample_sessions :: "(unit, unit) repository" where
  "sample_sessions = snd (SetSession NewSessionRepository (Some sample_session))"

definition sample_item :: doc_item where
  "sample_item = \<lparr>di_URI = ''a'', di_LanguageID = ''go'', di_Version = 1, di_Text = ''ab''\<rparr>"

definition start_sync :: doc_sync where
  "start_sync = \<lparr>documents = [], ide_calls = [], maxFileSizeBytes = 100\<rparr>"

definition open_sync :: doc_sync where
  "open_sync = snd (didOpen sample_sessions (Some ''u'') (snd (initialize sample_sessions (Some ''u'') start_sync)) sample_item)"

lemma sample_uuid: "session_uuid sample_sessions (Some ''u'') = Ok ''u''"
  by (simp add: session_uuid_def GetFromContext_def ContextToSessionUUID_def sample_sessions_def GetSession_Set
      sample_session_def UUIDToSession_def)

lemma sample_sessions_inv: "sessions_inv sample_sessions"
  unfolding sample_sessions_def by (rule SetSession_inv) (simp add: sessions_inv_def NewSessionRepository_def)

lemma open_sync_eq: "open_sync = start_sync\<lparr>documents := [(''u'', [(''a'', newDocumentStoreEntry sample_item None)])]\<rparr>"
  by (simp add: open_sync_def didOpen_def initialize_def with_session_def sample_uuid start_sync_def validateSize_def
      sample_item_def put_entry_def)

lemma open_sync_view: "doc_view open_sync ''u'' ''a'' = Some (''ab'', ''ab'')" "map_of (documents open_sync) ''u'' \<noteq> None"
  by (simp_all add: open_sync_eq doc_view_def entry_at_def newDocumentStoreEntry_def base_text_def sample_item_def start_sync_def)

lemma open_sync_reachable: "ds_reachable sample_diff (\<lambda>ss. ss = sample_sessions) open_sync"
  unfolding open_sync_def
proof (intro ds_reachable.didOpen ds_reachable.initialize ds_reachable.start)
  show "NewDocSync (Ok 100) = Some start_sync" by (simp add: NewDocSync_def start_sync_def)
qed simp_all

theorem doc_sync_refines_witness:
  "doc_view (snd (didChange (\<lambda>x. Ok ()) sample_sessions (Some ''u'') open_sync ''a'' 2 [insert_at 0 0 ''x''])) ''u'' ''a'' =
     Some (''ab'', ''xab'')"
proof -
  have "ApplyContentChanges ''ab'' [insert_at 0 0 ''x''] = Ok ''xab''" by code_simp
  moreover have "validateSize open_sync ''xab'' = Ok ()" by (simp add: validateSize_def open_sync_eq start_sync_def)
  ultimately show ?thesis
    using doc_sync_refines [OF sample_uuid open_sync_view(2), of sample_item "''u''" "''a''" "''a''" "''ab''" "''ab''"
        "[insert_at 0 0 ''x'']" "''xab''" "\<lambda>x. Ok ()" 2] open_sync_view(1) by simp
qed

theorem position_mapper_current_witness:
  "fst (GetPositionMapper sample_diff sample_sessions (Some ''u'') open_sync ''a'') =
     Ok (Some (NewPositionMapper sample_diff ''ab'' ''ab''))"
  by (rule position_mapper_current [OF open_sync_reachable sample_uuid open_sync_view(1)])

theorem ResetBase_view_witness:
  "doc_view (snd (ResetBase sample_sessions open_sync ''/w'' ''a'')) ''u'' ''a'' = Some (''ab'', ''ab'')"
proof -
  have "GetSession sample_sessions ''u'' = Ok sample_session"
    by (simp add: sample_sessions_def GetSession_Set sample_session_def UUIDToSession_def)
  with ResetBase_view [OF sample_sessions_inv, of open_sync "''/w''" "''a''" "''u''" "''a''"] open_sync_view(1) show ?thesis
    by (simp add: sample_session_def)
qed

theorem pending_edits_safe_witness:
  "fst (AddPendingEdits sample_sessions (Some ''u'') ''t'' (\<lambda>u. u) open_sync sample_item [\<lparr>te_Range = zero_range, te_NewText = ''x''\<rparr>]) =
     Ok True"
proof -
  have "entry_at open_sync ''u'' (di_URI sample_item) = Some (newDocumentStoreEntry sample_item None)"
    by (simp add: entry_at_def open_sync_eq sample_item_def start_sync_def)
  from pending_edits_safe [OF sample_uuid this, of "[\<lparr>te_Range = zero_range, te_NewText = ''x''\<rparr>]"] show ?thesis
    by (simp add: newDocumentStoreEntry_def)
qed

end
