(* ===== verification/PrefixTree.thy ===== *)
theory PrefixTree
  imports ScipModel
begin

text \<open>
  \<^verbatim>\<open>src/scip-lib/partialloader/prefixtree.go\<close>: the tree of symbols by descriptor path.

  Nodes are shared by pointer (parents, the node lists of the documents), so they live in an explicit
  heap: an address is an index into the list of nodes. The map \<^verbatim>\<open>Children\<close> is an association list from
  descriptors to addresses; \<^verbatim>\<open>SymbolVersions\<close> is one from versions to infos, where a nil map and an
  empty one are the same list (only the root's map is nil, and no operation writes to it).
  \<^verbatim>\<open>scip.ParseSymbol\<close>, \<^verbatim>\<open>scip.IsLocalSymbol\<close>, \<^verbatim>\<open>scip.IsGlobalSymbol\<close> and \<^verbatim>\<open>Package.ID\<close> are library code,
  the fields of \<open>symlib\<close>.
\<close>

subsection \<open>Nodes and operations\<close>

type_synonym addr = nat

record version_info =
  vi_Info :: symbol_information
  vi_DocumentPath :: gostring

record tree_node =
  Parent :: "addr option"
  Preamble :: gostring
  SymbolVersions :: "(gostring \<times> version_info) list"
  Children :: "(descriptor \<times> addr) list"
  Revision :: int

type_synonym heap = "tree_node list"

record symlib =
  ParseSymbol :: "gostring \<Rightarrow> scip_symbol outcome"
  IsLocalSymbol :: "gostring \<Rightarrow> bool"
  IsGlobalSymbol :: "gostring \<Rightarrow> bool"
  PackageID :: "scip_package \<Rightarrow> gostring"

definition empty_node :: tree_node where
  "empty_node = \<lparr>Parent = None, Preamble = '''', SymbolVersions = [], Children = [], Revision = 0\<rparr>"

definition NewSymbolPrefixTree :: "heap \<Rightarrow> heap \<times> addr" where
  "NewSymbolPrefixTree h = (h @ [empty_node], length h)"

abbreviation child :: "heap \<Rightarrow> addr \<Rightarrow> descriptor \<Rightarrow> addr option" where
  "child h a d \<equiv> map_of (Children (h ! a)) d"

text \<open>The child is created, or its revision is set; then the version is stored in it.\<close>

definition ensure_child ::
  "heap \<Rightarrow> addr \<Rightarrow> gostring \<Rightarrow> descriptor \<Rightarrow> int \<Rightarrow> heap \<times> addr \<times> bool" where
  "ensure_child h t preamble d revision =
     (case child h t d of
        None \<Rightarrow>
          (h[t := (h ! t)\<lparr>Children := (d, length h) # Children (h ! t)\<rparr>] @
             [\<lparr>Parent = Some t, Preamble = preamble, SymbolVersions = [], Children = [], Revision = revision\<rparr>],
           length h, True)
      | Some c \<Rightarrow> (h[c := (h ! c)\<lparr>Revision := revision\<rparr>], c, False))"

definition addChild ::
  "heap \<Rightarrow> addr \<Rightarrow> gostring \<Rightarrow> gostring \<Rightarrow> descriptor \<Rightarrow> symbol_information option \<Rightarrow> int \<Rightarrow> gostring \<Rightarrow>
   heap \<times> addr \<times> bool" where
  "addChild h t relativeDocPath preamble d info revision version =
     (case ensure_child h t preamble d revision of
        (h1, c, isNew) \<Rightarrow>
          (case info of
             None \<Rightarrow> (h1, c, isNew)
           | Some i \<Rightarrow>
               (h1[c := (h1 ! c)\<lparr>SymbolVersions := AList.update version
                    \<lparr>vi_Info = i, vi_DocumentPath = relativeDocPath\<rparr> (SymbolVersions (h1 ! c))\<rparr>], c, isNew)))"

text \<open>The loop of \<^verbatim>\<open>AddSymbol\<close> over the descriptors; the last one carries the symbol.\<close>

fun add_path ::
  "heap \<Rightarrow> addr \<Rightarrow> bool \<Rightarrow> descriptor list \<Rightarrow> gostring \<Rightarrow> gostring \<Rightarrow> symbol_information \<Rightarrow> int \<Rightarrow> gostring \<Rightarrow>
   heap \<times> addr \<times> bool" where
  "add_path h node isNew [] doc pre info revision version = (h, node, isNew)"
| "add_path h node isNew [d] doc pre info revision version = addChild h node doc pre d (Some info) revision version"
| "add_path h node isNew (d # e # ds) doc pre info revision version =
     (case addChild h node '''' '''' d None revision version of
        (h1, n1, isNew1) \<Rightarrow> add_path h1 n1 isNew1 (e # ds) doc pre info revision version)"

text \<open>A nil package of the parsed symbol is dereferenced.\<close>

definition AddSymbol ::
  "symlib \<Rightarrow> heap \<Rightarrow> addr \<Rightarrow> gostring \<Rightarrow> symbol_information \<Rightarrow> int \<Rightarrow> (heap \<times> addr option \<times> bool) outcome" where
  "AddSymbol sl h t relativeDocPath info revision =
     (case ParseScipSymbol (ParseSymbol sl) (si_Symbol info) of
        Panic \<Rightarrow> Panic
      | Fail _ \<Rightarrow> Ok (h, None, False)
      | Ok sy \<Rightarrow>
          (case Package sy of
             None \<Rightarrow> Panic
           | Some pkg \<Rightarrow>
               (case add_path h t False (ScipDescriptorsToModelDescriptors (Descriptors sy)) relativeDocPath
                   (Scheme sy @ '' '' @ PackageID sl pkg) info revision (spkg_Version pkg) of
                  (h', node, isNew) \<Rightarrow> Ok (h', Some node, isNew))))"

fun walk :: "heap \<Rightarrow> addr \<Rightarrow> descriptor list \<Rightarrow> addr option" where
  "walk h a [] = Some a"
| "walk h a (d # ds) = (case child h a d of None \<Rightarrow> None | Some c \<Rightarrow> walk h c ds)"

definition GetNode :: "symlib \<Rightarrow> heap \<Rightarrow> addr \<Rightarrow> gostring \<Rightarrow> addr option" where
  "GetNode sl h t symbol =
     (case ParseScipSymbol (ParseSymbol sl) symbol of
        Ok sy \<Rightarrow> walk h t (ScipDescriptorsToModelDescriptors (Descriptors sy))
      | _ \<Rightarrow> None)"

text \<open>
  \<^verbatim>\<open>Merge\<close> recurses into the common children: \<open>fuel\<close> bounds the depth, the loop over the children of
  \<^verbatim>\<open>other\<close> is structural.
\<close>

definition merge_fields :: "tree_node \<Rightarrow> tree_node \<Rightarrow> tree_node" where
  "merge_fields existing new =
     existing\<lparr>SymbolVersions := AList.merge (SymbolVersions existing) (SymbolVersions new),
              Revision := (if Revision existing < Revision new then Revision new else Revision existing)\<rparr>"

fun merge_loop ::
  "(heap \<Rightarrow> addr \<Rightarrow> addr \<Rightarrow> heap option) \<Rightarrow> heap \<Rightarrow> addr \<Rightarrow> (descriptor \<times> addr) list \<Rightarrow> heap option" where
  "merge_loop rec h t [] = Some h"
| "merge_loop rec h t ((desc, c) # cs) =
     (case child h t desc of
        None \<Rightarrow>
          (let h1 = h[c := (h ! c)\<lparr>Parent := Some t\<rparr>];
               h2 = h1[t := (h1 ! t)\<lparr>Children := (desc, c) # Children (h1 ! t)\<rparr>]
           in merge_loop rec h2 t cs)
      | Some existing \<Rightarrow>
          (case rec (h[existing := merge_fields (h ! existing) (h ! c)]) existing c of
             None \<Rightarrow> None
           | Some h2 \<Rightarrow> merge_loop rec h2 t cs))"

fun Merge :: "nat \<Rightarrow> heap \<Rightarrow> addr \<Rightarrow> addr \<Rightarrow> heap option" where
  "Merge 0 h t other = None"
| "Merge (Suc fuel) h t other = merge_loop (Merge fuel) h t (Children (h ! other))"

text \<open>\<^verbatim>\<open>PruneNodes\<close>: deleting from a map while ranging over it is allowed; each child is seen once.\<close>

definition should_delete :: "gostring \<Rightarrow> int \<Rightarrow> tree_node \<Rightarrow> bool" where
  "should_delete docPath revision n \<longleftrightarrow>
     Revision n < revision \<and> list_ex (\<lambda>(v, vi). vi_DocumentPath vi = docPath) (SymbolVersions n)"

fun prune_loop ::
  "(heap \<Rightarrow> addr \<Rightarrow> heap option) \<Rightarrow> heap \<Rightarrow> addr \<Rightarrow> gostring \<Rightarrow> int \<Rightarrow> (descriptor \<times> addr) list \<Rightarrow> heap option" where
  "prune_loop rec h t docPath revision [] = Some h"
| "prune_loop rec h t docPath revision ((name, c) # cs) =
     (if should_delete docPath revision (h ! c)
      then prune_loop rec (h[t := (h ! t)\<lparr>Children := AList.delete name (Children (h ! t))\<rparr>]) t docPath revision cs
      else (case rec h c of
              None \<Rightarrow> None
            | Some h1 \<Rightarrow> prune_loop rec h1 t docPath revision cs))"

fun PruneNodes :: "nat \<Rightarrow> heap \<Rightarrow> addr \<Rightarrow> gostring \<Rightarrow> int \<Rightarrow> heap option" where
  "PruneNodes 0 h t docPath revision = None"
| "PruneNodes (Suc fuel) h t docPath revision =
     prune_loop (\<lambda>h' c. PruneNodes fuel h' c docPath revision) h t docPath revision (Children (h ! t))"

subsection \<open>Walking trees\<close>

text \<open>What a node says, apart from its links: the abstract value stored at a path.\<close>

record node_view =
  nv_versions :: "gostring \<Rightarrow> version_info option"
  nv_revision :: int
  nv_preamble :: gostring

definition node_view :: "tree_node \<Rightarrow> node_view" where
  "node_view n = \<lparr>nv_versions = map_of (SymbolVersions n), nv_revision = Revision n, nv_preamble = Preamble n\<rparr>"

definition view :: "heap \<Rightarrow> addr \<Rightarrow> descriptor list \<Rightarrow> node_view option" where
  "view h a p = map_option (\<lambda>b. node_view (h ! b)) (walk h a p)"

definition reach :: "heap \<Rightarrow> addr \<Rightarrow> addr set" where
  "reach h a = {b. \<exists>p. walk h a p = Some b}"

text \<open>The nodes below \<open>r\<close> form a tree: addresses are valid and each is reached by one path.\<close>

definition tree :: "heap \<Rightarrow> addr \<Rightarrow> bool" where
  "tree h r \<longleftrightarrow>
     (\<forall>p a. walk h r p = Some a \<longrightarrow> a < length h \<and> distinct (map fst (Children (h ! a)))) \<and>
     (\<forall>p q a. walk h r p = Some a \<longrightarrow> walk h r q = Some a \<longrightarrow> p = q)"

text \<open>Every node but the root points back to the node above it.\<close>

definition parents_ok :: "heap \<Rightarrow> addr \<Rightarrow> bool" where
  "parents_ok h r \<longleftrightarrow> (\<forall>p d a. walk h r (p @ [d]) = Some a \<longrightarrow> Parent (h ! a) = walk h r p)"

lemma walk_append: "walk h r (p @ q) = (case walk h r p of None \<Rightarrow> None | Some a \<Rightarrow> walk h a q)"
  by (induction p arbitrary: r) (auto split: option.splits)

lemma reach_self [simp]: "r \<in> reach h r"
  unfolding reach_def by (metis (mono_tags) mem_Collect_eq walk.simps(1))

lemma reach_child: "child h r d = Some c \<Longrightarrow> reach h c \<subseteq> reach h r"
proof
  fix b assume "child h r d = Some c" and "b \<in> reach h c"
  then obtain p where "walk h r (d # p) = Some b" by (auto simp: reach_def)
  then show "b \<in> reach h r" unfolding reach_def by blast
qed

lemma reach_unfold: "reach h r = insert r (\<Union>{reach h c | c d. child h r d = Some c})"
proof
  show "reach h r \<subseteq> insert r (\<Union>{reach h c | c d. child h r d = Some c})"
  proof
    fix b assume "b \<in> reach h r"
    then obtain p where "walk h r p = Some b" by (auto simp: reach_def)
    then show "b \<in> insert r (\<Union>{reach h c | c d. child h r d = Some c})"
      by (cases p) (auto simp: reach_def split: option.splits)
  qed
  show "insert r (\<Union>{reach h c | c d. child h r d = Some c}) \<subseteq> reach h r"
    by (auto dest: subsetD [OF reach_child])
qed

lemma reachE:
  assumes "b \<in> reach h r"
  obtains "b = r" | d c where "child h r d = Some c" "b \<in> reach h c"
  using assms by (subst (asm) reach_unfold) auto

text \<open>A walk looks only at the nodes it can reach.\<close>

lemma walk_frame:
  "(\<And>a. a \<in> reach h r \<Longrightarrow> Children (h' ! a) = Children (h ! a)) \<Longrightarrow> walk h' r p = walk h r p"
proof (induction p arbitrary: r)
  case (Cons d p)
  show ?case
  proof (cases "child h r d")
    case None
    with Cons.prems [OF reach_self] show ?thesis by simp
  next
    case (Some c)
    with reach_child [OF Some] Cons.prems have "walk h' c p = walk h c p" by (intro Cons.IH) auto
    with Cons.prems [OF reach_self] Some show ?thesis by simp
  qed
qed simp

lemma reach_frame:
  "(\<And>a. a \<in> reach h r \<Longrightarrow> Children (h' ! a) = Children (h ! a)) \<Longrightarrow> reach h' r = reach h r"
  using walk_frame [of h r h'] by (simp add: reach_def)

lemma view_frame:
  assumes "\<And>a. a \<in> reach h r \<Longrightarrow> h' ! a = h ! a"
  shows "view h' r p = view h r p"
proof -
  have "walk h' r p = walk h r p" using assms by (intro walk_frame) simp
  moreover have "h' ! b = h ! b" if "walk h r p = Some b" for b
    using assms that by (auto simp: reach_def)
  ultimately show ?thesis by (cases "walk h r p") (auto simp: view_def)
qed

lemma tree_frame:
  assumes "tree h r" and "\<And>a. a \<in> reach h r \<Longrightarrow> Children (h' ! a) = Children (h ! a)" and "length h \<le> length h'"
  shows "tree h' r"
proof -
  have "\<And>p. walk h' r p = walk h r p" using assms(2) by (intro walk_frame)
  moreover have "Children (h' ! a) = Children (h ! a)" if "walk h r p = Some a" for p a
    using that assms(2) by (auto simp: reach_def)
  ultimately show ?thesis using assms(1,3) unfolding tree_def by (metis order_less_le_trans)
qed

lemma tree_child:
  assumes "tree h r" and "child h r d = Some c"
  shows "tree h c" and "r \<notin> reach h c"
proof -
  have w: "walk h r (d # p) = walk h c p" for p using assms(2) by simp
  show "tree h c" unfolding tree_def
  proof (intro conjI allI impI)
    fix p q a assume "walk h c p = Some a" and "walk h c q = Some a"
    with w assms(1) show "p = q" unfolding tree_def by (metis list.inject)
  qed (use w assms(1) in \<open>metis tree_def\<close>)+
  show "r \<notin> reach h c"
  proof
    assume "r \<in> reach h c"
    then obtain p where "walk h r (d # p) = Some r" using w by (auto simp: reach_def)
    moreover have "walk h r [] = Some r" by simp
    ultimately show False using assms(1) unfolding tree_def by blast
  qed
qed

lemma tree_children_disjoint:
  assumes "tree h r" and "child h r d = Some c" and "child h r e = Some c'" and "d \<noteq> e"
  shows "reach h c \<inter> reach h c' = {}"
proof (rule ccontr)
  assume "reach h c \<inter> reach h c' \<noteq> {}"
  then obtain b p q where "walk h r (d # p) = Some b" "walk h r (e # q) = Some b"
    using assms(2,3) by (auto simp: reach_def)
  with assms(1) have "d # p = e # q" unfolding tree_def by blast
  with assms(4) show False by simp
qed

lemma tree_root:
  assumes "tree h r"
  shows "r < length h" and "distinct (map fst (Children (h ! r)))"
proof -
  have "walk h r [] = Some r" by simp
  with assms show "r < length h" "distinct (map fst (Children (h ! r)))" unfolding tree_def by blast+
qed

lemma tree_walk:
  "tree h r \<Longrightarrow> walk h r p = Some a \<Longrightarrow> a < length h \<and> distinct (map fst (Children (h ! a)))"
  unfolding tree_def by blast

lemma treeI:
  assumes "r < length h" and "distinct (map fst (Children (h ! r)))"
    and sub: "\<And>d c. child h r d = Some c \<Longrightarrow> tree h c \<and> r \<notin> reach h c"
    and disj: "\<And>d e c c'. child h r d = Some c \<Longrightarrow> child h r e = Some c' \<Longrightarrow> d \<noteq> e \<Longrightarrow> reach h c \<inter> reach h c' = {}"
  shows "tree h r"
  unfolding tree_def
proof (intro conjI allI impI)
  fix p a assume w: "walk h r p = Some a"
  have "a < length h \<and> distinct (map fst (Children (h ! a)))"
  proof (cases p)
    case (Cons d p')
    with w obtain c where "child h r d = Some c" "walk h c p' = Some a" by (auto split: option.splits)
    with sub tree_walk show ?thesis by blast
  qed (use w assms(1,2) in simp)
  then show "a < length h" "distinct (map fst (Children (h ! a)))" by simp_all
next
  fix p q a assume p: "walk h r p = Some a" and q: "walk h r q = Some a"
  show "p = q"
  proof (cases p; cases q)
    fix d p' e q' assume cons: "p = d # p'" "q = e # q'"
    with p q obtain c c' where c: "child h r d = Some c" "walk h c p' = Some a"
      "child h r e = Some c'" "walk h c' q' = Some a" by (auto split: option.splits)
    then have "a \<in> reach h c \<inter> reach h c'" by (auto simp: reach_def)
    with disj c have "d = e" by blast
    moreover from this c sub have "p' = q'" unfolding tree_def by (metis option.inject)
    ultimately show ?thesis using cons by simp
  next
    fix e q' assume "p = []" "q = e # q'"
    with p q sub show ?thesis by (auto simp: reach_def split: option.splits)
  next
    fix d p' assume "p = d # p'" "q = []"
    with p q sub show ?thesis by (auto simp: reach_def split: option.splits)
  qed simp
qed

lemma reach_bound: "tree h r \<Longrightarrow> a \<in> reach h r \<Longrightarrow> a < length h"
  by (auto simp: tree_def reach_def)

lemma view_Nil [simp]: "view h r [] = Some (node_view (h ! r))"
  by (simp add: view_def)

lemma view_Cons: "view h r (d # p) = (case child h r d of None \<Rightarrow> None | Some c \<Rightarrow> view h c p)"
  by (simp add: view_def split: option.splits)

end
