(* ===== verification/PrefixTreeSpec.thy ===== *)
theory PrefixTreeSpec
  imports PrefixTree
begin

text \<open>
  What the operations of the prefix tree do to the abstract tree, the partial function from descriptor
  paths to node values given by \<open>view\<close>: \<open>AddSymbol\<close> updates one path, \<open>Merge\<close> is a pointwise union,
  \<open>PruneNodes\<close> removes the paths through the doomed nodes; all keep the tree shape and the parent
  pointers. The proofs rest on one frame lemma, \<open>subtree_update\<close>: a change inside the subtree of one
  child leaves the rest of the tree alone.
\<close>

subsection \<open>Frame lemmas\<close>

lemma parents_ok_iff:
  "parents_ok h r \<longleftrightarrow> (\<forall>d c. child h r d = Some c \<longrightarrow> Parent (h ! c) = Some r \<and> parents_ok h c)"
proof
  assume ok: "parents_ok h r"
  show "\<forall>d c. child h r d = Some c \<longrightarrow> Parent (h ! c) = Some r \<and> parents_ok h c"
  proof (intro allI impI conjI)
    fix d c assume c: "child h r d = Some c"
    have "walk h r ([] @ [d]) = Some c" using c by simp
    with ok show "Parent (h ! c) = Some r" unfolding parents_ok_def by fastforce
    show "parents_ok h c" unfolding parents_ok_def
    proof (intro allI impI)
      fix p e a assume "walk h c (p @ [e]) = Some a"
      with c have "walk h r ((d # p) @ [e]) = Some a" by simp
      with ok have "Parent (h ! a) = walk h r (d # p)" unfolding parents_ok_def by blast
      with c show "Parent (h ! a) = walk h c p" by simp
    qed
  qed
next
  assume sub: "\<forall>d c. child h r d = Some c \<longrightarrow> Parent (h ! c) = Some r \<and> parents_ok h c"
  show "parents_ok h r" unfolding parents_ok_def
  proof (intro allI impI)
    fix p d a assume w: "walk h r (p @ [d]) = Some a"
    show "Parent (h ! a) = walk h r p"
    proof (cases p)
      case Nil
      with w sub show ?thesis by (auto split: option.splits)
    next
      case (Cons e p')
      with w obtain c where "child h r e = Some c" "walk h c (p' @ [d]) = Some a" by (auto split: option.splits)
      with sub Cons show ?thesis by (auto simp: parents_ok_def)
    qed
  qed
qed

lemma parents_frame:
  assumes "parents_ok h r" and "\<And>a. a \<in> reach h r \<Longrightarrow> Children (h' ! a) = Children (h ! a)"
    and "\<And>a. a \<in> reach h r \<Longrightarrow> a \<noteq> r \<Longrightarrow> Parent (h' ! a) = Parent (h ! a)" and "tree h r"
  shows "parents_ok h' r"
proof -
  have eq: "walk h' r p = walk h r p" for p by (rule walk_frame) (rule assms(2))
  have "Parent (h' ! a) = walk h r p" if w: "walk h r (p @ [d]) = Some a" for p d a
  proof -
    have "a \<in> reach h r" using w unfolding reach_def by blast
    moreover have "a \<noteq> r"
    proof
      assume "a = r"
      with w have "walk h r (p @ [d]) = Some r" "walk h r [] = Some r" by simp_all
      with assms(4) have "p @ [d] = []" unfolding tree_def by blast
      then show False by simp
    qed
    ultimately have "Parent (h' ! a) = Parent (h ! a)" by (rule assms(3))
    with w assms(1) show ?thesis by (simp add: parents_ok_def)
  qed
  then show ?thesis by (simp add: parents_ok_def eq)
qed

text \<open>
  One child of the root is set or removed: the other children are untouched and the new one, if any, is a tree apart from them. Adding
  a child, grafting a tree, deleting a child and changing something inside a child are all of this form.
\<close>

lemma set_child:
  assumes t: "tree h r" and child: "\<And>e. child h' r e = (if e = d then n else child h r e)"
    and keys: "distinct (map fst (Children (h' ! r)))" and len: "length h \<le> length h'"
    and others: "\<forall>e c'. e \<noteq> d \<and> child h r e = Some c' \<longrightarrow>
      (\<forall>c. n = Some c \<longrightarrow> reach h c' \<inter> reach h' c = {}) \<and> (\<forall>a\<in>reach h c'. h' ! a = h ! a)"
    and new: "\<forall>c. n = Some c \<longrightarrow> tree h' c \<and> r \<notin> reach h' c"
  shows "tree h' r" and "reach h' r \<subseteq> reach h r \<union> (case n of None \<Rightarrow> {} | Some c \<Rightarrow> reach h' c)"
    and "view h' r (e # p) = (if e = d then Option.bind n (\<lambda>c. view h' c p) else view h r (e # p))"
    and "walk h' r (e # p) = (if e = d then Option.bind n (\<lambda>c. walk h' c p) else walk h r (e # p))"
    and "parents_ok h r \<Longrightarrow> (\<forall>c. n = Some c \<longrightarrow> parents_ok h' c \<and> Parent (h' ! c) = Some r) \<Longrightarrow> parents_ok h' r"
proof -
  have apart: "n = Some c \<Longrightarrow> reach h c' \<inter> reach h' c = {}" and same: "\<And>a. a \<in> reach h c' \<Longrightarrow> h' ! a = h ! a"
    if "e \<noteq> d" "child h r e = Some c'" for e c' c
    using others that by blast+
  have other: "reach h' c' = reach h c'" "tree h' c'" "view h' c' p = view h c' p" "walk h' c' p = walk h c' p"
    if "e \<noteq> d" "child h r e = Some c'" for e c' p
    using reach_frame [of h c' h'] tree_frame [OF tree_child(1) [OF t that(2)], of h'] view_frame [of h c' h'] walk_frame [of h c' h']
      same [OF that] len by simp_all
  show "tree h' r"
  proof (rule treeI)
    show "r < length h'" using tree_root(1) [OF t] len by simp
  next
    fix e c' assume "child h' r e = Some c'"
    then show "tree h' c' \<and> r \<notin> reach h' c'"
      using new other(1,2) [of e c'] tree_child(2) [OF t, of e c'] by (cases "e = d") (auto simp: child)
  next
    fix e f c1 c2 assume "child h' r e = Some c1" "child h' r f = Some c2" "e \<noteq> f"
    then show "reach h' c1 \<inter> reach h' c2 = {}"
      using other(1) [of e c1] other(1) [of f c2] apart [of e c1] apart [of f c2] tree_children_disjoint [OF t, of e c1 f c2]
      by (cases "e = d"; cases "f = d") (auto simp: child)
  qed (rule keys)
  show "reach h' r \<subseteq> reach h r \<union> (case n of None \<Rightarrow> {} | Some c \<Rightarrow> reach h' c)"
  proof
    fix b assume "b \<in> reach h' r"
    then show "b \<in> reach h r \<union> (case n of None \<Rightarrow> {} | Some c \<Rightarrow> reach h' c)"
    proof (cases rule: reachE)
      case (2 e c')
      then show ?thesis using other(1) [of e c'] reach_child [of h r e c'] by (cases "e = d") (auto simp: child)
    qed simp
  qed
  show "view h' r (e # p) = (if e = d then Option.bind n (\<lambda>c. view h' c p) else view h r (e # p))"
    using other(3) [of e] by (auto simp: view_Cons child simp del: map_of_eq_Some_iff split: option.split bind_split)
  show "walk h' r (e # p) = (if e = d then Option.bind n (\<lambda>c. walk h' c p) else walk h r (e # p))"
    using other(4) [of e] by (auto simp: child simp del: map_of_eq_Some_iff split: option.split bind_split)
  show "parents_ok h' r" if par: "parents_ok h r" "\<forall>c. n = Some c \<longrightarrow> parents_ok h' c \<and> Parent (h' ! c) = Some r"
    unfolding parents_ok_iff [of h' r]
  proof (intro allI impI)
    fix e c' assume e: "child h' r e = Some c'"
    show "Parent (h' ! c') = Some r \<and> parents_ok h' c'"
    proof (cases "e = d")
      case False
      with e have c': "child h r e = Some c'" by (simp add: child)
      with par(1) have "Parent (h ! c') = Some r" "parents_ok h c'" by (auto simp: parents_ok_iff [of h r])
      then show ?thesis using parents_frame [of h c' h'] same [OF False c'] tree_child(1) [OF t c'] by simp
    qed (use e par(2) child in simp)
  qed
qed

lemma replace_child:
  assumes "tree h r" and "\<And>e. child h' r e = (if e = d then Some c else child h r e)"
    and "distinct (map fst (Children (h' ! r)))" and "length h \<le> length h'"
    and "\<forall>e c'. e \<noteq> d \<and> child h r e = Some c' \<longrightarrow> reach h c' \<inter> reach h' c = {} \<and> (\<forall>a\<in>reach h c'. h' ! a = h ! a)"
    and "tree h' c" and "r \<notin> reach h' c"
  shows "tree h' r" and "reach h' r \<subseteq> reach h r \<union> reach h' c"
    and "view h' r (e # p) = (if e = d then view h' c p else view h r (e # p))"
    and "walk h' r (e # p) = (if e = d then walk h' c p else walk h r (e # p))"
    and "parents_ok h r \<Longrightarrow> parents_ok h' c \<Longrightarrow> Parent (h' ! c) = Some r \<Longrightarrow> parents_ok h' r"
  using set_child [OF assms(1-4)] assms(5-) by (simp_all del: walk.simps)

lemma subtree_update:
  assumes t: "tree h r" and c: "child h r d = Some c"
    and keep: "\<And>a. a \<in> reach h r \<Longrightarrow> a \<notin> reach h c \<Longrightarrow> h' ! a = h ! a"
    and t': "tree h' c" and sub: "reach h' c \<subseteq> reach h c \<union> X" and X: "X \<inter> reach h r = {}"
    and len: "length h \<le> length h'"
  shows "h' ! r = h ! r" and "tree h' r" and "reach h' r \<subseteq> reach h r \<union> X"
    and "view h' r (e # p) = (if e = d then view h' c p else view h r (e # p))"
    and "walk h' r (e # p) = (if e = d then walk h' c p else walk h r (e # p))"
    and "parents_ok h r \<Longrightarrow> parents_ok h' c \<Longrightarrow> Parent (h' ! c) = Parent (h ! c) \<Longrightarrow> parents_ok h' r"
proof -
  show root: "h' ! r = h ! r" using tree_child(2) [OF t c] by (intro keep) simp_all
  have child: "child h' r e = (if e = d then Some c else child h r e)" for e using c by (simp add: root)
  have keys: "distinct (map fst (Children (h' ! r)))" using tree_root(2) [OF t] by (simp add: root)
  have others: "\<forall>e c'. e \<noteq> d \<and> child h r e = Some c' \<longrightarrow> reach h c' \<inter> reach h' c = {} \<and> (\<forall>a\<in>reach h c'. h' ! a = h ! a)"
  proof (intro allI impI, elim conjE)
    fix e c' assume e: "e \<noteq> d" "child h r e = Some c'"
    with tree_children_disjoint [OF t e(2) c e(1)] reach_child [OF e(2)] sub X keep
    show "reach h c' \<inter> reach h' c = {} \<and> (\<forall>a\<in>reach h c'. h' ! a = h ! a)" by blast
  qed
  have r: "r \<notin> reach h' c" using tree_child(2) [OF t c] sub X reach_self [of r h] by blast
  note upd = replace_child [OF t child keys len others t' r]
  show "tree h' r" by (rule upd(1))
  show "reach h' r \<subseteq> reach h r \<union> X" using upd(2) sub reach_child [OF c] by blast
  show "view h' r (e # p) = (if e = d then view h' c p else view h r (e # p))" by (rule upd(3))
  show "walk h' r (e # p) = (if e = d then walk h' c p else walk h r (e # p))" by (rule upd(4))
  show "parents_ok h' r" if "parents_ok h r" "parents_ok h' c" "Parent (h' ! c) = Parent (h ! c)"
    using upd(5) that c by (auto simp: parents_ok_iff [of h r])
qed

subsection \<open>Adding a symbol\<close>

text \<open>The value at a node after a symbol path has gone through it, or ended in it.\<close>

definition put_view ::
  "symbol_information option \<Rightarrow> gostring \<Rightarrow> gostring \<Rightarrow> int \<Rightarrow> gostring \<Rightarrow> node_view option \<Rightarrow> node_view" where
  "put_view info doc pre revision version v =
     (let nv = (case v of None \<Rightarrow> \<lparr>nv_versions = Map.empty, nv_revision = revision, nv_preamble = pre\<rparr>
                | Some nv \<Rightarrow> nv\<lparr>nv_revision := revision\<rparr>)
      in case info of
           None \<Rightarrow> nv
         | Some i \<Rightarrow> nv\<lparr>nv_versions := (nv_versions nv)(version \<mapsto> \<lparr>vi_Info = i, vi_DocumentPath = doc\<rparr>)\<rparr>)"

lemma addChild_spec:
  assumes t: "tree h r" and add: "addChild h r doc pre d info revision version = (h1, c, isNew)"
  shows "length h \<le> length h1" and "isNew \<longleftrightarrow> child h r d = None"
    and "child h1 r e = (if e = d then Some c else child h r e)"
    and "node_view (h1 ! r) = node_view (h ! r)" and "Parent (h1 ! r) = Parent (h ! r)"
    and "a < length h \<Longrightarrow> a \<noteq> r \<Longrightarrow> a \<noteq> c \<Longrightarrow> h1 ! a = h ! a"
    and "c < length h1" and "c \<noteq> r" and "distinct (map fst (Children (h1 ! r)))"
    and "isNew \<Longrightarrow> c = length h \<and> Children (h1 ! c) = [] \<and> Parent (h1 ! c) = Some r"
    and "\<not> isNew \<Longrightarrow> c < length h \<and> child h r d = Some c \<and> Children (h1 ! c) = Children (h ! c) \<and> Parent (h1 ! c) = Parent (h ! c)"
    and "node_view (h1 ! c) = put_view info doc pre revision version (view h r [d])"
proof -
  note r = tree_root [OF t]
  have c: "c = length h" "isNew" if "child h r d = None"
    using add that by (auto simp: addChild_def ensure_child_def split: option.splits)
  have old: "\<not> isNew" "c < length h" "c \<noteq> r" if "child h r d = Some x" for x
  proof -
    have "c = x" "\<not> isNew" using add that by (auto simp: addChild_def ensure_child_def split: option.splits)
    with tree_root(1) [OF tree_child(1) [OF t that]] tree_child(2) [OF t that]
    show "\<not> isNew" "c < length h" "c \<noteq> r" using reach_self [of r h] by auto
  qed
  show "isNew \<longleftrightarrow> child h r d = None" using c old by (cases "child h r d") auto
  have cases: "child h r d = None \<and> c = length h \<and> isNew \<or> child h r d = Some c \<and> \<not> isNew \<and> c < length h \<and> c \<noteq> r"
    using c old add by (cases "child h r d") (auto simp: addChild_def ensure_child_def split: option.splits)
  note defs = addChild_def ensure_child_def nth_append nth_list_update
  show "length h \<le> length h1" "child h1 r e = (if e = d then Some c else child h r e)"
    "node_view (h1 ! r) = node_view (h ! r)" "Parent (h1 ! r) = Parent (h ! r)"
    "a < length h \<Longrightarrow> a \<noteq> r \<Longrightarrow> a \<noteq> c \<Longrightarrow> h1 ! a = h ! a" "c < length h1" "c \<noteq> r"
    "distinct (map fst (Children (h1 ! r)))"
    "isNew \<Longrightarrow> c = length h \<and> Children (h1 ! c) = [] \<and> Parent (h1 ! c) = Some r"
    "\<not> isNew \<Longrightarrow> c < length h \<and> child h r d = Some c \<and> Children (h1 ! c) = Children (h ! c) \<and> Parent (h1 ! c) = Parent (h ! c)"
    using add r cases
    by (auto simp: defs node_view_def map_of_eq_None_iff split: option.splits)
  show "node_view (h1 ! c) = put_view info doc pre revision version (view h r [d])"
    using add r cases
    by (auto simp: defs node_view_def view_def put_view_def update_conv' fun_upd_def simp del: map_of_eq_Some_iff
        split: option.splits)
qed

text \<open>The abstract effect of a symbol path on the value at path \<open>p\<close>.\<close>

definition add_view ::
  "descriptor list \<Rightarrow> gostring \<Rightarrow> gostring \<Rightarrow> symbol_information \<Rightarrow> int \<Rightarrow> gostring \<Rightarrow> descriptor list \<Rightarrow>
   node_view option \<Rightarrow> node_view option" where
  "add_view ds doc pre info revision version p v =
     (if p = ds then Some (put_view (Some info) doc pre revision version v)
      else if prefix p ds then Some (put_view None '''' '''' revision version v)
      else v)"

text \<open>A child that \<open>addChild\<close> has visited: the tree is a tree again, and only this child changed.\<close>

lemma addChild_child:
  assumes t: "tree h r" and add: "addChild h r doc pre d info revision version = (h1, c, isNew)"
  shows "tree h1 c" and "reach h1 c \<subseteq> (if isNew then {length h} else reach h c)" and "r \<notin> reach h1 c"
    and "view h1 c p = (if p = [] then Some (put_view info doc pre revision version (view h r [d])) else view h r (d # p))"
    and "walk h1 c p = (if p = [] then Some c else walk h r (d # p))"
    and "parents_ok h r \<Longrightarrow> parents_ok h1 c \<and> Parent (h1 ! c) = Some r"
proof -
  note spec = addChild_spec [OF t add]
  have "tree h1 c \<and> reach h1 c \<subseteq> (if isNew then {length h} else reach h c) \<and> r \<notin> reach h1 c \<and>
    (\<forall>p. view h1 c p = (if p = [] then Some (put_view info doc pre revision version (view h r [d])) else view h r (d # p))) \<and>
    (\<forall>p. walk h1 c p = (if p = [] then Some c else walk h r (d # p))) \<and>
    (parents_ok h r \<longrightarrow> parents_ok h1 c \<and> Parent (h1 ! c) = Some r)"
  proof (cases isNew)
    case True
    from spec(10) [OF True] have new: "c = length h" "Children (h1 ! c) = []" "Parent (h1 ! c) = Some r" by auto
    have "reach h1 c = {c}" using new by (subst reach_unfold) auto
    moreover have "tree h1 c" by (rule treeI) (use spec(7) new in auto)
    moreover have "view h1 c p = (if p = [] then Some (node_view (h1 ! c)) else None)" "walk h1 c p = (if p = [] then Some c else None)" for p
      using new by (cases p; simp add: view_def)+
    moreover have "parents_ok h1 c" unfolding parents_ok_iff [of h1 c] using new by simp
    ultimately show ?thesis using True new spec(2,8,12) by (simp add: view_Cons)
  next
    case False
    note old = spec(11) [OF False] and tc = tree_child [OF t, of d c]
    have keep: "h1 ! a = h ! a" if "a \<in> reach h c" "a \<noteq> c" for a
      by (rule spec(6)) (use that reach_bound [OF tc(1)] tc(2) old in auto)
    have same: "Children (h1 ! a) = Children (h ! a)" "Parent (h1 ! a) = Parent (h ! a)" if "a \<in> reach h c" for a
      using keep [OF that] old by (cases "a = c"; simp)+
    have w: "walk h1 c p = walk h c p" for p by (rule walk_frame) (rule same(1))
    have v: "view h1 c p = view h c p" if "p \<noteq> []" for p
    proof -
      have "h1 ! a = h ! a" if a: "walk h c p = Some a" for a
      proof (rule keep)
        show "a \<in> reach h c" using a by (auto simp: reach_def)
        have "walk h c [] = Some c" by simp
        with a tc(1) old \<open>p \<noteq> []\<close> show "a \<noteq> c" unfolding tree_def by blast
      qed
      then show ?thesis by (cases "walk h c p") (simp_all add: view_def w)
    qed
    have "parents_ok h1 c \<and> Parent (h1 ! c) = Some r" if "parents_ok h r"
      using parents_frame [of h c h1] that same tc(1) old by (auto simp: parents_ok_iff [of h r])
    moreover have "tree h1 c" "reach h1 c = reach h c"
      using tree_frame [of h c h1] reach_frame [of h c h1] same(1) tc(1) old spec(1) by auto
    ultimately show ?thesis using False old tc(2) spec(12) w v by (simp add: view_Cons [of h r] view_def [of h1 c "[]"])
  qed
  then show "tree h1 c" "reach h1 c \<subseteq> (if isNew then {length h} else reach h c)" "r \<notin> reach h1 c"
    "view h1 c p = (if p = [] then Some (put_view info doc pre revision version (view h r [d])) else view h r (d # p))"
    "walk h1 c p = (if p = [] then Some c else walk h r (d # p))"
    "parents_ok h r \<Longrightarrow> parents_ok h1 c \<and> Parent (h1 ! c) = Some r" by blast+
qed

lemma addChild_tree:
  assumes t: "tree h r" and add: "addChild h r doc pre d info revision version = (h1, c, isNew)"
  shows "tree h1 r" and "tree h1 c" and "reach h1 c \<subseteq> (if isNew then {length h} else reach h c)"
    and "reach h1 r \<subseteq> insert c (reach h r)"
    and "view h1 r (e # p) = (if e = d \<and> p = [] then Some (put_view info doc pre revision version (view h r [d]))
      else view h r (e # p))"
    and "walk h1 r (e # p) = (if e = d \<and> p = [] then Some c else walk h r (e # p))"
    and "parents_ok h r \<Longrightarrow> parents_ok h1 r"
proof -
  note spec = addChild_spec [OF t add] and new = addChild_child [OF t add]
  show "tree h1 c" and sub: "reach h1 c \<subseteq> (if isNew then {length h} else reach h c)" by (rule new(1,2))+
  have dc: "\<not> isNew \<Longrightarrow> child h r d = Some c" using spec(11) by blast
  have apart: "reach h c' \<inter> reach h1 c = {} \<and> (\<forall>a\<in>reach h c'. a < length h \<and> a \<noteq> r)" if "e \<noteq> d" "child h r e = Some c'" for e c'
    using reach_bound [OF tree_child(1) [OF t that(2)]] tree_child(2) [OF t that(2)] sub
      tree_children_disjoint [OF t that(2) dc that(1)] by (cases isNew) auto
  then have others: "\<forall>e c'. e \<noteq> d \<and> child h r e = Some c' \<longrightarrow> reach h c' \<inter> reach h1 c = {} \<and> (\<forall>a\<in>reach h c'. h1 ! a = h ! a)"
    using spec(6) reach_self [of c h1] by blast
  note upd = replace_child [OF t spec(3,9,1) others new(1,3)]
  show "tree h1 r" by (rule upd(1))
  show "reach h1 r \<subseteq> insert c (reach h r)"
    using upd(2) sub spec(10) reach_child [OF dc] by (cases isNew) auto
  show "view h1 r (e # p) = (if e = d \<and> p = [] then Some (put_view info doc pre revision version (view h r [d]))
      else view h r (e # p))" unfolding upd(3) new(4) by simp
  show "walk h1 r (e # p) = (if e = d \<and> p = [] then Some c else walk h r (e # p))" unfolding upd(4) new(5) by simp
  show "parents_ok h1 r" if "parents_ok h r" using upd(5) new(6) that by simp
qed

text \<open>The effect of the whole loop of \<^verbatim>\<open>AddSymbol\<close>.\<close>

definition added :: "heap \<Rightarrow> addr \<Rightarrow> descriptor list \<Rightarrow> (descriptor list \<Rightarrow> node_view option \<Rightarrow> node_view option) \<Rightarrow>
  heap \<Rightarrow> addr \<Rightarrow> bool \<Rightarrow> bool" where
  "added h r ds f h' n isNew \<longleftrightarrow>
     length h \<le> length h' \<and> tree h' r \<and> reach h' r \<subseteq> reach h r \<union> {length h..} \<and>
     (\<forall>a < length h. a \<notin> reach h r \<longrightarrow> h' ! a = h ! a) \<and>
     walk h' r ds = Some n \<and> (isNew \<longleftrightarrow> walk h r ds = None) \<and>
     node_view (h' ! r) = node_view (h ! r) \<and> Parent (h' ! r) = Parent (h ! r) \<and>
     (\<forall>p. p \<noteq> [] \<longrightarrow> view h' r p = f p (view h r p)) \<and> (parents_ok h r \<longrightarrow> parents_ok h' r)"

lemma addChild_frame:
  assumes t: "tree h r" and add: "addChild h r doc pre d info revision version = (h1, c, isNew)"
    and a: "a < length h" "a \<notin> reach h r"
  shows "h1 ! a = h ! a" and "a \<notin> reach h1 c"
proof -
  note spec = addChild_spec [OF t add]
  have c: "reach h1 c \<subseteq> insert (length h) (reach h r)"
    using addChild_tree(3) [OF t add] spec(11) reach_child [of h r d c] by (auto split: if_splits)
  then show "a \<notin> reach h1 c" using a by auto
  have "a \<noteq> c" using \<open>a \<notin> reach h1 c\<close> reach_self by blast
  moreover have "a \<noteq> r" using a reach_self by blast
  ultimately show "h1 ! a = h ! a" using spec(6) a by blast
qed

lemma addChild_member:
  assumes t: "tree h r" and add: "addChild h r doc pre d info revision version = (h1, c, isNew)"
  shows "c \<in> reach h r \<union> {length h..}"
proof (cases isNew)
  case True
  with addChild_spec(10) [OF t add] show ?thesis by simp
next
  case False
  with addChild_spec(11) [OF t add] have "reach h c \<subseteq> reach h r" using reach_child by blast
  then show ?thesis using reach_self by blast
qed

text \<open>A path of several descriptors: the first is visited, the rest is added below it.\<close>

lemma added_below:
  assumes t: "tree h r" and add: "addChild h r '''' '''' d None revision version = (h1, c, new1)"
    and IH: "added h1 c (e # ds) (add_view (e # ds) doc pre info revision version) h' n isNew"
  shows "added h r (d # e # ds) (add_view (d # e # ds) doc pre info revision version) h' n isNew"
proof -
  note spec = addChild_spec [OF t add] and step = addChild_tree [OF t add]
  have dc: "child h1 r d = Some c" using spec(3) [of d] by simp
  have keep: "h' ! a = h1 ! a" if "a < length h1" "a \<notin> reach h1 c" for a
    using IH that by (simp add: added_def)
  have "{length h1..} \<inter> reach h1 r = {}" using reach_bound [OF step(1)] by fastforce
  then have upd: "h' ! r = h1 ! r" "tree h' r" "reach h' r \<subseteq> reach h1 r \<union> {length h1..}"
    "\<And>f q. view h' r (f # q) = (if f = d then view h' c q else view h1 r (f # q))"
    "\<And>f q. walk h' r (f # q) = (if f = d then walk h' c q else walk h1 r (f # q))"
    "parents_ok h1 r \<Longrightarrow> parents_ok h' c \<Longrightarrow> parents_ok h' r"
    using subtree_update [OF step(1) dc, of h' "{length h1..}"] keep reach_bound [OF step(1)] IH
    by (auto simp: added_def)
  have "reach h' r \<subseteq> reach h r \<union> {length h..}"
    using upd(3) step(4) addChild_member [OF t add] spec(1) by auto
  moreover have "h' ! a = h ! a" if "a < length h" "a \<notin> reach h r" for a
    using addChild_frame [OF t add that] keep [of a] that spec(1) by simp
  moreover have "walk h' r (d # e # ds) = Some n" using upd(5) IH by (simp add: added_def)
  moreover have "isNew \<longleftrightarrow> walk h r (d # e # ds) = None"
    using step(6) [of d "e # ds"] dc IH by (simp add: added_def)
  moreover have "view h' r p = add_view (d # e # ds) doc pre info revision version p (view h r p)"
    if "p \<noteq> []" for p
  proof -
    from that obtain f q where p: "p = f # q" by (cases p) auto
    have same: "view h1 c q = view h r (d # q)" if "q \<noteq> []"
      using step(5) [of d q] dc that by (simp add: view_Cons [of h1 r])
    have "view h' c [] = Some (put_view None '''' '''' revision version (view h r [d]))"
      using IH spec(12) by (simp add: added_def)
    moreover have "view h' c q = add_view (e # ds) doc pre info revision version q (view h1 c q)" if "q \<noteq> []"
      using IH that by (simp add: added_def)
    ultimately show ?thesis
      using upd(4) [of f q] step(5) [of f q] same unfolding p
      by (cases "q = []") (auto simp: add_view_def)
  qed
  moreover have "parents_ok h r \<longrightarrow> parents_ok h' r"
    using upd(6) step(7) IH parents_ok_iff [of h1 r] dc by (auto simp: added_def)
  ultimately show ?thesis using spec(1,4,5) upd(1,2) IH by (simp add: added_def)
qed

lemma add_path_spec:
  "add_path h r b ds doc pre info revision version = (h', n, isNew) \<Longrightarrow> ds \<noteq> [] \<Longrightarrow> tree h r \<Longrightarrow>
   added h r ds (add_view ds doc pre info revision version) h' n isNew"
proof (induction h r b ds doc pre info revision version arbitrary: h' n isNew rule: add_path.induct)
  case (2 h r b d doc pre info revision version)
  then have add: "addChild h r doc pre d (Some info) revision version = (h', n, isNew)" by simp
  note spec = addChild_spec [OF "2.prems"(3) add] and step = addChild_tree [OF "2.prems"(3) add]
  have "reach h' r \<subseteq> reach h r \<union> {length h..}"
    using step(4) addChild_member [OF "2.prems"(3) add] by auto
  moreover have "view h' r p = add_view [d] doc pre info revision version p (view h r p)" if "p \<noteq> []" for p
    using step(5) that by (cases p) (auto simp: add_view_def prefix_Cons)
  moreover have "walk h' r [d] = Some n" using step(6) [of d "[]"] by simp
  moreover have "isNew \<longleftrightarrow> walk h r [d] = None" using spec(2) by (simp split: option.split)
  ultimately show ?case
    using spec(1,4,5) step(1,7) addChild_frame(1) [OF "2.prems"(3) add] by (simp add: added_def)
next
  case (3 h r b d e ds doc pre info revision version)
  obtain h1 c new1 where add: "addChild h r '''' '''' d None revision version = (h1, c, new1)"
    by (metis prod_cases3)
  note t = "3.prems"(3)
  show ?case
    by (rule added_below [OF t add]) (use "3.IH" [OF add [symmetric] refl] "3.prems"(1) add addChild_tree(2) [OF t add] in simp)
qed simp

end
