(* ===== verification/PrefixTreeMerge.thy ===== *)
theory PrefixTreeMerge
  imports PrefixTreeSpec
begin

text \<open>
  \<open>Merge\<close> of two disjoint trees of the heap: it ends when the fuel exceeds the depth of the second
  tree, and the result is the pointwise union of the two.
\<close>

definition merge_view :: "node_view option \<Rightarrow> node_view option \<Rightarrow> node_view option" where
  "merge_view v w =
     (case v of
        None \<Rightarrow> w
      | Some x \<Rightarrow>
          (case w of
             None \<Rightarrow> Some x
           | Some y \<Rightarrow> Some (x\<lparr>nv_versions := nv_versions x ++ nv_versions y,
                               nv_revision := max (nv_revision x) (nv_revision y)\<rparr>)))"

lemma node_view_merge_fields: "Some (node_view (merge_fields n m)) = merge_view (Some (node_view n)) (Some (node_view m))"
  by (auto simp: merge_view_def merge_fields_def node_view_def merge_conv')

definition depth_less :: "heap \<Rightarrow> addr \<Rightarrow> nat \<Rightarrow> bool" where
  "depth_less h c k \<longleftrightarrow> (\<forall>p a. walk h c p = Some a \<longrightarrow> length p < k)"

lemma depth_less_child: "depth_less h r (Suc k) \<Longrightarrow> child h r d = Some c \<Longrightarrow> depth_less h c k"
  unfolding depth_less_def
proof (intro allI impI)
  fix p a assume "\<forall>p a. walk h r p = Some a \<longrightarrow> length p < Suc k" "child h r d = Some c" "walk h c p = Some a"
  then show "length p < k" by (auto dest: spec [of _ "d # p"])
qed

lemma depth_less_frame:
  "depth_less h c k \<Longrightarrow> (\<And>a. a \<in> reach h c \<Longrightarrow> Children (h' ! a) = Children (h ! a)) \<Longrightarrow> depth_less h' c k"
  using walk_frame [of h c h'] by (simp add: depth_less_def)

text \<open>What one iteration does: the child \<open>c\<close> of the other tree goes into \<open>t\<close> under \<open>d\<close>.\<close>

definition merged_child :: "heap \<Rightarrow> addr \<Rightarrow> descriptor \<Rightarrow> addr \<Rightarrow> heap \<Rightarrow> bool" where
  "merged_child h t d c h' \<longleftrightarrow>
     length h' = length h \<and> tree h' t \<and> reach h' t \<subseteq> reach h t \<union> reach h c \<and>
     (\<forall>a. a \<notin> reach h t \<union> reach h c \<longrightarrow> h' ! a = h ! a) \<and>
     node_view (h' ! t) = node_view (h ! t) \<and> Parent (h' ! t) = Parent (h ! t) \<and>
     (\<forall>e p. view h' t (e # p) = (if e = d then merge_view (view h t (d # p)) (view h c p) else view h t (e # p))) \<and>
     (parents_ok h t \<longrightarrow> parents_ok h c \<longrightarrow> parents_ok h' t)"

text \<open>What a whole merge does.\<close>

definition merged :: "heap \<Rightarrow> addr \<Rightarrow> addr \<Rightarrow> heap \<Rightarrow> bool" where
  "merged h t other h' \<longleftrightarrow>
     length h' = length h \<and> tree h' t \<and> reach h' t \<subseteq> reach h t \<union> reach h other \<and>
     (\<forall>a. a \<notin> reach h t \<union> reach h other \<longrightarrow> h' ! a = h ! a) \<and>
     node_view (h' ! t) = node_view (h ! t) \<and> Parent (h' ! t) = Parent (h ! t) \<and>
     (\<forall>d p. view h' t (d # p) = merge_view (view h t (d # p)) (view h other (d # p))) \<and>
     (parents_ok h t \<longrightarrow> parents_ok h other \<longrightarrow> parents_ok h' t)"

lemma graft_step:
  assumes t: "tree h t" and c: "tree h c" and disj: "reach h t \<inter> reach h c = {}" and none: "child h t d = None"
    and h1: "h1 = h[c := (h ! c)\<lparr>Parent := Some t\<rparr>]"
    and h2: "h2 = h1[t := (h1 ! t)\<lparr>Children := (d, c) # Children (h1 ! t)\<rparr>]"
  shows "merged_child h t d c h2"
proof -
  have ne: "t \<noteq> c" "t \<notin> reach h c" "c \<notin> reach h t" using disj reach_self by blast+
  note bounds = tree_root(1) [OF t] tree_root(1) [OF c]
  have nth: "h2 ! a = (if a = t then (h ! t)\<lparr>Children := (d, c) # Children (h ! t)\<rparr>
      else if a = c then (h ! c)\<lparr>Parent := Some t\<rparr> else h ! a)" for a
    using bounds ne(1) by (auto simp: h1 h2 nth_list_update)
  have child: "child h2 t e = (if e = d then Some c else child h t e)" for e by (simp add: nth)
  have cs: "Children (h2 ! a) = Children (h ! a)" "node_view (h2 ! a) = node_view (h ! a)" if "a \<in> reach h c" for a
    using that ne by (auto simp: nth node_view_def)
  have len: "length h2 = length h" by (simp add: h1 h2)
  have same: "h2 ! a = h ! a" if "child h t e = Some c'" "a \<in> reach h c'" for e c' a
    using that tree_child(2) [OF t that(1)] reach_child [OF that(1)] ne(3) by (auto simp: nth)
  have c2: "reach h2 c = reach h c" "tree h2 c"
    using reach_frame [OF cs(1)] tree_frame [OF c cs(1)] len by auto
  have vc: "view h2 c p = view h c p" for p
  proof -
    have "walk h2 c p = walk h c p" by (rule walk_frame) (rule cs(1))
    moreover have "node_view (h2 ! a) = node_view (h ! a)" if "walk h c p = Some a" for a
      using that by (intro cs(2)) (auto simp: reach_def)
    ultimately show ?thesis by (cases "walk h c p") (auto simp: view_def)
  qed
  have keys: "distinct (map fst (Children (h2 ! t)))"
    using tree_root(2) [OF t] none by (simp add: nth map_of_eq_None_iff)
  have others: "\<forall>e c'. e \<noteq> d \<and> child h t e = Some c' \<longrightarrow> reach h c' \<inter> reach h2 c = {} \<and> (\<forall>a\<in>reach h c'. h2 ! a = h ! a)"
    using reach_child [of h t] disj same unfolding c2(1) by blast
  note upd = replace_child [OF t child keys eq_refl [OF len [symmetric]] others c2(2), unfolded c2(1), OF ne(2)]
  have "parents_ok h2 t" if par: "parents_ok h t" "parents_ok h c"
  proof -
    have "parents_ok h2 c" by (rule parents_frame [OF par(2)]) (use cs c ne in \<open>auto simp: nth\<close>)
    with upd(5) [OF par(1)] ne(1) show ?thesis by (simp add: nth)
  qed
  moreover have "h2 ! a = h ! a" if "a \<notin> reach h t \<union> reach h c" for a
    using that reach_self [of t h] reach_self [of c h] by (auto simp: nth)
  moreover have "view h2 t (e # p) = (if e = d then merge_view (view h t (d # p)) (view h c p) else view h t (e # p))" for e p
    using upd(3) none by (simp add: vc merge_view_def view_Cons)
  ultimately show ?thesis using upd(1,2) len by (simp add: merged_child_def nth node_view_def)
qed

text \<open>A node gets new values, with its place in the tree kept.\<close>

lemma update_values:
  assumes "e < length h" and "Children n = Children (h ! e)" and "Parent n = Parent (h ! e)" and h1: "h1 = h[e := n]"
  shows "walk h1 a p = walk h a p" and "reach h1 a = reach h a" and "tree h a \<Longrightarrow> tree h1 a" and "parents_ok h1 a = parents_ok h a"
    and "view h1 a p = (if walk h a p = Some e then Some (node_view n) else view h a p)"
proof -
  have same: "Children (h1 ! b) = Children (h ! b)" "Parent (h1 ! b) = Parent (h ! b)" for b
    using assms by (simp_all add: nth_list_update)
  have walk: "walk h1 a p = walk h a p" for a p by (rule walk_frame) (rule same(1))
  then show "walk h1 a p = walk h a p" .
  show "reach h1 a = reach h a" by (simp add: reach_def walk)
  show "parents_ok h1 a = parents_ok h a" by (simp add: parents_ok_def walk same(2))
  show "tree h1 a" if "tree h a" by (rule tree_frame [OF that same(1)]) (simp add: h1)
  show "view h1 a p = (if walk h a p = Some e then Some (node_view n) else view h a p)"
    unfolding view_def walk using assms(1) by (cases "walk h a p") (simp_all add: h1 nth_list_update)
qed

lemma existing_step:
  assumes t: "tree h t" and c: "tree h c" and disj: "reach h t \<inter> reach h c = {}" and e: "child h t d = Some e"
    and h1: "h1 = h[e := merge_fields (h ! e) (h ! c)]" and rec: "merged h1 e c h2"
  shows "merged_child h t d c h2"
proof -
  have e_in: "e \<in> reach h t" using reach_child [OF e] reach_self by blast
  have eb: "e < length h" using tree_root(1) [OF tree_child(1) [OF t e]] .
  have nth: "h1 ! a = (if a = e then merge_fields (h ! e) (h ! c) else h ! a)" for a using eb by (simp add: h1)
  have len: "length h1 = length h" by (simp add: h1)
  have fields: "Children (merge_fields (h ! e) (h ! c)) = Children (h ! e)" "Parent (merge_fields (h ! e) (h ! c)) = Parent (h ! e)"
    by (simp_all add: merge_fields_def)
  note upd1 = update_values [OF eb fields h1] and reach1 = update_values(2) [OF eb fields h1] and par1 = update_values(4) [OF eb fields h1]
  note t1 = upd1(3) [OF t]
  have e1: "child h1 t d = Some e" using upd1(1) [of t "[d]"] e by (simp split: option.splits)
  have viewc: "view h1 c p = view h c p" for p using e_in disj by (auto simp: upd1(5) reach_def)
  have viewt: "view h1 t (f # p) = (if f = d \<and> p = [] then merge_view (view h t [d]) (view h c []) else view h t (f # p))" for f p
  proof -
    have "walk h t [d] = Some e" using e by simp
    with t have "walk h t (f # p) = Some e \<longleftrightarrow> f # p = [d]" unfolding tree_def by metis
    then show ?thesis unfolding upd1(5) using e by (auto simp: view_Cons node_view_merge_fields simp del: walk.simps)
  qed
  have keep: "h2 ! a = h1 ! a" if "a \<in> reach h1 t" "a \<notin> reach h1 e" for a
    using rec that disj by (auto simp: merged_def reach1)
  have sub: "tree h2 e" "reach h2 e \<subseteq> reach h1 e \<union> reach h c" "length h1 \<le> length h2"
    and same_parent: "Parent (h2 ! e) = Parent (h1 ! e)"
    using rec by (simp_all add: merged_def reach1)
  have X: "reach h c \<inter> reach h1 t = {}" using disj by (auto simp: reach1)
  note upd = subtree_update [OF t1 e1 keep sub(1,2) X sub(3)]
  have "view h2 t (f # p) = (if f = d then merge_view (view h t (d # p)) (view h c p) else view h t (f # p))" for f p
  proof (cases "f = d")
    case True
    have "view h2 e p = merge_view (view h t (d # p)) (view h c p)"
    proof (cases p)
      case Nil
      with rec e show ?thesis by (simp add: merged_def view_Cons nth node_view_merge_fields)
    next
      case (Cons g q)
      have "view h1 e p = view h t (d # p)" using viewt [of d p] e1 Cons by (simp add: view_Cons [of h1 t])
      with rec Cons show ?thesis by (simp add: merged_def viewc)
    qed
    with True upd(4) show ?thesis by simp
  next
    case False
    with upd(4) viewt show ?thesis by simp
  qed
  moreover have "h2 ! a = h ! a" if "a \<notin> reach h t \<union> reach h c" for a
  proof -
    from that reach_child [OF e] have "a \<notin> reach h1 e \<union> reach h1 c" "a \<noteq> e" using e_in by (auto simp: reach1)
    with rec show ?thesis by (simp add: merged_def nth)
  qed
  moreover have "t \<noteq> e" using tree_child(2) [OF t e] reach_self by blast
  moreover have "parents_ok h2 t" if "parents_ok h t" "parents_ok h c"
  proof -
    have "parents_ok h1 e" using that(1) e by (simp add: par1 parents_ok_iff [of h t])
    with rec that upd(6) same_parent show ?thesis by (simp add: merged_def par1)
  qed
  ultimately show ?thesis
    using upd(1-3) rec len by (simp add: merged_child_def merged_def nth reach1)
qed

text \<open>The children still to be merged are untouched by a step.\<close>

definition mergeable :: "heap \<Rightarrow> addr \<Rightarrow> nat \<Rightarrow> (descriptor \<times> addr) list \<Rightarrow> bool" where
  "mergeable h t k cs \<longleftrightarrow> tree h t \<and> distinct (map fst cs) \<and>
     (\<forall>(d, c) \<in> set cs. tree h c \<and> depth_less h c k \<and> reach h t \<inter> reach h c = {}) \<and>
     (\<forall>(d, c) \<in> set cs. \<forall>(e, c') \<in> set cs. d \<noteq> e \<longrightarrow> reach h c \<inter> reach h c' = {})"

lemma mergeable_disjoint:
  "mergeable h t k cs \<Longrightarrow> (d, c) \<in> set cs \<Longrightarrow> (e, c') \<in> set cs \<Longrightarrow> d \<noteq> e \<Longrightarrow> reach h c \<inter> reach h c' = {}"
  unfolding mergeable_def by blast

lemma mergeable_step:
  assumes m: "mergeable h t k ((d, c) # cs)" and step: "merged_child h t d c h2"
  shows "mergeable h2 t k cs"
    and "(e, c') \<in> set cs \<Longrightarrow> a \<in> reach h c' \<Longrightarrow> h2 ! a = h ! a"
    and "(e, c') \<in> set cs \<Longrightarrow> reach h2 c' = reach h c'"
proof -
  have ne: "e \<noteq> d" if "(e, c') \<in> set cs" for e c'
    using m that by (auto simp: mergeable_def image_iff)
  have disj: "reach h c' \<inter> (reach h t \<union> reach h c) = {}" if "(e, c') \<in> set cs" for e c'
    using m that ne [OF that] by (fastforce simp: mergeable_def)
  show same: "\<And>e c' a. (e, c') \<in> set cs \<Longrightarrow> a \<in> reach h c' \<Longrightarrow> h2 ! a = h ! a"
    using step disj unfolding merged_child_def by blast
  show reach: "\<And>e c'. (e, c') \<in> set cs \<Longrightarrow> reach h2 c' = reach h c'"
    using same by (intro reach_frame) metis
  have "tree h2 c' \<and> depth_less h2 c' k \<and> reach h2 t \<inter> reach h2 c' = {}" if "(e, c') \<in> set cs" for e c'
  proof -
    have h: "tree h c'" "depth_less h c' k" using m that by (auto simp: mergeable_def)
    have ch: "Children (h2 ! a) = Children (h ! a)" if "a \<in> reach h c'" for a
      using same [OF \<open>(e, c') \<in> set cs\<close> that] by simp
    have len: "length h \<le> length h2" and sub: "reach h2 t \<subseteq> reach h t \<union> reach h c"
      using step by (simp_all add: merged_child_def)
    have "reach h2 t \<inter> reach h2 c' = {}" using sub disj [OF that] unfolding reach [OF that] by blast
    with tree_frame [OF h(1) ch len] depth_less_frame [OF h(2) ch] show ?thesis by simp
  qed
  moreover have "reach h2 c1 \<inter> reach h2 c2 = {}" if "(e, c1) \<in> set cs" "(f, c2) \<in> set cs" "e \<noteq> f" for e f c1 c2
  proof -
    have "reach h c1 \<inter> reach h c2 = {}" using mergeable_disjoint [OF m _ _ that(3)] that by simp
    then show ?thesis by (simp add: reach [OF that(1)] reach [OF that(2)])
  qed
  moreover have "tree h2 t" "distinct (map fst cs)" using m step by (auto simp: mergeable_def merged_child_def)
  ultimately show "mergeable h2 t k cs" unfolding mergeable_def by fast
qed

text \<open>The loop, given that the recursive call merges.\<close>

definition merged_list :: "heap \<Rightarrow> addr \<Rightarrow> (descriptor \<times> addr) list \<Rightarrow> heap \<Rightarrow> bool" where
  "merged_list h t cs h' \<longleftrightarrow>
     length h' = length h \<and> tree h' t \<and> reach h' t \<subseteq> reach h t \<union> (\<Union>(d, c) \<in> set cs. reach h c) \<and>
     (\<forall>a. a \<notin> reach h t \<union> (\<Union>(d, c) \<in> set cs. reach h c) \<longrightarrow> h' ! a = h ! a) \<and>
     node_view (h' ! t) = node_view (h ! t) \<and> Parent (h' ! t) = Parent (h ! t) \<and>
     (\<forall>e p. view h' t (e # p) = (case map_of cs e of None \<Rightarrow> view h t (e # p)
        | Some c \<Rightarrow> merge_view (view h t (e # p)) (view h c p))) \<and>
     (parents_ok h t \<longrightarrow> (\<forall>(d, c) \<in> set cs. parents_ok h c) \<longrightarrow> parents_ok h' t)"

lemma merged_list_Cons:
  assumes m: "mergeable h t k ((d, c) # cs)" and step: "merged_child h t d c h2" and rest: "merged_list h2 t cs h'"
  shows "merged_list h t ((d, c) # cs) h'"
proof -
  note same = mergeable_step(2,3) [OF m step]
  have un: "(\<Union>(e, c') \<in> set cs. reach h2 c') = (\<Union>(e, c') \<in> set cs. reach h c')"
    using same(2) by (auto split: prod.splits)
  have d: "map_of cs d = None" using m by (simp add: mergeable_def map_of_eq_None_iff)
  have views: "view h2 c' p = view h c' p" if "(e, c') \<in> set cs" for e c' p
    by (rule view_frame) (rule same(1) [OF that])
  have view: "view h' t (e # p) = (case map_of ((d, c) # cs) e of None \<Rightarrow> view h t (e # p)
      | Some c \<Rightarrow> merge_view (view h t (e # p)) (view h c p))" for e p
  proof (cases "map_of cs e")
    case None
    with rest step show ?thesis by (simp add: merged_list_def merged_child_def)
  next
    case (Some c')
    with d have "e \<noteq> d" by auto
    with Some rest step views [OF map_of_SomeD [OF Some]] show ?thesis
      by (simp add: merged_list_def merged_child_def)
  qed
  have "parents_ok h2 c'" if "(e, c') \<in> set cs" "parents_ok h c'" for e c'
    by (rule parents_frame [OF that(2)])
      (use same(1) [OF that(1)] m that(1) in \<open>auto simp: mergeable_def\<close>)
  then have "parents_ok h' t" if "parents_ok h t" "\<forall>(d, c) \<in> set ((d, c) # cs). parents_ok h c"
    using that rest step by (auto simp: merged_list_def merged_child_def)
  moreover have "reach h' t \<subseteq> reach h t \<union> (\<Union>(e, c') \<in> set ((d, c) # cs). reach h c')"
    using rest step un by (auto simp: merged_list_def merged_child_def)
  moreover have "h' ! a = h ! a" if "a \<notin> reach h t \<union> (\<Union>(e, c') \<in> set ((d, c) # cs). reach h c')" for a
  proof -
    have "h2 ! a = h ! a" using step that by (simp add: merged_child_def)
    moreover have "a \<notin> reach h2 t \<union> (\<Union>(e, c') \<in> set cs. reach h2 c')"
      using that step unfolding un merged_child_def by auto
    then have "h' ! a = h2 ! a" using rest unfolding merged_list_def by blast
    ultimately show ?thesis by simp
  qed
  ultimately show ?thesis using rest step view unfolding merged_list_def merged_child_def by auto
qed

lemma merge_loop_spec:
  assumes rec: "\<And>h e c. tree h e \<Longrightarrow> tree h c \<Longrightarrow> reach h e \<inter> reach h c = {} \<Longrightarrow> depth_less h c k \<Longrightarrow>
      \<exists>h'. rec h e c = Some h' \<and> merged h e c h'"
  shows "mergeable h t k cs \<Longrightarrow> \<exists>h'. merge_loop rec h t cs = Some h' \<and> merged_list h t cs h'"
proof (induction cs arbitrary: h)
  case Nil
  then show ?case by (simp add: mergeable_def merged_list_def)
next
  case (Cons dc cs)
  obtain d c where dc: "dc = (d, c)" by (cases dc)
  note m = Cons.prems [unfolded dc]
  have t: "tree h t" "tree h c" "depth_less h c k" "reach h t \<inter> reach h c = {}"
    using m by (auto simp: mergeable_def)
  have "\<exists>h2. merge_loop rec h t ((d, c) # cs) = merge_loop rec h2 t cs \<and> merged_child h t d c h2"
  proof (cases "child h t d")
    case None
    with graft_step [OF t(1,2,4) None refl refl] show ?thesis by (auto simp: Let_def)
  next
    case (Some e)
    let ?h1 = "h[e := merge_fields (h ! e) (h ! c)]"
    have ch: "Children (?h1 ! a) = Children (h ! a)" for a
      using tree_root(1) [OF tree_child(1) [OF t(1) Some]] by (auto simp: nth_list_update merge_fields_def)
    have r: "reach ?h1 a = reach h a" for a by (rule reach_frame) (rule ch)
    have "reach ?h1 e \<inter> reach ?h1 c = {}" using t(4) reach_child [OF Some] by (auto simp: r)
    moreover have "tree ?h1 e" "tree ?h1 c"
      by (rule tree_frame [OF tree_child(1) [OF t(1) Some] ch], simp) (rule tree_frame [OF t(2) ch], simp)
    moreover have "depth_less ?h1 c k" by (rule depth_less_frame [OF t(3) ch])
    ultimately obtain h2 where "rec ?h1 e c = Some h2" "merged ?h1 e c h2" using rec by blast
    with existing_step [OF t(1,2,4) Some refl] Some show ?thesis by auto
  qed
  then obtain h2 where h2: "merge_loop rec h t ((d, c) # cs) = merge_loop rec h2 t cs" "merged_child h t d c h2"
    by blast
  from Cons.IH [OF mergeable_step(1) [OF m h2(2)]] obtain h' where
    "merge_loop rec h2 t cs = Some h'" "merged_list h2 t cs h'" by blast
  with h2(1) merged_list_Cons [OF m h2(2)] show ?case unfolding dc by auto
qed

lemma Merge_merged:
  "tree h t \<Longrightarrow> tree h other \<Longrightarrow> reach h t \<inter> reach h other = {} \<Longrightarrow> depth_less h other fuel \<Longrightarrow>
   \<exists>h'. Merge fuel h t other = Some h' \<and> merged h t other h'"
proof (induction fuel arbitrary: h t other)
  case 0
  have "walk h other [] = Some other" by simp
  with "0.prems"(4) show ?case unfolding depth_less_def by blast
next
  case (Suc k)
  let ?cs = "Children (h ! other)"
  have dist: "distinct (map fst ?cs)" using tree_root(2) [OF Suc.prems(2)] .
  have ch: "child h other d = Some c" if "(d, c) \<in> set ?cs" for d c using that dist by simp
  have "mergeable h t k ?cs"
    using Suc.prems dist ch tree_child(1) [OF Suc.prems(2)] depth_less_child [OF Suc.prems(4)]
      reach_child [of h other] tree_children_disjoint [OF Suc.prems(2)]
    unfolding mergeable_def by fastforce
  from merge_loop_spec [OF Suc.IH this] obtain h' where
    h': "merge_loop (Merge k) h t ?cs = Some h'" "merged_list h t ?cs h'" by blast
  have un: "reach h t \<union> (\<Union>(d, c) \<in> set ?cs. reach h c) \<subseteq> reach h t \<union> reach h other"
    using reach_child ch by fastforce
  have "view h' t (d # p) = merge_view (view h t (d # p)) (view h other (d # p))" for d p
    using h'(2) by (auto simp: merged_list_def view_Cons [of h other] merge_view_def split: option.split)
  moreover have "parents_ok h' t" if "parents_ok h t" "parents_ok h other"
    using h'(2) that ch unfolding merged_list_def parents_ok_iff [of h other] by fast
  ultimately have "merged h t other h'"
    using h'(2) un unfolding merged_def merged_list_def by blast
  with h'(1) show ?case by simp
qed

end
