(* ===== verification/PrefixTreePrune.thy ===== *)
theory PrefixTreePrune
  imports PrefixTreeMerge
begin

text \<open>
  \<open>PruneNodes\<close>: it ends, and it removes exactly the paths through a node that is older than the
  revision and holds a version from the document; everything else is as before.
\<close>

fun doomed :: "heap \<Rightarrow> addr \<Rightarrow> gostring \<Rightarrow> int \<Rightarrow> descriptor list \<Rightarrow> bool" where
  "doomed h t doc revision [] = False"
| "doomed h t doc revision (d # p) =
     (case child h t d of
        None \<Rightarrow> False
      | Some c \<Rightarrow> should_delete doc revision (h ! c) \<or> doomed h c doc revision p)"

lemma doomed_iff:
  "doomed h t doc revision p \<longleftrightarrow>
     (\<exists>q a. q \<noteq> [] \<and> prefix q p \<and> walk h t q = Some a \<and> should_delete doc revision (h ! a))"
proof (induction p arbitrary: t)
  case (Cons d p)
  show ?case
  proof (cases "child h t d")
    case None
    then show ?thesis by (auto simp: prefix_Cons)
  next
    case (Some c)
    have "(\<exists>q a. q \<noteq> [] \<and> prefix q (d # p) \<and> walk h t q = Some a \<and> should_delete doc revision (h ! a)) \<longleftrightarrow>
        (\<exists>q a. prefix q p \<and> walk h c q = Some a \<and> should_delete doc revision (h ! a))"
      using Some by (auto simp: prefix_Cons)
    also have "\<dots> \<longleftrightarrow> should_delete doc revision (h ! c) \<or>
        (\<exists>q a. q \<noteq> [] \<and> prefix q p \<and> walk h c q = Some a \<and> should_delete doc revision (h ! a))"
      by (metis Nil_prefix option.inject walk.simps(1))
    finally show ?thesis using Some Cons.IH by simp
  qed
qed simp

lemma doomed_frame:
  assumes "\<And>a. a \<in> reach h r \<Longrightarrow> h' ! a = h ! a"
  shows "doomed h' r doc revision p = doomed h r doc revision p"
proof -
  have w: "walk h' r q = walk h r q" for q by (rule walk_frame) (simp add: assms)
  have "h' ! a = h ! a" if "walk h r q = Some a" for q a using assms that by (auto simp: reach_def)
  then show ?thesis unfolding doomed_iff w by metis
qed

definition pruned :: "heap \<Rightarrow> addr \<Rightarrow> gostring \<Rightarrow> int \<Rightarrow> heap \<Rightarrow> bool" where
  "pruned h t doc revision h' \<longleftrightarrow>
     length h' = length h \<and> tree h' t \<and> reach h' t \<subseteq> reach h t \<and>
     (\<forall>a. a \<notin> reach h t \<longrightarrow> h' ! a = h ! a) \<and>
     node_view (h' ! t) = node_view (h ! t) \<and> Parent (h' ! t) = Parent (h ! t) \<and>
     (\<forall>d p. view h' t (d # p) = (if doomed h t doc revision (d # p) then None else view h t (d # p))) \<and>
     (parents_ok h t \<longrightarrow> parents_ok h' t)"

text \<open>One iteration: the child \<open>c\<close> under \<open>d\<close> is deleted or pruned.\<close>

definition pruned_child :: "heap \<Rightarrow> addr \<Rightarrow> gostring \<Rightarrow> int \<Rightarrow> descriptor \<Rightarrow> heap \<Rightarrow> bool" where
  "pruned_child h t doc revision d h' \<longleftrightarrow>
     length h' = length h \<and> tree h' t \<and> reach h' t \<subseteq> reach h t \<and>
     (\<forall>a. a \<notin> reach h t \<longrightarrow> h' ! a = h ! a) \<and>
     (\<forall>e c a. child h t e = Some c \<longrightarrow> e \<noteq> d \<longrightarrow> child h' t e = Some c \<and> (a \<in> reach h c \<longrightarrow> h' ! a = h ! a)) \<and>
     node_view (h' ! t) = node_view (h ! t) \<and> Parent (h' ! t) = Parent (h ! t) \<and>
     (\<forall>e p. view h' t (e # p) = (if e = d \<and> doomed h t doc revision (d # p) then None else view h t (e # p))) \<and>
     (parents_ok h t \<longrightarrow> parents_ok h' t)"

lemma delete_step:
  assumes t: "tree h t" and c: "child h t d = Some c" and del: "should_delete doc revision (h ! c)"
    and h': "h' = h[t := (h ! t)\<lparr>Children := AList.delete d (Children (h ! t))\<rparr>]"
  shows "pruned_child h t doc revision d h'"
proof -
  note tb = tree_root [OF t]
  have nth: "h' ! a = (if a = t then (h ! t)\<lparr>Children := AList.delete d (Children (h ! t))\<rparr> else h ! a)" for a
    using tb(1) by (simp add: h' nth_list_update)
  have child: "child h' t e = (if e = d then None else child h t e)" for e
    by (simp add: nth delete_conv')
  have same: "h' ! a = h ! a" if "child h t e = Some c'" "a \<in> reach h c'" for e c' a
    using that tree_child(2) [OF t that(1)] by (auto simp: nth)
  have len: "length h' = length h" by (simp add: h')
  have keys: "distinct (map fst (Children (h' ! t)))" using tb(2) by (simp add: nth distinct_delete)
  have others: "\<forall>e c'. e \<noteq> d \<and> child h t e = Some c' \<longrightarrow> (\<forall>a\<in>reach h c'. h' ! a = h ! a)" using same by blast
  note upd = set_child [OF t child keys, simplified len, OF order_refl, simplified, OF others]
  have "tree h' t" "reach h' t \<subseteq> reach h t" "parents_ok h t \<longrightarrow> parents_ok h' t" using upd(1,2,5) by simp_all
  moreover have "view h' t (e # p) = (if e = d \<and> doomed h t doc revision (d # p) then None else view h t (e # p))" for e p
    using upd(3) [of e p] c del by simp
  moreover have "h' ! a = h ! a" if "a \<notin> reach h t" for a using that reach_self nth by metis
  ultimately show ?thesis
    using len child same unfolding pruned_child_def by (simp add: nth node_view_def)
qed

lemma recurse_step:
  assumes t: "tree h t" and c: "child h t d = Some c" and keep: "\<not> should_delete doc revision (h ! c)"
    and rec: "pruned h c doc revision h'"
  shows "pruned_child h t doc revision d h'"
proof -
  have same: "h' ! a = h ! a" if "a \<in> reach h t" "a \<notin> reach h c" for a using rec that by (simp add: pruned_def)
  have sub: "tree h' c" "reach h' c \<subseteq> reach h c \<union> {}" "length h \<le> length h'"
    and par: "Parent (h' ! c) = Parent (h ! c)"
    using rec by (simp_all add: pruned_def)
  note upd = subtree_update [OF t c same sub(1,2) _ sub(3), simplified]
  have views: "view h' t (e # p) = (if e = d \<and> doomed h t doc revision (d # p) then None else view h t (e # p))" for e p
  proof (cases "e = d")
    case True
    have "view h' c p = (if doomed h c doc revision p then None else view h c p)"
      using rec by (cases p) (simp_all add: pruned_def)
    with True upd(4) [of d p] c keep show ?thesis by (simp add: view_Cons [of h t])
  qed (use upd(4) in simp)
  have others: "child h' t e = Some c' \<and> (a \<in> reach h c' \<longrightarrow> h' ! a = h ! a)"
    if e: "child h t e = Some c'" "e \<noteq> d" for e c' a
    using tree_children_disjoint [OF t e(1) c e(2)] reach_child [OF e(1)] same upd(1) e(1) by auto
  have pars: "parents_ok h' t" if "parents_ok h t"
  proof -
    have "parents_ok h c" using that c by (simp add: parents_ok_iff [of h t])
    with rec have "parents_ok h' c" by (simp add: pruned_def)
    with upd(6) that par show ?thesis by simp
  qed
  show ?thesis
    unfolding pruned_child_def
    using views others upd(1-3) rec pars reach_child [OF c] by (auto simp: pruned_def)
qed

text \<open>The loop.\<close>

lemma pruned_child_doomed:
  assumes step: "pruned_child h t doc revision d h2" and t: "tree h t" and "e \<noteq> d"
  shows "doomed h2 t doc revision (e # p) = doomed h t doc revision (e # p)"
proof (cases "child h t e")
  case None
  with step \<open>e \<noteq> d\<close> have "view h2 t [e] = None" by (simp add: pruned_child_def view_Cons)
  with None show ?thesis by (simp add: view_Cons split: option.splits)
next
  case (Some c)
  with step \<open>e \<noteq> d\<close> have "child h2 t e = Some c" and same: "\<And>a. a \<in> reach h c \<Longrightarrow> h2 ! a = h ! a"
    by (auto simp: pruned_child_def)
  with Some doomed_frame [OF same] same [OF reach_self] show ?thesis by simp
qed

lemma prune_loop_spec:
  assumes rec: "\<And>h c. tree h c \<Longrightarrow> depth_less h c k \<Longrightarrow> \<exists>h'. rec h c = Some h' \<and> pruned h c doc revision h'"
  shows "tree h t \<Longrightarrow> distinct (map fst cs) \<Longrightarrow>
    (\<And>d c. (d, c) \<in> set cs \<Longrightarrow> child h t d = Some c \<and> depth_less h c k) \<Longrightarrow>
    \<exists>h'. prune_loop rec h t doc revision cs = Some h' \<and> length h' = length h \<and> tree h' t \<and>
      reach h' t \<subseteq> reach h t \<and> (\<forall>a. a \<notin> reach h t \<longrightarrow> h' ! a = h ! a) \<and>
      node_view (h' ! t) = node_view (h ! t) \<and> Parent (h' ! t) = Parent (h ! t) \<and>
      (\<forall>e p. view h' t (e # p) =
        (if e \<in> fst ` set cs \<and> doomed h t doc revision (e # p) then None else view h t (e # p))) \<and>
      (parents_ok h t \<longrightarrow> parents_ok h' t)"
proof (induction cs arbitrary: h)
  case (Cons dc cs)
  obtain d c where dc: "dc = (d, c)" by (cases dc)
  have c: "child h t d = Some c" "depth_less h c k" using Cons.prems(3) dc by auto
  have "\<exists>h2. prune_loop rec h t doc revision (dc # cs) = prune_loop rec h2 t doc revision cs \<and>
      pruned_child h t doc revision d h2"
  proof (cases "should_delete doc revision (h ! c)")
    case True
    with delete_step [OF Cons.prems(1) c(1) True refl] show ?thesis unfolding dc by auto
  next
    case False
    from rec [OF tree_child(1) [OF Cons.prems(1) c(1)] c(2)] obtain h2 where
      "rec h c = Some h2" "pruned h c doc revision h2" by blast
    with recurse_step [OF Cons.prems(1) c(1) False] False show ?thesis unfolding dc by auto
  qed
  then obtain h2 where eq: "prune_loop rec h t doc revision (dc # cs) = prune_loop rec h2 t doc revision cs"
    and step: "pruned_child h t doc revision d h2" by blast
  have ne: "e \<noteq> d" if "(e, c') \<in> set cs" for e c' using Cons.prems(2) that dc by force
  have next_ok: "child h2 t e = Some c' \<and> depth_less h2 c' k" if "(e, c') \<in> set cs" for e c'
  proof -
    have e: "child h t e = Some c'" "depth_less h c' k" using Cons.prems(3) that by auto
    with step ne [OF that] have "child h2 t e = Some c'" and same: "\<And>a. a \<in> reach h c' \<Longrightarrow> h2 ! a = h ! a"
      by (auto simp: pruned_child_def)
    then show ?thesis using depth_less_frame [OF e(2)] by simp
  qed
  have "tree h2 t" "distinct (map fst cs)" using step Cons.prems(2) dc by (simp_all add: pruned_child_def)
  from Cons.IH [OF this next_ok] obtain h' where h': "prune_loop rec h2 t doc revision cs = Some h'"
    "length h' = length h2" "tree h' t" "reach h' t \<subseteq> reach h2 t" "\<forall>a. a \<notin> reach h2 t \<longrightarrow> h' ! a = h2 ! a"
    "node_view (h' ! t) = node_view (h2 ! t)" "Parent (h' ! t) = Parent (h2 ! t)"
    "\<And>e p. view h' t (e # p) =
        (if e \<in> fst ` set cs \<and> doomed h2 t doc revision (e # p) then None else view h2 t (e # p))"
    "parents_ok h2 t \<longrightarrow> parents_ok h' t" by blast
  have "view h' t (e # p) =
      (if e \<in> fst ` set (dc # cs) \<and> doomed h t doc revision (e # p) then None else view h t (e # p))" for e p
  proof (cases "e = d")
    case True
    have "d \<notin> fst ` set cs" using Cons.prems(2) dc by simp
    with True h'(8) [of e p] step dc show ?thesis by (simp add: pruned_child_def)
  next
    case False
    with h'(8) [of e p] pruned_child_doomed [OF step Cons.prems(1) False] step dc show ?thesis
      by (simp add: pruned_child_def)
  qed
  moreover have "reach h2 t \<subseteq> reach h t" using step by (simp add: pruned_child_def)
  moreover have "h' ! a = h ! a" if "a \<notin> reach h t" for a
    using that h'(5) step \<open>reach h2 t \<subseteq> reach h t\<close> by (auto simp: pruned_child_def)
  ultimately show ?case using eq h' step unfolding pruned_child_def by auto
qed simp

lemma PruneNodes_pruned:
  "tree h t \<Longrightarrow> depth_less h t fuel \<Longrightarrow> \<exists>h'. PruneNodes fuel h t doc revision = Some h' \<and> pruned h t doc revision h'"
proof (induction fuel arbitrary: h t)
  case 0
  have "walk h t [] = Some t" by simp
  with "0.prems"(2) show ?case unfolding depth_less_def by blast
next
  case (Suc k)
  let ?cs = "Children (h ! t)"
  have dist: "distinct (map fst ?cs)" using tree_root(2) [OF Suc.prems(1)] .
  have cs: "child h t d = Some c \<and> depth_less h c k" if "(d, c) \<in> set ?cs" for d c
    using that dist depth_less_child [OF Suc.prems(2)] by simp
  from prune_loop_spec [of k "\<lambda>h' c. PruneNodes k h' c doc revision", OF Suc.IH Suc.prems(1) dist cs]
  obtain h' where h': "prune_loop (\<lambda>h' c. PruneNodes k h' c doc revision) h t doc revision ?cs = Some h'"
    "length h' = length h" "tree h' t" "reach h' t \<subseteq> reach h t" "\<forall>a. a \<notin> reach h t \<longrightarrow> h' ! a = h ! a"
    "node_view (h' ! t) = node_view (h ! t)" "Parent (h' ! t) = Parent (h ! t)"
    "\<And>e p. view h' t (e # p) =
        (if e \<in> fst ` set ?cs \<and> doomed h t doc revision (e # p) then None else view h t (e # p))"
    "parents_ok h t \<longrightarrow> parents_ok h' t" by blast
  have "e \<in> fst ` set ?cs" if "doomed h t doc revision (e # p)" for e p
  proof (rule ccontr)
    assume "e \<notin> fst ` set ?cs"
    then have "child h t e = None" by (simp only: map_of_eq_None_iff not_False_eq_True)
    with that show False by simp
  qed
  with h' have "pruned h t doc revision h'" unfolding pruned_def by auto
  with h'(1) show ?case by simp
qed

text \<open>A tree in a heap is no deeper than the heap is large.\<close>

lemma tree_depth: "tree h r \<Longrightarrow> depth_less h r (length h)"
  unfolding depth_less_def
proof (intro allI impI)
  fix p a assume t: "tree h r" and w: "walk h r p = Some a"
  define f where "f i = the (walk h r (take i p))" for i
  have some: "walk h r (take i p) = Some (f i)" for i
    using w walk_append [of h r "take i p" "drop i p"] by (auto simp: f_def split: option.splits)
  have "inj_on f {..length p}"
  proof (rule inj_onI)
    fix i j assume "i \<in> {..length p}" "j \<in> {..length p}" "f i = f j"
    with some [of i] some [of j] t have "take i p = take j p" unfolding tree_def by metis
    with \<open>i \<in> _\<close> \<open>j \<in> _\<close> show "i = j" by (metis atMost_iff length_take min.absorb2)
  qed
  moreover have "f ` {..length p} \<subseteq> {..<length h}" using tree_walk [OF t some] by auto
  ultimately have "card {..length p} \<le> card {..<length h}" by (metis card_inj_on_le finite_lessThan)
  then show "length p < length h" by simp
qed

subsection \<open>The operations of the tree\<close>

lemma ScipDescriptorsToModelDescriptors_id [simp]: "ScipDescriptorsToModelDescriptors ds = ds"
  by (simp add: ScipDescriptorsToModelDescriptors_def ScipDescriptorToModelDescriptor_def map_idI)

lemma put_view_versions:
  "nv_versions (put_view (Some info) doc pre revision version v) version = Some \<lparr>vi_Info = info, vi_DocumentPath = doc\<rparr>"
  by (simp add: put_view_def Let_def)

text \<open>
  \<^verbatim>\<open>AddSymbol\<close> and \<^verbatim>\<open>GetNode\<close>: adding a symbol with at least one descriptor makes its node reachable and
  stores the info and document under the symbol's version; \<^verbatim>\<open>isNew\<close> says whether the path was absent;
  paths that are not a prefix of the symbol's keep their values; the tree stays a tree with correct
  parent pointers.
\<close>

theorem AddSymbol_GetNode:
  assumes "tree h t" and "ParseScipSymbol (ParseSymbol sl) (si_Symbol info) = Ok sy"
    and "Package sy = Some pkg" and "Descriptors sy \<noteq> []"
  shows "\<exists>h' n. AddSymbol sl h t doc info revision = Ok (h', Some n, GetNode sl h t (si_Symbol info) = None) \<and>
    GetNode sl h' t (si_Symbol info) = Some n \<and>
    map_of (SymbolVersions (h' ! n)) (spkg_Version pkg) = Some \<lparr>vi_Info = info, vi_DocumentPath = doc\<rparr> \<and>
    tree h' t \<and> (parents_ok h t \<longrightarrow> parents_ok h' t) \<and>
    (\<forall>p. \<not> prefix p (Descriptors sy) \<longrightarrow> view h' t p = view h t p)"
proof -
  let ?ds = "Descriptors sy" and ?pre = "Scheme sy @ '' '' @ PackageID sl pkg"
  obtain h' n isNew where add: "add_path h t False ?ds doc ?pre info revision (spkg_Version pkg) = (h', n, isNew)"
    by (metis prod_cases3)
  note spec = add_path_spec [OF add assms(4,1)]
  have walk: "walk h' t ?ds = Some n" using spec by (simp add: added_def)
  moreover have "view h' t ?ds = Some (put_view (Some info) doc ?pre revision (spkg_Version pkg) (view h t ?ds))"
    using spec assms(4) by (simp add: added_def add_view_def)
  ultimately have "map_of (SymbolVersions (h' ! n)) (spkg_Version pkg) = Some \<lparr>vi_Info = info, vi_DocumentPath = doc\<rparr>"
    using put_view_versions by (auto simp: view_def node_view_def dest!: arg_cong [of _ _ nv_versions])
  moreover have "view h' t p = view h t p" if "\<not> prefix p ?ds" for p
    using spec that by (cases p) (auto simp: added_def add_view_def)
  ultimately show ?thesis
    using add walk spec assms(2,3) by (simp add: AddSymbol_def GetNode_def added_def)
qed

text \<open>
  C4. \<^verbatim>\<open>Merge\<close> of two separate trees ends and yields their union at every path: a path of one tree keeps its
  value; on a common path the versions of the other tree override, the revision is the larger one
  and the preamble stays. The result is a tree, with correct parent pointers if both trees had them.
\<close>

theorem Merge_union:
  assumes "tree h t" and "tree h other" and "reach h t \<inter> reach h other = {}"
  shows "\<exists>h'. Merge (length h) h t other = Some h' \<and> tree h' t \<and> view h' t [] = view h t [] \<and>
    (\<forall>d p. view h' t (d # p) = merge_view (view h t (d # p)) (view h other (d # p))) \<and>
    (parents_ok h t \<longrightarrow> parents_ok h other \<longrightarrow> parents_ok h' t)"
  using Merge_merged [OF assms tree_depth [OF assms(2)]] by (auto simp: merged_def)

text \<open>
  C19. \<^verbatim>\<open>PruneNodes\<close> ends and removes exactly the paths that go through (or end in) a node below the start
  whose revision is older than the given one and that holds a version from the document; every other
  path keeps its value.
\<close>

theorem PruneNodes_exact:
  assumes "tree h t"
  shows "\<exists>h'. PruneNodes (length h) h t docPath revision = Some h' \<and> tree h' t \<and>
    (\<forall>p. view h' t p =
       (if \<exists>q a. q \<noteq> [] \<and> prefix q p \<and> walk h t q = Some a \<and> Revision (h ! a) < revision \<and>
            (\<exists>(v, vi) \<in> set (SymbolVersions (h ! a)). vi_DocumentPath vi = docPath)
        then None else view h t p)) \<and>
    (parents_ok h t \<longrightarrow> parents_ok h' t)"
proof -
  obtain h' where h': "PruneNodes (length h) h t docPath revision = Some h'" "pruned h t docPath revision h'"
    using PruneNodes_pruned [OF assms tree_depth [OF assms]] by blast
  have "view h' t p = (if doomed h t docPath revision p then None else view h t p)" for p
    using h'(2) by (cases p) (simp_all add: pruned_def)
  with h' show ?thesis
    by (simp add: pruned_def doomed_iff should_delete_def list_ex_iff)
qed

subsection \<open>Witnesses\<close>

text \<open>A parser for one-letter descriptors, and a tree with the symbols \<^verbatim>\<open>ab\<close> and \<^verbatim>\<open>c\<close>.\<close>

definition sample_symlib :: symlib where
  "sample_symlib =
     \<lparr>ParseSymbol = (\<lambda>s. Ok \<lparr>Scheme = ''s'',
        Package = Some \<lparr>spkg_Manager = ''m'', spkg_Name = ''n'', spkg_Version = ''1''\<rparr>,
        Descriptors = map (\<lambda>c. \<lparr>Name = [c], Suffix = Descriptor_Type, Disambiguator = ''''\<rparr>) s\<rparr>),
      IsLocalSymbol = (\<lambda>s. prefix ''local '' s),
      IsGlobalSymbol = (\<lambda>s. \<not> prefix ''local '' s), PackageID = ID\<rparr>"

definition sample_info :: "gostring \<Rightarrow> symbol_information" where
  "sample_info s = SymbolInformation s [] [] ScipClass s None ''''"

definition sample_heap :: heap where
  "sample_heap =
     (case add_path (fst (NewSymbolPrefixTree [])) 0 False (map (\<lambda>c. \<lparr>Name = [c], Suffix = Descriptor_Type, Disambiguator = ''''\<rparr>) ''ab'')
        ''d.go'' ''p'' (sample_info ''ab'') 1 ''1'' of (h, n, isNew) \<Rightarrow> h)"

lemma tree_new: "tree (h @ [empty_node]) (length h)"
  by (rule treeI) (simp_all add: empty_node_def)

lemma reach_new: "reach (h @ [empty_node]) (length h) = {length h}"
  by (subst reach_unfold) (simp add: empty_node_def)

lemma parents_new: "parents_ok (h @ [empty_node]) (length h)"
  by (subst parents_ok_iff) (simp add: empty_node_def)

lemma sample_heap_ok: "tree sample_heap 0 \<and> parents_ok sample_heap 0"
proof -
  let ?ds = "map (\<lambda>c. \<lparr>Name = [c], Suffix = Descriptor_Type, Disambiguator = ''''\<rparr>) ''ab''"
  obtain h n isNew where add: "add_path [empty_node] 0 False ?ds ''d.go'' ''p'' (sample_info ''ab'') 1 ''1'' = (h, n, isNew)"
    by (metis prod_cases3)
  then have "sample_heap = h" by (simp add: sample_heap_def NewSymbolPrefixTree_def)
  with add_path_spec [OF add] tree_new [of "[]"] parents_new [of "[]"] show ?thesis by (simp add: added_def)
qed

lemmas sample_heap_tree = sample_heap_ok [THEN conjunct1]

lemmas sample_heap_parents = sample_heap_ok [THEN conjunct2]

theorem AddSymbol_GetNode_witness:
  "\<exists>h' n. AddSymbol sample_symlib sample_heap 0 ''e.go'' (sample_info ''ac'') 2 = Ok (h', Some n, True) \<and>
     GetNode sample_symlib h' 0 ''ac'' = Some n \<and> tree h' 0 \<and> parents_ok h' 0"
proof -
  let ?sy = "\<lparr>Scheme = ''s'', Package = Some \<lparr>spkg_Manager = ''m'', spkg_Name = ''n'', spkg_Version = ''1''\<rparr>,
    Descriptors = map (\<lambda>c. \<lparr>Name = [c], Suffix = Descriptor_Type, Disambiguator = ''''\<rparr>) ''ac''\<rparr>"
  have "ParseScipSymbol (ParseSymbol sample_symlib) (si_Symbol (sample_info ''ac'')) = Ok ?sy"
    by (simp add: ParseScipSymbol_def sample_symlib_def sample_info_def fill_package_def)
  from AddSymbol_GetNode [OF sample_heap_tree this, of _ "''e.go''" 2] sample_heap_parents
  have "\<exists>h' n. AddSymbol sample_symlib sample_heap 0 ''e.go'' (sample_info ''ac'') 2 =
      Ok (h', Some n, GetNode sample_symlib sample_heap 0 ''ac'' = None) \<and>
     GetNode sample_symlib h' 0 ''ac'' = Some n \<and> tree h' 0 \<and> parents_ok h' 0"
    by (auto simp: sample_info_def)
  moreover have "GetNode sample_symlib sample_heap 0 ''ac'' = None"
    by code_simp
  ultimately show ?thesis by simp
qed

theorem Merge_union_witness:
  "\<exists>h'. Merge 4 (sample_heap @ [empty_node]) 0 3 = Some h' \<and> tree h' 0"
proof -
  have len: "length sample_heap = 3"
    by (simp add: sample_heap_def NewSymbolPrefixTree_def addChild_def ensure_child_def empty_node_def)
  have same: "(sample_heap @ [empty_node]) ! a = sample_heap ! a" if "a \<in> reach sample_heap 0" for a
    using reach_bound [OF sample_heap_tree that] by (simp add: nth_append)
  have t: "tree (sample_heap @ [empty_node]) 0"
    by (rule tree_frame [OF sample_heap_tree]) (simp_all add: same)
  have r: "reach (sample_heap @ [empty_node]) 0 = reach sample_heap 0" by (rule reach_frame) (simp add: same)
  have "reach (sample_heap @ [empty_node]) 0 \<inter> reach (sample_heap @ [empty_node]) 3 = {}"
    using reach_bound [OF sample_heap_tree] reach_new [of sample_heap] by (auto simp: r len)
  from Merge_union [OF t _ this] tree_new [of sample_heap] show ?thesis by (auto simp: len)
qed

theorem PruneNodes_exact_witness:
  "\<exists>h'. PruneNodes (length sample_heap) sample_heap 0 ''d.go'' 2 = Some h' \<and> tree h' 0 \<and> parents_ok h' 0"
  using PruneNodes_exact [OF sample_heap_tree, of "''d.go''" 2] sample_heap_parents by blast

end
