(* ===== verification/BufferPool.thy ===== *)
theory BufferPool
  imports Prelude
begin

text \<open>
  \<^verbatim>\<open>src/scip-lib/scanner/bufferpool.go\<close>: a buffer is its contents and its capacity, a pool is one
  bag of buffers per bucket size. \<^verbatim>\<open>sync.Pool.Get\<close> may hand out any stored buffer or a new one,
  so \<open>Get\<close> takes the choice as an argument: \<open>Some k\<close> takes the \<open>k\<close>-th stored buffer, \<open>None\<close> (or a
  choice that is not there) calls \<^verbatim>\<open>New\<close>. The lemmas hold for every choice.
\<close>

record buffer =
  buf_bytes :: "byte list"
  buf_cap :: int

record buffer_pool =
  pools :: "buffer list list"
  sizes :: "int list"
  maxSize :: int

text \<open>The largest slice the run-time allocates; \<^verbatim>\<open>make([]byte, n)\<close> panics beyond it.\<close>

definition maxAlloc :: int where
  "maxAlloc = 2 ^ 48"

definition zero_buffer :: "int \<Rightarrow> buffer" where
  "zero_buffer n = \<lparr>buf_bytes = replicate (nat n) (CHR 0x00), buf_cap = n\<rparr>"

text \<open>\<^verbatim>\<open>startSize << i\<close> on the 64-bit \<^verbatim>\<open>int\<close>.\<close>

definition bucket_sizes :: "int \<Rightarrow> nat \<Rightarrow> int list" where
  "bucket_sizes startSize sizeCnt = map (\<lambda>i. sint (push_bit i (word_of_int startSize :: 64 word))) [0..<sizeCnt]"

text \<open>\<^verbatim>\<open>sizes[sizeCnt-1]\<close> is out of range for an empty pool.\<close>

definition NewBufferPool :: "int \<Rightarrow> nat \<Rightarrow> buffer_pool outcome" where
  "NewBufferPool startSize sizeCnt =
     (if sizeCnt = 0 then Panic
      else Ok \<lparr>pools = replicate sizeCnt [],
               sizes = bucket_sizes startSize sizeCnt,
               maxSize = last (bucket_sizes startSize sizeCnt)\<rparr>)"

text \<open>The first bucket that is large enough (the loop of \<^verbatim>\<open>Get\<close>).\<close>

fun find_bucket :: "(int \<Rightarrow> bool) \<Rightarrow> int list \<Rightarrow> nat option" where
  "find_bucket p [] = None"
| "find_bucket p (s # ss) = (if p s then Some 0 else map_option Suc (find_bucket p ss))"

definition reslice :: "buffer \<Rightarrow> int \<Rightarrow> buffer outcome" where
  "reslice b sz =
     (if 0 \<le> sz \<and> sz \<le> buf_cap b
      then Ok (b\<lparr>buf_bytes := take (nat sz) (buf_bytes b @ replicate (nat sz) (CHR 0x00))\<rparr>)
      else Panic)"

text \<open>\<^verbatim>\<open>sync.Pool.Get\<close> on the \<open>i\<close>-th pool.\<close>

definition pool_take :: "buffer_pool \<Rightarrow> nat \<Rightarrow> nat option \<Rightarrow> buffer \<times> buffer_pool" where
  "pool_take bp i pick =
     (case pick of
        None \<Rightarrow> (zero_buffer (sizes bp ! i), bp)
      | Some k \<Rightarrow>
          (if k < length (pools bp ! i)
           then (pools bp ! i ! k,
                 bp\<lparr>pools := (pools bp)[i := take k (pools bp ! i) @ drop (Suc k) (pools bp ! i)]\<rparr>)
           else (zero_buffer (sizes bp ! i), bp)))"

definition Get :: "buffer_pool \<Rightarrow> nat option \<Rightarrow> int \<Rightarrow> (buffer \<times> buffer_pool) outcome" where
  "Get bp pick sz =
     (case find_bucket (\<lambda>s. sz \<le> s) (sizes bp) of
        Some i \<Rightarrow>
          (let (b, bp') = pool_take bp i pick
           in obind (reslice b sz) (\<lambda>b'. Ok (b', bp')))
      | None \<Rightarrow> (if 0 \<le> sz \<and> sz \<le> maxAlloc then Ok (zero_buffer sz, bp) else Panic))"

text \<open>\<^verbatim>\<open>buf[:cap(buf)]\<close>: the stored buffer spans its whole capacity again.\<close>

definition full_slice :: "buffer \<Rightarrow> buffer" where
  "full_slice b =
     b\<lparr>buf_bytes := take (nat (buf_cap b)) (buf_bytes b @ replicate (nat (buf_cap b)) (CHR 0x00))\<rparr>"

definition Put :: "buffer_pool \<Rightarrow> buffer \<Rightarrow> buffer_pool" where
  "Put bp b =
     (case find_bucket (\<lambda>s. buf_cap b = s) (sizes bp) of
        Some i \<Rightarrow> bp\<lparr>pools := (pools bp)[i := full_slice b # (pools bp ! i)]\<rparr>
      | None \<Rightarrow> bp)"

text \<open>The invariant: one bag per bucket, and every stored buffer has its bucket's capacity.\<close>

definition pool_inv :: "buffer_pool \<Rightarrow> bool" where
  "pool_inv bp \<longleftrightarrow>
     length (pools bp) = length (sizes bp) \<and>
     (\<forall>i < length (sizes bp). \<forall>b \<in> set (pools bp ! i).
        buf_cap b = sizes bp ! i \<and> int (length (buf_bytes b)) = sizes bp ! i)"

text \<open>
  The capacity of the buffer \<open>Get\<close> returns depends on the bucket sizes and the request only, not
  on what is stored: the scanner's model uses this function for the buffers it asks for.
\<close>

definition get_cap :: "int list \<Rightarrow> int \<Rightarrow> int outcome" where
  "get_cap szs sz =
     (case find_bucket (\<lambda>s. sz \<le> s) szs of
        Some i \<Rightarrow> (if 0 \<le> sz then Ok (szs ! i) else Panic)
      | None \<Rightarrow> (if 0 \<le> sz \<and> sz \<le> maxAlloc then Ok sz else Panic))"

lemma find_bucket_Some:
  "find_bucket p ss = Some i \<Longrightarrow> i < length ss \<and> p (ss ! i) \<and> (\<forall>j < i. \<not> p (ss ! j))"
proof (induction ss arbitrary: i)
  case Nil
  then show ?case by simp
next
  case (Cons s ss)
  show ?case
  proof (cases "p s")
    case True
    with Cons.prems show ?thesis by simp
  next
    case False
    with Cons.prems obtain k where "find_bucket p ss = Some k" and "i = Suc k"
      by auto
    with Cons.IH False show ?thesis by (auto simp: nth_Cons split: nat.splits)
  qed
qed

lemma find_bucket_None: "find_bucket p ss = None \<longleftrightarrow> (\<forall>s \<in> set ss. \<not> p s)"
  by (induction ss) auto

lemma pool_inv_update:
  assumes "pool_inv bp"
    and "\<forall>b \<in> set bs. buf_cap b = sizes bp ! i \<and> int (length (buf_bytes b)) = sizes bp ! i"
  shows "pool_inv (bp\<lparr>pools := (pools bp)[i := bs]\<rparr>)"
proof -
  have "buf_cap b = sizes bp ! j \<and> int (length (buf_bytes b)) = sizes bp ! j"
    if "j < length (sizes bp)" and "b \<in> set ((pools bp)[i := bs] ! j)" for j b
    using that assms by (cases "j = i") (auto simp: pool_inv_def)
  with assms(1) show ?thesis by (simp add: pool_inv_def)
qed

lemma pool_take_inv:
  assumes "pool_inv bp" and "i < length (sizes bp)" and "pool_take bp i pick = (b, bp')"
    and "0 \<le> sizes bp ! i"
  shows "pool_inv bp' \<and> sizes bp' = sizes bp \<and> buf_cap b = sizes bp ! i \<and>
    int (length (buf_bytes b)) = sizes bp ! i"
proof (cases "case pick of None \<Rightarrow> False | Some k \<Rightarrow> k < length (pools bp ! i)")
  case True
  then obtain k where k: "pick = Some k" "k < length (pools bp ! i)"
    by (cases pick) auto
  with assms(3) have b: "b = pools bp ! i ! k"
    and bp': "bp' = bp\<lparr>pools := (pools bp)[i := take k (pools bp ! i) @ drop (Suc k) (pools bp ! i)]\<rparr>"
    by (simp_all add: pool_take_def)
  from k assms(1,2) have "b \<in> set (pools bp ! i)" by (simp add: b)
  with assms(1,2) have "buf_cap b = sizes bp ! i" "int (length (buf_bytes b)) = sizes bp ! i"
    by (auto simp: pool_inv_def)
  moreover have "pool_inv bp'"
    using assms(1,2) unfolding bp'
    by (intro pool_inv_update) (auto simp: pool_inv_def dest: in_set_takeD in_set_dropD)
  ultimately show ?thesis by (simp add: bp')
next
  case False
  with assms(3) have "b = zero_buffer (sizes bp ! i)" and "bp' = bp"
    by (auto simp: pool_take_def split: option.splits)
  with assms(1,4) show ?thesis by (simp add: zero_buffer_def)
qed

lemma Put_inv:
  assumes "pool_inv bp" and "0 \<le> buf_cap b"
  shows "pool_inv (Put bp b)"
proof (cases "find_bucket (\<lambda>s. buf_cap b = s) (sizes bp)")
  case None
  with assms show ?thesis by (simp add: Put_def)
next
  case (Some i)
  then have "i < length (sizes bp)" "buf_cap b = sizes bp ! i"
    using find_bucket_Some by blast+
  then have "buf_cap (full_slice b) = sizes bp ! i \<and> int (length (buf_bytes (full_slice b))) = sizes bp ! i"
    using assms(2) by (simp add: full_slice_def)
  with assms(1) \<open>i < length (sizes bp)\<close>
  have "\<forall>x \<in> set (full_slice b # pools bp ! i).
      buf_cap x = sizes bp ! i \<and> int (length (buf_bytes x)) = sizes bp ! i"
    by (simp add: pool_inv_def)
  from pool_inv_update [OF assms(1) this] Some show ?thesis by (simp add: Put_def)
qed

lemma Get_cases:
  assumes "pool_inv bp" and "0 \<le> sz" and "sz \<le> maxAlloc"
  shows "\<exists>b bp'. Get bp pick sz = Ok (b, bp') \<and> int (length (buf_bytes b)) = sz \<and>
    buf_cap b = (case find_bucket (\<lambda>s. sz \<le> s) (sizes bp) of None \<Rightarrow> sz | Some i \<Rightarrow> sizes bp ! i) \<and> pool_inv bp' \<and> sizes bp' = sizes bp"
proof (cases "find_bucket (\<lambda>s. sz \<le> s) (sizes bp)")
  case None
  with assms show ?thesis by (simp add: Get_def zero_buffer_def)
next
  case (Some i)
  then have i: "i < length (sizes bp)" "sz \<le> sizes bp ! i"
    using find_bucket_Some by blast+
  obtain b bp' where take: "pool_take bp i pick = (b, bp')" by fastforce
  from i assms(2) have "0 \<le> sizes bp ! i" by linarith
  with pool_take_inv [OF assms(1) i(1) take]
  have inv: "pool_inv bp'" "sizes bp' = sizes bp" "buf_cap b = sizes bp ! i"
    "int (length (buf_bytes b)) = sizes bp ! i" by auto
  with assms(2) i(2) have "reslice b sz = Ok (b\<lparr>buf_bytes := take (nat sz) (buf_bytes b)\<rparr>)"
    by (simp add: reslice_def)
  moreover from inv(4) i(2) assms(2) have "int (length (take (nat sz) (buf_bytes b))) = sz"
    by simp
  ultimately show ?thesis
    using Some take inv by (simp add: Get_def)
qed

text \<open>The capacity of what \<open>Get\<close> returns is the one the scanner's model takes.\<close>

lemma Get_capacity:
  assumes "pool_inv bp" and "0 \<le> sz" and "sz \<le> maxAlloc" and "Get bp pick sz = Ok (b, bp')"
  shows "get_cap (sizes bp) sz = Ok (buf_cap b)"
  using Get_cases [OF assms(1-3), of pick] assms by (auto simp: get_cap_def split: option.splits)

subsection \<open>Pools in use\<close>

text \<open>A pool that was made and from which buffers were taken and to which buffers, its own or others, were returned.\<close>

inductive pool_reachable :: "int \<Rightarrow> nat \<Rightarrow> buffer_pool \<Rightarrow> bool" for startSize sizeCnt where
  new: "NewBufferPool startSize sizeCnt = Ok bp \<Longrightarrow> pool_reachable startSize sizeCnt bp"
| get: "pool_reachable startSize sizeCnt bp \<Longrightarrow> 0 \<le> sz \<Longrightarrow> sz \<le> maxAlloc \<Longrightarrow> Get bp pick sz = Ok (b, bp') \<Longrightarrow> pool_reachable startSize sizeCnt bp'"
| put: "pool_reachable startSize sizeCnt bp \<Longrightarrow> 0 \<le> buf_cap b \<Longrightarrow> pool_reachable startSize sizeCnt (Put bp b)"

lemma bucket_size:
  assumes "0 \<le> startSize" and "startSize * 2 ^ i < 2 ^ 63"
  shows "sint (push_bit i (word_of_int startSize :: 64 word)) = startSize * 2 ^ i"
proof -
  have "push_bit i (word_of_int startSize :: 64 word) = word_of_int (startSize * 2 ^ i)"
    by (simp add: push_bit_eq_mult)
  moreover have "- (2 ^ 63) \<le> startSize * 2 ^ i" using assms(1) by (smt (verit) mult_nonneg_nonneg zero_le_power)
  then have "signed_take_bit 63 (startSize * 2 ^ i) = startSize * 2 ^ i" using assms(2) by (rule signed_take_bit_int_eq_self)
  then have "sint (word_of_int (startSize * 2 ^ i) :: 64 word) = startSize * 2 ^ i"
    unfolding sint_sbintrunc' by (simp del: of_int_mult)
  ultimately show ?thesis by (simp only:)
qed

lemma bucket_nth:
  assumes "0 \<le> startSize" and "startSize * 2 ^ (sizeCnt - 1) < 2 ^ 63" and "i < sizeCnt"
  shows "bucket_sizes startSize sizeCnt ! i = startSize * 2 ^ i"
proof -
  have "startSize * 2 ^ i \<le> startSize * 2 ^ (sizeCnt - 1)"
    using assms(1,3) by (intro mult_left_mono power_increasing) auto
  with assms show ?thesis by (simp add: bucket_sizes_def bucket_size)
qed

lemma pool_reachable_inv:
  assumes "pool_reachable startSize sizeCnt bp"
  shows "pool_inv bp \<and> sizes bp = bucket_sizes startSize sizeCnt"
  using assms
proof induction
  case (new bp)
  then show ?case by (auto simp: NewBufferPool_def pool_inv_def bucket_sizes_def split: if_splits)
next
  case (get bp sz pick b bp')
  with Get_cases [of bp sz pick] show ?case by simp
next
  case (put bp b)
  with Put_inv [of bp b] show ?case by (simp add: Put_def split: option.split)
qed

text \<open>
  C37. A pool that is made with buckets from \<open>startSize\<close> on, each twice the size of the one before (none of them overflowing), and used in
  any way. Whatever the underlying \<^verbatim>\<open>sync.Pool\<close> hands out, a request for \<open>sz\<close> bytes gets a buffer of exactly \<open>sz\<close> bytes. Its
  capacity is \<open>startSize\<close> times the least power of two that is enough, if the pool has such a bucket; it is \<open>sz\<close> if even the last bucket
  is too small.
\<close>

theorem Get_spec:
  assumes "pool_reachable startSize sizeCnt bp" and "0 \<le> startSize" and "startSize * 2 ^ (sizeCnt - 1) < 2 ^ 63"
    and "0 \<le> sz" and "sz \<le> maxAlloc"
  shows "\<exists>b bp'. Get bp pick sz = Ok (b, bp') \<and> int (length (buf_bytes b)) = sz \<and>
    (\<forall>k < sizeCnt. sz \<le> startSize * 2 ^ k \<and> (\<forall>j < k. startSize * 2 ^ j < sz) \<longrightarrow> buf_cap b = startSize * 2 ^ k) \<and>
    ((\<forall>k < sizeCnt. startSize * 2 ^ k < sz) \<longrightarrow> buf_cap b = sz)"
proof -
  note bp = pool_reachable_inv [OF assms(1)] and nth = bucket_nth [OF assms(2,3)]
  have len: "length (bucket_sizes startSize sizeCnt) = sizeCnt" by (simp add: bucket_sizes_def)
  obtain b bp' where get: "Get bp pick sz = Ok (b, bp')" "int (length (buf_bytes b)) = sz"
    and cap: "buf_cap b = (case find_bucket (\<lambda>s. sz \<le> s) (sizes bp) of None \<Rightarrow> sz | Some i \<Rightarrow> sizes bp ! i)"
    using Get_cases [OF _ assms(4,5), of bp pick] bp by blast
  show ?thesis
  proof (cases "find_bucket (\<lambda>s. sz \<le> s) (sizes bp)")
    case None
    then have "startSize * 2 ^ k < sz" if "k < sizeCnt" for k
      using that bp nth [OF that] len nth_mem [of k "bucket_sizes startSize sizeCnt"] by (auto simp: find_bucket_None)
    with None get cap show ?thesis by fastforce
  next
    case (Some i)
    then have i: "i < sizeCnt" "sz \<le> startSize * 2 ^ i" "\<And>j. j < i \<Longrightarrow> startSize * 2 ^ j < sz"
      using find_bucket_Some [OF Some] bp len nth by auto
    have "k = i" if "k < sizeCnt" "sz \<le> startSize * 2 ^ k" "\<forall>j < k. startSize * 2 ^ j < sz" for k
      using that i by (metis linorder_neqE_nat not_less)
    moreover have "buf_cap b = startSize * 2 ^ i" using Some cap bp nth [OF i(1)] by simp
    ultimately show ?thesis using get i(1,2) by (metis not_less)
  qed
qed

text \<open>The pool of the scanner in small: of the buckets 4, 8, 16 the second is the smallest for five bytes.\<close>

theorem Get_spec_witness:
  "\<exists>b bp'. obind (NewBufferPool 4 3) (\<lambda>bp. Get bp None 5) = Ok (b, bp') \<and> int (length (buf_bytes b)) = 5 \<and> buf_cap b = 8"
proof -
  obtain bp where bp: "NewBufferPool 4 3 = Ok bp" by (simp add: NewBufferPool_def)
  from Get_spec [OF pool_reachable.new [OF bp], of 5 None] obtain b bp' where
    get: "Get bp None 5 = Ok (b, bp')" "int (length (buf_bytes b)) = 5" and
    cap: "\<forall>k < 3. 5 \<le> (4 :: int) * 2 ^ k \<and> (\<forall>j < k. (4 :: int) * 2 ^ j < 5) \<longrightarrow> buf_cap b = 4 * 2 ^ k"
    by (auto simp: maxAlloc_def)
  from cap have "(1 :: nat) < 3 \<longrightarrow> 5 \<le> (4 :: int) * 2 ^ (1 :: nat) \<and> (\<forall>j < 1. (4 :: int) * 2 ^ j < 5) \<longrightarrow> buf_cap b = 4 * 2 ^ (1 :: nat)" by blast
  then have "buf_cap b = 8" by simp
  with get bp show ?thesis by simp
qed

end
