(* ===== verification/Scanner.thy ===== *)
theory Scanner
  imports BufferPool
begin

text \<open>
  \<^verbatim>\<open>src/scip-lib/scanner/scan.go\<close>: the incremental scanner of SCIP indices.

  The wire-format primitives \<^verbatim>\<open>protowire.ConsumeVarint\<close> and \<^verbatim>\<open>protowire.ConsumeTag\<close> and the
  protobuf decoder \<^verbatim>\<open>proto.Unmarshal\<close> are library code: they are fields of the record
  \<open>protolib\<close>, which every definition takes as an argument. The scanner's callbacks are the fields
  of \<open>scanner\<close>; they thread a state of any type, so a callback may have side effects as the
  closures in \<^verbatim>\<open>partialloader/index.go\<close> do, and a \<^verbatim>\<open>Visit\<close> callback also returns whether it
  panicked. A nil callback is \<open>None\<close>.

  The loops read until the reader is at its end. They take fuel and return \<open>None\<close> when it runs
  out: a field whose length has the top bit set moves the reader backwards, so a loop need not
  end; the theorems say when it does.
\<close>

subsection \<open>Readers\<close>

record reader =
  content :: "byte list"
  offset :: int

definition new_reader :: "byte list \<Rightarrow> reader" where
  "new_reader bs = \<lparr>content = bs, offset = 0\<rparr>"

text \<open>\<^verbatim>\<open>Read\<close> into a buffer of \<open>n\<close> bytes; the bytes read are returned.\<close>

definition Read :: "reader \<Rightarrow> nat \<Rightarrow> (byte list \<times> reader) outcome" where
  "Read r n =
     (if int (length (content r)) \<le> offset r then Fail EOF
      else let bs = take n (drop (nat (offset r)) (content r))
           in Ok (bs, r\<lparr>offset := offset r + int (length bs)\<rparr>))"

text \<open>\<^verbatim>\<open>Seek(n, io.SeekCurrent)\<close>: the position is an \<^verbatim>\<open>int64\<close> and wraps.\<close>

definition Seek :: "reader \<Rightarrow> int \<Rightarrow> reader outcome" where
  "Seek r n =
     (let p = sint (word_of_int (offset r + n) :: 64 word)
      in if p < 0 then Fail (External ''negative position'') else Ok (r\<lparr>offset := p\<rparr>))"

subsection \<open>Field numbers and names\<close>

definition maxVarintBytes :: int where
  "maxVarintBytes = 10"

definition BytesType :: int where
  "BytesType = 2"

definition indexMetadataFieldNumber :: int where
  "indexMetadataFieldNumber = 1"

definition indexDocumentsFieldNumber :: int where
  "indexDocumentsFieldNumber = 2"

definition indexExternalSymbolsFieldNumber :: int where
  "indexExternalSymbolsFieldNumber = 3"

definition documentRelativePathFieldNumber :: int where
  "documentRelativePathFieldNumber = 1"

definition documentOccurrencesFieldNumber :: int where
  "documentOccurrencesFieldNumber = 2"

definition documentSymbolsFieldNumber :: int where
  "documentSymbolsFieldNumber = 3"

definition documentLanguageFieldNumber :: int where
  "documentLanguageFieldNumber = 4"

definition symbolInformationSymbolField :: int where
  "symbolInformationSymbolField = 1"

definition occurrenceSymbolField :: int where
  "occurrenceSymbolField = 2"

definition indexFieldName :: "int \<Rightarrow> gostring" where
  "indexFieldName i =
     (if i = indexMetadataFieldNumber then ''metadata''
      else if i = indexDocumentsFieldNumber then ''documents''
      else if i = indexExternalSymbolsFieldNumber then ''external_symbols''
      else ''<unknown>'')"

definition documentFieldName :: "int \<Rightarrow> gostring" where
  "documentFieldName i =
     (if i = documentRelativePathFieldNumber then ''relative_path''
      else if i = documentOccurrencesFieldNumber then ''occurrences''
      else if i = documentSymbolsFieldNumber then ''symbols''
      else if i = documentLanguageFieldNumber then ''language''
      else ''<unknown>'')"

subsection \<open>The library the scanner calls, and its callbacks\<close>

record ('doc, 'sym, 'occ) protolib =
  ConsumeVarint :: "byte list \<Rightarrow> 64 word \<times> int"
  ConsumeTag :: "byte list \<Rightarrow> int \<times> int \<times> int"
  UnmarshalDocument :: "byte list \<Rightarrow> 'doc outcome"
  UnmarshalSymbol :: "byte list \<Rightarrow> 'sym outcome"
  UnmarshalOccurrence :: "byte list \<Rightarrow> 'occ outcome"

record ('doc, 'sym, 'occ, 'st) scanner =
  MatchDocumentPath :: "(gostring \<Rightarrow> 'st \<Rightarrow> bool \<times> 'st) option"
  MatchSymbol :: "(byte list \<Rightarrow> 'st \<Rightarrow> bool \<times> 'st) option"
  MatchOccurrence :: "(byte list \<Rightarrow> 'st \<Rightarrow> bool \<times> 'st) option"
  VisitDocument :: "('doc \<Rightarrow> 'st \<Rightarrow> status \<times> 'st) option"
  VisitSymbol :: "(gostring \<Rightarrow> 'sym \<Rightarrow> 'st \<Rightarrow> status \<times> 'st) option"
  VisitOccurrence :: "(gostring \<Rightarrow> 'occ \<Rightarrow> 'st \<Rightarrow> status \<times> 'st) option"
  PoolSizes :: "int list"

subsection \<open>Consuming the parts of a field\<close>

text \<open>The loop of \<^verbatim>\<open>readVarint\<close>: at most \<open>k\<close> more bytes, \<open>i\<close> read so far.\<close>

fun readVarint_loop :: "nat \<Rightarrow> nat \<Rightarrow> reader \<Rightarrow> byte list \<Rightarrow> (byte list \<times> reader) outcome" where
  "readVarint_loop 0 i r scratch = Ok (scratch, r)"
| "readVarint_loop (Suc k) i r scratch =
     (case Read r 1 of
        Fail e \<Rightarrow> Fail (Join (Errorf ''failed to read %d-th byte of Varint'' [FInt (int i)]) e)
      | Panic \<Rightarrow> Panic
      | Ok (bs, r') \<Rightarrow>
          (case bs of
             [] \<Rightarrow> Fail (Errorf ''failed to read %d-th byte of Varint'' [FInt (int i)])
           | nextByte # _ \<Rightarrow>
               if byte_val nextByte \<le> 127 then Ok (scratch @ [nextByte], r')
               else readVarint_loop k (Suc i) r' (scratch @ [nextByte])))"

definition readVarint ::
  "('doc, 'sym, 'occ) protolib \<Rightarrow> int \<Rightarrow> reader \<Rightarrow> (64 word \<times> reader) outcome" where
  "readVarint pl scratchCap r =
     obind (readVarint_loop (nat scratchCap) 0 r []) (\<lambda>(buf, r').
       let (v, errCode) = ConsumeVarint pl buf
       in if errCode < 0 then Fail (ParseError errCode) else Ok (v, r'))"

definition consumeBytesFieldMeta ::
  "('doc, 'sym, 'occ) protolib \<Rightarrow> reader \<Rightarrow> (int \<times> int \<times> reader) outcome" where
  "consumeBytesFieldMeta pl r =
     (case Read r 1 of
        Panic \<Rightarrow> Panic
      | Fail e \<Rightarrow>
          if e = EOF then Fail EOF
          else Fail (Join (Errorf ''failed to read from index reader'' []) e)
      | Ok (tagBuf, r') \<Rightarrow>
          if tagBuf = [] then Fail (Errorf ''read 0 bytes from index'' [])
          else let (fieldNumber, fieldType, errCode) = ConsumeTag pl tagBuf
               in if errCode < 0
                  then Fail (Join (Errorf ''failed to consume tag'' []) (ParseError errCode))
                  else if fieldType \<noteq> BytesType
                  then Fail (Errorf ''expected bytes type for field %d'' [FInt fieldNumber])
                  else Ok (fieldNumber, fieldType, r'))"

definition skipField ::
  "('doc, 'sym, 'occ) protolib \<Rightarrow> int list \<Rightarrow> reader \<Rightarrow> reader outcome" where
  "skipField pl szs r =
     obind (get_cap szs maxVarintBytes) (\<lambda>lenCap.
     obind (wrap_err (Errorf ''failed to read length'' []) (readVarint pl lenCap r)) (\<lambda>(dataLen, r').
       wrap_err (Errorf ''failed to skip field'' []) (Seek r' (sint dataLen))))"

definition consumeLen ::
  "('doc, 'sym, 'occ) protolib \<Rightarrow> int list \<Rightarrow> reader \<Rightarrow> int \<Rightarrow> (int \<times> reader) outcome" where
  "consumeLen pl szs r fieldType =
     (if fieldType \<noteq> BytesType then Fail (Errorf ''expected LEN type tag'' [])
      else obind (get_cap szs maxVarintBytes) (\<lambda>lenCap.
           obind (wrap_err (Errorf ''failed to read length'' []) (readVarint pl lenCap r))
             (\<lambda>(dataLen, r'). Ok (sint dataLen, r'))))"

text \<open>The buffer is \<open>dataLen\<close> bytes long; it is returned filled.\<close>

definition consumeFieldData :: "reader \<Rightarrow> int \<Rightarrow> (byte list \<times> reader) outcome" where
  "consumeFieldData r dataLen =
     (if dataLen > 0
      then obind (wrap_err (Errorf ''failed to read data'' []) (Read r (nat dataLen)))
        (\<lambda>(bs, r').
           if int (length bs) \<noteq> dataLen
           then Fail (Errorf ''expected to read %d bytes based on LEN but read %d bytes''
                        [FInt dataLen, FInt (int (length bs))])
           else Ok (bs, r'))
      else Ok ([], r))"

text \<open>
  The sequence \<^verbatim>\<open>consumeLen\<close>, \<^verbatim>\<open>Pool.Get\<close>, \<^verbatim>\<open>consumeFieldData\<close> with the wrapping of their errors,
  which every loop below performs; \<open>dataErr\<close> is the message of the last step.
\<close>

definition readPayload ::
  "('doc, 'sym, 'occ) protolib \<Rightarrow> int list \<Rightarrow> go_error \<Rightarrow> reader \<Rightarrow> int \<Rightarrow> (byte list \<times> reader) outcome"
where
  "readPayload pl szs dataErr r fieldType =
     obind (wrap_err (Errorf ''failed to consume length'' []) (consumeLen pl szs r fieldType))
       (\<lambda>(dataLen, r').
     obind (get_cap szs dataLen) (\<lambda>_.
       wrap_err dataErr (consumeFieldData r' dataLen)))"

subsection \<open>Finding one field of a blob\<close>

text \<open>
  \<^verbatim>\<open>parseDocumentPath\<close>, \<^verbatim>\<open>parseSymbolMoniker\<close> and \<^verbatim>\<open>parseOccurrenceSymbol\<close> are the same loop, for
  different field numbers and messages: skip fields until the wanted one, return its bytes. At
  the end of the blob the result is empty (\<open>""\<close>, respectively \<open>nil\<close>).
\<close>

fun parse_field_loop ::
  "nat \<Rightarrow> ('doc, 'sym, 'occ) protolib \<Rightarrow> int list \<Rightarrow> int \<Rightarrow> (int \<Rightarrow> go_error) \<Rightarrow> (int \<Rightarrow> go_error) \<Rightarrow>
   reader \<Rightarrow> byte list outcome option"
where
  "parse_field_loop 0 pl szs wanted skipErr dataErr r = None"
| "parse_field_loop (Suc fuel) pl szs wanted skipErr dataErr r =
     (case consumeBytesFieldMeta pl r of
        Panic \<Rightarrow> Some Panic
      | Fail e \<Rightarrow> Some (if e = EOF then Ok [] else Fail (Join (Errorf ''failed to consume field'' []) e))
      | Ok (fieldNumber, fieldType, r1) \<Rightarrow>
          if fieldNumber \<noteq> wanted
          then (case wrap_err (skipErr fieldNumber) (skipField pl szs r1) of
                  Ok r2 \<Rightarrow> parse_field_loop fuel pl szs wanted skipErr dataErr r2
                | Fail e \<Rightarrow> Some (Fail e)
                | Panic \<Rightarrow> Some Panic)
          else (case readPayload pl szs (dataErr fieldNumber) r1 fieldType of
                  Ok (bs, r2) \<Rightarrow> Some (Ok bs)
                | Fail e \<Rightarrow> Some (Fail e)
                | Panic \<Rightarrow> Some Panic))"

definition parseDocumentPath ::
  "nat \<Rightarrow> ('doc, 'sym, 'occ) protolib \<Rightarrow> int list \<Rightarrow> byte list \<Rightarrow> gostring outcome option" where
  "parseDocumentPath fuel pl szs docData =
     parse_field_loop fuel pl szs documentRelativePathFieldNumber
       (\<lambda>i. Errorf ''failed to skip %q'' [FStr (documentFieldName i)])
       (\<lambda>i. Errorf ''failed to consume %q data'' [FStr (documentFieldName i)])
       (new_reader docData)"

definition parseSymbolMoniker ::
  "nat \<Rightarrow> ('doc, 'sym, 'occ) protolib \<Rightarrow> int list \<Rightarrow> byte list \<Rightarrow> byte list outcome option" where
  "parseSymbolMoniker fuel pl szs symbolData =
     parse_field_loop fuel pl szs symbolInformationSymbolField
       (\<lambda>i. Errorf ''failed to skip field %d in SymbolInfo'' [FInt i])
       (\<lambda>i. Errorf ''failed to consume field %d data in SymbolInfo'' [FInt i])
       (new_reader symbolData)"

definition parseOccurrenceSymbol ::
  "nat \<Rightarrow> ('doc, 'sym, 'occ) protolib \<Rightarrow> int list \<Rightarrow> byte list \<Rightarrow> byte list outcome option" where
  "parseOccurrenceSymbol fuel pl szs occData =
     parse_field_loop fuel pl szs occurrenceSymbolField
       (\<lambda>i. Errorf ''failed to skip field %d in Occurrence'' [FInt i])
       (\<lambda>i. Errorf ''failed to consume field %d data in Occurrence'' [FInt i])
       (new_reader occData)"

subsection \<open>Scanning a document and an index\<close>

definition shouldParseDocumentField :: "('doc, 'sym, 'occ, 'st) scanner \<Rightarrow> int \<Rightarrow> bool" where
  "shouldParseDocumentField sc fieldNumber =
     (if fieldNumber = documentSymbolsFieldNumber then MatchSymbol sc \<noteq> None
      else if fieldNumber = documentOccurrencesFieldNumber then MatchOccurrence sc \<noteq> None
      else False)"

text \<open>\<^verbatim>\<open>if match && is.Visit != nil { proto.Unmarshal ...; is.Visit(...) }\<close>\<close>

definition visit_matched ::
  "bool \<Rightarrow> ('a \<Rightarrow> 'st \<Rightarrow> status \<times> 'st) option \<Rightarrow> 'a outcome \<Rightarrow> go_error \<Rightarrow> 'st \<Rightarrow> status \<times> 'st" where
  "visit_matched matched visit msg readErr st =
     (case visit of
        None \<Rightarrow> (Done, st)
      | Some v \<Rightarrow>
          if matched
          then (case msg of
                  Ok x \<Rightarrow> v x st
                | Fail e \<Rightarrow> (Failed (Join readErr e), st)
                | Panic \<Rightarrow> (Panicked, st))
          else (Done, st))"

text \<open>Calling a nil function value panics.\<close>

definition scan_symbol_field ::
  "nat \<Rightarrow> ('doc, 'sym, 'occ) protolib \<Rightarrow> ('doc, 'sym, 'occ, 'st) scanner \<Rightarrow> gostring \<Rightarrow> byte list \<Rightarrow>
   'st \<Rightarrow> (status \<times> 'st) option" where
  "scan_symbol_field fuel pl sc docPath dataBuf st =
     (case parseSymbolMoniker fuel pl (PoolSizes sc) dataBuf of
        None \<Rightarrow> None
      | Some Panic \<Rightarrow> Some (Panicked, st)
      | Some (Fail e) \<Rightarrow> Some (Failed (Join (Errorf ''failed to parse symbol moniker'' []) e), st)
      | Some (Ok syByte) \<Rightarrow>
          (case MatchSymbol sc of
             None \<Rightarrow> Some (Panicked, st)
           | Some m \<Rightarrow>
               let (matched, st1) = m syByte st
               in Some (visit_matched matched (map_option (\<lambda>v. v docPath) (VisitSymbol sc))
                    (UnmarshalSymbol pl dataBuf)
                    (Errorf ''failed to read %q'' [FStr (documentFieldName documentSymbolsFieldNumber)])
                    st1)))"

definition scan_occurrence_field ::
  "nat \<Rightarrow> ('doc, 'sym, 'occ) protolib \<Rightarrow> ('doc, 'sym, 'occ, 'st) scanner \<Rightarrow> gostring \<Rightarrow> byte list \<Rightarrow>
   'st \<Rightarrow> (status \<times> 'st) option" where
  "scan_occurrence_field fuel pl sc docPath dataBuf st =
     (case parseOccurrenceSymbol fuel pl (PoolSizes sc) dataBuf of
        None \<Rightarrow> None
      | Some Panic \<Rightarrow> Some (Panicked, st)
      | Some (Fail e) \<Rightarrow> Some (Failed (Join (Errorf ''failed to parse symbol moniker'' []) e), st)
      | Some (Ok syByte) \<Rightarrow>
          (case MatchOccurrence sc of
             None \<Rightarrow> Some (Panicked, st)
           | Some m \<Rightarrow>
               let (matched, st1) = m syByte st
               in Some (visit_matched matched (map_option (\<lambda>v. v docPath) (VisitOccurrence sc))
                    (UnmarshalOccurrence pl dataBuf)
                    (Errorf ''failed to read %q'' [FStr (documentFieldName documentOccurrencesFieldNumber)])
                    st1)))"

definition scan_document_field ::
  "nat \<Rightarrow> ('doc, 'sym, 'occ) protolib \<Rightarrow> ('doc, 'sym, 'occ, 'st) scanner \<Rightarrow> gostring \<Rightarrow> int \<Rightarrow>
   byte list \<Rightarrow> 'st \<Rightarrow> (status \<times> 'st) option" where
  "scan_document_field fuel pl sc docPath fieldNumber dataBuf st =
     (if fieldNumber = documentSymbolsFieldNumber then scan_symbol_field fuel pl sc docPath dataBuf st
      else if fieldNumber = documentOccurrencesFieldNumber
      then scan_occurrence_field fuel pl sc docPath dataBuf st
      else Some (Done, st))"

fun ScanDocumentReader ::
  "nat \<Rightarrow> ('doc, 'sym, 'occ) protolib \<Rightarrow> ('doc, 'sym, 'occ, 'st) scanner \<Rightarrow> gostring \<Rightarrow> reader \<Rightarrow>
   'st \<Rightarrow> (status \<times> 'st) option"
where
  "ScanDocumentReader 0 pl sc docPath r st = None"
| "ScanDocumentReader (Suc fuel) pl sc docPath r st =
     (case consumeBytesFieldMeta pl r of
        Panic \<Rightarrow> Some (Panicked, st)
      | Fail e \<Rightarrow>
          Some (if e = EOF then Done else Failed (Join (Errorf ''failed to consume field'' []) e), st)
      | Ok (fieldNumber, fieldType, r1) \<Rightarrow>
          if \<not> shouldParseDocumentField sc fieldNumber
          then (case skipField pl (PoolSizes sc) r1 of
                  Ok r2 \<Rightarrow> ScanDocumentReader fuel pl sc docPath r2 st
                | Fail e \<Rightarrow>
                    Some (Failed (Join (Errorf ''failed to skip %q'' [FStr (documentFieldName fieldNumber)]) e), st)
                | Panic \<Rightarrow> Some (Panicked, st))
          else (case readPayload pl (PoolSizes sc)
                       (Errorf ''failed to consume %q data'' [FStr (documentFieldName fieldNumber)]) r1 fieldType of
                  Fail e \<Rightarrow> Some (Failed e, st)
                | Panic \<Rightarrow> Some (Panicked, st)
                | Ok (dataBuf, r2) \<Rightarrow>
                    (case scan_document_field fuel pl sc docPath fieldNumber dataBuf st of
                       None \<Rightarrow> None
                     | Some (Done, st') \<Rightarrow> ScanDocumentReader fuel pl sc docPath r2 st'
                     | Some (s, st') \<Rightarrow> Some (s, st'))))"

text \<open>
  The document case of \<^verbatim>\<open>ScanIndexReader\<close>: find the path, visit the whole document if it matches,
  then scan its symbols and occurrences. \<open>&&\<close> short-circuits, so \<^verbatim>\<open>MatchDocumentPath\<close> runs (with
  its side effects) whether or not \<^verbatim>\<open>VisitDocument\<close> is set.
\<close>

definition scan_index_document ::
  "nat \<Rightarrow> ('doc, 'sym, 'occ) protolib \<Rightarrow> ('doc, 'sym, 'occ, 'st) scanner \<Rightarrow> byte list \<Rightarrow>
   'st \<Rightarrow> (status \<times> 'st) option" where
  "scan_index_document fuel pl sc dataBuf st =
     (case parseDocumentPath fuel pl (PoolSizes sc) dataBuf of
        None \<Rightarrow> None
      | Some Panic \<Rightarrow> Some (Panicked, st)
      | Some (Fail e) \<Rightarrow> Some (Failed (Join (Errorf ''failed to parse document path'' []) e), st)
      | Some (Ok docPath) \<Rightarrow>
          (case (case MatchDocumentPath sc of
                   None \<Rightarrow> (Done, st)
                 | Some m \<Rightarrow>
                     let (matched, st1) = m docPath st
                     in visit_matched matched (VisitDocument sc) (UnmarshalDocument pl dataBuf)
                          (Errorf ''failed to read document'' []) st1) of
             (Done, st2) \<Rightarrow>
               (case ScanDocumentReader fuel pl sc docPath (new_reader dataBuf) st2 of
                  None \<Rightarrow> None
                | Some (Failed e, st3) \<Rightarrow> Some (Failed (Join (Errorf ''failed to scan document'' []) e), st3)
                | Some (s, st3) \<Rightarrow> Some (s, st3))
           | (s, st2) \<Rightarrow> Some (s, st2)))"

fun ScanIndexReader ::
  "nat \<Rightarrow> ('doc, 'sym, 'occ) protolib \<Rightarrow> ('doc, 'sym, 'occ, 'st) scanner \<Rightarrow> reader \<Rightarrow>
   'st \<Rightarrow> (status \<times> 'st) option"
where
  "ScanIndexReader 0 pl sc r st = None"
| "ScanIndexReader (Suc fuel) pl sc r st =
     (case consumeBytesFieldMeta pl r of
        Panic \<Rightarrow> Some (Panicked, st)
      | Fail e \<Rightarrow>
          Some (if e = EOF then Done else Failed (Join (Errorf ''failed to consume field'' []) e), st)
      | Ok (fieldNumber, fieldType, r1) \<Rightarrow>
          if fieldNumber \<noteq> indexDocumentsFieldNumber
          then (case skipField pl (PoolSizes sc) r1 of
                  Ok r2 \<Rightarrow> ScanIndexReader fuel pl sc r2 st
                | Fail e \<Rightarrow>
                    Some (Failed (Join (Errorf ''failed to skip %q'' [FStr (indexFieldName fieldNumber)]) e), st)
                | Panic \<Rightarrow> Some (Panicked, st))
          else (case readPayload pl (PoolSizes sc)
                       (Errorf ''failed to consume %q data'' [FStr (indexFieldName fieldNumber)]) r1 fieldType of
                  Fail e \<Rightarrow> Some (Failed e, st)
                | Panic \<Rightarrow> Some (Panicked, st)
                | Ok (dataBuf, r2) \<Rightarrow>
                    (case scan_index_document fuel pl sc dataBuf st of
                       None \<Rightarrow> None
                     | Some (Done, st') \<Rightarrow> ScanIndexReader fuel pl sc r2 st'
                     | Some (s, st') \<Rightarrow> Some (s, st'))))"

declare parse_field_loop.simps [simp del] ScanDocumentReader.simps [simp del]
  ScanIndexReader.simps [simp del]

end
