(* ===== verification/ScannerSpec.thy ===== *)
theory ScannerSpec
  imports Scanner
begin

text \<open>
  What the scanner promises: on the encoding of a well-formed index it performs exactly the visits
  of a field-level specification, in order. The encoding is the protobuf wire format the source
  cites (\<^verbatim>\<open>https://protobuf.dev/programming-guides/encoding\<close>), restricted to what the scanner
  accepts: one-byte tags and length-delimited fields. The behaviour of the library's
  \<^verbatim>\<open>ConsumeVarint\<close> and \<^verbatim>\<open>ConsumeTag\<close> on such encodings is the hypothesis \<open>wire_spec\<close>.
\<close>

subsection \<open>The wire format\<close>

fun encode_varint :: "nat \<Rightarrow> byte list" where
  "encode_varint n =
     (if n < 128 then [char_of n] else char_of (n mod 128 + 128) # encode_varint (n div 128))"

declare encode_varint.simps [simp del]

definition encode_field :: "nat \<times> byte list \<Rightarrow> byte list" where
  "encode_field f = char_of (8 * fst f + 2) # encode_varint (length (snd f)) @ snd f"

definition encode_fields :: "(nat \<times> byte list) list \<Rightarrow> byte list" where
  "encode_fields fs = concat (map encode_field fs)"

definition varint_spec :: "('doc, 'sym, 'occ) protolib \<Rightarrow> bool" where
  "varint_spec pl \<longleftrightarrow>
     (\<forall>n. n < 2 ^ 64 \<longrightarrow>
        ConsumeVarint pl (encode_varint n) = (word_of_nat n, int (length (encode_varint n))))"

definition tag_spec :: "('doc, 'sym, 'occ) protolib \<Rightarrow> bool" where
  "tag_spec pl \<longleftrightarrow>
     (\<forall>num ty. 1 \<le> num \<longrightarrow> num \<le> 15 \<longrightarrow> ty \<le> 5 \<longrightarrow>
        ConsumeTag pl [char_of (8 * num + ty)] = (int num, int ty, 1))"

definition wire_spec :: "('doc, 'sym, 'occ) protolib \<Rightarrow> bool" where
  "wire_spec pl \<longleftrightarrow> varint_spec pl \<and> tag_spec pl"

text \<open>A field the scanner can read: a one-byte tag, a payload the run-time can allocate.\<close>

definition field_ok :: "nat \<times> byte list \<Rightarrow> bool" where
  "field_ok f \<longleftrightarrow> 1 \<le> fst f \<and> fst f \<le> 15 \<and> int (length (snd f)) \<le> maxAlloc"

lemma encode_field_length: "length bs + 2 \<le> length (encode_field (n, bs))"
  by (simp add: encode_field_def encode_varint.simps [of "length bs"])

lemma encode_fields_simps [simp]:
  "encode_fields [] = []"
  "encode_fields (f # fs) = encode_field f @ encode_fields fs"
  by (simp_all add: encode_fields_def)

lemma encode_varint_length: "n < 128 ^ k \<Longrightarrow> 0 < k \<Longrightarrow> length (encode_varint n) \<le> k"
proof (induction n arbitrary: k rule: encode_varint.induct)
  case (1 n)
  show ?case
  proof (cases "n < 128")
    case True
    with "1.prems" show ?thesis by (simp add: encode_varint.simps [of n])
  next
    case False
    with "1.prems" obtain j where j: "k = Suc j" "0 < j" by (cases k; cases "k - 1") auto
    with "1.prems" have "n div 128 < 128 ^ j" by (simp add: div_less_iff_less_mult mult.commute)
    with "1.IH" False j have "length (encode_varint (n div 128)) \<le> j" by simp
    with False j show ?thesis by (simp add: encode_varint.simps [of n])
  qed
qed

subsection \<open>Readers in the middle of their content\<close>

definition at :: "byte list \<Rightarrow> byte list \<Rightarrow> reader" where
  "at pre rest = \<lparr>content = pre @ rest, offset = int (length pre)\<rparr>"

lemma new_reader_at: "new_reader bs = at [] bs"
  by (simp add: new_reader_def at_def)

lemma Read_at_end [wire_simps]: "Read (at pre []) n = Fail EOF"
  by (simp add: Read_def at_def)

lemma Read_at [wire_simps]:
  "rest \<noteq> [] \<Longrightarrow> Read (at pre rest) n = Ok (take n rest, at (pre @ take n rest) (drop n rest))"
  by (simp add: Read_def at_def)

lemma Seek_at [wire_simps]:
  assumes "length (pre @ bs) < 2 ^ 63"
  shows "Seek (at pre (bs @ rest)) (int (length bs)) = Ok (at (pre @ bs) rest)"
proof -
  have "sint (word_of_int (int (length pre) + int (length bs)) :: 64 word) =
      int (length pre) + int (length bs)"
    using assms by (intro sint64_id) simp_all
  then show ?thesis by (simp add: Seek_def at_def)
qed

lemma get_cap_varint: "\<exists>c. get_cap szs maxVarintBytes = Ok c \<and> 10 \<le> c"
  using find_bucket_Some [of "\<lambda>s. 10 \<le> s" szs]
  by (auto simp: get_cap_def maxVarintBytes_def maxAlloc_def split: option.splits)

lemma readVarint_loop_at:
  "length (encode_varint n) \<le> k \<Longrightarrow>
   readVarint_loop k i (at pre (encode_varint n @ rest)) scratch =
     Ok (scratch @ encode_varint n, at (pre @ encode_varint n) rest)"
proof (induction n arbitrary: k i pre scratch rule: encode_varint.induct)
  case (1 n)
  then obtain j where k: "k = Suc j"
    by (cases k) (auto simp: encode_varint.simps [of n] split: if_splits)
  show ?case
  proof (cases "n < 128")
    case True
    then show ?thesis by (simp add: k encode_varint.simps [of n] wire_simps)
  next
    case False
    with "1.prems" k have "length (encode_varint (n div 128)) \<le> j"
      by (simp add: encode_varint.simps [of n])
    with "1.IH" False show ?thesis by (simp add: k encode_varint.simps [of n] wire_simps)
  qed
qed

lemma readVarint_at:
  assumes "varint_spec pl" and "10 \<le> c" and "n < 2 ^ 64"
  shows "readVarint pl c (at pre (encode_varint n @ rest)) = Ok (word_of_nat n, at (pre @ encode_varint n) rest)"
proof -
  from assms(3) have "n < 128 ^ 10" by simp
  then have "length (encode_varint n) \<le> 10" by (rule encode_varint_length) simp
  with assms(2) have "length (encode_varint n) \<le> nat c" by linarith
  from readVarint_loop_at [OF this] assms show ?thesis
    by (simp add: readVarint_def varint_spec_def)
qed

lemma consumeBytesFieldMeta_end [wire_simps]: "consumeBytesFieldMeta pl (at pre []) = Fail EOF"
  by (simp add: consumeBytesFieldMeta_def wire_simps)

lemma consumeBytesFieldMeta_at [wire_simps]:
  assumes "tag_spec pl" and "1 \<le> num" and "num \<le> 15" and "ty \<le> 5"
  shows "consumeBytesFieldMeta pl (at pre (char_of (8 * num + ty) # rest)) =
    (if ty = 2 then Ok (int num, BytesType, at (pre @ [char_of (8 * num + ty)]) rest)
     else Fail (Errorf ''expected bytes type for field %d'' [FInt (int num)]))"
  using assms by (simp add: consumeBytesFieldMeta_def wire_simps tag_spec_def BytesType_def)

lemma consumeLen_at [wire_simps]:
  assumes "varint_spec pl" and "n < 2 ^ 63"
  shows "consumeLen pl szs (at pre (encode_varint n @ rest)) BytesType =
    Ok (int n, at (pre @ encode_varint n) rest)"
proof -
  obtain c where c: "get_cap szs maxVarintBytes = Ok c" "10 \<le> c" using get_cap_varint by blast
  from assms(2) have "n < 2 ^ 64" by simp
  from readVarint_at [OF assms(1) c(2) this] c(1) assms(2) show ?thesis
    by (simp add: consumeLen_def sint64_of_nat)
qed

lemma skipField_at [wire_simps]:
  assumes "varint_spec pl" and "length (pre @ encode_varint (length bs) @ bs) < 2 ^ 63"
  shows "skipField pl szs (at pre (encode_varint (length bs) @ bs @ rest)) =
    Ok (at (pre @ encode_varint (length bs) @ bs) rest)"
proof -
  obtain c where c: "get_cap szs maxVarintBytes = Ok c" "10 \<le> c" using get_cap_varint by blast
  from assms(2) have n: "length bs < 2 ^ 63" by simp
  then have "length bs < 2 ^ 64" by simp
  from readVarint_at [OF assms(1) c(2) this]
  have "readVarint pl c (at pre (encode_varint (length bs) @ bs @ rest)) =
      Ok (word_of_nat (length bs), at (pre @ encode_varint (length bs)) (bs @ rest))" .
  with c(1) Seek_at [of "pre @ encode_varint (length bs)" bs rest] assms(2) n show ?thesis
    by (simp add: skipField_def sint64_of_nat)
qed

lemma get_cap_ok: "0 \<le> n \<Longrightarrow> n \<le> maxAlloc \<Longrightarrow> \<exists>c. get_cap szs n = Ok c"
  by (auto simp: get_cap_def split: option.splits)

lemma readPayload_at [wire_simps]:
  assumes "varint_spec pl" and "int (length bs) \<le> maxAlloc"
  shows "readPayload pl szs err (at pre (encode_varint (length bs) @ bs @ rest)) BytesType =
    Ok (bs, at (pre @ encode_varint (length bs) @ bs) rest)"
proof -
  from assms(2) have n: "length bs < 2 ^ 63" by (simp add: maxAlloc_def)
  obtain c where c: "get_cap szs (int (length bs)) = Ok c" using get_cap_ok assms(2) by force
  have "consumeFieldData (at p (bs @ rest)) (int (length bs)) = Ok (bs, at (p @ bs) rest)" for p
    by (cases "bs = []") (simp_all add: consumeFieldData_def wire_simps)
  with consumeLen_at [OF assms(1) n, of szs pre "bs @ rest"] c show ?thesis
    by (simp add: readPayload_def)
qed

subsection \<open>One field at a time\<close>

text \<open>\<open>past_tag pre f rest\<close>: the reader after the tag of the field \<open>f\<close>.\<close>

definition past_tag :: "byte list \<Rightarrow> nat \<times> byte list \<Rightarrow> byte list \<Rightarrow> reader" where
  "past_tag pre f rest =
     at (pre @ [char_of (8 * fst f + 2)]) (encode_varint (length (snd f)) @ snd f @ rest)"

lemma meta_field:
  "wire_spec pl \<Longrightarrow> field_ok f \<Longrightarrow>
   consumeBytesFieldMeta pl (at pre (encode_field f @ rest)) =
     Ok (int (fst f), BytesType, past_tag pre f rest)"
  using consumeBytesFieldMeta_at [of pl "fst f" 2 pre "encode_varint (length (snd f)) @ snd f @ rest"]
  by (simp add: wire_spec_def field_ok_def encode_field_def past_tag_def)

lemma skip_field:
  "wire_spec pl \<Longrightarrow> length (pre @ encode_field f) < 2 ^ 63 \<Longrightarrow>
   skipField pl szs (past_tag pre f rest) = Ok (at (pre @ encode_field f) rest)"
  using skipField_at [of pl "pre @ [char_of (8 * fst f + 2)]" "snd f" szs rest]
  by (simp add: wire_spec_def encode_field_def past_tag_def)

lemma payload_field:
  "wire_spec pl \<Longrightarrow> field_ok f \<Longrightarrow>
   readPayload pl szs err (past_tag pre f rest) BytesType = Ok (snd f, at (pre @ encode_field f) rest)"
  using readPayload_at [of pl "snd f" szs err "pre @ [char_of (8 * fst f + 2)]" rest]
  by (simp add: wire_spec_def field_ok_def encode_field_def past_tag_def)

subsection \<open>Finding one field\<close>

text \<open>
  \<open>lookup_field\<close>: the bytes of the first field with the wanted number. It is enough that the
  fields up to the wanted one are well formed, so a message may go on with anything (\<open>tail\<close>).
\<close>

definition lookup_field :: "nat \<Rightarrow> (nat \<times> byte list) list \<Rightarrow> byte list" where
  "lookup_field wanted fs = (case map_of fs wanted of None \<Rightarrow> [] | Some bs \<Rightarrow> bs)"

lemma lookup_field_simps [simp]:
  "lookup_field wanted [] = []"
  "lookup_field wanted (f # fs) = (if fst f = wanted then snd f else lookup_field wanted fs)"
  by (cases f, simp_all add: lookup_field_def)

lemma parse_field_loop_at:
  assumes wire: "wire_spec pl"
  shows "\<forall>f \<in> set fs. field_ok f \<Longrightarrow> wanted \<in> fst ` set fs \<or> tail = [] \<Longrightarrow> length fs < fuel \<Longrightarrow>
    length (pre @ encode_fields fs @ tail) < 2 ^ 63 \<Longrightarrow>
    parse_field_loop fuel pl szs (int wanted) skipErr dataErr (at pre (encode_fields fs @ tail)) =
      Some (Ok (lookup_field wanted fs))"
proof (induction fs arbitrary: fuel pre)
  case Nil
  then show ?case by (cases fuel) (auto simp: parse_field_loop.simps wire_simps)
next
  case (Cons f fs)
  from Cons.prems obtain k where k: "fuel = Suc k" "length fs < k" by (cases fuel) auto
  from Cons.prems(1) have ok: "field_ok f" by simp
  note meta = meta_field [OF wire ok, of pre "encode_fields fs @ tail"]
  show ?case
  proof (cases "fst f = wanted")
    case True
    with payload_field [OF wire ok] show ?thesis
      by (simp add: k(1) meta parse_field_loop.simps)
  next
    case False
    have len: "length ((pre @ encode_field f) @ encode_fields fs @ tail) < 2 ^ 63"
      using Cons.prems(4) by simp
    have "parse_field_loop k pl szs (int wanted) skipErr dataErr
        (at (pre @ encode_field f) (encode_fields fs @ tail)) = Some (Ok (lookup_field wanted fs))"
      using Cons.prems(1,2) False k(2) len by (intro Cons.IH) auto
    with False skip_field [OF wire, of pre f szs "encode_fields fs @ tail"] len show ?thesis
      by (simp add: k(1) meta parse_field_loop.simps)
  qed
qed

subsection \<open>The specification of a scan\<close>

text \<open>
  A document as the scanner sees it: numbered fields, whose payloads are messages given by their
  own leading fields and an arbitrary rest (\<open>Msg\<close>), or opaque bytes (\<open>Raw\<close>).
\<close>

datatype payload = Raw "byte list" | Msg "(nat \<times> byte list) list" "byte list"

fun payload_bytes :: "payload \<Rightarrow> byte list" where
  "payload_bytes (Raw bs) = bs"
| "payload_bytes (Msg fs tail) = encode_fields fs @ tail"

fun moniker :: "nat \<Rightarrow> payload \<Rightarrow> byte list" where
  "moniker wanted (Raw bs) = []"
| "moniker wanted (Msg fs tail) = lookup_field wanted fs"

text \<open>The wanted field is among the leading fields, or the message has none.\<close>

fun moniker_ok :: "nat \<Rightarrow> payload \<Rightarrow> bool" where
  "moniker_ok wanted (Raw bs) = (bs = [])"
| "moniker_ok wanted (Msg fs tail) = (list_all field_ok fs \<and> (wanted \<in> fst ` set fs \<or> tail = []))"

type_synonym document_fields = "(nat \<times> payload) list"

abbreviation raw_field :: "nat \<times> payload \<Rightarrow> nat \<times> byte list" where
  "raw_field f \<equiv> (fst f, payload_bytes (snd f))"

definition document_bytes :: "document_fields \<Rightarrow> byte list" where
  "document_bytes fs = encode_fields (map raw_field fs)"

definition document_path :: "document_fields \<Rightarrow> gostring" where
  "document_path fs = lookup_field 1 (map raw_field fs)"

definition document_field_ok :: "nat \<times> payload \<Rightarrow> bool" where
  "document_field_ok f \<longleftrightarrow> field_ok (raw_field f) \<and>
     (fst f = 3 \<longrightarrow> moniker_ok 1 (snd f)) \<and> (fst f = 2 \<longrightarrow> moniker_ok 2 (snd f))"

definition visit_field ::
  "('doc, 'sym, 'occ) protolib \<Rightarrow> ('doc, 'sym, 'occ, 'st) scanner \<Rightarrow> gostring \<Rightarrow> nat \<times> payload \<Rightarrow> 'st \<Rightarrow>
   status \<times> 'st" where
  "visit_field pl sc path f st =
     (if fst f = 3 then
        (case MatchSymbol sc of
           None \<Rightarrow> (Done, st)
         | Some m \<Rightarrow>
             let (matched, st1) = m (moniker 1 (snd f)) st
             in visit_matched matched (map_option (\<lambda>v. v path) (VisitSymbol sc))
                  (UnmarshalSymbol pl (payload_bytes (snd f)))
                  (Errorf ''failed to read %q'' [FStr ''symbols'']) st1)
      else if fst f = 2 then
        (case MatchOccurrence sc of
           None \<Rightarrow> (Done, st)
         | Some m \<Rightarrow>
             let (matched, st1) = m (moniker 2 (snd f)) st
             in visit_matched matched (map_option (\<lambda>v. v path) (VisitOccurrence sc))
                  (UnmarshalOccurrence pl (payload_bytes (snd f)))
                  (Errorf ''failed to read %q'' [FStr ''occurrences'']) st1)
      else (Done, st))"

text \<open>Visits in order, up to the first that does not succeed.\<close>

fun visit_seq :: "('a \<Rightarrow> 'st \<Rightarrow> status \<times> 'st) \<Rightarrow> 'a list \<Rightarrow> 'st \<Rightarrow> status \<times> 'st" where
  "visit_seq v [] st = (Done, st)"
| "visit_seq v (x # xs) st =
     (case v x st of (Done, st') \<Rightarrow> visit_seq v xs st' | (s, st') \<Rightarrow> (s, st'))"

lemma document_bytes_simps [simp]:
  "document_bytes [] = []"
  "document_bytes (f # fs) = encode_field (raw_field f) @ document_bytes fs"
  by (simp_all add: document_bytes_def)

lemma list_all_length_encode: "length fs \<le> length (encode_fields fs)"
proof (induction fs)
  case (Cons f fs)
  with encode_field_length [of "snd f" "fst f"] show ?case by simp
qed simp

lemma parse_moniker:
  assumes "wire_spec pl" and "moniker_ok wanted p" and "length (payload_bytes p) < fuel"
    and "length (payload_bytes p) < 2 ^ 63"
  shows "parse_field_loop fuel pl szs (int wanted) skipErr dataErr (new_reader (payload_bytes p)) =
    Some (Ok (moniker wanted p))"
proof (cases p)
  case (Raw bs)
  with assms show ?thesis
    using parse_field_loop_at [of pl "[]" wanted "[]" fuel "[]" szs skipErr dataErr]
    by (simp add: new_reader_at)
next
  case (Msg fs tail)
  with assms list_all_length_encode [of fs] show ?thesis
    using parse_field_loop_at [of pl fs wanted tail fuel "[]" szs skipErr dataErr]
    by (simp add: new_reader_at list_all_iff)
qed

lemma scan_document_field_spec:
  assumes "wire_spec pl" and "document_field_ok f" and "shouldParseDocumentField sc (int (fst f))"
    and "length (payload_bytes (snd f)) < fuel" and "length (payload_bytes (snd f)) < 2 ^ 63"
  shows "scan_document_field fuel pl sc path (int (fst f)) (payload_bytes (snd f)) st =
    Some (visit_field pl sc path f st)"
proof -
  note parse = parse_moniker [OF assms(1) _ assms(4,5)]
  note nums = documentSymbolsFieldNumber_def documentOccurrencesFieldNumber_def
    documentRelativePathFieldNumber_def symbolInformationSymbolField_def occurrenceSymbolField_def
  from assms(3) consider (sym) "fst f = 3" "MatchSymbol sc \<noteq> None" | (occ) "fst f = 2" "MatchOccurrence sc \<noteq> None"
    by (auto simp: shouldParseDocumentField_def nums split: if_splits)
  then show ?thesis
  proof cases
    case sym
    with assms(2) have "moniker_ok 1 (snd f)" by (simp add: document_field_ok_def)
    from parse [OF this] sym show ?thesis
      by (auto simp: scan_document_field_def scan_symbol_field_def parseSymbolMoniker_def visit_field_def
          nums documentFieldName_def split: prod.splits)
  next
    case occ
    with assms(2) have "moniker_ok 2 (snd f)" by (simp add: document_field_ok_def)
    from parse [OF this] occ show ?thesis
      by (auto simp: scan_document_field_def scan_occurrence_field_def parseOccurrenceSymbol_def
          visit_field_def nums documentFieldName_def split: prod.splits)
  qed
qed

lemma visit_field_skip:
  "\<not> shouldParseDocumentField sc (int (fst f)) \<Longrightarrow> visit_field pl sc path f st = (Done, st)"
  by (auto simp: visit_field_def shouldParseDocumentField_def documentSymbolsFieldNumber_def
      documentOccurrencesFieldNumber_def)

text \<open>
  The prefix law: after well-formed fields the scan is where the specification is, with the rest
  of the bytes still to scan.
\<close>

lemma ScanDocumentReader_prefix:
  assumes wire: "wire_spec pl"
  shows "list_all document_field_ok fs \<Longrightarrow> length (document_bytes fs @ tail) < fuel \<Longrightarrow>
    length (pre @ document_bytes fs @ tail) < 2 ^ 63 \<Longrightarrow>
    ScanDocumentReader fuel pl sc path (at pre (document_bytes fs @ tail)) st =
      (case visit_seq (visit_field pl sc path) fs st of
         (Done, st') \<Rightarrow>
           ScanDocumentReader (fuel - length fs) pl sc path (at (pre @ document_bytes fs) tail) st'
       | (s, st') \<Rightarrow> Some (s, st'))"
proof (induction fs arbitrary: fuel pre st)
  case Nil
  then show ?case by simp
next
  case (Cons f fs)
  let ?f = "raw_field f"
  have flen: "length (payload_bytes (snd f)) + 2 \<le> length (encode_field ?f)"
    using encode_field_length [of "payload_bytes (snd f)" "fst f"] by simp
  from Cons.prems(2) obtain k where k: "fuel = Suc k" by (cases fuel) auto
  from Cons.prems(1) have fok: "document_field_ok f" and ok: "field_ok ?f"
    by (simp_all add: document_field_ok_def)
  note meta = meta_field [OF wire ok, of pre "document_bytes fs @ tail"]
  have len: "length ((pre @ encode_field ?f) @ document_bytes fs @ tail) < 2 ^ 63"
    using Cons.prems(3) by simp
  have IH: "ScanDocumentReader k pl sc path (at (pre @ encode_field ?f) (document_bytes fs @ tail)) st' =
      (case visit_seq (visit_field pl sc path) fs st' of
         (Done, st'') \<Rightarrow> ScanDocumentReader (k - length fs) pl sc path
             (at (pre @ encode_field ?f @ document_bytes fs) tail) st''
       | (s, st'') \<Rightarrow> Some (s, st''))" for st'
    using Cons.IH [of k "pre @ encode_field ?f" st', unfolded append_assoc] Cons.prems(1,2) flen len k
    by simp
  show ?case
  proof (cases "shouldParseDocumentField sc (int (fst f))")
    case False
    with skip_field [OF wire, of pre ?f "PoolSizes sc" "document_bytes fs @ tail"] len IH [of st]
    show ?thesis
      by (simp add: k meta ScanDocumentReader.simps visit_field_skip split: prod.splits status.splits)
  next
    case True
    have "scan_document_field k pl sc path (int (fst f)) (payload_bytes (snd f)) st =
        Some (visit_field pl sc path f st)"
      using flen Cons.prems(2,3) k by (intro scan_document_field_spec wire fok True) auto
    with True payload_field [OF wire ok] IH show ?thesis
      by (auto simp: k meta ScanDocumentReader.simps split: prod.splits status.splits)
  qed
qed

subsection \<open>Documents\<close>

theorem document_scan_spec:
  assumes "wire_spec pl" and "list_all document_field_ok fs"
    and "length (document_bytes fs) < fuel" and "length (document_bytes fs) < 2 ^ 63"
  shows "ScanDocumentReader fuel pl sc path (new_reader (document_bytes fs)) st =
    Some (visit_seq (visit_field pl sc path) fs st)"
proof -
  have "length fs < fuel"
    using list_all_length_encode [of "map raw_field fs"] assms(3) by (simp add: document_bytes_def)
  then obtain k where k: "fuel - length fs = Suc k" by (metis Suc_diff_Suc)
  from ScanDocumentReader_prefix [OF assms(1,2), of "[]" fuel "[]" sc path st] assms(3,4)
  show ?thesis
    by (simp add: new_reader_at k ScanDocumentReader.simps wire_simps split: prod.splits status.splits)
qed

text \<open>
  A field that is not length-delimited is not skipped: after the fields before it have been
  visited, the scan of the document fails with \<^verbatim>\<open>expected bytes type\<close>, whatever follows. (The
  comment of \<^verbatim>\<open>ScanIndexReader\<close> says that other fields are skipped; a SCIP document carries such a
  field when its position encoding is set.)
\<close>

theorem non_bytes_field_fails:
  assumes "wire_spec pl" and "list_all document_field_ok fs"
    and "visit_seq (visit_field pl sc path) fs st = (Done, st')"
    and "1 \<le> num" and "num \<le> 15" and "ty \<le> 5" and "ty \<noteq> 2"
    and "length (document_bytes fs @ char_of (8 * num + ty) # rest) < fuel"
    and "length (document_bytes fs @ char_of (8 * num + ty) # rest) < 2 ^ 63"
  shows "ScanDocumentReader fuel pl sc path
      (new_reader (document_bytes fs @ char_of (8 * num + ty) # rest)) st =
    Some (Failed (Join (Errorf ''failed to consume field'' [])
      (Errorf ''expected bytes type for field %d'' [FInt (int num)])), st')"
proof -
  have "length fs < fuel"
    using list_all_length_encode [of "map raw_field fs"] assms(8) by (simp add: document_bytes_def)
  then obtain k where k: "fuel - length fs = Suc k" by (metis Suc_diff_Suc)
  have "tag_spec pl" using assms(1) by (simp add: wire_spec_def)
  from consumeBytesFieldMeta_at [OF this assms(4-6), of "document_bytes fs" rest] assms(7)
  have "consumeBytesFieldMeta pl (at (document_bytes fs) (char_of (8 * num + ty) # rest)) =
      Fail (Errorf ''expected bytes type for field %d'' [FInt (int num)])" by simp
  with ScanDocumentReader_prefix [OF assms(1,2), of "char_of (8 * num + ty) # rest" fuel "[]" sc path st]
    assms(3,8,9) k show ?thesis
    by (simp add: new_reader_at ScanDocumentReader.simps)
qed

subsection \<open>Indices\<close>

text \<open>An index: fields with opaque payloads, and documents (field 2).\<close>

datatype index_field = IndexDocument document_fields | IndexOther nat "byte list"

fun index_field_raw :: "index_field \<Rightarrow> nat \<times> byte list" where
  "index_field_raw (IndexDocument fs) = (2, document_bytes fs)"
| "index_field_raw (IndexOther n bs) = (n, bs)"

fun index_field_ok :: "index_field \<Rightarrow> bool" where
  "index_field_ok (IndexDocument fs) =
     (list_all document_field_ok fs \<and> int (length (document_bytes fs)) \<le> maxAlloc)"
| "index_field_ok (IndexOther n bs) = (n \<noteq> 2 \<and> field_ok (n, bs))"

definition index_bytes :: "index_field list \<Rightarrow> byte list" where
  "index_bytes ix = encode_fields (map index_field_raw ix)"

definition visit_document ::
  "('doc, 'sym, 'occ) protolib \<Rightarrow> ('doc, 'sym, 'occ, 'st) scanner \<Rightarrow> document_fields \<Rightarrow> 'st \<Rightarrow> status \<times> 'st"
where
  "visit_document pl sc fs st =
     (case (case MatchDocumentPath sc of
              None \<Rightarrow> (Done, st)
            | Some m \<Rightarrow>
                let (matched, st1) = m (document_path fs) st
                in visit_matched matched (VisitDocument sc) (UnmarshalDocument pl (document_bytes fs))
                     (Errorf ''failed to read document'' []) st1) of
        (Done, st2) \<Rightarrow>
          (case visit_seq (visit_field pl sc (document_path fs)) fs st2 of
             (Failed e, st3) \<Rightarrow> (Failed (Join (Errorf ''failed to scan document'' []) e), st3)
           | (s, st3) \<Rightarrow> (s, st3))
      | (s, st2) \<Rightarrow> (s, st2))"

fun visit_index_field ::
  "('doc, 'sym, 'occ) protolib \<Rightarrow> ('doc, 'sym, 'occ, 'st) scanner \<Rightarrow> index_field \<Rightarrow> 'st \<Rightarrow> status \<times> 'st"
where
  "visit_index_field pl sc (IndexDocument fs) st = visit_document pl sc fs st"
| "visit_index_field pl sc (IndexOther n bs) st = (Done, st)"

abbreviation visit_index ::
  "('doc, 'sym, 'occ) protolib \<Rightarrow> ('doc, 'sym, 'occ, 'st) scanner \<Rightarrow> index_field list \<Rightarrow> 'st \<Rightarrow> status \<times> 'st"
where
  "visit_index pl sc \<equiv> visit_seq (visit_index_field pl sc)"

lemma index_bytes_simps [simp]:
  "index_bytes [] = []"
  "index_bytes (f # ix) = encode_field (index_field_raw f) @ index_bytes ix"
  by (simp_all add: index_bytes_def)

lemma scan_index_document_spec:
  assumes "wire_spec pl" and "list_all document_field_ok fs"
    and "length (document_bytes fs) < fuel" and "length (document_bytes fs) < 2 ^ 63"
  shows "scan_index_document fuel pl sc (document_bytes fs) st = Some (visit_document pl sc fs st)"
proof -
  have "list_all field_ok (map raw_field fs)"
    using assms(2) by (simp add: list_all_iff document_field_ok_def)
  moreover have "length (map raw_field fs) < fuel"
    using list_all_length_encode [of "map raw_field fs"] assms(3) by (simp add: document_bytes_def)
  ultimately have path: "parseDocumentPath fuel pl (PoolSizes sc) (document_bytes fs) =
      Some (Ok (document_path fs))"
    using assms(1,4) parse_field_loop_at [of pl "map raw_field fs" 1 "[]" fuel "[]"]
    by (simp add: parseDocumentPath_def documentRelativePathFieldNumber_def document_path_def
        document_bytes_def new_reader_at list_all_iff)
  show ?thesis
    unfolding scan_index_document_def visit_document_def path
    by (auto simp: document_scan_spec [OF assms] split: option.splits prod.splits status.splits)
qed

lemma index_scan_at:
  assumes wire: "wire_spec pl"
    and "list_all index_field_ok ix" and "length (index_bytes ix) < fuel" and "length (index_bytes ix) < 2 ^ 63"
  shows "ScanIndexReader fuel pl sc (new_reader (index_bytes ix)) st = Some (visit_index pl sc ix st)"
proof -
  have "ScanIndexReader fuel pl sc (at pre (index_bytes ix)) st = Some (visit_index pl sc ix st)"
    if "list_all index_field_ok ix" "length (index_bytes ix) < fuel"
      "length (pre @ index_bytes ix) < 2 ^ 63" for pre
    using that
  proof (induction ix arbitrary: fuel pre st)
    case Nil
    then show ?case by (cases fuel) (auto simp: ScanIndexReader.simps wire_simps)
  next
    case (Cons f ix)
    let ?f = "index_field_raw f"
    have flen: "length (snd ?f) + 2 \<le> length (encode_field ?f)"
      using encode_field_length [of "snd ?f" "fst ?f"] by simp
    from Cons.prems(2) obtain k where k: "fuel = Suc k" by (cases fuel) auto
    from Cons.prems(1) have ok: "field_ok ?f" by (cases f) (simp_all add: field_ok_def)
    note meta = meta_field [OF wire ok, of pre "index_bytes ix"]
    have len: "length ((pre @ encode_field ?f) @ index_bytes ix) < 2 ^ 63"
      using Cons.prems(3) by simp
    have IH: "ScanIndexReader k pl sc (at (pre @ encode_field ?f) (index_bytes ix)) st' =
        Some (visit_index pl sc ix st')" for st'
      using Cons.prems(1,2) flen len k by (intro Cons.IH) simp_all
    show ?case
    proof (cases f)
      case (IndexOther n bs)
      with Cons.prems(1) have "n \<noteq> 2" by simp
      with skip_field [OF wire, of pre ?f "PoolSizes sc" "index_bytes ix"] len IH [of st] IndexOther
      show ?thesis
        by (simp add: k meta [unfolded IndexOther index_field_raw.simps] ScanIndexReader.simps
            indexDocumentsFieldNumber_def)
    next
      case (IndexDocument fs)
      have "scan_index_document k pl sc (document_bytes fs) st = Some (visit_document pl sc fs st)"
        using Cons.prems flen k IndexDocument by (intro scan_index_document_spec wire) auto
      with payload_field [OF wire ok] IH IndexDocument show ?thesis
        by (auto simp: k meta [unfolded IndexDocument index_field_raw.simps] ScanIndexReader.simps
            indexDocumentsFieldNumber_def split: prod.splits status.splits)
    qed
  qed
  from this [of "[]"] assms show ?thesis by (simp add: new_reader_at)
qed

text \<open>
  C1. \<^verbatim>\<open>ScanIndexReader\<close> is correct: on the bytes of a well-formed index, with any callbacks, the
  scan ends and has made exactly the callback calls of the field-level specification
  \<open>visit_index\<close>, in the order of the fields, with the state they produce and the same error if a
  visited message does not decode.
\<close>

theorem index_scan_spec:
  assumes "wire_spec pl"
    and "list_all index_field_ok ix" and "length (index_bytes ix) < fuel" and "length (index_bytes ix) < 2 ^ 63"
  shows "ScanIndexReader fuel pl sc (new_reader (index_bytes ix)) st = Some (visit_index pl sc ix st)"
  by (rule index_scan_at [OF assms])

end
