(* ===== verification/ScannerRobust.thy ===== *)
theory ScannerRobust
  imports ScannerSpec
begin

text \<open>
  The scanner on arbitrary bytes: when its loops end, and the inputs on which they do not. Also a
  concrete instance of the library's wire-format functions, which shows that the hypothesis
  \<open>wire_spec\<close> can be met and on which the witnesses run.
\<close>

subsection \<open>A concrete decoder\<close>

fun decode_varint :: "byte list \<Rightarrow> (nat \<times> nat) option" where
  "decode_varint [] = None"
| "decode_varint (b # bs) =
     (if byte_val b < 128 then Some (byte_val b, 1)
      else map_option (\<lambda>(v, n). (byte_val b - 128 + 128 * v, Suc n)) (decode_varint bs))"

definition decode_lib ::
  "(byte list \<Rightarrow> 'doc outcome) \<Rightarrow> (byte list \<Rightarrow> 'sym outcome) \<Rightarrow> (byte list \<Rightarrow> 'occ outcome) \<Rightarrow>
   ('doc, 'sym, 'occ) protolib" where
  "decode_lib ud us uo =
     \<lparr>ConsumeVarint = (\<lambda>bs. case decode_varint bs of
         None \<Rightarrow> (0, -1)
       | Some (v, n) \<Rightarrow> if v < 2 ^ 64 then (word_of_nat v, int n) else (0, -3)),
      ConsumeTag = (\<lambda>bs. case bs of
         [] \<Rightarrow> (0, 0, -1)
       | b # _ \<Rightarrow> if 128 \<le> byte_val b then (0, 0, -1)
           else if byte_val b div 8 = 0 then (0, 0, -2)
           else (int (byte_val b div 8), int (byte_val b mod 8), 1)),
      UnmarshalDocument = ud, UnmarshalSymbol = us, UnmarshalOccurrence = uo\<rparr>"

lemma decode_encode_varint: "decode_varint (encode_varint n) = Some (n, length (encode_varint n))"
proof (induction n rule: encode_varint.induct)
  case (1 n)
  show ?case
  proof (cases "n < 128")
    case True
    then show ?thesis by (simp add: encode_varint.simps [of n])
  next
    case False
    with "1.IH" show ?thesis by (simp add: encode_varint.simps [of n])
  qed
qed

lemma wire_spec_decode_lib: "wire_spec (decode_lib ud us uo)"
proof -
  have "varint_spec (decode_lib ud us uo)"
    by (simp add: varint_spec_def decode_lib_def decode_encode_varint)
  moreover have "tag_spec (decode_lib ud us uo)"
    by (auto simp: tag_spec_def decode_lib_def)
  ultimately show ?thesis by (simp add: wire_spec_def)
qed

subsection \<open>Every step moves the reader forward\<close>

text \<open>No run of bytes of the input decodes to a length with the top bit set.\<close>

definition no_backward_skip :: "('doc, 'sym, 'occ) protolib \<Rightarrow> byte list \<Rightarrow> bool" where
  "no_backward_skip pl bs \<longleftrightarrow>
     (\<forall>i k. case ConsumeVarint pl (take k (drop i bs)) of (v, n) \<Rightarrow> 0 \<le> n \<longrightarrow> 0 \<le> sint v)"

definition remaining :: "reader \<Rightarrow> nat" where
  "remaining r = nat (int (length (content r)) - offset r)"

text \<open>\<open>advanced r r'\<close>: the same content, read on from a valid position.\<close>

definition advanced :: "reader \<Rightarrow> reader \<Rightarrow> bool" where
  "advanced r r' \<longleftrightarrow> content r' = content r \<and> 0 \<le> offset r \<and> offset r \<le> offset r'"

definition in_range :: "reader \<Rightarrow> bool" where
  "in_range r \<longleftrightarrow> 0 \<le> offset r \<and> offset r \<le> int (length (content r))"

lemma advanced_refl: "0 \<le> offset r \<Longrightarrow> advanced r r"
  by (simp add: advanced_def)

lemma advanced_trans: "advanced r r' \<Longrightarrow> advanced r' r'' \<Longrightarrow> advanced r r''"
  by (auto simp: advanced_def)

lemma advanced_remaining: "advanced r r' \<Longrightarrow> remaining r' \<le> remaining r"
  by (auto simp: advanced_def remaining_def)

lemma no_backward_sub: "no_backward_skip pl bs \<Longrightarrow> no_backward_skip pl (take k (drop i bs))"
  unfolding no_backward_skip_def by (simp add: drop_take take_take min.commute)

lemma Read_advanced:
  assumes "Read r n = Ok (bs, r')" and "0 \<le> offset r"
  shows "advanced r r' \<and> bs = take n (drop (nat (offset r)) (content r)) \<and>
    offset r' = offset r + int (length bs) \<and> offset r < int (length (content r))"
  using assms by (auto simp: Read_def advanced_def Let_def split: if_splits)

lemma Read_in_range: "Read r n = Ok (bs, r') \<Longrightarrow> 0 \<le> offset r \<Longrightarrow> in_range r'"
  by (auto simp: Read_def in_range_def Let_def split: if_splits)

lemma Read_one:
  assumes "Read r 1 = Ok (bs, r')" and "0 \<le> offset r"
  obtains b where "bs = [b]" and "advanced r r'" and "offset r' = offset r + 1" and "in_range r'"
    and "drop (nat (offset r)) (content r) = b # drop (nat (offset r')) (content r')"
proof -
  from Read_advanced [OF assms] have adv: "advanced r r'" "content r' = content r"
    "bs = take 1 (drop (nat (offset r)) (content r))" "offset r' = offset r + int (length bs)"
    "nat (offset r) < length (content r)"
    using assms(2) by (auto simp: advanced_def)
  from Cons_nth_drop_Suc [OF adv(5)] obtain b rest
    where d: "drop (nat (offset r)) (content r) = b # rest" "rest = drop (Suc (nat (offset r))) (content r)"
    by metis
  with adv have "bs = [b]" "offset r' = offset r + 1" by simp_all
  then have "Suc (nat (offset r)) = nat (offset r')" using assms(2) by simp
  with d adv(2) have "drop (nat (offset r)) (content r) = b # drop (nat (offset r')) (content r')"
    by metis
  with \<open>bs = [b]\<close> \<open>offset r' = offset r + 1\<close> adv(1) Read_in_range [OF assms]
  show ?thesis by (intro that)
qed

lemma readVarint_loop_advanced:
  "readVarint_loop k i r scratch = Ok (buf, r') \<Longrightarrow> 0 \<le> offset r \<Longrightarrow>
   advanced r r' \<and> (\<exists>m. buf = scratch @ take m (drop (nat (offset r)) (content r))) \<and>
   (in_range r \<longrightarrow> in_range r')"
proof (induction k arbitrary: i r scratch)
  case 0
  then show ?case by (auto simp: advanced_refl intro: exI [of _ 0])
next
  case (Suc k)
  from Suc.prems(1) obtain bs r1 where read: "Read r 1 = Ok (bs, r1)"
    by (auto split: outcome.splits)
  from Read_one [OF read Suc.prems(2)] obtain b where b: "bs = [b]" "advanced r r1"
    "offset r1 = offset r + 1" "in_range r1"
    "drop (nat (offset r)) (content r) = b # drop (nat (offset r1)) (content r1)" .
  show ?case
  proof (cases "byte_val b \<le> 127")
    case True
    with Suc.prems(1) read b have "buf = scratch @ [b]" "r' = r1" by auto
    with b show ?thesis by (auto intro: exI [of _ 1])
  next
    case False
    with Suc.prems(1) read b have loop: "readVarint_loop k (Suc i) r1 (scratch @ [b]) = Ok (buf, r')" by simp
    have "0 \<le> offset r1" using b(3) Suc.prems(2) by simp
    from Suc.IH [OF loop this] b(4) obtain m where m: "advanced r1 r'" "in_range r'"
      "buf = (scratch @ [b]) @ take m (drop (nat (offset r1)) (content r1))" by auto
    with b show ?thesis by (auto intro: advanced_trans exI [of _ "Suc m"])
  qed
qed

lemma readVarint_advanced:
  assumes "readVarint pl c r = Ok (v, r')" and "0 \<le> offset r" and "no_backward_skip pl (content r)"
  shows "advanced r r' \<and> 0 \<le> sint v \<and> (in_range r \<longrightarrow> in_range r')"
proof -
  from assms(1) obtain buf r1 where loop: "readVarint_loop (nat c) 0 r [] = Ok (buf, r1)"
    and dec: "(let (v, n) = ConsumeVarint pl buf in if n < 0 then Fail (ParseError n) else Ok (v, r1)) = Ok (v, r')"
    by (auto simp: readVarint_def obind_Ok_iff)
  obtain w n where "ConsumeVarint pl buf = (w, n)" by fastforce
  with dec have cv: "ConsumeVarint pl buf = (v, n)" "0 \<le> n" and r1: "r1 = r'"
    by (auto split: if_splits)
  from readVarint_loop_advanced [OF loop assms(2)] r1 obtain m
    where "advanced r r'" "buf = take m (drop (nat (offset r)) (content r))" "in_range r \<longrightarrow> in_range r'"
    by auto
  with assms(3) cv show ?thesis by (auto simp: no_backward_skip_def split: prod.splits)
qed

lemma Seek_advanced:
  assumes "Seek r n = Ok r'" and "0 \<le> n" and "n < 2 ^ 63" and "0 \<le> offset r" and "offset r < 2 ^ 63"
  shows "advanced r r'"
proof -
  have "sint (word_of_int (offset r + n) :: 64 word) =
      (if offset r + n < 2 ^ 63 then offset r + n else offset r + n - 2 ^ 64)"
    using assms by (intro sint64_wrap) simp_all
  with assms show ?thesis
    unfolding Seek_def Let_def advanced_def by (auto simp del: of_int_add split: if_splits)
qed

lemma sint64_less: "sint (w :: 64 word) < 2 ^ 63"
  using sint_lt [of w] by simp

lemma meta_advanced:
  assumes "consumeBytesFieldMeta pl r = Ok (num, ty, r')" and "0 \<le> offset r"
  shows "advanced r r' \<and> in_range r' \<and> remaining r' < remaining r"
proof -
  from assms(1) obtain bs where read: "Read r 1 = Ok (bs, r')"
    by (auto simp: consumeBytesFieldMeta_def split: outcome.splits if_splits prod.splits)
  from Read_one [OF read assms(2)] obtain b where b: "advanced r r'" "offset r' = offset r + 1" "in_range r'" .
  then have "remaining r' < remaining r" by (auto simp: remaining_def in_range_def advanced_def)
  with b show ?thesis by simp
qed

lemma skipField_advanced:
  assumes "skipField pl szs r = Ok r'" and "in_range r" and "no_backward_skip pl (content r)"
    and "length (content r) < 2 ^ 63"
  shows "advanced r r'"
proof -
  from assms(1) obtain c v r1 where rd: "readVarint pl c r = Ok (v, r1)" and sk: "Seek r1 (sint v) = Ok r'"
    by (auto simp: skipField_def obind_Ok_iff)
  have "0 \<le> offset r" using assms(2) by (simp add: in_range_def)
  from readVarint_advanced [OF rd this assms(3)] assms(2)
  have adv: "advanced r r1" "0 \<le> sint v" "in_range r1" by auto
  then have "0 \<le> offset r1" "offset r1 < 2 ^ 63" using assms(4) by (auto simp: advanced_def in_range_def)
  from Seek_advanced [OF sk adv(2) sint64_less this] adv(1) show ?thesis by (rule advanced_trans [rotated])
qed

lemma readPayload_advanced:
  assumes "readPayload pl szs err r ty = Ok (bs, r')" and "in_range r"
    and "no_backward_skip pl (content r)"
  shows "advanced r r' \<and> no_backward_skip pl bs \<and> length bs \<le> remaining r"
proof -
  from assms(1) obtain v r1 where len: "consumeLen pl szs r ty = Ok (v, r1)"
    and dat: "consumeFieldData r1 v = Ok (bs, r')"
    by (auto simp: readPayload_def obind_Ok_iff)
  from len obtain c w where rd: "readVarint pl c r = Ok (w, r1)"
    by (auto simp: consumeLen_def obind_Ok_iff split: if_splits)
  have "0 \<le> offset r" using assms(2) by (simp add: in_range_def)
  from readVarint_advanced [OF rd this assms(3)] assms(2) have adv: "advanced r r1" by auto
  then have pos: "0 \<le> offset r1" by (auto simp: advanced_def)
  show ?thesis
  proof (cases "v > 0")
    case False
    with dat have "bs = []" "r' = r1" by (auto simp: consumeFieldData_def)
    with adv no_backward_sub [OF assms(3), of 0 0] show ?thesis by simp
  next
    case True
    with dat have read: "Read r1 (nat v) = Ok (bs, r')"
      by (auto simp: consumeFieldData_def obind_Ok_iff split: if_splits)
    from Read_advanced [OF read pos] have r1: "advanced r1 r'"
      and bs: "bs = take (nat v) (drop (nat (offset r1)) (content r))"
      using adv by (auto simp: advanced_def)
    have "length bs \<le> remaining r1" using pos adv by (simp add: bs remaining_def advanced_def)
    with r1 adv advanced_remaining [OF adv] show ?thesis
      using no_backward_sub [OF assms(3)] by (auto simp: bs intro: advanced_trans)
  qed
qed

subsection \<open>The loops end\<close>

text \<open>What the loops need of their reader: a valid position in a content without backward skips.\<close>

definition scannable :: "('doc, 'sym, 'occ) protolib \<Rightarrow> reader \<Rightarrow> bool" where
  "scannable pl r \<longleftrightarrow> 0 \<le> offset r \<and> no_backward_skip pl (content r) \<and> length (content r) < 2 ^ 63"

lemma scannable_new: "no_backward_skip pl bs \<Longrightarrow> length bs < 2 ^ 63 \<Longrightarrow> scannable pl (new_reader bs)"
  by (simp add: scannable_def new_reader_def)

lemma scannable_advanced: "scannable pl r \<Longrightarrow> advanced r r' \<Longrightarrow> scannable pl r'"
  by (auto simp: scannable_def advanced_def)

lemma scannable_meta:
  assumes "scannable pl r" and "consumeBytesFieldMeta pl r = Ok (num, ty, r1)"
  shows "scannable pl r1 \<and> in_range r1 \<and> remaining r1 < remaining r"
  using meta_advanced [OF assms(2)] assms(1) scannable_advanced by (auto simp: scannable_def)

lemma scannable_skip:
  assumes "scannable pl r" and "in_range r" and "skipField pl szs r = Ok r'"
  shows "scannable pl r' \<and> remaining r' \<le> remaining r"
  using skipField_advanced [OF assms(3,2)] assms(1) scannable_advanced advanced_remaining
  by (metis scannable_def)

lemma scannable_payload:
  assumes "scannable pl r" and "in_range r" and "readPayload pl szs err r ty = Ok (bs, r')"
  shows "scannable pl r' \<and> remaining r' \<le> remaining r \<and> length bs \<le> remaining r \<and>
    scannable pl (new_reader bs)"
proof -
  have nb: "no_backward_skip pl (content r)" and len: "length (content r) < 2 ^ 63"
    using assms(1) by (simp_all add: scannable_def)
  from readPayload_advanced [OF assms(3,2) nb]
  have r': "advanced r r'" "no_backward_skip pl bs" "length bs \<le> remaining r" by auto
  moreover have "length bs < 2 ^ 63" using r'(3) len assms(2) by (auto simp: remaining_def in_range_def)
  ultimately show ?thesis
    using assms(1) by (auto simp: scannable_new dest: scannable_advanced advanced_remaining)
qed

lemma remaining_new [simp]: "remaining (new_reader bs) = length bs"
  by (simp add: remaining_def new_reader_def)

lemma parse_field_loop_ends:
  "scannable pl r \<Longrightarrow> remaining r < fuel \<Longrightarrow> parse_field_loop fuel pl szs wanted skipErr dataErr r \<noteq> None"
proof (induction fuel arbitrary: r)
  case (Suc fuel)
  have "parse_field_loop fuel pl szs wanted skipErr dataErr r2 \<noteq> None"
    if "consumeBytesFieldMeta pl r = Ok (num, ty, r1)" "skipField pl szs r1 = Ok r2" for num ty r1 r2
    using scannable_meta [OF Suc.prems(1) that(1)] scannable_skip [OF _ _ that(2)] Suc.prems(2)
    by (intro Suc.IH) auto
  then show ?case
    by (auto simp: parse_field_loop.simps split: outcome.splits prod.splits)
qed simp

lemma scan_document_field_ends:
  "scannable pl (new_reader bs) \<Longrightarrow> length bs < fuel \<Longrightarrow> scan_document_field fuel pl sc path num bs st \<noteq> None"
  using parse_field_loop_ends [of pl "new_reader bs" fuel]
  by (auto simp: scan_document_field_def scan_symbol_field_def scan_occurrence_field_def
      parseSymbolMoniker_def parseOccurrenceSymbol_def simp del: not_None_eq split: option.splits outcome.splits prod.splits)

lemma ScanDocumentReader_ends:
  "scannable pl r \<Longrightarrow> remaining r < fuel \<Longrightarrow> ScanDocumentReader fuel pl sc path r st \<noteq> None"
proof (induction fuel arbitrary: r st)
  case (Suc fuel)
  have skip: "ScanDocumentReader fuel pl sc path r2 st \<noteq> None"
    if "consumeBytesFieldMeta pl r = Ok (num, ty, r1)" "skipField pl (PoolSizes sc) r1 = Ok r2" for num ty r1 r2
    using scannable_meta [OF Suc.prems(1) that(1)] scannable_skip [OF _ _ that(2)] Suc.prems(2)
    by (intro Suc.IH) auto
  have pay: "scan_document_field fuel pl sc path num bs st \<noteq> None \<and>
      ScanDocumentReader fuel pl sc path r2 st' \<noteq> None"
    if "consumeBytesFieldMeta pl r = Ok (num, ty, r1)" "readPayload pl (PoolSizes sc) err r1 ty = Ok (bs, r2)"
    for num ty r1 r2 err bs st'
    using scannable_meta [OF Suc.prems(1) that(1)] scannable_payload [OF _ _ that(2)] Suc.prems(2)
    by (intro conjI Suc.IH scan_document_field_ends) auto
  show ?case
  proof (cases "consumeBytesFieldMeta pl r")
    case (Ok m)
    then obtain num ty r1 where m: "consumeBytesFieldMeta pl r = Ok (num, ty, r1)" by (cases m) auto
    show ?thesis
      using skip [OF m] pay [OF m]
      by (auto simp: ScanDocumentReader.simps m simp del: not_None_eq
          split: outcome.split option.split status.split)
  qed (simp_all add: ScanDocumentReader.simps)
qed (simp add: ScanDocumentReader.simps)

lemma scan_index_document_ends:
  "scannable pl (new_reader bs) \<Longrightarrow> length bs < fuel \<Longrightarrow> scan_index_document fuel pl sc bs st \<noteq> None"
  using parse_field_loop_ends [of pl "new_reader bs" fuel] ScanDocumentReader_ends [of pl "new_reader bs" fuel sc]
  by (auto simp: scan_index_document_def parseDocumentPath_def simp del: not_None_eq
      split: option.splits outcome.splits prod.splits status.splits)

lemma ScanIndexReader_ends:
  "scannable pl r \<Longrightarrow> remaining r < fuel \<Longrightarrow> ScanIndexReader fuel pl sc r st \<noteq> None"
proof (induction fuel arbitrary: r st)
  case (Suc fuel)
  have skip: "ScanIndexReader fuel pl sc r2 st \<noteq> None"
    if "consumeBytesFieldMeta pl r = Ok (num, ty, r1)" "skipField pl (PoolSizes sc) r1 = Ok r2" for num ty r1 r2
    using scannable_meta [OF Suc.prems(1) that(1)] scannable_skip [OF _ _ that(2)] Suc.prems(2)
    by (intro Suc.IH) auto
  have pay: "scan_index_document fuel pl sc bs st \<noteq> None \<and> ScanIndexReader fuel pl sc r2 st' \<noteq> None"
    if "consumeBytesFieldMeta pl r = Ok (num, ty, r1)" "readPayload pl (PoolSizes sc) err r1 ty = Ok (bs, r2)"
    for num ty r1 r2 err bs st'
    using scannable_meta [OF Suc.prems(1) that(1)] scannable_payload [OF _ _ that(2)] Suc.prems(2)
    by (intro conjI Suc.IH scan_index_document_ends) auto
  show ?case
  proof (cases "consumeBytesFieldMeta pl r")
    case (Ok m)
    then obtain num ty r1 where m: "consumeBytesFieldMeta pl r = Ok (num, ty, r1)" by (cases m) auto
    show ?thesis
      using skip [OF m] pay [OF m]
      by (auto simp: ScanIndexReader.simps m simp del: not_None_eq
          split: outcome.split option.split status.split)
  qed (simp_all add: ScanIndexReader.simps)
qed (simp add: ScanIndexReader.simps)

text \<open>
  C2. \<^verbatim>\<open>ScanIndexReader\<close> ends on every input, well formed or not, that has no run of bytes decoding
  to a length of \<open>2 ^ 63\<close> or more: each iteration consumes at least a tag, so as many iterations as
  there are bytes suffice, for the inner loops too.
\<close>

theorem scan_terminates:
  assumes "no_backward_skip pl bs" and "length bs < 2 ^ 63"
  shows "\<exists>res. ScanIndexReader (Suc (length bs)) pl sc (new_reader bs) st = Some res"
  using ScanIndexReader_ends [OF scannable_new [OF assms], of "Suc (length bs)" sc st] by simp

text \<open>
  C38. Without that condition it need not end: a skipped field whose length is \<open>2 ^ 64 - 11\<close> moves
  the reader back to its own tag, and no amount of fuel ends the scan.
\<close>

theorem backward_skip_loops:
  assumes "wire_spec pl"
  shows "ScanIndexReader fuel pl sc (new_reader (char_of (10 :: nat) # encode_varint (2 ^ 64 - 11))) st = None"
proof (induction fuel)
  case (Suc fuel)
  let ?v = "encode_varint (2 ^ 64 - 11)"
  let ?tag = "char_of (10 :: nat) :: byte"
  have len: "length (encode_varint 18446744073709551605) = 10" by (simp add: encode_varint.simps)
  obtain c where c: "get_cap (PoolSizes sc) maxVarintBytes = Ok c" "10 \<le> c" using get_cap_varint by blast
  have specs: "varint_spec pl" "tag_spec pl" using assms by (simp_all add: wire_spec_def)
  have meta: "consumeBytesFieldMeta pl (new_reader (?tag # ?v)) = Ok (1, BytesType, at [?tag] ?v)"
    using consumeBytesFieldMeta_at [OF specs(2), of 1 2 "[]" ?v] by (simp add: new_reader_at)
  have "sint (of_nat (2 ^ 64 - 11) :: 64 word) = -11" by simp
  moreover have "Seek (at (?tag # ?v) []) (-11) = Ok (new_reader (?tag # ?v))"
    by (simp add: Seek_def at_def new_reader_def len)
  ultimately have "skipField pl (PoolSizes sc) (at [?tag] ?v) = Ok (new_reader (?tag # ?v))"
    using readVarint_at [OF specs(1) c(2), of "2 ^ 64 - 11" "[?tag]" "[]"] c(1)
    by (simp add: skipField_def)
  with meta Suc.IH show ?case by (simp add: ScanIndexReader.simps indexDocumentsFieldNumber_def)
qed (simp add: ScanIndexReader.simps)

text \<open>
  A document field whose length has the top bit set makes the scan panic: the length becomes a
  negative \<^verbatim>\<open>int\<close> and \<^verbatim>\<open>Pool.Get\<close> slices with it.
\<close>

theorem negative_length_panics:
  assumes "wire_spec pl" and "2 ^ 63 \<le> n" and "n < 2 ^ 64"
  shows "ScanIndexReader (Suc fuel) pl sc (new_reader (char_of (18 :: nat) # encode_varint n @ rest)) st =
    Some (Panicked, st)"
proof -
  let ?tag = "char_of (18 :: nat) :: byte"
  obtain c where c: "get_cap (PoolSizes sc) maxVarintBytes = Ok c" "10 \<le> c" using get_cap_varint by blast
  have specs: "varint_spec pl" "tag_spec pl" using assms by (simp_all add: wire_spec_def)
  have meta: "consumeBytesFieldMeta pl (new_reader (?tag # encode_varint n @ rest)) =
      Ok (2, BytesType, at [?tag] (encode_varint n @ rest))"
    using consumeBytesFieldMeta_at [OF specs(2), of 2 2 "[]" "encode_varint n @ rest"]
    by (simp add: new_reader_at)
  have "sint (word_of_nat n :: 64 word) = int n - 2 ^ 64"
    using sint64_wrap [of "int n"] assms(2,3) by simp
  then have neg: "sint (word_of_nat n :: 64 word) < 0" using assms(3) by simp
  then have "get_cap (PoolSizes sc) (sint (word_of_nat n :: 64 word)) = Panic"
    by (auto simp: get_cap_def split: option.splits)
  then have "readPayload pl (PoolSizes sc) err (at [?tag] (encode_varint n @ rest)) BytesType = Panic" for err
    using readVarint_at [OF specs(1) c(2) assms(3), of "[?tag]" rest] c(1)
    by (simp add: readPayload_def consumeLen_def)
  with meta show ?thesis by (simp add: ScanIndexReader.simps indexDocumentsFieldNumber_def)
qed


subsection \<open>Witnesses\<close>

text \<open>
  A scanner that records the paths and monikers it is asked about, over the concrete decoder; the
  index has metadata and one document with a path and two symbols.
\<close>

definition raw_lib :: "(byte list, byte list, byte list) protolib" where
  "raw_lib = decode_lib Ok Ok Ok"

definition log_scanner :: "(byte list, byte list, byte list, gostring list) scanner" where
  "log_scanner =
     \<lparr>MatchDocumentPath = Some (\<lambda>p st. (False, st @ [p])),
      MatchSymbol = Some (\<lambda>m st. (m = ''b'', st @ [m])), MatchOccurrence = None,
      VisitDocument = None, VisitSymbol = Some (\<lambda>p s st. (Done, st @ [p @ s])), VisitOccurrence = None,
      PoolSizes = [16]\<rparr>"

definition sample_document :: document_fields where
  "sample_document = [(3, Msg [(1, ''a'')] []), (1, Raw ''d''), (3, Msg [(1, ''b'')] ''x'')]"

lemma wire_spec_raw_lib: "wire_spec raw_lib"
  by (simp add: raw_lib_def wire_spec_decode_lib)

lemma sample_document_ok: "list_all document_field_ok sample_document"
  by (simp add: sample_document_def document_field_ok_def field_ok_def encode_field_def
      encode_varint.simps maxAlloc_def)

lemma sample_document_length: "length (document_bytes sample_document) = 14"
  by (simp add: sample_document_def encode_field_def encode_varint.simps)

theorem index_scan_spec_witness:
  "ScanIndexReader 30 raw_lib log_scanner
     (new_reader (index_bytes [IndexOther 1 ''m'', IndexDocument sample_document])) [] =
   Some (Done, [''d'', ''a'', ''b'', ''d'' @ encode_field (1, ''b'') @ ''x''])"
proof -
  have "list_all index_field_ok [IndexOther 1 ''m'', IndexDocument sample_document]"
    by (simp add: sample_document_ok sample_document_length field_ok_def maxAlloc_def)
  moreover have len: "length (index_bytes [IndexOther 1 ''m'', IndexDocument sample_document]) = 19"
    by (simp add: encode_field_def sample_document_length encode_varint.simps)
  ultimately have "ScanIndexReader 30 raw_lib log_scanner
      (new_reader (index_bytes [IndexOther 1 ''m'', IndexDocument sample_document])) [] =
    Some (visit_index raw_lib log_scanner [IndexOther 1 ''m'', IndexDocument sample_document] [])"
    by (intro index_scan_spec wire_spec_raw_lib) simp_all
  then show ?thesis
    by (simp add: visit_document_def sample_document_def log_scanner_def visit_field_def document_path_def
        visit_matched_def raw_lib_def decode_lib_def)
qed

theorem non_bytes_field_fails_witness:
  "ScanDocumentReader 30 raw_lib log_scanner ''d''
     (new_reader (document_bytes sample_document @ char_of (8 * 6 + 0 :: nat) # ''x'')) [] =
   Some (Failed (Join (Errorf ''failed to consume field'' [])
      (Errorf ''expected bytes type for field %d'' [FInt 6])),
     [''a'', ''b'', ''d'' @ encode_field (1, ''b'') @ ''x''])"
proof -
  have "visit_seq (visit_field raw_lib log_scanner ''d'') sample_document [] =
      (Done, [''a'', ''b'', ''d'' @ encode_field (1, ''b'') @ ''x''])"
    by (simp add: sample_document_def log_scanner_def visit_field_def visit_matched_def raw_lib_def
        decode_lib_def)
  from non_bytes_field_fails [OF wire_spec_raw_lib sample_document_ok this, of 6 0 "''x''" 30]
  show ?thesis by (simp add: sample_document_length)
qed

lemma no_backward_short: "no_backward_skip raw_lib [CHR ''a'']"
proof -
  have "case ConsumeVarint raw_lib (take k (drop i [CHR ''a''])) of (v, n) \<Rightarrow> 0 \<le> n \<longrightarrow> 0 \<le> sint v" for i k
    by (cases i; cases k) (simp_all add: raw_lib_def decode_lib_def)
  then show ?thesis unfolding no_backward_skip_def by (intro allI)
qed

theorem scan_terminates_witness:
  "\<exists>res. ScanIndexReader (Suc (length ''a'')) raw_lib log_scanner (new_reader ''a'') [] = Some res"
  by (rule scan_terminates [OF no_backward_short]) simp

theorem backward_skip_loops_witness:
  "ScanIndexReader 1000 raw_lib log_scanner
     (new_reader (char_of (10 :: nat) # encode_varint (2 ^ 64 - 11))) [] = None"
  by (rule backward_skip_loops [OF wire_spec_raw_lib])

theorem negative_length_panics_witness:
  "ScanIndexReader (Suc 4) raw_lib log_scanner
     (new_reader (char_of (18 :: nat) # encode_varint (2 ^ 63) @ ''x'')) [] = Some (Panicked, [])"
  by (rule negative_length_panics [OF wire_spec_raw_lib]) simp_all

end
