(* ===== verification/GoPath.thy ===== *)
theory GoPath
  imports Prelude
begin

text \<open>
  What the sources use of the standard library's path functions, on Unix: \<^verbatim>\<open>filepath.Clean\<close>,
  \<^verbatim>\<open>path.Join\<close> (and \<^verbatim>\<open>filepath.Join\<close>) and \<^verbatim>\<open>filepath.Ext\<close>. The keys of the index's document maps are
  cleaned paths, so the property the rest relies on is that \<open>Clean\<close> is idempotent.
\<close>

fun split_slash :: "gostring \<Rightarrow> gostring list" where
  "split_slash [] = [[]]"
| "split_slash (c # cs) =
     (if c = CHR ''/'' then [] # split_slash cs
      else case split_slash cs of
        [] \<Rightarrow> [[c]]
      | x # xs \<Rightarrow> (c # x) # xs)"

fun join_slash :: "gostring list \<Rightarrow> gostring" where
  "join_slash [] = []"
| "join_slash [x] = x"
| "join_slash (x # y # xs) = x @ CHR ''/'' # join_slash (y # xs)"

text \<open>The elements kept so far are a stack; \<^verbatim>\<open>..\<close> pops an element that is not \<^verbatim>\<open>..\<close> itself.\<close>

fun clean_elems :: "bool \<Rightarrow> gostring list \<Rightarrow> gostring list \<Rightarrow> gostring list" where
  "clean_elems rooted [] st = rev st"
| "clean_elems rooted (c # cs) st =
     (if c = [] \<or> c = ''.'' then clean_elems rooted cs st
      else if c = ''..'' then
        (case st of
           [] \<Rightarrow> clean_elems rooted cs (if rooted then [] else [''..''])
         | x # xs \<Rightarrow> if x = ''..'' then clean_elems rooted cs (''..'' # st) else clean_elems rooted cs xs)
      else clean_elems rooted cs (c # st))"

definition Clean :: "gostring \<Rightarrow> gostring" where
  "Clean p =
     (if p = [] then ''.''
      else if hd p = CHR ''/'' then CHR ''/'' # join_slash (clean_elems True (split_slash p) [])
      else let body = join_slash (clean_elems False (split_slash p) [])
           in if body = [] then ''.'' else body)"

definition path_Join :: "gostring list \<Rightarrow> gostring" where
  "path_Join elems =
     (let es = dropWhile (\<lambda>e. e = []) elems
      in if es = [] then [] else Clean (join_slash es))"

definition base_after_slash :: "gostring \<Rightarrow> gostring" where
  "base_after_slash p = rev (takeWhile (\<lambda>c. c \<noteq> CHR ''/'') (rev p))"

definition Ext :: "gostring \<Rightarrow> gostring" where
  "Ext p =
     (let b = base_after_slash p
      in if CHR ''.'' \<in> set b then CHR ''.'' # rev (takeWhile (\<lambda>c. c \<noteq> CHR ''.'') (rev b)) else [])"

text \<open>A stack of kept elements: \<^verbatim>\<open>..\<close> only at the front of a relative path, no empty or dot element.\<close>

definition elem_ok :: "gostring \<Rightarrow> bool" where
  "elem_ok c \<longleftrightarrow> c \<noteq> [] \<and> c \<noteq> ''.'' \<and> CHR ''/'' \<notin> set c"

definition elems_ok :: "bool \<Rightarrow> gostring list \<Rightarrow> bool" where
  "elems_ok rooted es \<longleftrightarrow> list_all elem_ok es \<and>
     (\<exists>n xs. es = replicate n ''..'' @ xs \<and> ''..'' \<notin> set xs \<and> (rooted \<longrightarrow> n = 0))"

lemma elem_ok_dotdot [simp]: "elem_ok ''..''"
  by (simp add: elem_ok_def)

lemma split_slash_nonempty [simp]: "split_slash s \<noteq> []"
  by (cases s) (auto split: list.splits)

lemma split_slash_no_slash: "c \<in> set (split_slash s) \<Longrightarrow> CHR ''/'' \<notin> set c"
  by (induction s arbitrary: c) (auto split: if_splits list.splits)

lemma split_slash_plain: "CHR ''/'' \<notin> set x \<Longrightarrow> split_slash x = [x]"
  by (induction x) auto

lemma split_slash_append: "CHR ''/'' \<notin> set x \<Longrightarrow> split_slash (x @ CHR ''/'' # s) = x # split_slash s"
  by (induction x) auto

lemma split_join:
  "list_all elem_ok es \<Longrightarrow> es \<noteq> [] \<Longrightarrow> split_slash (join_slash es) = es"
  by (induction es rule: join_slash.induct)
    (auto simp: elem_ok_def split_slash_plain split_slash_append)

lemma elems_okI:
  "list_all elem_ok (replicate n ''..'' @ xs) \<Longrightarrow> ''..'' \<notin> set xs \<Longrightarrow> (rooted \<Longrightarrow> n = 0) \<Longrightarrow>
   elems_ok rooted (replicate n ''..'' @ xs)"
  unfolding elems_ok_def by blast

lemma elems_okE:
  assumes "elems_ok rooted es"
  obtains n xs where "es = replicate n ''..'' @ xs" "''..'' \<notin> set xs" "rooted \<longrightarrow> n = 0" "list_all elem_ok es"
  using assms unfolding elems_ok_def by blast

lemma elems_ok_snoc:
  assumes "elems_ok rooted es" and "elem_ok c" and "c \<noteq> ''..''"
  shows "elems_ok rooted (es @ [c])"
proof -
  from assms(1) obtain n xs where "es = replicate n ''..'' @ xs" "''..'' \<notin> set xs" "rooted \<longrightarrow> n = 0"
    "list_all elem_ok es" by (rule elems_okE)
  with assms(2,3) elems_okI [of n "xs @ [c]" rooted] show ?thesis by auto
qed

lemma elems_ok_dotdot:
  assumes "elems_ok False es" and "es \<noteq> [] \<Longrightarrow> last es = ''..''"
  shows "elems_ok False (es @ [''..''])"
proof -
  from assms(1) obtain n xs where es: "es = replicate n ''..'' @ xs" "''..'' \<notin> set xs"
    and ok: "list_all elem_ok es" by (rule elems_okE)
  with assms(2) have "xs = []" by (cases xs rule: rev_cases) auto
  with es have "es @ [''..''] = replicate (Suc n) ''..'' @ []"
    by (simp add: replicate_append_same)
  moreover have "list_all elem_ok (es @ [''..''])" using ok by simp
  ultimately show ?thesis
    unfolding elems_ok_def by (metis empty_iff empty_set)
qed

lemma elems_ok_butlast:
  assumes "elems_ok rooted (es @ [x])" and "x \<noteq> ''..''"
  shows "elems_ok rooted es"
proof -
  from assms(1) obtain n xs where es: "es @ [x] = replicate n ''..'' @ xs" "''..'' \<notin> set xs"
    "rooted \<longrightarrow> n = 0" and ok': "list_all elem_ok (es @ [x])" by (rule elems_okE)
  from ok' have ok: "list_all elem_ok es" by (simp only: list_all_append)
  show ?thesis
  proof (cases xs rule: rev_cases)
    case Nil
    with es(1) have "x \<in> set (replicate n ''..'')" by (metis append_Nil2 in_set_conv_decomp)
    with assms(2) show ?thesis by simp
  next
    case (snoc ys y)
    with es have "es = replicate n ''..'' @ ys" "''..'' \<notin> set ys" by auto
    with es(3) ok elems_okI [of n ys rooted] show ?thesis by auto
  qed
qed

lemma clean_elems_ok:
  "elems_ok rooted (rev st) \<Longrightarrow> \<forall>c \<in> set cs. CHR ''/'' \<notin> set c \<Longrightarrow> elems_ok rooted (clean_elems rooted cs st)"
proof (induction rooted cs st rule: clean_elems.induct)
  case (2 rooted c cs st)
  consider "c = [] \<or> c = ''.''" | "c = ''..''" | "elem_ok c" "c \<noteq> ''..''" "c \<noteq> []" "c \<noteq> ''.''"
    using "2.prems"(2) by (auto simp: elem_ok_def)
  then show ?case
  proof cases
    case 1
    with "2.IH"(1) "2.prems" show ?thesis by auto
  next
    case c: 2
    show ?thesis
    proof (cases st)
      case Nil
      have "elems_ok False [''..'']" using elems_ok_dotdot [of "[]"] by (simp add: elems_ok_def)
      moreover have "elems_ok True []" by (simp add: elems_ok_def)
      ultimately show ?thesis using "2.IH"(2) "2.prems" c Nil by auto
    next
      case (Cons x xs)
      show ?thesis
      proof (cases "x = ''..''")
        case True
        have "\<not> rooted" using "2.prems"(1) Cons True by (auto simp: elems_ok_def)
        with "2.prems"(1) Cons True have "elems_ok rooted (rev st @ [''..''])"
          using elems_ok_dotdot [of "rev st"] by simp
        with "2.IH"(3) "2.prems" c Cons True show ?thesis by simp
      next
        case False
        with "2.prems"(1) Cons have "elems_ok rooted (rev xs)" using elems_ok_butlast by simp
        with "2.IH"(4) "2.prems" c Cons False show ?thesis by simp
      qed
    qed
  next
    case 3
    with "2.IH"(5) "2.prems" elems_ok_snoc show ?thesis by simp
  qed
qed simp

text \<open>Elements that are kept already are kept again.\<close>

lemma clean_elems_plain:
  "list_all elem_ok cs \<Longrightarrow> ''..'' \<notin> set cs \<Longrightarrow> clean_elems rooted cs st = rev st @ cs"
  by (induction cs arbitrary: st) (auto simp: elem_ok_def)

lemma clean_elems_dotdots:
  "clean_elems False (replicate n ''..'' @ cs) (replicate m ''..'') = clean_elems False cs (replicate (n + m) ''..'')"
proof (induction n arbitrary: m)
  case (Suc n)
  from Suc [of "Suc m"] show ?case by (cases m) simp_all
qed simp

lemma clean_elems_id: "elems_ok rooted es \<Longrightarrow> clean_elems rooted es [] = es"
proof -
  assume ok: "elems_ok rooted es"
  then obtain n xs where es: "es = replicate n ''..'' @ xs" "''..'' \<notin> set xs" "rooted \<longrightarrow> n = 0"
    and all: "list_all elem_ok es" by (rule elems_okE)
  show ?thesis
  proof (cases rooted)
    case True
    with es all show ?thesis by (simp add: clean_elems_plain)
  next
    case False
    then have "clean_elems rooted es [] = clean_elems False xs (replicate n ''..'')"
      using clean_elems_dotdots [of n xs 0] es(1) by simp
    with es all show ?thesis by (simp add: clean_elems_plain)
  qed
qed

lemma join_slash_empty_iff: "list_all elem_ok es \<Longrightarrow> join_slash es = [] \<longleftrightarrow> es = []"
  by (cases es rule: join_slash.cases) (auto simp: elem_ok_def)

lemma join_slash_hd: "list_all elem_ok es \<Longrightarrow> es \<noteq> [] \<Longrightarrow> hd (join_slash es) \<noteq> CHR ''/''"
  by (cases es rule: join_slash.cases) (auto simp: elem_ok_def hd_append dest: hd_in_set)

text \<open>
  \<^verbatim>\<open>filepath.Clean\<close> is idempotent, so cleaning a path that is already a key of the index finds the
  same key.
\<close>

theorem Clean_idem: "Clean (Clean p) = Clean p"
proof -
  define es where "es rooted = clean_elems rooted (split_slash p) []" for rooted
  have ok: "elems_ok rooted (es rooted)" for rooted
    unfolding es_def by (intro clean_elems_ok) (auto simp: elems_ok_def dest: split_slash_no_slash)
  then have all: "list_all elem_ok (es rooted)" for rooted by (simp add: elems_ok_def)
  have again: "clean_elems rooted (split_slash (join_slash (es rooted))) [] = es rooted" for rooted
  proof (cases "es rooted = []")
    case False
    then show ?thesis using split_join [OF all] clean_elems_id [OF ok] by simp
  qed simp
  have rooted: "Clean (CHR ''/'' # join_slash (es True)) = CHR ''/'' # join_slash (es True)"
    using again [of True] by (simp add: Clean_def)
  have relative: "Clean (join_slash (es False)) = join_slash (es False)" if "join_slash (es False) \<noteq> []"
  proof -
    from that have "es False \<noteq> []" by auto
    from join_slash_hd [OF all this] that again [of False] show ?thesis by (simp add: Clean_def)
  qed
  have "Clean ''.'' = ''.''" by (simp add: Clean_def)
  with rooted relative show ?thesis by (auto simp: Clean_def [of p] es_def [symmetric] Let_def)
qed

subsection \<open>Relative paths\<close>

definition path_elems :: "gostring \<Rightarrow> gostring list" where
  "path_elems p = filter (\<lambda>e. e \<noteq> []) (split_slash p)"

fun strip_common :: "gostring list \<Rightarrow> gostring list \<Rightarrow> gostring list \<times> gostring list" where
  "strip_common (b # bs) (t # ts) = (if b = t then strip_common bs ts else (b # bs, t # ts))"
| "strip_common bs ts = (bs, ts)"

text \<open>
  \<^verbatim>\<open>filepath.Rel\<close>: the target's elements below the common prefix, preceded by one \<^verbatim>\<open>..\<close> for each element
  of the base that is left; an error if base and target are not both absolute or both relative, or if the
  first differing element of the base is \<^verbatim>\<open>..\<close>.
\<close>

definition path_Rel :: "gostring \<Rightarrow> gostring \<Rightarrow> gostring outcome" where
  "path_Rel basepath targpath =
     (let base = Clean basepath; targ = Clean targpath
      in if targ = base then Ok ''.''
         else let base' = (if base = ''.'' then [] else base)
              in if (base' \<noteq> [] \<and> hd base' = CHR ''/'') \<noteq> (hd targ = CHR ''/'')
                 then Fail (Errorf ''Rel: can't make path relative'' [])
                 else case strip_common (path_elems base') (path_elems targ) of
                        ([], ts) \<Rightarrow> Ok (join_slash ts)
                      | (b # bs, ts) \<Rightarrow>
                          if ts \<noteq> [] \<and> b = ''..'' then Fail (Errorf ''Rel: can't make path relative'' [])
                          else Ok (join_slash (replicate (Suc (length bs)) ''..'' @ ts)))"

lemma strip_common_prefix [simp]: "strip_common bs (bs @ ts) = ([], ts)"
  by (induction bs) auto

lemma path_elems_rooted:
  assumes "list_all elem_ok es"
  shows "path_elems (CHR ''/'' # join_slash es) = es"
proof (cases "es = []")
  case False
  moreover have "filter (\<lambda>e. e \<noteq> []) es = es"
    using assms by (auto simp: filter_id_conv list_all_iff elem_ok_def)
  ultimately show ?thesis using split_join [OF assms] by (simp add: path_elems_def)
qed (simp add: path_elems_def)

lemma split_slash_snoc:
  "split_slash (xs @ CHR ''/'' # ys) = split_slash xs @ split_slash ys"
proof (induction xs)
  case (Cons x xs)
  then show ?case by (cases "split_slash xs") auto
qed simp

lemma clean_elems_append:
  "clean_elems rooted (cs @ ds) st = clean_elems rooted ds (rev (clean_elems rooted cs st))"
  by (induction rooted cs st rule: clean_elems.induct) (auto split: list.splits)

text \<open>
  A path below an absolute root is found again: \<^verbatim>\<open>filepath.Rel(root, path.Join(root, rel))\<close> is \<^verbatim>\<open>rel\<close> for
  a cleaned relative path that does not leave the root.
\<close>

lemma Rel_Join:
  assumes "root \<noteq> []" and "hd root = CHR ''/''" and "es \<noteq> []" and "list_all elem_ok es" and "''..'' \<notin> set es"
  shows "path_Rel root (path_Join [root, join_slash es]) = Ok (join_slash es)"
proof -
  let ?rel = "join_slash es" and ?bs = "clean_elems True (split_slash root) []"
  have bs: "elems_ok True ?bs"
    by (intro clean_elems_ok) (auto simp: elems_ok_def dest: split_slash_no_slash)
  then have bs_ok: "list_all elem_ok ?bs" by (simp add: elems_ok_def)
  have base: "Clean root = CHR ''/'' # join_slash ?bs" using assms(1,2) by (simp add: Clean_def)
  have "split_slash (root @ CHR ''/'' # ?rel) = split_slash root @ es"
    by (simp add: split_slash_snoc split_join [OF assms(4,3)])
  then have "clean_elems True (split_slash (root @ CHR ''/'' # ?rel)) [] = ?bs @ es"
    by (simp add: clean_elems_append clean_elems_plain [OF assms(4,5)])
  with assms(1,2) have targ: "path_Join [root, ?rel] = CHR ''/'' # join_slash (?bs @ es)"
    by (simp add: path_Join_def Clean_def Let_def)
  have all: "list_all elem_ok (?bs @ es)" using bs_ok assms(4) by simp
  have "Clean (path_Join [root, ?rel]) = path_Join [root, ?rel]"
    using Clean_idem assms(1) by (simp add: path_Join_def Let_def)
  moreover have "path_Join [root, ?rel] \<noteq> Clean root"
  proof
    assume "path_Join [root, ?rel] = Clean root"
    then have "path_elems (CHR ''/'' # join_slash (?bs @ es)) = path_elems (CHR ''/'' # join_slash ?bs)"
      using base targ by simp
    then show False using path_elems_rooted [OF all] path_elems_rooted [OF bs_ok] assms(3) by simp
  qed
  ultimately show ?thesis
    using base targ path_elems_rooted [OF all] path_elems_rooted [OF bs_ok] by (simp add: path_Rel_def Let_def)
qed

end
