(* ===== verification/ScanFolder.thy ===== *)
theory ScanFolder
  imports ScannerRobust GoPath
begin

text \<open>
  \<^verbatim>\<open>ScanIndexFile\<close> and \<^verbatim>\<open>ScanIndexFolder\<close> of \<^verbatim>\<open>src/scip-lib/scanner/scan.go\<close>, over a file system given by
  what \<^verbatim>\<open>os.Open\<close> and \<^verbatim>\<open>os.ReadDir\<close> return. The parallel variant scans the files in no fixed order; the
  callbacks of the program hold a lock, so it is modelled as a scan one file after the other in
  the order of the (arbitrary) directory listing.
\<close>

record filesystem =
  fs_Open :: "gostring \<Rightarrow> byte list outcome"
  fs_ReadDir :: "gostring \<Rightarrow> (gostring \<times> bool) list outcome"

definition ScanIndexFile ::
  "nat \<Rightarrow> ('doc, 'sym, 'occ) protolib \<Rightarrow> ('doc, 'sym, 'occ, 'st) scanner \<Rightarrow> filesystem \<Rightarrow> gostring \<Rightarrow> 'st \<Rightarrow>
   (status \<times> 'st) option" where
  "ScanIndexFile fuel pl sc fs path st =
     (case fs_Open fs path of
        Fail e \<Rightarrow> Some (Failed (Join (Errorf ''failed to open file'' []) e), st)
      | Panic \<Rightarrow> Some (Panicked, st)
      | Ok bs \<Rightarrow> ScanIndexReader fuel pl sc (new_reader bs) st)"

text \<open>The files in turn; errors are collected, a panic ends the program.\<close>

fun process_files ::
  "nat \<Rightarrow> ('doc, 'sym, 'occ) protolib \<Rightarrow> ('doc, 'sym, 'occ, 'st) scanner \<Rightarrow> filesystem \<Rightarrow> gostring \<Rightarrow>
   (gostring \<times> bool) list \<Rightarrow> go_error list \<Rightarrow> 'st \<Rightarrow> (status \<times> 'st) option" where
  "process_files fuel pl sc fs path [] errs st =
     Some (if errs = [] then Done else Failed (ErrorLines errs), st)"
| "process_files fuel pl sc fs path ((name, isDir) # entries) errs st =
     (let fullPath = path_Join [path, name]
      in if isDir \<or> Ext fullPath \<noteq> ''.scip'' then process_files fuel pl sc fs path entries errs st
         else case ScanIndexFile fuel pl sc fs fullPath st of
                None \<Rightarrow> None
              | Some (Done, st') \<Rightarrow> process_files fuel pl sc fs path entries errs st'
              | Some (Failed e, st') \<Rightarrow> process_files fuel pl sc fs path entries (errs @ [e]) st'
              | Some (Panicked, st') \<Rightarrow> Some (Panicked, st'))"

definition ScanIndexFolder ::
  "nat \<Rightarrow> ('doc, 'sym, 'occ) protolib \<Rightarrow> ('doc, 'sym, 'occ, 'st) scanner \<Rightarrow> filesystem \<Rightarrow> gostring \<Rightarrow> 'st \<Rightarrow>
   (status \<times> 'st) option" where
  "ScanIndexFolder fuel pl sc fs path st =
     (case fs_ReadDir fs path of
        Fail e \<Rightarrow> Some (Failed (Join (Errorf ''failed to read directory'' []) e), st)
      | Panic \<Rightarrow> Some (Panicked, st)
      | Ok entries \<Rightarrow> process_files fuel pl sc fs path entries [] st)"

text \<open>The index files of a folder, with the index each of them encodes.\<close>

fun folder_holds :: "filesystem \<Rightarrow> gostring \<Rightarrow> nat \<Rightarrow> (gostring \<times> bool) list \<Rightarrow> index_field list list \<Rightarrow> bool" where
  "folder_holds fs path fuel [] ixs = (ixs = [])"
| "folder_holds fs path fuel ((name, isDir) # entries) ixs =
     (if isDir \<or> Ext (path_Join [path, name]) \<noteq> ''.scip'' then folder_holds fs path fuel entries ixs
      else case ixs of
             [] \<Rightarrow> False
           | ix # ixs' \<Rightarrow> fs_Open fs (path_Join [path, name]) = Ok (index_bytes ix) \<and> list_all index_field_ok ix \<and>
               length (index_bytes ix) < fuel \<and> length (index_bytes ix) < 2 ^ 63 \<and>
               folder_holds fs path fuel entries ixs')"

lemma visit_seq_append:
  "visit_seq v (xs @ ys) st = (case visit_seq v xs st of (Done, st') \<Rightarrow> visit_seq v ys st' | r \<Rightarrow> r)"
  by (induction xs arbitrary: st) (auto split: prod.splits status.splits)

text \<open>
  \<^verbatim>\<open>ScanIndexFolder\<close>: when the visits of all index files of the folder succeed, the scan of the folder
  is the scan of their concatenation; files without the extension \<^verbatim>\<open>.scip\<close> and directories are ignored.
\<close>

lemma ScanIndexFolder_spec:
  assumes "wire_spec pl" and "fs_ReadDir fs path = Ok entries" and "folder_holds fs path fuel entries ixs"
    and "visit_index pl sc (concat ixs) st = (Done, st')"
  shows "ScanIndexFolder fuel pl sc fs path st = Some (Done, st')"
proof -
  have "process_files fuel pl sc fs path entries [] st = Some (Done, st')"
    using assms(3,4)
  proof (induction entries arbitrary: ixs st)
    case Nil
    then show ?case by simp
  next
    case (Cons entry entries)
    obtain name isDir where entry: "entry = (name, isDir)" by (cases entry)
    show ?case
    proof (cases "isDir \<or> Ext (path_Join [path, name]) \<noteq> ''.scip''")
      case True
      with Cons entry show ?thesis by (simp add: Let_def)
    next
      case False
      with Cons.prems(1) entry obtain ix ixs' where ixs: "ixs = ix # ixs'"
        and fl: "fs_Open fs (path_Join [path, name]) = Ok (index_bytes ix)" "list_all index_field_ok ix"
          "length (index_bytes ix) < fuel" "length (index_bytes ix) < 2 ^ 63"
        and rest: "folder_holds fs path fuel entries ixs'" by (auto split: list.splits)
      from Cons.prems(2) ixs obtain st1 where v: "visit_index pl sc ix st = (Done, st1)"
        "visit_index pl sc (concat ixs') st1 = (Done, st')"
        by (auto simp: visit_seq_append split: prod.splits status.splits)
      have "ScanIndexFile fuel pl sc fs (path_Join [path, name]) st = Some (Done, st1)"
        using index_scan_at [OF assms(1) fl(2-4), of sc] v(1) by (simp add: ScanIndexFile_def fl(1))
      with False entry Cons.IH [OF rest v(2)] show ?thesis by (simp add: Let_def)
    qed
  qed
  with assms(2) show ?thesis by (simp add: ScanIndexFolder_def)
qed

subsection \<open>Invariants of the callbacks\<close>

text \<open>A property of the state that every callback keeps is kept by a scan of any bytes.\<close>

definition callbacks_keep :: "('st \<Rightarrow> bool) \<Rightarrow> ('doc, 'sym, 'occ, 'st) scanner \<Rightarrow> bool" where
  "callbacks_keep P sc \<longleftrightarrow>
     (\<forall>m x st. MatchDocumentPath sc = Some m \<longrightarrow> P st \<longrightarrow> P (snd (m x st))) \<and>
     (\<forall>m x st. MatchSymbol sc = Some m \<longrightarrow> P st \<longrightarrow> P (snd (m x st))) \<and>
     (\<forall>m x st. MatchOccurrence sc = Some m \<longrightarrow> P st \<longrightarrow> P (snd (m x st))) \<and>
     (\<forall>v d st. VisitDocument sc = Some v \<longrightarrow> P st \<longrightarrow> P (snd (v d st))) \<and>
     (\<forall>v path x st. VisitSymbol sc = Some v \<longrightarrow> P st \<longrightarrow> P (snd (v path x st))) \<and>
     (\<forall>v path x st. VisitOccurrence sc = Some v \<longrightarrow> P st \<longrightarrow> P (snd (v path x st)))"

lemma visit_matched_keeps:
  "P st \<Longrightarrow> (\<And>v x st. visit = Some v \<Longrightarrow> P st \<Longrightarrow> P (snd (v x st))) \<Longrightarrow> P (snd (visit_matched b visit msg e st))"
  by (auto simp: visit_matched_def split: option.splits outcome.splits)

lemma scan_symbol_field_keeps:
  assumes keep: "callbacks_keep P sc" and P: "P st" and res: "scan_symbol_field fuel pl sc path bs st = Some (s, st')"
  shows "P st'"
proof (cases "\<exists>sy m. parseSymbolMoniker fuel pl (PoolSizes sc) bs = Some (Ok sy) \<and> MatchSymbol sc = Some m")
  case True
  then obtain sy m where parsed: "parseSymbolMoniker fuel pl (PoolSizes sc) bs = Some (Ok sy)" "MatchSymbol sc = Some m" by blast
  obtain matched st1 where m: "m sy st = (matched, st1)" by fastforce
  have "P (snd (m sy st))" using keep P parsed(2) unfolding callbacks_keep_def by blast
  then have P1: "P st1" by (simp add: m)
  have "P (snd (visit_matched matched (map_option (\<lambda>v. v path) (VisitSymbol sc)) msg e st1))" for msg e
    by (rule visit_matched_keeps [of P, OF P1]) (use keep in \<open>auto simp: callbacks_keep_def\<close>)
  with res show ?thesis by (simp add: scan_symbol_field_def parsed m) (metis snd_conv)
next
  case False
  with res P show ?thesis by (auto simp: scan_symbol_field_def split: option.splits outcome.splits)
qed

lemma scan_occurrence_field_keeps:
  assumes keep: "callbacks_keep P sc" and P: "P st" and res: "scan_occurrence_field fuel pl sc path bs st = Some (s, st')"
  shows "P st'"
proof (cases "\<exists>sy m. parseOccurrenceSymbol fuel pl (PoolSizes sc) bs = Some (Ok sy) \<and> MatchOccurrence sc = Some m")
  case True
  then obtain sy m where parsed: "parseOccurrenceSymbol fuel pl (PoolSizes sc) bs = Some (Ok sy)" "MatchOccurrence sc = Some m" by blast
  obtain matched st1 where m: "m sy st = (matched, st1)" by fastforce
  have "P (snd (m sy st))" using keep P parsed(2) unfolding callbacks_keep_def by blast
  then have P1: "P st1" by (simp add: m)
  have "P (snd (visit_matched matched (map_option (\<lambda>v. v path) (VisitOccurrence sc)) msg e st1))" for msg e
    by (rule visit_matched_keeps [of P, OF P1]) (use keep in \<open>auto simp: callbacks_keep_def\<close>)
  with res show ?thesis by (simp add: scan_occurrence_field_def parsed m) (metis snd_conv)
next
  case False
  with res P show ?thesis by (auto simp: scan_occurrence_field_def split: option.splits outcome.splits)
qed

lemma scan_document_field_keeps:
  assumes "callbacks_keep P sc" and "P st" and "scan_document_field fuel pl sc path num bs st = Some (s, st')"
  shows "P st'"
  using assms scan_symbol_field_keeps [OF assms(1,2)] scan_occurrence_field_keeps [OF assms(1,2)]
  by (auto simp: scan_document_field_def split: if_splits)

lemma ScanDocumentReader_keeps:
  "callbacks_keep P sc \<Longrightarrow> P st \<Longrightarrow> ScanDocumentReader fuel pl sc path r st = Some (s, st') \<Longrightarrow> P st'"
proof (induction fuel arbitrary: r st)
  case (Suc fuel)
  note field = scan_document_field_keeps [OF Suc.prems(1,2)]
  from Suc.prems(3) show ?case
    using Suc.prems(2)
    by (auto simp: ScanDocumentReader.simps dest: field intro: Suc.IH [OF Suc.prems(1)]
        split: if_splits option.splits outcome.splits prod.splits status.splits)
qed (simp add: ScanDocumentReader.simps)

lemma match_document_keeps:
  assumes keep: "callbacks_keep P sc" and P: "P st" and m: "MatchDocumentPath sc = Some m" "m path st = (b, st1)"
  shows "P (snd (visit_matched b (VisitDocument sc) msg e st1))"
proof -
  have "P (snd (m path st))" using keep P m(1) unfolding callbacks_keep_def by blast
  then have "P st1" by (simp add: m)
  then show ?thesis by (rule visit_matched_keeps) (use keep in \<open>auto simp: callbacks_keep_def\<close>)
qed

lemma scan_index_document_keeps:
  assumes keep: "callbacks_keep P sc" and P: "P st" and res: "scan_index_document fuel pl sc bs st = Some (s, st')"
  shows "P st'"
proof (cases "\<exists>docPath. parseDocumentPath fuel pl (PoolSizes sc) bs = Some (Ok docPath)")
  case True
  then obtain docPath where parsed: "parseDocumentPath fuel pl (PoolSizes sc) bs = Some (Ok docPath)" by blast
  define visit where "visit = (case MatchDocumentPath sc of
      None \<Rightarrow> (Done, st)
    | Some m \<Rightarrow> let (matched, st1) = m docPath st
        in visit_matched matched (VisitDocument sc) (UnmarshalDocument pl bs) (Errorf ''failed to read document'' []) st1)"
  obtain s2 st2 where v: "visit = (s2, st2)" by (cases visit)
  have "P (snd visit)"
    unfolding visit_def using P match_document_keeps [OF keep P]
    by (cases "MatchDocumentPath sc") (auto simp: Let_def split: prod.split)
  then have P2: "P st2" by (simp add: v)
  from res show ?thesis
    unfolding scan_index_document_def parsed option.case outcome.case visit_def [symmetric] v prod.case
    using P2 by (auto dest: ScanDocumentReader_keeps [OF keep P2] split: status.splits option.splits)
next
  case False
  with res P show ?thesis by (auto simp: scan_index_document_def split: option.splits outcome.splits)
qed

lemma ScanIndexReader_keeps:
  "callbacks_keep P sc \<Longrightarrow> P st \<Longrightarrow> ScanIndexReader fuel pl sc r st = Some (s, st') \<Longrightarrow> P st'"
proof (induction fuel arbitrary: r st)
  case (Suc fuel)
  note doc = scan_index_document_keeps [OF Suc.prems(1,2)]
  from Suc.prems(3) show ?case
    using Suc.prems(2)
    by (auto simp: ScanIndexReader.simps dest: doc intro: Suc.IH [OF Suc.prems(1)]
        split: if_splits option.splits outcome.splits prod.splits status.splits)
qed (simp add: ScanIndexReader.simps)

lemma ScanIndexFile_keeps:
  "callbacks_keep P sc \<Longrightarrow> P st \<Longrightarrow> ScanIndexFile fuel pl sc fs path st = Some (s, st') \<Longrightarrow> P st'"
  using ScanIndexReader_keeps [of P sc] by (auto simp: ScanIndexFile_def split: outcome.splits)

lemma process_files_keeps:
  "callbacks_keep P sc \<Longrightarrow> P st \<Longrightarrow> process_files fuel pl sc fs path entries errs st = Some (s, st') \<Longrightarrow> P st'"
proof (induction entries arbitrary: errs st)
  case (Cons e entries)
  obtain name isDir where e: "e = (name, isDir)" by (cases e)
  note fl = ScanIndexFile_keeps [OF Cons.prems(1,2)]
  from Cons.prems(3) show ?case
    using Cons.prems(2)
    by (auto simp: e Let_def dest: fl intro: Cons.IH [OF Cons.prems(1)] split: if_splits option.splits prod.splits status.splits)
qed simp

lemma ScanIndexFolder_keeps:
  "callbacks_keep P sc \<Longrightarrow> P st \<Longrightarrow> ScanIndexFolder fuel pl sc fs path st = Some (s, st') \<Longrightarrow> P st'"
  using process_files_keeps [of P sc] by (auto simp: ScanIndexFolder_def split: outcome.splits)

end
