(* ===== verification/ScipUtils.thy ===== *)
theory ScipUtils
  imports ScipModel
begin

text \<open>
  \<^verbatim>\<open>src/scip-lib/utils/utils.go\<close> (and its copy in \<^verbatim>\<open>src/ulsp/controller/scip/consume.go\<close>): the lookups
  in the occurrence list of a document. The binary search \<^verbatim>\<open>GetOccurrenceForPosition\<close> is shown to
  find an occurrence at the position if there is one, provided the list is sorted the way the
  comment of the source says; the library's \<^verbatim>\<open>NewRange\<close> is constrained by \<open>range_spec\<close>.
\<close>

subsection \<open>Operations\<close>

text \<open>The value the SCIP protocol documents for \<^verbatim>\<open>SymbolRole_Definition\<close>.\<close>

definition SymbolRole_Definition :: int32 where
  "SymbolRole_Definition = 1"

definition has_role :: "occurrence \<Rightarrow> int32 \<Rightarrow> bool" where
  "has_role occ role \<longleftrightarrow> 0 < sint (and (SymbolRoles occ) role)"

text \<open>A role of \<^verbatim>\<open>-1\<close> matches every occurrence.\<close>

fun GetOccurrencesForSymbol :: "occurrence list \<Rightarrow> gostring \<Rightarrow> int32 \<Rightarrow> occurrence list" where
  "GetOccurrencesForSymbol [] symbol role = []"
| "GetOccurrencesForSymbol (occ # occs) symbol role =
     (if Symbol occ = symbol \<and> (role = - 1 \<or> has_role occ role)
      then occ # GetOccurrencesForSymbol occs symbol role
      else GetOccurrencesForSymbol occs symbol role)"

fun GetLocalSymbolInformation :: "symbol_information list \<Rightarrow> gostring \<Rightarrow> symbol_information option" where
  "GetLocalSymbolInformation [] symbol = None"
| "GetLocalSymbolInformation (s # ss) symbol =
     (if si_Symbol s = symbol then Some s else GetLocalSymbolInformation ss symbol)"

text \<open>The end of a range: \<open>(0, 0)\<close> if it has neither three nor four numbers.\<close>

definition range_end :: "int32 list \<Rightarrow> int \<times> int" where
  "range_end r =
     (if length r = 3 then (sint (r ! 0), sint (r ! 2))
      else if length r = 4 then (sint (r ! 2), sint (r ! 3)) else (0, 0))"

definition IsRangeBefore :: "int32 list \<Rightarrow> position \<Rightarrow> bool" where
  "IsRangeBefore r pos =
     (let (endLine, endChar) = range_end r
      in endLine < sint (Line pos) \<or> (endLine = sint (Line pos) \<and> endChar < sint (Character pos)))"

definition IsMatchingPosition :: "rangelib \<Rightarrow> occurrence \<Rightarrow> position \<Rightarrow> bool" where
  "IsMatchingPosition rl occ pos =
     (case NewRange rl (Range occ) of
        Ok rng \<Rightarrow>
          (let sl = sint (sp_Line (sr_Start rng)); sc = sint (sp_Character (sr_Start rng));
               el = sint (sp_Line (sr_End rng)); ec = sint (sp_Character (sr_End rng));
               l = sint (Line pos); c = sint (Character pos)
           in if IsSingleLine rl rng then sl = l \<and> sc \<le> c \<and> c \<le> ec
              else (sl < l \<and> l < el) \<or> (sl = l \<and> sc \<le> c) \<or> (el = l \<and> c \<le> ec))
      | _ \<Rightarrow> False)"

text \<open>The loop of the search, between the indices \<open>low\<close> and \<open>high\<close>.\<close>

function search_occurrence :: "rangelib \<Rightarrow> occurrence list \<Rightarrow> position \<Rightarrow> int \<Rightarrow> int \<Rightarrow> occurrence option" where
  "search_occurrence rl occs pos low high =
     (if low \<le> high then
        let mid = (low + high) div 2; occ = occs ! nat mid
        in if IsMatchingPosition rl occ pos then Some occ
           else if IsRangeBefore (Range occ) pos then search_occurrence rl occs pos (mid + 1) high
           else search_occurrence rl occs pos low (mid - 1)
      else None)"
  by pat_completeness auto

termination
  by (relation "measure (\<lambda>(rl, occs, pos, low, high). nat (high + 1 - low))") auto

declare search_occurrence.simps [simp del]

definition GetOccurrenceForPosition :: "rangelib \<Rightarrow> occurrence list \<Rightarrow> position \<Rightarrow> occurrence option" where
  "GetOccurrenceForPosition rl occs pos = search_occurrence rl occs pos 0 (int (length occs) - 1)"

subsection \<open>Ranges and positions\<close>

text \<open>Positions in document order.\<close>

definition pos_le :: "int \<times> int \<Rightarrow> int \<times> int \<Rightarrow> bool" where
  "pos_le p q \<longleftrightarrow> fst p < fst q \<or> (fst p = fst q \<and> snd p \<le> snd q)"

definition range_start :: "int32 list \<Rightarrow> int \<times> int" where
  "range_start r = (sint (r ! 0), sint (r ! 1))"

definition pos_val :: "position \<Rightarrow> int \<times> int" where
  "pos_val pos = (sint (Line pos), sint (Character pos))"

text \<open>A range of three or four numbers that does not end before it starts.\<close>

definition range_ok :: "int32 list \<Rightarrow> bool" where
  "range_ok r \<longleftrightarrow> (length r = 3 \<or> length r = 4) \<and> pos_le (range_start r) (range_end r) \<and>
     0 \<le> fst (range_start r) \<and> 0 \<le> snd (range_start r) \<and> 0 \<le> snd (range_end r)"

text \<open>What the code relies on: \<^verbatim>\<open>NewRange\<close> parses the ranges of the SCIP protocol.\<close>

definition range_spec :: "rangelib \<Rightarrow> bool" where
  "range_spec rl \<longleftrightarrow>
     (\<forall>r. range_ok r \<longrightarrow> NewRange rl r =
        Ok \<lparr>sr_Start = \<lparr>sp_Line = r ! 0, sp_Character = r ! 1\<rparr>,
            sr_End = \<lparr>sp_Line = (if length r = 3 then r ! 0 else r ! 2),
                      sp_Character = (if length r = 3 then r ! 2 else r ! 3)\<rparr>\<rparr>) \<and>
     (\<forall>rng. IsSingleLine rl rng \<longleftrightarrow> sp_Line (sr_Start rng) = sp_Line (sr_End rng))"

lemma pos_le_trans: "pos_le p q \<Longrightarrow> pos_le q r \<Longrightarrow> pos_le p r"
  by (auto simp: pos_le_def)

lemma pos_le_total: "\<not> pos_le p q \<longleftrightarrow> pos_le q p \<and> p \<noteq> q"
  by (cases p; cases q) (auto simp: pos_le_def)

lemma IsRangeBefore_iff: "IsRangeBefore r pos \<longleftrightarrow> \<not> pos_le (pos_val pos) (range_end r)"
  by (auto simp: IsRangeBefore_def pos_le_def pos_val_def split: prod.splits)

lemma IsMatchingPosition_iff:
  assumes "range_spec rl" and "range_ok (Range occ)"
  shows "IsMatchingPosition rl occ pos \<longleftrightarrow>
    pos_le (range_start (Range occ)) (pos_val pos) \<and> pos_le (pos_val pos) (range_end (Range occ))"
proof -
  let ?r = "Range occ"
  from assms have new: "NewRange rl ?r =
      Ok \<lparr>sr_Start = \<lparr>sp_Line = ?r ! 0, sp_Character = ?r ! 1\<rparr>,
          sr_End = \<lparr>sp_Line = (if length ?r = 3 then ?r ! 0 else ?r ! 2),
                    sp_Character = (if length ?r = 3 then ?r ! 2 else ?r ! 3)\<rparr>\<rparr>"
    and single: "\<And>rng. IsSingleLine rl rng \<longleftrightarrow> sint (sp_Line (sr_Start rng)) = sint (sp_Line (sr_End rng))"
    by (auto simp: range_spec_def intro: signed_word_eqI)
  from assms(2) have len: "length ?r = 3 \<or> length ?r = 4" and ord: "pos_le (range_start ?r) (range_end ?r)"
    by (auto simp: range_ok_def)
  from len show ?thesis
    using ord by (elim disjE)
      (auto simp: IsMatchingPosition_def new single pos_le_def range_start_def range_end_def pos_val_def Let_def)
qed

subsection \<open>The search finds what is there\<close>

text \<open>The order of a document's occurrences: neither their starts nor their ends decrease.\<close>

definition occurrences_sorted :: "occurrence list \<Rightarrow> bool" where
  "occurrences_sorted occs \<longleftrightarrow>
     sorted_wrt (\<lambda>a b. pos_le (range_start (Range a)) (range_start (Range b)) \<and>
                       pos_le (range_end (Range a)) (range_end (Range b))) occs"

lemma search_sound:
  "search_occurrence rl occs pos low high = Some occ \<Longrightarrow> 0 \<le> low \<Longrightarrow> high < int (length occs) \<Longrightarrow>
   occ \<in> set occs \<and> IsMatchingPosition rl occ pos"
proof (induction rl occs pos low high rule: search_occurrence.induct)
  case (1 rl occs pos low high)
  let ?mid = "(low + high) div 2"
  note found = 1(3) [unfolded search_occurrence.simps [of rl occs pos low high] Let_def]
  from found have le: "low \<le> high" by (simp split: if_splits)
  then have mid: "low \<le> ?mid" "?mid \<le> high" by auto
  then have bounds: "0 \<le> ?mid + 1" "?mid - 1 < int (length occs)" "nat ?mid < length occs" using 1(4,5) by linarith+
  consider (here) "IsMatchingPosition rl (occs ! nat ?mid) pos" "occ = occs ! nat ?mid"
    | (after) "\<not> IsMatchingPosition rl (occs ! nat ?mid) pos" "IsRangeBefore (Range (occs ! nat ?mid)) pos"
        "search_occurrence rl occs pos (?mid + 1) high = Some occ"
    | (before) "\<not> IsMatchingPosition rl (occs ! nat ?mid) pos" "\<not> IsRangeBefore (Range (occs ! nat ?mid)) pos"
        "search_occurrence rl occs pos low (?mid - 1) = Some occ"
    using found le by (auto split: if_splits)
  then show ?case
  proof cases
    case here
    with bounds(3) show ?thesis by simp
  next
    case after
    show ?thesis by (rule 1(1) [OF le refl refl after(1,2,3) bounds(1) 1(5)])
  next
    case before
    show ?thesis by (rule 1(2) [OF le refl refl before(1,2,3) 1(4) bounds(2)])
  qed
qed

lemma sorted_nth:
  assumes "occurrences_sorted occs" and "i \<le> j" and "j < length occs"
  shows "pos_le (range_start (Range (occs ! i))) (range_start (Range (occs ! j))) \<and>
    pos_le (range_end (Range (occs ! i))) (range_end (Range (occs ! j)))"
proof (cases "i = j")
  case True
  then show ?thesis by (simp add: pos_le_def)
next
  case False
  with assms show ?thesis by (simp add: occurrences_sorted_def sorted_wrt_iff_nth_less)
qed

lemma search_complete:
  assumes "range_spec rl" and "list_all (\<lambda>o'. range_ok (Range o')) occs" and "occurrences_sorted occs"
  shows "search_occurrence rl occs pos low high = None \<Longrightarrow> 0 \<le> low \<Longrightarrow> high < int (length occs) \<Longrightarrow>
    low \<le> int i \<Longrightarrow> int i \<le> high \<Longrightarrow> \<not> IsMatchingPosition rl (occs ! i) pos"
  using assms
proof (induction rl occs pos low high rule: search_occurrence.induct)
  case (1 rl occs pos low high)
  define mid where "mid = (low + high) div 2"
  let ?occ = "occs ! nat mid"
  have mid: "low \<le> mid" "mid \<le> high" "0 \<le> mid" and i: "i < length occs" "nat mid < length occs"
    using "1.prems" by (auto simp: mid_def)
  have none: "\<not> IsMatchingPosition rl ?occ pos"
    using "1.prems"(1,4,5) by (subst (asm) search_occurrence.simps) (auto simp: Let_def mid_def split: if_splits)
  have ok: "\<And>j. j < length occs \<Longrightarrow> range_ok (Range (occs ! j))"
    using "1.prems"(7) by (simp add: list_all_length)
  note match = IsMatchingPosition_iff [OF "1.prems"(6) ok]
  show ?case
  proof (cases "IsRangeBefore (Range ?occ) pos")
    case True
    then have rest: "search_occurrence rl occs pos (mid + 1) high = None"
      using "1.prems"(1,4,5) none by (subst (asm) search_occurrence.simps) (simp add: Let_def mid_def)
    show ?thesis
    proof (cases "int i \<le> mid")
      case below: True
      then have "pos_le (range_end (Range (occs ! i))) (range_end (Range ?occ))"
        using sorted_nth [OF "1.prems"(8), of i "nat mid"] i mid by simp
      with True show ?thesis
        using match [OF i(1)] by (auto simp: IsRangeBefore_iff dest: pos_le_trans)
    next
      case False
      with "1.IH"(1) [OF _ mid_def refl none True rest] "1.prems" mid show ?thesis by simp
    qed
  next
    case False
    then have rest: "search_occurrence rl occs pos low (mid - 1) = None"
      using "1.prems"(1,4,5) none by (subst (asm) search_occurrence.simps) (simp add: Let_def mid_def)
    from False none match [OF i(2)] have late: "\<not> pos_le (range_start (Range ?occ)) (pos_val pos)"
      by (simp add: IsRangeBefore_iff)
    show ?thesis
    proof (cases "mid \<le> int i")
      case True
      then have "pos_le (range_start (Range ?occ)) (range_start (Range (occs ! i)))"
        using sorted_nth [OF "1.prems"(8), of "nat mid" i] i mid by simp
      with late show ?thesis using match [OF i(1)] by (auto dest: pos_le_trans)
    next
      case below: False
      with "1.IH"(2) [OF _ mid_def refl none False rest] "1.prems" mid show ?thesis by simp
    qed
  qed
qed

text \<open>
  C6. \<^verbatim>\<open>GetOccurrenceForPosition\<close> is correct: with starts and ends of the occurrences in document
  order (they may touch and repeat), the binary search returns an occurrence that contains the
  position, both bounds included, whenever there is one, and nil otherwise.
\<close>

theorem GetOccurrenceForPosition_correct:
  assumes "range_spec rl" and "list_all (\<lambda>o'. range_ok (Range o')) occs" and "occurrences_sorted occs"
  shows "case GetOccurrenceForPosition rl occs pos of
      Some occ \<Rightarrow> occ \<in> set occs \<and> pos_le (range_start (Range occ)) (pos_val pos) \<and>
        pos_le (pos_val pos) (range_end (Range occ))
    | None \<Rightarrow> \<not> (\<exists>occ \<in> set occs. pos_le (range_start (Range occ)) (pos_val pos) \<and>
        pos_le (pos_val pos) (range_end (Range occ)))"
proof (cases "GetOccurrenceForPosition rl occs pos")
  case (Some occ)
  then have occ: "occ \<in> set occs" "IsMatchingPosition rl occ pos"
    using search_sound [of rl occs pos 0] by (auto simp: GetOccurrenceForPosition_def)
  with assms(2) have "range_ok (Range occ)" by (simp add: list_all_iff)
  from IsMatchingPosition_iff [OF assms(1) this] occ Some show ?thesis by simp
next
  case None
  have "\<not> (pos_le (range_start (Range occ)) (pos_val pos) \<and> pos_le (pos_val pos) (range_end (Range occ)))"
    if "occ \<in> set occs" for occ
  proof -
    from that obtain i where i: "i < length occs" "occ = occs ! i" by (metis in_set_conv_nth)
    from search_complete [OF assms, of pos 0 "int (length occs) - 1" i] None i
    have "\<not> IsMatchingPosition rl occ pos" by (simp add: GetOccurrenceForPosition_def)
    moreover have "range_ok (Range occ)" using assms(2) that by (simp add: list_all_iff)
    ultimately show ?thesis using IsMatchingPosition_iff [OF assms(1)] by simp
  qed
  with None show ?thesis by auto
qed

definition sample_rangelib :: rangelib where
  "sample_rangelib =
     \<lparr>NewRange = (\<lambda>r. if range_ok r then
        Ok \<lparr>sr_Start = \<lparr>sp_Line = r ! 0, sp_Character = r ! 1\<rparr>,
            sr_End = \<lparr>sp_Line = (if length r = 3 then r ! 0 else r ! 2),
                      sp_Character = (if length r = 3 then r ! 2 else r ! 3)\<rparr>\<rparr>
        else Fail (External ''invalid range'')),
      IsSingleLine = (\<lambda>rng. sp_Line (sr_Start rng) = sp_Line (sr_End rng))\<rparr>"

lemma range_spec_sample: "range_spec sample_rangelib"
  by (simp add: range_spec_def sample_rangelib_def)

definition occurrence_at :: "int32 list \<Rightarrow> gostring \<Rightarrow> int32 \<Rightarrow> occurrence" where
  "occurrence_at r s roles = \<lparr>Range = r, Symbol = s, SymbolRoles = roles, OverrideDocumentation = [],
     SyntaxKind = 0, EnclosingRange = []\<rparr>"

theorem GetOccurrenceForPosition_witness:
  "\<exists>occ. GetOccurrenceForPosition sample_rangelib
     [occurrence_at [0, 1, 4] ''a'' 1, occurrence_at [0, 4, 2, 1] ''b'' 0, occurrence_at [3, 0, 5] ''c'' 0]
     \<lparr>Line = 1, Character = 9\<rparr> = Some occ \<and> pos_le (pos_val \<lparr>Line = 1, Character = 9\<rparr>) (range_end (Range occ))"
proof -
  let ?occs = "[occurrence_at [0, 1, 4] ''a'' 1, occurrence_at [0, 4, 2, 1] ''b'' 0,
    occurrence_at [3, 0, 5] ''c'' 0]"
  have "list_all (\<lambda>o'. range_ok (Range o')) ?occs" "occurrences_sorted ?occs"
    by (simp_all add: occurrence_at_def range_ok_def range_start_def range_end_def pos_le_def
        occurrences_sorted_def)
  from GetOccurrenceForPosition_correct [OF range_spec_sample this, of "\<lparr>Line = 1, Character = 9\<rparr>"]
  show ?thesis
    by (auto simp: occurrence_at_def range_start_def range_end_def pos_le_def pos_val_def split: option.splits)
qed

lemma GetOccurrencesForSymbol_eq:
  "GetOccurrencesForSymbol occs symbol role =
     filter (\<lambda>occ. Symbol occ = symbol \<and> (role = - 1 \<or> has_role occ role)) occs"
  by (induction occs) auto

lemma GetLocalSymbolInformation_eq:
  "GetLocalSymbolInformation ss symbol = find (\<lambda>s. si_Symbol s = symbol) ss"
  by (induction ss) auto

end
