(* ===== verification/PartialIndex.thy ===== *)
theory PartialIndex
  imports PrefixTreePrune ScanFolder ScipUtils
begin

text \<open>
  \<^verbatim>\<open>src/scip-lib/partialloader/index.go\<close>: the partially loaded index. The closures it passes to the
  scanner are functions on an explicit state: the index itself and the local maps of \<^verbatim>\<open>LoadIndex\<close>. The
  calls of \<^verbatim>\<open>onDocumentLoaded\<close> are recorded in \<open>loaded_log\<close>. Maps are association lists. Revisions are
  integers: the code takes the larger of two through \<^verbatim>\<open>float64\<close>, which is exact below \<open>2 ^ 53\<close>. Locks
  are not modelled; each operation is atomic.
\<close>

subsection \<open>State\<close>

record doc_nodes =
  dn_nodes :: "addr list"
  dn_revision :: int

record partial_index =
  nodes_heap :: heap
  PrefixTreeRoot :: addr
  LoadedDocuments :: "(gostring \<times> document) list"
  DocTreeNodes :: "(gostring \<times> doc_nodes) list"
  revision :: int
  updatedDocs :: "(gostring \<times> int) list"
  docToIndex :: "(gostring \<times> gostring) list"
  indexFolder :: gostring
  pool_sizes :: "int list"
  loaded_log :: "document list"
  ImplementorsBySymbol :: "(gostring \<times> gostring list) list"

definition NewPartialLoadedIndex :: "gostring \<Rightarrow> partial_index" where
  "NewPartialLoadedIndex folder =
     (case NewSymbolPrefixTree [] of
        (h, root) \<Rightarrow>
          \<lparr>nodes_heap = h, PrefixTreeRoot = root, LoadedDocuments = [], DocTreeNodes = [], revision = 0,
           updatedDocs = [], docToIndex = [], indexFolder = folder, pool_sizes = bucket_sizes 1024 12,
           loaded_log = [], ImplementorsBySymbol = []\<rparr>)"

text \<open>The local variables of \<^verbatim>\<open>LoadIndex\<close>, with the index.\<close>

record load_state =
  ls_index :: partial_index
  localPrefixTree :: addr
  localDocTreeNodes :: "(gostring \<times> doc_nodes) list"
  localUpdatedDocs :: "(gostring \<times> int) list"
  localDocToIndex :: "(gostring \<times> gostring) list"
  localImplementorsBySymbol :: "(gostring \<times> gostring list) list"

type_synonym scip_protolib = "(scip_document, scip_symbol_information, scip_occurrence) protolib"

subsection \<open>The callbacks of \<^verbatim>\<open>LoadIndex\<close>\<close>

definition load_MatchSymbol :: "symlib \<Rightarrow> byte list \<Rightarrow> load_state \<Rightarrow> bool \<times> load_state" where
  "load_MatchSymbol sl symbol st = (\<not> IsLocalSymbol sl symbol, st)"

definition load_MatchDocumentPath :: "gostring \<Rightarrow> gostring \<Rightarrow> load_state \<Rightarrow> bool \<times> load_state" where
  "load_MatchDocumentPath indexPath indexDocPath st =
     (let docPath = Clean indexDocPath;
          st1 = st\<lparr>localDocToIndex := AList.update docPath indexPath (localDocToIndex st)\<rparr>;
          (dn, st2) =
            (case map_of (localDocTreeNodes st1) docPath of
               Some dn \<Rightarrow> (dn, st1)
             | None \<Rightarrow>
                 let rev' = revision (ls_index st1) + 1; dn = \<lparr>dn_nodes = [], dn_revision = rev'\<rparr>
                 in (dn, st1\<lparr>ls_index := (ls_index st1)\<lparr>revision := rev'\<rparr>,
                             localDocTreeNodes := AList.update docPath dn (localDocTreeNodes st1)\<rparr>));
          st3 = st2\<lparr>localUpdatedDocs := AList.update docPath (dn_revision dn) (localUpdatedDocs st2)\<rparr>
      in (map_of (LoadedDocuments (ls_index st3)) docPath \<noteq> None, st3))"

text \<open>Adds \<open>impl\<close> to the set under \<open>abs\<close>, creating it.\<close>

definition add_implementor ::
  "gostring \<Rightarrow> gostring \<Rightarrow> (gostring \<times> gostring list) list \<Rightarrow> (gostring \<times> gostring list) list" where
  "add_implementor abs' impl m =
     AList.update abs' (List.insert impl (case map_of m abs' of None \<Rightarrow> [] | Some is \<Rightarrow> is)) m"

fun add_relationships ::
  "gostring \<Rightarrow> relationship list \<Rightarrow> (gostring \<times> gostring list) list \<Rightarrow> (gostring \<times> gostring list) list" where
  "add_relationships impl [] m = m"
| "add_relationships impl (rel # rels) m =
     add_relationships impl rels (if IsImplementation rel then add_implementor (rel_Symbol rel) impl m else m)"

text \<open>Appending to the nodes of a document that has no entry dereferences nil.\<close>

definition load_VisitSymbol ::
  "symlib \<Rightarrow> gostring \<Rightarrow> scip_symbol_information \<Rightarrow> load_state \<Rightarrow> status \<times> load_state" where
  "load_VisitSymbol sl indexDocPath info st =
     (let docPath = Clean indexDocPath; modelInfo = to_model_symbol info; p = ls_index st
      in case AddSymbol sl (nodes_heap p) (localPrefixTree st) docPath modelInfo (revision p) of
           Ok (h', leafNode, isNew) \<Rightarrow>
             (let st1 = st\<lparr>ls_index := p\<lparr>nodes_heap := h'\<rparr>,
                           localImplementorsBySymbol := add_relationships (si_Symbol modelInfo)
                             (Relationships modelInfo) (localImplementorsBySymbol st)\<rparr>
              in if isNew
                 then (case map_of (localDocTreeNodes st1) docPath of
                         None \<Rightarrow> (Panicked, st1)
                       | Some dn \<Rightarrow>
                           (Done, st1\<lparr>localDocTreeNodes := AList.update docPath
                              (dn\<lparr>dn_nodes := dn_nodes dn @ [the leafNode]\<rparr>) (localDocTreeNodes st1)\<rparr>))
                 else (Done, st1))
         | _ \<Rightarrow> (Panicked, st))"

definition load_VisitDocument :: "scip_document \<Rightarrow> load_state \<Rightarrow> status \<times> load_state" where
  "load_VisitDocument doc st =
     (let docPath = Clean (sdoc_RelativePath doc); modelDoc = to_model_document doc; p = ls_index st
      in (Done, st\<lparr>ls_index := p\<lparr>LoadedDocuments := AList.update docPath modelDoc (LoadedDocuments p),
            loaded_log := loaded_log p @ [modelDoc]\<rparr>\<rparr>))"

definition load_scanner ::
  "symlib \<Rightarrow> partial_index \<Rightarrow> gostring \<Rightarrow>
   (scip_document, scip_symbol_information, scip_occurrence, load_state) scanner" where
  "load_scanner sl p indexPath =
     \<lparr>MatchDocumentPath = Some (load_MatchDocumentPath indexPath),
      MatchSymbol = Some (load_MatchSymbol sl), MatchOccurrence = None,
      VisitDocument = Some load_VisitDocument,
      VisitSymbol = Some (load_VisitSymbol sl), VisitOccurrence = None,
      PoolSizes = pool_sizes p\<rparr>"

subsection \<open>Merging the local maps into the index\<close>

definition mergePrefixTree :: "addr \<Rightarrow> partial_index \<Rightarrow> partial_index option" where
  "mergePrefixTree localTree p =
     map_option (\<lambda>h. p\<lparr>nodes_heap := h\<rparr>)
       (Merge (length (nodes_heap p)) (nodes_heap p) (PrefixTreeRoot p) localTree)"

fun merge_doc_nodes :: "(gostring \<times> doc_nodes) list \<Rightarrow> (gostring \<times> doc_nodes) list \<Rightarrow> (gostring \<times> doc_nodes) list" where
  "merge_doc_nodes [] m = m"
| "merge_doc_nodes ((docPath, dn) # rest) m =
     merge_doc_nodes rest
       (case map_of m docPath of
          None \<Rightarrow> AList.update docPath dn m
        | Some old \<Rightarrow> AList.update docPath
            \<lparr>dn_nodes = dn_nodes old @ dn_nodes dn, dn_revision = max (dn_revision old) (dn_revision dn)\<rparr> m)"

definition mergeDocTreeNodes :: "(gostring \<times> doc_nodes) list \<Rightarrow> partial_index \<Rightarrow> partial_index" where
  "mergeDocTreeNodes localNodes p = p\<lparr>DocTreeNodes := merge_doc_nodes localNodes (DocTreeNodes p)\<rparr>"

fun merge_updated :: "(gostring \<times> int) list \<Rightarrow> (gostring \<times> int) list \<Rightarrow> (gostring \<times> int) list" where
  "merge_updated [] m = m"
| "merge_updated ((docPath, r) # rest) m =
     merge_updated rest (AList.update docPath (max (case map_of m docPath of None \<Rightarrow> 0 | Some x \<Rightarrow> x) r) m)"

definition mergeUpdatedDocs :: "(gostring \<times> int) list \<Rightarrow> partial_index \<Rightarrow> partial_index" where
  "mergeUpdatedDocs localUpdated p = p\<lparr>updatedDocs := merge_updated localUpdated (updatedDocs p)\<rparr>"

definition mergeDocToIndex :: "(gostring \<times> gostring) list \<Rightarrow> partial_index \<Rightarrow> partial_index" where
  "mergeDocToIndex localDocs p = p\<lparr>docToIndex := AList.merge (docToIndex p) localDocs\<rparr>"

fun merge_impl_sets ::
  "(gostring \<times> gostring list) list \<Rightarrow> (gostring \<times> gostring list) list \<Rightarrow> (gostring \<times> gostring list) list" where
  "merge_impl_sets [] m = m"
| "merge_impl_sets ((abs', impls) # rest) m =
     merge_impl_sets rest
       (fold (add_implementor abs') impls
          (case map_of m abs' of None \<Rightarrow> AList.update abs' [] m | Some _ \<Rightarrow> m))"

definition mergeImplementors :: "(gostring \<times> gostring list) list \<Rightarrow> partial_index \<Rightarrow> partial_index" where
  "mergeImplementors localImpl p =
     p\<lparr>ImplementorsBySymbol := merge_impl_sets localImpl (ImplementorsBySymbol p)\<rparr>"

text \<open>The deferred function of \<^verbatim>\<open>LoadIndex\<close>: it runs whether or not the scan failed.\<close>

definition merge_load :: "load_state \<Rightarrow> partial_index option" where
  "merge_load st =
     (case mergePrefixTree (localPrefixTree st) (ls_index st) of
        None \<Rightarrow> None
      | Some p1 \<Rightarrow>
          Some (mergeImplementors (localImplementorsBySymbol st)
            (mergeDocToIndex (localDocToIndex st)
              (mergeUpdatedDocs (localUpdatedDocs st)
                (mergeDocTreeNodes (localDocTreeNodes st) p1)))))"

definition start_load :: "partial_index \<Rightarrow> load_state" where
  "start_load p =
     \<lparr>ls_index = p\<lparr>nodes_heap := nodes_heap p @ [empty_node]\<rparr>, localPrefixTree = length (nodes_heap p),
      localDocTreeNodes = [], localUpdatedDocs = [], localDocToIndex = [], localImplementorsBySymbol = []\<rparr>"

definition LoadIndex ::
  "nat \<Rightarrow> scip_protolib \<Rightarrow> symlib \<Rightarrow> partial_index \<Rightarrow> gostring \<Rightarrow> reader \<Rightarrow> (status \<times> partial_index) option" where
  "LoadIndex fuel pl sl p indexPath r =
     (case ScanIndexReader fuel pl (load_scanner sl p indexPath) r (start_load p) of
        None \<Rightarrow> None
      | Some (s, st) \<Rightarrow> map_option (\<lambda>p'. (s, p')) (merge_load st))"

definition LoadIndexFile ::
  "nat \<Rightarrow> scip_protolib \<Rightarrow> symlib \<Rightarrow> filesystem \<Rightarrow> partial_index \<Rightarrow> gostring \<Rightarrow> (status \<times> partial_index) option" where
  "LoadIndexFile fuel pl sl fs p path =
     (case fs_Open fs path of
        Fail e \<Rightarrow> Some (Failed e, p)
      | Panic \<Rightarrow> Some (Panicked, p)
      | Ok bs \<Rightarrow> LoadIndex fuel pl sl p path (new_reader bs))"

subsection \<open>Queries\<close>

text \<open>\<^verbatim>\<open>(nil, "", nil)\<close> is \<open>Ok (None, '''')\<close>.\<close>

definition GetSymbolInformationFromDescriptors ::
  "partial_index \<Rightarrow> descriptor list \<Rightarrow> gostring \<Rightarrow> (symbol_information option \<times> gostring) outcome" where
  "GetSymbolInformationFromDescriptors p descriptors version =
     (if descriptors = [] then Fail (Errorf ''no descriptors provided'' [])
      else case walk (nodes_heap p) (PrefixTreeRoot p) descriptors of
             None \<Rightarrow> Ok (None, '''')
           | Some a \<Rightarrow>
               (let versions = SymbolVersions (nodes_heap p ! a)
                in if versions = [] \<or> version = '''' then Ok (None, '''')
                   else case map_of versions version of
                          Some vi \<Rightarrow> Ok (Some (vi_Info vi), vi_DocumentPath vi)
                        | None \<Rightarrow>
                            (case map_of versions (hd (sort (map fst versions))) of
                               Some vi \<Rightarrow> Ok (Some (vi_Info vi), vi_DocumentPath vi)
                             | None \<Rightarrow> Panic)))"

definition GetSymbolInformation ::
  "symlib \<Rightarrow> partial_index \<Rightarrow> gostring \<Rightarrow> (symbol_information option \<times> gostring) outcome" where
  "GetSymbolInformation sl p symbol =
     (if IsLocalSymbol sl symbol then Ok (None, '''')
      else obind (ParseScipSymbol (ParseSymbol sl) symbol) (\<lambda>sy.
             case Package sy of
               None \<Rightarrow> Panic
             | Some pkg \<Rightarrow>
                 GetSymbolInformationFromDescriptors p
                   (ScipDescriptorsToModelDescriptors (Descriptors sy)) (spkg_Version pkg)))"

definition Implementations :: "partial_index \<Rightarrow> gostring \<Rightarrow> gostring list" where
  "Implementations p symbol = (case map_of (ImplementorsBySymbol p) symbol of None \<Rightarrow> [] | Some is \<Rightarrow> is)"

text \<open>\<^verbatim>\<open>References\<close>: the occurrences collected so far, by document path as the index has it.\<close>

definition refs_scanner ::
  "partial_index \<Rightarrow> gostring \<Rightarrow>
   (scip_document, scip_symbol_information, scip_occurrence, (gostring \<times> occurrence list) list) scanner" where
  "refs_scanner p symbol =
     \<lparr>MatchDocumentPath = None, MatchSymbol = None,
      MatchOccurrence = Some (\<lambda>occSymbol st. (occSymbol = symbol, st)),
      VisitDocument = None, VisitSymbol = None,
      VisitOccurrence = Some (\<lambda>docPath occ st.
        (Done, AList.update docPath
          ((case map_of st docPath of None \<Rightarrow> [] | Some occs \<Rightarrow> occs) @
             [the (ScipOccurrenceToModelOccurrence (Some occ))]) st)),
      PoolSizes = pool_sizes p\<rparr>"

definition References ::
  "nat \<Rightarrow> scip_protolib \<Rightarrow> symlib \<Rightarrow> filesystem \<Rightarrow> partial_index \<Rightarrow> gostring \<Rightarrow>
   (gostring \<times> occurrence list) list outcome option" where
  "References fuel pl sl fs p symbol =
     (if IsLocalSymbol sl symbol then Some (Ok [])
      else case ScanIndexFolder fuel pl (refs_scanner p symbol) fs (indexFolder p) [] of
             None \<Rightarrow> None
           | Some (Done, occs) \<Rightarrow> Some (Ok occs)
           | Some (Failed e, _) \<Rightarrow> Some (Fail e)
           | Some (Panicked, _) \<Rightarrow> Some Panic)"

subsection \<open>Loading one document\<close>

definition doc_scanner ::
  "partial_index \<Rightarrow> gostring \<Rightarrow>
   (scip_document, scip_symbol_information, scip_occurrence, partial_index) scanner" where
  "doc_scanner p docPath =
     \<lparr>MatchDocumentPath = Some (\<lambda>path st. (Clean path = docPath, st)), MatchSymbol = None, MatchOccurrence = None,
      VisitDocument = Some (\<lambda>doc st.
        (Done, st\<lparr>LoadedDocuments := AList.update docPath (to_model_document doc) (LoadedDocuments st)\<rparr>)),
      VisitSymbol = None, VisitOccurrence = None, PoolSizes = pool_sizes p\<rparr>"

definition scanned_document ::
  "gostring \<Rightarrow> (status \<times> partial_index) option \<Rightarrow> (document option outcome \<times> partial_index) option" where
  "scanned_document docPath res =
     (case res of
        None \<Rightarrow> None
      | Some (Done, p') \<Rightarrow> Some (Ok (map_of (LoadedDocuments p') docPath), p')
      | Some (Failed e, p') \<Rightarrow> Some (Fail e, p')
      | Some (Panicked, p') \<Rightarrow> Some (Panic, p'))"

definition loadDocumentFromIndex ::
  "nat \<Rightarrow> scip_protolib \<Rightarrow> filesystem \<Rightarrow> partial_index \<Rightarrow> gostring \<Rightarrow> gostring \<Rightarrow>
   (document option outcome \<times> partial_index) option" where
  "loadDocumentFromIndex fuel pl fs p indexPath docPath =
     scanned_document docPath (ScanIndexFile fuel pl (doc_scanner p docPath) fs indexPath p)"

definition loadDocumentFromIndexFolder ::
  "nat \<Rightarrow> scip_protolib \<Rightarrow> filesystem \<Rightarrow> partial_index \<Rightarrow> gostring \<Rightarrow>
   (document option outcome \<times> partial_index) option" where
  "loadDocumentFromIndexFolder fuel pl fs p docPath =
     scanned_document docPath (ScanIndexFolder fuel pl (doc_scanner p docPath) fs (indexFolder p) p)"

definition LoadDocument ::
  "nat \<Rightarrow> scip_protolib \<Rightarrow> filesystem \<Rightarrow> partial_index \<Rightarrow> gostring \<Rightarrow>
   (document option outcome \<times> partial_index) option" where
  "LoadDocument fuel pl fs p docPath =
     (case map_of (LoadedDocuments p) docPath of
        Some doc \<Rightarrow> Some (Ok (Some doc), p)
      | None \<Rightarrow>
          (case (case map_of (docToIndex p) docPath of
                   Some indexPath \<Rightarrow> loadDocumentFromIndex fuel pl fs p indexPath docPath
                 | None \<Rightarrow> loadDocumentFromIndexFolder fuel pl fs p docPath) of
             Some (Ok (Some doc), p') \<Rightarrow> Some (Ok (Some doc), p'\<lparr>loaded_log := loaded_log p' @ [doc]\<rparr>)
           | res \<Rightarrow> res))"

subsection \<open>Tidy\<close>

text \<open>\<^verbatim>\<open>nodes.nodes[0]\<close> is out of range for a document without nodes.\<close>

fun tidy_docs :: "(gostring \<times> doc_nodes) list \<Rightarrow> partial_index \<Rightarrow> (status \<times> partial_index) option" where
  "tidy_docs [] p = Some (Done, p)"
| "tidy_docs ((docPath, dn) # rest) p =
     (case dn_nodes dn of
        [] \<Rightarrow> Some (Panicked, p)
      | n # _ \<Rightarrow>
          (case Parent (nodes_heap p ! n) of
             None \<Rightarrow> tidy_docs rest p
           | Some parent \<Rightarrow>
               (case PruneNodes (length (nodes_heap p)) (nodes_heap p) parent docPath (dn_revision dn) of
                  None \<Rightarrow> None
                | Some h \<Rightarrow> tidy_docs rest (p\<lparr>nodes_heap := h\<rparr>))))"

definition Tidy :: "partial_index \<Rightarrow> (status \<times> partial_index) option" where
  "Tidy p =
     (case tidy_docs (DocTreeNodes p) p of
        Some (Done, p') \<Rightarrow> Some (Done, p'\<lparr>updatedDocs := []\<rparr>)
      | res \<Rightarrow> res)"

end
