(* ===== verification/PartialIndexSpec.thy ===== *)
theory PartialIndexSpec
  imports PartialIndex
begin

text \<open>
  What the partially loaded index promises: loading an index stores every global symbol of its
  documents under its descriptors and version, on top of what was there, and the queries return it.
  The prefix tree provides the contract \<open>keyed_store\<close>; the loader is its client.
\<close>

subsection \<open>The prefix tree as a store of symbols\<close>

definition lookup_symbol :: "heap \<Rightarrow> addr \<Rightarrow> descriptor list \<times> gostring \<Rightarrow> version_info option" where
  "lookup_symbol h t k = (case view h t (fst k) of None \<Rightarrow> None | Some nv \<Rightarrow> nv_versions nv (snd k))"

definition put_symbol ::
  "addr \<Rightarrow> gostring \<times> int \<Rightarrow> descriptor list \<times> gostring \<Rightarrow> version_info \<Rightarrow> heap \<Rightarrow> heap" where
  "put_symbol t x k v h =
     fst (add_path h t False (fst k) (vi_DocumentPath v) (fst x) (vi_Info v) (snd x) (snd k))"

lemma lookup_add_view:
  assumes "added h t ds (add_view ds doc pre info rev' version) h' n isNew" and "fst k \<noteq> []" and "ds \<noteq> []"
  shows "lookup_symbol h' t k =
    (if k = (ds, version) then Some \<lparr>vi_Info = info, vi_DocumentPath = doc\<rparr> else lookup_symbol h t k)"
  using assms unfolding added_def lookup_symbol_def
  by (cases k) (auto simp: add_view_def put_view_def Let_def split: option.splits)

lemma put_symbol_added:
  assumes "tree h t" and "fst k \<noteq> []"
  shows "\<exists>n isNew. added h t (fst k)
    (add_view (fst k) (vi_DocumentPath v) (fst x) (vi_Info v) (snd x) (snd k)) (put_symbol t x k v h) n isNew"
proof -
  obtain h' n isNew where add: "add_path h t False (fst k) (vi_DocumentPath v) (fst x) (vi_Info v) (snd x) (snd k) = (h', n, isNew)"
    by (metis prod_cases3)
  with add_path_spec [OF add assms(2,1)] show ?thesis by (auto simp: put_symbol_def)
qed

interpretation symbols: keyed_store "\<lambda>h. tree h t" "\<lambda>k. fst k \<noteq> []" "\<lambda>h k. lookup_symbol h t k" "put_symbol t"
  for t
proof
  fix h :: heap and k :: "descriptor list \<times> gostring" and x :: "gostring \<times> int" and v :: version_info
  assume t: "tree h t" and k: "fst k \<noteq> []"
  from put_symbol_added [OF t k] obtain n isNew where
    a: "added h t (fst k) (add_view (fst k) (vi_DocumentPath v) (fst x) (vi_Info v) (snd x) (snd k))
      (put_symbol t x k v h) n isNew" by blast
  then show "tree (put_symbol t x k v h) t" by (simp add: added_def)
  fix k' :: "descriptor list \<times> gostring" assume "fst k' \<noteq> []"
  with lookup_add_view [OF a _ k] show
    "lookup_symbol (put_symbol t x k v h) t k' = (if k' = k then Some v else lookup_symbol h t k')" by simp
qed

lemma lookup_merge:
  assumes "fst k \<noteq> []" and "\<forall>d p. view h' t (d # p) = merge_view (view h t (d # p)) (view h other (d # p))"
  shows "lookup_symbol h' t k =
    (case lookup_symbol h other k of Some v \<Rightarrow> Some v | None \<Rightarrow> lookup_symbol h t k)"
  using assms by (cases k; cases "fst k")
    (auto simp: lookup_symbol_def merge_view_def map_add_def split: option.splits)

subsection \<open>The symbols of an index\<close>

text \<open>The global symbols of a document, as the loader sees them, under the document's cleaned path.\<close>

definition field_symbols :: "symlib \<Rightarrow> scip_protolib \<Rightarrow> gostring \<Rightarrow> nat \<times> payload \<Rightarrow> (gostring \<times> symbol_information) list" where
  "field_symbols sl pl path f =
     (if fst f = 3 \<and> \<not> IsLocalSymbol sl (moniker 1 (snd f))
      then (case UnmarshalSymbol pl (payload_bytes (snd f)) of Ok info \<Rightarrow> [(path, to_model_symbol info)] | _ \<Rightarrow> [])
      else [])"

fun index_field_symbols :: "symlib \<Rightarrow> scip_protolib \<Rightarrow> index_field \<Rightarrow> (gostring \<times> symbol_information) list" where
  "index_field_symbols sl pl (IndexDocument fs) =
     concat (map (field_symbols sl pl (Clean (document_path fs))) fs)"
| "index_field_symbols sl pl (IndexOther n bs) = []"

definition index_symbols :: "symlib \<Rightarrow> scip_protolib \<Rightarrow> index_field list \<Rightarrow> (gostring \<times> symbol_information) list" where
  "index_symbols sl pl ix = concat (map (index_field_symbols sl pl) ix)"

text \<open>The key and value under which a symbol is stored; none if it does not parse or has no descriptor.\<close>

definition symbol_entry ::
  "symlib \<Rightarrow> gostring \<times> symbol_information \<Rightarrow> ((descriptor list \<times> gostring) \<times> version_info) list" where
  "symbol_entry sl s =
     (case ParseScipSymbol (ParseSymbol sl) (si_Symbol (snd s)) of
        Ok sy \<Rightarrow>
          (case Package sy of
             Some pkg \<Rightarrow> if Descriptors sy = [] then []
               else [((Descriptors sy, spkg_Version pkg), \<lparr>vi_Info = snd s, vi_DocumentPath = fst s\<rparr>)]
           | None \<Rightarrow> [])
      | _ \<Rightarrow> [])"

definition index_entries ::
  "symlib \<Rightarrow> scip_protolib \<Rightarrow> index_field list \<Rightarrow> ((descriptor list \<times> gostring) \<times> version_info) list" where
  "index_entries sl pl ix = concat (map (symbol_entry sl) (index_symbols sl pl ix))"

text \<open>
  What the loader relies on: the messages it visits decode, and a global symbol either does not parse
  or has a package.
\<close>

definition symbol_parses :: "symlib \<Rightarrow> gostring \<Rightarrow> bool" where
  "symbol_parses sl s \<longleftrightarrow>
     (case ParseSymbol sl s of Ok sy \<Rightarrow> Package sy \<noteq> None | Fail e \<Rightarrow> True | Panic \<Rightarrow> False)"

definition field_decodes :: "symlib \<Rightarrow> scip_protolib \<Rightarrow> nat \<times> payload \<Rightarrow> bool" where
  "field_decodes sl pl f \<longleftrightarrow>
     (fst f = 3 \<longrightarrow> \<not> IsLocalSymbol sl (moniker 1 (snd f)) \<longrightarrow>
        (case UnmarshalSymbol pl (payload_bytes (snd f)) of Ok info \<Rightarrow> symbol_parses sl (ssi_Symbol info) | _ \<Rightarrow> False))"

fun index_decodes :: "symlib \<Rightarrow> scip_protolib \<Rightarrow> index_field \<Rightarrow> bool" where
  "index_decodes sl pl (IndexDocument fs) =
     (list_all (field_decodes sl pl) fs \<and>
      (case UnmarshalDocument pl (document_bytes fs) of Ok d \<Rightarrow> True | _ \<Rightarrow> False))"
| "index_decodes sl pl (IndexOther n bs) = True"

subsection \<open>The state during a load\<close>

abbreviation impls_at :: "(gostring \<times> gostring list) list \<Rightarrow> gostring \<Rightarrow> gostring set" where
  "impls_at m abs' \<equiv> (case map_of m abs' of None \<Rightarrow> {} | Some is \<Rightarrow> set is)"

text \<open>The symbols that declare to implement \<open>abs'\<close>.\<close>

definition implementors_of :: "(gostring \<times> symbol_information) list \<Rightarrow> gostring \<Rightarrow> gostring set" where
  "implementors_of syms abs' =
     {si_Symbol i | d i. (d, i) \<in> set syms \<and> (\<exists>rel \<in> set (Relationships i). IsImplementation rel \<and> rel_Symbol rel = abs')}"

definition impl_rel :: "partial_index \<Rightarrow> load_state \<Rightarrow> (gostring \<times> symbol_information) list \<Rightarrow> bool" where
  "impl_rel p0 st syms \<longleftrightarrow>
     ImplementorsBySymbol (ls_index st) = ImplementorsBySymbol p0 \<and> distinct (map fst (localImplementorsBySymbol st)) \<and>
     (\<forall>a. impls_at (localImplementorsBySymbol st) a = implementors_of syms a)"

definition tree_rel :: "partial_index \<Rightarrow> load_state \<Rightarrow> ((descriptor list \<times> gostring) \<times> version_info) list \<Rightarrow> bool" where
  "tree_rel p0 st kvs \<longleftrightarrow>
     (let h0 = nodes_heap p0; h = nodes_heap (ls_index st); t = length h0
      in PrefixTreeRoot (ls_index st) = PrefixTreeRoot p0 \<and> localPrefixTree st = t \<and>
         t < length h \<and> (\<forall>a < t. h ! a = h0 ! a) \<and> tree h t \<and> parents_ok h t \<and> reach h t \<subseteq> {t..} \<and>
         (\<forall>k. fst k \<noteq> [] \<longrightarrow> lookup_symbol h t k = map_of (rev kvs) k))"

lemma tree_rel_start: "tree_rel p (start_load p) []"
proof -
  have "lookup_symbol (nodes_heap p @ [empty_node]) (length (nodes_heap p)) k = None" if "fst k \<noteq> []" for k
    using that by (cases k; cases "fst k") (auto simp: lookup_symbol_def view_Cons empty_node_def)
  then show ?thesis
    using tree_new [of "nodes_heap p"] reach_new [of "nodes_heap p"] parents_new [of "nodes_heap p"]
    by (simp add: tree_rel_def start_load_def Let_def nth_append)
qed

lemma tree_rel_heap:
  "tree_rel p0 st kvs \<Longrightarrow> nodes_heap (ls_index st') = nodes_heap (ls_index st) \<Longrightarrow>
   PrefixTreeRoot (ls_index st') = PrefixTreeRoot (ls_index st) \<Longrightarrow> localPrefixTree st' = localPrefixTree st \<Longrightarrow>
   tree_rel p0 st' kvs"
  by (simp add: tree_rel_def)

lemma tree_rel_add:
  assumes rel: "tree_rel p0 st kvs" and ds: "ds \<noteq> []"
    and add: "add_path (nodes_heap (ls_index st)) (localPrefixTree st) b ds doc pre info rev' version = (h', n, isNew)"
    and st': "nodes_heap (ls_index st') = h'" "PrefixTreeRoot (ls_index st') = PrefixTreeRoot (ls_index st)"
      "localPrefixTree st' = localPrefixTree st"
  shows "tree_rel p0 st' (kvs @ [((ds, version), \<lparr>vi_Info = info, vi_DocumentPath = doc\<rparr>)])"
proof -
  let ?h = "nodes_heap (ls_index st)" and ?t = "length (nodes_heap p0)"
  have t: "localPrefixTree st = ?t" "tree ?h ?t" "?t < length ?h" "reach ?h ?t \<subseteq> {?t..}"
    using rel by (simp_all add: tree_rel_def Let_def)
  have a: "added ?h ?t ds (add_view ds doc pre info rev' version) h' n isNew"
    using add_path_spec [OF add ds] t(1,2) by simp
  have "h' ! i = nodes_heap p0 ! i" if "i < ?t" for i
  proof -
    have "i \<notin> reach ?h ?t" using that t(4) by fastforce
    with a that t(3) rel show ?thesis by (simp add: added_def tree_rel_def Let_def)
  qed
  moreover have "reach h' ?t \<subseteq> {?t..}" using a t(3,4) by (fastforce simp: added_def)
  moreover have "lookup_symbol h' ?t k = map_of (rev (kvs @ [((ds, version), \<lparr>vi_Info = info, vi_DocumentPath = doc\<rparr>)])) k"
    if "fst k \<noteq> []" for k
    using lookup_add_view [OF a that ds] rel that by (cases k) (auto simp: tree_rel_def Let_def)
  ultimately show ?thesis
    using a rel st' t(3) by (simp add: tree_rel_def Let_def added_def)
qed

lemma add_implementor_set:
  "impls_at (add_implementor a i m) b = (if b = a then insert i (impls_at m a) else impls_at m b)"
  by (auto simp: add_implementor_def update_conv' split: option.splits)

lemma add_relationships_set:
  "impls_at (add_relationships i rels m) b =
     impls_at m b \<union> (if \<exists>rel \<in> set rels. IsImplementation rel \<and> rel_Symbol rel = b then {i} else {})"
  by (induction rels arbitrary: m) (auto simp: add_implementor_set split: if_splits)

lemma add_relationships_distinct:
  "distinct (map fst m) \<Longrightarrow> distinct (map fst (add_relationships i rels m))"
  by (induction rels arbitrary: m) (auto simp: add_implementor_def distinct_update)

lemma merge_impl_sets_set:
  "impls_at (merge_impl_sets l m) b = impls_at m b \<union> (\<Union>(a, is) \<in> set l. if a = b then set is else {})"
proof (induction l arbitrary: m)
  case (Cons e l)
  obtain a is' where e: "e = (a, is')" by (cases e)
  have "impls_at (fold (add_implementor a) is' m') b = impls_at m' b \<union> (if a = b then set is' else {})" for m'
    by (induction is' arbitrary: m') (auto simp: add_implementor_set split: if_splits)
  moreover have "impls_at (case map_of m a of None \<Rightarrow> AList.update a [] m | Some _ \<Rightarrow> m) b = impls_at m b"
    by (auto simp: update_conv' split: option.splits)
  ultimately show ?case using Cons.IH by (auto simp: e)
qed simp

lemma union_entries:
  "distinct (map fst l) \<Longrightarrow> (\<Union>(a, is) \<in> set l. if a = b then set is else {}) = impls_at l b"
proof (induction l)
  case (Cons e l)
  obtain a is' where e: "e = (a, is')" by (cases e)
  moreover have "map_of l a = None" using Cons.prems e by (simp add: map_of_eq_None_iff)
  ultimately show ?case using Cons by (cases "a = b") simp_all
qed simp

lemma implementors_append: "implementors_of (xs @ ys) a = implementors_of xs a \<union> implementors_of ys a"
  unfolding implementors_of_def set_append by blast

text \<open>Both parts of what a load has stored so far, for the symbols visited.\<close>

definition load_rel :: "symlib \<Rightarrow> partial_index \<Rightarrow> load_state \<Rightarrow> (gostring \<times> symbol_information) list \<Rightarrow> bool" where
  "load_rel sl p0 st syms \<longleftrightarrow> tree_rel p0 st (concat (map (symbol_entry sl) syms)) \<and> impl_rel p0 st syms"

lemma load_rel_start: "load_rel sl p (start_load p) []"
  using tree_rel_start [of p] by (simp add: load_rel_def impl_rel_def start_load_def implementors_of_def)

lemma load_rel_heap:
  "load_rel sl p0 st syms \<Longrightarrow> nodes_heap (ls_index st') = nodes_heap (ls_index st) \<Longrightarrow>
   PrefixTreeRoot (ls_index st') = PrefixTreeRoot (ls_index st) \<Longrightarrow> localPrefixTree st' = localPrefixTree st \<Longrightarrow>
   ImplementorsBySymbol (ls_index st') = ImplementorsBySymbol (ls_index st) \<Longrightarrow>
   localImplementorsBySymbol st' = localImplementorsBySymbol st \<Longrightarrow> load_rel sl p0 st' syms"
  using tree_rel_heap by (auto simp: load_rel_def impl_rel_def)

abbreviation has_doc :: "gostring \<Rightarrow> load_state \<Rightarrow> bool" where
  "has_doc docPath st \<equiv> map_of (localDocTreeNodes st) docPath \<noteq> None"

lemma load_match_document:
  assumes "load_MatchDocumentPath indexPath path st = (m, st')" and "load_rel sl p0 st syms"
  shows "load_rel sl p0 st' syms \<and> has_doc (Clean path) st'"
proof -
  have "nodes_heap (ls_index st') = nodes_heap (ls_index st)" "PrefixTreeRoot (ls_index st') = PrefixTreeRoot (ls_index st)"
    "localPrefixTree st' = localPrefixTree st" "ImplementorsBySymbol (ls_index st') = ImplementorsBySymbol (ls_index st)"
    "localImplementorsBySymbol st' = localImplementorsBySymbol st" "has_doc (Clean path) st'"
    using assms(1) by (auto simp: load_MatchDocumentPath_def Let_def update_conv' split: option.splits)
  with load_rel_heap [OF assms(2)] show ?thesis by blast
qed

lemma load_visit_document:
  assumes "load_rel sl p0 st syms" and "has_doc docPath st"
  shows "\<exists>st'. load_VisitDocument d st = (Done, st') \<and> load_rel sl p0 st' syms \<and> has_doc docPath st'"
  using load_rel_heap [OF assms(1)] assms(2) by (auto simp: load_VisitDocument_def Let_def)

lemma impl_rel_visit:
  assumes "impl_rel p0 st syms" and "ImplementorsBySymbol (ls_index st') = ImplementorsBySymbol (ls_index st)"
    and "localImplementorsBySymbol st' =
      add_relationships (si_Symbol info) (Relationships info) (localImplementorsBySymbol st)"
  shows "impl_rel p0 st' (syms @ [(path, info)])"
proof -
  have "implementors_of [(path, info)] a =
      (if \<exists>rel \<in> set (Relationships info). IsImplementation rel \<and> rel_Symbol rel = a then {si_Symbol info} else {})" for a
    by (auto simp: implementors_of_def)
  then show ?thesis
    using assms by (simp add: impl_rel_def implementors_append add_relationships_set add_relationships_distinct)
qed

text \<open>Adding the symbol to the local tree adds its entry, if it has one, to those the tree stands for.\<close>

lemma AddSymbol_rel:
  assumes tr: "tree_rel p0 st kvs" and ok: "symbol_parses sl (ssi_Symbol info)"
  obtains h' n isNew where "AddSymbol sl (nodes_heap (ls_index st)) (localPrefixTree st) (Clean path) (to_model_symbol info) (revision (ls_index st)) = Ok (h', n, isNew)"
    and "\<And>st'. nodes_heap (ls_index st') = h' \<Longrightarrow> PrefixTreeRoot (ls_index st') = PrefixTreeRoot (ls_index st) \<Longrightarrow>
      localPrefixTree st' = localPrefixTree st \<Longrightarrow> tree_rel p0 st' (kvs @ symbol_entry sl (Clean path, to_model_symbol info))"
proof (cases "ParseSymbol sl (ssi_Symbol info)")
  case (Ok raw)
  with ok obtain pkg where pkg: "Package raw = Some pkg" by (auto simp: symbol_parses_def)
  let ?pkg = "fill_package (Descriptors raw) pkg"
  have parse: "ParseScipSymbol (ParseSymbol sl) (ssi_Symbol info) = Ok (raw\<lparr>Package := Some ?pkg\<rparr>)"
    using Ok pkg by (simp add: ParseScipSymbol_spec)
  obtain h' n isNew where path: "add_path (nodes_heap (ls_index st)) (localPrefixTree st) False (Descriptors raw) (Clean path)
      (Scheme raw @ '' '' @ PackageID sl ?pkg) (to_model_symbol info) (revision (ls_index st)) (spkg_Version ?pkg) = (h', n, isNew)"
    by (metis prod_cases3)
  have entry: "symbol_entry sl (Clean path, to_model_symbol info) = (if Descriptors raw = [] then []
      else [((Descriptors raw, spkg_Version ?pkg), \<lparr>vi_Info = to_model_symbol info, vi_DocumentPath = Clean path\<rparr>)])"
    using parse by (simp add: symbol_entry_def)
  have "tree_rel p0 st' (kvs @ symbol_entry sl (Clean path, to_model_symbol info))"
    if "nodes_heap (ls_index st') = h'" "PrefixTreeRoot (ls_index st') = PrefixTreeRoot (ls_index st)"
      "localPrefixTree st' = localPrefixTree st" for st'
  proof (cases "Descriptors raw = []")
    case True
    with path entry tree_rel_heap [OF tr, of st'] that show ?thesis by simp
  next
    case False
    with tree_rel_add [OF tr False path that] entry show ?thesis by simp
  qed
  moreover have "AddSymbol sl (nodes_heap (ls_index st)) (localPrefixTree st) (Clean path) (to_model_symbol info) (revision (ls_index st)) = Ok (h', Some n, isNew)"
    using path parse by (simp add: AddSymbol_def)
  ultimately show thesis using that by blast
next
  case (Fail e)
  then have "ParseScipSymbol (ParseSymbol sl) (ssi_Symbol info) = Fail e" by (simp add: ParseScipSymbol_spec)
  then show thesis
    using that [of "nodes_heap (ls_index st)" None False] tree_rel_heap [OF tr] by (simp add: AddSymbol_def symbol_entry_def)
next
  case Panic
  with ok show thesis by (simp add: symbol_parses_def)
qed

lemma load_visit_symbol:
  assumes rel: "load_rel sl p0 st syms" and doc: "has_doc (Clean path) st" and ok: "symbol_parses sl (ssi_Symbol info)"
  shows "\<exists>st'. load_VisitSymbol sl path info st = (Done, st') \<and>
    load_rel sl p0 st' (syms @ [(Clean path, to_model_symbol info)]) \<and> has_doc (Clean path) st'"
proof -
  let ?info = "to_model_symbol info" and ?h = "nodes_heap (ls_index st)" and ?t = "localPrefixTree st"
  let ?kvs = "concat (map (symbol_entry sl) syms)"
  have tr: "tree_rel p0 st ?kvs" using rel by (simp add: load_rel_def)
  obtain h' n isNew where add: "AddSymbol sl ?h ?t (Clean path) ?info (revision (ls_index st)) = Ok (h', n, isNew)"
    and tree': "\<And>st'. nodes_heap (ls_index st') = h' \<Longrightarrow> PrefixTreeRoot (ls_index st') = PrefixTreeRoot (ls_index st) \<Longrightarrow>
      localPrefixTree st' = ?t \<Longrightarrow> tree_rel p0 st' (?kvs @ symbol_entry sl (Clean path, ?info))"
    by (rule AddSymbol_rel [OF tr ok, of path]) blast
  have "\<exists>st'. load_VisitSymbol sl path info st = (Done, st') \<and> nodes_heap (ls_index st') = h' \<and>
      PrefixTreeRoot (ls_index st') = PrefixTreeRoot (ls_index st) \<and> localPrefixTree st' = ?t \<and>
      ImplementorsBySymbol (ls_index st') = ImplementorsBySymbol (ls_index st) \<and>
      localImplementorsBySymbol st' = add_relationships (si_Symbol ?info) (Relationships ?info) (localImplementorsBySymbol st) \<and>
      has_doc (Clean path) st'"
    using add doc by (auto simp: load_VisitSymbol_def Let_def update_conv' split: option.splits)
  then obtain st' where st': "load_VisitSymbol sl path info st = (Done, st')" "nodes_heap (ls_index st') = h'"
    "PrefixTreeRoot (ls_index st') = PrefixTreeRoot (ls_index st)" "localPrefixTree st' = ?t"
    "ImplementorsBySymbol (ls_index st') = ImplementorsBySymbol (ls_index st)"
    "localImplementorsBySymbol st' = add_relationships (si_Symbol ?info) (Relationships ?info) (localImplementorsBySymbol st)"
    "has_doc (Clean path) st'" by blast
  have "impl_rel p0 st' (syms @ [(Clean path, ?info)])"
    by (rule impl_rel_visit [OF _ st'(5,6)]) (use rel in \<open>simp add: load_rel_def\<close>)
  with st' tree' [OF st'(2-4)] show ?thesis by (simp add: load_rel_def)
qed

lemma load_visit_field:
  assumes rel: "load_rel sl p0 st syms" and doc: "has_doc (Clean path) st" and ok: "field_decodes sl pl f"
  shows "\<exists>st'. visit_field pl (load_scanner sl p indexPath) path f st = (Done, st') \<and>
    load_rel sl p0 st' (syms @ field_symbols sl pl (Clean path) f) \<and>
    has_doc (Clean path) st'"
proof (cases "fst f = 3 \<and> \<not> IsLocalSymbol sl (moniker 1 (snd f))")
  case True
  with ok obtain info where info: "UnmarshalSymbol pl (payload_bytes (snd f)) = Ok info"
    "symbol_parses sl (ssi_Symbol info)"
    by (auto simp: field_decodes_def split: outcome.splits)
  with load_visit_symbol [OF rel doc info(2)] True show ?thesis
    by (simp add: visit_field_def load_scanner_def load_MatchSymbol_def visit_matched_def field_symbols_def)
next
  case False
  then have "field_symbols sl pl (Clean path) f = []" by (auto simp: field_symbols_def)
  moreover have "visit_field pl (load_scanner sl p indexPath) path f st = (Done, st)"
    using False by (auto simp: visit_field_def load_scanner_def load_MatchSymbol_def visit_matched_def)
  ultimately show ?thesis using rel doc by simp
qed

lemma load_visit_fields:
  "load_rel sl p0 st syms \<Longrightarrow> has_doc (Clean path) st \<Longrightarrow> list_all (field_decodes sl pl) fs \<Longrightarrow>
   \<exists>st'. visit_seq (visit_field pl (load_scanner sl p indexPath) path) fs st = (Done, st') \<and>
     load_rel sl p0 st' (syms @ concat (map (field_symbols sl pl (Clean path)) fs))"
proof (induction fs arbitrary: st syms)
  case (Cons f fs)
  have "field_decodes sl pl f" using Cons.prems(3) by simp
  from load_visit_field [OF Cons.prems(1,2) this] obtain st1 where
    st1: "visit_field pl (load_scanner sl p indexPath) path f st = (Done, st1)"
    "load_rel sl p0 st1 (syms @ field_symbols sl pl (Clean path) f)" "has_doc (Clean path) st1"
    by blast
  from Cons.IH [OF st1(2,3)] Cons.prems(3) st1(1) show ?case by simp
qed simp

lemma load_visit_index:
  "load_rel sl p0 st syms \<Longrightarrow> list_all (index_decodes sl pl) ix \<Longrightarrow>
   \<exists>st'. visit_index pl (load_scanner sl p indexPath) ix st = (Done, st') \<and>
     load_rel sl p0 st' (syms @ index_symbols sl pl ix)"
proof (induction ix arbitrary: st syms)
  case (Cons f ix)
  have "\<exists>st1. visit_index_field pl (load_scanner sl p indexPath) f st = (Done, st1) \<and>
      load_rel sl p0 st1 (syms @ index_field_symbols sl pl f)"
  proof (cases f)
    case (IndexDocument fs)
    with Cons.prems(2) obtain d where d: "UnmarshalDocument pl (document_bytes fs) = Ok d"
      and ok: "list_all (field_decodes sl pl) fs" by (auto split: outcome.splits)
    obtain m st1 where m: "load_MatchDocumentPath indexPath (document_path fs) st = (m, st1)" by fastforce
    from load_match_document [OF m Cons.prems(1)] have st1: "load_rel sl p0 st1 syms" "has_doc (Clean (document_path fs)) st1" by auto
    have "\<exists>st2. visit_matched m (Some load_VisitDocument) (Ok d) (Errorf ''failed to read document'' []) st1 = (Done, st2) \<and>
        load_rel sl p0 st2 syms \<and> has_doc (Clean (document_path fs)) st2"
      using load_visit_document [OF st1] st1 by (simp add: visit_matched_def)
    then obtain st2 where st2: "visit_matched m (Some load_VisitDocument) (Ok d) (Errorf ''failed to read document'' []) st1 = (Done, st2)"
      "load_rel sl p0 st2 syms" "has_doc (Clean (document_path fs)) st2" by blast
    from load_visit_fields [OF st2(2,3) ok, of p indexPath] st2(1) m d IndexDocument show ?thesis
      by (auto simp: visit_document_def load_scanner_def)
  qed (use Cons.prems in simp)
  then obtain st1 where st1: "visit_index_field pl (load_scanner sl p indexPath) f st = (Done, st1)"
    "load_rel sl p0 st1 (syms @ index_field_symbols sl pl f)" by blast
  from Cons.IH [OF st1(2)] Cons.prems(2) st1(1) show ?case by (simp add: index_entries_def index_symbols_def)
qed (simp add: index_entries_def index_symbols_def)

subsection \<open>Loading an index\<close>

text \<open>The invariant of the index: its symbols form a tree with correct parent pointers.\<close>

definition index_inv :: "partial_index \<Rightarrow> bool" where
  "index_inv p \<longleftrightarrow> tree (nodes_heap p) (PrefixTreeRoot p) \<and> parents_ok (nodes_heap p) (PrefixTreeRoot p)"

abbreviation index_symbol :: "partial_index \<Rightarrow> descriptor list \<times> gostring \<Rightarrow> version_info option" where
  "index_symbol p k \<equiv> lookup_symbol (nodes_heap p) (PrefixTreeRoot p) k"

lemma merge_load_spec:
  assumes inv: "index_inv p" and rel: "tree_rel p st kvs" and impl: "impl_rel p st syms"
  shows "\<exists>p'. merge_load st = Some p' \<and> index_inv p' \<and>
    (\<forall>k. fst k \<noteq> [] \<longrightarrow>
       index_symbol p' k = (case map_of (rev kvs) k of Some v \<Rightarrow> Some v | None \<Rightarrow> index_symbol p k)) \<and>
    (\<forall>a. set (Implementations p' a) = set (Implementations p a) \<union> implementors_of syms a)"
proof -
  let ?old = "nodes_heap p" and ?h = "nodes_heap (ls_index st)" and ?r = "PrefixTreeRoot p" and ?t = "length (nodes_heap p)"
  have rel': "PrefixTreeRoot (ls_index st) = ?r" "localPrefixTree st = ?t" "?t < length ?h" "\<And>a. a < ?t \<Longrightarrow> ?h ! a = ?old ! a"
    "tree ?h ?t" "parents_ok ?h ?t" "reach ?h ?t \<subseteq> {?t..}"
    "\<And>k. fst k \<noteq> [] \<Longrightarrow> lookup_symbol ?h ?t k = map_of (rev kvs) k"
    using rel by (simp_all add: tree_rel_def Let_def del: split_paired_All)
  have r: "tree ?old ?r" "parents_ok ?old ?r" using inv by (simp_all add: index_inv_def)
  have same: "?h ! a = ?old ! a" if "a \<in> reach ?old ?r" for a using rel'(4) reach_bound [OF r(1) that] by simp
  have ch: "Children (?h ! a) = Children (?old ! a)" if "a \<in> reach ?old ?r" for a using same [OF that] by simp
  have t: "tree ?h ?r" by (rule tree_frame [OF r(1) ch]) (use rel'(3) in simp_all)
  have pr: "parents_ok ?h ?r" by (rule parents_frame [OF r(2) ch]) (simp_all add: same r(1))
  have views: "view ?h ?r q = view ?old ?r q" for q by (rule view_frame) (rule same)
  have "reach ?h ?r = reach ?old ?r" by (rule reach_frame) (rule ch)
  then have disj: "reach ?h ?r \<inter> reach ?h ?t = {}" using reach_bound [OF r(1)] rel'(7) by fastforce
  obtain h' where h': "Merge (length ?h) ?h ?r ?t = Some h'" "merged ?h ?r ?t h'"
    using Merge_merged [OF t rel'(5) disj tree_depth [OF rel'(5)]] by blast
  have look: "lookup_symbol h' ?r k = (case map_of (rev kvs) k of Some v \<Rightarrow> Some v | None \<Rightarrow> index_symbol p k)"
    if "fst k \<noteq> []" for k
  proof -
    have mv: "\<forall>d q. view h' ?r (d # q) = merge_view (view ?h ?r (d # q)) (view ?h ?t (d # q))"
      using h'(2) by (simp add: merged_def)
    have "lookup_symbol ?h ?r k = index_symbol p k" by (simp add: lookup_symbol_def views)
    then show ?thesis using lookup_merge [OF that mv] rel'(8) [OF that] by (simp split: option.split)
  qed
  have shape: "tree h' ?r" "parents_ok h' ?r" using h'(2) pr rel'(6) by (simp_all add: merged_def)
  have impls: "set (Implementations q a) = impls_at (ImplementorsBySymbol q) a" for q a
    by (simp add: Implementations_def split: option.split)
  have "impls_at (merge_impl_sets (localImplementorsBySymbol st) (ImplementorsBySymbol (ls_index st))) a =
      impls_at (ImplementorsBySymbol p) a \<union> implementors_of syms a" for a
    using impl by (simp add: merge_impl_sets_set union_entries impl_rel_def)
  with shape look h'(1) rel'(1,2) show ?thesis
    by (simp add: merge_load_def mergePrefixTree_def mergeImplementors_def mergeDocToIndex_def
        mergeUpdatedDocs_def mergeDocTreeNodes_def index_inv_def impls)
qed

text \<open>
  C3. \<^verbatim>\<open>LoadIndex\<close> of a well-formed index whose messages decode: it succeeds, keeps the invariant of the
  symbol tree, and afterwards every global symbol of the index (the last one, where several have the
  same descriptors and version) is stored with its document, while all other symbols are unchanged;
  \<^verbatim>\<open>Implementations\<close> gains exactly the symbols of the index that declare an implementation.
\<close>

theorem LoadIndex_symbols:
  assumes "wire_spec pl" and "list_all index_field_ok ix" and "length (index_bytes ix) < fuel"
    and "length (index_bytes ix) < 2 ^ 63" and "list_all (index_decodes sl pl) ix" and "index_inv p"
  shows "\<exists>p'. LoadIndex fuel pl sl p indexPath (new_reader (index_bytes ix)) = Some (Done, p') \<and> index_inv p' \<and>
    (\<forall>k. fst k \<noteq> [] \<longrightarrow>
       index_symbol p' k = (case map_of (rev (index_entries sl pl ix)) k of Some v \<Rightarrow> Some v | None \<Rightarrow> index_symbol p k)) \<and>
    (\<forall>a. set (Implementations p' a) = set (Implementations p a) \<union> implementors_of (index_symbols sl pl ix) a)"
proof -
  obtain st where st: "visit_index pl (load_scanner sl p indexPath) ix (start_load p) = (Done, st)"
    "load_rel sl p st (index_symbols sl pl ix)"
    using load_visit_index [OF load_rel_start assms(5)] by fastforce
  have "tree_rel p st (index_entries sl pl ix)" "impl_rel p st (index_symbols sl pl ix)"
    using st(2) by (simp_all add: load_rel_def index_entries_def)
  from merge_load_spec [OF assms(6) this] st(1) show ?thesis
    by (auto simp: LoadIndex_def index_scan_at [OF assms(1-4), of "load_scanner sl p indexPath"])
qed

subsection \<open>Looking symbols up\<close>

lemma hd_sort_Min: "xs \<noteq> [] \<Longrightarrow> hd (sort xs) = Min (set xs)"
  for xs :: "'a :: linorder list"
proof -
  assume "xs \<noteq> []"
  then have ne: "sort xs \<noteq> []" by (metis length_0_conv length_sort)
  then have "hd (sort xs) \<in> set xs" by (metis hd_in_set set_sort)
  moreover have "\<forall>x \<in> set xs. hd (sort xs) \<le> x"
    using sorted_sort [of xs] ne by (metis list.collapse list.set_cases order_refl set_ConsD set_sort sorted_simps(2))
  ultimately show ?thesis by (intro Min_eqI [symmetric]) auto
qed

text \<open>
  \<^verbatim>\<open>GetSymbolInformationFromDescriptors\<close> never panics. For a version that is given it returns the info
  stored under that version, or else under the least version of the node; an unknown path, a node
  without versions and an empty version give nil.
\<close>

theorem GetSymbolInformationFromDescriptors_spec:
  assumes "descriptors \<noteq> []"
  shows "GetSymbolInformationFromDescriptors p descriptors version =
    (case view (nodes_heap p) (PrefixTreeRoot p) descriptors of
       None \<Rightarrow> Ok (None, '''')
     | Some nv \<Rightarrow>
         (if dom (nv_versions nv) = {} \<or> version = '''' then Ok (None, '''')
          else let v = (if version \<in> dom (nv_versions nv) then version else Min (dom (nv_versions nv)));
                   vi = the (nv_versions nv v)
               in Ok (Some (vi_Info vi), vi_DocumentPath vi)))"
proof (cases "walk (nodes_heap p) (PrefixTreeRoot p) descriptors")
  case None
  with assms show ?thesis by (simp add: GetSymbolInformationFromDescriptors_def view_def)
next
  case (Some a)
  let ?vs = "SymbolVersions (nodes_heap p ! a)"
  have dom: "dom (map_of ?vs) = set (map fst ?vs)" by (simp add: dom_map_of_conv_image_fst)
  have least: "?vs \<noteq> [] \<Longrightarrow> \<exists>vi. map_of ?vs (Min (set (map fst ?vs))) = Some vi"
    using Min_in [of "set (map fst ?vs)"] dom by (metis domD finite_set list.map_disc_iff set_empty)
  show ?thesis
  proof (cases "?vs = [] \<or> version = ''''")
    case True
    with Some assms show ?thesis
      by (auto simp: GetSymbolInformationFromDescriptors_def view_def node_view_def Let_def)
  next
    case False
    with Some assms least hd_sort_Min [of "map fst ?vs"] dom show ?thesis
      by (auto simp: GetSymbolInformationFromDescriptors_def view_def node_view_def Let_def split: option.splits)
  qed
qed


text \<open>
  A symbol of a loaded index is found under its descriptors and version, with the document that
  defines it.
\<close>

lemma FromDescriptors_found:
  assumes "descriptors \<noteq> []" and "version \<noteq> ''''" and "index_symbol p (descriptors, version) = Some vi"
  shows "GetSymbolInformationFromDescriptors p descriptors version = Ok (Some (vi_Info vi), vi_DocumentPath vi)"
proof -
  from assms(3) obtain a where "walk (nodes_heap p) (PrefixTreeRoot p) descriptors = Some a"
    "map_of (SymbolVersions (nodes_heap p ! a)) version = Some vi"
    by (auto simp: lookup_symbol_def view_def node_view_def split: option.splits)
  moreover from this have "SymbolVersions (nodes_heap p ! a) \<noteq> []" by auto
  ultimately show ?thesis
    using assms(1,2) by (simp add: GetSymbolInformationFromDescriptors_def Let_def)
qed

subsection \<open>References\<close>

text \<open>The occurrences of a symbol in a document of an index, in order.\<close>

definition field_occurrences :: "scip_protolib \<Rightarrow> gostring \<Rightarrow> nat \<times> payload \<Rightarrow> occurrence list" where
  "field_occurrences pl symbol f =
     (if fst f = 2 \<and> moniker 2 (snd f) = symbol
      then (case UnmarshalOccurrence pl (payload_bytes (snd f)) of
              Ok occ \<Rightarrow> [the (ScipOccurrenceToModelOccurrence (Some occ))] | _ \<Rightarrow> [])
      else [])"

fun index_occurrences :: "scip_protolib \<Rightarrow> gostring \<Rightarrow> gostring \<Rightarrow> index_field \<Rightarrow> occurrence list" where
  "index_occurrences pl symbol docPath (IndexDocument fs) =
     (if document_path fs = docPath then concat (map (field_occurrences pl symbol) fs) else [])"
| "index_occurrences pl symbol docPath (IndexOther n bs) = []"

fun occurrences_decode :: "scip_protolib \<Rightarrow> gostring \<Rightarrow> index_field \<Rightarrow> bool" where
  "occurrences_decode pl symbol (IndexDocument fs) =
     list_all (\<lambda>f. fst f = 2 \<longrightarrow> moniker 2 (snd f) = symbol \<longrightarrow>
       (case UnmarshalOccurrence pl (payload_bytes (snd f)) of Ok occ \<Rightarrow> True | _ \<Rightarrow> False)) fs"
| "occurrences_decode pl symbol (IndexOther n bs) = True"

abbreviation occs_at :: "(gostring \<times> occurrence list) list \<Rightarrow> gostring \<Rightarrow> occurrence list" where
  "occs_at m docPath \<equiv> (case map_of m docPath of None \<Rightarrow> [] | Some occs \<Rightarrow> occs)"

lemma refs_visit_fields:
  "occurrences_decode pl symbol (IndexDocument fs) \<Longrightarrow>
   \<exists>m'. visit_seq (visit_field pl (refs_scanner p symbol) path) fs m = (Done, m') \<and>
     (\<forall>d. occs_at m' d = occs_at m d @ (if path = d then concat (map (field_occurrences pl symbol) fs) else []))"
proof (induction fs arbitrary: m)
  case (Cons f fs)
  have "\<exists>m1. visit_field pl (refs_scanner p symbol) path f m = (Done, m1) \<and>
      (\<forall>d. occs_at m1 d = occs_at m d @ (if path = d then field_occurrences pl symbol f else []))"
    using Cons.prems
    by (auto simp: visit_field_def refs_scanner_def visit_matched_def field_occurrences_def update_conv'
        split: outcome.splits)
  then obtain m1 where m1: "visit_field pl (refs_scanner p symbol) path f m = (Done, m1)"
    "\<forall>d. occs_at m1 d = occs_at m d @ (if path = d then field_occurrences pl symbol f else [])" by blast
  have "occurrences_decode pl symbol (IndexDocument fs)" using Cons.prems by simp
  from Cons.IH [OF this, of m1] m1 show ?case by auto
qed simp

lemma refs_visit_index:
  "list_all (occurrences_decode pl symbol) ix \<Longrightarrow>
   \<exists>m'. visit_index pl (refs_scanner p symbol) ix m = (Done, m') \<and>
     (\<forall>d. occs_at m' d = occs_at m d @ concat (map (index_occurrences pl symbol d) ix))"
proof (induction ix arbitrary: m)
  case (Cons f ix)
  have "\<exists>m1. visit_index_field pl (refs_scanner p symbol) f m = (Done, m1) \<and>
      (\<forall>d. occs_at m1 d = occs_at m d @ index_occurrences pl symbol d f)"
  proof (cases f)
    case (IndexDocument fs)
    with Cons.prems have "occurrences_decode pl symbol (IndexDocument fs)" by simp
    from refs_visit_fields [OF this, of p "document_path fs" m] obtain m1 where
      "visit_seq (visit_field pl (refs_scanner p symbol) (document_path fs)) fs m = (Done, m1)"
      "\<forall>d. occs_at m1 d = occs_at m d @
        (if document_path fs = d then concat (map (field_occurrences pl symbol) fs) else [])" by blast
    moreover have "MatchDocumentPath (refs_scanner p symbol) = None" by (simp add: refs_scanner_def)
    ultimately show ?thesis using IndexDocument by (simp add: visit_document_def)
  qed simp
  then obtain m1 where m1: "visit_index_field pl (refs_scanner p symbol) f m = (Done, m1)"
    "\<forall>d. occs_at m1 d = occs_at m d @ index_occurrences pl symbol d f" by blast
  have "list_all (occurrences_decode pl symbol) ix" using Cons.prems by simp
  from Cons.IH [OF this, of m1] m1 show ?case by auto
qed simp

text \<open>
  C5. \<^verbatim>\<open>References\<close> of a global symbol returns, for every document path, exactly the occurrences of the
  symbol in the documents with that path in all index files of the folder, in order.
\<close>

theorem References_complete:
  assumes "\<not> IsLocalSymbol sl symbol" and "wire_spec pl" and "fs_ReadDir fs (indexFolder p) = Ok entries"
    and "folder_holds fs (indexFolder p) fuel entries ixs" and "list_all (occurrences_decode pl symbol) (concat ixs)"
  shows "\<exists>m. References fuel pl sl fs p symbol = Some (Ok m) \<and>
    (\<forall>docPath. occs_at m docPath = concat (map (index_occurrences pl symbol docPath) (concat ixs)))"
proof -
  obtain m where m: "visit_index pl (refs_scanner p symbol) (concat ixs) [] = (Done, m)"
    "\<forall>d. occs_at m d = concat (map (index_occurrences pl symbol d) (concat ixs))"
    using refs_visit_index [OF assms(5), of p "[]"] by auto
  from ScanIndexFolder_spec [OF assms(2-4) m(1)] m(2) assms(1) show ?thesis by (simp add: References_def)
qed

end
