(* ===== verification/PartialIndexDocs.thy ===== *)
theory PartialIndexDocs
  imports PartialIndexSpec
begin

text \<open>
  Loading documents on demand, cleaning up after a reload, and concrete runs of the partially loaded
  index on which the properties of this component are instantiated.
\<close>

subsection \<open>LoadDocument\<close>

text \<open>The documents of an index with a given cleaned path.\<close>

fun index_documents :: "scip_protolib \<Rightarrow> gostring \<Rightarrow> index_field \<Rightarrow> document list" where
  "index_documents pl docPath (IndexDocument fs) =
     (if Clean (document_path fs) = docPath
      then (case UnmarshalDocument pl (document_bytes fs) of Ok d \<Rightarrow> [to_model_document d] | _ \<Rightarrow> [])
      else [])"
| "index_documents pl docPath (IndexOther n bs) = []"

fun documents_decode :: "scip_protolib \<Rightarrow> gostring \<Rightarrow> index_field \<Rightarrow> bool" where
  "documents_decode pl docPath (IndexDocument fs) =
     (Clean (document_path fs) = docPath \<longrightarrow>
        (case UnmarshalDocument pl (document_bytes fs) of Ok d \<Rightarrow> True | _ \<Rightarrow> False))"
| "documents_decode pl docPath (IndexOther n bs) = True"

definition last_option :: "'a list \<Rightarrow> 'a option" where
  "last_option xs = (if xs = [] then None else Some (last xs))"

lemma doc_visit_fields: "visit_seq (visit_field pl (doc_scanner p docPath) path) fs st = (Done, st)"
  by (induction fs) (auto simp: visit_field_def doc_scanner_def)

lemma doc_visit_document:
  assumes "documents_decode pl docPath (IndexDocument fs)"
  shows "visit_document pl (doc_scanner p docPath) fs st =
    (Done, case index_documents pl docPath (IndexDocument fs) of
       [] \<Rightarrow> st
     | d # _ \<Rightarrow> st\<lparr>LoadedDocuments := AList.update docPath d (LoadedDocuments st)\<rparr>)"
proof -
  have sel: "MatchDocumentPath (doc_scanner p docPath) = Some (\<lambda>path st. (Clean path = docPath, st))"
    "VisitDocument (doc_scanner p docPath) = Some (\<lambda>doc st.
        (Done, st\<lparr>LoadedDocuments := AList.update docPath (to_model_document doc) (LoadedDocuments st)\<rparr>))"
    by (simp_all add: doc_scanner_def)
  show ?thesis
    using assms by (auto simp: visit_document_def sel doc_visit_fields visit_matched_def split: outcome.splits)
qed

lemma doc_visit_index:
  "list_all (documents_decode pl docPath) ix \<Longrightarrow>
   \<exists>docs. visit_index pl (doc_scanner p docPath) ix st = (Done, st\<lparr>LoadedDocuments := docs\<rparr>) \<and>
     map_of docs docPath = (case last_option (concat (map (index_documents pl docPath) ix)) of
       Some d \<Rightarrow> Some d | None \<Rightarrow> map_of (LoadedDocuments st) docPath)"
proof (induction ix arbitrary: st)
  case Nil
  then show ?case by (auto simp: last_option_def intro: exI [of _ "LoadedDocuments st"])
next
  case (Cons f ix)
  have "\<exists>docs. visit_index_field pl (doc_scanner p docPath) f st = (Done, st\<lparr>LoadedDocuments := docs\<rparr>) \<and>
      map_of docs docPath = (case last_option (index_documents pl docPath f) of
        Some d \<Rightarrow> Some d | None \<Rightarrow> map_of (LoadedDocuments st) docPath)"
  proof (cases f)
    case (IndexDocument fs)
    with Cons.prems doc_visit_document [of pl docPath fs p st] show ?thesis
      by (auto simp: last_option_def update_conv' split: outcome.splits intro: exI [of _ "LoadedDocuments st"])
  next
    case (IndexOther n bs)
    then show ?thesis by (auto simp: last_option_def intro: exI [of _ "LoadedDocuments st"])
  qed
  then obtain docs where d: "visit_index_field pl (doc_scanner p docPath) f st = (Done, st\<lparr>LoadedDocuments := docs\<rparr>)"
    "map_of docs docPath = (case last_option (index_documents pl docPath f) of
        Some d \<Rightarrow> Some d | None \<Rightarrow> map_of (LoadedDocuments st) docPath)" by blast
  have "list_all (documents_decode pl docPath) ix" using Cons.prems by simp
  from Cons.IH [OF this, of "st\<lparr>LoadedDocuments := docs\<rparr>"] d show ?case
    by (auto simp: last_option_def split: if_splits)
qed


text \<open>
  \<^verbatim>\<open>LoadDocument\<close> of a document that is neither loaded nor mapped to an index file scans the folder:
  it returns the last document with that cleaned path in the index files (nil if there is none), reports
  it once to the callback, and from then on returns it from the cache.
\<close>

theorem LoadDocument_from_folder:
  assumes "wire_spec pl" and "fs_ReadDir fs (indexFolder p) = Ok entries"
    and "folder_holds fs (indexFolder p) fuel entries ixs"
    and "list_all (documents_decode pl docPath) (concat ixs)"
    and "map_of (LoadedDocuments p) docPath = None" and "map_of (docToIndex p) docPath = None"
  shows "\<exists>p'. LoadDocument fuel pl fs p docPath =
      Some (Ok (last_option (concat (map (index_documents pl docPath) (concat ixs)))), p') \<and>
    (case last_option (concat (map (index_documents pl docPath) (concat ixs))) of
       None \<Rightarrow> loaded_log p' = loaded_log p
     | Some d \<Rightarrow> loaded_log p' = loaded_log p @ [d] \<and>
         LoadDocument fuel' pl fs' p' docPath = Some (Ok (Some d), p'))"
proof -
  let ?last = "last_option (concat (map (index_documents pl docPath) (concat ixs)))"
  obtain docs where v: "visit_index pl (doc_scanner p docPath) (concat ixs) p = (Done, p\<lparr>LoadedDocuments := docs\<rparr>)"
    and docs: "map_of docs docPath = ?last"
    using doc_visit_index [OF assms(4), of p p] assms(5) by (auto split: option.splits)
  have "loadDocumentFromIndexFolder fuel pl fs p docPath = Some (Ok ?last, p\<lparr>LoadedDocuments := docs\<rparr>)"
    using ScanIndexFolder_spec [OF assms(1-3) v] docs
    by (simp add: loadDocumentFromIndexFolder_def scanned_document_def)
  with assms(5,6) docs show ?thesis by (auto simp: LoadDocument_def split: option.split)
qed

subsection \<open>Tidy\<close>

lemma load_visit_no_symbols:
  assumes "list_all (\<lambda>f. fst f = 3 \<longrightarrow> IsLocalSymbol sl (moniker 1 (snd f))) fs"
  shows "visit_seq (visit_field pl (load_scanner sl p indexPath) path) fs st = (Done, st)"
  using assms
  by (induction fs) (auto simp: visit_field_def load_scanner_def load_MatchSymbol_def visit_matched_def)

text \<open>
  \<^verbatim>\<open>Tidy\<close> panics after an index was loaded that has a document without global symbols: it takes the
  first node of every document, and such a document has none.
\<close>

theorem Tidy_panics_without_symbols:
  assumes "wire_spec pl" and "index_field_ok (IndexDocument fs)"
    and "length (index_bytes [IndexDocument fs]) < fuel" and "length (index_bytes [IndexDocument fs]) < 2 ^ 63"
    and "list_all (\<lambda>f. fst f = 3 \<longrightarrow> IsLocalSymbol sl (moniker 1 (snd f))) fs"
  shows "\<exists>p. LoadIndex fuel pl sl (NewPartialLoadedIndex folder) indexPath (new_reader (index_bytes [IndexDocument fs])) =
      Some (Done, p) \<and> Tidy p = Some (Panicked, p)"
proof -
  let ?p = "NewPartialLoadedIndex folder" and ?sc = "load_scanner sl (NewPartialLoadedIndex folder) indexPath"
  obtain st where st: "load_MatchDocumentPath indexPath (document_path fs) (start_load ?p) = (False, st)"
    and doc: "localDocTreeNodes st = [(Clean (document_path fs), \<lparr>dn_nodes = [], dn_revision = 1\<rparr>)]"
    and heap: "nodes_heap (ls_index st) = [empty_node, empty_node]" "PrefixTreeRoot (ls_index st) = 0"
      "localPrefixTree st = 1" "DocTreeNodes (ls_index st) = []"
    by (auto simp: load_MatchDocumentPath_def Let_def start_load_def NewPartialLoadedIndex_def NewSymbolPrefixTree_def)
  have sel: "MatchDocumentPath ?sc = Some (load_MatchDocumentPath indexPath)" by (simp add: load_scanner_def)
  have "visit_index pl ?sc [IndexDocument fs] (start_load ?p) = (Done, st)"
    using st load_visit_no_symbols [OF assms(5)]
    by (simp add: visit_document_def sel visit_matched_def load_scanner_def split: option.split)
  then have "ScanIndexReader fuel pl ?sc (new_reader (index_bytes [IndexDocument fs])) (start_load ?p) = Some (Done, st)"
    using index_scan_at [OF assms(1), of "[IndexDocument fs]" fuel ?sc] assms(2-4) by simp
  moreover obtain p where p: "merge_load st = Some p"
    "DocTreeNodes p = [(Clean (document_path fs), \<lparr>dn_nodes = [], dn_revision = 1\<rparr>)]"
    using heap doc
    by (auto simp: merge_load_def mergePrefixTree_def mergeImplementors_def mergeDocToIndex_def
        mergeUpdatedDocs_def mergeDocTreeNodes_def empty_node_def numeral_2_eq_2)
  ultimately show ?thesis by (auto simp: LoadIndex_def Tidy_def)
qed


subsection \<open>Witnesses\<close>

text \<open>
  A decoder for messages that consist of their moniker field only, a document with the path \<^verbatim>\<open>d\<close> that
  defines and mentions the symbol \<^verbatim>\<open>ab\<close>, and a folder with one index file holding it.
\<close>

definition scip_lib :: scip_protolib where
  "scip_lib = decode_lib (\<lambda>bs. Ok (ScipDocument ''go'' ''d'' [] [] ''''))
     (\<lambda>bs. Ok (ScipSymbolInformation (drop 2 bs) [] [] ScipClass ''x'' None ''''))
     (\<lambda>bs. Ok (sample_occurrence (drop 2 bs)))"

definition scip_document_fields :: document_fields where
  "scip_document_fields = [(1, Raw ''d''), (3, Msg [(1, ''ab'')] []), (2, Msg [(2, ''ab'')] [])]"

definition scip_index :: "index_field list" where
  "scip_index = [IndexDocument scip_document_fields]"

definition sample_fs :: filesystem where
  "sample_fs = \<lparr>fs_Open = (\<lambda>path. if path = ''f/i.scip'' then Ok (index_bytes scip_index) else Fail (External ''none'')),
     fs_ReadDir = (\<lambda>path. Ok [(''i.scip'', False), (''README'', False)])\<rparr>"

lemma wire_spec_scip_lib: "wire_spec scip_lib"
  by (simp add: scip_lib_def wire_spec_decode_lib)

lemma scip_document_length: "length (document_bytes scip_document_fields) = 15"
  by (simp add: scip_document_fields_def encode_field_def encode_varint.simps)

lemma scip_index_length: "length (index_bytes scip_index) = 17"
  by (simp add: scip_index_def encode_field_def scip_document_length encode_varint.simps)

lemma scip_index_ok: "list_all index_field_ok scip_index"
  by (simp add: scip_index_def scip_document_length maxAlloc_def)
    (simp add: scip_document_fields_def document_field_ok_def field_ok_def encode_field_def
      encode_varint.simps maxAlloc_def)

lemma scip_index_decodes: "list_all (index_decodes sample_symlib scip_lib) scip_index"
  by (simp add: scip_index_def scip_document_fields_def field_decodes_def symbol_parses_def
      scip_lib_def decode_lib_def sample_symlib_def)

lemma index_inv_new: "index_inv (NewPartialLoadedIndex folder)"
  using tree_new [of "[]"] parents_new [of "[]"]
  by (simp add: index_inv_def NewPartialLoadedIndex_def NewSymbolPrefixTree_def)

lemma scip_folder: "folder_holds sample_fs ''f'' 30 [(''i.scip'', False), (''README'', False)] [scip_index]"
proof -
  have "path_Join [''f'', ''i.scip''] = ''f/i.scip''" "Ext ''f/i.scip'' = ''.scip''"
    "Ext (path_Join [''f'', ''README'']) \<noteq> ''.scip''" by code_simp+
  then show ?thesis by (simp add: sample_fs_def scip_index_length scip_index_ok)
qed

abbreviation type_descriptor :: "char \<Rightarrow> descriptor" where
  "type_descriptor c \<equiv> \<lparr>Name = [c], Suffix = Descriptor_Type, Disambiguator = ''''\<rparr>"

theorem LoadIndex_symbols_witness:
  "\<exists>p' vi. LoadIndex 30 scip_lib sample_symlib (NewPartialLoadedIndex ''f'') ''i.scip''
       (new_reader (index_bytes scip_index)) = Some (Done, p') \<and> index_inv p' \<and>
     index_symbol p' ([type_descriptor CHR ''a'', type_descriptor CHR ''b''], ''1'') = Some vi \<and> vi_DocumentPath vi = ''d''"
proof -
  let ?k = "([type_descriptor CHR ''a'', type_descriptor CHR ''b''], ''1'')"
  have path: "Clean ''d'' = ''d''" by code_simp
  have dp: "document_path scip_document_fields = ''d''"
    by (simp add: document_path_def scip_document_fields_def)
  have "index_entries sample_symlib scip_lib scip_index =
      [(?k, \<lparr>vi_Info = sample_info_of_ab, vi_DocumentPath = ''d''\<rparr>)]"
    if "sample_info_of_ab = to_model_symbol (ScipSymbolInformation ''ab'' [] [] ScipClass ''x'' None '''')"
    for sample_info_of_ab
    using that path dp
    by (simp add: index_entries_def index_symbols_def scip_index_def field_symbols_def symbol_entry_def
        scip_document_fields_def ParseScipSymbol_def fill_package_def scip_lib_def decode_lib_def sample_symlib_def
        encode_field_def encode_varint.simps)
  then have entry: "\<exists>vi. map_of (rev (index_entries sample_symlib scip_lib scip_index)) ?k = Some vi \<and>
      vi_DocumentPath vi = ''d''" by simp
  from LoadIndex_symbols [OF wire_spec_scip_lib scip_index_ok _ _ scip_index_decodes index_inv_new, of 30 "''f''" "''i.scip''"]
  obtain p' where "LoadIndex 30 scip_lib sample_symlib (NewPartialLoadedIndex ''f'') ''i.scip''
      (new_reader (index_bytes scip_index)) = Some (Done, p')" "index_inv p'"
    "\<forall>k. fst k \<noteq> [] \<longrightarrow> index_symbol p' k =
      (case map_of (rev (index_entries sample_symlib scip_lib scip_index)) k of
         Some v \<Rightarrow> Some v | None \<Rightarrow> index_symbol (NewPartialLoadedIndex ''f'') k)"
    by (auto simp: scip_index_length)
  with entry show ?thesis by auto
qed

theorem GetSymbolInformationFromDescriptors_spec_witness:
  "GetSymbolInformationFromDescriptors (NewPartialLoadedIndex ''f'') [type_descriptor CHR ''a''] ''1'' = Ok (None, '''')"
  using GetSymbolInformationFromDescriptors_spec [of "[type_descriptor CHR ''a'']" "NewPartialLoadedIndex ''f''" "''1''"]
  by (simp add: view_def NewPartialLoadedIndex_def NewSymbolPrefixTree_def empty_node_def)

theorem References_complete_witness:
  "\<exists>m. References 30 scip_lib sample_symlib sample_fs (NewPartialLoadedIndex ''f'') ''ab'' = Some (Ok m) \<and>
     length (occs_at m ''d'') = 1"
proof -
  have dp: "document_path scip_document_fields = ''d''"
    by (simp add: document_path_def scip_document_fields_def)
  have decode: "list_all (occurrences_decode scip_lib ''ab'') (concat [scip_index])"
    by (simp add: scip_index_def scip_document_fields_def scip_lib_def decode_lib_def)
  have one: "length (concat (map (index_occurrences scip_lib ''ab'' ''d'') (concat [scip_index]))) = 1"
    using dp by (simp add: scip_index_def field_occurrences_def)
      (simp add: scip_document_fields_def scip_lib_def decode_lib_def field_occurrences_def)
  have "\<not> IsLocalSymbol sample_symlib ''ab''" "fs_ReadDir sample_fs (indexFolder (NewPartialLoadedIndex ''f'')) =
      Ok [(''i.scip'', False), (''README'', False)]" "indexFolder (NewPartialLoadedIndex ''f'') = ''f''"
    by (simp_all add: sample_symlib_def sample_fs_def NewPartialLoadedIndex_def NewSymbolPrefixTree_def)
  with References_complete [OF _ wire_spec_scip_lib _ _ decode, of sample_symlib sample_fs
      "NewPartialLoadedIndex ''f''" _ 30] scip_folder one show ?thesis by fastforce
qed

theorem LoadDocument_from_folder_witness:
  "\<exists>p'. LoadDocument 30 scip_lib sample_fs (NewPartialLoadedIndex ''f'') ''d'' =
     Some (Ok (Some (to_model_document (ScipDocument ''go'' ''d'' [] [] ''''))), p')"
proof -
  let ?p = "NewPartialLoadedIndex ''f''"
  have path: "Clean ''d'' = ''d''" by code_simp
  have dp: "document_path scip_document_fields = ''d''"
    by (simp add: document_path_def scip_document_fields_def)
  have sel: "indexFolder ?p = ''f''" "map_of (LoadedDocuments ?p) ''d'' = None" "map_of (docToIndex ?p) ''d'' = None"
    "fs_ReadDir sample_fs (indexFolder ?p) = Ok [(''i.scip'', False), (''README'', False)]"
    by (simp_all add: NewPartialLoadedIndex_def NewSymbolPrefixTree_def sample_fs_def)
  have docs: "concat (map (index_documents scip_lib ''d'') (concat [scip_index])) =
      [to_model_document (ScipDocument ''go'' ''d'' [] [] '''')]"
    "list_all (documents_decode scip_lib ''d'') (concat [scip_index])"
    using path dp by (simp_all add: scip_index_def scip_lib_def decode_lib_def)
  from LoadDocument_from_folder [OF wire_spec_scip_lib sel(4) _ docs(2) sel(2,3), of 30 0 sample_fs] scip_folder sel(1)
  show ?thesis unfolding docs(1) by (auto simp: last_option_def)
qed

theorem Tidy_panics_witness:
  "\<exists>p. LoadIndex 30 scip_lib sample_symlib (NewPartialLoadedIndex ''f'') ''i.scip''
       (new_reader (index_bytes [IndexDocument [(1, Raw ''d'')]])) = Some (Done, p) \<and> Tidy p = Some (Panicked, p)"
  by (rule Tidy_panics_without_symbols [OF wire_spec_scip_lib])
    (simp_all add: document_field_ok_def field_ok_def encode_field_def encode_varint.simps maxAlloc_def)

end
