(* ===== verification/Registry.thy ===== *)
theory Registry
  imports PartialIndexDocs
begin

text \<open>
  \<^verbatim>\<open>src/scip-lib/registry/partial_registry.go\<close>: the registry that answers the code-intelligence queries
  from a partial index. It calls the index through the interface \<^verbatim>\<open>PartialIndex\<close>, here a record of its
  operations over any state \<open>'s\<close>; \<^verbatim>\<open>uri.File\<close> and \<^verbatim>\<open>URI.Filename\<close> are library code. A result
  \<open>None\<close> of an operation means that the fuel of a scan ran out; otherwise it is the outcome and the
  state of the index. Logging is not modelled.
\<close>

subsection \<open>The interface of the index\<close>

record 's index_api =
  api_LoadDocument :: "gostring \<Rightarrow> 's \<Rightarrow> (document option outcome \<times> 's) option"
  api_StoreDocument :: "gostring \<Rightarrow> document \<Rightarrow> 's \<Rightarrow> 's"
  api_FromDescriptors :: "descriptor list \<Rightarrow> gostring \<Rightarrow> 's \<Rightarrow> (symbol_information option \<times> gostring) outcome"
  api_GetSymbolInformation :: "gostring \<Rightarrow> 's \<Rightarrow> (symbol_information option \<times> gostring) outcome"
  api_References :: "gostring \<Rightarrow> 's \<Rightarrow> (gostring \<times> occurrence list) list outcome option"
  api_Implementations :: "gostring \<Rightarrow> 's \<Rightarrow> gostring list"
  api_LoadIndex :: "gostring \<Rightarrow> reader \<Rightarrow> 's \<Rightarrow> (status \<times> 's) option"
  api_LoadIndexFile :: "gostring \<Rightarrow> 's \<Rightarrow> (status \<times> 's) option"

record libs =
  lib_sym :: symlib
  lib_range :: rangelib
  uri_File :: "gostring \<Rightarrow> uri"
  uri_Filename :: "uri \<Rightarrow> gostring"

record registry =
  WorkspaceRoot :: gostring
  IndexFolder :: gostring

text \<open>Operations on the state of the index that may fail, and their sequencing.\<close>

type_synonym ('a, 's) op = "'s \<Rightarrow> ('a outcome \<times> 's) option"

definition op_return :: "'a \<Rightarrow> ('a, 's) op" where
  "op_return x s = Some (Ok x, s)"

definition op_outcome :: "'a outcome \<Rightarrow> ('a, 's) op" where
  "op_outcome r s = Some (r, s)"

definition op_bind :: "('a, 's) op \<Rightarrow> ('a \<Rightarrow> ('b, 's) op) \<Rightarrow> ('b, 's) op" where
  "op_bind m f s =
     (case m s of
        None \<Rightarrow> None
      | Some (Ok x, s') \<Rightarrow> f x s'
      | Some (Fail e, s') \<Rightarrow> Some (Fail e, s')
      | Some (Panic, s') \<Rightarrow> Some (Panic, s'))"

text \<open>An operation that reads the state.\<close>

definition op_read :: "('s \<Rightarrow> 'a outcome) \<Rightarrow> ('a, 's) op" where
  "op_read f s = Some (f s, s)"

subsection \<open>Operations\<close>

definition GetURI :: "libs \<Rightarrow> registry \<Rightarrow> gostring \<Rightarrow> uri" where
  "GetURI lib reg relPath = uri_File lib (path_Join [WorkspaceRoot reg, relPath])"

definition uriToRelativePath :: "libs \<Rightarrow> registry \<Rightarrow> uri \<Rightarrow> gostring" where
  "uriToRelativePath lib reg u =
     (case path_Rel (WorkspaceRoot reg) (uri_Filename lib u) of Ok rel \<Rightarrow> rel | _ \<Rightarrow> '''')"

text \<open>A missing reader is the nil of the source.\<close>

definition registry_LoadIndex :: "'s index_api \<Rightarrow> reader option \<Rightarrow> 's \<Rightarrow> (status \<times> 's) option" where
  "registry_LoadIndex api indexReader s =
     (case indexReader of
        None \<Rightarrow> Some (Failed (Errorf ''index reader is nil'' []), s)
      | Some r \<Rightarrow> api_LoadIndex api [] r s)"

definition registry_LoadIndexFile :: "'s index_api \<Rightarrow> gostring \<Rightarrow> 's \<Rightarrow> (status \<times> 's) option" where
  "registry_LoadIndexFile api indexPath s = api_LoadIndexFile api indexPath s"

definition DidOpen :: "libs \<Rightarrow> registry \<Rightarrow> 's index_api \<Rightarrow> uri \<Rightarrow> (unit, 's) op" where
  "DidOpen lib reg api u =
     op_bind (api_LoadDocument api (uriToRelativePath lib reg u)) (\<lambda>doc. op_return ())"

definition DidClose :: "uri \<Rightarrow> (unit, 's) op" where
  "DidClose u = op_return ()"

definition first_option :: "'a list \<Rightarrow> 'a option" where
  "first_option xs = (case xs of [] \<Rightarrow> None | x # _ \<Rightarrow> Some x)"

definition GetSymbolDefinitionOccurrence ::
  "libs \<Rightarrow> registry \<Rightarrow> 's index_api \<Rightarrow> descriptor list \<Rightarrow> gostring \<Rightarrow> (symbol_occurrence option, 's) op" where
  "GetSymbolDefinitionOccurrence lib reg api descriptors version =
     op_bind (op_read (api_FromDescriptors api descriptors version)) (\<lambda>(info, defDocPath).
       case info of
         None \<Rightarrow> op_return None
       | Some symbolInformation \<Rightarrow>
           op_bind (api_LoadDocument api defDocPath) (\<lambda>defDoc.
             case defDoc of
               None \<Rightarrow> op_return None
             | Some d \<Rightarrow>
                 op_return (Some \<lparr>Location = GetURI lib reg defDocPath,
                   Occurrence = first_option (GetOccurrencesForSymbol (Occurrences d)
                     (si_Symbol symbolInformation) SymbolRole_Definition),
                   Info = Some symbolInformation\<rparr>)))"

text \<open>The document under a position and the occurrence there, which every query starts with.\<close>

definition occurrence_query ::
  "libs \<Rightarrow> registry \<Rightarrow> 's index_api \<Rightarrow> uri \<Rightarrow> position \<Rightarrow> 'b \<Rightarrow> (document \<Rightarrow> occurrence \<Rightarrow> ('b, 's) op) \<Rightarrow> ('b, 's) op" where
  "occurrence_query lib reg api u pos nil' k =
     op_bind (api_LoadDocument api (uriToRelativePath lib reg u)) (\<lambda>doc.
       case doc of
         None \<Rightarrow> op_return nil'
       | Some d \<Rightarrow>
           (case GetOccurrenceForPosition (lib_range lib) (Occurrences d) pos of
              None \<Rightarrow> op_return nil'
            | Some occ \<Rightarrow> k d occ))"

definition local_definition :: "document \<Rightarrow> uri \<Rightarrow> occurrence \<Rightarrow> symbol_occurrence \<times> symbol_occurrence" where
  "local_definition d sourceURI occ =
     (let def = first_option (GetOccurrencesForSymbol (Occurrences d) (Symbol occ) SymbolRole_Definition);
          info = GetLocalSymbolInformation (Symbols d) (Symbol occ)
      in (\<lparr>Location = sourceURI, Occurrence = Some occ, Info = info\<rparr>,
          \<lparr>Location = (if def = None then '''' else sourceURI), Occurrence = def, Info = info\<rparr>))"

text \<open>A symbol without package is dereferenced.\<close>

definition Definition ::
  "libs \<Rightarrow> registry \<Rightarrow> 's index_api \<Rightarrow> uri \<Rightarrow> position \<Rightarrow> ((symbol_occurrence \<times> symbol_occurrence) option, 's) op" where
  "Definition lib reg api sourceURI pos =
     occurrence_query lib reg api sourceURI pos None (\<lambda>d occ.
       if IsLocalSymbol (lib_sym lib) (Symbol occ)
       then op_return (Some (local_definition d sourceURI occ))
       else op_bind (op_outcome (ParseScipSymbol (ParseSymbol (lib_sym lib)) (Symbol occ))) (\<lambda>symbol.
         case Package symbol of
           None \<Rightarrow> op_outcome Panic
         | Some pkg \<Rightarrow>
             op_bind (GetSymbolDefinitionOccurrence lib reg api
                 (ScipDescriptorsToModelDescriptors (Descriptors symbol)) (spkg_Version pkg)) (\<lambda>def.
               case def of
                 None \<Rightarrow> op_return None
               | Some def' \<Rightarrow>
                   op_return (Some (\<lparr>Location = sourceURI, Occurrence = Some occ, Info = Info def'\<rparr>,
                     \<lparr>Location = Location def', Occurrence = Occurrence def', Info = Info def'\<rparr>)))))"

text \<open>\<^verbatim>\<open>(nil, nil)\<close> is \<open>None\<close>, an empty list of locations \<open>Some []\<close>.\<close>

definition registry_References ::
  "libs \<Rightarrow> registry \<Rightarrow> 's index_api \<Rightarrow> uri \<Rightarrow> position \<Rightarrow> (location list option, 's) op" where
  "registry_References lib reg api sourceURI pos =
     occurrence_query lib reg api sourceURI pos None (\<lambda>d occ.
       if IsLocalSymbol (lib_sym lib) (Symbol occ)
       then op_return (Some (map (ScipOccurrenceToLocation (lib_range lib) sourceURI)
              (filter (\<lambda>o'. Symbol o' = Symbol occ) (Occurrences d))))
       else (\<lambda>s. case api_References api (Symbol occ) s of
                None \<Rightarrow> None
              | Some (Ok occs) \<Rightarrow>
                  Some (Ok (Some (concat (map (\<lambda>(relDocPath, os).
                    map (ScipOccurrenceToLocation (lib_range lib) (GetURI lib reg relDocPath)) os) occs))), s)
              | Some (Fail e) \<Rightarrow> Some (Fail e, s)
              | Some Panic \<Rightarrow> Some (Panic, s)))"

definition hover_docs :: "occurrence \<Rightarrow> symbol_information option \<Rightarrow> gostring" where
  "hover_docs occ info =
     (if OverrideDocumentation occ \<noteq> [] then strings_Join (OverrideDocumentation occ) [CHR 0x0A]
      else case info of
             None \<Rightarrow> ''''
           | Some i \<Rightarrow>
               if Documentation i \<noteq> [] then strings_Join (Documentation i) [CHR 0x0A]
               else (case SignatureDocumentation i of None \<Rightarrow> '''' | Some sd \<Rightarrow> doc_Text sd))"

definition Hover ::
  "libs \<Rightarrow> registry \<Rightarrow> 's index_api \<Rightarrow> uri \<Rightarrow> position \<Rightarrow> (gostring \<times> occurrence option, 's) op" where
  "Hover lib reg api u pos =
     occurrence_query lib reg api u pos ('''', None) (\<lambda>d occ.
       op_bind (op_read (api_GetSymbolInformation api (Symbol occ))) (\<lambda>(info, docPath).
         op_return (hover_docs occ info, Some occ)))"

subsection \<open>Document symbols\<close>

text \<open>
  \<^verbatim>\<open>info\<close> is shared by the symbol map, the symbol list and the index: filling in its display name is
  visible there. The document is therefore updated and written back with \<open>api_StoreDocument\<close>.
\<close>

fun set_display_name :: "gostring \<Rightarrow> symbol_information \<Rightarrow> symbol_information" where
  "set_display_name name (SymbolInformation sy docs rels kind old sig enc) =
     SymbolInformation sy docs rels kind name sig enc"

text \<open>The last symbol with the moniker is the one in the map.\<close>

fun set_last_symbol :: "gostring \<Rightarrow> symbol_information \<Rightarrow> symbol_information list \<Rightarrow> symbol_information list" where
  "set_last_symbol sy info [] = []"
| "set_last_symbol sy info (i # is) =
     (if si_Symbol i = sy \<and> (\<forall>j \<in> set is. si_Symbol j \<noteq> sy) then info # is
      else i # set_last_symbol sy info is)"

fun store_info :: "gostring \<Rightarrow> symbol_information \<Rightarrow> document \<Rightarrow> document" where
  "store_info sy info (Document occs lang path syms m text diags) =
     Document occs lang path (set_last_symbol sy info syms) (AList.update sy info m) text diags"

text \<open>One occurrence of the loop: the symbol it contributes, if any, and the document.\<close>

definition document_symbol_step ::
  "libs \<Rightarrow> uri \<Rightarrow> occurrence \<Rightarrow> document \<Rightarrow> (symbol_occurrence option \<times> document) outcome" where
  "document_symbol_step lib u occ d =
     (if IsGlobalSymbol (lib_sym lib) (Symbol occ) \<and> has_role occ SymbolRole_Definition
      then (case map_of (SymbolMap d) (Symbol occ) of
              None \<Rightarrow> Ok (None, d)
            | Some info \<Rightarrow>
                if DisplayName info = ''''
                then obind (ParseScipSymbolToDisplayName (ParseSymbol (lib_sym lib)) (si_Symbol info)) (\<lambda>name.
                       let info' = set_display_name name info
                       in Ok (Some \<lparr>Location = u, Occurrence = Some occ, Info = Some info'\<rparr>,
                              store_info (Symbol occ) info' d))
                else Ok (Some \<lparr>Location = u, Occurrence = Some occ, Info = Some info\<rparr>, d))
      else Ok (None, d))"

fun document_symbols ::
  "libs \<Rightarrow> uri \<Rightarrow> occurrence list \<Rightarrow> document \<Rightarrow> (symbol_occurrence list \<times> document) outcome" where
  "document_symbols lib u [] d = Ok ([], d)"
| "document_symbols lib u (occ # occs) d =
     obind (document_symbol_step lib u occ d) (\<lambda>(so, d').
     obind (document_symbols lib u occs d') (\<lambda>(sos, d'').
       Ok ((case so of None \<Rightarrow> sos | Some x \<Rightarrow> x # sos), d'')))"

definition DocumentSymbols ::
  "libs \<Rightarrow> registry \<Rightarrow> 's index_api \<Rightarrow> uri \<Rightarrow> (symbol_occurrence list option, 's) op" where
  "DocumentSymbols lib reg api u =
     op_bind (api_LoadDocument api (uriToRelativePath lib reg u)) (\<lambda>doc.
       case doc of
         None \<Rightarrow> op_return None
       | Some d \<Rightarrow>
           op_bind (op_outcome (document_symbols lib u (Occurrences d) d)) (\<lambda>(sos, d').
             \<lambda>s. Some (Ok (Some sos), api_StoreDocument api (uriToRelativePath lib reg u) d' s)))"

definition Diagnostics :: "uri \<Rightarrow> (lsp_diagnostic list, 's) op" where
  "Diagnostics u = op_outcome (Fail (Errorf ''not implemented'' []))"

definition LoadConcurrency :: "nat \<Rightarrow> nat" where
  "LoadConcurrency NumCPU = NumCPU div 2"

subsection \<open>The partially loaded index behind the interface\<close>

definition partial_api ::
  "nat \<Rightarrow> scip_protolib \<Rightarrow> symlib \<Rightarrow> filesystem \<Rightarrow> partial_index index_api" where
  "partial_api fuel pl sl fs =
     \<lparr>api_LoadDocument = (\<lambda>path p. LoadDocument fuel pl fs p path),
      api_StoreDocument = (\<lambda>path d p. p\<lparr>LoadedDocuments := AList.update path d (LoadedDocuments p)\<rparr>),
      api_FromDescriptors = (\<lambda>ds v p. GetSymbolInformationFromDescriptors p ds v),
      api_GetSymbolInformation = (\<lambda>symbol p. GetSymbolInformation sl p symbol),
      api_References = (\<lambda>symbol p. References fuel pl sl fs p symbol),
      api_Implementations = (\<lambda>symbol p. Implementations p symbol),
      api_LoadIndex = (\<lambda>path r p. LoadIndex fuel pl sl p path r),
      api_LoadIndexFile = (\<lambda>path p. LoadIndexFile fuel pl sl fs p path)\<rparr>"

end
