(* ===== verification/RegistrySpec.thy ===== *)
theory RegistrySpec
  imports Registry
begin

text \<open>
  What the registry promises. The contract it relies on, \<open>index_contract\<close>, says that a loaded document
  stays loaded and that loading documents changes no symbol; the queries are then repeatable. The
  partially loaded index satisfies the contract for every file system and every content of the index
  files.
\<close>

lemma op_bind_Ok: "op_bind m f s = Some (Ok y, s') \<longleftrightarrow> (\<exists>x s1. m s = Some (Ok x, s1) \<and> f x s1 = Some (Ok y, s'))"
  by (auto simp: op_bind_def split: option.splits outcome.splits)

lemma op_bind_step: "m s = Some (Ok x, s1) \<Longrightarrow> op_bind m f s = f x s1"
  by (simp add: op_bind_def)

lemmas op_simps = op_return_def op_outcome_def op_read_def

lemma occurrence_query_Ok:
  assumes "occurrence_query lib reg api u pos n k s = Some (Ok r, s')" and "r \<noteq> n"
  obtains d s1 occ where "api_LoadDocument api (uriToRelativePath lib reg u) s = Some (Ok (Some d), s1)"
    and "GetOccurrenceForPosition (lib_range lib) (Occurrences d) pos = Some occ" and "k d occ s1 = Some (Ok r, s')"
proof -
  from assms(1) obtain doc s1 where "api_LoadDocument api (uriToRelativePath lib reg u) s = Some (Ok doc, s1)"
    and "(case doc of None \<Rightarrow> op_return n
      | Some d \<Rightarrow> (case GetOccurrenceForPosition (lib_range lib) (Occurrences d) pos of
          None \<Rightarrow> op_return n | Some occ \<Rightarrow> k d occ)) s1 = Some (Ok r, s')"
    by (auto simp: occurrence_query_def op_bind_Ok)
  with assms(2) that show thesis by (auto simp: op_return_def split: option.splits)
qed

lemma occurrence_query_step:
  assumes "api_LoadDocument api (uriToRelativePath lib reg u) s = Some (Ok (Some d), s1)"
    and "GetOccurrenceForPosition (lib_range lib) (Occurrences d) pos = Some occ"
  shows "occurrence_query lib reg api u pos n k s = k d occ s1"
  using assms by (simp add: occurrence_query_def op_bind_def)

lemma definition_occurrences:
  "GetOccurrencesForSymbol occs sy SymbolRole_Definition =
   filter (\<lambda>o'. Symbol o' = sy \<and> has_role o' SymbolRole_Definition) occs"
  by (induction occs) (auto simp: SymbolRole_Definition_def)

lemma first_option_filter:
  "case first_option (filter P xs) of None \<Rightarrow> \<forall>x \<in> set xs. \<not> P x | Some x \<Rightarrow> x \<in> set xs \<and> P x"
  by (induction xs) (auto simp: first_option_def split: list.splits)

lemma model_descriptors_id: "ScipDescriptorsToModelDescriptors ds = ds"
  by (simp add: ScipDescriptorsToModelDescriptors_def ScipDescriptorToModelDescriptor_def)

subsection \<open>The contract\<close>

locale index_contract =
  fixes api :: "'s index_api"
  assumes load_cached: "api_LoadDocument api path s = Some (Ok (Some d), s') \<Longrightarrow>
      api_LoadDocument api path s' = Some (Ok (Some d), s')"
    and load_keeps: "api_LoadDocument api path s = Some (r, s') \<Longrightarrow> api_LoadDocument api q s = Some (Ok (Some d), s) \<Longrightarrow>
      api_LoadDocument api q s' = Some (Ok (Some d), s')"
    and descriptors_stable: "api_LoadDocument api path s = Some (r, s') \<Longrightarrow>
      api_FromDescriptors api ds v s' = api_FromDescriptors api ds v s"
    and symbol_stable: "api_LoadDocument api path s = Some (r, s') \<Longrightarrow>
      api_GetSymbolInformation api sy s' = api_GetSymbolInformation api sy s"
    and references_stable: "api_LoadDocument api path s = Some (r, s') \<Longrightarrow>
      api_References api sy s' = api_References api sy s"
begin

text \<open>A definition that was found is found again, and nothing is loaded for it a second time.\<close>

lemma definition_occurrence_again:
  assumes "GetSymbolDefinitionOccurrence lib reg api ds v s = Some (Ok (Some def), s')"
  shows "GetSymbolDefinitionOccurrence lib reg api ds v s' = Some (Ok (Some def), s')"
    and "api_LoadDocument api q s = Some (Ok (Some d), s) \<Longrightarrow> api_LoadDocument api q s' = Some (Ok (Some d), s')"
proof -
  from assms obtain info path dd where
    info: "api_FromDescriptors api ds v s = Ok (Some info, path)" and
    load: "api_LoadDocument api path s = Some (Ok (Some dd), s')" and
    def: "def = \<lparr>Location = GetURI lib reg path,
      Occurrence = first_option (GetOccurrencesForSymbol (Occurrences dd) (si_Symbol info) SymbolRole_Definition),
      Info = Some info\<rparr>"
    by (auto simp: GetSymbolDefinitionOccurrence_def op_bind_Ok op_simps split: option.splits)
  have "api_FromDescriptors api ds v s' = Ok (Some info, path)"
    using descriptors_stable [OF load, of ds v] info by simp
  with load_cached [OF load] def show "GetSymbolDefinitionOccurrence lib reg api ds v s' = Some (Ok (Some def), s')"
    by (simp add: GetSymbolDefinitionOccurrence_def op_bind_def op_simps)
  show "api_LoadDocument api q s' = Some (Ok (Some d), s')" if "api_LoadDocument api q s = Some (Ok (Some d), s)"
    by (rule load_keeps [OF load that])
qed

lemma definition_repeatable:
  assumes "Definition lib reg api u pos s = Some (Ok (Some r), s')"
  shows "Definition lib reg api u pos s' = Some (Ok (Some r), s')"
proof -
  from assms obtain d s1 occ where load: "api_LoadDocument api (uriToRelativePath lib reg u) s = Some (Ok (Some d), s1)"
    and occ: "GetOccurrenceForPosition (lib_range lib) (Occurrences d) pos = Some occ"
    unfolding Definition_def by (rule occurrence_query_Ok) simp
  note first = assms [unfolded Definition_def occurrence_query_step [OF load occ]]
  note cached = load_cached [OF load]
  show ?thesis
  proof (cases "IsLocalSymbol (lib_sym lib) (Symbol occ)")
    case True
    with first have "s1 = s'" by (simp add: op_simps)
    with first cached True show ?thesis
      by (simp add: Definition_def occurrence_query_step [OF _ occ] op_simps)
  next
    case False
    from first False obtain sy where parse: "ParseScipSymbol (ParseSymbol (lib_sym lib)) (Symbol occ) = Ok sy"
      by (auto simp: op_bind_Ok op_simps)
    from first False parse obtain pkg where pkg: "Package sy = Some pkg"
      by (cases "Package sy") (auto simp: op_bind_Ok op_simps)
    let ?ds = "ScipDescriptorsToModelDescriptors (Descriptors sy)"
    from first False parse pkg obtain def where
      "GetSymbolDefinitionOccurrence lib reg api ?ds (spkg_Version pkg) s1 = Some (Ok def, s')"
      and "def \<noteq> None"
      by (auto simp: op_bind_Ok op_simps split: option.splits)
    then obtain def' where
      def: "GetSymbolDefinitionOccurrence lib reg api ?ds (spkg_Version pkg) s1 = Some (Ok (Some def'), s')" by auto
    note again = definition_occurrence_again [OF def]
    from first False parse pkg def again(1) show ?thesis
      by (simp add: Definition_def occurrence_query_step [OF again(2) [OF cached] occ] op_bind_def op_simps)
  qed
qed

lemma hover_repeatable:
  assumes "Hover lib reg api u pos s = Some (Ok (docs, Some occ), s')"
  shows "Hover lib reg api u pos s' = Some (Ok (docs, Some occ), s')"
proof -
  from assms obtain d s1 occ' where load: "api_LoadDocument api (uriToRelativePath lib reg u) s = Some (Ok (Some d), s1)"
    and occ: "GetOccurrenceForPosition (lib_range lib) (Occurrences d) pos = Some occ'"
    unfolding Hover_def by (rule occurrence_query_Ok) simp
  note first = assms [unfolded Hover_def occurrence_query_step [OF load occ]]
  then have "s1 = s'" by (auto simp: op_bind_Ok op_simps split: prod.splits)
  with first load_cached [OF load] show ?thesis
    by (simp add: Hover_def occurrence_query_step [OF _ occ])
qed

end

subsection \<open>The partially loaded index satisfies the contract\<close>

text \<open>Loading a document changes only its own entry of the loaded documents, and the log.\<close>

definition same_but_document :: "partial_index \<Rightarrow> gostring \<Rightarrow> partial_index \<Rightarrow> bool" where
  "same_but_document p path p' \<longleftrightarrow>
     (\<exists>docs. p' = p\<lparr>LoadedDocuments := docs\<rparr> \<and> (\<forall>q. q \<noteq> path \<longrightarrow> map_of docs q = map_of (LoadedDocuments p) q))"

lemma same_but_document_refl: "same_but_document p path p"
  by (auto simp: same_but_document_def intro: exI [of _ "LoadedDocuments p"])

lemma doc_scanner_keeps: "callbacks_keep (same_but_document p path) (doc_scanner p path)"
  by (auto simp: callbacks_keep_def doc_scanner_def same_but_document_def update_conv')

lemma LoadDocument_frame:
  assumes "LoadDocument fuel pl fs p path = Some (r, p')"
  shows "(\<exists>d. map_of (LoadedDocuments p) path = Some d \<and> r = Ok (Some d) \<and> p' = p) \<or>
    (map_of (LoadedDocuments p) path = None \<and>
     (\<exists>p1. same_but_document p path p1 \<and>
       (case r of Ok (Some d) \<Rightarrow> map_of (LoadedDocuments p1) path = Some d \<and> p' = p1\<lparr>loaded_log := loaded_log p1 @ [d]\<rparr>
        | _ \<Rightarrow> p' = p1)))"
proof (cases "map_of (LoadedDocuments p) path")
  case None
  let ?res = "case map_of (docToIndex p) path of
      Some indexPath \<Rightarrow> loadDocumentFromIndex fuel pl fs p indexPath path
    | None \<Rightarrow> loadDocumentFromIndexFolder fuel pl fs p path"
  have scan: "same_but_document p path p1 \<and> (\<forall>d. r1 = Ok (Some d) \<longrightarrow> map_of (LoadedDocuments p1) path = Some d)"
    if "?res = Some (r1, p1)" for r1 p1
    using that ScanIndexFile_keeps [OF doc_scanner_keeps same_but_document_refl]
      ScanIndexFolder_keeps [OF doc_scanner_keeps same_but_document_refl]
    by (auto simp: loadDocumentFromIndex_def loadDocumentFromIndexFolder_def scanned_document_def
        split: option.splits prod.splits status.splits)
  from assms None obtain r1 p1 where res: "?res = Some (r1, p1)"
    by (auto simp: LoadDocument_def split: option.splits)
  with assms None have "r = r1" "p' = (case r1 of Ok (Some d) \<Rightarrow> p1\<lparr>loaded_log := loaded_log p1 @ [d]\<rparr> | _ \<Rightarrow> p1)"
    by (auto simp: LoadDocument_def res split: outcome.splits option.splits)
  with scan [OF res] None show ?thesis by (auto split: outcome.splits option.splits)
next
  case (Some d)
  with assms show ?thesis by (simp add: LoadDocument_def)
qed

lemma outcome_option_cases:
  obtains x where "r = Ok (Some x)" | "r = Ok None" | e where "r = Fail e" | "r = Panic"
  by (metis not_None_eq outcome.exhaust)

lemma LoadDocument_other:
  assumes "LoadDocument fuel pl fs p path = Some (r, p')"
  shows "q \<noteq> path \<Longrightarrow> map_of (LoadedDocuments p') q = map_of (LoadedDocuments p) q"
    and "nodes_heap p' = nodes_heap p" and "PrefixTreeRoot p' = PrefixTreeRoot p"
    and "indexFolder p' = indexFolder p" and "pool_sizes p' = pool_sizes p"
    and "ImplementorsBySymbol p' = ImplementorsBySymbol p"
proof -
  from LoadDocument_frame [OF assms] obtain p1 where "same_but_document p path p1"
    and "p' = p1 \<or> (\<exists>l. p' = p1\<lparr>loaded_log := l\<rparr>)"
    by (cases r rule: outcome_option_cases) (auto intro: same_but_document_refl)
  then show "q \<noteq> path \<Longrightarrow> map_of (LoadedDocuments p') q = map_of (LoadedDocuments p) q"
    and "nodes_heap p' = nodes_heap p" and "PrefixTreeRoot p' = PrefixTreeRoot p"
    and "indexFolder p' = indexFolder p" and "pool_sizes p' = pool_sizes p"
    and "ImplementorsBySymbol p' = ImplementorsBySymbol p"
    by (auto simp: same_but_document_def)
qed

lemma LoadDocument_loaded:
  assumes "LoadDocument fuel pl fs p path = Some (Ok (Some d), p)"
  shows "map_of (LoadedDocuments p) path = Some d"
proof (rule ccontr)
  assume "map_of (LoadedDocuments p) path \<noteq> Some d"
  with LoadDocument_frame [OF assms] obtain p1 where same: "same_but_document p path p1"
    and p: "p = p1\<lparr>loaded_log := loaded_log p1 @ [d]\<rparr>" by auto
  from same have "loaded_log p1 = loaded_log p" by (auto simp: same_but_document_def)
  with arg_cong [OF p, of loaded_log] show False by simp
qed

lemma LoadDocument_descriptors:
  assumes "LoadDocument fuel pl fs p path = Some (r, p')"
  shows "GetSymbolInformationFromDescriptors p' = GetSymbolInformationFromDescriptors p"
  by (intro ext) (simp only: GetSymbolInformationFromDescriptors_def LoadDocument_other(2,3) [OF assms])

interpretation pidx: index_contract "partial_api fuel pl sl fs" for fuel pl sl fs
proof
  fix path s d s' assume "api_LoadDocument (partial_api fuel pl sl fs) path s = Some (Ok (Some d), s')"
  then have "LoadDocument fuel pl fs s path = Some (Ok (Some d), s')" by (simp add: partial_api_def)
  from LoadDocument_frame [OF this] have "map_of (LoadedDocuments s') path = Some d" by auto
  then show "api_LoadDocument (partial_api fuel pl sl fs) path s' = Some (Ok (Some d), s')"
    by (simp add: partial_api_def LoadDocument_def)
next
  fix path s r s' q d assume "api_LoadDocument (partial_api fuel pl sl fs) path s = Some (r, s')"
    and "api_LoadDocument (partial_api fuel pl sl fs) q s = Some (Ok (Some d), s)"
  then have l: "LoadDocument fuel pl fs s path = Some (r, s')" "map_of (LoadedDocuments s) q = Some d"
    using LoadDocument_loaded by (auto simp: partial_api_def)
  have "map_of (LoadedDocuments s') q = Some d"
    using LoadDocument_other(1) [OF l(1), of q] l LoadDocument_frame [OF l(1)] by (cases "q = path") auto
  then show "api_LoadDocument (partial_api fuel pl sl fs) q s' = Some (Ok (Some d), s')"
    by (simp add: partial_api_def LoadDocument_def)
next
  fix path s r s' sy assume "api_LoadDocument (partial_api fuel pl sl fs) path s = Some (r, s')"
  then have "LoadDocument fuel pl fs s path = Some (r, s')" by (simp add: partial_api_def)
  from LoadDocument_descriptors [OF this]
  show "api_GetSymbolInformation (partial_api fuel pl sl fs) sy s' = api_GetSymbolInformation (partial_api fuel pl sl fs) sy s"
    by (simp only: partial_api_def GetSymbolInformation_def index_api.simps)
qed (simp_all add: partial_api_def References_def refs_scanner_def
      LoadDocument_descriptors LoadDocument_other(2-5))

subsection \<open>Properties\<close>

text \<open>
  A definition that was found is found again: asking again in the state the first query left gives
  the same answer and loads nothing.
\<close>

theorem Definition_repeatable:
  assumes "Definition lib reg (partial_api fuel pl sl fs) u pos p = Some (Ok (Some r), p')"
  shows "Definition lib reg (partial_api fuel pl sl fs) u pos p' = Some (Ok (Some r), p')"
  using assms by (rule pidx.definition_repeatable)

text \<open>
  The path of a document is recovered from its URI: \<^verbatim>\<open>uriToRelativePath\<close> undoes \<^verbatim>\<open>GetURI\<close> on every
  cleaned relative path that does not leave an absolute workspace root.
\<close>

theorem uri_path_roundtrip:
  assumes "uri_Filename lib (uri_File lib (path_Join [WorkspaceRoot reg, join_slash es])) =
      path_Join [WorkspaceRoot reg, join_slash es]"
    and "WorkspaceRoot reg \<noteq> []" and "hd (WorkspaceRoot reg) = CHR ''/''"
    and "es \<noteq> []" and "list_all elem_ok es" and "''..'' \<notin> set es"
  shows "uriToRelativePath lib reg (GetURI lib reg (join_slash es)) = join_slash es"
  using assms Rel_Join [OF assms(2-6)] by (simp add: uriToRelativePath_def GetURI_def)

text \<open>A loaded document is returned from the cache.\<close>

lemma api_cached:
  "map_of (LoadedDocuments p) path = Some d \<Longrightarrow>
   api_LoadDocument (partial_api fuel pl sl fs) path p = Some (Ok (Some d), p)"
  by (simp add: partial_api_def LoadDocument_def)

text \<open>
  C7. \<^verbatim>\<open>Definition\<close> of a global symbol that an index defines: the answer is the source occurrence and the
  first definition occurrence of the symbol in the document the index recorded for it, with that
  document's URI and the recorded symbol information.
\<close>

theorem Definition_global:
  assumes "map_of (LoadedDocuments p) (uriToRelativePath lib reg u) = Some d"
    and "GetOccurrenceForPosition (lib_range lib) (Occurrences d) pos = Some occ"
    and "\<not> IsLocalSymbol (lib_sym lib) (Symbol occ)"
    and "ParseScipSymbol (ParseSymbol (lib_sym lib)) (Symbol occ) = Ok sy" and "Package sy = Some pkg"
    and "Descriptors sy \<noteq> []" and "spkg_Version pkg \<noteq> ''''"
    and "index_symbol p (Descriptors sy, spkg_Version pkg) = Some vi"
    and "LoadDocument fuel pl fs p (vi_DocumentPath vi) = Some (Ok (Some dd), p')"
  shows "Definition lib reg (partial_api fuel pl sl fs) u pos p =
    Some (Ok (Some (\<lparr>Location = u, Occurrence = Some occ, Info = Some (vi_Info vi)\<rparr>,
      \<lparr>Location = GetURI lib reg (vi_DocumentPath vi),
       Occurrence = first_option (filter (\<lambda>o'. Symbol o' = si_Symbol (vi_Info vi) \<and> has_role o' SymbolRole_Definition)
         (Occurrences dd)),
       Info = Some (vi_Info vi)\<rparr>)), p')"
proof -
  have "GetSymbolInformationFromDescriptors p (Descriptors sy) (spkg_Version pkg) =
      Ok (Some (vi_Info vi), vi_DocumentPath vi)"
    using assms(6-8) by (rule FromDescriptors_found)
  with assms(9) have "GetSymbolDefinitionOccurrence lib reg (partial_api fuel pl sl fs) (Descriptors sy) (spkg_Version pkg) p =
      Some (Ok (Some \<lparr>Location = GetURI lib reg (vi_DocumentPath vi),
        Occurrence = first_option (GetOccurrencesForSymbol (Occurrences dd) (si_Symbol (vi_Info vi)) SymbolRole_Definition),
        Info = Some (vi_Info vi)\<rparr>), p')"
    by (simp add: GetSymbolDefinitionOccurrence_def partial_api_def op_bind_def op_simps)
  with assms(3-5) show ?thesis
    by (simp add: Definition_def occurrence_query_step [OF api_cached [OF assms(1)] assms(2)]
        op_bind_def op_simps model_descriptors_id definition_occurrences)
qed

text \<open>
  For a local symbol, \<^verbatim>\<open>References\<close> returns the locations of exactly the occurrences of the symbol in the
  document, and the definition \<^verbatim>\<open>Definition\<close> finds is one of them; neither changes the index.
\<close>

theorem local_queries_agree:
  assumes "map_of (LoadedDocuments p) (uriToRelativePath lib reg u) = Some d"
    and "GetOccurrenceForPosition (lib_range lib) (Occurrences d) pos = Some occ"
    and "IsLocalSymbol (lib_sym lib) (Symbol occ)"
  shows "\<exists>src def locs. Definition lib reg (partial_api fuel pl sl fs) u pos p = Some (Ok (Some (src, def)), p) \<and>
    registry_References lib reg (partial_api fuel pl sl fs) u pos p = Some (Ok (Some locs), p) \<and>
    set locs = ScipOccurrenceToLocation (lib_range lib) u ` {o' \<in> set (Occurrences d). Symbol o' = Symbol occ} \<and>
    (case Occurrence def of
       None \<Rightarrow> \<forall>o' \<in> set (Occurrences d). Symbol o' = Symbol occ \<longrightarrow> \<not> has_role o' SymbolRole_Definition
     | Some o' \<Rightarrow> has_role o' SymbolRole_Definition \<and> Location def = u \<and>
         ScipOccurrenceToLocation (lib_range lib) u o' \<in> set locs)"
proof -
  note step = occurrence_query_step [OF api_cached [OF assms(1)] assms(2)]
  let ?defs = "filter (\<lambda>o'. Symbol o' = Symbol occ \<and> has_role o' SymbolRole_Definition) (Occurrences d)"
  have "case first_option ?defs of
      None \<Rightarrow> \<forall>o' \<in> set (Occurrences d). Symbol o' = Symbol occ \<longrightarrow> \<not> has_role o' SymbolRole_Definition
    | Some o' \<Rightarrow> o' \<in> set (Occurrences d) \<and> Symbol o' = Symbol occ \<and> has_role o' SymbolRole_Definition"
    using first_option_filter [where P = "\<lambda>o'. Symbol o' = Symbol occ \<and> has_role o' SymbolRole_Definition" and xs = "Occurrences d"]
    by (auto split: option.splits)
  with assms(3) show ?thesis
    by (auto simp: Definition_def registry_References_def step local_definition_def Let_def op_simps
        definition_occurrences split: option.splits)
qed

subsection \<open>Witnesses\<close>

text \<open>
  A workspace at \<^verbatim>\<open>/w\<close> with two loaded documents: \<^verbatim>\<open>a.go\<close> has a local variable and mentions the global
  symbol \<^verbatim>\<open>ab\<close>, which \<^verbatim>\<open>d.go\<close> defines.
\<close>

definition sample_libs :: libs where
  "sample_libs = \<lparr>lib_sym = sample_symlib, lib_range = sample_rangelib,
     uri_File = (\<lambda>path. ''file://'' @ path), uri_Filename = drop 7\<rparr>"

definition sample_registry :: registry where
  "sample_registry = \<lparr>WorkspaceRoot = ''/w'', IndexFolder = ''/i''\<rparr>"

definition sample_document :: "gostring \<Rightarrow> occurrence list \<Rightarrow> document" where
  "sample_document path occs = Document occs ''go'' path [] [] '''' []"

definition sample_docs :: "(gostring \<times> document) list" where
  "sample_docs =
     [(''a.go'', sample_document ''a.go'' [occurrence_at [0, 1, 4] ''local 1'' 1, occurrence_at [2, 0, 3] ''ab'' 0]),
      (''d.go'', sample_document ''d.go'' [occurrence_at [5, 0, 3] ''ab'' 1])]"

definition sample_index :: partial_index where
  "sample_index = (NewPartialLoadedIndex ''/i'')\<lparr>nodes_heap := sample_heap, PrefixTreeRoot := 0, LoadedDocuments := sample_docs\<rparr>"

abbreviation sample_uri :: uri where
  "sample_uri \<equiv> ''file:///w/a.go''"

lemma sample_loaded:
  "map_of (LoadedDocuments sample_index) (uriToRelativePath sample_libs sample_registry sample_uri) =
     Some (snd (hd sample_docs))"
proof -
  have "uriToRelativePath sample_libs sample_registry sample_uri = ''a.go''" by code_simp
  then show ?thesis by (simp add: sample_index_def sample_docs_def)
qed

theorem uri_path_roundtrip_witness:
  "uriToRelativePath sample_libs sample_registry (GetURI sample_libs sample_registry (join_slash [''p'', ''a.go''])) = ''p/a.go''"
proof -
  have "uriToRelativePath sample_libs sample_registry (GetURI sample_libs sample_registry (join_slash [''p'', ''a.go''])) =
      join_slash [''p'', ''a.go'']"
    by (rule uri_path_roundtrip) (simp_all add: sample_libs_def sample_registry_def elem_ok_def)
  then show ?thesis by simp
qed

theorem local_queries_agree_witness:
  "\<exists>src def locs. Definition sample_libs sample_registry (partial_api 0 scip_lib sample_symlib sample_fs) sample_uri
       \<lparr>Line = 0, Character = 2\<rparr> sample_index = Some (Ok (Some (src, def)), sample_index) \<and>
     registry_References sample_libs sample_registry (partial_api 0 scip_lib sample_symlib sample_fs) sample_uri
       \<lparr>Line = 0, Character = 2\<rparr> sample_index = Some (Ok (Some locs), sample_index)"
proof -
  have "GetOccurrenceForPosition (lib_range sample_libs) (Occurrences (snd (hd sample_docs))) \<lparr>Line = 0, Character = 2\<rparr> =
      Some (occurrence_at [0, 1, 4] ''local 1'' 1)"
    by code_simp
  moreover have "IsLocalSymbol (lib_sym sample_libs) (Symbol (occurrence_at [0, 1, 4] ''local 1'' 1))"
    by code_simp
  ultimately show ?thesis
    using local_queries_agree [OF sample_loaded, of "\<lparr>Line = 0, Character = 2\<rparr>"
        "occurrence_at [0, 1, 4] ''local 1'' 1" 0 scip_lib sample_symlib sample_fs] by blast
qed

text \<open>The position of the mention of \<^verbatim>\<open>ab\<close>, and the record of its definition.\<close>

abbreviation mention_pos :: position where
  "mention_pos \<equiv> \<lparr>Line = 2, Character = 1\<rparr>"

lemma sample_mention:
  "GetOccurrenceForPosition (lib_range sample_libs) (Occurrences (snd (hd sample_docs))) mention_pos =
     Some (occurrence_at [2, 0, 3] ''ab'' 0)"
  "\<not> IsLocalSymbol (lib_sym sample_libs) (Symbol (occurrence_at [2, 0, 3] ''ab'' 0))"
  by code_simp+

lemma sample_symbol:
  "index_symbol sample_index (map (\<lambda>c. \<lparr>Name = [c], Suffix = Descriptor_Type, Disambiguator = ''''\<rparr>) ''ab'', ''1'') =
     Some \<lparr>vi_Info = sample_info ''ab'', vi_DocumentPath = ''d.go''\<rparr>"
  by code_simp

lemma sample_parse:
  "ParseScipSymbol (ParseSymbol (lib_sym sample_libs)) (Symbol (occurrence_at [2, 0, 3] ''ab'' 0)) =
     Ok \<lparr>Scheme = ''s'', Package = Some \<lparr>spkg_Manager = ''m'', spkg_Name = ''n'', spkg_Version = ''1''\<rparr>,
       Descriptors = map (\<lambda>c. \<lparr>Name = [c], Suffix = Descriptor_Type, Disambiguator = ''''\<rparr>) ''ab''\<rparr>"
  by (simp add: sample_libs_def sample_symlib_def occurrence_at_def ParseScipSymbol_def fill_package_def)

theorem Definition_global_witness:
  "\<exists>src. Definition sample_libs sample_registry (partial_api 0 scip_lib sample_symlib sample_fs) sample_uri mention_pos sample_index =
     Some (Ok (Some (src, \<lparr>Location = ''file:///w/d.go'', Occurrence = Some (occurrence_at [5, 0, 3] ''ab'' 1),
       Info = Some (sample_info ''ab'')\<rparr>)), sample_index)"
proof -
  have load: "LoadDocument 0 scip_lib sample_fs sample_index ''d.go'' = Some (Ok (Some (snd (hd (tl sample_docs)))), sample_index)"
    by (simp add: LoadDocument_def sample_index_def sample_docs_def)
  have uri: "GetURI sample_libs sample_registry ''d.go'' = ''file:///w/d.go''"
    and occ: "first_option (filter (\<lambda>o'. Symbol o' = si_Symbol (sample_info ''ab'') \<and> has_role o' SymbolRole_Definition)
      (Occurrences (snd (hd (tl sample_docs))))) = Some (occurrence_at [5, 0, 3] ''ab'' 1)"
    by code_simp+
  let ?pkg = "\<lparr>spkg_Manager = ''m'', spkg_Name = ''n'', spkg_Version = ''1''\<rparr>"
    and ?vi = "\<lparr>vi_Info = sample_info ''ab'', vi_DocumentPath = ''d.go''\<rparr>"
  from Definition_global [OF sample_loaded sample_mention sample_parse, of ?pkg ?vi 0 scip_lib sample_fs
      "snd (hd (tl sample_docs))" sample_index sample_symlib] sample_symbol load uri occ
  show ?thesis by simp
qed

theorem Definition_repeatable_witness:
  "\<exists>r. Definition sample_libs sample_registry (partial_api 0 scip_lib sample_symlib sample_fs) sample_uri
     \<lparr>Line = 0, Character = 2\<rparr> sample_index = Some (Ok (Some r), sample_index)"
proof -
  have "Definition sample_libs sample_registry (partial_api 0 scip_lib sample_symlib sample_fs) sample_uri
      \<lparr>Line = 0, Character = 2\<rparr> sample_index =
    Some (Ok (Some (local_definition (snd (hd sample_docs)) sample_uri (occurrence_at [0, 1, 4] ''local 1'' 1))), sample_index)"
  proof -
    have "GetOccurrenceForPosition (lib_range sample_libs) (Occurrences (snd (hd sample_docs))) \<lparr>Line = 0, Character = 2\<rparr> =
        Some (occurrence_at [0, 1, 4] ''local 1'' 1)"
      and "IsLocalSymbol (lib_sym sample_libs) (Symbol (occurrence_at [0, 1, 4] ''local 1'' 1))"
      by code_simp+
    with api_cached [OF sample_loaded, of 0 scip_lib sample_symlib sample_fs] show ?thesis
      by (simp add: Definition_def occurrence_query_step op_simps)
  qed
  from Definition_repeatable [OF this] show ?thesis by (rule exI)
qed

end
