(* ===== verification/UlspRegistry.thy ===== *)
theory UlspRegistry
  imports RegistrySpec
begin

text \<open>
  \<^verbatim>\<open>src/ulsp/controller/scip/partial_registry.go\<close> and the occurrence lookups of
  \<^verbatim>\<open>src/ulsp/controller/scip/consume.go\<close>: the language server's own copy of the registry. It is translated
  from its own source, loops as they are written, and shown to answer every query as the registry of
  \<^verbatim>\<open>scip-lib\<close> does; \<^verbatim>\<open>Implementation\<close> exists only here.
\<close>

subsection \<open>Occurrence lookups (\<^verbatim>\<open>consume.go\<close>)\<close>

fun occurrences_loop :: "bool \<Rightarrow> gostring \<Rightarrow> int32 \<Rightarrow> occurrence list \<Rightarrow> occurrence list \<Rightarrow> occurrence list" where
  "occurrences_loop matchAll symbol role [] found = found"
| "occurrences_loop matchAll symbol role (occ # occs) found =
     occurrences_loop matchAll symbol role occs
       (if Symbol occ = symbol \<and> (matchAll \<or> 0 < sint (and (SymbolRoles occ) role)) then found @ [occ] else found)"

definition GetOccurrencesForSymbol_ulsp :: "occurrence list \<Rightarrow> gostring \<Rightarrow> int32 \<Rightarrow> occurrence list" where
  "GetOccurrencesForSymbol_ulsp occurrences symbol role =
     (let matchAll = (if role \<noteq> - 1 then False else True)
      in occurrences_loop matchAll symbol role occurrences [])"

definition GetLocalSymbolInformation_ulsp :: "symbol_information list \<Rightarrow> gostring \<Rightarrow> symbol_information option" where
  "GetLocalSymbolInformation_ulsp symbols symbol = find (\<lambda>s. si_Symbol s = symbol) symbols"

definition IsRangeBefore_ulsp :: "int32 list \<Rightarrow> position \<Rightarrow> bool" where
  "IsRangeBefore_ulsp r pos =
     (let endLine = (if length r = 3 then r ! 0 else 0);
          endChar = (if length r = 3 then r ! 2 else 0);
          endLine = (if length r = 4 then r ! 2 else endLine);
          endChar = (if length r = 4 then r ! 3 else endChar)
      in sint endLine < sint (Line pos) \<or> (endLine = Line pos \<and> sint endChar < sint (Character pos)))"

definition IsMatchingPosition_ulsp :: "rangelib \<Rightarrow> occurrence \<Rightarrow> position \<Rightarrow> bool" where
  "IsMatchingPosition_ulsp rl occ pos =
     (case NewRange rl (Range occ) of
        Fail e \<Rightarrow> False
      | Panic \<Rightarrow> False
      | Ok rng \<Rightarrow>
          if IsSingleLine rl rng
          then sp_Line (sr_Start rng) = Line pos \<and>
               sint (sp_Character (sr_Start rng)) \<le> sint (Character pos) \<and>
               sint (sp_Character (sr_End rng)) \<ge> sint (Character pos)
          else (sint (sp_Line (sr_Start rng)) < sint (Line pos) \<and> sint (sp_Line (sr_End rng)) > sint (Line pos)) \<or>
               (sp_Line (sr_Start rng) = Line pos \<and> sint (sp_Character (sr_Start rng)) \<le> sint (Character pos)) \<or>
               (sp_Line (sr_End rng) = Line pos \<and> sint (sp_Character (sr_End rng)) \<ge> sint (Character pos)))"

function position_loop :: "rangelib \<Rightarrow> occurrence list \<Rightarrow> position \<Rightarrow> int \<Rightarrow> int \<Rightarrow> occurrence option" where
  "position_loop rl occurrences pos low high =
     (if low \<le> high then
        let mid = (low + high) div 2; occ = occurrences ! nat mid
        in if IsMatchingPosition_ulsp rl occ pos then Some occ
           else if IsRangeBefore_ulsp (Range occ) pos then position_loop rl occurrences pos (mid + 1) high
           else position_loop rl occurrences pos low (mid - 1)
      else None)"
  by pat_completeness auto

termination
  by (relation "measure (\<lambda>(rl, occs, pos, low, high). nat (high + 1 - low))") auto

declare position_loop.simps [simp del]

definition GetOccurrenceForPosition_ulsp :: "rangelib \<Rightarrow> occurrence list \<Rightarrow> position \<Rightarrow> occurrence option" where
  "GetOccurrenceForPosition_ulsp rl occurrences pos = position_loop rl occurrences pos 0 (int (length occurrences) - 1)"

subsection \<open>The registry\<close>

definition GetURI_ulsp :: "libs \<Rightarrow> registry \<Rightarrow> gostring \<Rightarrow> uri" where
  "GetURI_ulsp lib p relPath = uri_File lib (path_Join [WorkspaceRoot p, relPath])"

definition uriToRelativePath_ulsp :: "libs \<Rightarrow> registry \<Rightarrow> uri \<Rightarrow> gostring" where
  "uriToRelativePath_ulsp lib p u =
     (case path_Rel (WorkspaceRoot p) (uri_Filename lib u) of Ok rel \<Rightarrow> rel | Fail e \<Rightarrow> [] | Panic \<Rightarrow> [])"

definition LoadIndex_ulsp :: "'s index_api \<Rightarrow> reader option \<Rightarrow> 's \<Rightarrow> (status \<times> 's) option" where
  "LoadIndex_ulsp api indexReader s =
     (if indexReader = None then Some (Failed (Errorf ''index reader is nil'' []), s)
      else api_LoadIndex api [] (the indexReader) s)"

definition LoadIndexFile_ulsp :: "'s index_api \<Rightarrow> gostring \<Rightarrow> 's \<Rightarrow> (status \<times> 's) option" where
  "LoadIndexFile_ulsp api indexPath s = api_LoadIndexFile api indexPath s"

definition DidOpen_ulsp :: "libs \<Rightarrow> registry \<Rightarrow> 's index_api \<Rightarrow> uri \<Rightarrow> (unit, 's) op" where
  "DidOpen_ulsp lib p api u =
     op_bind (api_LoadDocument api (uriToRelativePath_ulsp lib p u)) (\<lambda>doc.
       if doc = None then op_return () else op_return ())"

definition DidClose_ulsp :: "uri \<Rightarrow> (unit, 's) op" where
  "DidClose_ulsp u = op_return ()"

text \<open>\<^verbatim>\<open>result\<close> is built before the document is loaded and completed with the occurrence after.\<close>

definition GetSymbolDefinitionOccurrence_ulsp ::
  "libs \<Rightarrow> registry \<Rightarrow> 's index_api \<Rightarrow> descriptor list \<Rightarrow> gostring \<Rightarrow> (symbol_occurrence option, 's) op" where
  "GetSymbolDefinitionOccurrence_ulsp lib p api descriptors version =
     op_bind (op_read (api_FromDescriptors api descriptors version)) (\<lambda>(symbolInformation, defDocPath).
       if symbolInformation = None then op_return None
       else
         let result = \<lparr>Location = uri_File lib (path_Join [WorkspaceRoot p, defDocPath]), Occurrence = None,
                       Info = symbolInformation\<rparr>
         in op_bind (api_LoadDocument api defDocPath) (\<lambda>defDoc.
              if defDoc = None then op_return None
              else
                let definitionOccs = GetOccurrencesForSymbol_ulsp (Occurrences (the defDoc))
                      (si_Symbol (the symbolInformation)) SymbolRole_Definition
                in op_return (Some (if definitionOccs \<noteq> [] then result\<lparr>Occurrence := Some (hd definitionOccs)\<rparr> else result))))"

text \<open>The three variables the two branches of \<^verbatim>\<open>Definition\<close> set: occurrence, document and information.\<close>

definition local_branch :: "document \<Rightarrow> uri \<Rightarrow> occurrence \<Rightarrow> occurrence option \<times> uri \<times> symbol_information option" where
  "local_branch doc sourceURI sourceOccurrence =
     (let definitionOccs = GetOccurrencesForSymbol_ulsp (Occurrences doc) (Symbol sourceOccurrence) SymbolRole_Definition;
          symbolInformation = GetLocalSymbolInformation_ulsp (Symbols doc) (Symbol sourceOccurrence)
      in if definitionOccs \<noteq> [] then (Some (hd definitionOccs), sourceURI, symbolInformation)
         else (None, [], symbolInformation))"

definition global_branch ::
  "libs \<Rightarrow> registry \<Rightarrow> 's index_api \<Rightarrow> occurrence \<Rightarrow>
   ((occurrence option \<times> uri \<times> symbol_information option) option, 's) op" where
  "global_branch lib p api sourceOccurrence =
     op_bind (op_outcome (ParseScipSymbol (ParseSymbol (lib_sym lib)) (Symbol sourceOccurrence))) (\<lambda>symbol.
       case Package symbol of
         None \<Rightarrow> op_outcome Panic
       | Some pkg \<Rightarrow>
           op_bind (GetSymbolDefinitionOccurrence_ulsp lib p api
               (ScipDescriptorsToModelDescriptors (Descriptors symbol)) (spkg_Version pkg)) (\<lambda>def.
             op_return (case def of
                 None \<Rightarrow> None
               | Some d \<Rightarrow> Some (Occurrence d, Location d, Info d))))"

definition Definition_ulsp ::
  "libs \<Rightarrow> registry \<Rightarrow> 's index_api \<Rightarrow> uri \<Rightarrow> position \<Rightarrow> ((symbol_occurrence \<times> symbol_occurrence) option, 's) op" where
  "Definition_ulsp lib p api sourceURI pos =
     op_bind (api_LoadDocument api (uriToRelativePath_ulsp lib p sourceURI)) (\<lambda>doc.
       case doc of None \<Rightarrow> op_return None | Some doc \<Rightarrow>
       (case GetOccurrenceForPosition_ulsp (lib_range lib) (Occurrences doc) pos of
          None \<Rightarrow> op_return None
        | Some sourceOccurrence \<Rightarrow>
            op_bind (if IsLocalSymbol (lib_sym lib) (Symbol sourceOccurrence)
                     then op_return (Some (local_branch doc sourceURI sourceOccurrence))
                     else global_branch lib p api sourceOccurrence) (\<lambda>vars.
              op_return (case vars of
                  None \<Rightarrow> None
                | Some (definitionOcc, defDocURI, symbolInformation) \<Rightarrow>
                    Some (\<lparr>Location = sourceURI, Occurrence = Some sourceOccurrence, Info = symbolInformation\<rparr>,
                          \<lparr>Location = defDocURI, Occurrence = definitionOcc, Info = symbolInformation\<rparr>)))))"

fun local_locations :: "libs \<Rightarrow> uri \<Rightarrow> gostring \<Rightarrow> occurrence list \<Rightarrow> location list \<Rightarrow> location list" where
  "local_locations lib u symbol [] locations = locations"
| "local_locations lib u symbol (occ # occs) locations =
     local_locations lib u symbol occs
       (if Symbol occ = symbol then locations @ [ScipOccurrenceToLocation (lib_range lib) u occ] else locations)"

fun file_locations :: "libs \<Rightarrow> uri \<Rightarrow> occurrence list \<Rightarrow> location list \<Rightarrow> location list" where
  "file_locations lib u [] locations = locations"
| "file_locations lib u (occ # occs) locations =
     file_locations lib u occs (locations @ [ScipOccurrenceToLocation (lib_range lib) u occ])"

fun global_locations ::
  "libs \<Rightarrow> registry \<Rightarrow> (gostring \<times> occurrence list) list \<Rightarrow> location list \<Rightarrow> location list" where
  "global_locations lib p [] locations = locations"
| "global_locations lib p ((relDocPath, occs) # rest) locations =
     global_locations lib p rest
       (file_locations lib (uri_File lib (path_Join [WorkspaceRoot p, relDocPath])) occs locations)"

definition References_ulsp ::
  "libs \<Rightarrow> registry \<Rightarrow> 's index_api \<Rightarrow> uri \<Rightarrow> position \<Rightarrow> (location list option, 's) op" where
  "References_ulsp lib p api sourceURI pos =
     op_bind (api_LoadDocument api (uriToRelativePath_ulsp lib p sourceURI)) (\<lambda>doc.
       case doc of None \<Rightarrow> op_return None | Some doc \<Rightarrow>
       (case GetOccurrenceForPosition_ulsp (lib_range lib) (Occurrences doc) pos of
          None \<Rightarrow> op_return None
        | Some sourceOccurrence \<Rightarrow>
            if IsLocalSymbol (lib_sym lib) (Symbol sourceOccurrence)
            then op_return (Some (local_locations lib sourceURI (Symbol sourceOccurrence) (Occurrences doc) []))
            else (\<lambda>s. case api_References api (Symbol sourceOccurrence) s of
                    None \<Rightarrow> None
                  | Some r \<Rightarrow> op_bind (op_outcome r) (\<lambda>occurrences.
                      op_return (Some (global_locations lib p occurrences []))) s)))"

text \<open>\<^verbatim>\<open>docs\<close> starts empty and is appended to.\<close>

definition Hover_ulsp ::
  "libs \<Rightarrow> registry \<Rightarrow> 's index_api \<Rightarrow> uri \<Rightarrow> position \<Rightarrow> (gostring \<times> occurrence option, 's) op" where
  "Hover_ulsp lib p api u pos =
     op_bind (api_LoadDocument api (uriToRelativePath_ulsp lib p u)) (\<lambda>doc.
       case doc of None \<Rightarrow> op_return ([], None) | Some doc \<Rightarrow>
       (case GetOccurrenceForPosition_ulsp (lib_range lib) (Occurrences doc) pos of
          None \<Rightarrow> op_return ([], None)
        | Some occurrence \<Rightarrow>
            op_bind (op_read (api_GetSymbolInformation api (Symbol occurrence))) (\<lambda>(symbolInformation, path).
              op_return (
                let docs = (if 0 < length (OverrideDocumentation occurrence)
                            then [] @ strings_Join (OverrideDocumentation occurrence) [CHR 0x0A]
                            else case symbolInformation of
                                None \<Rightarrow> []
                              | Some i \<Rightarrow>
                                  if 0 < length (Documentation i) then [] @ strings_Join (Documentation i) [CHR 0x0A]
                                  else (case SignatureDocumentation i of None \<Rightarrow> [] | Some sd \<Rightarrow> [] @ doc_Text sd))
                in (docs, Some occurrence)))))"

text \<open>As in \<open>document_symbols\<close>, the document is written back because the symbols of its map are shared.\<close>

fun document_symbols_loop ::
  "libs \<Rightarrow> uri \<Rightarrow> occurrence list \<Rightarrow> document \<Rightarrow> symbol_occurrence list \<Rightarrow> (symbol_occurrence list \<times> document) outcome" where
  "document_symbols_loop lib u [] doc symbolOccurrences = Ok (symbolOccurrences, doc)"
| "document_symbols_loop lib u (occ # occs) doc symbolOccurrences =
     (if \<not> (IsGlobalSymbol (lib_sym lib) (Symbol occ) \<and> 0 < sint (and (SymbolRoles occ) SymbolRole_Definition))
      then document_symbols_loop lib u occs doc symbolOccurrences
      else case map_of (SymbolMap doc) (Symbol occ) of
          None \<Rightarrow> document_symbols_loop lib u occs doc symbolOccurrences
        | Some info \<Rightarrow>
            obind (if DisplayName info = []
                   then obind (ParseScipSymbolToDisplayName (ParseSymbol (lib_sym lib)) (si_Symbol info)) (\<lambda>name.
                          Ok (set_display_name name info, store_info (Symbol occ) (set_display_name name info) doc))
                   else Ok (info, doc)) (\<lambda>(info', doc').
              document_symbols_loop lib u occs doc'
                (symbolOccurrences @ [\<lparr>Location = u, Occurrence = Some occ, Info = Some info'\<rparr>])))"

definition DocumentSymbols_ulsp ::
  "libs \<Rightarrow> registry \<Rightarrow> 's index_api \<Rightarrow> uri \<Rightarrow> (symbol_occurrence list option, 's) op" where
  "DocumentSymbols_ulsp lib p api u =
     op_bind (api_LoadDocument api (uriToRelativePath_ulsp lib p u)) (\<lambda>doc.
       case doc of
         None \<Rightarrow> op_return None
       | Some d \<Rightarrow>
           op_bind (op_outcome (document_symbols_loop lib u (Occurrences d) d [])) (\<lambda>(symbolOccurrences, d').
             \<lambda>s. Some (Ok (Some symbolOccurrences), api_StoreDocument api (uriToRelativePath_ulsp lib p u) d' s)))"

text \<open>
  \<^verbatim>\<open>Implementation\<close>. An implementing symbol that does not parse, or whose definition cannot be loaded,
  is logged and skipped; the index reports no error for the implementors.
\<close>

definition add_implementation :: "libs \<Rightarrow> symbol_occurrence option \<Rightarrow> location list \<Rightarrow> location list" where
  "add_implementation lib implOcc locations =
     (case implOcc of
        None \<Rightarrow> locations
      | Some so \<Rightarrow>
          (case Occurrence so of
             None \<Rightarrow> locations
           | Some occ \<Rightarrow> locations @ [ScipOccurrenceToLocation (lib_range lib) (Location so) occ]))"

fun implementation_loop ::
  "libs \<Rightarrow> registry \<Rightarrow> 's index_api \<Rightarrow> gostring list \<Rightarrow> location list \<Rightarrow> (location list, 's) op" where
  "implementation_loop lib p api [] locations = op_return locations"
| "implementation_loop lib p api (implSym # implementors) locations =
     (case ParseScipSymbol (ParseSymbol (lib_sym lib)) implSym of
        Panic \<Rightarrow> op_outcome Panic
      | Fail e \<Rightarrow> implementation_loop lib p api implementors locations
      | Ok implementingSymbol \<Rightarrow>
          (case Package implementingSymbol of
             None \<Rightarrow> op_outcome Panic
           | Some pkg \<Rightarrow>
               (\<lambda>s. case GetSymbolDefinitionOccurrence_ulsp lib p api
                        (ScipDescriptorsToModelDescriptors (Descriptors implementingSymbol)) (spkg_Version pkg) s of
                      None \<Rightarrow> None
                    | Some (Panic, s') \<Rightarrow> Some (Panic, s')
                    | Some (Fail e, s') \<Rightarrow> implementation_loop lib p api implementors locations s'
                    | Some (Ok implOcc, s') \<Rightarrow>
                        implementation_loop lib p api implementors (add_implementation lib implOcc locations) s')))"

definition Implementation ::
  "libs \<Rightarrow> registry \<Rightarrow> 's index_api \<Rightarrow> uri \<Rightarrow> position \<Rightarrow> (location list option, 's) op" where
  "Implementation lib p api sourceURI pos =
     op_bind (api_LoadDocument api (uriToRelativePath_ulsp lib p sourceURI)) (\<lambda>doc.
       case doc of None \<Rightarrow> op_return None | Some doc \<Rightarrow>
       (case GetOccurrenceForPosition_ulsp (lib_range lib) (Occurrences doc) pos of
          None \<Rightarrow> op_return None
        | Some sourceOccurrence \<Rightarrow>
            if IsLocalSymbol (lib_sym lib) (Symbol sourceOccurrence) then op_return (Some [])
            else op_bind (op_read (\<lambda>s. Ok (api_Implementations api (Symbol sourceOccurrence) s))) (\<lambda>implementors.
              op_bind (implementation_loop lib p api implementors []) (\<lambda>locations. op_return (Some locations)))))"

text \<open>The methods of the interface this registry does not implement.\<close>

definition Diagnostics_ulsp :: "uri \<Rightarrow> (lsp_diagnostic list, 's) op" where
  "Diagnostics_ulsp u = op_outcome (Fail (Errorf ''not implemented'' []))"

definition GetSymbolOccurrence :: "uri \<Rightarrow> position \<Rightarrow> (symbol_occurrence option, 's) op" where
  "GetSymbolOccurrence u pos = op_outcome (Fail (Errorf ''not implemented'' []))"

definition LoadConcurrency_ulsp :: "nat \<Rightarrow> nat" where
  "LoadConcurrency_ulsp NumCPU = NumCPU div 2"

subsection \<open>The copy agrees with \<^verbatim>\<open>scip-lib\<close>\<close>

lemma occurrences_loop_eq:
  "occurrences_loop (role = - 1) symbol role occs found = found @ GetOccurrencesForSymbol occs symbol role"
  by (induction occs arbitrary: found) (auto simp: has_role_def)

lemma GetOccurrencesForSymbol_ulsp_eq: "GetOccurrencesForSymbol_ulsp = GetOccurrencesForSymbol"
proof (intro ext)
  fix occs symbol role
  show "GetOccurrencesForSymbol_ulsp occs symbol role = GetOccurrencesForSymbol occs symbol role"
    using occurrences_loop_eq [of role symbol occs "[]"]
    by (cases "role = - 1") (simp_all add: GetOccurrencesForSymbol_ulsp_def)
qed

lemma GetLocalSymbolInformation_ulsp_eq: "GetLocalSymbolInformation_ulsp = GetLocalSymbolInformation"
proof (intro ext)
  fix ss symbol
  show "GetLocalSymbolInformation_ulsp ss symbol = GetLocalSymbolInformation ss symbol"
    by (induction ss) (auto simp: GetLocalSymbolInformation_ulsp_def)
qed

lemma IsRangeBefore_eq: "IsRangeBefore_ulsp = IsRangeBefore"
  by (intro ext) (auto simp: IsRangeBefore_ulsp_def IsRangeBefore_def range_end_def Let_def sint_inject [symmetric])

lemma IsMatchingPosition_eq: "IsMatchingPosition_ulsp = IsMatchingPosition"
  by (intro ext) (auto simp: IsMatchingPosition_ulsp_def IsMatchingPosition_def Let_def
      sint_inject [symmetric] split: outcome.split)

lemma position_loop_eq: "position_loop rl occs pos low high = search_occurrence rl occs pos low high"
proof (induction rl occs pos low high rule: position_loop.induct)
  case (1 rl occs pos low high)
  then show ?case
    by (subst position_loop.simps, subst search_occurrence.simps)
      (simp add: Let_def IsMatchingPosition_eq IsRangeBefore_eq)
qed

lemma GetOccurrenceForPosition_eq: "GetOccurrenceForPosition_ulsp = GetOccurrenceForPosition"
  by (intro ext) (simp add: GetOccurrenceForPosition_ulsp_def GetOccurrenceForPosition_def position_loop_eq)

lemma uriToRelativePath_eq: "uriToRelativePath_ulsp = uriToRelativePath"
  by (intro ext) (simp add: uriToRelativePath_ulsp_def uriToRelativePath_def split: outcome.split)

lemma first_option_hd: "first_option xs = (if xs \<noteq> [] then Some (hd xs) else None)"
  by (simp add: first_option_def split: list.split)

lemmas lookups_eq = GetOccurrencesForSymbol_ulsp_eq GetLocalSymbolInformation_ulsp_eq GetOccurrenceForPosition_eq uriToRelativePath_eq

lemma GetSymbolDefinitionOccurrence_eq: "GetSymbolDefinitionOccurrence_ulsp = GetSymbolDefinitionOccurrence"
  by (intro ext) (auto simp: GetSymbolDefinitionOccurrence_ulsp_def GetSymbolDefinitionOccurrence_def lookups_eq op_bind_def
      op_simps Let_def GetURI_def first_option_hd split: option.split outcome.split prod.split)

lemma Definition_eq: "Definition_ulsp = Definition"
  by (intro ext) (auto simp: Definition_ulsp_def Definition_def occurrence_query_def lookups_eq op_bind_def op_simps
      GetSymbolDefinitionOccurrence_eq local_branch_def local_definition_def global_branch_def Let_def first_option_hd
      split: option.split outcome.split prod.split)

lemma local_locations_eq:
  "local_locations lib u symbol occs locations =
   locations @ map (ScipOccurrenceToLocation (lib_range lib) u) (filter (\<lambda>o'. Symbol o' = symbol) occs)"
  by (induction occs arbitrary: locations) auto

lemma file_locations_eq:
  "file_locations lib u occs locations = locations @ map (ScipOccurrenceToLocation (lib_range lib) u) occs"
  by (induction occs arbitrary: locations) auto

lemma global_locations_eq:
  "global_locations lib p occs locations =
   locations @ concat (map (\<lambda>(relDocPath, os). map (ScipOccurrenceToLocation (lib_range lib) (GetURI lib p relDocPath)) os) occs)"
  by (induction occs arbitrary: locations) (auto simp: file_locations_eq GetURI_def)

lemma References_eq: "References_ulsp = registry_References"
  by (intro ext) (auto simp: References_ulsp_def registry_References_def occurrence_query_def lookups_eq op_bind_def op_simps
      local_locations_eq global_locations_eq split: option.split outcome.split prod.split)

lemma Hover_eq: "Hover_ulsp = Hover"
  by (intro ext) (auto simp: Hover_ulsp_def Hover_def occurrence_query_def lookups_eq op_bind_def op_simps
      hover_docs_def Let_def split: option.split outcome.split prod.split)

lemma document_symbols_loop_eq:
  "document_symbols_loop lib u occs doc acc = obind (document_symbols lib u occs doc) (\<lambda>(sos, d). Ok (acc @ sos, d))"
proof (induction occs arbitrary: doc acc)
  case (Cons occ occs)
  show ?case
    by (simp add: Cons.IH document_symbol_step_def has_role_def Let_def obind_assoc split_def split: option.split)
qed simp

lemma DocumentSymbols_eq: "DocumentSymbols_ulsp = DocumentSymbols"
proof (intro ext)
  fix lib p and api :: "'s index_api" and u s
  have "document_symbols_loop lib u (Occurrences d) d [] = document_symbols lib u (Occurrences d) d" for d
    by (cases "document_symbols lib u (Occurrences d) d") (auto simp: document_symbols_loop_eq)
  then show "DocumentSymbols_ulsp lib p api u s = DocumentSymbols lib p api u s"
    by (simp only: DocumentSymbols_ulsp_def DocumentSymbols_def lookups_eq)
qed

text \<open>
  C9. The registry of the language server answers every query exactly as the registry of \<^verbatim>\<open>scip-lib\<close> it
  was copied from, for every index, state and library.
\<close>

theorem registries_agree:
  "Definition_ulsp lib p api u pos s = Definition lib p api u pos s \<and>
   References_ulsp lib p api u pos s = registry_References lib p api u pos s \<and>
   Hover_ulsp lib p api u pos s = Hover lib p api u pos s \<and>
   DocumentSymbols_ulsp lib p api u s = DocumentSymbols lib p api u s \<and>
   DidOpen_ulsp lib p api u s = DidOpen lib p api u s \<and>
   LoadIndex_ulsp api r s = registry_LoadIndex api r s"
  by (simp add: Definition_eq References_eq Hover_eq DocumentSymbols_eq DidOpen_ulsp_def DidOpen_def uriToRelativePath_eq
      LoadIndex_ulsp_def registry_LoadIndex_def split: option.split)

subsection \<open>Implementations\<close>

text \<open>
  The definition of an implementing symbol in an index whose documents are loaded, and that the documents
  needed for it are.
\<close>

definition implementation_of :: "libs \<Rightarrow> registry \<Rightarrow> partial_index \<Rightarrow> gostring \<Rightarrow> location option" where
  "implementation_of lib p ix implSym =
     (case ParseScipSymbol (ParseSymbol (lib_sym lib)) implSym of
        Ok sy \<Rightarrow>
          (case Package sy of
             None \<Rightarrow> None
           | Some pkg \<Rightarrow>
               (case GetSymbolInformationFromDescriptors ix (Descriptors sy) (spkg_Version pkg) of
                  Ok (Some info, path) \<Rightarrow>
                    (case map_of (LoadedDocuments ix) path of
                       None \<Rightarrow> None
                     | Some d \<Rightarrow>
                         map_option (ScipOccurrenceToLocation (lib_range lib) (GetURI lib p path))
                           (first_option (GetOccurrencesForSymbol (Occurrences d) (si_Symbol info) SymbolRole_Definition)))
                | _ \<Rightarrow> None))
      | _ \<Rightarrow> None)"

definition implementor_ready :: "libs \<Rightarrow> partial_index \<Rightarrow> gostring \<Rightarrow> bool" where
  "implementor_ready lib ix implSym \<longleftrightarrow>
     (case ParseScipSymbol (ParseSymbol (lib_sym lib)) implSym of
        Panic \<Rightarrow> False
      | Fail e \<Rightarrow> True
      | Ok sy \<Rightarrow>
          (case Package sy of
             None \<Rightarrow> False
           | Some pkg \<Rightarrow>
               (case GetSymbolInformationFromDescriptors ix (Descriptors sy) (spkg_Version pkg) of
                  Ok (Some info, path) \<Rightarrow> map_of (LoadedDocuments ix) path \<noteq> None
                | Ok (None, path) \<Rightarrow> True
                | Fail e \<Rightarrow> True
                | Panic \<Rightarrow> False)))"

lemma implementation_step:
  assumes "implementor_ready lib ix i"
  shows "implementation_loop lib p (partial_api fuel pl sl fs) (i # is) locs ix =
    implementation_loop lib p (partial_api fuel pl sl fs) is
      (locs @ (case implementation_of lib p ix i of None \<Rightarrow> [] | Some l \<Rightarrow> [l])) ix"
proof (cases "ParseScipSymbol (ParseSymbol (lib_sym lib)) i")
  case (Ok sy)
  with assms obtain pkg where pkg: "Package sy = Some pkg"
    by (auto simp: implementor_ready_def split: option.splits)
  define ds where sy: "ds = Descriptors sy"
  note defs = implementor_ready_def implementation_of_def GetSymbolDefinitionOccurrence_eq GetSymbolDefinitionOccurrence_def
    partial_api_def op_bind_def op_simps model_descriptors_id add_implementation_def LoadDocument_def
  consider info path d where "GetSymbolInformationFromDescriptors ix ds (spkg_Version pkg) = Ok (Some info, path)"
      "map_of (LoadedDocuments ix) path = Some d"
    | path where "GetSymbolInformationFromDescriptors ix ds (spkg_Version pkg) = Ok (None, path)"
    | e where "GetSymbolInformationFromDescriptors ix ds (spkg_Version pkg) = Fail e"
    using assms Ok pkg sy by (auto simp: implementor_ready_def split: outcome.splits option.splits prod.splits)
  then show ?thesis
    by cases (use Ok pkg sy in \<open>auto simp: defs split: option.split\<close>)
qed (use assms in \<open>auto simp: implementor_ready_def implementation_of_def\<close>)

lemma implementation_loop_ready:
  "list_all (implementor_ready lib ix) is \<Longrightarrow>
   implementation_loop lib p (partial_api fuel pl sl fs) is locs ix =
     Some (Ok (locs @ List.map_filter (implementation_of lib p ix) is), ix)"
proof (induction "is" arbitrary: locs)
  case Nil
  then show ?case by (simp add: op_return_def map_filter_simps)
next
  case (Cons i "is")
  then have "implementor_ready lib ix i" and "list_all (implementor_ready lib ix) is" by simp_all
  from implementation_step [OF this(1)] Cons.IH [OF this(2)] show ?case
    by (simp add: map_filter_simps split: option.split)
qed

text \<open>
  \<^verbatim>\<open>Implementation\<close> of a global symbol, with the documents of its implementors loaded: the locations
  are the definitions of the implementing symbols in the order of the index; symbols that do not parse, are
  unknown or have no definition occurrence are left out, and the index does not change.
\<close>

theorem Implementation_locations:
  assumes "map_of (LoadedDocuments ix) (uriToRelativePath lib p u) = Some d"
    and "GetOccurrenceForPosition (lib_range lib) (Occurrences d) pos = Some occ"
    and "\<not> IsLocalSymbol (lib_sym lib) (Symbol occ)"
    and "list_all (implementor_ready lib ix) (Implementations ix (Symbol occ))"
  shows "Implementation lib p (partial_api fuel pl sl fs) u pos ix =
    Some (Ok (Some (List.map_filter (implementation_of lib p ix) (Implementations ix (Symbol occ)))), ix)"
proof -
  have "api_Implementations (partial_api fuel pl sl fs) (Symbol occ) ix = Implementations ix (Symbol occ)"
    by (simp add: partial_api_def)
  with assms(2-4) api_cached [OF assms(1), of fuel pl sl fs] show ?thesis
    by (simp add: Implementation_def lookups_eq op_bind_def op_read_def op_return_def implementation_loop_ready)
qed

text \<open>An index in which the symbol \<^verbatim>\<open>ab\<close> implements \<^verbatim>\<open>ac\<close>, which \<^verbatim>\<open>a.go\<close> mentions.\<close>

definition impl_index :: partial_index where
  "impl_index = sample_index\<lparr>ImplementorsBySymbol := [(''ac'', [''zz'', ''ab''])],
     LoadedDocuments := (''a.go'', sample_document ''a.go'' [occurrence_at [2, 0, 3] ''ac'' 0]) # tl sample_docs\<rparr>"

theorem Implementation_locations_witness:
  "\<exists>loc. Implementation sample_libs sample_registry (partial_api 0 scip_lib sample_symlib sample_fs) sample_uri mention_pos impl_index =
     Some (Ok (Some [loc]), impl_index) \<and> loc_URI loc = ''file:///w/d.go''"
proof -
  let ?d = "sample_document ''a.go'' [occurrence_at [2, 0, 3] ''ac'' 0]" and ?occ = "occurrence_at [2, 0, 3] ''ac'' 0"
  let ?locs = "List.map_filter (implementation_of sample_libs sample_registry impl_index) (Implementations impl_index (Symbol ?occ))"
  have path: "uriToRelativePath sample_libs sample_registry sample_uri = ''a.go''" by code_simp
  have "map_of (LoadedDocuments impl_index) (uriToRelativePath sample_libs sample_registry sample_uri) = Some ?d"
    unfolding path by (simp add: impl_index_def)
  moreover have "GetOccurrenceForPosition (lib_range sample_libs) (Occurrences ?d) mention_pos = Some ?occ"
    "\<not> IsLocalSymbol (lib_sym sample_libs) (Symbol ?occ)"
    "list_all (implementor_ready sample_libs impl_index) (Implementations impl_index (Symbol ?occ))"
    by code_simp+
  ultimately have "Implementation sample_libs sample_registry (partial_api 0 scip_lib sample_symlib sample_fs) sample_uri
      mention_pos impl_index = Some (Ok (Some ?locs), impl_index)" by (rule Implementation_locations)
  moreover have "map loc_URI ?locs = [''file:///w/d.go'']" by code_simp
  ultimately show ?thesis by (auto simp: map_eq_Cons_conv)
qed

end
