(* ===== verification/Plugins.thy ===== *)
theory Plugins
  imports Sessions
begin

text \<open>
  \<^verbatim>\<open>src/ulsp/entity/ulsp-plugin/ulsp_plugin.go\<close> and \<^verbatim>\<open>src/ulsp/mapper/ulsp_plugin.go\<close>: what a plugin of the
  language server declares, how the declaration is validated, and how the declarations of all plugins become,
  for every method, one list to run in order and one to run in the background.

  The struct \<^verbatim>\<open>Methods\<close> has one optional function for every method; it is a function from the names of its
  fields. A handler takes the context, the parameters and the pointer to the result (\<open>None\<close> is nil); it
  may fail or panic and change the result and the world \<open>'w\<close> the plugins live in. The types of parameters
  and results belong to the protocol library: \<open>'p\<close> and \<open>'r\<close> stand for their unions. The method names
  are constants of that library too; the argument \<open>names\<close> gives them.
\<close>

subsection \<open>Methods\<close>

datatype lsp_method =
    M_Initialize | M_Initialized | M_Shutdown | M_Exit
  | M_DidChange | M_DidChangeWatchedFiles | M_DidOpen | M_DidClose | M_WillSave | M_WillSaveWaitUntil | M_DidSave
  | M_WillRenameFiles | M_DidRenameFiles | M_WillCreateFiles | M_DidCreateFiles | M_WillDeleteFiles | M_DidDeleteFiles
  | M_CodeAction | M_CodeLens | M_CodeLensRefresh | M_CodeLensResolve
  | M_GotoDeclaration | M_GotoDefinition | M_GotoTypeDefinition | M_GotoImplementation
  | M_References | M_Hover | M_DocumentSymbol
  | M_ExecuteCommand | M_WorkDoneProgressCancel | M_EndSession

text \<open>The cases of the switch in \<^verbatim>\<open>Validate\<close>, in their order.\<close>

definition all_methods :: "lsp_method list" where
  "all_methods =
     [M_Initialize, M_Initialized, M_Shutdown, M_Exit,
      M_DidChange, M_DidChangeWatchedFiles, M_DidOpen, M_DidClose, M_WillSave, M_WillSaveWaitUntil, M_DidSave,
      M_WillRenameFiles, M_DidRenameFiles, M_WillCreateFiles, M_DidCreateFiles, M_WillDeleteFiles, M_DidDeleteFiles,
      M_CodeAction, M_CodeLens, M_CodeLensRefresh, M_CodeLensResolve,
      M_GotoDeclaration, M_GotoDefinition, M_GotoTypeDefinition, M_GotoImplementation,
      M_References, M_Hover, M_DocumentSymbol,
      M_ExecuteCommand, M_WorkDoneProgressCancel, M_EndSession]"

type_synonym method_names = "lsp_method \<Rightarrow> gostring"

text \<open>The only method outside the protocol has its name in the source.\<close>

definition MethodEndSession :: gostring where
  "MethodEndSession = ''end_session''"

definition method_key :: "method_names \<Rightarrow> lsp_method \<Rightarrow> gostring" where
  "method_key names m = (if m = M_EndSession then MethodEndSession else names m)"

datatype 'p params = NoParams | Params 'p | SessionParams uuid

type_synonym ('p, 'r, 'w) handler = "ctx \<Rightarrow> 'p params \<Rightarrow> 'r option \<Rightarrow> 'w \<Rightarrow> unit outcome \<times> 'r option \<times> 'w"

record ('p, 'r, 'w) plugin_methods =
  PluginNameKey :: gostring
  implementation :: "lsp_method \<Rightarrow> ('p, 'r, 'w) handler option"

text \<open>A pointer to the methods of a plugin; \<open>None\<close> is nil.\<close>

type_synonym ('p, 'r, 'w) methods_ptr = "('p, 'r, 'w) plugin_methods option"

subsection \<open>Plugin declarations\<close>

definition PriorityHigh :: int where "PriorityHigh = 0"

definition PriorityRegular :: int where "PriorityRegular = 1"

definition PriorityAsync :: int where "PriorityAsync = 2"

record ('p, 'r, 'w) plugin_info =
  Priorities :: "(gostring \<times> int) list"
  Methods :: "('p, 'r, 'w) methods_ptr"
  NameKey :: gostring
  RelevantRepos :: "gostring list option"

text \<open>The field that the switch selects for a key.\<close>

definition method_of_key :: "method_names \<Rightarrow> gostring \<Rightarrow> lsp_method option" where
  "method_of_key names key = List.find (\<lambda>m. method_key names m = key) all_methods"

definition err_missing_field :: "gostring \<Rightarrow> go_error" where
  "err_missing_field f = Errorf ''missing %q field for this plugin'' [FStr f]"

definition err_missing_method :: "gostring \<Rightarrow> go_error" where
  "err_missing_method key = Errorf ''%q is included in the priority configuration, but is nil in Methods'' [FStr key]"

definition err_unrecognized_method :: "gostring \<Rightarrow> go_error" where
  "err_unrecognized_method key = Errorf ''%q included in priority config, but is not a recognized method. Method name must be a valid LSP method. If method is new to uLSP, ensure that ulspplugin.Validate is updated.'' [FStr key]"

fun validate_keys ::
  "method_names \<Rightarrow> ('p, 'r, 'w) plugin_methods \<Rightarrow> (gostring \<times> int) list \<Rightarrow> unit outcome" where
  "validate_keys names ms [] = Ok ()"
| "validate_keys names ms ((key, priority) # ps) =
     (case method_of_key names key of
        None \<Rightarrow> Fail (err_unrecognized_method key)
      | Some m \<Rightarrow>
          if implementation ms m = None then Fail (err_missing_method key) else validate_keys names ms ps)"

definition Validate :: "method_names \<Rightarrow> ('p, 'r, 'w) plugin_info \<Rightarrow> unit outcome" where
  "Validate names info =
     (if Priorities info = [] then Fail (err_missing_field ''Priorities'')
      else case Methods info of
          None \<Rightarrow> Fail (err_missing_field ''Methods'')
        | Some ms \<Rightarrow>
            if NameKey info = '''' then Fail (err_missing_field ''NameKey'')
            else if PluginNameKey ms \<noteq> NameKey info then Fail (err_missing_field ''Methods.SourcePlugin'')
            else validate_keys names ms (Priorities info))"

subsection \<open>Prioritized methods\<close>

record ('p, 'r, 'w) method_lists =
  Sync :: "('p, 'r, 'w) methods_ptr list"
  Async :: "('p, 'r, 'w) methods_ptr list"

type_synonym ('p, 'r, 'w) runtime_methods = "(gostring \<times> ('p, 'r, 'w) method_lists) list"

type_synonym ('p, 'r, 'w) buckets = "(int \<times> ('p, 'r, 'w) methods_ptr list) list"

text \<open>Reading a map whose values are slices or maps: a missing entry reads as an empty one.\<close>

definition lookup_list :: "('k \<times> 'v list) list \<Rightarrow> 'k \<Rightarrow> 'v list" where
  "lookup_list m k = (case map_of m k of None \<Rightarrow> [] | Some v \<Rightarrow> v)"

definition add_to_bucket ::
  "('p, 'r, 'w) methods_ptr \<Rightarrow> gostring \<Rightarrow> int \<Rightarrow> (gostring \<times> ('p, 'r, 'w) buckets) list \<Rightarrow> (gostring \<times> ('p, 'r, 'w) buckets) list" where
  "add_to_bucket ms method priority b =
     AList.update method
       (AList.update priority (lookup_list (lookup_list b method) priority @ [ms]) (lookup_list b method)) b"

fun collect_priorities ::
  "('p, 'r, 'w) methods_ptr \<Rightarrow> (gostring \<times> int) list \<Rightarrow> (gostring \<times> ('p, 'r, 'w) buckets) list \<Rightarrow> (gostring \<times> ('p, 'r, 'w) buckets) list" where
  "collect_priorities ms [] b = b"
| "collect_priorities ms ((method, priority) # ps) b = collect_priorities ms ps (add_to_bucket ms method priority b)"

fun collect_plugins ::
  "method_names \<Rightarrow> ('p, 'r, 'w) plugin_info list \<Rightarrow> (gostring \<times> ('p, 'r, 'w) buckets) list \<Rightarrow> (gostring \<times> ('p, 'r, 'w) buckets) list outcome" where
  "collect_plugins names [] b = Ok b"
| "collect_plugins names (info # infos) b =
     obind (wrap_err (Errorf ''error validating plugin configuration: %w'' []) (Validate names info)) (\<lambda>_.
       collect_plugins names infos (collect_priorities (Methods info) (Priorities info) b))"

definition no_lists :: "('p, 'r, 'w) method_lists" where
  "no_lists = \<lparr>Sync = [], Async = []\<rparr>"

definition consolidate_step ::
  "gostring \<Rightarrow> ('p, 'r, 'w) buckets \<Rightarrow> int \<Rightarrow> ('p, 'r, 'w) runtime_methods \<Rightarrow> ('p, 'r, 'w) runtime_methods" where
  "consolidate_step method bs priority result =
     (let current = (case map_of result method of None \<Rightarrow> no_lists | Some c \<Rightarrow> c)
      in AList.update method
           (if priority < PriorityAsync then current\<lparr>Sync := Sync current @ lookup_list bs priority\<rparr>
            else current\<lparr>Async := Async current @ lookup_list bs priority\<rparr>) result)"

text \<open>The loop \<^verbatim>\<open>for priority := PriorityHigh; priority <= PriorityAsync; priority++\<close> inside the loop over the methods.\<close>

definition consolidate_method ::
  "gostring \<times> ('p, 'r, 'w) buckets \<Rightarrow> ('p, 'r, 'w) runtime_methods \<Rightarrow> ('p, 'r, 'w) runtime_methods" where
  "consolidate_method = (\<lambda>(method, bs). fold (consolidate_step method bs) [PriorityHigh..PriorityAsync])"

definition PluginInfoToRuntimePrioritizedMethods ::
  "method_names \<Rightarrow> ('p, 'r, 'w) plugin_info list \<Rightarrow> ('p, 'r, 'w) runtime_methods outcome" where
  "PluginInfoToRuntimePrioritizedMethods names allPluginInfo =
     obind (collect_plugins names allPluginInfo []) (\<lambda>b. Ok (fold consolidate_method b []))"

subsection \<open>Methods by their keys\<close>

lemma find_key: "distinct (map f xs) \<Longrightarrow> x \<in> set xs \<Longrightarrow> List.find (\<lambda>y. f y = f x) xs = Some x"
  by (induction xs) auto

lemma all_methods_complete: "m \<in> set all_methods"
  by (cases m) (simp_all add: all_methods_def)

lemma method_of_key_key:
  "distinct (map (method_key names) all_methods) \<Longrightarrow> method_of_key names (method_key names m) = Some m"
  by (simp add: method_of_key_def find_key all_methods_complete)

subsection \<open>Order and completeness of the lists\<close>

text \<open>The plugins registered for a method with a priority, in the order of registration.\<close>

definition registered ::
  "('p, 'r, 'w) plugin_info list \<Rightarrow> gostring \<Rightarrow> int \<Rightarrow> ('p, 'r, 'w) methods_ptr list" where
  "registered infos m p = map Methods (filter (\<lambda>i. map_of (Priorities i) m = Some p) infos)"

text \<open>Go maps have distinct keys.\<close>

definition go_maps :: "('p, 'r, 'w) plugin_info list \<Rightarrow> bool" where
  "go_maps infos \<longleftrightarrow> list_all (\<lambda>i. distinct (map fst (Priorities i))) infos"

lemma lookup_list_Nil [simp]: "lookup_list [] k = []"
  by (simp add: lookup_list_def)

lemma lookup_list_update [simp]: "lookup_list (AList.update k v m) k' = (if k' = k then v else lookup_list m k')"
  by (simp add: lookup_list_def update_conv')

lemma add_to_bucket_lookup:
  "lookup_list (lookup_list (add_to_bucket ms method priority b) m) p =
     lookup_list (lookup_list b m) p @ (if m = method \<and> p = priority then [ms] else [])"
  by (simp add: add_to_bucket_def)

lemma add_to_bucket_keys: "fst ` set (add_to_bucket ms method priority b) = insert method (fst ` set b)"
  by (simp add: add_to_bucket_def dom_update)

lemma add_to_bucket_distinct: "distinct (map fst b) \<Longrightarrow> distinct (map fst (add_to_bucket ms method priority b))"
  by (simp add: add_to_bucket_def distinct_update)

lemma collect_priorities_distinct: "distinct (map fst b) \<Longrightarrow> distinct (map fst (collect_priorities ms ps b))"
  by (induction ms ps b rule: collect_priorities.induct) (simp_all add: add_to_bucket_distinct)

lemma collect_priorities_keys: "fst ` set (collect_priorities ms ps b) = fst ` set ps \<union> fst ` set b"
  by (induction ms ps b rule: collect_priorities.induct) (auto simp: add_to_bucket_keys)

lemma collect_priorities_lookup:
  "distinct (map fst ps) \<Longrightarrow>
   lookup_list (lookup_list (collect_priorities ms ps b) m) p =
     lookup_list (lookup_list b m) p @ (if map_of ps m = Some p then [ms] else [])"
proof (induction ms ps b rule: collect_priorities.induct)
  case (2 ms meth priority ps b)
  then have "m = meth \<Longrightarrow> map_of ps m = None" by (auto simp: map_of_eq_None_iff)
  with 2 show ?case by (auto simp: add_to_bucket_lookup)
qed simp

lemma collect_plugins_Ok:
  assumes "\<forall>i \<in> set infos. Validate names i = Ok ()"
  shows "collect_plugins names infos b = Ok (fold (\<lambda>i. collect_priorities (Methods i) (Priorities i)) infos b)"
  using assms by (induction infos arbitrary: b) auto

lemma collected_distinct:
  "distinct (map fst b) \<Longrightarrow>
   distinct (map fst (fold (\<lambda>i. collect_priorities (Methods i) (Priorities i)) infos b))"
  by (induction infos arbitrary: b) (simp_all add: collect_priorities_distinct)

lemma collected_keys:
  "fst ` set (fold (\<lambda>i. collect_priorities (Methods i) (Priorities i)) infos b) =
     (\<Union>i \<in> set infos. fst ` set (Priorities i)) \<union> fst ` set b"
  by (induction infos arbitrary: b) (auto simp: collect_priorities_keys)

lemma collected_lookup:
  "go_maps infos \<Longrightarrow>
   lookup_list (lookup_list (fold (\<lambda>i. collect_priorities (Methods i) (Priorities i)) infos b) m) p =
     lookup_list (lookup_list b m) p @ registered infos m p"
  by (induction infos arbitrary: b) (simp_all add: go_maps_def registered_def collect_priorities_lookup)

lemma consolidate_method_lookup:
  "map_of (consolidate_method (method, bs) result) m =
     (if m = method then
        (let current = (case map_of result method of None \<Rightarrow> no_lists | Some c \<Rightarrow> c)
         in Some \<lparr>Sync = Sync current @ lookup_list bs PriorityHigh @ lookup_list bs PriorityRegular,
                 Async = Async current @ lookup_list bs PriorityAsync\<rparr>)
      else map_of result m)"
proof -
  have "[PriorityHigh..PriorityAsync] = [PriorityHigh, PriorityRegular, PriorityAsync]"
    by (simp add: PriorityHigh_def PriorityRegular_def PriorityAsync_def upto_rec1)
  moreover have "PriorityHigh < PriorityAsync" "PriorityRegular < PriorityAsync"
    by (simp_all add: PriorityHigh_def PriorityRegular_def PriorityAsync_def)
  ultimately show ?thesis
    by (simp add: consolidate_method_def consolidate_step_def Let_def update_conv')
qed

lemma consolidated_other:
  "m \<notin> fst ` set b \<Longrightarrow> map_of (fold consolidate_method b result) m = map_of result m"
  by (induction b arbitrary: result) (auto simp: consolidate_method_lookup)

lemma consolidated_lookup:
  assumes "distinct (map fst b)" and "m \<in> fst ` set b" and "map_of result m = None"
  shows "map_of (fold consolidate_method b result) m =
    Some \<lparr>Sync = lookup_list (lookup_list b m) PriorityHigh @ lookup_list (lookup_list b m) PriorityRegular,
          Async = lookup_list (lookup_list b m) PriorityAsync\<rparr>"
  using assms
proof (induction b arbitrary: result)
  case (Cons x b)
  obtain meth bs where x: "x = (meth, bs)" by (cases x)
  show ?case
  proof (cases "m = meth")
    case True
    with Cons.prems x have "m \<notin> fst ` set b" by simp
    with True x Cons.prems(3) show ?thesis
      by (simp add: consolidated_other consolidate_method_lookup lookup_list_def no_lists_def)
  next
    case False
    with Cons.prems x have "distinct (map fst b)" "m \<in> fst ` set b"
      "map_of (consolidate_method x result) m = None" by (simp_all add: consolidate_method_lookup)
    from Cons.IH [OF this] False x show ?thesis by (simp add: lookup_list_def)
  qed
qed simp

lemma prioritized_lookup:
  assumes "go_maps infos"
  shows "map_of (fold consolidate_method (fold (\<lambda>i. collect_priorities (Methods i) (Priorities i)) infos []) []) m =
    (if \<exists>i \<in> set infos. m \<in> fst ` set (Priorities i)
     then Some \<lparr>Sync = registered infos m PriorityHigh @ registered infos m PriorityRegular,
                Async = registered infos m PriorityAsync\<rparr>
     else None)"
proof -
  let ?b = "fold (\<lambda>i. collect_priorities (Methods i) (Priorities i)) infos []"
  have keys: "m \<in> fst ` set ?b \<longleftrightarrow> (\<exists>i \<in> set infos. m \<in> fst ` set (Priorities i))"
    by (simp add: collected_keys)
  have "distinct (map fst ?b)" by (rule collected_distinct) simp
  from consolidated_lookup [OF this] collected_lookup [OF assms, of "[]" m] keys
  show ?thesis by (auto simp: consolidated_other)
qed

lemma collect_plugins_Fail:
  assumes "\<forall>i \<in> set pre. Validate names i = Ok ()" and "Validate names info = Fail e"
  shows "collect_plugins names (pre @ info # post) b =
    Fail (Join (Errorf ''error validating plugin configuration: %w'' []) e)"
  using assms by (induction pre arbitrary: b) auto

text \<open>
  C14. Registration of plugins. If every plugin is valid, then for every method some plugin is registered for,
  the list to run in order has the high-priority plugins before the regular ones, each group in the order of
  registration, and the background list has the asynchronous ones; a method without plugins has no entry. If
  some plugin is invalid, the registration fails with the error of the first invalid one.
\<close>

theorem PluginInfoToRuntimePrioritizedMethods_order:
  assumes "go_maps infos"
  shows "((\<forall>i \<in> set infos. Validate names i = Ok ()) \<longrightarrow>
     (\<exists>rt. PluginInfoToRuntimePrioritizedMethods names infos = Ok rt \<and>
       (\<forall>m. map_of rt m =
         (if \<exists>i \<in> set infos. m \<in> fst ` set (Priorities i)
          then Some \<lparr>Sync = registered infos m PriorityHigh @ registered infos m PriorityRegular,
                     Async = registered infos m PriorityAsync\<rparr>
          else None)))) \<and>
    (\<forall>pre info post e. infos = pre @ info # post \<longrightarrow> (\<forall>i \<in> set pre. Validate names i = Ok ()) \<longrightarrow>
       Validate names info = Fail e \<longrightarrow>
       PluginInfoToRuntimePrioritizedMethods names infos =
         Fail (Join (Errorf ''error validating plugin configuration: %w'' []) e))"
  using prioritized_lookup [OF assms]
  by (auto simp: PluginInfoToRuntimePrioritizedMethods_def collect_plugins_Ok collect_plugins_Fail)

text \<open>The names of the methods as the protocol has them.\<close>

definition protocol_names :: method_names where
  "protocol_names m = the (map_of (zip all_methods
     [''initialize'', ''initialized'', ''shutdown'', ''exit'',
      ''textDocument/didChange'', ''workspace/didChangeWatchedFiles'', ''textDocument/didOpen'', ''textDocument/didClose'',
      ''textDocument/willSave'', ''textDocument/willSaveWaitUntil'', ''textDocument/didSave'',
      ''workspace/willRenameFiles'', ''workspace/didRenameFiles'', ''workspace/willCreateFiles'', ''workspace/didCreateFiles'',
      ''workspace/willDeleteFiles'', ''workspace/didDeleteFiles'',
      ''textDocument/codeAction'', ''textDocument/codeLens'', ''workspace/codeLens/refresh'', ''codeLens/resolve'',
      ''textDocument/declaration'', ''textDocument/definition'', ''textDocument/typeDefinition'', ''textDocument/implementation'',
      ''textDocument/references'', ''textDocument/hover'', ''textDocument/documentSymbol'',
      ''workspace/executeCommand'', ''window/workDoneProgress/cancel'', []]) m)"

text \<open>A plugin that runs a handler for one method; the handler appends to the log that is the world.\<close>

definition log_handler :: "gostring \<Rightarrow> (unit, gostring, gostring list) handler" where
  "log_handler name cx ps res w = (Ok (), map_option (\<lambda>r. r @ name) res, w @ [name])"

definition sample_plugin :: "gostring \<Rightarrow> lsp_method \<Rightarrow> int \<Rightarrow> (unit, gostring, gostring list) plugin_info" where
  "sample_plugin name m priority =
     \<lparr>Priorities = [(method_key protocol_names m, priority)],
      Methods = Some \<lparr>PluginNameKey = name, implementation = (\<lambda>m'. if m' = m then Some (log_handler name) else None)\<rparr>,
      NameKey = name, RelevantRepos = None\<rparr>"

definition sample_plugins :: "(unit, gostring, gostring list) plugin_info list" where
  "sample_plugins =
     [sample_plugin ''doc'' M_DidOpen PriorityRegular, sample_plugin ''idx'' M_DidOpen PriorityAsync,
      sample_plugin ''fmt'' M_DidOpen PriorityHigh]"

lemma sample_plugins_ok: "go_maps sample_plugins" "\<forall>i \<in> set sample_plugins. Validate protocol_names i = Ok ()"
  by code_simp+

theorem PluginInfoToRuntimePrioritizedMethods_order_witness:
  "\<exists>rt l. PluginInfoToRuntimePrioritizedMethods protocol_names sample_plugins = Ok rt \<and>
     map_of rt ''textDocument/didOpen'' = Some l \<and>
     map (map_option PluginNameKey) (Sync l) = [Some ''fmt'', Some ''doc''] \<and>
     map (map_option PluginNameKey) (Async l) = [Some ''idx'']"
proof -
  let ?m = "''textDocument/didOpen''"
  have key: "\<exists>i \<in> set sample_plugins. ?m \<in> fst ` set (Priorities i)"
    and lists: "map (map_option PluginNameKey) (registered sample_plugins ?m PriorityHigh @ registered sample_plugins ?m PriorityRegular)
        = [Some ''fmt'', Some ''doc'']"
      "map (map_option PluginNameKey) (registered sample_plugins ?m PriorityAsync) = [Some ''idx'']"
    by code_simp+
  from PluginInfoToRuntimePrioritizedMethods_order [OF sample_plugins_ok(1), of protocol_names] sample_plugins_ok(2)
  obtain rt where rt: "PluginInfoToRuntimePrioritizedMethods protocol_names sample_plugins = Ok rt"
    and all: "\<forall>m. map_of rt m = (if \<exists>i \<in> set sample_plugins. m \<in> fst ` set (Priorities i)
      then Some \<lparr>Sync = registered sample_plugins m PriorityHigh @ registered sample_plugins m PriorityRegular,
                 Async = registered sample_plugins m PriorityAsync\<rparr> else None)" by blast
  from all [rule_format, of ?m] key have
    "map_of rt ?m = Some \<lparr>Sync = registered sample_plugins ?m PriorityHigh @ registered sample_plugins ?m PriorityRegular,
       Async = registered sample_plugins ?m PriorityAsync\<rparr>" by (simp only: if_True)
  with rt lists show ?thesis by auto
qed

end
