(* ===== verification/Daemon.thy ===== *)
theory Daemon
  imports Plugins
begin

text \<open>
  \<^verbatim>\<open>src/ulsp/controller/ulsp-daemon\<close>: the controller behind the JSON-RPC server. It keeps the sessions and the
  registered plugins of each session, sends every request to the plugins that declared the method, and stops
  the server when no session has been connected for the idle timeout.

  The plugins act on a world \<open>'w\<close>. Calls for asynchronous plugins are queued as tasks, in the order in which the
  goroutines are started; a task runs at any later time (\<open>run_async\<close>). A task whose context times out is
  still run: respecting the deadline is up to the plugin. The gateway and the workspace utilities are
  the interfaces the controller is built with. Log output is left out.
\<close>

subsection \<open>State\<close>

text \<open>The idle timer: not created yet, running with the time it was set to, or stopped.\<close>

datatype idle_timer = NoTimer | Running int | Stopped

record ('p, 'r, 'w) async_task =
  task_ctx :: ctx
  task_method :: lsp_method
  task_params :: "'p params"
  task_methods :: "('p, 'r, 'w) methods_ptr"

text \<open>A plugin is its \<^verbatim>\<open>StartupInfo\<close>; \<open>None\<close> is a nil plugin.\<close>

type_synonym ('p, 'r, 'w) plugin = "(ctx \<Rightarrow> ('p, 'r, 'w) plugin_info outcome) option"

datatype client_event = RegisterClient uuid | DeregisterClient uuid | ShowMessage ctx gostring

record ('p, 'r, 'w, 'c) daemon =
  d_sessions :: "('p, 'c) repository"
  d_fullShutdown :: bool
  d_idleTimer :: idle_timer
  d_idleTimeout :: int
  d_pluginMethods :: "(uuid \<times> ('p, 'r, 'w) runtime_methods) list"
  d_pluginConfig :: "(gostring \<times> bool) list"
  d_pluginsAll :: "('p, 'r, 'w) plugin list"
  d_tasks :: "('p, 'r, 'w) async_task list"
  d_gateway :: "client_event list"
  d_stopped :: bool
  d_world :: 'w

type_synonym ('a, 'p, 'r, 'w, 'c) daemon_result = "'a outcome \<times> ('p, 'r, 'w, 'c) daemon"

text \<open>What the controller is built with: the method names, the gateway and the workspace utilities.\<close>

record ('p, 'r) daemon_env =
  env_names :: method_names
  env_gateway :: "client_event \<Rightarrow> unit outcome"
  env_GetWorkspaceRoot :: "'p \<Rightarrow> gostring outcome"
  env_GetRepoName :: "gostring \<Rightarrow> gostring outcome"
  env_GetEnv :: "gostring \<Rightarrow> gostring list outcome"
  env_InitializeResult :: 'r
  env_TextDocumentSync :: "'r \<Rightarrow> 'r"
  env_EmptyList :: 'r
  env_WorkspaceEdit :: 'r
  env_CodeLens :: 'r
  env_Hover :: 'r
  env_HoverValue :: "'r \<Rightarrow> gostring"

definition gateway_call ::
  "('p, 'r) daemon_env \<Rightarrow> client_event \<Rightarrow> ('p, 'r, 'w, 'c) daemon \<Rightarrow> (unit, 'p, 'r, 'w, 'c) daemon_result" where
  "gateway_call env e c = (env_gateway env e, c\<lparr>d_gateway := d_gateway c @ [e]\<rparr>)"

subsection \<open>Calling plugins\<close>

text \<open>
  The closure of a handler for the field \<open>m\<close>: a nil pointer or a nil function panics; an error is logged
  and the next plugin is called.
\<close>

definition call_plugin ::
  "lsp_method \<Rightarrow> ctx \<Rightarrow> 'p params \<Rightarrow> ('p, 'r, 'w) methods_ptr \<Rightarrow> 'r option \<Rightarrow> 'w \<Rightarrow> unit outcome \<times> 'r option \<times> 'w" where
  "call_plugin m cx ps p result w =
     (case p of
        None \<Rightarrow> (Panic, result, w)
      | Some ms \<Rightarrow>
          (case implementation ms m of
             None \<Rightarrow> (Panic, result, w)
           | Some h \<Rightarrow>
               (case h cx ps result w of
                  (Panic, r', w') \<Rightarrow> (Panic, r', w')
                | (_, r', w') \<Rightarrow> (Ok (), r', w'))))"

fun call_plugins ::
  "lsp_method \<Rightarrow> ctx \<Rightarrow> 'p params \<Rightarrow> ('p, 'r, 'w) methods_ptr list \<Rightarrow> 'r option \<Rightarrow> 'w \<Rightarrow> unit outcome \<times> 'r option \<times> 'w" where
  "call_plugins m cx ps [] result w = (Ok (), result, w)"
| "call_plugins m cx ps (p # rest) result w =
     (case call_plugin m cx ps p result w of
        (Ok _, r', w') \<Rightarrow> call_plugins m cx ps rest r' w'
      | (_, r', w') \<Rightarrow> (Panic, r', w'))"

text \<open>
  The method \<open>key\<close> selects the plugins, the handlers call the field \<open>m\<close> of each; the asynchronous handler
  is called with a nil result. (Every caller passes two closures, so the check for nil handlers is left out.)
\<close>

definition executePluginMethods ::
  "method_names \<Rightarrow> ('p, 'r, 'w, 'c) daemon \<Rightarrow> ctx \<Rightarrow> lsp_method \<Rightarrow> lsp_method \<Rightarrow> 'p params \<Rightarrow> 'r option \<Rightarrow>
   ('r option, 'p, 'r, 'w, 'c) daemon_result" where
  "executePluginMethods names c cx key m ps result =
     (case ContextToSessionUUID cx of
        Ok u \<Rightarrow>
          (case map_of (d_pluginMethods c) u of
             None \<Rightarrow> (Ok result, c)
           | Some rt \<Rightarrow>
               (case map_of rt (method_key names key) of
                  None \<Rightarrow> (Ok result, c)
                | Some l \<Rightarrow>
                    (case call_plugins m cx ps (Sync l) result (d_world c) of
                       (Ok _, r', w') \<Rightarrow>
                         (Ok r', c\<lparr>d_world := w', d_tasks := d_tasks c @
                            map (\<lambda>p. \<lparr>task_ctx = cx, task_method = m, task_params = ps, task_methods = p\<rparr>) (Async l)\<rparr>)
                     | (_, r', w') \<Rightarrow> (Panic, c\<lparr>d_world := w'\<rparr>))))
      | Fail e \<Rightarrow> (Fail (Join (Errorf ''getting session from context: %w'' []) e), c)
      | Panic \<Rightarrow> (Panic, c))"

text \<open>One of the queued tasks runs. A panic in a goroutine ends the process.\<close>

definition run_async :: "nat \<Rightarrow> ('p, 'r, 'w, 'c) daemon \<Rightarrow> (unit, 'p, 'r, 'w, 'c) daemon_result" where
  "run_async i c =
     (if i < length (d_tasks c)
      then (let t = d_tasks c ! i;
                (r, _, w') = call_plugin (task_method t) (task_ctx t) (task_params t) (task_methods t) None (d_world c)
            in (r, c\<lparr>d_world := w', d_tasks := take i (d_tasks c) @ drop (Suc i) (d_tasks c)\<rparr>))
      else (Ok (), c))"

subsection \<open>Registering the plugins of a session\<close>

fun enabled_plugins ::
  "(gostring \<times> bool) list \<Rightarrow> gostring \<Rightarrow> ctx \<Rightarrow> ('p, 'r, 'w) plugin list \<Rightarrow> ('p, 'r, 'w) plugin_info list outcome" where
  "enabled_plugins config repo cx [] = Ok []"
| "enabled_plugins config repo cx (None # ps) = enabled_plugins config repo cx ps"
| "enabled_plugins config repo cx (Some StartupInfo # ps) =
     obind (wrap_err (Errorf ''getting plugin startup info: %w'' []) (StartupInfo cx)) (\<lambda>info.
       if (case RelevantRepos info of None \<Rightarrow> True | Some repos \<Rightarrow> repo \<in> set repos) \<and>
          map_of config (NameKey info) = Some True
       then obind (enabled_plugins config repo cx ps) (\<lambda>infos. Ok (info # infos))
       else enabled_plugins config repo cx ps)"

text \<open>When the prioritization fails, its nil map is stored for the session all the same.\<close>

definition registerSessionPlugins ::
  "method_names \<Rightarrow> ('p, 'r, 'w, 'c) daemon \<Rightarrow> ctx \<Rightarrow> (unit, 'p, 'r, 'w, 'c) daemon_result" where
  "registerSessionPlugins names c cx =
     (case wrap_err (Errorf ''getting session from context: %w'' []) (GetFromContext (d_sessions c) cx) of
        Ok s \<Rightarrow>
          (case enabled_plugins (d_pluginConfig c) (ses_Monorepo s) cx (d_pluginsAll c) of
             Ok infos \<Rightarrow>
               (case PluginInfoToRuntimePrioritizedMethods names infos of
                  Ok rt \<Rightarrow> (Ok (), c\<lparr>d_pluginMethods := AList.update (ses_UUID s) rt (d_pluginMethods c)\<rparr>)
                | Fail e \<Rightarrow> (Fail (Join (Errorf ''prioritizing plugin methods: %w'' []) e),
                             c\<lparr>d_pluginMethods := AList.update (ses_UUID s) [] (d_pluginMethods c)\<rparr>)
                | Panic \<Rightarrow> (Panic, c))
           | Fail e \<Rightarrow> (Fail e, c)
           | Panic \<Rightarrow> (Panic, c))
      | Fail e \<Rightarrow> (Fail e, c)
      | Panic \<Rightarrow> (Panic, c))"

subsection \<open>The two shapes of a request\<close>

definition notify ::
  "('p, 'r) daemon_env \<Rightarrow> lsp_method \<Rightarrow> lsp_method \<Rightarrow> ('p, 'r, 'w, 'c) daemon \<Rightarrow> ctx \<Rightarrow> 'p params \<Rightarrow>
   (unit, 'p, 'r, 'w, 'c) daemon_result" where
  "notify env key m c cx ps =
     (case executePluginMethods (env_names env) c cx key m ps None of
        (Ok _, c') \<Rightarrow> (Ok (), c') | (Fail e, c') \<Rightarrow> (Fail e, c') | (Panic, c') \<Rightarrow> (Panic, c'))"

text \<open>Wrapping with \<^verbatim>\<open>fmt.Errorf(_errBadPluginCall, err)\<close>.\<close>

definition bad_plugin_call :: "go_error" where
  "bad_plugin_call = Errorf ''calling plugin: %s'' []"

definition query ::
  "('p, 'r) daemon_env \<Rightarrow> lsp_method \<Rightarrow> lsp_method \<Rightarrow> 'r \<Rightarrow> ('p, 'r, 'w, 'c) daemon \<Rightarrow> ctx \<Rightarrow> 'p params \<Rightarrow>
   ('r option, 'p, 'r, 'w, 'c) daemon_result" where
  "query env key m zero c cx ps =
     (case executePluginMethods (env_names env) c cx key m ps (Some zero) of
        (r, c') \<Rightarrow> (wrap_err bad_plugin_call r, c'))"

subsection \<open>Document, window and workspace notifications\<close>

definition daemon_DidChange ::
  "('p, 'r) daemon_env \<Rightarrow> ('p, 'r, 'w, 'c) daemon \<Rightarrow> ctx \<Rightarrow> 'p params \<Rightarrow> (unit, 'p, 'r, 'w, 'c) daemon_result" where
  "daemon_DidChange env = notify env M_DidChange M_DidChange"

definition daemon_DidChangeWatchedFiles ::
  "('p, 'r) daemon_env \<Rightarrow> ('p, 'r, 'w, 'c) daemon \<Rightarrow> ctx \<Rightarrow> 'p params \<Rightarrow> (unit, 'p, 'r, 'w, 'c) daemon_result" where
  "daemon_DidChangeWatchedFiles env = notify env M_DidChangeWatchedFiles M_DidChangeWatchedFiles"

definition daemon_DidOpen ::
  "('p, 'r) daemon_env \<Rightarrow> ('p, 'r, 'w, 'c) daemon \<Rightarrow> ctx \<Rightarrow> 'p params \<Rightarrow> (unit, 'p, 'r, 'w, 'c) daemon_result" where
  "daemon_DidOpen env = notify env M_DidOpen M_DidOpen"

definition daemon_DidClose ::
  "('p, 'r) daemon_env \<Rightarrow> ('p, 'r, 'w, 'c) daemon \<Rightarrow> ctx \<Rightarrow> 'p params \<Rightarrow> (unit, 'p, 'r, 'w, 'c) daemon_result" where
  "daemon_DidClose env = notify env M_DidClose M_DidClose"

definition daemon_WillSave ::
  "('p, 'r) daemon_env \<Rightarrow> ('p, 'r, 'w, 'c) daemon \<Rightarrow> ctx \<Rightarrow> 'p params \<Rightarrow> (unit, 'p, 'r, 'w, 'c) daemon_result" where
  "daemon_WillSave env = notify env M_WillSave M_WillSave"

definition daemon_DidSave ::
  "('p, 'r) daemon_env \<Rightarrow> ('p, 'r, 'w, 'c) daemon \<Rightarrow> ctx \<Rightarrow> 'p params \<Rightarrow> (unit, 'p, 'r, 'w, 'c) daemon_result" where
  "daemon_DidSave env = notify env M_DidSave M_DidSave"

definition daemon_DidRenameFiles ::
  "('p, 'r) daemon_env \<Rightarrow> ('p, 'r, 'w, 'c) daemon \<Rightarrow> ctx \<Rightarrow> 'p params \<Rightarrow> (unit, 'p, 'r, 'w, 'c) daemon_result" where
  "daemon_DidRenameFiles env = notify env M_DidRenameFiles M_DidRenameFiles"

definition daemon_DidCreateFiles ::
  "('p, 'r) daemon_env \<Rightarrow> ('p, 'r, 'w, 'c) daemon \<Rightarrow> ctx \<Rightarrow> 'p params \<Rightarrow> (unit, 'p, 'r, 'w, 'c) daemon_result" where
  "daemon_DidCreateFiles env = notify env M_DidCreateFiles M_DidCreateFiles"

definition daemon_DidDeleteFiles ::
  "('p, 'r) daemon_env \<Rightarrow> ('p, 'r, 'w, 'c) daemon \<Rightarrow> ctx \<Rightarrow> 'p params \<Rightarrow> (unit, 'p, 'r, 'w, 'c) daemon_result" where
  "daemon_DidDeleteFiles env = notify env M_DidDeleteFiles M_DidDeleteFiles"

definition daemon_CodeLensRefresh ::
  "('p, 'r) daemon_env \<Rightarrow> ('p, 'r, 'w, 'c) daemon \<Rightarrow> ctx \<Rightarrow> 'p params \<Rightarrow> (unit, 'p, 'r, 'w, 'c) daemon_result" where
  "daemon_CodeLensRefresh env = notify env M_CodeLensRefresh M_CodeLensRefresh"

definition daemon_WorkDoneProgressCancel ::
  "('p, 'r) daemon_env \<Rightarrow> ('p, 'r, 'w, 'c) daemon \<Rightarrow> ctx \<Rightarrow> 'p params \<Rightarrow> (unit, 'p, 'r, 'w, 'c) daemon_result" where
  "daemon_WorkDoneProgressCancel env = notify env M_WorkDoneProgressCancel M_WorkDoneProgressCancel"

definition daemon_ExecuteCommand ::
  "('p, 'r) daemon_env \<Rightarrow> ('p, 'r, 'w, 'c) daemon \<Rightarrow> ctx \<Rightarrow> 'p params \<Rightarrow> (unit, 'p, 'r, 'w, 'c) daemon_result" where
  "daemon_ExecuteCommand env = notify env M_ExecuteCommand M_ExecuteCommand"

subsection \<open>Requests with a result\<close>

definition daemon_WillSaveWaitUntil ::
  "('p, 'r) daemon_env \<Rightarrow> ('p, 'r, 'w, 'c) daemon \<Rightarrow> ctx \<Rightarrow> 'p params \<Rightarrow> ('r option, 'p, 'r, 'w, 'c) daemon_result" where
  "daemon_WillSaveWaitUntil env = query env M_WillSaveWaitUntil M_WillSaveWaitUntil (env_EmptyList env)"

definition daemon_WillRenameFiles ::
  "('p, 'r) daemon_env \<Rightarrow> ('p, 'r, 'w, 'c) daemon \<Rightarrow> ctx \<Rightarrow> 'p params \<Rightarrow> ('r option, 'p, 'r, 'w, 'c) daemon_result" where
  "daemon_WillRenameFiles env = query env M_WillRenameFiles M_WillRenameFiles (env_WorkspaceEdit env)"

definition daemon_WillCreateFiles ::
  "('p, 'r) daemon_env \<Rightarrow> ('p, 'r, 'w, 'c) daemon \<Rightarrow> ctx \<Rightarrow> 'p params \<Rightarrow> ('r option, 'p, 'r, 'w, 'c) daemon_result" where
  "daemon_WillCreateFiles env = query env M_WillCreateFiles M_WillCreateFiles (env_WorkspaceEdit env)"

definition daemon_WillDeleteFiles ::
  "('p, 'r) daemon_env \<Rightarrow> ('p, 'r, 'w, 'c) daemon \<Rightarrow> ctx \<Rightarrow> 'p params \<Rightarrow> ('r option, 'p, 'r, 'w, 'c) daemon_result" where
  "daemon_WillDeleteFiles env = query env M_WillDeleteFiles M_WillDeleteFiles (env_WorkspaceEdit env)"

definition daemon_CodeAction ::
  "('p, 'r) daemon_env \<Rightarrow> ('p, 'r, 'w, 'c) daemon \<Rightarrow> ctx \<Rightarrow> 'p params \<Rightarrow> ('r option, 'p, 'r, 'w, 'c) daemon_result" where
  "daemon_CodeAction env = query env M_CodeAction M_CodeAction (env_EmptyList env)"

definition daemon_CodeLens ::
  "('p, 'r) daemon_env \<Rightarrow> ('p, 'r, 'w, 'c) daemon \<Rightarrow> ctx \<Rightarrow> 'p params \<Rightarrow> ('r option, 'p, 'r, 'w, 'c) daemon_result" where
  "daemon_CodeLens env = query env M_CodeLens M_CodeLens (env_EmptyList env)"

definition daemon_CodeLensResolve ::
  "('p, 'r) daemon_env \<Rightarrow> ('p, 'r, 'w, 'c) daemon \<Rightarrow> ctx \<Rightarrow> 'p params \<Rightarrow> ('r option, 'p, 'r, 'w, 'c) daemon_result" where
  "daemon_CodeLensResolve env = query env M_CodeLensResolve M_CodeLensResolve (env_CodeLens env)"

definition daemon_GotoDeclaration ::
  "('p, 'r) daemon_env \<Rightarrow> ('p, 'r, 'w, 'c) daemon \<Rightarrow> ctx \<Rightarrow> 'p params \<Rightarrow> ('r option, 'p, 'r, 'w, 'c) daemon_result" where
  "daemon_GotoDeclaration env = query env M_GotoDeclaration M_GotoDeclaration (env_EmptyList env)"

definition daemon_GotoDefinition ::
  "('p, 'r) daemon_env \<Rightarrow> ('p, 'r, 'w, 'c) daemon \<Rightarrow> ctx \<Rightarrow> 'p params \<Rightarrow> ('r option, 'p, 'r, 'w, 'c) daemon_result" where
  "daemon_GotoDefinition env = query env M_GotoDefinition M_GotoDefinition (env_EmptyList env)"

definition daemon_GotoTypeDefinition ::
  "('p, 'r) daemon_env \<Rightarrow> ('p, 'r, 'w, 'c) daemon \<Rightarrow> ctx \<Rightarrow> 'p params \<Rightarrow> ('r option, 'p, 'r, 'w, 'c) daemon_result" where
  "daemon_GotoTypeDefinition env = query env M_GotoTypeDefinition M_GotoTypeDefinition (env_EmptyList env)"

definition daemon_GotoImplementation ::
  "('p, 'r) daemon_env \<Rightarrow> ('p, 'r, 'w, 'c) daemon \<Rightarrow> ctx \<Rightarrow> 'p params \<Rightarrow> ('r option, 'p, 'r, 'w, 'c) daemon_result" where
  "daemon_GotoImplementation env = query env M_GotoImplementation M_GotoImplementation (env_EmptyList env)"

definition daemon_References ::
  "('p, 'r) daemon_env \<Rightarrow> ('p, 'r, 'w, 'c) daemon \<Rightarrow> ctx \<Rightarrow> 'p params \<Rightarrow> ('r option, 'p, 'r, 'w, 'c) daemon_result" where
  "daemon_References env = query env M_References M_References (env_EmptyList env)"

definition daemon_DocumentSymbol ::
  "('p, 'r) daemon_env \<Rightarrow> ('p, 'r, 'w, 'c) daemon \<Rightarrow> ctx \<Rightarrow> 'p params \<Rightarrow> ('r option, 'p, 'r, 'w, 'c) daemon_result" where
  "daemon_DocumentSymbol env = query env M_DocumentSymbol M_DocumentSymbol (env_EmptyList env)"

text \<open>An empty hover is answered with nil.\<close>

definition daemon_Hover ::
  "('p, 'r) daemon_env \<Rightarrow> ('p, 'r, 'w, 'c) daemon \<Rightarrow> ctx \<Rightarrow> 'p params \<Rightarrow> ('r option, 'p, 'r, 'w, 'c) daemon_result" where
  "daemon_Hover env c cx ps =
     (case query env M_Hover M_Hover (env_Hover env) c cx ps of
        (Ok (Some r), c') \<Rightarrow> (Ok (if env_HoverValue env r = [] then None else Some r), c')
      | (Ok None, c') \<Rightarrow> (Panic, c')
      | (Fail e, c') \<Rightarrow> (Fail e, c')
      | (Panic, c') \<Rightarrow> (Panic, c'))"

subsection \<open>Lifecycle\<close>

definition refreshIdleTimer :: "('p, 'r, 'w, 'c) daemon \<Rightarrow> ('p, 'r, 'w, 'c) daemon" where
  "refreshIdleTimer c =
     c\<lparr>d_idleTimer :=
        (if d_idleTimer c = NoTimer then Running (d_idleTimeout c)
         else if SessionCount (d_sessions c) = 0 then Running (d_idleTimeout c)
         else Stopped)\<rparr>"

text \<open>The session after its parameters, root, repository and environment are filled in.\<close>

definition initialized_session ::
  "('p, 'r) daemon_env \<Rightarrow> 'p \<Rightarrow> ('p, 'c) session \<Rightarrow> ('p, 'c) session outcome" where
  "initialized_session env params s0 =
     obind (case env_GetWorkspaceRoot env params of
              Ok root \<Rightarrow> Ok (s0\<lparr>ses_InitializeParams := Some params, ses_WorkspaceRoot := root\<rparr>)
            | Fail e \<Rightarrow> Ok (s0\<lparr>ses_InitializeParams := Some params, ses_WorkspaceRoot := [], ses_UlspEnabled := False\<rparr>)
            | Panic \<Rightarrow> Panic) (\<lambda>s.
       if ses_WorkspaceRoot s = [] then Ok s
       else obind (wrap_err (Errorf ''getting repo name: %w'' []) (env_GetRepoName env (ses_WorkspaceRoot s))) (\<lambda>repo.
            obind (wrap_err (Errorf ''getting environment: %w'' []) (env_GetEnv env (ses_WorkspaceRoot s))) (\<lambda>vars.
              Ok (s\<lparr>ses_Monorepo := repo, ses_Env := vars\<rparr>))))"

definition daemon_Initialize ::
  "('p, 'r) daemon_env \<Rightarrow> ('p, 'r, 'w, 'c) daemon \<Rightarrow> ctx \<Rightarrow> 'p \<Rightarrow> ('r option, 'p, 'r, 'w, 'c) daemon_result" where
  "daemon_Initialize env c cx params =
     (case obind (wrap_err (Errorf ''getting session from context: %w'' []) (GetFromContext (d_sessions c) cx))
             (initialized_session env params) of
        Fail e \<Rightarrow> (Fail e, c)
      | Panic \<Rightarrow> (Panic, c)
      | Ok s \<Rightarrow>
          (let c1 = c\<lparr>d_sessions := snd (SetSession (d_sessions c) (Some s))\<rparr>
           in if ses_UlspEnabled s
              then (case registerSessionPlugins (env_names env) c1 cx of
                      (Ok _, c2) \<Rightarrow>
                        query env M_Initialize M_Initialize (env_TextDocumentSync env (env_InitializeResult env)) c2 cx (Params params)
                    | (Fail e, c2) \<Rightarrow> (Fail (Join (Errorf ''registering session plugins: %w'' []) e), c2)
                    | (Panic, c2) \<Rightarrow> (Panic, c2))
              else query env M_Initialize M_Initialize (env_InitializeResult env) c1 cx (Params params)))"

definition initialized_message :: "bool \<Rightarrow> gostring" where
  "initialized_message enabled =
     (if enabled then ''Connection to Uber Language Server is now initialized.''
      else ''Uber Language Server is not available for this workspace. See t.uber.com/ulsp for more info.'')"

definition daemon_Initialized ::
  "('p, 'r) daemon_env \<Rightarrow> ('p, 'r, 'w, 'c) daemon \<Rightarrow> ctx \<Rightarrow> 'p params \<Rightarrow> (unit, 'p, 'r, 'w, 'c) daemon_result" where
  "daemon_Initialized env c cx ps =
     (case notify env M_Initialized M_Initialized c cx ps of
        (Fail e, c1) \<Rightarrow> (Fail (Join bad_plugin_call e), c1)
      | (Panic, c1) \<Rightarrow> (Panic, c1)
      | (Ok _, c1) \<Rightarrow>
          (case wrap_err (Errorf ''getting session from context: %w'' []) (GetFromContext (d_sessions c1) cx) of
             Fail e \<Rightarrow> (Fail e, c1)
           | Panic \<Rightarrow> (Panic, c1)
           | Ok s \<Rightarrow> (Ok (), snd (gateway_call env (ShowMessage cx (initialized_message (ses_UlspEnabled s))) c1))))"

definition daemon_Shutdown ::
  "('p, 'r) daemon_env \<Rightarrow> ('p, 'r, 'w, 'c) daemon \<Rightarrow> ctx \<Rightarrow> (unit, 'p, 'r, 'w, 'c) daemon_result" where
  "daemon_Shutdown env c cx =
     (case notify env M_Shutdown M_Shutdown c cx NoParams of (r, c') \<Rightarrow> (wrap_err bad_plugin_call r, c'))"

text \<open>
  Errors of the plugins and of the gateway are logged; the context selects the plugins to call, the UUID the session
  to end. The timer is refreshed when the call returns.
\<close>

definition daemon_EndSession ::
  "('p, 'r) daemon_env \<Rightarrow> ('p, 'r, 'w, 'c) daemon \<Rightarrow> ctx \<Rightarrow> uuid \<Rightarrow> (unit, 'p, 'r, 'w, 'c) daemon_result" where
  "daemon_EndSession env c cx u =
     (let (r, c1) =
            (if map_of (d_pluginMethods c) u = None then (Ok (), c)
             else case notify env M_EndSession M_EndSession c cx (SessionParams u) of
                 (Panic, c1) \<Rightarrow> (Panic, c1) | (_, c1) \<Rightarrow> (Ok (), c1))
      in case r of
           Ok _ \<Rightarrow>
             (let (_, c2) = gateway_call env (DeregisterClient u) c1
              in (Ok (), refreshIdleTimer
                    (c2\<lparr>d_pluginMethods := AList.delete u (d_pluginMethods c2),
                        d_sessions := DeleteSession (d_sessions c2) u\<rparr>)))
         | _ \<Rightarrow> (Panic, c1))"

definition daemon_Exit ::
  "('p, 'r) daemon_env \<Rightarrow> ('p, 'r, 'w, 'c) daemon \<Rightarrow> ctx \<Rightarrow> (unit, 'p, 'r, 'w, 'c) daemon_result" where
  "daemon_Exit env c cx =
     (case notify env M_Exit M_Exit c cx NoParams of
        (Panic, c1) \<Rightarrow> (Panic, c1)
      | (_, c1) \<Rightarrow>
          if d_fullShutdown c1 then (Ok (), c1\<lparr>d_idleTimer := Running 0\<rparr>)
          else (case wrap_err (Errorf ''error during session exit: %w'' []) (GetFromContext (d_sessions c1) cx) of
                  Ok s \<Rightarrow> daemon_EndSession env c1 cx (ses_UUID s)
                | Fail e \<Rightarrow> (Fail e, c1)
                | Panic \<Rightarrow> (Panic, c1)))"

definition daemon_RequestFullShutdown ::
  "('p, 'r, 'w, 'c) daemon \<Rightarrow> (unit, 'p, 'r, 'w, 'c) daemon_result" where
  "daemon_RequestFullShutdown c = (Ok (), c\<lparr>d_fullShutdown := True\<rparr>)"

text \<open>The new UUID, or the error of the generator, is an argument.\<close>

definition daemon_InitSession ::
  "('p, 'r) daemon_env \<Rightarrow> uuid outcome \<Rightarrow> ('p, 'r, 'w, 'c) daemon \<Rightarrow> 'c option \<Rightarrow> (uuid, 'p, 'r, 'w, 'c) daemon_result" where
  "daemon_InitSession env newUUID c conn =
     (case newUUID of
        Fail e \<Rightarrow> (Fail e, refreshIdleTimer c)
      | Panic \<Rightarrow> (Panic, c)
      | Ok u \<Rightarrow>
          (case gateway_call env (RegisterClient u) c of
             (Fail e, c1) \<Rightarrow> (Fail e, refreshIdleTimer c1)
           | (Panic, c1) \<Rightarrow> (Panic, c1)
           | (Ok _, c1) \<Rightarrow>
               (Ok u, refreshIdleTimer (c1\<lparr>d_sessions := snd (SetSession (d_sessions c1) (Some (UUIDToSession u conn)))\<rparr>))))"

text \<open>The goroutine that waits for the timer.\<close>

definition idle_timer_fires :: "('p, 'r, 'w, 'c) daemon \<Rightarrow> ('p, 'r, 'w, 'c) daemon" where
  "idle_timer_fires c = c\<lparr>d_idleTimer := Stopped, d_stopped := True\<rparr>"

text \<open>\<open>None\<close> is the error for a missing or zero idle timeout or a missing plugin configuration.\<close>

definition NewDaemon ::
  "int outcome \<Rightarrow> (gostring \<times> bool) list outcome \<Rightarrow> ('p, 'r, 'w) plugin list \<Rightarrow> 'w \<Rightarrow> ('p, 'r, 'w, 'c) daemon option" where
  "NewDaemon timeoutMinutesRaw config plugins w =
     (case (timeoutMinutesRaw, config) of
        (Ok t, Ok cfg) \<Rightarrow>
          (if t = 0 then None
           else Some (refreshIdleTimer \<lparr>d_sessions = NewSessionRepository, d_fullShutdown = False, d_idleTimer = NoTimer,
             d_idleTimeout = t, d_pluginMethods = [], d_pluginConfig = cfg, d_pluginsAll = plugins,
             d_tasks = [], d_gateway = [], d_stopped = False, d_world = w\<rparr>))
      | _ \<Rightarrow> None)"

end
