(* ===== verification/Router.thy ===== *)
theory Router
  imports Daemon TextEdits
begin

text \<open>
  \<^verbatim>\<open>src/ulsp/handler/ulsp-daemon\<close>: the JSON-RPC side of the server. A connection gets a router with the UUID of its
  session; a request is decoded, handed to the controller and answered. The JSON decoders of the parameter types
  and the replier of the connection are arguments; metrics are left out.
\<close>

datatype 'r reply = Reply "'r option" "go_error option"

record ('p, 'r, 'arg) router_lib =
  rl_Unmarshal :: "lsp_method \<Rightarrow> byte list \<Rightarrow> 'p outcome"
  rl_UnmarshalCommand :: "byte list \<Rightarrow> 'arg execute_command_params outcome"
  rl_Marshal :: "'arg \<Rightarrow> byte list outcome"
  rl_CommandParams :: "byte list execute_command_params \<Rightarrow> 'p"
  rl_reply :: "'r reply \<Rightarrow> unit outcome"

text \<open>What a routed request does: the replies that were sent, the error of the handler, and the state.\<close>

type_synonym ('p, 'r, 'w, 'c) routed = "'r reply list \<times> unit outcome \<times> ('p, 'r, 'w, 'c) daemon"

type_synonym ('p, 'r, 'w, 'c) route = "('p, 'r, 'w, 'c) daemon \<Rightarrow> ctx \<Rightarrow> byte list \<Rightarrow> ('p, 'r, 'w, 'c) routed"

text \<open>\<^verbatim>\<open>return reply(ctx, result, err)\<close>; a panic of the controller leaves no reply.\<close>

definition reply_with ::
  "('p, 'r, 'arg) router_lib \<Rightarrow> 'r option outcome \<Rightarrow> ('p, 'r, 'w, 'c) daemon \<Rightarrow> ('p, 'r, 'w, 'c) routed" where
  "reply_with lib r c =
     (case r of
        Ok x \<Rightarrow> ([Reply x None], rl_reply lib (Reply x None), c)
      | Fail e \<Rightarrow> ([Reply None (Some e)], rl_reply lib (Reply None (Some e)), c)
      | Panic \<Rightarrow> ([], Panic, c))"

text \<open>Decode the parameters, call the controller and answer: without a result, and with one.\<close>

definition route_params ::
  "('p, 'r, 'arg) router_lib \<Rightarrow> (byte list \<Rightarrow> 'p outcome) \<Rightarrow>
   (('p, 'r, 'w, 'c) daemon \<Rightarrow> ctx \<Rightarrow> 'p params \<Rightarrow> ('r option, 'p, 'r, 'w, 'c) daemon_result) \<Rightarrow> ('p, 'r, 'w, 'c) route" where
  "route_params lib decode call c cx raw =
     (case decode raw of
        Ok p \<Rightarrow> (case call c cx (Params p) of (r, c') \<Rightarrow> reply_with lib r c')
      | Fail e \<Rightarrow> reply_with lib (Fail e) c
      | Panic \<Rightarrow> reply_with lib Panic c)"

text \<open>A call without a result is answered with nil.\<close>

definition no_result ::
  "(('p, 'r, 'w, 'c) daemon \<Rightarrow> ctx \<Rightarrow> 'p params \<Rightarrow> (unit, 'p, 'r, 'w, 'c) daemon_result) \<Rightarrow>
   ('p, 'r, 'w, 'c) daemon \<Rightarrow> ctx \<Rightarrow> 'p params \<Rightarrow> ('r option, 'p, 'r, 'w, 'c) daemon_result" where
  "no_result call c cx ps = (case call c cx ps of (r, c') \<Rightarrow> (obind r (\<lambda>_. Ok None), c'))"

definition decode :: "('p, 'r, 'arg) router_lib \<Rightarrow> lsp_method \<Rightarrow> byte list \<Rightarrow> 'p outcome" where
  "decode lib m = RequestToParams (rl_Unmarshal lib m)"

definition decode_command :: "('p, 'r, 'arg) router_lib \<Rightarrow> byte list \<Rightarrow> 'p outcome" where
  "decode_command lib raw =
     obind (RequestToExecuteCommandParams (rl_UnmarshalCommand lib) (rl_Marshal lib) raw) (\<lambda>p. Ok (rl_CommandParams lib p))"

subsection \<open>Lifecycle\<close>

definition router_Initialize :: "('p, 'r) daemon_env \<Rightarrow> ('p, 'r, 'arg) router_lib \<Rightarrow> ('p, 'r, 'w, 'c) route" where
  "router_Initialize env lib c cx raw =
     (case decode lib M_Initialize raw of
        Ok p \<Rightarrow> (case daemon_Initialize env c cx p of (r, c') \<Rightarrow> reply_with lib r c')
      | Fail e \<Rightarrow> reply_with lib (Fail e) c
      | Panic \<Rightarrow> reply_with lib Panic c)"

definition router_Initialized :: "('p, 'r) daemon_env \<Rightarrow> ('p, 'r, 'arg) router_lib \<Rightarrow> ('p, 'r, 'w, 'c) route" where
  "router_Initialized env lib = route_params lib (decode lib M_Initialized) (no_result (daemon_Initialized env))"

definition router_Shutdown :: "('p, 'r) daemon_env \<Rightarrow> ('p, 'r, 'arg) router_lib \<Rightarrow> ('p, 'r, 'w, 'c) route" where
  "router_Shutdown env lib c cx raw =
     (case daemon_Shutdown env c cx of (r, c') \<Rightarrow> reply_with lib (obind r (\<lambda>_. Ok None)) c')"

text \<open>The reply is sent before the controller is called; its own error is not looked at.\<close>

definition router_Exit :: "('p, 'r) daemon_env \<Rightarrow> ('p, 'r, 'arg) router_lib \<Rightarrow> ('p, 'r, 'w, 'c) route" where
  "router_Exit env lib c cx raw = (case daemon_Exit env c cx of (r, c') \<Rightarrow> ([Reply None None], r, c'))"

definition router_RequestFullShutdown :: "('p, 'r, 'arg) router_lib \<Rightarrow> ('p, 'r, 'w, 'c) route" where
  "router_RequestFullShutdown lib c cx raw =
     (case daemon_RequestFullShutdown c of (r, c') \<Rightarrow> reply_with lib (obind r (\<lambda>_. Ok None)) c')"

definition router_CodeLensRefresh :: "('p, 'r) daemon_env \<Rightarrow> ('p, 'r, 'arg) router_lib \<Rightarrow> ('p, 'r, 'w, 'c) route" where
  "router_CodeLensRefresh env lib c cx raw =
     (case daemon_CodeLensRefresh env c cx NoParams of (r, c') \<Rightarrow> reply_with lib (obind r (\<lambda>_. Ok None)) c')"

subsection \<open>Notifications\<close>

definition router_DidChange :: "('p, 'r) daemon_env \<Rightarrow> ('p, 'r, 'arg) router_lib \<Rightarrow> ('p, 'r, 'w, 'c) route" where
  "router_DidChange env lib = route_params lib (decode lib M_DidChange) (no_result (daemon_DidChange env))"

definition router_DidChangeWatchedFiles :: "('p, 'r) daemon_env \<Rightarrow> ('p, 'r, 'arg) router_lib \<Rightarrow> ('p, 'r, 'w, 'c) route" where
  "router_DidChangeWatchedFiles env lib = route_params lib (decode lib M_DidChangeWatchedFiles) (no_result (daemon_DidChangeWatchedFiles env))"

definition router_DidOpen :: "('p, 'r) daemon_env \<Rightarrow> ('p, 'r, 'arg) router_lib \<Rightarrow> ('p, 'r, 'w, 'c) route" where
  "router_DidOpen env lib = route_params lib (decode lib M_DidOpen) (no_result (daemon_DidOpen env))"

definition router_DidClose :: "('p, 'r) daemon_env \<Rightarrow> ('p, 'r, 'arg) router_lib \<Rightarrow> ('p, 'r, 'w, 'c) route" where
  "router_DidClose env lib = route_params lib (decode lib M_DidClose) (no_result (daemon_DidClose env))"

definition router_WillSave :: "('p, 'r) daemon_env \<Rightarrow> ('p, 'r, 'arg) router_lib \<Rightarrow> ('p, 'r, 'w, 'c) route" where
  "router_WillSave env lib = route_params lib (decode lib M_WillSave) (no_result (daemon_WillSave env))"

definition router_DidSave :: "('p, 'r) daemon_env \<Rightarrow> ('p, 'r, 'arg) router_lib \<Rightarrow> ('p, 'r, 'w, 'c) route" where
  "router_DidSave env lib = route_params lib (decode lib M_DidSave) (no_result (daemon_DidSave env))"

definition router_DidRenameFiles :: "('p, 'r) daemon_env \<Rightarrow> ('p, 'r, 'arg) router_lib \<Rightarrow> ('p, 'r, 'w, 'c) route" where
  "router_DidRenameFiles env lib = route_params lib (decode lib M_DidRenameFiles) (no_result (daemon_DidRenameFiles env))"

definition router_DidCreateFiles :: "('p, 'r) daemon_env \<Rightarrow> ('p, 'r, 'arg) router_lib \<Rightarrow> ('p, 'r, 'w, 'c) route" where
  "router_DidCreateFiles env lib = route_params lib (decode lib M_DidCreateFiles) (no_result (daemon_DidCreateFiles env))"

definition router_DidDeleteFiles :: "('p, 'r) daemon_env \<Rightarrow> ('p, 'r, 'arg) router_lib \<Rightarrow> ('p, 'r, 'w, 'c) route" where
  "router_DidDeleteFiles env lib = route_params lib (decode lib M_DidDeleteFiles) (no_result (daemon_DidDeleteFiles env))"

definition router_WorkDoneProgressCancel :: "('p, 'r) daemon_env \<Rightarrow> ('p, 'r, 'arg) router_lib \<Rightarrow> ('p, 'r, 'w, 'c) route" where
  "router_WorkDoneProgressCancel env lib = route_params lib (decode lib M_WorkDoneProgressCancel) (no_result (daemon_WorkDoneProgressCancel env))"

definition router_ExecuteCommand :: "('p, 'r) daemon_env \<Rightarrow> ('p, 'r, 'arg) router_lib \<Rightarrow> ('p, 'r, 'w, 'c) route" where
  "router_ExecuteCommand env lib = route_params lib (decode_command lib) (no_result (daemon_ExecuteCommand env))"

subsection \<open>Requests with a result\<close>

definition router_WillSaveWaitUntil :: "('p, 'r) daemon_env \<Rightarrow> ('p, 'r, 'arg) router_lib \<Rightarrow> ('p, 'r, 'w, 'c) route" where
  "router_WillSaveWaitUntil env lib = route_params lib (decode lib M_WillSaveWaitUntil) (daemon_WillSaveWaitUntil env)"

definition router_WillRenameFiles :: "('p, 'r) daemon_env \<Rightarrow> ('p, 'r, 'arg) router_lib \<Rightarrow> ('p, 'r, 'w, 'c) route" where
  "router_WillRenameFiles env lib = route_params lib (decode lib M_WillRenameFiles) (daemon_WillRenameFiles env)"

definition router_WillCreateFiles :: "('p, 'r) daemon_env \<Rightarrow> ('p, 'r, 'arg) router_lib \<Rightarrow> ('p, 'r, 'w, 'c) route" where
  "router_WillCreateFiles env lib = route_params lib (decode lib M_WillCreateFiles) (daemon_WillCreateFiles env)"

definition router_WillDeleteFiles :: "('p, 'r) daemon_env \<Rightarrow> ('p, 'r, 'arg) router_lib \<Rightarrow> ('p, 'r, 'w, 'c) route" where
  "router_WillDeleteFiles env lib = route_params lib (decode lib M_WillDeleteFiles) (daemon_WillDeleteFiles env)"

definition router_CodeAction :: "('p, 'r) daemon_env \<Rightarrow> ('p, 'r, 'arg) router_lib \<Rightarrow> ('p, 'r, 'w, 'c) route" where
  "router_CodeAction env lib = route_params lib (decode lib M_CodeAction) (daemon_CodeAction env)"

definition router_CodeLens :: "('p, 'r) daemon_env \<Rightarrow> ('p, 'r, 'arg) router_lib \<Rightarrow> ('p, 'r, 'w, 'c) route" where
  "router_CodeLens env lib = route_params lib (decode lib M_CodeLens) (daemon_CodeLens env)"

definition router_CodeLensResolve :: "('p, 'r) daemon_env \<Rightarrow> ('p, 'r, 'arg) router_lib \<Rightarrow> ('p, 'r, 'w, 'c) route" where
  "router_CodeLensResolve env lib = route_params lib (decode lib M_CodeLensResolve) (daemon_CodeLensResolve env)"

definition router_GotoDeclaration :: "('p, 'r) daemon_env \<Rightarrow> ('p, 'r, 'arg) router_lib \<Rightarrow> ('p, 'r, 'w, 'c) route" where
  "router_GotoDeclaration env lib = route_params lib (decode lib M_GotoDeclaration) (daemon_GotoDeclaration env)"

definition router_GotoDefinition :: "('p, 'r) daemon_env \<Rightarrow> ('p, 'r, 'arg) router_lib \<Rightarrow> ('p, 'r, 'w, 'c) route" where
  "router_GotoDefinition env lib = route_params lib (decode lib M_GotoDefinition) (daemon_GotoDefinition env)"

definition router_GotoTypeDefinition :: "('p, 'r) daemon_env \<Rightarrow> ('p, 'r, 'arg) router_lib \<Rightarrow> ('p, 'r, 'w, 'c) route" where
  "router_GotoTypeDefinition env lib = route_params lib (decode lib M_GotoTypeDefinition) (daemon_GotoTypeDefinition env)"

definition router_GotoImplementation :: "('p, 'r) daemon_env \<Rightarrow> ('p, 'r, 'arg) router_lib \<Rightarrow> ('p, 'r, 'w, 'c) route" where
  "router_GotoImplementation env lib = route_params lib (decode lib M_GotoImplementation) (daemon_GotoImplementation env)"

definition router_References :: "('p, 'r) daemon_env \<Rightarrow> ('p, 'r, 'arg) router_lib \<Rightarrow> ('p, 'r, 'w, 'c) route" where
  "router_References env lib = route_params lib (decode lib M_References) (daemon_References env)"

definition router_Hover :: "('p, 'r) daemon_env \<Rightarrow> ('p, 'r, 'arg) router_lib \<Rightarrow> ('p, 'r, 'w, 'c) route" where
  "router_Hover env lib = route_params lib (decode lib M_Hover) (daemon_Hover env)"

definition router_DocumentSymbol :: "('p, 'r) daemon_env \<Rightarrow> ('p, 'r, 'arg) router_lib \<Rightarrow> ('p, 'r, 'w, 'c) route" where
  "router_DocumentSymbol env lib = route_params lib (decode lib M_DocumentSymbol) (daemon_DocumentSymbol env)"

subsection \<open>Routing\<close>

definition MethodRequestFullShutdown :: gostring where
  "MethodRequestFullShutdown = ''ulsp/requestFullShutdown''"

text \<open>The cases of the switch, in their order.\<close>

definition routes :: "('p, 'r) daemon_env \<Rightarrow> ('p, 'r, 'arg) router_lib \<Rightarrow> (gostring \<times> ('p, 'r, 'w, 'c) route) list" where
  "routes env lib =
     [(method_key (env_names env) M_Initialize, router_Initialize env lib),
      (method_key (env_names env) M_Initialized, router_Initialized env lib),
      (method_key (env_names env) M_Shutdown, router_Shutdown env lib),
      (method_key (env_names env) M_Exit, router_Exit env lib),
      (MethodRequestFullShutdown, router_RequestFullShutdown lib),
      (method_key (env_names env) M_DidChange, router_DidChange env lib),
      (method_key (env_names env) M_DidChangeWatchedFiles, router_DidChangeWatchedFiles env lib),
      (method_key (env_names env) M_DidOpen, router_DidOpen env lib),
      (method_key (env_names env) M_DidClose, router_DidClose env lib),
      (method_key (env_names env) M_WillSave, router_WillSave env lib),
      (method_key (env_names env) M_WillSaveWaitUntil, router_WillSaveWaitUntil env lib),
      (method_key (env_names env) M_DidSave, router_DidSave env lib),
      (method_key (env_names env) M_WillRenameFiles, router_WillRenameFiles env lib),
      (method_key (env_names env) M_DidRenameFiles, router_DidRenameFiles env lib),
      (method_key (env_names env) M_WillCreateFiles, router_WillCreateFiles env lib),
      (method_key (env_names env) M_DidCreateFiles, router_DidCreateFiles env lib),
      (method_key (env_names env) M_WillDeleteFiles, router_WillDeleteFiles env lib),
      (method_key (env_names env) M_DidDeleteFiles, router_DidDeleteFiles env lib),
      (method_key (env_names env) M_CodeAction, router_CodeAction env lib),
      (method_key (env_names env) M_CodeLens, router_CodeLens env lib),
      (method_key (env_names env) M_CodeLensRefresh, router_CodeLensRefresh env lib),
      (method_key (env_names env) M_CodeLensResolve, router_CodeLensResolve env lib),
      (method_key (env_names env) M_GotoDeclaration, router_GotoDeclaration env lib),
      (method_key (env_names env) M_GotoDefinition, router_GotoDefinition env lib),
      (method_key (env_names env) M_GotoTypeDefinition, router_GotoTypeDefinition env lib),
      (method_key (env_names env) M_GotoImplementation, router_GotoImplementation env lib),
      (method_key (env_names env) M_References, router_References env lib),
      (method_key (env_names env) M_Hover, router_Hover env lib),
      (method_key (env_names env) M_DocumentSymbol, router_DocumentSymbol env lib),
      (method_key (env_names env) M_ExecuteCommand, router_ExecuteCommand env lib),
      (method_key (env_names env) M_WorkDoneProgressCancel, router_WorkDoneProgressCancel env lib)]"

text \<open>A method without a case is answered by the library with an error; the state does not change.\<close>

definition method_not_found :: go_error where
  "method_not_found = External ''jsonrpc2.ErrMethodNotFound''"

definition HandleReq ::
  "('p, 'r) daemon_env \<Rightarrow> ('p, 'r, 'arg) router_lib \<Rightarrow> uuid \<Rightarrow> ('p, 'r, 'w, 'c) daemon \<Rightarrow> gostring \<Rightarrow> byte list \<Rightarrow>
   ('p, 'r, 'w, 'c) routed" where
  "HandleReq env lib u c method raw =
     (case map_of (routes env lib) method of
        Some h \<Rightarrow> h c (Some u) raw
      | None \<Rightarrow> reply_with lib (Fail method_not_found) c)"

subsection \<open>Connections\<close>

text \<open>\<^verbatim>\<open>NewConnection\<close> returns the router, which is the UUID of the new session.\<close>

definition NewConnection ::
  "('p, 'r) daemon_env \<Rightarrow> uuid outcome \<Rightarrow> ('p, 'r, 'w, 'c) daemon \<Rightarrow> 'c option \<Rightarrow> (uuid, 'p, 'r, 'w, 'c) daemon_result" where
  "NewConnection env newUUID c conn =
     (case daemon_InitSession env newUUID c conn of
        (r, c') \<Rightarrow> (wrap_err (Errorf ''error while creating new connection: %w'' []) r, c'))"

definition RemoveConnection ::
  "('p, 'r) daemon_env \<Rightarrow> ('p, 'r, 'w, 'c) daemon \<Rightarrow> uuid \<Rightarrow> (unit, 'p, 'r, 'w, 'c) daemon_result" where
  "RemoveConnection env c u =
     (case daemon_EndSession env c (Some u) u of
        (Panic, c') \<Rightarrow> (Panic, c') | (_, c') \<Rightarrow> (Ok (), c'))"

end
