(* ===== verification/DaemonSpec.thy ===== *)
theory DaemonSpec
  imports Router
begin

text \<open>
  The server as a state machine: connections come and go, requests arrive, background tasks run, the idle timer
  fires. In every reachable state every call of a plugin finds its handler, no step panics unless a plugin
  does, and the timer runs exactly while no session is connected.
\<close>

subsection \<open>What plugins and libraries owe\<close>

text \<open>The methods that are called with a result to fill in.\<close>

definition has_result :: "lsp_method \<Rightarrow> bool" where
  "has_result m \<longleftrightarrow> m \<in> {M_Initialize, M_WillSaveWaitUntil, M_WillRenameFiles, M_WillCreateFiles, M_WillDeleteFiles,
     M_CodeAction, M_CodeLens, M_CodeLensResolve, M_GotoDeclaration, M_GotoDefinition, M_GotoTypeDefinition,
     M_GotoImplementation, M_References, M_Hover, M_DocumentSymbol}"

text \<open>
  A handler does not panic when it gets a result to fill in exactly if the method has one and the call is synchronous,
  and it does not turn the pointer to the result into another one.
\<close>

definition handler_ok :: "bool \<Rightarrow> lsp_method \<Rightarrow> ('p, 'r, 'w) handler \<Rightarrow> bool" where
  "handler_ok async m h \<longleftrightarrow> (\<forall>cx ps r w. (r = None \<longleftrightarrow> async \<or> \<not> has_result m) \<longrightarrow>
     fst (h cx ps r w) \<noteq> Panic \<and> (fst (snd (h cx ps r w)) = None \<longleftrightarrow> r = None))"

text \<open>The handlers a plugin declares are well-behaved; its priorities are a Go map.\<close>

definition plugin_ok :: "method_names \<Rightarrow> ('p, 'r, 'w) plugin_info \<Rightarrow> bool" where
  "plugin_ok names info \<longleftrightarrow> distinct (map fst (Priorities info)) \<and>
     (\<forall>m prio ms h. map_of (Priorities info) (method_key names m) = Some prio \<longrightarrow> Methods info = Some ms \<longrightarrow>
        implementation ms m = Some h \<longrightarrow> handler_ok (prio = PriorityAsync) m h)"

definition plugins_ok :: "method_names \<Rightarrow> ('p, 'r, 'w) plugin list \<Rightarrow> bool" where
  "plugins_ok names plugins \<longleftrightarrow>
     (\<forall>StartupInfo \<in> Option.these (set plugins). \<forall>cx. StartupInfo cx \<noteq> Panic \<and>
        (\<forall>info. StartupInfo cx = Ok info \<longrightarrow> plugin_ok names info))"

text \<open>The libraries return errors instead of panicking, and the method names are distinct.\<close>

definition env_ok :: "('p, 'r) daemon_env \<Rightarrow> bool" where
  "env_ok env \<longleftrightarrow> distinct (map (method_key (env_names env)) all_methods) \<and>
     (\<forall>e. env_gateway env e \<noteq> Panic) \<and> (\<forall>p. env_GetWorkspaceRoot env p \<noteq> Panic) \<and>
     (\<forall>d. env_GetRepoName env d \<noteq> Panic) \<and> (\<forall>d. env_GetEnv env d \<noteq> Panic)"

definition lib_ok :: "('p, 'r, 'arg) router_lib \<Rightarrow> bool" where
  "lib_ok lib \<longleftrightarrow> (\<forall>m raw. rl_Unmarshal lib m raw \<noteq> Panic) \<and> (\<forall>raw. rl_UnmarshalCommand lib raw \<noteq> Panic) \<and>
     (\<forall>a. rl_Marshal lib a \<noteq> Panic) \<and> (\<forall>r. rl_reply lib r \<noteq> Panic)"

subsection \<open>Validated plugins have their handlers\<close>

text \<open>A pointer that can be called for a method, with or without a result.\<close>

definition ptr_ok :: "bool \<Rightarrow> lsp_method \<Rightarrow> ('p, 'r, 'w) methods_ptr \<Rightarrow> bool" where
  "ptr_ok async m p \<longleftrightarrow> (\<exists>ms h. p = Some ms \<and> implementation ms m = Some h \<and> handler_ok async m h)"

definition lists_ok :: "method_names \<Rightarrow> ('p, 'r, 'w) runtime_methods \<Rightarrow> bool" where
  "lists_ok names rt \<longleftrightarrow> (\<forall>m l. map_of rt (method_key names m) = Some l \<longrightarrow>
     (\<forall>p \<in> set (Sync l). ptr_ok False m p) \<and> (\<forall>p \<in> set (Async l). ptr_ok True m p))"

lemma validate_keys_Ok:
  "validate_keys names ms ps = Ok () \<Longrightarrow> (key, p) \<in> set ps \<Longrightarrow>
   \<exists>m. method_of_key names key = Some m \<and> implementation ms m \<noteq> None"
  by (induction names ms ps rule: validate_keys.induct) (auto split: option.splits if_splits)

lemma Validate_Ok:
  "Validate names info = Ok () \<Longrightarrow> \<exists>ms. Methods info = Some ms \<and> validate_keys names ms (Priorities info) = Ok ()"
  by (auto simp: Validate_def split: option.splits if_splits)

lemma validated_ptr:
  assumes "distinct (map (method_key names) all_methods)" and "plugin_ok names info" and "Validate names info = Ok ()"
    and "map_of (Priorities info) (method_key names m) = Some prio"
  shows "ptr_ok (prio = PriorityAsync) m (Methods info)"
proof -
  from Validate_Ok [OF assms(3)] obtain ms where ms: "Methods info = Some ms" "validate_keys names ms (Priorities info) = Ok ()"
    by blast
  from validate_keys_Ok [OF ms(2) map_of_SomeD [OF assms(4)]] method_of_key_key [OF assms(1)]
  obtain h where "implementation ms m = Some h" by auto
  with assms(2,4) ms(1) show ?thesis by (auto simp: plugin_ok_def ptr_ok_def)
qed

lemma collect_plugins_valid:
  "collect_plugins names infos b = Ok b' \<Longrightarrow> i \<in> set infos \<Longrightarrow> Validate names i = Ok ()"
  by (induction infos arbitrary: b) (auto simp: obind_Ok_iff)

lemma prioritized_lists_ok:
  assumes "distinct (map (method_key names) all_methods)" and "\<forall>i \<in> set infos. plugin_ok names i"
    and "PluginInfoToRuntimePrioritizedMethods names infos = Ok rt"
  shows "lists_ok names rt"
proof -
  from assms(3) have valid: "\<forall>i \<in> set infos. Validate names i = Ok ()"
    by (auto simp: PluginInfoToRuntimePrioritizedMethods_def obind_Ok_iff intro: collect_plugins_valid)
  from assms(2) have maps: "go_maps infos" by (simp add: go_maps_def list_all_iff plugin_ok_def)
  have "ptr_ok (prio = PriorityAsync) m p" if "p \<in> set (registered infos (method_key names m) prio)" for m p prio
    using that validated_ptr [OF assms(1)] assms(2) valid by (fastforce simp: registered_def)
  moreover have "PriorityHigh \<noteq> PriorityAsync" "PriorityRegular \<noteq> PriorityAsync"
    by (simp_all add: PriorityHigh_def PriorityRegular_def PriorityAsync_def)
  ultimately have "ptr_ok False m p" if "p \<in> set (registered infos (method_key names m) PriorityHigh) \<or>
      p \<in> set (registered infos (method_key names m) PriorityRegular)" for m p
    using that by metis
  moreover have "ptr_ok True m p" if "p \<in> set (registered infos (method_key names m) PriorityAsync)" for m p
    using that \<open>\<And>p m prio. p \<in> set (registered infos (method_key names m) prio) \<Longrightarrow> ptr_ok (prio = PriorityAsync) m p\<close>
    by metis
  moreover from assms(3) valid prioritized_lookup [OF maps]
  have "map_of rt (method_key names m) = Some l \<Longrightarrow>
      l = \<lparr>Sync = registered infos (method_key names m) PriorityHigh @ registered infos (method_key names m) PriorityRegular,
           Async = registered infos (method_key names m) PriorityAsync\<rparr>" for m l
    by (auto simp: PluginInfoToRuntimePrioritizedMethods_def collect_plugins_Ok split: if_splits)
  ultimately show ?thesis by (fastforce simp: lists_ok_def)
qed

lemma enabled_plugins_ok:
  "plugins_ok names plugins \<Longrightarrow> enabled_plugins config repo cx plugins \<noteq> Panic \<and>
   (\<forall>infos. enabled_plugins config repo cx plugins = Ok infos \<longrightarrow> (\<forall>i \<in> set infos. plugin_ok names i))"
proof (induction config repo cx plugins rule: enabled_plugins.induct)
  case (3 config repo cx StartupInfo ps)
  from 3(3) have rest: "plugins_ok names ps" and head: "StartupInfo cx \<noteq> Panic"
    "\<And>info. StartupInfo cx = Ok info \<Longrightarrow> plugin_ok names info"
    by (auto simp: plugins_ok_def)
  show ?case
  proof (cases "StartupInfo cx")
    case (Ok info)
    with 3(1,2) rest head(2) [OF Ok] show ?thesis
      by (cases "enabled_plugins config repo cx ps") (auto split: if_splits)
  qed (use head(1) in simp_all)
qed (simp_all add: plugins_ok_def)

lemma validate_keys_no_panic: "validate_keys names ms ps \<noteq> Panic"
  by (induction names ms ps rule: validate_keys.induct) (auto split: option.splits)

lemma Validate_no_panic: "Validate names info \<noteq> Panic"
  by (auto simp: Validate_def validate_keys_no_panic split: option.splits)

lemma collect_plugins_no_panic: "collect_plugins names infos b \<noteq> Panic"
proof (induction infos arbitrary: b)
  case (Cons i infos)
  then show ?case by (cases "Validate names i") (simp_all add: Validate_no_panic)
qed simp

lemma prioritized_no_panic: "PluginInfoToRuntimePrioritizedMethods names infos \<noteq> Panic"
  using collect_plugins_no_panic [of names infos "[]"]
  by (cases "collect_plugins names infos []") (simp_all add: PluginInfoToRuntimePrioritizedMethods_def)

subsection \<open>The invariant\<close>

definition tasks_ok :: "('p, 'r, 'w) async_task list \<Rightarrow> bool" where
  "tasks_ok ts \<longleftrightarrow> (\<forall>t \<in> set ts. ptr_ok True (task_method t) (task_methods t))"

text \<open>
  Until it has fired, the timer runs exactly while there is no session; a requested full shutdown
  may have set it to zero.
\<close>

definition timer_ok :: "('p, 'r, 'w, 'c) daemon \<Rightarrow> bool" where
  "timer_ok c \<longleftrightarrow> d_idleTimer c \<noteq> NoTimer \<and>
     (d_stopped c \<or>
      d_idleTimer c = (if SessionCount (d_sessions c) = 0 then Running (d_idleTimeout c) else Stopped) \<or>
      d_fullShutdown c \<and> d_idleTimer c = Running 0)"

definition methods_ok :: "method_names \<Rightarrow> (uuid \<times> ('p, 'r, 'w) runtime_methods) list \<Rightarrow> bool" where
  "methods_ok names pm \<longleftrightarrow> (\<forall>u rt. map_of pm u = Some rt \<longrightarrow> lists_ok names rt)"

definition daemon_ok :: "('p, 'r) daemon_env \<Rightarrow> ('p, 'r, 'w, 'c) daemon \<Rightarrow> bool" where
  "daemon_ok env c \<longleftrightarrow> sessions_inv (d_sessions c) \<and> methods_ok (env_names env) (d_pluginMethods c) \<and>
     tasks_ok (d_tasks c) \<and> plugins_ok (env_names env) (d_pluginsAll c) \<and> timer_ok c"

text \<open>A result that is no panic, with the invariant kept.\<close>

definition safe :: "('p, 'r) daemon_env \<Rightarrow> ('a, 'p, 'r, 'w, 'c) daemon_result \<Rightarrow> bool" where
  "safe env res \<longleftrightarrow> fst res \<noteq> Panic \<and> daemon_ok env (snd res)"

lemma safeI [intro]: "r \<noteq> Panic \<Longrightarrow> daemon_ok env c \<Longrightarrow> safe env (r, c)"
  by (simp add: safe_def)

lemma safe_Pair [simp]: "safe env (r, c) \<longleftrightarrow> r \<noteq> Panic \<and> daemon_ok env c"
  by (simp add: safe_def)

lemma obind_Panic_iff: "obind r f = Panic \<longleftrightarrow> r = Panic \<or> (\<exists>x. r = Ok x \<and> f x = Panic)"
  by (cases r) auto

lemma wrap_err_Panic [simp]: "wrap_err w r = Panic \<longleftrightarrow> r = Panic"
  by (cases r) auto

lemma GetFromContext_no_panic [simp]: "GetFromContext r cx \<noteq> Panic"
  by (auto simp: GetFromContext_def ContextToSessionUUID_def GetSession_def ModelToSession_def split: option.splits)

lemma call_plugin_ok:
  assumes "ptr_ok async m p" and "r = None \<longleftrightarrow> async \<or> \<not> has_result m"
  shows "\<exists>r' w'. call_plugin m cx ps p r w = (Ok (), r', w') \<and> (r' = None \<longleftrightarrow> r = None)"
proof -
  from assms(1) obtain ms h where p: "p = Some ms" "implementation ms m = Some h" and h: "handler_ok async m h"
    by (auto simp: ptr_ok_def)
  obtain res r' w' where call: "h cx ps r w = (res, r', w')" by (cases "h cx ps r w")
  from h assms(2) call have "res \<noteq> Panic \<and> (r' = None \<longleftrightarrow> r = None)"
    unfolding handler_ok_def by (metis fst_conv snd_conv)
  with p call show ?thesis by (cases res) (simp_all add: call_plugin_def)
qed

lemma call_plugins_ok:
  assumes "\<forall>p \<in> set ps. ptr_ok False m p" and "r = None \<longleftrightarrow> \<not> has_result m"
  shows "\<exists>r' w'. call_plugins m cx qs ps r w = (Ok (), r', w') \<and> (r' = None \<longleftrightarrow> r = None)"
  using assms
proof (induction ps arbitrary: r w)
  case (Cons p ps)
  from Cons.prems call_plugin_ok [of False m p r cx qs w] obtain r' w' where
    "call_plugin m cx qs p r w = (Ok (), r', w')" "r' = None \<longleftrightarrow> r = None" by auto
  with Cons.IH [of r' w'] Cons.prems show ?case by simp
qed simp

text \<open>A dispatched call does not panic, keeps the result pointer and changes only the world and the tasks.\<close>

lemma execute_ok:
  assumes "daemon_ok env c" and "r = None \<longleftrightarrow> \<not> has_result m"
  shows "\<exists>o' w ts. executePluginMethods (env_names env) c cx m m ps r = (o', c\<lparr>d_world := w, d_tasks := ts\<rparr>) \<and>
    o' \<noteq> Panic \<and> (\<forall>r'. o' = Ok r' \<longrightarrow> (r' = None \<longleftrightarrow> r = None)) \<and> tasks_ok ts"
proof -
  have same: "c = c\<lparr>d_world := d_world c, d_tasks := d_tasks c\<rparr>" and tasks: "tasks_ok (d_tasks c)"
    using assms(1) by (simp_all add: daemon_ok_def)
  consider e where "ContextToSessionUUID cx = Fail e"
    | u where "ContextToSessionUUID cx = Ok u" "map_of (d_pluginMethods c) u = None"
    | u rt where "ContextToSessionUUID cx = Ok u" "map_of (d_pluginMethods c) u = Some rt"
        "map_of rt (method_key (env_names env) m) = None"
    | u rt l where "ContextToSessionUUID cx = Ok u" "map_of (d_pluginMethods c) u = Some rt"
        "map_of rt (method_key (env_names env) m) = Some l"
  proof -
    assume a1: "\<And>e. ContextToSessionUUID cx = Fail e \<Longrightarrow> thesis"
      and a2: "\<And>u. ContextToSessionUUID cx = Ok u \<Longrightarrow> map_of (d_pluginMethods c) u = None \<Longrightarrow> thesis"
      and a3: "\<And>u rt. ContextToSessionUUID cx = Ok u \<Longrightarrow> map_of (d_pluginMethods c) u = Some rt \<Longrightarrow>
        map_of rt (method_key (env_names env) m) = None \<Longrightarrow> thesis"
      and a4: "\<And>u rt l. ContextToSessionUUID cx = Ok u \<Longrightarrow> map_of (d_pluginMethods c) u = Some rt \<Longrightarrow>
        map_of rt (method_key (env_names env) m) = Some l \<Longrightarrow> thesis"
    have "ContextToSessionUUID cx \<noteq> Panic" by (simp add: ContextToSessionUUID_def split: option.splits)
    with a1 a2 a3 a4 show thesis
      by (metis not_None_eq outcome.exhaust)
  qed
  then show ?thesis
  proof cases
    case (4 u rt l)
    with assms(1) have l: "\<forall>p \<in> set (Sync l). ptr_ok False m p" "\<forall>p \<in> set (Async l). ptr_ok True m p"
      by (auto simp: daemon_ok_def methods_ok_def lists_ok_def)
    from call_plugins_ok [OF l(1) assms(2), of cx ps "d_world c"] obtain r' w' where
      "call_plugins m cx ps (Sync l) r (d_world c) = (Ok (), r', w')" "r' = None \<longleftrightarrow> r = None" by blast
    with 4 l(2) tasks show ?thesis by (auto simp: executePluginMethods_def tasks_ok_def intro!: exI)
  qed (use same tasks in \<open>auto simp: executePluginMethods_def intro!: exI [of _ "d_world c"] exI [of _ "d_tasks c"]\<close>)
qed

lemma timer_ok_frame [simp]: "timer_ok (c\<lparr>d_world := w, d_tasks := ts\<rparr>) = timer_ok c"
  by (simp add: timer_ok_def)

lemma daemon_ok_frame: "daemon_ok env c \<Longrightarrow> tasks_ok ts \<Longrightarrow> daemon_ok env (c\<lparr>d_world := w, d_tasks := ts\<rparr>)"
  by (simp add: daemon_ok_def)

lemma notify_frame:
  assumes "daemon_ok env c" and "\<not> has_result m"
  shows "\<exists>o' w ts. notify env m m c cx ps = (o', c\<lparr>d_world := w, d_tasks := ts\<rparr>) \<and> o' \<noteq> Panic \<and> tasks_ok ts"
proof -
  from execute_ok [OF assms(1), of None m cx ps] assms(2) obtain o' w ts where
    "executePluginMethods (env_names env) c cx m m ps None = (o', c\<lparr>d_world := w, d_tasks := ts\<rparr>)" "o' \<noteq> Panic" "tasks_ok ts"
    by blast
  then show ?thesis by (cases o') (auto simp: notify_def)
qed

lemma query_frame:
  assumes "daemon_ok env c" and "has_result m"
  shows "\<exists>o' w ts. query env m m zero c cx ps = (o', c\<lparr>d_world := w, d_tasks := ts\<rparr>) \<and> o' \<noteq> Panic \<and> o' \<noteq> Ok None \<and> tasks_ok ts"
proof -
  from assms(2) have "Some zero = None \<longleftrightarrow> \<not> has_result m" by simp
  from execute_ok [OF assms(1) this, of cx ps] obtain o' w ts where
    ex: "executePluginMethods (env_names env) c cx m m ps (Some zero) = (o', c\<lparr>d_world := w, d_tasks := ts\<rparr>)"
    and no: "o' \<noteq> Panic" and res: "\<forall>r'. o' = Ok r' \<longrightarrow> (r' = None \<longleftrightarrow> Some zero = None)" and "tasks_ok ts"
    by (elim exE conjE)
  moreover have "wrap_err bad_plugin_call o' \<noteq> Ok None" using res by auto
  moreover have "query env m m zero c cx ps = (wrap_err bad_plugin_call o', c\<lparr>d_world := w, d_tasks := ts\<rparr>)"
    by (simp add: query_def ex)
  ultimately show ?thesis
    by (intro exI [of _ "wrap_err bad_plugin_call o'"] exI [of _ w] exI [of _ ts]) simp
qed

lemma notify_safe: "daemon_ok env c \<Longrightarrow> \<not> has_result m \<Longrightarrow> safe env (notify env m m c cx ps)"
  using notify_frame [of env c m cx ps] daemon_ok_frame [of env c] by fastforce

lemma query_safe: "daemon_ok env c \<Longrightarrow> has_result m \<Longrightarrow> safe env (query env m m zero c cx ps)"
  using query_frame [of env c m zero cx ps] daemon_ok_frame [of env c] by fastforce

subsection \<open>Lifecycle\<close>

lemma update_length:
  "length (AList.update k v xs) = (if map_of xs k = None then Suc (length xs) else length xs)"
  by (induction xs) auto

lemma SetSession_count:
  "SessionCount (snd (SetSession r (Some s))) =
     (if map_of (memstore r) (ses_UUID s) = None then Suc (SessionCount r) else SessionCount r)"
  by (simp add: SessionCount_def SetSession_def Let_def update_length)

lemma refresh_ok:
  "daemon_ok env c \<Longrightarrow> sessions_inv r \<Longrightarrow> methods_ok (env_names env) pm \<Longrightarrow>
   daemon_ok env (refreshIdleTimer (c\<lparr>d_pluginMethods := pm, d_sessions := r\<rparr>))"
  by (auto simp: daemon_ok_def timer_ok_def refreshIdleTimer_def)

lemma refresh_sessions_ok:
  "daemon_ok env c \<Longrightarrow> sessions_inv r \<Longrightarrow> daemon_ok env (refreshIdleTimer (c\<lparr>d_sessions := r\<rparr>))"
  by (auto simp: daemon_ok_def timer_ok_def refreshIdleTimer_def)

lemma gateway_call_ok: "daemon_ok env c \<Longrightarrow> daemon_ok env (snd (gateway_call env e c))"
  by (auto simp: daemon_ok_def timer_ok_def gateway_call_def)

lemma methods_ok_delete: "methods_ok names pm \<Longrightarrow> methods_ok names (AList.delete u pm)"
  by (auto simp: methods_ok_def delete_conv' split: if_splits)

lemma methods_ok_update: "methods_ok names pm \<Longrightarrow> lists_ok names rt \<Longrightarrow> methods_ok names (AList.update u rt pm)"
  by (auto simp: methods_ok_def update_conv' split: if_splits)

lemma registerSessionPlugins_safe:
  assumes "env_ok env" and "daemon_ok env c"
  shows "safe env (registerSessionPlugins (env_names env) c cx)"
proof (cases "GetFromContext (d_sessions c) cx")
  case (Ok s)
  have plugins: "plugins_ok (env_names env) (d_pluginsAll c)" and names: "distinct (map (method_key (env_names env)) all_methods)"
    using assms by (simp_all add: daemon_ok_def env_ok_def)
  have upd: "daemon_ok env (c\<lparr>d_pluginMethods := AList.update u rt (d_pluginMethods c)\<rparr>)" if "lists_ok (env_names env) rt" for u rt
    using assms(2) that by (auto simp: daemon_ok_def timer_ok_def methods_ok_update)
  show ?thesis
  proof (cases "enabled_plugins (d_pluginConfig c) (ses_Monorepo s) cx (d_pluginsAll c)")
    case en: (Ok infos)
    with enabled_plugins_ok [OF plugins] have "\<forall>i \<in> set infos. plugin_ok (env_names env) i" by blast
    note rt = prioritized_lists_ok [OF names this]
    have "lists_ok (env_names env) []" by (simp add: lists_ok_def)
    with Ok en rt upd prioritized_no_panic show ?thesis
      by (cases "PluginInfoToRuntimePrioritizedMethods (env_names env) infos") (auto simp: registerSessionPlugins_def)
  qed (use Ok assms(2) enabled_plugins_ok [OF plugins] in \<open>auto simp: registerSessionPlugins_def\<close>)
qed (use assms(2) in \<open>auto simp: registerSessionPlugins_def\<close>)

lemma initialized_session_UUID: "initialized_session env p s = Ok s' \<Longrightarrow> ses_UUID s' = ses_UUID s"
  by (auto simp: initialized_session_def obind_Ok_iff split: outcome.splits if_splits)

lemma initialized_session_no_panic: "env_ok env \<Longrightarrow> initialized_session env p s \<noteq> Panic"
  by (auto simp: initialized_session_def env_ok_def obind_Panic_iff split: outcome.splits if_splits)

lemma GetFromContext_Ok:
  assumes "sessions_inv r" and "GetFromContext r cx = Ok s"
  shows "map_of (memstore r) (ses_UUID s) \<noteq> None"
proof -
  from assms(2) obtain u m where u: "map_of (memstore r) u = Some m" "ModelToSession m = Ok s"
    by (auto simp: GetFromContext_def obind_Ok_iff GetSession_def split: option.splits)
  with assms(1) ModelToSession_sel [OF u(2)] show ?thesis by (auto simp: sessions_inv_def dest!: map_of_SomeD)
qed

lemma Initialize_safe:
  assumes "env_ok env" and "daemon_ok env c"
  shows "safe env (daemon_Initialize env c cx p)"
proof (cases "obind (wrap_err (Errorf ''getting session from context: %w'' []) (GetFromContext (d_sessions c) cx))
    (initialized_session env p)")
  case (Ok s)
  then obtain s0 where s0: "GetFromContext (d_sessions c) cx = Ok s0" "initialized_session env p s0 = Ok s"
    by (auto simp: obind_Ok_iff)
  let ?c1 = "c\<lparr>d_sessions := snd (SetSession (d_sessions c) (Some s))\<rparr>"
  from assms(2) have "sessions_inv (d_sessions c)" by (simp add: daemon_ok_def)
  with GetFromContext_Ok [OF this s0(1)] initialized_session_UUID [OF s0(2)]
  have "SessionCount (snd (SetSession (d_sessions c) (Some s))) = SessionCount (d_sessions c)"
    "sessions_inv (snd (SetSession (d_sessions c) (Some s)))" by (simp_all add: SetSession_count SetSession_inv)
  with assms(2) have c1: "daemon_ok env ?c1" by (auto simp: daemon_ok_def timer_ok_def)
  have "has_result M_Initialize" by (simp add: has_result_def)
  with c1 registerSessionPlugins_safe [OF assms(1) c1, of cx] query_safe [of env] Ok show ?thesis
    by (auto simp: daemon_Initialize_def Let_def split: outcome.splits prod.splits)
next
  case Panic
  with initialized_session_no_panic [OF assms(1)] show ?thesis by (auto simp: obind_Panic_iff)
qed (use assms(2) in \<open>auto simp: daemon_Initialize_def\<close>)

lemma Initialized_safe:
  assumes "daemon_ok env c"
  shows "safe env (daemon_Initialized env c cx ps)"
proof -
  have "\<not> has_result M_Initialized" by (simp add: has_result_def)
  from notify_safe [OF assms this, of cx ps] gateway_call_ok [of env] show ?thesis
    by (auto simp: daemon_Initialized_def split: outcome.splits prod.splits)
qed

lemma Shutdown_safe: "daemon_ok env c \<Longrightarrow> safe env (daemon_Shutdown env c cx)"
  using notify_safe [of env c M_Shutdown cx NoParams]
  by (auto simp: daemon_Shutdown_def has_result_def split: prod.splits)

lemma EndSession_safe:
  assumes "daemon_ok env c"
  shows "safe env (daemon_EndSession env c cx u)"
proof -
  have "\<not> has_result M_EndSession" by (simp add: has_result_def)
  define res where "res = (if map_of (d_pluginMethods c) u = None then (Ok (), c)
    else case notify env M_EndSession M_EndSession c cx (SessionParams u) of
      (Panic, c1) \<Rightarrow> (Panic, c1) | (_, c1) \<Rightarrow> (Ok (), c1))"
  obtain r' c' where n: "notify env M_EndSession M_EndSession c cx (SessionParams u) = (r', c')"
    by (cases "notify env M_EndSession M_EndSession c cx (SessionParams u)")
  with notify_safe [OF assms \<open>\<not> has_result M_EndSession\<close>, of cx "SessionParams u"] assms
  have "\<exists>c1. res = (Ok (), c1) \<and> daemon_ok env c1"
    by (cases r') (simp_all add: res_def)
  then obtain c1 where res: "res = (Ok (), c1)" and "daemon_ok env c1" by blast
  from gateway_call_ok [OF this(2), of "DeregisterClient u"]
  have c2: "daemon_ok env (snd (gateway_call env (DeregisterClient u) c1))" .
  then have "sessions_inv (DeleteSession (d_sessions (snd (gateway_call env (DeregisterClient u) c1))) u)"
    "methods_ok (env_names env) (AList.delete u (d_pluginMethods (snd (gateway_call env (DeregisterClient u) c1))))"
    by (simp_all add: daemon_ok_def DeleteSession_inv methods_ok_delete)
  from refresh_ok [OF c2 this] res show ?thesis
    by (simp add: daemon_EndSession_def res_def [symmetric] case_prod_beta)
qed

lemma Exit_safe:
  assumes "daemon_ok env c"
  shows "safe env (daemon_Exit env c cx)"
proof -
  have "\<not> has_result M_Exit" by (simp add: has_result_def)
  from notify_safe [OF assms this, of cx NoParams] obtain r c1 where n: "notify env M_Exit M_Exit c cx NoParams = (r, c1)"
    and r: "r \<noteq> Panic" and c1: "daemon_ok env c1" by (cases "notify env M_Exit M_Exit c cx NoParams") auto
  then have ex: "daemon_Exit env c cx =
      (if d_fullShutdown c1 then (Ok (), c1\<lparr>d_idleTimer := Running 0\<rparr>)
       else case wrap_err (Errorf ''error during session exit: %w'' []) (GetFromContext (d_sessions c1) cx) of
           Ok s \<Rightarrow> daemon_EndSession env c1 cx (ses_UUID s) | Fail e \<Rightarrow> (Fail e, c1) | Panic \<Rightarrow> (Panic, c1))"
    by (cases r) (simp_all add: daemon_Exit_def)
  have "d_fullShutdown c1 \<Longrightarrow> daemon_ok env (c1\<lparr>d_idleTimer := Running 0\<rparr>)"
    using c1 by (auto simp: daemon_ok_def timer_ok_def)
  with c1 EndSession_safe [OF c1, of cx] show ?thesis
    by (auto simp: ex simp del: safe_Pair split: outcome.splits)
qed

lemma InitSession_safe:
  assumes "env_ok env" and "daemon_ok env c" and "newUUID \<noteq> Panic"
  shows "safe env (daemon_InitSession env newUUID c conn)"
proof (cases newUUID)
  case (Ok u)
  let ?g = "gateway_call env (RegisterClient u) c"
  have g: "daemon_ok env (snd ?g)" "fst ?g \<noteq> Panic"
    using gateway_call_ok [OF assms(2)] assms(1) by (simp_all add: env_ok_def gateway_call_def)
  then have "sessions_inv (d_sessions (snd ?g))" by (simp add: daemon_ok_def)
  with refresh_sessions_ok [OF g(1), of "d_sessions (snd ?g)"] refresh_sessions_ok [OF g(1)] SetSession_inv
  have "daemon_ok env (refreshIdleTimer (snd ?g))"
    "\<And>f. daemon_ok env (refreshIdleTimer ((snd ?g)\<lparr>d_sessions := snd (SetSession (d_sessions (snd ?g)) f)\<rparr>))"
    by (simp, blast)
  with Ok g(2) show ?thesis
    by (cases ?g) (auto simp: daemon_InitSession_def split: outcome.splits)
next
  case (Fail e)
  have "sessions_inv (d_sessions c)" using assms(2) by (simp add: daemon_ok_def)
  from refresh_sessions_ok [OF assms(2) this] Fail show ?thesis by (simp add: daemon_InitSession_def)
qed (use assms in simp)

lemma run_async_safe:
  assumes "daemon_ok env c"
  shows "safe env (run_async i c)"
proof (cases "i < length (d_tasks c)")
  case True
  let ?t = "d_tasks c ! i"
  have tasks: "tasks_ok (d_tasks c)" using assms by (simp add: daemon_ok_def)
  with True have "ptr_ok True (task_method ?t) (task_methods ?t)" by (simp add: tasks_ok_def)
  from call_plugin_ok [OF this, of None "task_ctx ?t" "task_params ?t" "d_world c"] obtain r' w' where
    "call_plugin (task_method ?t) (task_ctx ?t) (task_params ?t) (task_methods ?t) None (d_world c) = (Ok (), r', w')" by auto
  moreover have "tasks_ok (take i (d_tasks c) @ drop (Suc i) (d_tasks c))"
    using tasks by (auto simp: tasks_ok_def dest: in_set_takeD in_set_dropD)
  ultimately show ?thesis
    using True assms by (simp add: run_async_def Let_def daemon_ok_frame)
qed (use assms in \<open>simp add: run_async_def\<close>)

lemma timer_fires_ok: "daemon_ok env c \<Longrightarrow> daemon_ok env (idle_timer_fires c)"
  by (simp add: daemon_ok_def timer_ok_def idle_timer_fires_def)

lemma Hover_safe:
  assumes "daemon_ok env c"
  shows "safe env (daemon_Hover env c cx ps)"
proof -
  have "has_result M_Hover" by (simp add: has_result_def)
  from query_frame [OF assms this, of "env_Hover env" cx ps] daemon_ok_frame [OF assms] show ?thesis
    by (auto simp: daemon_Hover_def split: outcome.splits option.splits)
qed

subsection \<open>Routed requests\<close>

definition safe_call ::
  "('p, 'r) daemon_env \<Rightarrow> (('p, 'r, 'w, 'c) daemon \<Rightarrow> ctx \<Rightarrow> 'p params \<Rightarrow> ('a, 'p, 'r, 'w, 'c) daemon_result) \<Rightarrow> bool" where
  "safe_call env f \<longleftrightarrow> (\<forall>c cx ps. daemon_ok env c \<longrightarrow> safe env (f c cx ps))"

text \<open>A request that was answered exactly once, without a panic, and with the invariant kept.\<close>

definition answered :: "('p, 'r) daemon_env \<Rightarrow> ('p, 'r, 'w, 'c) routed \<Rightarrow> bool" where
  "answered env res \<longleftrightarrow> length (fst res) = 1 \<and> fst (snd res) \<noteq> Panic \<and> daemon_ok env (snd (snd res))"

definition safe_route :: "('p, 'r) daemon_env \<Rightarrow> ('p, 'r, 'w, 'c) route \<Rightarrow> bool" where
  "safe_route env h \<longleftrightarrow> (\<forall>c cx raw. daemon_ok env c \<longrightarrow> answered env (h c cx raw))"

lemma safe_callI: "(\<And>c cx ps. daemon_ok env c \<Longrightarrow> safe env (f c cx ps)) \<Longrightarrow> safe_call env f"
  by (simp add: safe_call_def)

lemma no_result_safe1: "safe env (f c cx ps) \<Longrightarrow> safe env (no_result f c cx ps)"
  by (cases "f c cx ps") (auto simp: no_result_def obind_Panic_iff)

lemma no_result_safe: "safe_call env f \<Longrightarrow> safe_call env (no_result f)"
  by (simp add: safe_call_def no_result_safe1)

lemma reply_with_ok: "lib_ok lib \<Longrightarrow> r \<noteq> Panic \<Longrightarrow> daemon_ok env c \<Longrightarrow> answered env (reply_with lib r c)"
  by (cases r) (auto simp: reply_with_def lib_ok_def answered_def)

lemma decode_no_panic: "lib_ok lib \<Longrightarrow> decode lib m raw \<noteq> Panic"
  by (auto simp: decode_def RequestToParams_def lib_ok_def split: outcome.splits)

lemma decode_command_no_panic: "lib_ok lib \<Longrightarrow> decode_command lib raw \<noteq> Panic"
proof -
  assume lib: "lib_ok lib"
  have "marshal_arguments (rl_Marshal lib) args \<noteq> Panic" for args
    using lib by (induction args) (auto simp: lib_ok_def obind_Panic_iff split: outcome.splits)
  with lib show ?thesis
    by (auto simp: decode_command_def RequestToExecuteCommandParams_def RequestToParams_def lib_ok_def obind_Panic_iff
        split: outcome.splits)
qed

lemma route_params_safe:
  assumes "lib_ok lib" and "\<And>raw. dec raw \<noteq> Panic" and "safe_call env call"
  shows "safe_route env (route_params lib dec call)"
proof -
  have "answered env (route_params lib dec call c cx raw)" if "daemon_ok env c" for c cx raw
  proof (cases "dec raw")
    case (Ok p)
    obtain r c' where call: "call c cx (Params p) = (r, c')" by (cases "call c cx (Params p)")
    with assms(3) that have "r \<noteq> Panic" "daemon_ok env c'"
      unfolding safe_call_def by (metis safe_Pair)+
    from reply_with_ok [OF assms(1) this] Ok call show ?thesis by (simp add: route_params_def)
  qed (use assms(2) reply_with_ok [OF assms(1) _ that] in \<open>simp_all add: route_params_def\<close>)
  then show ?thesis by (simp add: safe_route_def)
qed

lemma routeI:
  assumes "\<And>c cx raw. h c cx raw = reply_with lib (fst (f c cx raw)) (snd (f c cx raw))" and "lib_ok lib"
    and "\<And>c cx raw. daemon_ok env c \<Longrightarrow> safe env (f c cx raw)"
  shows "safe_route env h"
  using assms by (simp add: safe_route_def safe_def reply_with_ok)

lemma route_notify: "\<not> has_result m \<Longrightarrow> safe_call env (notify env m m)"
  by (simp add: safe_call_def notify_safe)

lemma route_query: "has_result m \<Longrightarrow> safe_call env (query env m m zero)"
  by (simp add: safe_call_def query_safe)

lemmas daemon_notifications =
  daemon_DidChange_def daemon_DidChangeWatchedFiles_def daemon_DidOpen_def daemon_DidClose_def daemon_WillSave_def
  daemon_DidSave_def daemon_DidRenameFiles_def daemon_DidCreateFiles_def daemon_DidDeleteFiles_def
  daemon_CodeLensRefresh_def daemon_WorkDoneProgressCancel_def daemon_ExecuteCommand_def

lemmas daemon_queries =
  daemon_WillSaveWaitUntil_def daemon_WillRenameFiles_def daemon_WillCreateFiles_def daemon_WillDeleteFiles_def
  daemon_CodeAction_def daemon_CodeLens_def daemon_CodeLensResolve_def daemon_GotoDeclaration_def
  daemon_GotoDefinition_def daemon_GotoTypeDefinition_def daemon_GotoImplementation_def daemon_References_def
  daemon_DocumentSymbol_def

lemmas router_notifications =
  router_DidChange_def router_DidChangeWatchedFiles_def router_DidOpen_def router_DidClose_def router_WillSave_def
  router_DidSave_def router_DidRenameFiles_def router_DidCreateFiles_def router_DidDeleteFiles_def
  router_WorkDoneProgressCancel_def router_ExecuteCommand_def

lemmas router_queries =
  router_WillSaveWaitUntil_def router_WillRenameFiles_def router_WillCreateFiles_def router_WillDeleteFiles_def
  router_CodeAction_def router_CodeLens_def router_CodeLensResolve_def router_GotoDeclaration_def
  router_GotoDefinition_def router_GotoTypeDefinition_def router_GotoImplementation_def router_References_def
  router_DocumentSymbol_def

lemma document_routes_safe:
  assumes "lib_ok lib"
  shows "safe_route env (router_DidChange env lib)" "safe_route env (router_DidChangeWatchedFiles env lib)"
    "safe_route env (router_DidOpen env lib)" "safe_route env (router_DidClose env lib)"
    "safe_route env (router_WillSave env lib)" "safe_route env (router_DidSave env lib)"
    "safe_route env (router_DidRenameFiles env lib)" "safe_route env (router_DidCreateFiles env lib)"
    "safe_route env (router_DidDeleteFiles env lib)" "safe_route env (router_WorkDoneProgressCancel env lib)"
    "safe_route env (router_ExecuteCommand env lib)"
  unfolding router_notifications daemon_notifications
  by (rule route_params_safe [OF assms], simp add: decode_no_panic decode_command_no_panic assms,
      rule no_result_safe, rule route_notify, simp add: has_result_def)+

lemma query_routes_safe:
  assumes "lib_ok lib"
  shows "safe_route env (router_WillSaveWaitUntil env lib)" "safe_route env (router_WillRenameFiles env lib)"
    "safe_route env (router_WillCreateFiles env lib)" "safe_route env (router_WillDeleteFiles env lib)"
    "safe_route env (router_CodeAction env lib)" "safe_route env (router_CodeLens env lib)"
    "safe_route env (router_CodeLensResolve env lib)" "safe_route env (router_GotoDeclaration env lib)"
    "safe_route env (router_GotoDefinition env lib)" "safe_route env (router_GotoTypeDefinition env lib)"
    "safe_route env (router_GotoImplementation env lib)" "safe_route env (router_References env lib)"
    "safe_route env (router_DocumentSymbol env lib)"
  unfolding router_queries daemon_queries
  by (rule route_params_safe [OF assms], simp add: decode_no_panic assms, rule route_query, simp add: has_result_def)+

lemma safe_map: "safe env (r, c) \<Longrightarrow> safe env (obind r (\<lambda>_. Ok x), c)"
  by (auto simp: obind_Panic_iff)

lemma lifecycle_routes_safe:
  assumes "env_ok env" and "lib_ok lib"
  shows "safe_route env (router_Initialize env lib)" "safe_route env (router_Initialized env lib)"
    "safe_route env (router_Shutdown env lib)" "safe_route env (router_Exit env lib)"
    "safe_route env (router_RequestFullShutdown lib)" "safe_route env (router_CodeLensRefresh env lib)"
    "safe_route env (router_Hover env lib)"
proof -
  have init: "router_Initialize env lib c cx raw =
      (let f = (case decode lib M_Initialize raw of
                  Ok p \<Rightarrow> daemon_Initialize env c cx p | Fail e \<Rightarrow> (Fail e, c) | Panic \<Rightarrow> (Panic, c))
       in reply_with lib (fst f) (snd f))" for c cx raw
    by (cases "decode lib M_Initialize raw") (simp_all add: router_Initialize_def case_prod_beta Let_def)
  show "safe_route env (router_Initialize env lib)"
    by (rule routeI [OF _ assms(2), where f = "\<lambda>c cx raw. case decode lib M_Initialize raw of
          Ok p \<Rightarrow> daemon_Initialize env c cx p | Fail e \<Rightarrow> (Fail e, c) | Panic \<Rightarrow> (Panic, c)"])
      (auto simp: init Let_def Initialize_safe [OF assms(1)] decode_no_panic [OF assms(2)] split: outcome.splits)
  show "safe_route env (router_Initialized env lib)"
    unfolding router_Initialized_def
    by (rule route_params_safe [OF assms(2)])
      (simp_all add: decode_no_panic assms(2) no_result_safe safe_call_def Initialized_safe no_result_safe1)
  show "safe_route env (router_Shutdown env lib)"
    by (rule routeI [OF _ assms(2), where f = "\<lambda>c cx raw. map_prod (\<lambda>r. obind r (\<lambda>_. Ok None)) id (daemon_Shutdown env c cx)"])
      (simp_all add: router_Shutdown_def case_prod_beta safe_def obind_Panic_iff Shutdown_safe [unfolded safe_def])
  show "safe_route env (router_Exit env lib)"
    by (simp add: safe_route_def answered_def router_Exit_def case_prod_beta Exit_safe [unfolded safe_def])
  show "safe_route env (router_RequestFullShutdown lib)"
    by (rule routeI [OF _ assms(2), where f = "\<lambda>c cx raw. (Ok None, c\<lparr>d_fullShutdown := True\<rparr>)"])
      (auto simp: router_RequestFullShutdown_def daemon_RequestFullShutdown_def daemon_ok_def timer_ok_def)
  have "\<not> has_result M_CodeLensRefresh" by (simp add: has_result_def)
  then show "safe_route env (router_CodeLensRefresh env lib)"
    by (intro routeI [OF _ assms(2), where f = "\<lambda>c cx raw. map_prod (\<lambda>r. obind r (\<lambda>_. Ok None)) id (daemon_CodeLensRefresh env c cx NoParams)"])
      (simp_all add: router_CodeLensRefresh_def daemon_CodeLensRefresh_def case_prod_beta safe_def obind_Panic_iff
        notify_safe [unfolded safe_def])
  show "safe_route env (router_Hover env lib)"
    unfolding router_Hover_def
    by (rule route_params_safe [OF assms(2)]) (simp_all add: decode_no_panic assms(2) safe_call_def Hover_safe)
qed

lemma routes_safe:
  assumes "env_ok env" and "lib_ok lib" and "map_of (routes env lib) method = Some h"
  shows "safe_route env h"
proof -
  from map_of_SomeD [OF assms(3)] have "h \<in> set (map snd (routes env lib))" by force
  then show ?thesis
    unfolding routes_def
    using document_routes_safe [OF assms(2), of env] query_routes_safe [OF assms(2), of env]
      lifecycle_routes_safe [OF assms(1,2)]
    by (simp only: list.map snd_conv list.set insert_iff empty_iff) (elim disjE; simp)
qed

lemma HandleReq_answered:
  fixes c :: "('p, 'r, 'w, 'c) daemon"
  assumes "env_ok env" and "lib_ok lib" and "daemon_ok env c"
  shows "answered env (HandleReq env lib u c method raw)"
proof (cases "map_of (routes env lib :: (gostring \<times> ('p, 'r, 'w, 'c) route) list) method")
  case (Some h)
  from routes_safe [OF assms(1,2) Some] assms(3) Some show ?thesis by (simp add: HandleReq_def safe_route_def)
qed (use assms in \<open>simp add: HandleReq_def reply_with_ok\<close>)

subsection \<open>The server as a state machine\<close>

text \<open>A step of the server; a step that panics ends the process and has no next state.\<close>

inductive server_step ::
  "('p, 'r) daemon_env \<Rightarrow> ('p, 'r, 'arg) router_lib \<Rightarrow> ('p, 'r, 'w, 'c) daemon \<Rightarrow> ('p, 'r, 'w, 'c) daemon \<Rightarrow> bool"
  for env :: "('p, 'r) daemon_env" and lib :: "('p, 'r, 'arg) router_lib" where
  connect: "NewConnection env newUUID c conn = (r, c') \<Longrightarrow> newUUID \<noteq> Panic \<Longrightarrow> r \<noteq> Panic \<Longrightarrow> server_step env lib c c'"
| request: "HandleReq env lib u c method raw = (replies, r, c') \<Longrightarrow> r \<noteq> Panic \<Longrightarrow> server_step env lib c c'"
| disconnect: "RemoveConnection env c u = (r, c') \<Longrightarrow> r \<noteq> Panic \<Longrightarrow> server_step env lib c c'"
| background: "run_async i c = (r, c') \<Longrightarrow> r \<noteq> Panic \<Longrightarrow> server_step env lib c c'"
| idle: "d_idleTimer c = Running t \<Longrightarrow> server_step env lib c (idle_timer_fires c)"

inductive_cases server_stepE: "server_step env lib c c'"

lemma NewConnection_safe:
  "env_ok env \<Longrightarrow> daemon_ok env c \<Longrightarrow> newUUID \<noteq> Panic \<Longrightarrow> safe env (NewConnection env newUUID c conn)"
  using InitSession_safe [of env c newUUID conn] by (cases "daemon_InitSession env newUUID c conn") (auto simp: NewConnection_def)

lemma RemoveConnection_safe: "daemon_ok env c \<Longrightarrow> safe env (RemoveConnection env c u)"
  using EndSession_safe [of env c "Some u" u]
  by (cases "daemon_EndSession env c (Some u) u") (auto simp: RemoveConnection_def split: outcome.splits)

lemma server_step_ok:
  assumes "server_step env lib c c'" and "env_ok env" and "lib_ok lib" and "daemon_ok env c"
  shows "daemon_ok env c'"
  using assms(1)
proof cases
  case (connect newUUID conn r)
  with NewConnection_safe [OF assms(2,4), of newUUID conn] show ?thesis by simp
next
  case (request u meth raw replies r)
  with HandleReq_answered [OF assms(2-4), of u meth raw] show ?thesis by (simp add: answered_def)
next
  case (disconnect u r)
  with RemoveConnection_safe [OF assms(4), of u] show ?thesis by simp
next
  case (background i r)
  with run_async_safe [OF assms(4), of i] show ?thesis by simp
qed (simp add: timer_fires_ok assms(4))

text \<open>The states the server can reach from its start with the given plugins.\<close>

definition server_reachable ::
  "('p, 'r) daemon_env \<Rightarrow> ('p, 'r, 'arg) router_lib \<Rightarrow> ('p, 'r, 'w) plugin list \<Rightarrow> ('p, 'r, 'w, 'c) daemon \<Rightarrow> bool" where
  "server_reachable env lib plugins c \<longleftrightarrow>
     (\<exists>t cfg w c0. NewDaemon t cfg plugins w = Some c0 \<and> (server_step env lib)\<^sup>*\<^sup>* c0 c)"

definition server_env_ok :: "('p, 'r) daemon_env \<Rightarrow> ('p, 'r, 'arg) router_lib \<Rightarrow> ('p, 'r, 'w) plugin list \<Rightarrow> bool" where
  "server_env_ok env lib plugins \<longleftrightarrow> env_ok env \<and> lib_ok lib \<and> plugins_ok (env_names env) plugins"

lemma NewDaemon_ok:
  assumes "NewDaemon t cfg plugins w = Some c" and "plugins_ok (env_names env) plugins"
  shows "daemon_ok env c"
  using assms
  by (auto simp: NewDaemon_def refreshIdleTimer_def daemon_ok_def timer_ok_def NewSessionRepository_def sessions_inv_def
      SessionCount_def methods_ok_def tasks_ok_def split: outcome.splits if_splits)

lemma reachable_ok:
  assumes "server_env_ok env lib plugins" and "server_reachable env lib plugins c"
  shows "daemon_ok env c"
proof -
  from assms(2) obtain t cfg w c0 where start: "NewDaemon t cfg plugins w = Some c0"
    and steps: "(server_step env lib)\<^sup>*\<^sup>* c0 c" by (auto simp: server_reachable_def)
  from start assms(1) have "daemon_ok env c0" by (auto simp: server_env_ok_def intro: NewDaemon_ok)
  with steps assms(1) show ?thesis
    by (induction rule: rtranclp_induct) (auto simp: server_env_ok_def intro: server_step_ok)
qed

text \<open>
  C13. Dispatch is safe: with plugins whose declared handlers do not panic and libraries that return errors, in
  every reachable state every request is answered exactly once and neither a request, a new or closed connection nor
  a background task panics. In particular no call ever meets a nil plugin or a method the plugin does not implement.
\<close>

theorem dispatch_safe:
  assumes "server_env_ok env lib plugins" and "server_reachable env lib plugins c"
  shows "length (fst (HandleReq env lib u c meth raw)) = 1 \<and> fst (snd (HandleReq env lib u c meth raw)) \<noteq> Panic \<and>
    fst (NewConnection env (Ok v) c conn) \<noteq> Panic \<and> fst (RemoveConnection env c u) \<noteq> Panic \<and> fst (run_async i c) \<noteq> Panic"
proof -
  have ok: "daemon_ok env c" "env_ok env" "lib_ok lib"
    using reachable_ok [OF assms] assms(1) by (simp_all add: server_env_ok_def)
  from HandleReq_answered [OF ok(2,3,1), of u meth raw] NewConnection_safe [OF ok(2,1), of "Ok v" conn]
    RemoveConnection_safe [OF ok(1), of u] run_async_safe [OF ok(1), of i]
  show ?thesis by (simp add: answered_def safe_def)
qed

text \<open>
  C16. Idle shutdown: in every reachable state of a server that has not stopped, the idle timer runs if no session is
  connected, and while one is connected it does not, unless a full shutdown was requested. So the timer stops
  the server only when it is idle or asked to.
\<close>

theorem idle_shutdown:
  assumes "server_env_ok env lib plugins" and "server_reachable env lib plugins c" and "\<not> d_stopped c"
  shows "(SessionCount (d_sessions c) = 0 \<longrightarrow> (\<exists>t. d_idleTimer c = Running t \<and> server_step env lib c (idle_timer_fires c))) \<and>
    (0 < SessionCount (d_sessions c) \<and> \<not> d_fullShutdown c \<longrightarrow> d_idleTimer c = Stopped)"
  using reachable_ok [OF assms(1,2)] assms(3) by (auto simp: daemon_ok_def timer_ok_def intro: server_step.idle)

subsection \<open>The server can always stop\<close>

text \<open>Connections that are closed one after the other.\<close>

definition session_ids :: "('p, 'r, 'w, 'c) daemon \<Rightarrow> uuid set" where
  "session_ids c = fst ` set (memstore (d_sessions c))"

definition close_connections :: "('p, 'r) daemon_env \<Rightarrow> uuid list \<Rightarrow> ('p, 'r, 'w, 'c) daemon \<Rightarrow> ('p, 'r, 'w, 'c) daemon" where
  "close_connections env us c = fold (\<lambda>u c. snd (RemoveConnection env c u)) us c"

lemma session_ids_count: "SessionCount (d_sessions c) = 0 \<longleftrightarrow> session_ids c = {}"
  by (simp add: SessionCount_def session_ids_def)

lemma RemoveConnection_effect:
  assumes "daemon_ok env c"
  shows "session_ids (snd (RemoveConnection env c u)) = session_ids c - {u}"
    and "d_idleTimeout (snd (RemoveConnection env c u)) = d_idleTimeout c"
    and "d_idleTimer (snd (RemoveConnection env c u)) = (if session_ids c - {u} = {} then Running (d_idleTimeout c) else Stopped)"
proof -
  have "\<not> has_result M_EndSession" by (simp add: has_result_def)
  from notify_frame [OF assms this, of "Some u" "SessionParams u"] obtain o' w ts where
    n: "notify env M_EndSession M_EndSession c (Some u) (SessionParams u) = (o', c\<lparr>d_world := w, d_tasks := ts\<rparr>)" "o' \<noteq> Panic"
    by (elim exE conjE)
  have timer: "d_idleTimer c \<noteq> NoTimer" using assms by (simp add: daemon_ok_def timer_ok_def)
  have ids: "fst ` set (memstore (DeleteSession (d_sessions c) u)) = session_ids c - {u}"
    by (auto simp: session_ids_def DeleteSession_def Let_def AList.delete_eq image_iff)
  then have count: "SessionCount (DeleteSession (d_sessions c) u) = 0 \<longleftrightarrow> session_ids c - {u} = {}"
    unfolding SessionCount_def by (metis image_is_empty length_0_conv set_empty)
  show "session_ids (snd (RemoveConnection env c u)) = session_ids c - {u}"
    "d_idleTimeout (snd (RemoveConnection env c u)) = d_idleTimeout c"
    "d_idleTimer (snd (RemoveConnection env c u)) = (if session_ids c - {u} = {} then Running (d_idleTimeout c) else Stopped)"
    using n timer count ids
    by (cases o'; auto simp: RemoveConnection_def daemon_EndSession_def gateway_call_def refreshIdleTimer_def session_ids_def)+
qed

lemma EndSession_sessions:
  assumes "daemon_ok env c"
  shows "d_sessions (snd (daemon_EndSession env c cx u)) = DeleteSession (d_sessions c) u"
proof -
  have "\<not> has_result M_EndSession" by (simp add: has_result_def)
  from notify_frame [OF assms this, of cx "SessionParams u"] obtain o' w ts where
    "notify env M_EndSession M_EndSession c cx (SessionParams u) = (o', c\<lparr>d_world := w, d_tasks := ts\<rparr>)" "o' \<noteq> Panic"
    by (elim exE conjE)
  then show ?thesis
    by (cases o') (simp_all add: daemon_EndSession_def gateway_call_def refreshIdleTimer_def)
qed

lemma RemoveConnection_sessions:
  assumes "daemon_ok env c"
  shows "d_sessions (snd (RemoveConnection env c u)) = DeleteSession (d_sessions c) u"
  using EndSession_sessions [OF assms, of "Some u" u]
  by (cases "daemon_EndSession env c (Some u) u") (auto simp: RemoveConnection_def split: outcome.splits)

lemma close_connections_effect:
  assumes "daemon_ok env c"
  shows "daemon_ok env (close_connections env us c) \<and> session_ids (close_connections env us c) = session_ids c - set us \<and>
    d_idleTimeout (close_connections env us c) = d_idleTimeout c \<and>
    (us \<noteq> [] \<longrightarrow> d_idleTimer (close_connections env us c) = (if session_ids c \<subseteq> set us then Running (d_idleTimeout c) else Stopped))"
  using assms
proof (induction us rule: rev_induct)
  case (snoc u us)
  let ?c = "close_connections env us c"
  have step: "close_connections env (us @ [u]) c = snd (RemoveConnection env ?c u)" by (simp add: close_connections_def)
  from snoc have c: "daemon_ok env ?c" "session_ids ?c = session_ids c - set us" "d_idleTimeout ?c = d_idleTimeout c" by blast+
  have "daemon_ok env (snd (RemoveConnection env ?c u))" using RemoveConnection_safe [OF c(1), of u] by (simp add: safe_def)
  moreover have "session_ids c - set us - {u} = session_ids c - set (us @ [u])"
    "session_ids c - set us - {u} = {} \<longleftrightarrow> session_ids c \<subseteq> set (us @ [u])" by auto
  ultimately show ?case using RemoveConnection_effect [OF c(1), of u] c unfolding step by simp
qed (simp add: close_connections_def)

text \<open>
  C17. The server comes to its end. From every reachable state, close any connections one after the other: no close panics, and exactly the sessions of
  those connections are gone. As long as a session is left the idle timer stands still; with the last one it starts, with the
  configured time, and when it fires the server has stopped.
\<close>

theorem server_can_stop:
  assumes "server_env_ok env lib plugins" and "server_reachable env lib plugins c"
  shows "session_ids (close_connections env us c) = session_ids c - set us \<and>
    fst (RemoveConnection env (close_connections env us c) u) \<noteq> Panic \<and>
    (us \<noteq> [] \<longrightarrow> d_idleTimer (close_connections env us c) = (if session_ids c \<subseteq> set us then Running (d_idleTimeout c) else Stopped)) \<and>
    (session_ids c \<subseteq> set us \<and> \<not> d_stopped (close_connections env us c) \<longrightarrow>
      server_step env lib (close_connections env us c) (idle_timer_fires (close_connections env us c)) \<and>
      d_stopped (idle_timer_fires (close_connections env us c)))"
proof -
  note eff = close_connections_effect [OF reachable_ok [OF assms], of us]
  have "\<exists>t. d_idleTimer (close_connections env us c) = Running t"
    if "session_ids c \<subseteq> set us" "\<not> d_stopped (close_connections env us c)"
  proof -
    have "session_ids (close_connections env us c) = {}" using that(1) eff by auto
    then have "SessionCount (d_sessions (close_connections env us c)) = 0" by (simp add: session_ids_count)
    with eff that(2) show ?thesis by (auto simp: daemon_ok_def timer_ok_def)
  qed
  then have idle: "server_step env lib (close_connections env us c) (idle_timer_fires (close_connections env us c))"
    if "session_ids c \<subseteq> set us" "\<not> d_stopped (close_connections env us c)"
    using that server_step.idle by blast
  have stops: "d_stopped (idle_timer_fires (close_connections env us c))" by (simp add: idle_timer_fires_def)
  have "fst (RemoveConnection env (close_connections env us c) u) \<noteq> Panic"
    using RemoveConnection_safe [OF conjunct1 [OF eff], of u] by (simp add: safe_def)
  with eff idle stops show ?thesis by blast
qed

subsection \<open>A sample server\<close>

definition sample_env :: "(unit, gostring) daemon_env" where
  "sample_env = \<lparr>env_names = protocol_names, env_gateway = (\<lambda>e. Ok ()), env_GetWorkspaceRoot = (\<lambda>p. Ok ''/w''),
     env_GetRepoName = (\<lambda>d. Ok ''repo''), env_GetEnv = (\<lambda>d. Ok []), env_InitializeResult = [],
     env_TextDocumentSync = (\<lambda>r. r @ ''sync''), env_EmptyList = [], env_WorkspaceEdit = [], env_CodeLens = [],
     env_Hover = [], env_HoverValue = id\<rparr>"

definition sample_lib :: "(unit, gostring, unit) router_lib" where
  "sample_lib = \<lparr>rl_Unmarshal = (\<lambda>m raw. Ok ()), rl_UnmarshalCommand = (\<lambda>raw. Fail EOF), rl_Marshal = (\<lambda>a. Ok []),
     rl_CommandParams = (\<lambda>p. ()), rl_reply = (\<lambda>r. Ok ())\<rparr>"

definition sample_server_plugins :: "(unit, gostring, gostring list) plugin list" where
  "sample_server_plugins = None # map (\<lambda>i. Some (\<lambda>cx. Ok i)) sample_plugins"

definition sample_start :: "(unit, gostring, gostring list, unit) daemon" where
  "sample_start = the (NewDaemon (Ok 30) (Ok [(''doc'', True), (''idx'', True), (''fmt'', True)]) sample_server_plugins [])"

text \<open>The server after a client connected, and after it was initialized.\<close>

definition sample_connected :: "(unit, gostring, gostring list, unit) daemon" where
  "sample_connected = snd (NewConnection sample_env (Ok ''u1'') sample_start None)"

definition sample_ready :: "(unit, gostring, gostring list, unit) daemon" where
  "sample_ready = snd (snd (HandleReq sample_env sample_lib ''u1'' sample_connected ''initialize'' []))"

lemma sample_plugin_ok: "plugin_ok protocol_names (sample_plugin name m prio)"
  by (auto simp: plugin_ok_def sample_plugin_def handler_ok_def log_handler_def split: if_splits)

lemma sample_env_ok: "server_env_ok sample_env sample_lib sample_server_plugins"
proof -
  have "distinct (map (method_key (env_names sample_env)) all_methods)" by code_simp
  then have "env_ok sample_env" by (simp add: env_ok_def sample_env_def)
  moreover have "lib_ok sample_lib" by (simp add: lib_ok_def sample_lib_def)
  moreover have "plugins_ok (env_names sample_env) sample_server_plugins"
    by (auto simp: plugins_ok_def sample_server_plugins_def sample_plugins_def sample_plugin_ok sample_env_def
        Option.these_def)
  ultimately show ?thesis by (simp add: server_env_ok_def)
qed

lemma sample_reachable:
  "server_reachable sample_env sample_lib sample_server_plugins sample_connected"
  "server_reachable sample_env sample_lib sample_server_plugins sample_ready"
proof -
  have start: "NewDaemon (Ok 30) (Ok [(''doc'', True), (''idx'', True), (''fmt'', True)]) sample_server_plugins [] = Some sample_start"
    by (simp add: sample_start_def NewDaemon_def)
  obtain r where "NewConnection sample_env (Ok ''u1'') sample_start None = (r, sample_connected)"
    by (cases "NewConnection sample_env (Ok ''u1'') sample_start None") (simp add: sample_connected_def)
  moreover have "fst (NewConnection sample_env (Ok ''u1'') sample_start None) \<noteq> Panic"
    by (simp add: NewConnection_def daemon_InitSession_def gateway_call_def sample_env_def)
  ultimately have step1: "server_step sample_env sample_lib sample_start sample_connected"
    by (metis fst_conv outcome.distinct(3) server_step.connect)
  with start show c: "server_reachable sample_env sample_lib sample_server_plugins sample_connected"
    unfolding server_reachable_def by (meson r_into_rtranclp)
  have ok: "fst (snd (HandleReq sample_env sample_lib ''u1'' sample_connected ''initialize'' [])) \<noteq> Panic"
    using HandleReq_answered [OF _ _ reachable_ok [OF sample_env_ok c], of sample_lib] sample_env_ok
    by (simp add: answered_def server_env_ok_def)
  obtain rs r where h: "HandleReq sample_env sample_lib ''u1'' sample_connected ''initialize'' [] = (rs, r, sample_ready)"
    by (cases "HandleReq sample_env sample_lib ''u1'' sample_connected ''initialize'' []") (auto simp: sample_ready_def)
  with ok have "server_step sample_env sample_lib sample_connected sample_ready" by (simp add: server_step.request [OF h])
  with step1 start show "server_reachable sample_env sample_lib sample_server_plugins sample_ready"
    unfolding server_reachable_def by (meson converse_rtranclp_into_rtranclp r_into_rtranclp)
qed

text \<open>The initialized server runs the high-priority plugin first and queues the asynchronous one.\<close>

theorem dispatch_safe_witness:
  "length (fst (HandleReq sample_env sample_lib ''u1'' sample_ready ''textDocument/didOpen'' [])) = 1 \<and>
   d_world (snd (snd (HandleReq sample_env sample_lib ''u1'' sample_ready ''textDocument/didOpen'' []))) = [''fmt'', ''doc'']"
proof
  show "length (fst (HandleReq sample_env sample_lib ''u1'' sample_ready ''textDocument/didOpen'' [])) = 1"
    using dispatch_safe [OF sample_env_ok sample_reachable(2), of "''u1''" "''textDocument/didOpen''" "[]"] by blast
  show "d_world (snd (snd (HandleReq sample_env sample_lib ''u1'' sample_ready ''textDocument/didOpen'' []))) = [''fmt'', ''doc'']"
    by code_simp
qed

theorem idle_shutdown_witness:
  "0 < SessionCount (d_sessions sample_connected) \<and> d_idleTimer sample_connected = Stopped"
proof -
  have "0 < SessionCount (d_sessions sample_connected)" "\<not> d_fullShutdown sample_connected" "\<not> d_stopped sample_connected"
    by code_simp+
  with idle_shutdown [OF sample_env_ok sample_reachable(1)] show ?thesis by blast
qed

theorem server_can_stop_witness:
  "session_ids sample_connected = {''u1''} \<and> d_idleTimer (close_connections sample_env [''u1''] sample_connected) = Running 30 \<and>
   d_stopped (idle_timer_fires (close_connections sample_env [''u1''] sample_connected))"
proof -
  have "memstore (d_sessions sample_connected) \<noteq> []" "map fst (memstore (d_sessions sample_connected)) = [''u1'']" "d_idleTimeout sample_connected = 30"
    by code_simp+
  then have c: "session_ids sample_connected = {''u1''}" "d_idleTimeout sample_connected = 30"
    unfolding session_ids_def by (metis list.simps(15) list.set(1) set_map)+
  from server_can_stop [OF sample_env_ok sample_reachable(1), of "[''u1'']"] c show ?thesis
    by (auto simp: idle_timer_fires_def)
qed

end
