(* ===== verification/Notifier.thy ===== *)
theory Notifier
  imports ScipModel Sessions
begin

text \<open>
  \<^verbatim>\<open>src/ulsp/internal/persistent-notifier\<close>: progress notifications shared by several senders. A handler collects the
  updates that arrive on its channel, condenses them into one message and shows it in every session of the workspace;
  the manager hands out one handler per workspace and title. The channel is a queue of at most 20 updates. The goroutine
  that receives, and the one that cleans up once there is no sender left, are operations that run at any time they
  are enabled. Errors of the gateway are only logged.
\<close>

subsection \<open>Handlers\<close>

record notification =
  SenderToken :: gostring
  IdentifierToken :: gostring
  n_Priority :: int
  Message :: gostring

text \<open>What is sent to a session: the progress it creates, begins, reports and ends.\<close>

datatype progress = Create | Begin gostring | Report gostring | Finish

record notification_handler =
  h_workspaceRoot :: gostring
  h_id :: gostring
  h_isClosed :: bool
  h_bySender :: "(gostring \<times> (gostring \<times> notification) list) list"
  h_channel :: "notification list"
  h_senderCount :: int
  h_sent :: "(uuid \<times> progress) list"

definition bufferSize :: nat where "bufferSize = 20"

definition to_sessions :: "('p, 'c) repository \<Rightarrow> gostring \<Rightarrow> progress \<Rightarrow> (uuid \<times> progress) list" where
  "to_sessions sessions root p = map (\<lambda>s. (ses_UUID s, p)) (GetAllFromWorkspaceRoot sessions root)"

text \<open>A session in which the progress cannot be created is not told to begin it; \<open>creates\<close> says where it can.\<close>

definition initNotification :: "(uuid \<Rightarrow> bool) \<Rightarrow> gostring \<Rightarrow> ('p, 'c) session \<Rightarrow> (uuid \<times> progress) list" where
  "initNotification creates title s =
     (ses_UUID s, Create) # (if creates (ses_UUID s) then [(ses_UUID s, Begin title)] else [])"

definition NewNotificationHandler ::
  "('p, 'c) repository \<Rightarrow> (uuid \<Rightarrow> bool) \<Rightarrow> gostring \<Rightarrow> gostring \<Rightarrow> gostring \<Rightarrow> notification_handler" where
  "NewNotificationHandler sessions creates root title notificationID =
     \<lparr>h_workspaceRoot = root, h_id = notificationID, h_isClosed = False, h_bySender = [], h_channel = [],
      h_senderCount = 1,
      h_sent = concat (map (initNotification creates title) (GetAllFromWorkspaceRoot sessions root))\<rparr>"

definition IsClosed :: "notification_handler \<Rightarrow> bool" where
  "IsClosed h \<longleftrightarrow> h_senderCount h \<le> 0"

definition handler_Add :: "notification_handler \<Rightarrow> notification_handler" where
  "handler_Add h = (if h_senderCount h \<le> 0 then h else h\<lparr>h_senderCount := h_senderCount h + 1\<rparr>)"

definition handler_Done :: "notification_handler \<Rightarrow> notification_handler" where
  "handler_Done h = h\<lparr>h_senderCount := h_senderCount h - 1\<rparr>"

text \<open>Sending on a closed channel panics; on a full channel it blocks (\<open>None\<close>).\<close>

definition handler_send :: "notification \<Rightarrow> notification_handler \<Rightarrow> notification_handler outcome option" where
  "handler_send n h =
     (if h_isClosed h then Some Panic
      else if length (h_channel h) < bufferSize then Some (Ok (h\<lparr>h_channel := h_channel h @ [n]\<rparr>))
      else None)"

subsection \<open>Condensing the updates\<close>

definition store_update ::
  "notification \<Rightarrow> (gostring \<times> (gostring \<times> notification) list) list \<Rightarrow> (gostring \<times> (gostring \<times> notification) list) list" where
  "store_update update m =
     (if length (Message update) = 0
      then (case map_of m (SenderToken update) of
              None \<Rightarrow> m
            | Some ids \<Rightarrow>
                (let ids' = AList.delete (IdentifierToken update) ids
                 in if ids' = [] then AList.delete (SenderToken update) m
                    else AList.update (SenderToken update) ids' m))
      else
        (let ids = (case map_of m (SenderToken update) of None \<Rightarrow> [] | Some ids \<Rightarrow> ids)
         in AList.update (SenderToken update) (AList.update (IdentifierToken update) update ids) m))"

text \<open>The two nested loops over the senders and their messages.\<close>

definition condense_step :: "notification \<Rightarrow> (gostring \<times> notification) list \<Rightarrow> (gostring \<times> notification) list" where
  "condense_step msg acc =
     (case map_of acc (IdentifierToken msg) of
        None \<Rightarrow> AList.update (IdentifierToken msg) msg acc
      | Some existing \<Rightarrow>
          if n_Priority existing > n_Priority msg then AList.update (IdentifierToken msg) msg acc else acc)"

definition condense ::
  "(gostring \<times> (gostring \<times> notification) list) list \<Rightarrow> (gostring \<times> notification) list" where
  "condense m = fold (\<lambda>(sender, ids). fold (\<lambda>(i, msg). condense_step msg) ids) m []"

definition combined_message :: "gostring list \<Rightarrow> gostring" where
  "combined_message messages =
     (if length messages = 1 then messages ! 0 else ''['' @ strings_Join (sort messages) '', '' @ '']'')"

definition captureUpdate :: "notification \<Rightarrow> notification_handler \<Rightarrow> gostring \<times> notification_handler" where
  "captureUpdate update h =
     (let m = store_update update (h_bySender h)
      in (combined_message (map (Message \<circ> snd) (condense m)), h\<lparr>h_bySender := m\<rparr>))"

definition broadcastUpdate :: "('p, 'c) repository \<Rightarrow> notification \<Rightarrow> notification_handler \<Rightarrow> notification_handler" where
  "broadcastUpdate sessions update h =
     (let (latestUpdate, h') = captureUpdate update h
      in h'\<lparr>h_sent := h_sent h' @ to_sessions sessions (h_workspaceRoot h') (Report latestUpdate)\<rparr>)"

text \<open>The goroutine that receives from the channel, while the channel is open and while it is drained.\<close>

definition handler_receive :: "('p, 'c) repository \<Rightarrow> notification_handler \<Rightarrow> notification_handler" where
  "handler_receive sessions h =
     (case h_channel h of [] \<Rightarrow> h | n # rest \<Rightarrow> broadcastUpdate sessions n (h\<lparr>h_channel := rest\<rparr>))"

text \<open>
  The goroutine that waits for the senders: it closes the channel, without waiting for it to be drained, and then
  ends the progress in all sessions.
\<close>

definition handler_close :: "notification_handler \<Rightarrow> notification_handler" where
  "handler_close h = (if h_isClosed h then h else h\<lparr>h_isClosed := True\<rparr>)"

definition handler_end :: "('p, 'c) repository \<Rightarrow> notification_handler \<Rightarrow> notification_handler" where
  "handler_end sessions h = h\<lparr>h_sent := h_sent h @ to_sessions sessions (h_workspaceRoot h) Finish\<rparr>"

subsection \<open>The manager\<close>

type_synonym notification_manager = "(gostring \<times> notification_handler) list"

definition deleteIfClosed :: "gostring \<Rightarrow> notification_manager \<Rightarrow> notification_manager" where
  "deleteIfClosed i m =
     (case map_of m i of None \<Rightarrow> m | Some h \<Rightarrow> if IsClosed h then AList.delete i m else m)"

definition manager_Delete :: "gostring \<Rightarrow> notification_manager \<Rightarrow> notification_manager" where
  "manager_Delete i m = deleteIfClosed i m"

text \<open>The identifier of the handler and the new manager.\<close>

definition StartNotification ::
  "('p, 'c) repository \<Rightarrow> (uuid \<Rightarrow> bool) \<Rightarrow> gostring \<Rightarrow> gostring \<Rightarrow> notification_manager \<Rightarrow> gostring \<times> notification_manager" where
  "StartNotification sessions creates root title m =
     (let i = root @ ''-'' @ title; m1 = deleteIfClosed i m
      in (i, case map_of m1 i of
               Some existing \<Rightarrow> AList.update i (handler_Add existing) m1
             | None \<Rightarrow> AList.update i (NewNotificationHandler sessions creates root title i) m1))"

subsection \<open>What is shown\<close>

text \<open>The notification a sender last gave for an identifier, and all of them.\<close>

definition notification_at ::
  "(gostring \<times> (gostring \<times> notification) list) list \<Rightarrow> gostring \<Rightarrow> gostring \<Rightarrow> notification option" where
  "notification_at m s i = (case map_of m s of None \<Rightarrow> None | Some ids \<Rightarrow> map_of ids i)"

definition notifications :: "(gostring \<times> (gostring \<times> notification) list) list \<Rightarrow> notification list" where
  "notifications m = concat (map (\<lambda>(s, ids). map snd ids) m)"

definition senders_inv :: "(gostring \<times> (gostring \<times> notification) list) list \<Rightarrow> bool" where
  "senders_inv m \<longleftrightarrow> distinct (map fst m) \<and> (\<forall>(s, ids) \<in> set m. distinct (map fst ids) \<and>
     (\<forall>(i, n) \<in> set ids. IdentifierToken n = i \<and> SenderToken n = s \<and> Message n \<noteq> []))"

text \<open>The best notification of each identifier in a list.\<close>

definition condensed :: "notification list \<Rightarrow> (gostring \<times> notification) list \<Rightarrow> bool" where
  "condensed ns acc \<longleftrightarrow> distinct (map fst acc) \<and>
     (\<forall>i. case map_of acc i of
            None \<Rightarrow> \<forall>n \<in> set ns. IdentifierToken n \<noteq> i
          | Some b \<Rightarrow> b \<in> set ns \<and> IdentifierToken b = i \<and>
              (\<forall>n \<in> set ns. IdentifierToken n = i \<longrightarrow> n_Priority b \<le> n_Priority n))"

lemma condensed_step:
  assumes "condensed ns acc"
  shows "condensed (ns @ [n]) (condense_step n acc)"
proof -
  have d: "distinct (map fst acc)" and inv: "\<And>i. case map_of acc i of
      None \<Rightarrow> \<forall>n \<in> set ns. IdentifierToken n \<noteq> i
    | Some b \<Rightarrow> b \<in> set ns \<and> IdentifierToken b = i \<and> (\<forall>n \<in> set ns. IdentifierToken n = i \<longrightarrow> n_Priority b \<le> n_Priority n)"
    using assms by (simp_all add: condensed_def)
  have "case map_of (condense_step n acc) i of
      None \<Rightarrow> \<forall>n' \<in> set (ns @ [n]). IdentifierToken n' \<noteq> i
    | Some b \<Rightarrow> b \<in> set (ns @ [n]) \<and> IdentifierToken b = i \<and>
        (\<forall>n' \<in> set (ns @ [n]). IdentifierToken n' = i \<longrightarrow> n_Priority b \<le> n_Priority n')" for i
    using inv [of i]
    by (cases "map_of acc i") (force simp: condense_step_def update_conv' split: option.split)+
  moreover have "distinct (map fst (condense_step n acc))"
    using d by (simp add: condense_step_def distinct_update split: option.split)
  ultimately show ?thesis by (simp add: condensed_def)
qed

lemma condensed_fold: "condensed ns acc \<Longrightarrow> condensed (ns @ ms) (fold condense_step ms acc)"
proof (induction ms arbitrary: ns acc)
  case (Cons n ms)
  from Cons.IH [OF condensed_step [OF Cons.prems, of n]] show ?case by simp
qed simp

lemma condense_fold: "condense m = fold condense_step (notifications m) []"
proof -
  have inner: "fold (\<lambda>(i, msg). condense_step msg) ids acc = fold condense_step (map snd ids) acc"
    for ids :: "(gostring \<times> notification) list" and acc
    by (induction ids arbitrary: acc) auto
  have "fold (\<lambda>(sender, ids). fold (\<lambda>(i, msg). condense_step msg) ids) m acc = fold condense_step (notifications m) acc" for acc
    by (induction m arbitrary: acc) (auto simp: notifications_def inner)
  then show ?thesis by (simp add: condense_def)
qed

lemma condense_condensed: "condensed (notifications m) (condense m)"
  using condensed_fold [of "[]" "[]" "notifications m"] by (simp add: condense_fold condensed_def)

lemma store_update_at:
  assumes "senders_inv m"
  shows "notification_at (store_update n m) s i =
    (if s = SenderToken n \<and> i = IdentifierToken n then (if Message n = [] then None else Some n) else notification_at m s i)"
proof (cases "Message n = []")
  case True
  have "map_of ids i = None" if "AList.delete (IdentifierToken n) ids = []" "i \<noteq> IdentifierToken n" for ids :: "(gostring \<times> notification) list"
    using that by (metis delete_conv' fun_upd_other map_of.simps(1))
  with True show ?thesis
    by (auto simp: store_update_def notification_at_def Let_def delete_conv' update_conv' split: option.splits)
qed (auto simp: store_update_def notification_at_def Let_def update_conv' split: option.splits)

lemma senders_invI:
  assumes "distinct (map fst m)" and "\<And>s ids. (s, ids) \<in> set m \<Longrightarrow> distinct (map fst ids)"
    and "\<And>s ids i n. (s, ids) \<in> set m \<Longrightarrow> (i, n) \<in> set ids \<Longrightarrow> IdentifierToken n = i \<and> SenderToken n = s \<and> Message n \<noteq> []"
  shows "senders_inv m"
  using assms by (fastforce simp: senders_inv_def)

lemma senders_invD:
  assumes "senders_inv m"
  shows "distinct (map fst m)" and "(s, ids) \<in> set m \<Longrightarrow> distinct (map fst ids)"
    and "(s, ids) \<in> set m \<Longrightarrow> (i, n) \<in> set ids \<Longrightarrow> IdentifierToken n = i \<and> SenderToken n = s \<and> Message n \<noteq> []"
  using assms by (auto simp: senders_inv_def)

lemma update_set: "(k, v) \<in> set (AList.update k' v' xs) \<Longrightarrow> k = k' \<and> v = v' \<or> (k, v) \<in> set xs"
  by (induction xs) (auto split: if_splits)

lemma delete_set: "(k, v) \<in> set (AList.delete k' xs) \<Longrightarrow> (k, v) \<in> set xs"
  by (simp add: AList.delete_eq)

lemma delete_distinct: "distinct (map fst xs) \<Longrightarrow> distinct (map fst (AList.delete k xs))"
  by (simp add: AList.delete_eq distinct_map_filter)

lemma senders_inv_update:
  assumes "senders_inv m" and "distinct (map fst ids)"
    and "\<And>i n. (i, n) \<in> set ids \<Longrightarrow> IdentifierToken n = i \<and> SenderToken n = s \<and> Message n \<noteq> []"
  shows "senders_inv (AList.update s ids m)"
  by (rule senders_invI) (use assms(2,3) senders_invD [OF assms(1)] in \<open>auto simp: distinct_update dest!: update_set\<close>)

lemma senders_inv_delete: "senders_inv m \<Longrightarrow> senders_inv (AList.delete s m)"
  by (rule senders_invI) (use senders_invD in \<open>auto simp: delete_distinct dest!: delete_set\<close>)

lemma senders_inv_store:
  assumes "senders_inv m"
  shows "senders_inv (store_update n m)"
proof (cases "map_of m (SenderToken n)")
  case None
  have "senders_inv (AList.update (SenderToken n) [(IdentifierToken n, n)] m)" if "Message n \<noteq> []"
    using that by (intro senders_inv_update [OF assms]) auto
  with None assms show ?thesis by (simp add: store_update_def)
next
  case (Some ids)
  then have ids: "(SenderToken n, ids) \<in> set m" by (rule map_of_SomeD)
  note d = senders_invD(2) [OF assms ids] and e = senders_invD(3) [OF assms ids]
  have "senders_inv (AList.update (SenderToken n) (AList.delete (IdentifierToken n) ids) m)"
    using d e by (intro senders_inv_update [OF assms]) (auto simp: delete_distinct dest!: delete_set)
  moreover have "senders_inv (AList.update (SenderToken n) (AList.update (IdentifierToken n) n ids) m)" if "Message n \<noteq> []"
    using d e that by (intro senders_inv_update [OF assms]) (auto simp: distinct_update dest!: update_set)
  ultimately show ?thesis using Some senders_inv_delete [OF assms] by (simp add: store_update_def Let_def)
qed

lemma notifications_at:
  assumes "senders_inv m"
  shows "n \<in> set (notifications m) \<longleftrightarrow> notification_at m (SenderToken n) (IdentifierToken n) = Some n"
proof
  assume "n \<in> set (notifications m)"
  then obtain s ids i where ids: "(s, ids) \<in> set m" "(i, n) \<in> set ids" by (auto simp: notifications_def)
  with senders_invD [OF assms] have "map_of m s = Some ids" "map_of ids i = Some n" "IdentifierToken n = i" "SenderToken n = s"
    by auto
  then show "notification_at m (SenderToken n) (IdentifierToken n) = Some n" by (simp add: notification_at_def)
next
  assume "notification_at m (SenderToken n) (IdentifierToken n) = Some n"
  then show "n \<in> set (notifications m)"
    by (force simp: notification_at_def notifications_def dest: map_of_SomeD split: option.splits)
qed

text \<open>
  The progress message: after an update each sender's latest notification per identifier is kept, an empty
  message removes it, and the text shown has for every identifier with a notification the message of one with the
  lowest priority among its senders, and nothing else.
\<close>

theorem captureUpdate_spec:
  assumes "senders_inv (h_bySender h)" and "captureUpdate update h = (shown, h')"
  shows "senders_inv (h_bySender h') \<and>
    (\<forall>s i. notification_at (h_bySender h') s i =
      (if s = SenderToken update \<and> i = IdentifierToken update then (if Message update = [] then None else Some update)
       else notification_at (h_bySender h) s i)) \<and>
    (\<exists>best. shown = combined_message (map (Message \<circ> snd) best) \<and> distinct (map fst best) \<and>
      (\<forall>i. case map_of best i of
         None \<Rightarrow> \<forall>s. notification_at (h_bySender h') s i = None
       | Some b \<Rightarrow> notification_at (h_bySender h') (SenderToken b) i = Some b \<and>
           (\<forall>s n. notification_at (h_bySender h') s i = Some n \<longrightarrow> n_Priority b \<le> n_Priority n)))"
proof -
  let ?m = "store_update update (h_bySender h)"
  from assms(2) have shown: "shown = combined_message (map (Message \<circ> snd) (condense ?m))" and h': "h_bySender h' = ?m"
    by (auto simp: captureUpdate_def Let_def)
  have inv: "senders_inv ?m" by (rule senders_inv_store [OF assms(1)])
  have at: "n \<in> set (notifications ?m) \<and> IdentifierToken n = i \<and> SenderToken n = s" if "notification_at ?m s i = Some n" for s i n
  proof -
    from that obtain ids where "(s, ids) \<in> set ?m" "(i, n) \<in> set ids"
      by (auto simp: notification_at_def dest: map_of_SomeD split: option.splits)
    with senders_invD(3) [OF inv this] show ?thesis by (force simp: notifications_def)
  qed
  have best: "condensed (notifications ?m) (condense ?m)" by (rule condense_condensed)
  have "case map_of (condense ?m) i of
         None \<Rightarrow> \<forall>s. notification_at ?m s i = None
       | Some b \<Rightarrow> notification_at ?m (SenderToken b) i = Some b \<and>
           (\<forall>s n. notification_at ?m s i = Some n \<longrightarrow> n_Priority b \<le> n_Priority n)" for i
  proof (cases "map_of (condense ?m) i")
    case None
    with best have "\<forall>n \<in> set (notifications ?m). IdentifierToken n \<noteq> i"
      unfolding condensed_def by (metis (mono_tags, lifting) option.simps(4))
    with at have "notification_at ?m s i = None" for s by (cases "notification_at ?m s i") auto
    with None show ?thesis by simp
  next
    case (Some b)
    from best [unfolded condensed_def, THEN conjunct2, rule_format, of i] Some
    have b: "b \<in> set (notifications ?m)" "IdentifierToken b = i"
      "\<forall>n \<in> set (notifications ?m). IdentifierToken n = i \<longrightarrow> n_Priority b \<le> n_Priority n" by simp_all
    have "notification_at ?m (SenderToken b) i = Some b" using b(1,2) notifications_at [OF inv, of b] by simp
    moreover have "n_Priority b \<le> n_Priority n" if "notification_at ?m s i = Some n" for s n
      using at [OF that] b(3) by blast
    ultimately show ?thesis using Some by simp
  qed
  moreover have "distinct (map fst (condense ?m))" using best by (simp add: condensed_def)
  ultimately show ?thesis
    unfolding shown h' using inv store_update_at [OF assms(1)] by blast
qed

text \<open>Two senders report on the same identifier; the lower priority wins.\<close>

definition sample_note :: "gostring \<Rightarrow> gostring \<Rightarrow> int \<Rightarrow> gostring \<Rightarrow> notification" where
  "sample_note s i p m = \<lparr>SenderToken = s, IdentifierToken = i, n_Priority = p, Message = m\<rparr>"

definition sample_handler :: notification_handler where
  "sample_handler = \<lparr>h_workspaceRoot = ''/w'', h_id = ''/w-t'', h_isClosed = False,
     h_bySender = [(''a'', [(''x'', sample_note ''a'' ''x'' 2 ''slow'')])], h_channel = [], h_senderCount = 2, h_sent = []\<rparr>"

theorem captureUpdate_spec_witness:
  "\<exists>h'. captureUpdate (sample_note ''b'' ''x'' 1 ''fast'') sample_handler = (''fast'', h') \<and>
     notification_at (h_bySender h') ''a'' ''x'' = Some (sample_note ''a'' ''x'' 2 ''slow'')"
proof -
  let ?u = "sample_note ''b'' ''x'' 1 ''fast''"
  obtain h' where h': "captureUpdate ?u sample_handler = (''fast'', h')"
  proof -
    have "fst (captureUpdate ?u sample_handler) = ''fast''" by code_simp
    then show thesis using that by (cases "captureUpdate ?u sample_handler") simp
  qed
  have inv: "senders_inv (h_bySender sample_handler)" by (simp add: senders_inv_def sample_handler_def sample_note_def)
  from captureUpdate_spec [OF inv h'] have
    "notification_at (h_bySender h') ''a'' ''x'' = notification_at (h_bySender sample_handler) ''a'' ''x''"
    by (simp add: sample_note_def)
  with h' show ?thesis by (simp add: notification_at_def sample_handler_def)
qed

subsection \<open>The life of a handler\<close>

text \<open>
  The operations of senders and of the two goroutines in any order. The cleanup closes the channel when the last sender
  is done, and ends the progress after that.
\<close>

inductive handler_reachable :: "('p, 'c) repository \<Rightarrow> notification_handler \<Rightarrow> bool" for sessions where
  new: "handler_reachable sessions (NewNotificationHandler sessions creates root title i)"
| add: "handler_reachable sessions h \<Longrightarrow> handler_reachable sessions (handler_Add h)"
| finished: "handler_reachable sessions h \<Longrightarrow> handler_reachable sessions (handler_Done h)"
| send: "handler_reachable sessions h \<Longrightarrow> handler_send n h = Some (Ok h') \<Longrightarrow> handler_reachable sessions h'"
| receive: "handler_reachable sessions h \<Longrightarrow> handler_reachable sessions (handler_receive sessions h)"
| close: "handler_reachable sessions h \<Longrightarrow> h_senderCount h = 0 \<Longrightarrow> handler_reachable sessions (handler_close h)"
| ended: "handler_reachable sessions h \<Longrightarrow> h_isClosed h \<Longrightarrow> handler_reachable sessions (handler_end sessions h)"

lemma broadcast_sel [simp]:
  "h_isClosed (broadcastUpdate sessions n h) = h_isClosed h" "h_senderCount (broadcastUpdate sessions n h) = h_senderCount h"
  "h_channel (broadcastUpdate sessions n h) = h_channel h" "h_bySender (broadcastUpdate sessions n h) = store_update n (h_bySender h)"
  by (simp_all add: broadcastUpdate_def captureUpdate_def Let_def)

text \<open>The channel is closed only when every sender is done, holds at most 20 updates, and the stored updates are well-formed.\<close>

lemma handler_inv:
  "handler_reachable sessions h \<Longrightarrow>
   (h_isClosed h \<longrightarrow> h_senderCount h \<le> 0) \<and> length (h_channel h) \<le> bufferSize \<and> senders_inv (h_bySender h)"
proof (induction rule: handler_reachable.induct)
  case (new creates root title i)
  then show ?case by (simp add: NewNotificationHandler_def senders_inv_def)
next
  case (receive h)
  then show ?case by (cases "h_channel h") (auto simp: handler_receive_def senders_inv_store)
qed (auto simp: handler_Add_def handler_Done_def handler_send_def handler_close_def handler_end_def split: if_splits)

text \<open>
  C28. As long as a handler has a sender that is not done, sending an update does not panic, and once the receiving
  goroutine has made room it does not block.
\<close>

theorem sending_is_safe:
  assumes "handler_reachable sessions h" and "0 < h_senderCount h"
  shows "handler_send n h \<noteq> Some Panic \<and>
    (handler_send n h = None \<longrightarrow> (\<exists>h'. handler_send n (handler_receive sessions h) = Some (Ok h')))"
proof -
  have inv: "\<not> h_isClosed h" "length (h_channel h) \<le> bufferSize" using handler_inv [OF assms(1)] assms(2) by auto
  then have "length (h_channel (handler_receive sessions h)) < bufferSize" "\<not> h_isClosed (handler_receive sessions h)"
    by (cases "h_channel h"; simp add: handler_receive_def bufferSize_def)+
  with inv show ?thesis by (auto simp: handler_send_def)
qed

theorem sending_is_safe_witness:
  "handler_send (sample_note ''a'' ''x'' 1 ''m'')
     (NewNotificationHandler (NewSessionRepository :: (unit, unit) repository) (\<lambda>u. True) ''/w'' ''t'' ''/w-t'') \<noteq> Some Panic"
  using sending_is_safe [OF handler_reachable.new [of "NewSessionRepository :: (unit, unit) repository" "\<lambda>u. True" "''/w''" "''t''" "''/w-t''"],
      of "sample_note ''a'' ''x'' 1 ''m''"]
  by (simp add: NewNotificationHandler_def)

text \<open>An update that is still in the channel when the last sender is done can be reported after the end of the progress.\<close>

definition one_session :: "(unit, unit) repository" where
  "one_session = \<lparr>memstore = [(''u'', SessionToModel (make_session ''u'' (None, None, ''/w'', [], [], True)))], active_connections = 1\<rparr>"

lemma report_after_end:
  "\<exists>h. handler_reachable one_session h \<and>
     h_sent h = [(''u'', Create), (''u'', Begin ''t''), (''u'', Finish), (''u'', Report ''m'')]"
proof -
  define h0 where "h0 = NewNotificationHandler one_session (\<lambda>u. True) ''/w'' ''t'' ''/w-t''"
  define h1 where "h1 = h0\<lparr>h_channel := [sample_note ''a'' ''x'' 1 ''m'']\<rparr>"
  let ?h = "handler_receive one_session (handler_end one_session (handler_close (handler_Done h1)))"
  have "handler_reachable one_session h0" unfolding h0_def by (rule handler_reachable.new)
  moreover have "handler_send (sample_note ''a'' ''x'' 1 ''m'') h0 = Some (Ok h1)"
    by (simp add: handler_send_def h1_def h0_def NewNotificationHandler_def bufferSize_def)
  ultimately have "handler_reachable one_session (handler_Done h1)"
    by (blast intro: handler_reachable.send handler_reachable.finished)
  moreover have "h_senderCount (handler_Done h1) = 0" "h_isClosed (handler_close (handler_Done h1))"
    by (simp_all add: handler_Done_def h1_def h0_def NewNotificationHandler_def handler_close_def)
  ultimately have "handler_reachable one_session ?h"
    by (blast intro: handler_reachable.receive handler_reachable.ended handler_reachable.close)
  moreover have "h_sent ?h = [(''u'', Create), (''u'', Begin ''t''), (''u'', Finish), (''u'', Report ''m'')]"
    unfolding h1_def h0_def by code_simp
  ultimately show ?thesis by blast
qed

end
