(* ===== verification/Diagnostics.thy ===== *)
theory Diagnostics
  imports DocSyncSpec
begin

text \<open>
  \<^verbatim>\<open>src/ulsp/controller/diagnostics/diagnostics.go\<close>: the diagnostics of the indexed documents, per session, and
  their publication to the clients. The gateway is an argument; what is sent to it is recorded with the
  session it goes to.
\<close>

subsection \<open>Operations\<close>

record publication =
  pub_session :: uuid
  pub_URI :: uri
  pub_Diagnostics :: "lsp_diagnostic list"

record diagnostics_ctrl =
  diagnostics_store :: "(uuid \<times> (uri \<times> lsp_diagnostic list) list) list"
  published :: "publication list"
  counter_reported :: nat
  counter_runs :: nat

definition NewDiagnostics :: diagnostics_ctrl where
  "NewDiagnostics = \<lparr>diagnostics_store = [], published = [], counter_reported = 0, counter_runs = 0\<rparr>"

text \<open>\<^verbatim>\<open>c.diagnostics[u][doc] = diags\<close>, creating the map of the session.\<close>

definition put_diagnostics :: "uuid \<Rightarrow> uri \<Rightarrow> lsp_diagnostic list \<Rightarrow> diagnostics_ctrl \<Rightarrow> diagnostics_ctrl" where
  "put_diagnostics u doc diags c =
     (let docs = (case map_of (diagnostics_store c) u of None \<Rightarrow> [] | Some d \<Rightarrow> d)
      in c\<lparr>diagnostics_store := AList.update u (AList.update doc diags docs) (diagnostics_store c)\<rparr>)"

text \<open>An error of the gateway is only logged.\<close>

fun apply_to_sessions ::
  "(('p, 'c) session) list \<Rightarrow> uri \<Rightarrow> lsp_diagnostic list \<Rightarrow> diagnostics_ctrl \<Rightarrow> diagnostics_ctrl" where
  "apply_to_sessions [] docURI diags c = c"
| "apply_to_sessions (s # ss) docURI diags c =
     (let c1 = put_diagnostics (ses_UUID s) docURI diags c
      in apply_to_sessions ss docURI diags
           (c1\<lparr>published := published c1 @ [\<lparr>pub_session = ses_UUID s, pub_URI = docURI, pub_Diagnostics = diags\<rparr>]\<rparr>))"

definition ApplyDiagnostics ::
  "('p, 'c) repository \<Rightarrow> gostring \<Rightarrow> uri \<Rightarrow> lsp_diagnostic list \<Rightarrow> diagnostics_ctrl \<Rightarrow> diagnostics_ctrl" where
  "ApplyDiagnostics sessions workspaceRoot docURI diags c =
     apply_to_sessions (GetAllFromWorkspaceRoot sessions workspaceRoot) docURI diags c"

definition diagnostics_initialize ::
  "('p, 'c) repository \<Rightarrow> ctx \<Rightarrow> diagnostics_ctrl \<Rightarrow> unit outcome \<times> diagnostics_ctrl" where
  "diagnostics_initialize sessions cx c =
     (case session_uuid sessions cx of
        Ok u \<Rightarrow> (Ok (), c\<lparr>diagnostics_store := AList.update u [] (diagnostics_store c)\<rparr>)
      | Fail e \<Rightarrow> (Fail e, c)
      | Panic \<Rightarrow> (Panic, c))"

definition diagnostics_disposeSession :: "uuid \<Rightarrow> diagnostics_ctrl \<Rightarrow> diagnostics_ctrl" where
  "diagnostics_disposeSession u c = c\<lparr>diagnostics_store := AList.delete u (diagnostics_store c)\<rparr>"

definition updateMetrics :: "lsp_diagnostic list \<Rightarrow> diagnostics_ctrl \<Rightarrow> diagnostics_ctrl" where
  "updateMetrics diags c =
     c\<lparr>counter_reported := counter_reported c + length diags, counter_runs := counter_runs c + 1\<rparr>"

text \<open>The metrics are updated when the call returns, also after an error.\<close>

definition diagnostics_shutdown ::
  "('p, 'c) repository \<Rightarrow> ctx \<Rightarrow> diagnostics_ctrl \<Rightarrow> unit outcome \<times> diagnostics_ctrl" where
  "diagnostics_shutdown sessions cx c =
     (case session_uuid sessions cx of
        Ok u \<Rightarrow> (Ok (), updateMetrics [] (diagnostics_disposeSession u c))
      | Fail e \<Rightarrow> (Fail e, updateMetrics [] c)
      | Panic \<Rightarrow> (Panic, c))"

definition diagnostics_endSession :: "uuid \<Rightarrow> diagnostics_ctrl \<Rightarrow> unit outcome \<times> diagnostics_ctrl" where
  "diagnostics_endSession u c = (Ok (), updateMetrics [] (diagnostics_disposeSession u c))"

subsection \<open>The store\<close>

definition diagnostics_at :: "diagnostics_ctrl \<Rightarrow> uuid \<times> uri \<Rightarrow> lsp_diagnostic list option" where
  "diagnostics_at c k = (case map_of (diagnostics_store c) (fst k) of None \<Rightarrow> None | Some docs \<Rightarrow> map_of docs (snd k))"

lemma diagnostics_at_put [simp]:
  "diagnostics_at (put_diagnostics u doc diags c) (v, d) = (if v = u \<and> d = doc then Some diags else diagnostics_at c (v, d))"
  by (auto simp: diagnostics_at_def put_diagnostics_def update_conv' Let_def split: option.splits)

lemma published_put [simp]: "published (put_diagnostics u doc diags c) = published c"
  by (simp add: put_diagnostics_def)

lemma diagnostics_at_published [simp]: "diagnostics_at (c\<lparr>published := ps\<rparr>) = diagnostics_at c"
  by (intro ext) (simp add: diagnostics_at_def)

interpretation diags: keyed_store "\<lambda>c. True" "\<lambda>k. True" diagnostics_at
  "\<lambda>(x :: unit) k v. put_diagnostics (fst k) (snd k) v"
  by unfold_locales (auto simp: prod_eq_iff)

lemma apply_to_sessions_at:
  "diagnostics_at (apply_to_sessions ss doc diags c) (u, d) =
     (if d = doc \<and> u \<in> ses_UUID ` set ss then Some diags else diagnostics_at c (u, d))"
  by (induction ss arbitrary: c) (auto simp: Let_def)

lemma apply_to_sessions_published:
  "published (apply_to_sessions ss doc diags c) =
     published c @ map (\<lambda>s. \<lparr>pub_session = ses_UUID s, pub_URI = doc, pub_Diagnostics = diags\<rparr>) ss"
  by (induction ss arbitrary: c) (auto simp: Let_def)

text \<open>
  Diagnostics of a loaded document reach exactly the sessions of its workspace: each of them gets one publication
  with all diagnostics of the document and stores them, and nothing changes for other sessions and documents.
\<close>

theorem ApplyDiagnostics_workspace:
  assumes "sessions_inv ss"
  shows "diagnostics_at (ApplyDiagnostics ss root doc diags c) (u, d) =
      (if d = doc \<and> (\<exists>s. GetSession ss u = Ok s \<and> ses_WorkspaceRoot s = root) then Some diags else diagnostics_at c (u, d)) \<and>
    published (ApplyDiagnostics ss root doc diags c) = published c @
      map (\<lambda>s. \<lparr>pub_session = ses_UUID s, pub_URI = doc, pub_Diagnostics = diags\<rparr>) (GetAllFromWorkspaceRoot ss root)"
proof -
  have "u \<in> ses_UUID ` set (GetAllFromWorkspaceRoot ss root) \<longleftrightarrow> (\<exists>s. GetSession ss u = Ok s \<and> ses_WorkspaceRoot s = root)"
    (is "?l \<longleftrightarrow> ?r")
  proof
    assume ?r
    then obtain s where s: "GetSession ss u = Ok s" "ses_WorkspaceRoot s = root" by blast
    then have "ses_UUID s = u"
      using assms by (auto simp: GetSession_def sessions_inv_def ModelToSession_def dest!: map_of_SomeD split: option.splits)
    with s GetAll_iff [OF assms, of s root] show ?l by force
  qed (use GetAll_iff [OF assms] in auto)
  then show ?thesis by (simp add: ApplyDiagnostics_def apply_to_sessions_at apply_to_sessions_published)
qed

theorem ApplyDiagnostics_workspace_witness:
  "diagnostics_at (ApplyDiagnostics sample_sessions ''/w'' ''a'' [] NewDiagnostics) (''u'', ''a'') = Some []"
proof -
  have "GetSession sample_sessions ''u'' = Ok sample_session"
    by (simp add: sample_sessions_def GetSession_Set sample_session_def UUIDToSession_def)
  moreover have "ses_WorkspaceRoot sample_session = ''/w''" by (simp add: sample_session_def)
  ultimately show ?thesis
    using ApplyDiagnostics_workspace [OF sample_sessions_inv, of "''/w''" "''a''" "[]" NewDiagnostics "''u''" "''a''"] by simp
qed

end
