(* ===== verification/IndexNotifier.thy ===== *)
theory IndexNotifier
  imports GoPath
begin

text \<open>
  \<^verbatim>\<open>src/ulsp/controller/scip/scip_notify.go\<close>: the progress of loading index files, one notification per workspace. The
  notification manager is the interface the notifier is built with: whether a notification can be started is an
  argument, and the calls on its handlers are recorded in order. A message is its format and arguments.
\<close>

subsection \<open>Operations\<close>

datatype load_status = IndexLoadSuccess | IndexLoadError

datatype handler_call = Started | Sent gostring "fmt_arg list" | DoneCalled

record notification_state =
  ns_processed :: nat
  ns_pending :: "gostring list"

record index_notifier =
  activeNotifications :: "(gostring \<times> notification_state) list"
  handler_calls :: "(gostring \<times> handler_call) list"

definition NewIndexNotifier :: index_notifier where
  "NewIndexNotifier = \<lparr>activeNotifications = [], handler_calls = []\<rparr>"

text \<open>\<^verbatim>\<open>filepath.Base\<close>.\<close>

definition filepath_Base :: "gostring \<Rightarrow> gostring" where
  "filepath_Base path =
     (if path = [] then ''.''
      else let stripped = rev (dropWhile (\<lambda>c. c = CHR ''/'') (rev path))
           in if stripped = [] then ''/'' else rev (takeWhile (\<lambda>c. c \<noteq> CHR ''/'') (rev stripped)))"

definition send_message :: "gostring \<Rightarrow> gostring \<Rightarrow> fmt_arg list \<Rightarrow> index_notifier \<Rightarrow> index_notifier" where
  "send_message root fmt args n = n\<lparr>handler_calls := handler_calls n @ [(root, Sent fmt args)]\<rparr>"

definition progress_percent :: "notification_state \<Rightarrow> nat" where
  "progress_percent state =
     (let totalFiles = length (ns_pending state) + ns_processed state
      in if 0 < totalFiles then ns_processed state * 100 div totalFiles else 0)"

definition notifyProgress :: "gostring \<Rightarrow> notification_state \<Rightarrow> gostring \<Rightarrow> index_notifier \<Rightarrow> index_notifier" where
  "notifyProgress root state filePath =
     send_message root ''%d%% (%s)'' [FInt (int (progress_percent state)), FStr (filepath_Base filePath)]"

definition trackFileInternal ::
  "(gostring \<Rightarrow> unit outcome) \<Rightarrow> index_notifier \<Rightarrow> gostring \<Rightarrow> gostring \<Rightarrow> bool \<Rightarrow> unit outcome \<times> index_notifier" where
  "trackFileInternal start n root filePath showProgress =
     (let (r, n1) =
            (case map_of (activeNotifications n) root of
               Some state \<Rightarrow> (Ok state, n)
             | None \<Rightarrow>
                 (case start root of
                    Ok _ \<Rightarrow> (Ok \<lparr>ns_processed = 0, ns_pending = []\<rparr>, n\<lparr>handler_calls := handler_calls n @ [(root, Started)]\<rparr>)
                  | Fail e \<Rightarrow> (Fail e, n)
                  | Panic \<Rightarrow> (Panic, n)))
      in case r of
           Ok state \<Rightarrow>
             (let state' = state\<lparr>ns_pending := List.insert filePath (ns_pending state)\<rparr>;
                  n2 = n1\<lparr>activeNotifications := AList.update root state' (activeNotifications n1)\<rparr>
              in (Ok (), if showProgress then notifyProgress root state' filePath n2 else n2))
         | Fail e \<Rightarrow> (Fail e, n1)
         | Panic \<Rightarrow> (Panic, n1))"

definition TrackFile ::
  "(gostring \<Rightarrow> unit outcome) \<Rightarrow> index_notifier \<Rightarrow> gostring \<Rightarrow> gostring \<Rightarrow> unit outcome \<times> index_notifier" where
  "TrackFile start n root filePath = trackFileInternal start n root filePath False"

definition NotifyStart ::
  "(gostring \<Rightarrow> unit outcome) \<Rightarrow> index_notifier \<Rightarrow> gostring \<Rightarrow> gostring \<Rightarrow> unit outcome \<times> index_notifier" where
  "NotifyStart start n root filePath = trackFileInternal start n root filePath True"

definition status_text :: "load_status \<Rightarrow> gostring" where
  "status_text s = (case s of IndexLoadSuccess \<Rightarrow> ''done'' | IndexLoadError \<Rightarrow> ''error'')"

definition NotifyComplete ::
  "index_notifier \<Rightarrow> gostring \<Rightarrow> gostring \<Rightarrow> load_status \<Rightarrow> unit outcome \<times> index_notifier" where
  "NotifyComplete n root filePath status =
     (case map_of (activeNotifications n) root of
        None \<Rightarrow> (Fail (Errorf ''no notification handler found for workspace %s'' [FStr root]), n)
      | Some state \<Rightarrow>
          (let state' = \<lparr>ns_processed = ns_processed state + 1, ns_pending = remove1 filePath (ns_pending state)\<rparr>;
               n1 = n\<lparr>activeNotifications := AList.update root state' (activeNotifications n)\<rparr>;
               n2 = (if status \<noteq> IndexLoadSuccess
                     then send_message root ''Failed to load %s: %s'' [FStr (filepath_Base filePath), FStr (status_text status)] n1
                     else n1);
               n3 = notifyProgress root state' filePath n2
           in (Ok (),
               if ns_pending state' = []
               then (let n4 = send_message root ''Completed loading indices (%d files)'' [FInt (int (ns_processed state'))] n3
                     in n4\<lparr>activeNotifications := AList.delete root (activeNotifications n4),
                           handler_calls := handler_calls n4 @ [(root, DoneCalled)]\<rparr>)
               else n3)))"

subsection \<open>Invariant\<close>

text \<open>A notification is active exactly while it has files to wait for; every handler that was started and is not active is done.\<close>

definition notifier_inv :: "index_notifier \<Rightarrow> bool" where
  "notifier_inv n \<longleftrightarrow>
     (\<forall>root st. map_of (activeNotifications n) root = Some st \<longrightarrow> ns_pending st \<noteq> [] \<and> distinct (ns_pending st)) \<and>
     (\<forall>root. length (filter (\<lambda>c. c = (root, Started)) (handler_calls n)) =
        length (filter (\<lambda>c. c = (root, DoneCalled)) (handler_calls n)) +
        (if map_of (activeNotifications n) root = None then 0 else 1))"

lemma notifier_invI:
  assumes "\<And>root st. map_of (activeNotifications n) root = Some st \<Longrightarrow> ns_pending st \<noteq> [] \<and> distinct (ns_pending st)"
    and "\<And>root. length (filter (\<lambda>c. c = (root, Started)) (handler_calls n)) =
        length (filter (\<lambda>c. c = (root, DoneCalled)) (handler_calls n)) +
        (if map_of (activeNotifications n) root = None then 0 else 1)"
  shows "notifier_inv n"
  using assms by (simp add: notifier_inv_def)

lemma notifier_inv_new: "notifier_inv NewIndexNotifier"
  by (simp add: notifier_inv_def NewIndexNotifier_def)

lemma notifier_inv_track:
  assumes "notifier_inv n"
  shows "notifier_inv (snd (trackFileInternal start n root f showProgress))"
proof (cases "map_of (activeNotifications n) root")
  case (Some st)
  with assms show ?thesis
    by (auto simp: trackFileInternal_def notifier_inv_def Let_def notifyProgress_def send_message_def update_conv'
        List.insert_def split: if_splits)
next
  case None
  with assms show ?thesis
    by (cases "start root") (auto simp: trackFileInternal_def notifier_inv_def Let_def notifyProgress_def send_message_def
        update_conv' split: if_splits)
qed

lemma notifier_inv_complete:
  assumes "notifier_inv n"
  shows "notifier_inv (snd (NotifyComplete n root f status))"
proof (cases "map_of (activeNotifications n) root")
  case (Some st)
  with assms have st: "distinct (ns_pending st)" by (auto simp: notifier_inv_def)
  show ?thesis
  proof (rule notifier_invI)
    fix root' st'
    assume "map_of (activeNotifications (snd (NotifyComplete n root f status))) root' = Some st'"
    with assms Some st show "ns_pending st' \<noteq> [] \<and> distinct (ns_pending st')"
      by (auto simp: NotifyComplete_def Let_def notifyProgress_def send_message_def delete_conv' update_conv'
          notifier_inv_def distinct_remove1 split: if_splits)
  next
    fix root'
    show "length (filter (\<lambda>c. c = (root', Started)) (handler_calls (snd (NotifyComplete n root f status)))) =
        length (filter (\<lambda>c. c = (root', DoneCalled)) (handler_calls (snd (NotifyComplete n root f status)))) +
        (if map_of (activeNotifications (snd (NotifyComplete n root f status))) root' = None then 0 else 1)"
      using assms Some
      by (auto simp: NotifyComplete_def Let_def notifyProgress_def send_message_def delete_conv' update_conv' notifier_inv_def)
  qed
qed (use assms in \<open>simp add: NotifyComplete_def\<close>)

subsection \<open>A batch of files\<close>

text \<open>
  Loading a batch: every file is tracked, then started and completed, in any order in which a file is started before it
  is completed and completed once.
\<close>

datatype load_event = LoadStart gostring | LoadComplete gostring load_status

definition load_step :: "(gostring \<Rightarrow> unit outcome) \<Rightarrow> gostring \<Rightarrow> load_event \<Rightarrow> index_notifier \<Rightarrow> index_notifier" where
  "load_step start root e n =
     (case e of LoadStart f \<Rightarrow> snd (NotifyStart start n root f) | LoadComplete f s \<Rightarrow> snd (NotifyComplete n root f s))"

definition completed :: "load_event list \<Rightarrow> gostring list" where
  "completed es = List.map_filter (\<lambda>e. case e of LoadComplete f s \<Rightarrow> Some f | LoadStart f \<Rightarrow> None) es"

text \<open>No file is started after it was completed.\<close>

fun orderly :: "load_event list \<Rightarrow> bool" where
  "orderly [] = True"
| "orderly (LoadStart f # es) = orderly es"
| "orderly (LoadComplete f s # es) = (LoadStart f \<notin> set es \<and> orderly es)"

lemma track_existing:
  assumes "map_of (activeNotifications n) root = Some st" and "f \<in> set (ns_pending st)"
  shows "map_of (activeNotifications (snd (trackFileInternal start n root f p))) root = Some st \<and>
    filter (\<lambda>c. c = (root, DoneCalled)) (handler_calls (snd (trackFileInternal start n root f p))) =
      filter (\<lambda>c. c = (root, DoneCalled)) (handler_calls n)"
  using assms by (auto simp: trackFileInternal_def Let_def notifyProgress_def send_message_def update_conv' insert_absorb List.insert_def)

text \<open>While files are left to complete, the notification stays; the last one completes it.\<close>

lemma load_batch:
  assumes "map_of (activeNotifications n) root = Some \<lparr>ns_processed = k, ns_pending = ps\<rparr>" and "distinct ps"
    and "set (completed es) = set ps" and "distinct (completed es)" and "ps \<noteq> []" and "orderly es"
    and "\<forall>f. LoadStart f \<in> set es \<longrightarrow> f \<in> set ps"
  shows "\<exists>cs. map_of (activeNotifications (fold (load_step start root) es n)) root = None \<and>
    handler_calls (fold (load_step start root) es n) =
      cs @ [(root, Sent ''Completed loading indices (%d files)'' [FInt (int (k + length ps))]), (root, DoneCalled)]"
  using assms
proof (induction es arbitrary: n k ps)
  case (Cons e es)
  show ?case
  proof (cases e)
    case (LoadStart f)
    with Cons.prems have f: "f \<in> set ps" by simp
    let ?n = "snd (NotifyStart start n root f)"
    have "map_of (activeNotifications ?n) root = Some \<lparr>ns_processed = k, ns_pending = ps\<rparr>"
      using track_existing [OF Cons.prems(1), of f] f by (simp add: NotifyStart_def)
    moreover have "set (completed es) = set ps" "distinct (completed es)" "orderly es" "\<forall>f. LoadStart f \<in> set es \<longrightarrow> f \<in> set ps"
      using Cons.prems LoadStart by (auto simp: completed_def map_filter_simps)
    ultimately show ?thesis using Cons.IH [of ?n k ps] Cons.prems(2,5) LoadStart by (simp add: load_step_def)
  next
    case (LoadComplete f s)
    have comp: "completed (e # es) = f # completed es" using LoadComplete by (simp add: completed_def map_filter_simps)
    with Cons.prems have f: "f \<in> set ps" "set (completed es) = set (remove1 f ps)" "distinct (completed es)"
      by auto
    let ?n = "snd (NotifyComplete n root f s)"
    show ?thesis
    proof (cases "remove1 f ps = []")
      case True
      with f(2) have "completed es = []" by simp
      have "length ps = 1" using True f(1) length_remove1 [of f ps] by (cases ps) auto
      have "e' \<in> set es \<Longrightarrow> \<exists>f'. e' = LoadStart f' \<and> f' \<in> set ps \<and> f' \<noteq> f" for e'
        using Cons.prems(6,7) \<open>completed es = []\<close> LoadComplete by (cases e') (auto simp: completed_def map_filter_def filter_empty_conv)
      moreover have "set ps = {f}" using True f(1) Cons.prems(2) set_remove1_eq [of ps f] by auto
      ultimately have "es = []" by (metis last_in_set singletonD)
      with True Cons.prems(1) \<open>length ps = 1\<close> LoadComplete show ?thesis
        by (simp add: load_step_def NotifyComplete_def Let_def send_message_def notifyProgress_def delete_conv')
    next
      case False
      have "map_of (activeNotifications ?n) root = Some \<lparr>ns_processed = k + 1, ns_pending = remove1 f ps\<rparr>"
        using Cons.prems(1) False by (simp add: NotifyComplete_def Let_def send_message_def notifyProgress_def update_conv')
      moreover have "\<forall>f'. LoadStart f' \<in> set es \<longrightarrow> f' \<in> set (remove1 f ps)"
        using Cons.prems(2,6,7) LoadComplete by auto
      ultimately have "\<exists>cs. map_of (activeNotifications (fold (load_step start root) es ?n)) root = None \<and>
          handler_calls (fold (load_step start root) es ?n) =
            cs @ [(root, Sent ''Completed loading indices (%d files)'' [FInt (int (k + 1 + length (remove1 f ps)))]), (root, DoneCalled)]"
        using Cons.prems(2,6) f False LoadComplete by (intro Cons.IH) auto
      moreover have "k + 1 + length (remove1 f ps) = k + length ps"
        using f(1) by (simp add: length_remove1) (cases ps; simp)
      moreover have "fold (load_step start root) (e # es) n = fold (load_step start root) es ?n"
        using LoadComplete by (simp add: load_step_def)
      ultimately show ?thesis by (simp only:)
    qed
  qed
qed (simp add: completed_def map_filter_simps)
text \<open>Tracking the files of a batch makes exactly them pending.\<close>

lemma track_all:
  assumes "map_of (activeNotifications n) root = Some \<lparr>ns_processed = k, ns_pending = ps\<rparr>"
  shows "\<exists>qs. map_of (activeNotifications (fold (\<lambda>f n. snd (TrackFile start n root f)) fs n)) root =
      Some \<lparr>ns_processed = k, ns_pending = qs\<rparr> \<and> set qs = set ps \<union> set fs \<and> (distinct ps \<longrightarrow> distinct qs)"
  using assms
proof (induction fs arbitrary: n ps)
  case (Cons f fs)
  let ?n = "snd (TrackFile start n root f)"
  have "map_of (activeNotifications ?n) root = Some \<lparr>ns_processed = k, ns_pending = List.insert f ps\<rparr>"
    using Cons.prems by (simp add: TrackFile_def trackFileInternal_def Let_def update_conv')
  from Cons.IH [OF this] show ?case by auto
qed simp

lemma notifier_inv_track_all:
  assumes "notifier_inv n"
  shows "notifier_inv (fold (\<lambda>f n. snd (TrackFile start n root f)) fs n)"
  using assms by (induction fs arbitrary: n) (simp_all add: TrackFile_def notifier_inv_track)

lemma notifier_inv_load_steps:
  assumes "notifier_inv n"
  shows "notifier_inv (fold (load_step start root) es n)"
  using assms
  by (induction es arbitrary: n)
     (simp_all add: NotifyStart_def load_step_def notifier_inv_track notifier_inv_complete split: load_event.splits)

text \<open>
  C29. The progress of a batch of index files: once every file was tracked, whatever the order in which the loads start
  and finish and whether they succeed, the notification of the workspace ends exactly with the last file, reports the
  number of files loaded, and every notification handler that was started is done.
\<close>

theorem batch_reported:
  assumes "notifier_inv n" and "map_of (activeNotifications n) root = None" and "start root = Ok ()"
    and "fs \<noteq> []" and "distinct (completed es)" and "set (completed es) = set fs" and "orderly es"
    and "\<forall>f. LoadStart f \<in> set es \<longrightarrow> f \<in> set fs"
  shows "let n' = fold (load_step start root) es (fold (\<lambda>f n. snd (TrackFile start n root f)) fs n)
    in map_of (activeNotifications n') root = None \<and>
       (\<exists>cs. handler_calls n' =
          cs @ [(root, Sent ''Completed loading indices (%d files)'' [FInt (int (card (set fs)))]), (root, DoneCalled)]) \<and>
       length (filter (\<lambda>c. c = (root, Started)) (handler_calls n')) =
         length (filter (\<lambda>c. c = (root, DoneCalled)) (handler_calls n'))"
proof -
  obtain f fs' where fs: "fs = f # fs'" using assms(4) by (cases fs) auto
  let ?track = "\<lambda>fs n. fold (\<lambda>f n. snd (TrackFile start n root f)) fs n"
  let ?n = "?track fs n"
  have "map_of (activeNotifications (snd (TrackFile start n root f))) root = Some \<lparr>ns_processed = 0, ns_pending = [f]\<rparr>"
    using assms(2,3) by (simp add: TrackFile_def trackFileInternal_def Let_def update_conv')
  from track_all [OF this, of start fs'] obtain qs where qs:
    "map_of (activeNotifications ?n) root = Some \<lparr>ns_processed = 0, ns_pending = qs\<rparr>" "set qs = set fs" "distinct qs"
    using fs by auto
  have "length qs = card (set fs)" using qs distinct_card by metis
  moreover have "notifier_inv (fold (load_step start root) es ?n)" using assms(1) by (intro notifier_inv_load_steps notifier_inv_track_all)
  moreover have "\<exists>cs. map_of (activeNotifications (fold (load_step start root) es ?n)) root = None \<and>
    handler_calls (fold (load_step start root) es ?n) =
      cs @ [(root, Sent ''Completed loading indices (%d files)'' [FInt (int (0 + length qs))]), (root, DoneCalled)]"
    using qs assms(4-8) by (intro load_batch) auto
  ultimately show ?thesis by (simp add: Let_def notifier_inv_def)
qed

theorem batch_reported_witness:
  "map_of (activeNotifications (fold (load_step (\<lambda>r. Ok ()) ''/ws'') [LoadStart ''a'', LoadStart ''b'', LoadComplete ''b'' IndexLoadError,
     LoadComplete ''a'' IndexLoadSuccess] (fold (\<lambda>f n. snd (TrackFile (\<lambda>r. Ok ()) n ''/ws'' f)) [''a'', ''b''] NewIndexNotifier))) ''/ws'' = None"
  using batch_reported [OF notifier_inv_new, of "''/ws''" "\<lambda>r. Ok ()" "[''a'', ''b'']"
      "[LoadStart ''a'', LoadStart ''b'', LoadComplete ''b'' IndexLoadError, LoadComplete ''a'' IndexLoadSuccess]"]
  by (simp add: Let_def completed_def map_filter_simps NewIndexNotifier_def insert_commute)

lemma progress_percent_bound: "progress_percent st \<le> 100"
proof (cases "length (ns_pending st) + ns_processed st = 0")
  case False
  have "ns_processed st * 100 div (length (ns_pending st) + ns_processed st) \<le>
    100 * (length (ns_pending st) + ns_processed st) div (length (ns_pending st) + ns_processed st)"
    by (rule div_le_mono) simp
  also have "\<dots> = 100" using False by (intro nonzero_mult_div_cancel_right)
  finally show ?thesis by (simp add: progress_percent_def Let_def)
qed (simp add: progress_percent_def Let_def)

end
