(* ===== verification/ScipController.thy ===== *)
theory ScipController
  imports DocSyncSpec Diagnostics IndexNotifier UlspRegistry
begin

text \<open>
  \<^verbatim>\<open>src/ulsp/controller/scip/scip.go\<close>: the plugin that answers navigation requests from the index. It keeps one registry
  per workspace, loads index files from the configured directories, reloads those that change, and translates
  positions between the text that was indexed and the text in the editor.

  The operations change the state in \<open>op\<close>'s style: \<open>None\<close> is a call that never returns. The document-loaded callback of a
  registry is run for the documents a registry call has loaded when that call ends; the registry reads nothing the
  callback writes. A goroutine that loads a file, and a timer's function, is one step; the order in which goroutines
  finish and in which Go ranges over a map are arguments. Sessions, the file system, the watcher and the manager of
  notifications are in the environment.
\<close>

subsection \<open>State\<close>

record scip_config =
  Directories :: "gostring list"
  LoadFromDirectories :: bool

record ('p, 'c) scip_env =
  env_sessions :: "('p, 'c) repository"
  env_configs :: "(gostring \<times> scip_config) list"
  env_lib :: libs
  env_api :: "partial_index index_api"
  env_diff :: diff_main
  env_ReadDir :: "gostring \<Rightarrow> gostring list outcome"
  env_ReadFile :: "gostring \<Rightarrow> gostring outcome"
  env_MkdirAll :: "gostring \<Rightarrow> unit outcome"
  env_watcher :: bool
  env_Watch :: "gostring \<Rightarrow> unit outcome"
  env_Start :: "gostring \<Rightarrow> unit outcome"
  env_gateway :: bool
  env_NumCPU :: nat

datatype scip_message = FailedToLoad ctx "gostring list" | FailedToReload gostring go_error

record scip_ctrl =
  registries :: "(gostring \<times> registry \<times> partial_index) list"
  loadedIndices :: "(gostring \<times> gostring) list"
  indexNotifier :: index_notifier
  scip_documents :: doc_sync
  scip_diagnostics :: diagnostics_ctrl
  debounceTimers :: "gostring list"
  watched :: "gostring list"
  watch_loop :: bool
  shown_messages :: "scip_message list"

type_synonym 'a scip_op = "('a, scip_ctrl) op"

definition NewScip :: "doc_sync \<Rightarrow> diagnostics_ctrl \<Rightarrow> scip_ctrl" where
  "NewScip docs diags =
     \<lparr>registries = [], loadedIndices = [], indexNotifier = NewIndexNotifier, scip_documents = docs, scip_diagnostics = diags,
      debounceTimers = [], watched = [], watch_loop = False, shown_messages = []\<rparr>"

definition scipExt :: gostring where "scipExt = ''.scip''"

definition shaExt :: gostring where "shaExt = ''.sha256''"

definition noHash :: gostring where "noHash = ''nohash''"

definition op_update :: "(scip_ctrl \<Rightarrow> scip_ctrl) \<Rightarrow> unit scip_op" where
  "op_update f c = Some (Ok (), f c)"

definition docs_op :: "(doc_sync \<Rightarrow> 'a ds_result) \<Rightarrow> 'a scip_op" where
  "docs_op f c = (case f (scip_documents c) of (r, docs) \<Rightarrow> Some (r, c\<lparr>scip_documents := docs\<rparr>))"

definition notify_op :: "(index_notifier \<Rightarrow> unit outcome \<times> index_notifier) \<Rightarrow> unit scip_op" where
  "notify_op f = op_update (\<lambda>c. c\<lparr>indexNotifier := snd (f (indexNotifier c))\<rparr>)"

text \<open>The prologue of every handler: the session, and nothing to do without a registry for its workspace.\<close>

definition with_registry :: "('p, 'c) scip_env \<Rightarrow> ctx \<Rightarrow> 'a \<Rightarrow> (gostring \<Rightarrow> 'a scip_op) \<Rightarrow> 'a scip_op" where
  "with_registry env cx nothing k =
     op_bind (op_outcome (GetFromContext (env_sessions env) cx)) (\<lambda>s c.
       if map_of (registries c) (ses_WorkspaceRoot s) = None then op_return nothing c
       else k (ses_WorkspaceRoot s) c)"

subsection \<open>Registries\<close>

definition config_dirs :: "('p, 'c) scip_env \<Rightarrow> gostring \<Rightarrow> gostring list" where
  "config_dirs env monorepo = (case map_of (env_configs env) monorepo of None \<Rightarrow> [] | Some cfg \<Rightarrow> Directories cfg)"

text \<open>\<^verbatim>\<open>path.Join(workspaceRoot, dirs[0])\<close>\<close>

definition first_dir :: "gostring \<Rightarrow> gostring list \<Rightarrow> gostring outcome" where
  "first_dir root dirs = (case dirs of [] \<Rightarrow> Panic | d # ds \<Rightarrow> Ok (path_Join [root, d]))"

definition createNewScipRegistry ::
  "('p, 'c) scip_env \<Rightarrow> gostring \<Rightarrow> gostring \<Rightarrow> (registry \<times> partial_index) outcome" where
  "createNewScipRegistry env root monorepo =
     obind (if 0 < length (config_dirs env monorepo) then first_dir root (config_dirs env ''_default'')
            else Ok (path_Join [root, scipExt])) (\<lambda>indexFolder.
     obind (if 0 < length (config_dirs env monorepo) then first_dir root (config_dirs env monorepo)
            else Ok indexFolder) (\<lambda>indexFolder.
       Ok (\<lparr>WorkspaceRoot = root, IndexFolder = indexFolder\<rparr>, NewPartialLoadedIndex indexFolder)))"

text \<open>The callback set on a registry, for every document a call has loaded.\<close>

fun documents_loaded :: "('p, 'c) scip_env \<Rightarrow> gostring \<Rightarrow> registry \<Rightarrow> document list \<Rightarrow> scip_ctrl \<Rightarrow> scip_ctrl" where
  "documents_loaded env root reg [] c = c"
| "documents_loaded env root reg (doc # docs) c =
     (let docURI = GetURI_ulsp (env_lib env) reg (RelativePath doc);
          c1 = c\<lparr>scip_diagnostics := ApplyDiagnostics (env_sessions env) root docURI (doc_Diagnostics doc) (scip_diagnostics c)\<rparr>
      in documents_loaded env root reg docs
           (c1\<lparr>scip_documents := snd (ResetBase (env_sessions env) (scip_documents c1) root docURI)\<rparr>))"

text \<open>A call of the registry of a workspace; a nil registry panics.\<close>

definition registry_call ::
  "('p, 'c) scip_env \<Rightarrow> gostring \<Rightarrow> (registry \<Rightarrow> ('a, partial_index) op) \<Rightarrow> 'a scip_op" where
  "registry_call env root f c =
     (case map_of (registries c) root of
        None \<Rightarrow> Some (Panic, c)
      | Some (reg, idx) \<Rightarrow>
          (case f reg idx of
             None \<Rightarrow> None
           | Some (r, idx') \<Rightarrow>
               Some (r, documents_loaded env root reg (drop (length (loaded_log idx)) (loaded_log idx'))
                         (c\<lparr>registries := AList.update root (reg, idx') (registries c)\<rparr>))))"

fun status_outcome :: "status \<Rightarrow> unit outcome" where
  "status_outcome Done = Ok ()"
| "status_outcome (Failed e) = Fail e"
| "status_outcome Panicked = Panic"

text \<open>\<^verbatim>\<open>c.registries[s.WorkspaceRoot]\<close> for the root given, or that of the session when it is empty.\<close>

definition root_or_session :: "('p, 'c) scip_env \<Rightarrow> ctx \<Rightarrow> gostring \<Rightarrow> gostring outcome" where
  "root_or_session env cx root =
     (if root = [] then obind (GetFromContext (env_sessions env) cx) (\<lambda>s. Ok (ses_WorkspaceRoot s)) else Ok root)"

definition scip_GetDocumentSymbols ::
  "('p, 'c) scip_env \<Rightarrow> ctx \<Rightarrow> gostring \<Rightarrow> uri \<Rightarrow> symbol_occurrence list option scip_op" where
  "scip_GetDocumentSymbols env cx workspaceRoot u =
     op_bind (op_outcome (root_or_session env cx workspaceRoot)) (\<lambda>root c.
       if map_of (registries c) root = None then op_return None c
       else registry_call env root (\<lambda>reg. DocumentSymbols_ulsp (env_lib env) reg (env_api env) u) c)"

definition scip_GetSymbolDefinitionOccurrence ::
  "('p, 'c) scip_env \<Rightarrow> ctx \<Rightarrow> gostring \<Rightarrow> descriptor list \<Rightarrow> gostring \<Rightarrow> symbol_occurrence option scip_op" where
  "scip_GetSymbolDefinitionOccurrence env cx workspaceRoot descriptors version =
     op_bind (op_outcome (root_or_session env cx workspaceRoot)) (\<lambda>root c.
       if map_of (registries c) root = None then op_return None c
       else registry_call env root (\<lambda>reg. GetSymbolDefinitionOccurrence_ulsp (env_lib env) reg (env_api env) descriptors version) c)"

subsection \<open>Loading index files\<close>

definition getSha :: "('p, 'c) scip_env \<Rightarrow> gostring \<Rightarrow> (gostring \<times> go_error option) outcome" where
  "getSha env scipFile =
     (case env_ReadFile env (scipFile @ shaExt) of
        Ok sha \<Rightarrow> Ok (sha, None)
      | Fail e \<Rightarrow> Ok (noHash, Some e)
      | Panic \<Rightarrow> Panic)"

definition loadScipFile :: "('p, 'c) scip_env \<Rightarrow> gostring \<Rightarrow> gostring \<Rightarrow> gostring \<Rightarrow> gostring scip_op" where
  "loadScipFile env root scipPath loadedSha =
     op_bind (op_outcome (getSha env scipPath)) (\<lambda>(curSha, _).
       if curSha = loadedSha then op_return curSha
       else op_bind (registry_call env root (\<lambda>reg idx.
                case LoadIndexFile_ulsp (env_api env) scipPath idx of
                  None \<Rightarrow> None
                | Some (st, idx') \<Rightarrow> Some (status_outcome st, idx'))) (\<lambda>_. op_return curSha))"

definition loaded_sha :: "scip_ctrl \<Rightarrow> gostring \<Rightarrow> gostring" where
  "loaded_sha c f = (case map_of (loadedIndices c) f of None \<Rightarrow> [] | Some sha \<Rightarrow> sha)"

text \<open>Load a file and report it, as the goroutines of \<^verbatim>\<open>loadFromDirectories\<close> do.\<close>

definition load_and_report ::
  "('p, 'c) scip_env \<Rightarrow> gostring \<Rightarrow> gostring \<Rightarrow> gostring \<Rightarrow> go_error option scip_op" where
  "load_and_report env root fPath loadedSha =
     op_bind (notify_op (\<lambda>n. NotifyStart (env_Start env) n root fPath)) (\<lambda>_ c.
       case loadScipFile env root fPath loadedSha c of
         None \<Rightarrow> None
       | Some (Panic, c1) \<Rightarrow> Some (Panic, c1)
       | Some (Ok sha, c1) \<Rightarrow>
           op_bind (op_update (\<lambda>c. c\<lparr>loadedIndices := AList.update fPath sha (loadedIndices c)\<rparr>)) (\<lambda>_.
             op_bind (notify_op (\<lambda>n. NotifyComplete n root fPath IndexLoadSuccess)) (\<lambda>_. op_return None)) c1
       | Some (Fail e, c1) \<Rightarrow>
           op_bind (notify_op (\<lambda>n. NotifyComplete n root fPath IndexLoadError)) (\<lambda>_. op_return (Some e)) c1)"

fun load_files ::
  "('p, 'c) scip_env \<Rightarrow> gostring \<Rightarrow> (gostring \<times> gostring) list \<Rightarrow> gostring list \<Rightarrow> gostring list scip_op" where
  "load_files env root [] failed = op_return failed"
| "load_files env root ((fPath, loadedSha) # files) failed =
     op_bind (load_and_report env root fPath loadedSha) (\<lambda>err.
       load_files env root files (if err \<noteq> None then failed @ [fPath] else failed))"

fun track_files :: "('p, 'c) scip_env \<Rightarrow> gostring \<Rightarrow> gostring list \<Rightarrow> unit scip_op" where
  "track_files env root [] = op_return ()"
| "track_files env root (f # fs) =
     op_bind (notify_op (\<lambda>n. TrackFile (env_Start env) n root f)) (\<lambda>_. track_files env root fs)"

definition index_paths :: "gostring \<Rightarrow> gostring list \<Rightarrow> gostring list" where
  "index_paths fDir names = map (\<lambda>name. path_Join [fDir, name]) (filter (suffix scipExt) names)"

text \<open>
  \<^verbatim>\<open>sem <- struct{}{}\<close> blocks on a channel without room and without a receiver. \<open>order\<close> is the order in which the
  goroutines run.
\<close>

definition load_directory ::
  "('p, 'c) scip_env \<Rightarrow> ((gostring \<times> gostring) list \<Rightarrow> (gostring \<times> gostring) list) \<Rightarrow> gostring \<Rightarrow> gostring \<Rightarrow> gostring list \<Rightarrow>
   gostring list scip_op" where
  "load_directory env order root fDir failed =
     (case env_ReadDir env fDir of
        Panic \<Rightarrow> op_outcome Panic
      | Fail e \<Rightarrow> op_return failed
      | Ok names \<Rightarrow>
          (\<lambda>c. let files = map (\<lambda>f. (f, loaded_sha c f)) (index_paths fDir names)
           in op_bind (track_files env root (index_paths fDir names)) (\<lambda>_.
                if files \<noteq> [] \<and> LoadConcurrency_ulsp (env_NumCPU env) = 0 then (\<lambda>c. None)
                else op_bind (load_files env root (order files) failed) (\<lambda>failed.
                  if env_watcher env
                  then op_bind (op_update (\<lambda>c. if env_Watch env fDir = Ok () then c\<lparr>watched := watched c @ [fDir]\<rparr> else c))
                         (\<lambda>_. op_return failed)
                  else op_return failed)) c))"

fun load_directories ::
  "('p, 'c) scip_env \<Rightarrow> ((gostring \<times> gostring) list \<Rightarrow> (gostring \<times> gostring) list) \<Rightarrow> gostring \<Rightarrow> gostring list \<Rightarrow>
   gostring list \<Rightarrow> gostring list scip_op" where
  "load_directories env order root [] failed = op_return failed"
| "load_directories env order root (d # dirs) failed =
     op_bind (load_directory env order root (path_Join [root, d]) failed) (\<lambda>failed. load_directories env order root dirs failed)"

definition ensure_registry :: "('p, 'c) scip_env \<Rightarrow> ('p, 'c) session \<Rightarrow> unit scip_op" where
  "ensure_registry env s c =
     (if map_of (registries c) (ses_WorkspaceRoot s) = None
      then op_bind (op_outcome (createNewScipRegistry env (ses_WorkspaceRoot s) (ses_Monorepo s))) (\<lambda>reg.
             op_update (\<lambda>c. c\<lparr>registries := AList.update (ses_WorkspaceRoot s) reg (registries c)\<rparr>)) c
      else op_return () c)"

definition loadFromDirectories ::
  "('p, 'c) scip_env \<Rightarrow> ((gostring \<times> gostring) list \<Rightarrow> (gostring \<times> gostring) list) \<Rightarrow> ctx \<Rightarrow> gostring list \<Rightarrow>
   gostring list scip_op" where
  "loadFromDirectories env order cx dirs =
     op_bind (op_outcome (GetFromContext (env_sessions env) cx)) (\<lambda>s.
     op_bind (ensure_registry env s) (\<lambda>_.
     op_bind (load_directories env order (ses_WorkspaceRoot s) dirs []) (\<lambda>failed.
     op_bind (op_update (\<lambda>c. if 0 < length failed \<and> env_gateway env
                              then c\<lparr>shown_messages := shown_messages c @ [FailedToLoad cx failed]\<rparr> else c)) (\<lambda>_.
       op_return failed))))"

definition loadIndices ::
  "('p, 'c) scip_env \<Rightarrow> ((gostring \<times> gostring) list \<Rightarrow> (gostring \<times> gostring) list) \<Rightarrow> ctx \<Rightarrow> ('p, 'c) session \<Rightarrow> unit scip_op" where
  "loadIndices env order cx s =
     (let load = (\<lambda>cfg. if LoadFromDirectories cfg
                        then op_bind (loadFromDirectories env order cx (Directories cfg)) (\<lambda>_. op_return ())
                        else op_return ())
      in case map_of (env_configs env) (ses_Monorepo s) of
           Some cfg \<Rightarrow> load cfg
         | None \<Rightarrow> (case map_of (env_configs env) ''_default'' of Some cfg \<Rightarrow> load cfg | None \<Rightarrow> op_return ()))"

fun watch_directories :: "('p, 'c) scip_env \<Rightarrow> gostring \<Rightarrow> gostring list \<Rightarrow> unit scip_op" where
  "watch_directories env root [] = op_return ()"
| "watch_directories env root (d # ds) =
     op_bind (op_outcome (env_MkdirAll env (path_Join [root, d]))) (\<lambda>_.
     op_bind (op_outcome (env_Watch env (path_Join [root, d]))) (\<lambda>_.
     op_bind (op_update (\<lambda>c. c\<lparr>watched := watched c @ [path_Join [root, d]]\<rparr>)) (\<lambda>_.
       watch_directories env root ds)))"

definition scip_initialized ::
  "('p, 'c) scip_env \<Rightarrow> ((gostring \<times> gostring) list \<Rightarrow> (gostring \<times> gostring) list) \<Rightarrow> ctx \<Rightarrow> unit scip_op" where
  "scip_initialized env order cx =
     op_bind (op_outcome (GetFromContext (env_sessions env) cx)) (\<lambda>s c.
       let hasIndex = (map_of (registries c) (ses_WorkspaceRoot s) \<noteq> None)
       in op_bind (op_update (\<lambda>c. c\<lparr>watch_loop := True\<rparr>)) (\<lambda>_.
            if env_watcher env \<and> map_of (env_configs env) (ses_Monorepo s) = None then op_return ()
            else op_bind (if env_watcher env
                          then watch_directories env (ses_WorkspaceRoot s) (config_dirs env (ses_Monorepo s))
                          else op_return ()) (\<lambda>_.
                   if hasIndex then op_return () else loadIndices env order cx s)) c)"

subsection \<open>Changes of index files\<close>

text \<open>\<open>order\<close> is the order in which Go ranges over the keys of \<^verbatim>\<open>c.registries\<close>.\<close>

definition handleDebounce :: "('p, 'c) scip_env \<Rightarrow> gostring list \<Rightarrow> gostring \<Rightarrow> unit scip_op" where
  "handleDebounce env order name =
     (if \<not> suffix scipExt name then op_return ()
      else op_bind (case find (\<lambda>ws. prefix ws name) order of
                      Some ws \<Rightarrow> notify_op (\<lambda>n. TrackFile (env_Start env) n ws name)
                    | None \<Rightarrow> op_return ()) (\<lambda>_.
             op_update (\<lambda>c. c\<lparr>debounceTimers := List.insert name (debounceTimers c)\<rparr>)))"

text \<open>
  The function of a debounce timer runs in a goroutine of its own: it removes the entry of the timer, chooses the workspace and starts its notification,
  loads the file, completes the notification, and shows an error. The lock of the timers is held only for the first step, that of the
  registries for the three of \<^verbatim>\<open>reloadIndex\<close>.
\<close>

definition debounce_remove :: "gostring \<Rightarrow> scip_ctrl \<Rightarrow> scip_ctrl" where
  "debounce_remove name c = c\<lparr>debounceTimers := remove1 name (debounceTimers c)\<rparr>"

definition reload_start :: "('p, 'c) scip_env \<Rightarrow> gostring list \<Rightarrow> gostring \<Rightarrow> gostring option scip_op" where
  "reload_start env order name =
     (case find (\<lambda>ws. prefix ws name \<and> suffix scipExt name) order of
        None \<Rightarrow> op_return None
      | Some ws \<Rightarrow> op_bind (notify_op (\<lambda>n. NotifyStart (env_Start env) n ws name)) (\<lambda>_. op_return (Some ws)))"

definition reload_load :: "('p, 'c) scip_env \<Rightarrow> gostring \<Rightarrow> gostring \<Rightarrow> go_error option scip_op" where
  "reload_load env ws name c =
     (case loadScipFile env ws name (loaded_sha c name) c of
        None \<Rightarrow> None
      | Some (Panic, c1) \<Rightarrow> Some (Panic, c1)
      | Some (Ok sha, c1) \<Rightarrow> Some (Ok None, c1\<lparr>loadedIndices := AList.update name sha (loadedIndices c1)\<rparr>)
      | Some (Fail e, c1) \<Rightarrow> Some (Ok (Some e), c1))"

definition reload_complete :: "gostring \<Rightarrow> gostring \<Rightarrow> go_error option \<Rightarrow> unit scip_op" where
  "reload_complete ws name err =
     op_bind (notify_op (\<lambda>n. NotifyComplete n ws name (if err = None then IndexLoadSuccess else IndexLoadError))) (\<lambda>_.
       op_outcome (case err of None \<Rightarrow> Ok () | Some e \<Rightarrow> Fail e))"

definition reloadIndex :: "('p, 'c) scip_env \<Rightarrow> gostring list \<Rightarrow> gostring \<Rightarrow> unit scip_op" where
  "reloadIndex env order name =
     op_bind (reload_start env order name) (\<lambda>found.
       case found of
         None \<Rightarrow> op_return ()
       | Some ws \<Rightarrow> op_bind (reload_load env ws name) (reload_complete ws name))"

definition reload_failed :: "('p, 'c) scip_env \<Rightarrow> gostring \<Rightarrow> go_error \<Rightarrow> scip_ctrl \<Rightarrow> scip_ctrl" where
  "reload_failed env name e c = (if env_gateway env then c\<lparr>shown_messages := shown_messages c @ [FailedToReload name e]\<rparr> else c)"

definition debounce_fired :: "('p, 'c) scip_env \<Rightarrow> gostring list \<Rightarrow> gostring \<Rightarrow> unit scip_op" where
  "debounce_fired env order name c =
     (case reloadIndex env order name (debounce_remove name c) of
        Some (Fail e, c1) \<Rightarrow> Some (Ok (), reload_failed env name e c1)
      | r \<Rightarrow> r)"

datatype watch_event = FsEvent gostring bool bool | WatchError go_error | CloseWatch

text \<open>One turn of the loop of \<^verbatim>\<open>handleChanges\<close>; \<open>FsEvent name create write\<close> says which operations the event has.\<close>

definition handle_change :: "('p, 'c) scip_env \<Rightarrow> gostring list \<Rightarrow> watch_event \<Rightarrow> unit scip_op" where
  "handle_change env order ev =
     (case ev of
        FsEvent name create write \<Rightarrow> if \<not> create \<and> \<not> write then op_return () else handleDebounce env order name
      | WatchError e \<Rightarrow> op_return ()
      | CloseWatch \<Rightarrow> op_update (\<lambda>c. c\<lparr>debounceTimers := [], watch_loop := False, watched := []\<rparr>))"

subsection \<open>Requests\<close>

definition scip_didOpen :: "('p, 'c) scip_env \<Rightarrow> ctx \<Rightarrow> uri \<Rightarrow> unit scip_op" where
  "scip_didOpen env cx u =
     with_registry env cx () (\<lambda>root c.
       case registry_call env root (\<lambda>reg. DidOpen_ulsp (env_lib env) reg (env_api env) u) c of
         Some (Fail e, c1) \<Rightarrow> Some (Ok (), c1)
       | r \<Rightarrow> r)"

definition getBasePosition :: "('p, 'c) scip_env \<Rightarrow> ctx \<Rightarrow> uri \<Rightarrow> position \<Rightarrow> position option scip_op" where
  "getBasePosition env cx doc pos c =
     (case docs_op (\<lambda>d. GetPositionMapper (env_diff env) (env_sessions env) cx d doc) c of
        Some (r, c1) \<Rightarrow>
          op_bind (op_outcome (wrap_err (Errorf ''getting position mapper: %w'' []) r)) (\<lambda>m.
            case m of
              None \<Rightarrow> op_return None
            | Some mapper \<Rightarrow>
                (case MapCurrentPositionToBase mapper pos of
                   (basePos, isNew, Some err) \<Rightarrow> op_outcome (Fail (Join (Errorf ''mapping position to base: %w'' []) err))
                 | (basePos, isNew, None) \<Rightarrow> op_return (if isNew then None else Some basePos))) c1
      | None \<Rightarrow> None)"

definition getLatestPosition :: "('p, 'c) scip_env \<Rightarrow> ctx \<Rightarrow> uri \<Rightarrow> position \<Rightarrow> position scip_op" where
  "getLatestPosition env cx doc pos c =
     (case docs_op (\<lambda>d. GetPositionMapper (env_diff env) (env_sessions env) cx d doc) c of
        Some (r, c1) \<Rightarrow>
          op_bind (op_outcome (wrap_err (Errorf ''getting position mapper: %w'' []) r)) (\<lambda>m.
            case m of
              None \<Rightarrow> op_return pos
            | Some mapper \<Rightarrow>
                (case MapBasePositionToCurrent mapper pos of
                   (latestPos, Some err) \<Rightarrow> op_outcome (Fail (Join (Errorf ''mapping position to current: %w'' []) err))
                 | (latestPos, None) \<Rightarrow> op_return latestPos)) c1
      | None \<Rightarrow> None)"

text \<open>An error of either end leaves the range as it is.\<close>

definition getLatestRange :: "('p, 'c) scip_env \<Rightarrow> ctx \<Rightarrow> uri \<Rightarrow> lsp_range \<Rightarrow> lsp_range scip_op" where
  "getLatestRange env cx doc rng c =
     (case getLatestPosition env cx doc (Start rng) c of
        Some (Fail e, c1) \<Rightarrow> op_return rng c1
      | r \<Rightarrow> op_bind (\<lambda>_. r) (\<lambda>latestStart c1.
          (case getLatestPosition env cx doc (End rng) c1 of
             Some (Fail e, c2) \<Rightarrow> op_return rng c2
           | r \<Rightarrow> op_bind (\<lambda>_. r) (\<lambda>latestEnd. op_return \<lparr>Start = latestStart, End = latestEnd\<rparr>) c1)) c)"

text \<open>The requests that need a position in the indexed text: nothing is answered for text that is new.\<close>

definition at_base_position ::
  "('p, 'c) scip_env \<Rightarrow> ctx \<Rightarrow> uri \<Rightarrow> position \<Rightarrow> 'a \<Rightarrow> (gostring \<Rightarrow> position \<Rightarrow> 'a scip_op) \<Rightarrow> 'a scip_op" where
  "at_base_position env cx u pos nothing k =
     with_registry env cx nothing (\<lambda>root.
       op_bind (getBasePosition env cx u pos) (\<lambda>mapped.
         case mapped of None \<Rightarrow> op_return nothing | Some p \<Rightarrow> k root p))"

text \<open>\<^verbatim>\<open>fmt.Errorf("...: %w", err)\<close> around the error of a call.\<close>

definition op_wrap :: "gostring \<Rightarrow> 'a scip_op \<Rightarrow> 'a scip_op" where
  "op_wrap fmt m c = (case m c of None \<Rightarrow> None | Some (r, c1) \<Rightarrow> Some (wrap_err (Errorf fmt []) r, c1))"

definition target_range :: "('p, 'c) scip_env \<Rightarrow> ctx \<Rightarrow> symbol_occurrence \<Rightarrow> lsp_range scip_op" where
  "target_range env cx definitionOcc =
     (case Occurrence definitionOcc of
        None \<Rightarrow> op_return zero_range
      | Some occ \<Rightarrow> getLatestRange env cx (Location definitionOcc) (ScipToProtocolRange (lib_range (env_lib env)) (Range occ)))"

definition origin_range :: "('p, 'c) scip_env \<Rightarrow> ctx \<Rightarrow> uri \<Rightarrow> symbol_occurrence \<Rightarrow> lsp_range scip_op" where
  "origin_range env cx u originOcc =
     (case Occurrence originOcc of
        None \<Rightarrow> op_outcome Panic
      | Some occ \<Rightarrow> getLatestRange env cx u (ScipToProtocolRange (lib_range (env_lib env)) (Range occ)))"

definition definition_links ::
  "('p, 'c) scip_env \<Rightarrow> ctx \<Rightarrow> uri \<Rightarrow> location_link list \<Rightarrow> (symbol_occurrence \<times> symbol_occurrence) option \<Rightarrow>
   location_link list scip_op" where
  "definition_links env cx u result found =
     (case found of
        None \<Rightarrow> op_return result
      | Some (originOcc, definitionOcc) \<Rightarrow>
          op_bind (target_range env cx definitionOcc) (\<lambda>target.
          op_bind (origin_range env cx u originOcc) (\<lambda>origin.
            op_return (result @ [\<lparr>OriginSelectionRange = Some origin, TargetURI = Location definitionOcc,
                                   TargetRange = target, TargetSelectionRange = target\<rparr>]))))"

definition gotoDefinition ::
  "('p, 'c) scip_env \<Rightarrow> ctx \<Rightarrow> uri \<Rightarrow> position \<Rightarrow> location_link list \<Rightarrow> location_link list scip_op" where
  "gotoDefinition env cx u pos result =
     at_base_position env cx u pos result (\<lambda>root mappedPosition.
       op_bind (op_wrap ''failed to get definition: %w''
           (registry_call env root (\<lambda>reg. Definition_ulsp (env_lib env) reg (env_api env) u mappedPosition)))
         (definition_links env cx u result))"

fun symbols_loop ::
  "('p, 'c) scip_env \<Rightarrow> ctx \<Rightarrow> uri \<Rightarrow> symbol_occurrence list \<Rightarrow> document_symbol list \<Rightarrow> document_symbol list scip_op" where
  "symbols_loop env cx u [] result = op_return result"
| "symbols_loop env cx u (so # sos) result =
     (case (Info so, Occurrence so) of
        (Some info, Some occ) \<Rightarrow>
          (let protocolSymbol = ScipSymbolInformationToDocumentSymbol (lib_range (env_lib env)) info occ
           in op_bind (getLatestRange env cx u (ds_Range protocolSymbol)) (\<lambda>range.
              op_bind (getLatestRange env cx u (ds_SelectionRange protocolSymbol)) (\<lambda>selection.
                symbols_loop env cx u sos (result @ [protocolSymbol\<lparr>ds_Range := range, ds_SelectionRange := selection\<rparr>]))))
      | _ \<Rightarrow> op_outcome Panic)"

definition scip_documentSymbol ::
  "('p, 'c) scip_env \<Rightarrow> ctx \<Rightarrow> uri \<Rightarrow> document_symbol list \<Rightarrow> document_symbol list scip_op" where
  "scip_documentSymbol env cx u result =
     with_registry env cx result (\<lambda>root.
       op_bind (op_wrap ''failed to get document symbol info: %w''
           (registry_call env root (\<lambda>reg. DocumentSymbols_ulsp (env_lib env) reg (env_api env) u))) (\<lambda>symbols.
         symbols_loop env cx u (case symbols of None \<Rightarrow> [] | Some ss \<Rightarrow> ss) result))"

record hover_result =
  hov_Range :: "lsp_range option"
  hov_Kind :: gostring
  hov_Value :: gostring

text \<open>A nil result is dereferenced, which panics.\<close>

definition hover_contents ::
  "('p, 'c) scip_env \<Rightarrow> ctx \<Rightarrow> uri \<Rightarrow> hover_result option \<Rightarrow> gostring \<times> occurrence option \<Rightarrow> hover_result option scip_op" where
  "hover_contents env cx u result found =
     (case found of (docs, occ) \<Rightarrow>
        if \<not> 0 < length docs then op_return result
        else case (occ, result) of
            (Some occ, Some h) \<Rightarrow>
              op_bind (case hov_Range h of
                         Some r \<Rightarrow> op_return r
                       | None \<Rightarrow> getLatestRange env cx u (ScipToProtocolRange (lib_range (env_lib env)) (Range occ))) (\<lambda>range.
                op_return (Some \<lparr>hov_Range = Some range, hov_Kind = ''markdown'',
                  hov_Value = (if hov_Value h \<noteq> [] then hov_Value h @ [CHR 0x0A] else hov_Value h) @ docs\<rparr>))
          | _ \<Rightarrow> op_outcome Panic)"

definition scip_hover ::
  "('p, 'c) scip_env \<Rightarrow> ctx \<Rightarrow> uri \<Rightarrow> position \<Rightarrow> hover_result option \<Rightarrow> hover_result option scip_op" where
  "scip_hover env cx u pos result =
     at_base_position env cx u pos result (\<lambda>root mappedPosition.
       op_bind (op_wrap ''failed to get hover info: %w''
           (registry_call env root (\<lambda>reg. Hover_ulsp (env_lib env) reg (env_api env) u mappedPosition)))
         (hover_contents env cx u result))"

fun latest_locations :: "('p, 'c) scip_env \<Rightarrow> ctx \<Rightarrow> location list \<Rightarrow> location list \<Rightarrow> location list scip_op" where
  "latest_locations env cx [] result = op_return result"
| "latest_locations env cx (ref # refs) result =
     op_bind (getLatestRange env cx (loc_URI ref) (loc_Range ref)) (\<lambda>r.
       latest_locations env cx refs (result @ [\<lparr>loc_URI = loc_URI ref, loc_Range = r\<rparr>]))"

definition scip_references ::
  "('p, 'c) scip_env \<Rightarrow> ctx \<Rightarrow> uri \<Rightarrow> position \<Rightarrow> location list \<Rightarrow> location list scip_op" where
  "scip_references env cx u pos result =
     at_base_position env cx u pos result (\<lambda>root mappedPosition.
       op_bind (op_wrap ''failed to get references: %w''
           (registry_call env root (\<lambda>reg. References_ulsp (env_lib env) reg (env_api env) u mappedPosition)))
         (\<lambda>refs. latest_locations env cx (case refs of None \<Rightarrow> [] | Some ls \<Rightarrow> ls) result))"

text \<open>The requests that are not implemented leave their result as it is.\<close>

definition gotoDeclaration :: "location_link list \<Rightarrow> location_link list scip_op" where
  "gotoDeclaration result = op_return result"

definition gotoTypeDefinition :: "location_link list \<Rightarrow> location_link list scip_op" where
  "gotoTypeDefinition result = op_return result"

definition gotoImplementation :: "location_link list \<Rightarrow> location_link list scip_op" where
  "gotoImplementation result = op_return result"

definition scip_didChange :: "unit scip_op" where
  "scip_didChange = op_return ()"

end
