(* ===== verification/ScipSpec.thy ===== *)
theory ScipSpec
  imports ScipController
begin

text \<open>
  What the navigation plugin answers. Every request is answered from the index for the position the cursor had in the
  indexed text, and every range of the answer is moved to the text in the editor; both translations are the position
  mapper's for the two texts \<open>doc_view\<close> has of a document.
\<close>

subsection \<open>Positions through the document store\<close>

definition docs_ready :: "diff_main \<Rightarrow> uuid \<Rightarrow> doc_sync \<Rightarrow> bool" where
  "docs_ready dm u docs \<longleftrightarrow> ds_inv dm docs \<and> map_of (documents docs) u \<noteq> None"

text \<open>The step from one state to another changed nothing but cached mappers.\<close>

definition same_texts :: "diff_main \<Rightarrow> uuid \<Rightarrow> scip_ctrl \<Rightarrow> scip_ctrl \<Rightarrow> bool" where
  "same_texts dm u c c' \<longleftrightarrow>
     (\<exists>docs. c' = c\<lparr>scip_documents := docs\<rparr> \<and> docs_ready dm u docs \<and> doc_view docs = doc_view (scip_documents c))"

lemma same_textsD:
  assumes "same_texts dm u c c'"
  shows "docs_ready dm u (scip_documents c')" and "doc_view (scip_documents c') = doc_view (scip_documents c)"
    and "registries c' = registries c"
  using assms by (auto simp: same_texts_def)

lemma same_texts_trans: "same_texts dm u c c1 \<Longrightarrow> same_texts dm u c1 c2 \<Longrightarrow> same_texts dm u c c2"
  by (auto simp: same_texts_def)

lemma same_texts_refl: "docs_ready dm u (scip_documents c) \<Longrightarrow> same_texts dm u c c"
  unfolding same_texts_def by (intro exI [of _ "scip_documents c"]) simp

lemma mapper_op:
  assumes "session_uuid ss cx = Ok u" and "docs_ready dm u (scip_documents c)"
  obtains c' where "docs_op (\<lambda>d. GetPositionMapper dm ss cx d doc) c =
      Some (Ok (map_option (\<lambda>(b, t). NewPositionMapper dm b t) (doc_view (scip_documents c) u doc)), c')"
    and "same_texts dm u c c'"
proof (cases "entry_at (scip_documents c) u doc")
  case None
  with assms have "getDocumentStoreEntry ss cx (scip_documents c) doc = Fail (DocumentNotFoundError doc)"
    by (auto simp: getDocumentStoreEntry_def docs_ready_def entry_at_def split: option.splits)
  with None that [OF _ same_texts_refl [OF assms(2)]] show thesis
    by (simp add: docs_op_def GetPositionMapper_def doc_view_def)
next
  case (Some e)
  let ?d = "put_entry u doc (set_mapper (mapper_for dm e) e) (scip_documents c)"
  have ok: "entry_ok dm doc e" using assms(2) Some by (auto simp: docs_ready_def dest: ds_invD)
  have entry: "getDocumentStoreEntry ss cx (scip_documents c) doc = Ok e"
    using Some assms by (auto simp: getDocumentStoreEntry_def entry_at_def split: option.splits)
  have "doc_view ?d = doc_view (scip_documents c)"
    using Some assms(2) by (intro ext) (auto simp: doc_view_put docs_ready_def, simp add: doc_view_def)
  moreover have "docs_ready dm u ?d"
    using assms(2) entry_ok_mapper [OF ok]
    by (auto simp: docs_ready_def put_entry_session mapper_for_ok [OF ok] intro: ds_inv_put)
  ultimately have "same_texts dm u c (c\<lparr>scip_documents := ?d\<rparr>)" unfolding same_texts_def by blast
  moreover have "docs_op (\<lambda>d. GetPositionMapper dm ss cx d doc) c =
      Some (Ok (map_option (\<lambda>(b, t). NewPositionMapper dm b t) (doc_view (scip_documents c) u doc)), c\<lparr>scip_documents := ?d\<rparr>)"
    using entry Some assms(1)
    by (simp add: docs_op_def GetPositionMapper_def with_session_def doc_view_def mapper_for_ok [OF ok])
  ultimately show thesis using that by blast
qed

text \<open>Where a position of the editor was in the indexed text, and where a range of it is now.\<close>

definition base_position :: "diff_main \<Rightarrow> (gostring \<times> gostring) option \<Rightarrow> position \<Rightarrow> position option outcome" where
  "base_position dm texts pos =
     (case texts of
        None \<Rightarrow> Ok None
      | Some (b, t) \<Rightarrow>
          (case MapCurrentPositionToBase (NewPositionMapper dm b t) pos of
             (p, new, None) \<Rightarrow> Ok (if new then None else Some p)
           | (p, new, Some err) \<Rightarrow> Fail (Join (Errorf ''mapping position to base: %w'' []) err)))"

definition current_range :: "diff_main \<Rightarrow> (gostring \<times> gostring) option \<Rightarrow> lsp_range \<Rightarrow> lsp_range" where
  "current_range dm texts rng =
     (case texts of
        None \<Rightarrow> rng
      | Some (b, t) \<Rightarrow>
          (case (MapBasePositionToCurrent (NewPositionMapper dm b t) (Start rng),
                 MapBasePositionToCurrent (NewPositionMapper dm b t) (End rng)) of
             ((s, None), (e, None)) \<Rightarrow> \<lparr>Start = s, End = e\<rparr>
           | _ \<Rightarrow> rng))"

lemma getBasePosition_eq:
  assumes "session_uuid (env_sessions env) cx = Ok u" and "docs_ready (env_diff env) u (scip_documents c)"
  obtains c' where "getBasePosition env cx doc pos c =
      Some (base_position (env_diff env) (doc_view (scip_documents c) u doc) pos, c')"
    and "same_texts (env_diff env) u c c'"
proof -
  from mapper_op [OF assms, of doc] obtain c' where
    "docs_op (\<lambda>d. GetPositionMapper (env_diff env) (env_sessions env) cx d doc) c =
      Some (Ok (map_option (\<lambda>(b, t). NewPositionMapper (env_diff env) b t) (doc_view (scip_documents c) u doc)), c')"
    "same_texts (env_diff env) u c c'" by blast
  with that [of c'] show thesis
    by (auto simp: getBasePosition_def base_position_def op_bind_def op_simps split: option.splits prod.splits)
qed

lemma getLatestPosition_eq:
  assumes "session_uuid (env_sessions env) cx = Ok u" and "docs_ready (env_diff env) u (scip_documents c)"
  obtains c' where "getLatestPosition env cx doc pos c =
      Some (case doc_view (scip_documents c) u doc of None \<Rightarrow> Ok pos
        | Some (b, t) \<Rightarrow> (case MapBasePositionToCurrent (NewPositionMapper (env_diff env) b t) pos of
            (p, None) \<Rightarrow> Ok p | (p, Some err) \<Rightarrow> Fail (Join (Errorf ''mapping position to current: %w'' []) err)), c')"
    and "same_texts (env_diff env) u c c'"
proof -
  from mapper_op [OF assms, of doc] obtain c' where
    "docs_op (\<lambda>d. GetPositionMapper (env_diff env) (env_sessions env) cx d doc) c =
      Some (Ok (map_option (\<lambda>(b, t). NewPositionMapper (env_diff env) b t) (doc_view (scip_documents c) u doc)), c')"
    "same_texts (env_diff env) u c c'" by blast
  with that [of c'] show thesis
    by (auto simp: getLatestPosition_def op_bind_def op_simps split: option.splits prod.splits)
qed

lemma getLatestRange_eq:
  assumes "session_uuid (env_sessions env) cx = Ok u" and "docs_ready (env_diff env) u (scip_documents c)"
  obtains c' where "getLatestRange env cx doc rng c =
      Some (Ok (current_range (env_diff env) (doc_view (scip_documents c) u doc) rng), c')"
    and "same_texts (env_diff env) u c c'"
proof -
  let ?image = "\<lambda>pos. case doc_view (scip_documents c) u doc of None \<Rightarrow> Ok pos
        | Some (b, t) \<Rightarrow> (case MapBasePositionToCurrent (NewPositionMapper (env_diff env) b t) pos of
            (p, None) \<Rightarrow> Ok p | (p, Some err) \<Rightarrow> Fail (Join (Errorf ''mapping position to current: %w'' []) err))"
  from getLatestPosition_eq [OF assms, of doc "Start rng"] obtain c1 where
    c1: "getLatestPosition env cx doc (Start rng) c = Some (?image (Start rng), c1)" "same_texts (env_diff env) u c c1" by blast
  from getLatestPosition_eq [OF assms(1) same_textsD(1) [OF c1(2)], of doc "End rng"] obtain c2 where
    c2: "getLatestPosition env cx doc (End rng) c1 = Some (?image (End rng), c2)" "same_texts (env_diff env) u c1 c2"
    using same_textsD(2) [OF c1(2)] by auto
  have c3: "same_texts (env_diff env) u c c2" using c1(2) c2(2) by (rule same_texts_trans)
  show thesis
  proof (cases "doc_view (scip_documents c) u doc")
    case None
    with c1 c2 c3 that [of c2] show thesis
      by (simp add: getLatestRange_def op_bind_def op_simps current_range_def)
  next
    case (Some bt)
    obtain b t where bt: "bt = (b, t)" by (cases bt)
    let ?m = "MapBasePositionToCurrent (NewPositionMapper (env_diff env) b t)"
    obtain ps es pe ee where m: "?m (Start rng) = (ps, es)" "?m (End rng) = (pe, ee)" by fastforce
    show thesis
      using c1 c2 c3 that [of c1] that [of c2] Some bt m
      by (cases es; cases ee) (simp_all add: getLatestRange_def op_bind_def op_simps current_range_def)
  qed
qed

subsection \<open>Documents that a request loads\<close>

text \<open>Loading a document makes its text the indexed one, in the sessions of the workspace.\<close>

definition texts_after :: "('p, 'c) scip_env \<Rightarrow> registry \<Rightarrow> document list \<Rightarrow> (uri \<Rightarrow> (gostring \<times> gostring) option) \<Rightarrow> uri \<Rightarrow>
    (gostring \<times> gostring) option" where
  "texts_after env reg docs texts w =
     (if w \<in> (\<lambda>doc. GetURI_ulsp (env_lib env) reg (RelativePath doc)) ` set docs
      then map_option (\<lambda>(b, t). (t, t)) (texts w) else texts w)"

lemma reset_base_sessions: "map_of (documents (reset_base sl d c)) v = None \<longleftrightarrow> map_of (documents c) v = None"
  by (induction sl arbitrary: c) (auto simp: put_entry_session split: option.split)

lemma documents_loaded_eq:
  assumes "sessions_inv (env_sessions env)" and "GetSession (env_sessions env) u = Ok s" and "ses_WorkspaceRoot s = root"
    and "docs_ready dm u (scip_documents c)"
  shows "docs_ready dm u (scip_documents (documents_loaded env root reg docs c)) \<and>
    doc_view (scip_documents (documents_loaded env root reg docs c)) u = texts_after env reg docs (doc_view (scip_documents c) u) \<and>
    registries (documents_loaded env root reg docs c) = registries c"
  using assms(4)
proof (induction docs arbitrary: c)
  case Nil
  then show ?case by (auto simp: texts_after_def)
next
  case (Cons doc docs)
  let ?w = "GetURI_ulsp (env_lib env) reg (RelativePath doc)"
  let ?r = "reset_base (GetAllFromWorkspaceRoot (env_sessions env) root) ?w (scip_documents c)"
  have "u \<in> ses_UUID ` set (GetAllFromWorkspaceRoot (env_sessions env) root)"
    using assms GetSession_uuid [OF assms(1,2)] by (force simp: GetAll_iff [OF assms(1)])
  then have view: "doc_view ?r u = (doc_view (scip_documents c) u)(?w := map_option (\<lambda>(b, t). (t, t)) (doc_view (scip_documents c) u ?w))"
    by (intro ext) (simp add: reset_base_view)
  have ready: "docs_ready dm u ?r"
    using Cons.prems by (simp add: docs_ready_def inv_reset reset_base_sessions)
  have again: "map_option (\<lambda>(b, t). (t, t)) (map_option (\<lambda>(b, t). (t, t)) x) = map_option (\<lambda>(b, t). (t, t)) x"
    for x :: "(gostring \<times> gostring) option" by (cases x) auto
  let ?c = "c\<lparr>scip_diagnostics := ApplyDiagnostics (env_sessions env) root ?w (doc_Diagnostics doc) (scip_diagnostics c), scip_documents := ?r\<rparr>"
  have "docs_ready dm u (scip_documents ?c)" using ready by simp
  from Cons.IH [OF this] show ?case
    by (simp add: Let_def ResetBase_def view texts_after_def fun_eq_iff again)
qed

text \<open>A call of the registry, as a step of the index followed by the callbacks.\<close>

lemma registry_call_eq:
  assumes "map_of (registries c) root = Some (reg, idx)" and "f reg idx = Some (r, idx')"
    and "sessions_inv (env_sessions env)" and "GetSession (env_sessions env) u = Ok s" and "ses_WorkspaceRoot s = root"
    and "docs_ready dm u (scip_documents c)"
  obtains c' where "registry_call env root f c = Some (r, c')" and "docs_ready dm u (scip_documents c')"
    and "doc_view (scip_documents c') u =
      texts_after env reg (drop (length (loaded_log idx)) (loaded_log idx')) (doc_view (scip_documents c) u)"
proof -
  let ?c = "c\<lparr>registries := AList.update root (reg, idx') (registries c)\<rparr>"
  from assms(6) have "docs_ready dm u (scip_documents ?c)" by simp
  note documents_loaded_eq [OF assms(3,4,5) this, of reg "drop (length (loaded_log idx)) (loaded_log idx')"]
  with that show thesis using assms(1,2) by (simp add: registry_call_def)
qed

subsection \<open>The requests\<close>

text \<open>A session with a registry and tracked documents: where requests are answered.\<close>

definition serving :: "('p, 'c) scip_env \<Rightarrow> ctx \<Rightarrow> ('p, 'c) session \<Rightarrow> registry \<Rightarrow> partial_index \<Rightarrow> scip_ctrl \<Rightarrow> bool" where
  "serving env cx s reg idx c \<longleftrightarrow>
     sessions_inv (env_sessions env) \<and> GetFromContext (env_sessions env) cx = Ok s \<and>
     map_of (registries c) (ses_WorkspaceRoot s) = Some (reg, idx) \<and>
     docs_ready (env_diff env) (ses_UUID s) (scip_documents c)"

lemma serving_session:
  assumes "serving env cx s reg idx c"
  shows "session_uuid (env_sessions env) cx = Ok (ses_UUID s)" and "GetSession (env_sessions env) (ses_UUID s) = Ok s"
proof -
  from assms have s: "GetFromContext (env_sessions env) cx = Ok s" "sessions_inv (env_sessions env)" by (auto simp: serving_def)
  then show "session_uuid (env_sessions env) cx = Ok (ses_UUID s)" by (simp add: session_uuid_def)
  from s(1) obtain v where "GetSession (env_sessions env) v = Ok s" by (auto simp: GetFromContext_def obind_Ok_iff)
  with GetSession_uuid [OF s(2)] show "GetSession (env_sessions env) (ses_UUID s) = Ok s" by metis
qed

lemma at_base_position_eq:
  assumes "serving env cx s reg idx c"
  obtains c' where "at_base_position env cx d pos nothing k c =
      (case base_position (env_diff env) (doc_view (scip_documents c) (ses_UUID s) d) pos of
         Ok None \<Rightarrow> Some (Ok nothing, c') | Ok (Some p) \<Rightarrow> k (ses_WorkspaceRoot s) p c' | Fail e \<Rightarrow> Some (Fail e, c') | Panic \<Rightarrow> Some (Panic, c'))"
    and "same_texts (env_diff env) (ses_UUID s) c c'" and "serving env cx s reg idx c'"
proof -
  from assms have ready: "docs_ready (env_diff env) (ses_UUID s) (scip_documents c)" by (simp add: serving_def)
  from getBasePosition_eq [OF serving_session(1) [OF assms] this, of d pos] obtain c' where
    c': "getBasePosition env cx d pos c =
      Some (base_position (env_diff env) (doc_view (scip_documents c) (ses_UUID s) d) pos, c')"
    "same_texts (env_diff env) (ses_UUID s) c c'" by blast
  moreover have "serving env cx s reg idx c'" using assms same_textsD [OF c'(2)] by (simp add: serving_def)
  ultimately show thesis using assms
    by (intro that [of c'])
       (auto simp: at_base_position_def with_registry_def op_bind_def op_simps serving_def split: outcome.splits option.splits)
qed

lemma at_base_position_nothing:
  assumes "serving env cx s reg idx c" and "base_position (env_diff env) (doc_view (scip_documents c) (ses_UUID s) d) pos = Ok None"
  obtains c' where "at_base_position env cx d pos nothing k c = Some (Ok nothing, c')" and "registries c' = registries c"
  by (rule at_base_position_eq [OF assms(1), of d pos nothing k]) (simp add: assms(2) that same_textsD(3))

lemma at_base_position_some:
  assumes "serving env cx s reg idx c" and "base_position (env_diff env) (doc_view (scip_documents c) (ses_UUID s) d) pos = Ok (Some p)"
  obtains c' where "at_base_position env cx d pos nothing k c = k (ses_WorkspaceRoot s) p c'"
    and "serving env cx s reg idx c'" and "doc_view (scip_documents c') = doc_view (scip_documents c)"
  by (rule at_base_position_eq [OF assms(1), of d pos nothing k]) (simp add: assms(2) that same_textsD(2))

lemma serving_call:
  assumes "serving env cx s reg idx c" and "f reg idx = Some (r, idx')"
  obtains c' where "registry_call env (ses_WorkspaceRoot s) f c = Some (r, c')"
    and "docs_ready (env_diff env) (ses_UUID s) (scip_documents c')"
    and "doc_view (scip_documents c') (ses_UUID s) =
      texts_after env reg (drop (length (loaded_log idx)) (loaded_log idx')) (doc_view (scip_documents c) (ses_UUID s))"
proof -
  from assms(1) have a: "map_of (registries c) (ses_WorkspaceRoot s) = Some (reg, idx)" "sessions_inv (env_sessions env)"
    "docs_ready (env_diff env) (ses_UUID s) (scip_documents c)" by (auto simp: serving_def)
  from registry_call_eq [of c, OF a(1), of f, OF assms(2) a(2) serving_session(2) [OF assms(1)] refl a(3)] that
  show thesis by blast
qed

text \<open>A request at a position of the editor that the indexed text has: what the index answers, and the texts afterwards.\<close>

lemma query_at_base:
  assumes "serving env cx s reg idx c" and "base_position (env_diff env) (doc_view (scip_documents c) (ses_UUID s) d) pos = Ok (Some p)"
    and "f reg p idx = Some (Ok x, idx')"
  obtains c' where "at_base_position env cx d pos nothing (\<lambda>root p. op_bind (op_wrap fmt (registry_call env root (\<lambda>reg. f reg p))) k) c = k x c'"
    and "docs_ready (env_diff env) (ses_UUID s) (scip_documents c')"
    and "doc_view (scip_documents c') (ses_UUID s) =
      texts_after env reg (drop (length (loaded_log idx)) (loaded_log idx')) (doc_view (scip_documents c) (ses_UUID s))"
proof -
  let ?k = "\<lambda>root p. op_bind (op_wrap fmt (registry_call env root (\<lambda>reg. f reg p))) k"
  from at_base_position_some [OF assms(1,2), of nothing ?k] obtain c1 where
    c1: "at_base_position env cx d pos nothing ?k c = ?k (ses_WorkspaceRoot s) p c1"
    "serving env cx s reg idx c1" "doc_view (scip_documents c1) = doc_view (scip_documents c)" by blast
  from serving_call [of env cx s reg idx c1 "\<lambda>reg. f reg p", OF c1(2) assms(3)] obtain c2 where
    "registry_call env (ses_WorkspaceRoot s) (\<lambda>reg. f reg p) c1 = Some (Ok x, c2)"
    "docs_ready (env_diff env) (ses_UUID s) (scip_documents c2)"
    "doc_view (scip_documents c2) (ses_UUID s) =
      texts_after env reg (drop (length (loaded_log idx)) (loaded_log idx')) (doc_view (scip_documents c1) (ses_UUID s))" by blast
  with c1(1,3) show thesis by (intro that [of c2]) (simp_all add: op_bind_def op_wrap_def)
qed

text \<open>The two ranges of a link, computed one after the other.\<close>

lemma definition_link:
  assumes "session_uuid (env_sessions env) cx = Ok u" and "docs_ready (env_diff env) u (scip_documents c)"
    and "Occurrence origin = Some oocc" and "Occurrence def = Some docc"
  shows "\<exists>c'. op_bind (target_range env cx def) (\<lambda>target. op_bind (origin_range env cx d origin) (\<lambda>origin. op_return (f target origin))) c =
    Some (Ok (f (current_range (env_diff env) (doc_view (scip_documents c) u (Location def)) (ScipToProtocolRange (lib_range (env_lib env)) (Range docc)))
      (current_range (env_diff env) (doc_view (scip_documents c) u d) (ScipToProtocolRange (lib_range (env_lib env)) (Range oocc)))), c')"
proof -
  let ?rl = "lib_range (env_lib env)"
  from getLatestRange_eq [OF assms(1,2), of "Location def" "ScipToProtocolRange ?rl (Range docc)"] obtain c1 where c1:
    "target_range env cx def c =
       Some (Ok (current_range (env_diff env) (doc_view (scip_documents c) u (Location def)) (ScipToProtocolRange ?rl (Range docc))), c1)"
    "same_texts (env_diff env) u c c1" using assms(4) by (auto simp: target_range_def)
  from getLatestRange_eq [OF assms(1) same_textsD(1) [OF c1(2)], of d "ScipToProtocolRange ?rl (Range oocc)"] obtain c2 where
    "origin_range env cx d origin c1 =
       Some (Ok (current_range (env_diff env) (doc_view (scip_documents c) u d) (ScipToProtocolRange ?rl (Range oocc))), c2)"
    using assms(3) same_textsD(2) [OF c1(2)] by (auto simp: origin_range_def)
  with c1(1) show ?thesis by (simp add: op_bind_def op_return_def)
qed

text \<open>
  Outside the property below: a request about a document that is not open is not answered, as there is no mapper for its positions.
  The comments at the function that asks for the mapper say that the position of the request is used instead.
\<close>

lemma closed_document_unanswered:
  assumes "serving env cx s reg idx c" and "doc_view (scip_documents c) (ses_UUID s) d = None"
  shows "\<exists>c'. gotoDefinition env cx d pos result c = Some (Ok result, c') \<and> registries c' = registries c"
proof -
  have "base_position (env_diff env) (doc_view (scip_documents c) (ses_UUID s) d) pos = Ok None"
    using assms(2) by (simp add: base_position_def)
  then show ?thesis unfolding gotoDefinition_def by (rule at_base_position_nothing [OF assms(1)]) blast
qed

text \<open>
  C8. Go to definition in an open document. If the cursor stands where text was inserted since the index was built there is no answer, and the index is
  not asked. Otherwise the index is asked for the position the
  cursor had in the indexed text, and the answer is its definition, with both ranges moved to where they are in the
  texts the editor has of the two documents. A document the request has just loaded counts as unchanged.
\<close>

theorem gotoDefinition_answer:
  assumes "serving env cx s reg idx c" and "doc_view (scip_documents c) (ses_UUID s) d = Some (base, current)"
  shows "let dm = env_diff env; texts = doc_view (scip_documents c) (ses_UUID s); rl = lib_range (env_lib env)
    in (base_position dm (Some (base, current)) pos = Ok None \<longrightarrow>
          (\<exists>c'. gotoDefinition env cx d pos result c = Some (Ok result, c') \<and> registries c' = registries c)) \<and>
       (base_position dm (Some (base, current)) pos = Ok (Some p) \<and>
        Definition_ulsp (env_lib env) reg (env_api env) d p idx = Some (Ok (Some (origin, def)), idx') \<and>
        Occurrence origin = Some oocc \<and> Occurrence def = Some docc \<longrightarrow>
          (let texts' = texts_after env reg (drop (length (loaded_log idx)) (loaded_log idx')) texts;
               target = current_range dm (texts' (Location def)) (ScipToProtocolRange rl (Range docc))
           in \<exists>c'. gotoDefinition env cx d pos result c =
                Some (Ok (result @ [\<lparr>OriginSelectionRange = Some (current_range dm (texts' d) (ScipToProtocolRange rl (Range oocc))),
                  TargetURI = Location def, TargetRange = target, TargetSelectionRange = target\<rparr>]), c')))"
proof -
  let ?dm = "env_diff env" and ?texts = "doc_view (scip_documents c) (ses_UUID s)"
  have "\<exists>c'. gotoDefinition env cx d pos result c = Some (Ok result, c') \<and> registries c' = registries c"
    if "base_position ?dm (?texts d) pos = Ok None"
    unfolding gotoDefinition_def by (rule at_base_position_nothing [OF assms(1) that]) blast
  moreover have "\<exists>c'. gotoDefinition env cx d pos result c = Some (Ok (result @ [\<lparr>OriginSelectionRange =
      Some (current_range ?dm (texts' d) (ScipToProtocolRange (lib_range (env_lib env)) (Range oocc))),
        TargetURI = Location def, TargetRange = target, TargetSelectionRange = target\<rparr>]), c')"
    if base: "base_position ?dm (?texts d) pos = Ok (Some p)"
      and found: "Definition_ulsp (env_lib env) reg (env_api env) d p idx = Some (Ok (Some (origin, def)), idx')"
      and occs: "Occurrence origin = Some oocc" "Occurrence def = Some docc"
      and texts': "texts' = texts_after env reg (drop (length (loaded_log idx)) (loaded_log idx')) ?texts"
      and target: "target = current_range ?dm (texts' (Location def)) (ScipToProtocolRange (lib_range (env_lib env)) (Range docc))"
    for texts' target
  proof -
    from query_at_base [where f = "\<lambda>reg. Definition_ulsp (env_lib env) reg (env_api env) d" and nothing = "result"
        and fmt = "''failed to get definition: %w''" and k = "definition_links env cx d result", OF assms(1) base found]
    obtain c' where "gotoDefinition env cx d pos result c = definition_links env cx d result (Some (origin, def)) c'"
      and ready: "docs_ready ?dm (ses_UUID s) (scip_documents c')" and "doc_view (scip_documents c') (ses_UUID s) = texts'"
      unfolding gotoDefinition_def texts' by blast
    with definition_link [OF serving_session(1) [OF assms(1)] ready occs, of d "\<lambda>target origin. result @ [\<lparr>OriginSelectionRange = Some origin,
        TargetURI = Location def, TargetRange = target, TargetSelectionRange = target\<rparr>]"] target
    show ?thesis by (simp add: definition_links_def)
  qed
  ultimately show ?thesis using assms(2) by (simp add: Let_def)
qed

lemma latest_locations_eq:
  assumes "session_uuid (env_sessions env) cx = Ok u" and "docs_ready (env_diff env) u (scip_documents c)"
  shows "\<exists>c'. latest_locations env cx refs result c = Some (Ok (result @
    map (\<lambda>l. \<lparr>loc_URI = loc_URI l, loc_Range = current_range (env_diff env) (doc_view (scip_documents c) u (loc_URI l)) (loc_Range l)\<rparr>) refs), c')"
  using assms(2)
proof (induction refs arbitrary: result c)
  case (Cons l refs)
  from getLatestRange_eq [OF assms(1) Cons.prems, of "loc_URI l" "loc_Range l"] obtain c1 where c1:
    "getLatestRange env cx (loc_URI l) (loc_Range l) c =
       Some (Ok (current_range (env_diff env) (doc_view (scip_documents c) u (loc_URI l)) (loc_Range l)), c1)"
    "same_texts (env_diff env) u c c1" by blast
  from Cons.IH [OF same_textsD(1) [OF c1(2)], of "result @ [\<lparr>loc_URI = loc_URI l,
      loc_Range = current_range (env_diff env) (doc_view (scip_documents c) u (loc_URI l)) (loc_Range l)\<rparr>]"]
    c1(1) same_textsD(2) [OF c1(2)] show ?case by (simp add: op_bind_def)
qed (simp add: op_return_def)

text \<open>
  Find references: what the index has for the position in the indexed text, in its order and behind the results
  there are, each range moved to where it is in the text the editor has of its document.
\<close>

theorem references_answer:
  assumes "serving env cx s reg idx c"
    and "base_position (env_diff env) (doc_view (scip_documents c) (ses_UUID s) d) pos = Ok (Some p)"
    and "References_ulsp (env_lib env) reg (env_api env) d p idx = Some (Ok refs, idx')"
  shows "\<exists>c'. scip_references env cx d pos result c = Some (Ok (result @
    map (\<lambda>l. \<lparr>loc_URI = loc_URI l,
      loc_Range = current_range (env_diff env)
        (texts_after env reg (drop (length (loaded_log idx)) (loaded_log idx')) (doc_view (scip_documents c) (ses_UUID s)) (loc_URI l))
        (loc_Range l)\<rparr>) (case refs of None \<Rightarrow> [] | Some ls \<Rightarrow> ls)), c')"
proof -
  from query_at_base [where f = "\<lambda>reg. References_ulsp (env_lib env) reg (env_api env) d" and nothing = "result"
        and fmt = "''failed to get references: %w''" and k = "\<lambda>refs. latest_locations env cx (case refs of None \<Rightarrow> [] | Some ls \<Rightarrow> ls) result", OF assms]
  obtain c' where c': "scip_references env cx d pos result c = latest_locations env cx (case refs of None \<Rightarrow> [] | Some ls \<Rightarrow> ls) result c'"
    "docs_ready (env_diff env) (ses_UUID s) (scip_documents c')" "doc_view (scip_documents c') (ses_UUID s) =
      texts_after env reg (drop (length (loaded_log idx)) (loaded_log idx')) (doc_view (scip_documents c) (ses_UUID s))"
    unfolding scip_references_def by blast
  from latest_locations_eq [OF serving_session(1) [OF assms(1)] c'(2)] c'(1,3) show ?thesis by simp
qed

text \<open>Hover: the documentation is appended to the text of earlier plugins, and the first range given is kept.\<close>

lemma hover_answer:
  assumes "serving env cx s reg idx c"
    and "base_position (env_diff env) (doc_view (scip_documents c) (ses_UUID s) d) pos = Ok (Some p)"
    and "Hover_ulsp (env_lib env) reg (env_api env) d p idx = Some (Ok (docs, Some occ), idx')" and "docs \<noteq> []"
  shows "\<exists>c'. scip_hover env cx d pos (Some h) c = Some (Ok (Some \<lparr>hov_Range = Some (case hov_Range h of Some r \<Rightarrow> r
      | None \<Rightarrow> current_range (env_diff env)
          (texts_after env reg (drop (length (loaded_log idx)) (loaded_log idx')) (doc_view (scip_documents c) (ses_UUID s)) d)
          (ScipToProtocolRange (lib_range (env_lib env)) (Range occ))), hov_Kind = ''markdown'',
      hov_Value = (if hov_Value h = [] then docs else hov_Value h @ CHR 0x0A # docs)\<rparr>), c')"
proof -
  from query_at_base [where f = "\<lambda>reg. Hover_ulsp (env_lib env) reg (env_api env) d" and nothing = "Some h"
        and fmt = "''failed to get hover info: %w''" and k = "hover_contents env cx d (Some h)", OF assms(1-3)]
  obtain c' where c': "scip_hover env cx d pos (Some h) c = hover_contents env cx d (Some h) (docs, Some occ) c'"
    "docs_ready (env_diff env) (ses_UUID s) (scip_documents c')" "doc_view (scip_documents c') (ses_UUID s) =
      texts_after env reg (drop (length (loaded_log idx)) (loaded_log idx')) (doc_view (scip_documents c) (ses_UUID s))"
    unfolding scip_hover_def by blast
  from getLatestRange_eq [OF serving_session(1) [OF assms(1)] c'(2), of d "ScipToProtocolRange (lib_range (env_lib env)) (Range occ)"]
  obtain c1 where "getLatestRange env cx d (ScipToProtocolRange (lib_range (env_lib env)) (Range occ)) c' =
      Some (Ok (current_range (env_diff env) (doc_view (scip_documents c') (ses_UUID s) d)
        (ScipToProtocolRange (lib_range (env_lib env)) (Range occ))), c1)" by blast
  with c' assms(4) show ?thesis
    by (cases "hov_Range h") (simp_all add: hover_contents_def op_bind_def op_return_def)
qed

subsection \<open>Witnesses\<close>

text \<open>
  A document whose text had one character put in front of it since it was indexed, in the workspace of the sample
  registry.
\<close>

definition front_diff :: diff_main where
  "front_diff a b =
     (if suffix a b then [\<lparr>diff_Type = DiffInsert, diff_Text = take (length b - length a) b\<rparr>, \<lparr>diff_Type = DiffEqual, diff_Text = a\<rparr>]
      else if suffix b a then [\<lparr>diff_Type = DiffDelete, diff_Text = take (length a - length b) a\<rparr>, \<lparr>diff_Type = DiffEqual, diff_Text = b\<rparr>]
      else [\<lparr>diff_Type = DiffDelete, diff_Text = a\<rparr>, \<lparr>diff_Type = DiffInsert, diff_Text = b\<rparr>])"

definition nav_item :: "gostring \<Rightarrow> doc_item" where
  "nav_item shown = \<lparr>di_URI = sample_uri, di_LanguageID = ''go'', di_Version = 1, di_Text = shown\<rparr>"

definition nav_env :: "(unit, unit) scip_env" where
  "nav_env = \<lparr>env_sessions = sample_sessions, env_configs = [], env_lib = sample_libs,
     env_api = partial_api 0 scip_lib sample_symlib sample_fs, env_diff = front_diff, env_ReadDir = (\<lambda>d. Ok []),
     env_ReadFile = (\<lambda>f. Fail EOF), env_MkdirAll = (\<lambda>d. Ok ()), env_watcher = True, env_Watch = (\<lambda>d. Ok ()),
     env_Start = (\<lambda>r. Ok ()), env_gateway = True, env_NumCPU = 4\<rparr>"

definition nav_docs :: doc_sync where
  "nav_docs = start_sync\<lparr>documents := [(''u'',
     [(sample_uri, newDocumentStoreEntry (nav_item ''yxabcd'') (Some (newDocumentStoreEntry (nav_item ''xabcd'') None)))])]\<rparr>"

definition nav_state :: scip_ctrl where
  "nav_state = (NewScip nav_docs NewDiagnostics)\<lparr>registries := [(''/w'', sample_registry, sample_index)]\<rparr>"

lemma nav_serving: "serving nav_env (Some ''u'') sample_session sample_registry sample_index nav_state"
proof -
  have "GetFromContext sample_sessions (Some ''u'') = Ok sample_session"
    by (simp add: GetFromContext_def ContextToSessionUUID_def sample_sessions_def GetSession_Set sample_session_def UUIDToSession_def)
  moreover have "docs_ready front_diff ''u'' nav_docs"
    by (auto simp: docs_ready_def ds_inv_def nav_docs_def entry_at_def entry_ok_def newDocumentStoreEntry_def nav_item_def
        split: if_splits)
  ultimately show ?thesis
    by (simp add: serving_def nav_env_def sample_sessions_inv nav_state_def NewScip_def sample_session_def UUIDToSession_def)
qed

lemma nav_texts: "doc_view (scip_documents nav_state) (ses_UUID sample_session) sample_uri = Some (''xabcd'', ''yxabcd'')"
  by code_simp

lemmas offset_eval = PositionOffset_def initLines_def advance_cols.simps DecodeRune_def RuneError_def OffsetPosition_def
  lineCol16_def line_of_def sort_search.simps

lemma nav_offsets:
  "PositionOffset ''yxabcd'' \<lparr>Line = 0, Character = 3\<rparr> = Ok 3" "OffsetPosition ''xabcd'' 2 = Ok \<lparr>Line = 0, Character = 2\<rparr>"
  "PositionOffset ''xabcd'' \<lparr>Line = 0, Character = 1\<rparr> = Ok 1" "OffsetPosition ''yxabcd'' 2 = Ok \<lparr>Line = 0, Character = 2\<rparr>"
  "PositionOffset ''xabcd'' \<lparr>Line = 0, Character = 4\<rparr> = Ok 4" "OffsetPosition ''yxabcd'' 5 = Ok \<lparr>Line = 0, Character = 5\<rparr>"
  by (simp_all add: offset_eval)

lemma nav_diffs:
  "front_diff ''xabcd'' ''yxabcd'' = [\<lparr>diff_Type = DiffInsert, diff_Text = ''y''\<rparr>, \<lparr>diff_Type = DiffEqual, diff_Text = ''xabcd''\<rparr>]"
  "front_diff ''yxabcd'' ''xabcd'' = [\<lparr>diff_Type = DiffDelete, diff_Text = ''y''\<rparr>, \<lparr>diff_Type = DiffEqual, diff_Text = ''xabcd''\<rparr>]"
  by (simp_all add: front_diff_def suffix_def)

lemma nav_base:
  "base_position (env_diff nav_env) (Some (''xabcd'', ''yxabcd'')) \<lparr>Line = 0, Character = 3\<rparr> = Ok (Some \<lparr>Line = 0, Character = 2\<rparr>)"
  by (simp add: base_position_def nav_env_def NewPositionMapper_def MapCurrentPositionToBase_def mapPosition_def nav_diffs
      nav_offsets diffXIndex_def)

lemma nav_current:
  "current_range (env_diff nav_env) (Some (''xabcd'', ''yxabcd''))
     (ScipToProtocolRange (lib_range (env_lib nav_env)) (Range (occurrence_at [0, 1, 4] ''local 1'' 1))) =
   \<lparr>Start = \<lparr>Line = 0, Character = 2\<rparr>, End = \<lparr>Line = 0, Character = 5\<rparr>\<rparr>"
proof -
  have "ScipToProtocolRange (lib_range (env_lib nav_env)) (Range (occurrence_at [0, 1, 4] ''local 1'' 1)) =
      \<lparr>Start = \<lparr>Line = 0, Character = 1\<rparr>, End = \<lparr>Line = 0, Character = 4\<rparr>\<rparr>" by code_simp
  then show ?thesis
    by (simp add: current_range_def nav_env_def NewPositionMapper_def MapBasePositionToCurrent_def mapPosition_def nav_diffs
        nav_offsets diffXIndex_def)
qed

lemma nav_occurrence:
  "GetOccurrenceForPosition (lib_range sample_libs) (Occurrences (snd (hd sample_docs))) \<lparr>Line = 0, Character = 2\<rparr> =
     Some (occurrence_at [0, 1, 4] ''local 1'' 1)"
  "IsLocalSymbol (lib_sym sample_libs) (Symbol (occurrence_at [0, 1, 4] ''local 1'' 1))"
  by code_simp+

lemma nav_definition:
  "Definition_ulsp (env_lib nav_env) sample_registry (env_api nav_env) sample_uri \<lparr>Line = 0, Character = 2\<rparr> sample_index =
     Some (Ok (Some (local_definition (snd (hd sample_docs)) sample_uri (occurrence_at [0, 1, 4] ''local 1'' 1))), sample_index)"
  using nav_occurrence api_cached [OF sample_loaded, of 0 scip_lib sample_symlib sample_fs]
  by (simp add: Definition_eq Definition_def occurrence_query_step op_simps nav_env_def)

theorem gotoDefinition_answer_witness:
  "\<exists>c'. gotoDefinition nav_env (Some ''u'') sample_uri \<lparr>Line = 0, Character = 3\<rparr> [] nav_state =
     Some (Ok [\<lparr>OriginSelectionRange = Some \<lparr>Start = \<lparr>Line = 0, Character = 2\<rparr>, End = \<lparr>Line = 0, Character = 5\<rparr>\<rparr>,
       TargetURI = sample_uri, TargetRange = \<lparr>Start = \<lparr>Line = 0, Character = 2\<rparr>, End = \<lparr>Line = 0, Character = 5\<rparr>\<rparr>,
       TargetSelectionRange = \<lparr>Start = \<lparr>Line = 0, Character = 2\<rparr>, End = \<lparr>Line = 0, Character = 5\<rparr>\<rparr>\<rparr>], c')"
proof -
  let ?occ = "occurrence_at [0, 1, 4] ''local 1'' 1" and ?def = "local_definition (snd (hd sample_docs)) sample_uri (occurrence_at [0, 1, 4] ''local 1'' 1)"
  have "Occurrence (fst ?def) = Some ?occ" "Occurrence (snd ?def) = Some ?occ" "Location (snd ?def) = sample_uri"
    by code_simp+
  moreover have "texts_after nav_env sample_registry [] texts = texts" for texts by (auto simp: texts_after_def)
  ultimately show ?thesis
    using gotoDefinition_answer [OF nav_serving, of sample_uri "''xabcd''" "''yxabcd''" "\<lparr>Line = 0, Character = 3\<rparr>" "[]" "\<lparr>Line = 0, Character = 2\<rparr>"
        "fst ?def" "snd ?def" sample_index ?occ ?occ] nav_definition nav_base nav_current
    by (simp add: Let_def nav_texts)
qed

lemma nav_references:
  "References_ulsp (env_lib nav_env) sample_registry (env_api nav_env) sample_uri \<lparr>Line = 0, Character = 2\<rparr> sample_index =
     Some (Ok (Some [\<lparr>loc_URI = sample_uri, loc_Range = ScipToProtocolRange sample_rangelib [0, 1, 4]\<rparr>]), sample_index)"
proof -
  have "uriToRelativePath_ulsp sample_libs sample_registry sample_uri = uriToRelativePath sample_libs sample_registry sample_uri"
    by (simp add: uriToRelativePath_eq)
  moreover have "local_locations sample_libs sample_uri ''local 1'' (Occurrences (snd (hd sample_docs))) [] =
      [\<lparr>loc_URI = sample_uri, loc_Range = ScipToProtocolRange sample_rangelib [0, 1, 4]\<rparr>]" by code_simp
  moreover have "Symbol (occurrence_at [0, 1, 4] ''local 1'' 1) = ''local 1''" by (simp add: occurrence_at_def)
  ultimately show ?thesis
    using nav_occurrence api_cached [OF sample_loaded, of 0 scip_lib sample_symlib sample_fs]
    by (simp add: References_ulsp_def GetOccurrenceForPosition_eq op_bind_def op_simps nav_env_def)
qed

theorem references_answer_witness:
  "\<exists>c' loc. scip_references nav_env (Some ''u'') sample_uri \<lparr>Line = 0, Character = 3\<rparr> [] nav_state = Some (Ok [loc], c') \<and>
     loc_URI loc = sample_uri"
  using references_answer [OF nav_serving, of sample_uri "\<lparr>Line = 0, Character = 3\<rparr>" "\<lparr>Line = 0, Character = 2\<rparr>", OF _ nav_references, of "[]"]
    nav_base by (auto simp: nav_texts)

end
