(* ===== verification/ScipReload.thy ===== *)
theory ScipReload
  imports ScipSpec "HOL-Library.Multiset"
begin

text \<open>
  How the navigation plugin loads index files and follows their changes: when a load is skipped, blocks or panics, and
  that progress notifications end with the loads they are shown for, whatever steps of events and timer functions run in between.
\<close>

subsection \<open>Loading index files\<close>

lemma op_update_bind [simp]: "op_bind (op_update f) k c = k () (f c)"
  by (simp add: op_bind_def op_update_def)

lemma notify_op_bind [simp]: "op_bind (notify_op f) k c = k () (c\<lparr>indexNotifier := snd (f (indexNotifier c))\<rparr>)"
  by (simp add: notify_op_def)

text \<open>A file whose hash is the recorded one is reported as loaded, and nothing else happens.\<close>

lemma load_unchanged:
  assumes "getSha env f = Ok (sha, e)"
  shows "load_and_report env root f sha c =
    Some (Ok None, c\<lparr>loadedIndices := AList.update f sha (loadedIndices c),
      indexNotifier := snd (NotifyComplete (snd (NotifyStart (env_Start env) (indexNotifier c) root f)) root f IndexLoadSuccess)\<rparr>)"
  using assms by (simp add: load_and_report_def loadScipFile_def op_bind_def op_simps notify_op_def op_update_def)

text \<open>
  C31. An index file without a hash file is never loaded again: once it was loaded, a change of the file leaves every
  registry as it is, although the change is reported as a successful load.
\<close>

theorem nohash_never_reloaded:
  assumes "env_ReadFile env (f @ shaExt) = Fail e"
    and "load_and_report env root f (loaded_sha c0 f) c0 = Some (Ok None, c)" and "registries c' = registries c"
    and "loadedIndices c' = loadedIndices c"
  shows "\<exists>c2. reloadIndex env order f c' = Some (Ok (), c2) \<and> registries c2 = registries c \<and> shown_messages c2 = shown_messages c'"
proof -
  have sha: "getSha env f = Ok (noHash, Some e)" using assms(1) by (simp add: getSha_def)
  have "map_of (loadedIndices c) f = Some noHash"
    using assms(2) sha
    by (auto simp: load_and_report_def loadScipFile_def op_bind_def op_simps notify_op_def op_update_def update_conv'
        split: option.splits prod.splits outcome.splits if_splits)
  with assms(4) have "loaded_sha c' f = noHash" by (simp add: loaded_sha_def)
  with sha assms(3) show ?thesis
    by (cases "find (\<lambda>ws. prefix ws f \<and> suffix scipExt f) order")
       (auto simp: reloadIndex_def reload_start_def reload_load_def reload_complete_def loadScipFile_def loaded_sha_def op_bind_def op_simps notify_op_def
          op_update_def)
qed

text \<open>An index with an empty hash file is taken for loaded before it was ever read.\<close>

lemma empty_hash_never_loaded:
  assumes "env_ReadFile env (f @ shaExt) = Ok []" and "map_of (loadedIndices c) f = None"
  shows "\<exists>c'. load_and_report env root f (loaded_sha c f) c = Some (Ok None, c') \<and> registries c' = registries c"
  using load_unchanged [of env f "[]" None root c] assms by (simp add: getSha_def loaded_sha_def)

text \<open>With one processor the semaphore has no room, and the first index file blocks the load for ever.\<close>

lemma single_cpu_blocks:
  assumes "env_NumCPU env < 2" and "env_ReadDir env fDir = Ok names" and "\<exists>n \<in> set names. suffix scipExt n"
  shows "load_directory env order root fDir failed c = None"
proof -
  have track: "\<exists>c'. track_files env root fs c = Some (Ok (), c')" for fs
    by (induction fs arbitrary: c) (simp_all add: op_simps)
  from assms(3) have "index_paths fDir names \<noteq> []" by (auto simp: index_paths_def filter_empty_conv)
  with track [of "index_paths fDir names"] assms(1,2) show ?thesis
    by (auto simp: load_directory_def Let_def op_bind_def LoadConcurrency_ulsp_def)
qed

text \<open>A monorepo with index directories, in a configuration without defaults, makes the creation of its registry panic.\<close>

lemma registry_without_default_panics:
  assumes "config_dirs env monorepo \<noteq> []" and "map_of (env_configs env) ''_default'' = None"
  shows "createNewScipRegistry env root monorepo = Panic"
  using assms by (simp add: createNewScipRegistry_def config_dirs_def first_dir_def)

lemma registry_folder:
  assumes "config_dirs env monorepo = d # ds" and "config_dirs env ''_default'' \<noteq> []"
  shows "\<exists>idx. createNewScipRegistry env root monorepo = Ok (\<lparr>WorkspaceRoot = root, IndexFolder = path_Join [root, d]\<rparr>, idx)"
  using assms by (auto simp: createNewScipRegistry_def first_dir_def split: list.splits)
subsection \<open>Changes of index files\<close>

lemma track_pending:
  assumes "map_of (activeNotifications (snd (trackFileInternal start n root f p))) r = Some st" and "g \<in> set (ns_pending st)"
  shows "(r = root \<and> g = f) \<or> (\<exists>st0. map_of (activeNotifications n) r = Some st0 \<and> g \<in> set (ns_pending st0))"
  using assms
  by (auto simp: trackFileInternal_def Let_def notifyProgress_def send_message_def update_conv'
      split: option.splits outcome.splits if_splits)

lemma complete_pending:
  assumes "notifier_inv n" and "map_of (activeNotifications (snd (NotifyComplete n root f status))) r = Some st"
    and "g \<in> set (ns_pending st)"
  shows "\<not> (r = root \<and> g = f) \<and> (\<exists>st0. map_of (activeNotifications n) r = Some st0 \<and> g \<in> set (ns_pending st0))"
proof (cases "map_of (activeNotifications n) root")
  case (Some st0)
  with assms(1) have "distinct (ns_pending st0)" by (auto simp: notifier_inv_def)
  with Some assms(2,3) show ?thesis
    by (auto simp: NotifyComplete_def Let_def notifyProgress_def send_message_def update_conv' delete_conv' split: if_splits)
qed (use assms in \<open>auto simp: NotifyComplete_def\<close>)

lemma documents_loaded_frame:
  "indexNotifier (documents_loaded env root reg docs c) = indexNotifier c"
  "debounceTimers (documents_loaded env root reg docs c) = debounceTimers c"
  "registries (documents_loaded env root reg docs c) = registries c"
  by (induction docs arbitrary: c) (simp_all add: Let_def)

definition workspace_roots :: "scip_ctrl \<Rightarrow> gostring set" where
  "workspace_roots c = fst ` set (registries c)"

lemma workspace_roots_cong: "registries c' = registries c \<Longrightarrow> workspace_roots c' = workspace_roots c"
  by (simp add: workspace_roots_def)

definition watch_frame :: "scip_ctrl \<Rightarrow> scip_ctrl \<Rightarrow> bool" where
  "watch_frame c c' \<longleftrightarrow> indexNotifier c' = indexNotifier c \<and> debounceTimers c' = debounceTimers c \<and>
     workspace_roots c' = workspace_roots c"

lemma watch_frame_refl [simp]: "watch_frame c c"
  by (simp add: watch_frame_def)

lemma registry_call_frame:
  assumes "registry_call env root f c = Some (r, c')"
  shows "watch_frame c c'"
proof (cases "map_of (registries c) root")
  case (Some ri)
  obtain reg idx where ri: "ri = (reg, idx)" by (cases ri)
  from assms Some ri obtain idx' where
    c': "c' = documents_loaded env root reg (drop (length (loaded_log idx)) (loaded_log idx'))
      (c\<lparr>registries := AList.update root (reg, idx') (registries c)\<rparr>)"
    by (auto simp: registry_call_def split: option.splits)
  have "root \<in> fst ` set (registries c)" using Some by (force dest: map_of_SomeD)
  then have "fst ` set (AList.update root (reg, idx') (registries c)) = fst ` set (registries c)"
    using dom_update [of root "(reg, idx')" "registries c"] by (auto simp: dom_map_of_conv_image_fst)
  with c' show ?thesis by (simp add: watch_frame_def documents_loaded_frame workspace_roots_def)
qed (use assms in \<open>simp add: registry_call_def\<close>)

lemma loadScipFile_frame:
  assumes "loadScipFile env root f sha c = Some (r, c')"
  shows "watch_frame c c'"
  using assms
  by (auto simp: loadScipFile_def op_bind_def op_simps split: outcome.splits option.splits prod.splits if_splits
      dest: registry_call_frame)

text \<open>
  Workspaces whose roots are not prefixes of one another. The functions of the debounce timers and where they are: waiting for the timer, fired, the entry removed, the
  notification of a workspace started, the file loaded, and about to show an error.
\<close>

definition roots_apart :: "scip_ctrl \<Rightarrow> bool" where
  "roots_apart c \<longleftrightarrow> (\<forall>a \<in> workspace_roots c. \<forall>b \<in> workspace_roots c. prefix a b \<longrightarrow> a = b)"

datatype debounce_timer =
    Waiting gostring
  | Fired gostring
  | Removed gostring
  | Loading gostring gostring
  | Loaded gostring gostring "go_error option"
  | Failing gostring go_error

fun holds_registries :: "debounce_timer \<Rightarrow> bool" where
  "holds_registries (Loading ws f) = True"
| "holds_registries (Loaded ws f err) = True"
| "holds_registries _ = False"

text \<open>Timers that will still complete the file in the notification of the workspace.\<close>

fun will_report :: "gostring \<Rightarrow> gostring \<Rightarrow> debounce_timer \<Rightarrow> bool" where
  "will_report root f (Waiting g) \<longleftrightarrow> g = f"
| "will_report root f (Fired g) \<longleftrightarrow> g = f"
| "will_report root f (Removed g) \<longleftrightarrow> g = f"
| "will_report root f (Loading ws g) \<longleftrightarrow> ws = root \<and> g = f"
| "will_report root f (Loaded ws g err) \<longleftrightarrow> ws = root \<and> g = f"
| "will_report root f (Failing g e) \<longleftrightarrow> False"

text \<open>
  All interleavings of events and timers. An event that is not ignored sets a timer for its file, and if there is an entry for the file its timer is stopped, unless
  it has fired already. The entry may also be gone, removed by an older timer, while its timer still waits. The orders are
  those of the two loops over the registries. A load takes the lock of the registries.
\<close>

inductive watch_reachable :: "('p, 'c) scip_env \<Rightarrow> scip_ctrl \<Rightarrow> debounce_timer multiset \<Rightarrow> bool" for env where
  quiet: "indexNotifier c = NewIndexNotifier \<Longrightarrow> debounceTimers c = [] \<Longrightarrow> roots_apart c \<Longrightarrow> watch_reachable env c {#}"
| ignored: "watch_reachable env c timers \<Longrightarrow> handle_change env order ev c = Some (r, c') \<Longrightarrow>
    (case ev of FsEvent name create write \<Rightarrow> \<not> create \<and> \<not> write \<or> \<not> suffix scipExt name | WatchError e \<Rightarrow> True | CloseWatch \<Rightarrow> False) \<Longrightarrow>
    watch_reachable env c' timers"
| event: "watch_reachable env c (stopped + timers) \<Longrightarrow> set order = workspace_roots c \<Longrightarrow> create \<or> write \<Longrightarrow> suffix scipExt name \<Longrightarrow>
    stopped = {#} \<or> name \<in> set (debounceTimers c) \<and> stopped = {#Waiting name#} \<Longrightarrow>
    handle_change env order (FsEvent name create write) c = Some (r, c') \<Longrightarrow>
    watch_reachable env c' (add_mset (Waiting name) timers)"
| fires: "watch_reachable env c (add_mset (Waiting f) timers) \<Longrightarrow> watch_reachable env c (add_mset (Fired f) timers)"
| removes: "watch_reachable env c (add_mset (Fired f) timers) \<Longrightarrow> watch_reachable env (debounce_remove f c) (add_mset (Removed f) timers)"
| starts: "watch_reachable env c (add_mset (Removed f) timers) \<Longrightarrow> \<forall>t \<in># timers. \<not> holds_registries t \<Longrightarrow> set order = workspace_roots c \<Longrightarrow>
    reload_start env order f c = Some (Ok found, c') \<Longrightarrow>
    watch_reachable env c' (case found of None \<Rightarrow> timers | Some ws \<Rightarrow> add_mset (Loading ws f) timers)"
| loads: "watch_reachable env c (add_mset (Loading ws f) timers) \<Longrightarrow> reload_load env ws f c = Some (Ok err, c') \<Longrightarrow>
    watch_reachable env c' (add_mset (Loaded ws f err) timers)"
| completes: "watch_reachable env c (add_mset (Loaded ws f err) timers) \<Longrightarrow> reload_complete ws f err c = Some (r, c') \<Longrightarrow>
    watch_reachable env c' (case r of Fail e \<Rightarrow> add_mset (Failing f e) timers | _ \<Rightarrow> timers)"
| shows_error: "watch_reachable env c (add_mset (Failing f e) timers) \<Longrightarrow> watch_reachable env (reload_failed env f e c) timers"

definition watch_inv :: "scip_ctrl \<Rightarrow> debounce_timer multiset \<Rightarrow> bool" where
  "watch_inv c timers \<longleftrightarrow> notifier_inv (indexNotifier c) \<and>
     (\<forall>root st f. map_of (activeNotifications (indexNotifier c)) root = Some st \<and> f \<in> set (ns_pending st) \<longrightarrow>
        (\<exists>t \<in># timers. will_report root f t) \<and> prefix root f \<and> suffix scipExt f \<and> root \<in> workspace_roots c)"

lemma watch_invD:
  assumes "watch_inv c timers" and "map_of (activeNotifications (indexNotifier c)) root = Some st" and "g \<in> set (ns_pending st)"
  shows "\<exists>t \<in># timers. will_report root g t" and "prefix root g" and "suffix scipExt g" and "root \<in> workspace_roots c"
  using assms unfolding watch_inv_def by blast+

lemma watch_inv_pending:
  "watch_inv c timers \<Longrightarrow> map_of (activeNotifications (indexNotifier c)) root = Some st \<Longrightarrow> \<exists>g. g \<in> set (ns_pending st)"
  by (auto simp: watch_inv_def notifier_inv_def) (metis last_in_set)

text \<open>Steps that leave the notifier alone, and timers that report at least as much.\<close>

lemma watch_inv_mono:
  assumes "watch_inv c timers" and "indexNotifier c' = indexNotifier c" and "workspace_roots c' = workspace_roots c"
    and "\<And>root f. \<exists>t \<in># timers. will_report root f t \<Longrightarrow> \<exists>t \<in># timers'. will_report root f t"
  shows "watch_inv c' timers'"
  using assms(1,4) unfolding watch_inv_def assms(2,3) by blast

lemma watch_inv_event:
  assumes "watch_inv c (stopped + timers)" and "set order = workspace_roots c" and "create \<or> write" and "suffix scipExt name"
    and "stopped \<subseteq># {#Waiting name#}" and "handle_change env order (FsEvent name create write) c = Some (r, c')"
  shows "watch_inv c' (add_mset (Waiting name) timers) \<and> workspace_roots c' = workspace_roots c"
proof -
  from assms(3,6) have name: "handleDebounce env order name c = Some (r, c')" by (auto simp: handle_change_def)
  have more: "\<exists>t \<in># add_mset (Waiting name) timers. will_report root f t" if "\<exists>t \<in># stopped + timers. will_report root f t" for root f
    using that assms(5) by (auto dest: mset_subset_eqD)
  show ?thesis
  proof (cases "find (\<lambda>ws. prefix ws name) order")
    case None
    with name assms(4) have c': "c' = c\<lparr>debounceTimers := List.insert name (debounceTimers c)\<rparr>"
      by (simp add: handleDebounce_def op_bind_def op_simps op_update_def)
    have "watch_inv c' (add_mset (Waiting name) timers)"
      by (rule watch_inv_mono [OF assms(1)]) (use more in \<open>simp_all add: c' workspace_roots_def\<close>)
    then show ?thesis by (simp add: c' workspace_roots_def)
  next
    case (Some ws)
    with name assms(4) have c': "c' = c\<lparr>indexNotifier := snd (TrackFile (env_Start env) (indexNotifier c) ws name),
        debounceTimers := List.insert name (debounceTimers c)\<rparr>"
      by (simp add: handleDebounce_def op_update_def)
    have ws: "ws \<in> workspace_roots c" "prefix ws name" using Some assms(2) by (auto simp: find_Some_iff)
    have roots: "workspace_roots c' = workspace_roots c" by (simp add: c' workspace_roots_def)
    have "watch_inv c' (add_mset (Waiting name) timers)"
      unfolding watch_inv_def
    proof (intro conjI allI impI)
      show "notifier_inv (indexNotifier c')" using assms(1) by (simp add: c' watch_inv_def TrackFile_def notifier_inv_track)
      fix root st g
      assume "map_of (activeNotifications (indexNotifier c')) root = Some st \<and> g \<in> set (ns_pending st)"
      then consider "root = ws" "g = name" | st0 where "map_of (activeNotifications (indexNotifier c)) root = Some st0" "g \<in> set (ns_pending st0)"
        using track_pending [of "env_Start env" "indexNotifier c" ws name False root st g] by (auto simp: c' TrackFile_def)
      then show "\<exists>t \<in># add_mset (Waiting name) timers. will_report root g t" "prefix root g" "suffix scipExt g" "root \<in> workspace_roots c'"
        by (cases; use ws assms(4) roots more watch_invD [OF assms(1)] in auto)+
    qed
    with roots show ?thesis by blast
  qed
qed

lemma watch_inv_start:
  assumes "watch_inv c (add_mset (Removed f) timers)" and "roots_apart c" and "set order = workspace_roots c"
    and "reload_start env order f c = Some (Ok found, c')"
  shows "watch_inv c' (case found of None \<Rightarrow> timers | Some ws \<Rightarrow> add_mset (Loading ws f) timers) \<and> workspace_roots c' = workspace_roots c"
proof (cases "find (\<lambda>ws. prefix ws f \<and> suffix scipExt f) order")
  case None
  with assms(4) have c': "c' = c" "found = None" by (auto simp: reload_start_def op_return_def)
  have "g \<noteq> f" if "map_of (activeNotifications (indexNotifier c)) root = Some st" "g \<in> set (ns_pending st)" for root st g
    using watch_invD [OF assms(1) that] assms(3) None by (auto simp: find_None_iff)
  then show ?thesis using assms(1) by (fastforce simp: c' watch_inv_def)
next
  case (Some ws)
  with assms(4) have c': "c' = c\<lparr>indexNotifier := snd (NotifyStart (env_Start env) (indexNotifier c) ws f)\<rparr>" "found = Some ws"
    by (auto simp: reload_start_def op_return_def)
  have ws: "ws \<in> workspace_roots c" "prefix ws f" "suffix scipExt f" using Some assms(3) by (auto simp: find_Some_iff)
  have roots: "workspace_roots c' = workspace_roots c" by (simp add: c' workspace_roots_def)
  have "watch_inv c' (add_mset (Loading ws f) timers)"
    unfolding watch_inv_def
  proof (intro conjI allI impI)
    show "notifier_inv (indexNotifier c')" using assms(1) by (simp add: c' watch_inv_def NotifyStart_def notifier_inv_track)
    fix root st g
    assume "map_of (activeNotifications (indexNotifier c')) root = Some st \<and> g \<in> set (ns_pending st)"
    then consider "root = ws" "g = f" | st0 where "map_of (activeNotifications (indexNotifier c)) root = Some st0" "g \<in> set (ns_pending st0)"
      using track_pending [of "env_Start env" "indexNotifier c" ws f True root st g] by (auto simp: c' NotifyStart_def)
    then have "(\<exists>t \<in># add_mset (Loading ws f) timers. will_report root g t) \<and> prefix root g \<and> suffix scipExt g \<and> root \<in> workspace_roots c'"
    proof cases
      case 2
      note old = watch_invD [OF assms(1) 2]
      have "root = ws" if "g = f"
        using that old(2,4) ws assms(2) prefix_same_cases [of root f ws] unfolding roots_apart_def by metis
      with old roots show ?thesis by fastforce
    qed (use ws roots in simp)
    then show "\<exists>t \<in># add_mset (Loading ws f) timers. will_report root g t" "prefix root g" "suffix scipExt g" "root \<in> workspace_roots c'" by blast+
  qed
  with roots show ?thesis by (simp add: c')
qed

lemma watch_inv_complete:
  assumes "watch_inv c (add_mset (Loaded ws f err) timers)" and "reload_complete ws f err c = Some (r, c')"
  shows "watch_inv c' timers \<and> workspace_roots c' = workspace_roots c"
proof -
  obtain status where c': "c' = c\<lparr>indexNotifier := snd (NotifyComplete (indexNotifier c) ws f status)\<rparr>"
    using assms(2) by (auto simp: reload_complete_def op_simps)
  have inv: "notifier_inv (indexNotifier c)" using assms(1) by (simp add: watch_inv_def)
  have roots: "workspace_roots c' = workspace_roots c" by (simp add: c' workspace_roots_def)
  have "watch_inv c' timers"
    unfolding watch_inv_def
  proof (intro conjI allI impI)
    show "notifier_inv (indexNotifier c')" using inv by (simp add: c' notifier_inv_complete)
    fix root st g
    assume "map_of (activeNotifications (indexNotifier c')) root = Some st \<and> g \<in> set (ns_pending st)"
    then obtain st0 where g: "\<not> (root = ws \<and> g = f)" "map_of (activeNotifications (indexNotifier c)) root = Some st0" "g \<in> set (ns_pending st0)"
      using complete_pending [OF inv, of ws f status root st g] by (auto simp: c')
    then show "\<exists>t \<in># timers. will_report root g t" "prefix root g" "suffix scipExt g" "root \<in> workspace_roots c'"
      using watch_invD [OF assms(1) g(2,3)] roots by auto
  qed
  with roots show ?thesis by blast
qed

lemma reload_load_frame:
  assumes "reload_load env ws f c = Some (Ok err, c')"
  shows "indexNotifier c' = indexNotifier c" and "workspace_roots c' = workspace_roots c"
proof -
  from assms obtain r c1 where load: "loadScipFile env ws f (loaded_sha c f) c = Some (r, c1)"
    and c': "registries c' = registries c1" "indexNotifier c' = indexNotifier c1"
    by (auto simp: reload_load_def split: option.splits prod.splits outcome.splits)
  from loadScipFile_frame [OF load] c' workspace_roots_cong [OF c'(1)] show "indexNotifier c' = indexNotifier c" "workspace_roots c' = workspace_roots c"
    by (simp_all add: watch_frame_def)
qed

lemma watch_reachable_inv: "watch_reachable env c timers \<Longrightarrow> watch_inv c timers \<and> roots_apart c"
proof (induction rule: watch_reachable.induct)
  case (quiet c)
  then show ?case by (simp add: watch_inv_def notifier_inv_new) (simp add: NewIndexNotifier_def)
next
  case (ignored c timers order ev r c')
  then have "c' = c" by (cases ev) (auto simp: handle_change_def handleDebounce_def op_simps split: if_splits)
  with ignored.IH show ?case by simp
next
  case (event c stopped timers order created written name r c')
  then have "stopped \<subseteq># {#Waiting name#}" by auto
  with event watch_inv_event [of c stopped timers order created written name env r c'] show ?case by (auto simp: roots_apart_def)
next
  case (fires c f timers)
  then show ?case by (auto elim!: watch_inv_mono)
next
  case (removes c f timers)
  have "workspace_roots (debounce_remove f c) = workspace_roots c" by (simp add: debounce_remove_def workspace_roots_def)
  then show ?case using removes by (auto simp: roots_apart_def debounce_remove_def elim!: watch_inv_mono)
next
  case (starts c f timers order found c')
  then show ?case using watch_inv_start [of c f timers order env found c'] by (auto simp: roots_apart_def)
next
  case (loads c ws f timers err c')
  note frame = reload_load_frame [OF loads.hyps(2)]
  have "watch_inv c' (add_mset (Loaded ws f err) timers)" by (rule watch_inv_mono [OF conjunct1 [OF loads.IH] frame]) auto
  with frame loads.IH show ?case by (simp add: roots_apart_def)
next
  case (completes c ws f err timers r c')
  then have inv: "watch_inv c' timers" "workspace_roots c' = workspace_roots c" using watch_inv_complete by blast+
  have "watch_inv c' (case r of Fail e \<Rightarrow> add_mset (Failing f e) timers | _ \<Rightarrow> timers)"
    by (rule watch_inv_mono [OF inv(1)]) (auto split: outcome.split)
  with inv(2) completes.IH show ?case by (simp add: roots_apart_def)
next
  case (shows_error c f e timers)
  have "workspace_roots (reload_failed env f e c) = workspace_roots c" by (simp add: reload_failed_def workspace_roots_def)
  then show ?case using shows_error by (auto simp: roots_apart_def reload_failed_def elim!: watch_inv_mono)
qed

text \<open>
  C30. Changes of index files, in workspaces whose roots are not prefixes of one another and until the watcher is closed: whatever events arrive, and however
  the functions of the debounce timers, which remove their entry, start, load and complete in separate steps, run between them, a progress notification is open only for
  index files below its workspace for which there is a timer that will still complete them. So none is open once these functions have returned.
\<close>

theorem watch_settles:
  assumes "watch_reachable env c timers"
  shows "(\<forall>root st f. map_of (activeNotifications (indexNotifier c)) root = Some st \<and> f \<in> set (ns_pending st) \<longrightarrow>
      (\<exists>t \<in># timers. will_report root f t) \<and> prefix root f \<and> suffix scipExt f) \<and>
    (timers = {#} \<longrightarrow> (\<forall>root. map_of (activeNotifications (indexNotifier c)) root = None))"
proof -
  from watch_reachable_inv [OF assms] have inv: "watch_inv c timers" by blast
  have "map_of (activeNotifications (indexNotifier c)) root = None" if "timers = {#}" for root
  proof (rule ccontr)
    assume "map_of (activeNotifications (indexNotifier c)) root \<noteq> None"
    then obtain st where st: "map_of (activeNotifications (indexNotifier c)) root = Some st" by blast
    from watch_inv_pending [OF inv st] watch_invD(1) [OF inv st] that show False by auto
  qed
  with inv show ?thesis by (auto simp: watch_inv_def)
qed

subsection \<open>Nested workspaces\<close>

text \<open>
  With a workspace inside another one the two loops over the registries may choose differently, as Go ranges over a
  map in any order: the notification that the event opened in one workspace is left open, as the load ends the
  one of the other.
\<close>

definition nested_state :: scip_ctrl where
  "nested_state = (NewScip nav_docs NewDiagnostics)\<lparr>registries := [(''/w'', sample_registry, sample_index), (''/w/s'', sample_registry, sample_index)],
     loadedIndices := [(''/w/s/i.scip'', noHash)]\<rparr>"

lemma nested_notification_left_open:
  "\<exists>c1 c2. handle_change nav_env [''/w'', ''/w/s''] (FsEvent ''/w/s/i.scip'' False True) nested_state = Some (Ok (), c1) \<and>
     debounce_fired nav_env [''/w/s'', ''/w''] ''/w/s/i.scip'' c1 = Some (Ok (), c2) \<and>
     debounceTimers c2 = [] \<and> map_of (activeNotifications (indexNotifier c2)) ''/w'' \<noteq> None"
  by (simp add: handle_change_def handleDebounce_def debounce_fired_def debounce_remove_def reloadIndex_def reload_start_def reload_load_def reload_complete_def loadScipFile_def
      getSha_def op_bind_def op_simps op_update_def notify_op_def nested_state_def NewScip_def nav_env_def scipExt_def suffix_def
      TrackFile_def NotifyStart_def trackFileInternal_def NewIndexNotifier_def loaded_sha_def NotifyComplete_def Let_def
      notifyProgress_def send_message_def)

subsection \<open>Witnesses\<close>

definition watch_start :: scip_ctrl where
  "watch_start = nav_state\<lparr>loadedIndices := [(''/w/i.scip'', noHash)]\<rparr>"

definition watch_changed :: scip_ctrl where
  "watch_changed = snd (the (handle_change nav_env [''/w''] (FsEvent ''/w/i.scip'' False True) watch_start))"

lemma watch_changed_eq: "handle_change nav_env [''/w''] (FsEvent ''/w/i.scip'' False True) watch_start = Some (Ok (), watch_changed)"
  by (simp add: watch_changed_def handle_change_def handleDebounce_def op_bind_def op_simps op_update_def notify_op_def scipExt_def suffix_def)

lemma watch_changed_reachable: "watch_reachable nav_env watch_changed {#Waiting ''/w/i.scip''#}"
proof (rule watch_reachable.event [where stopped = "{#}" and timers = "{#}", OF _ _ _ _ _ watch_changed_eq])
  have "watch_reachable nav_env watch_start {#}"
    by (rule watch_reachable.quiet) (simp_all add: watch_start_def nav_state_def NewScip_def roots_apart_def workspace_roots_def)
  then show "watch_reachable nav_env watch_start ({#} + {#})" by simp
  show "set [''/w''] = workspace_roots watch_start" by (simp add: watch_start_def nav_state_def NewScip_def workspace_roots_def)
qed (simp_all add: scipExt_def suffix_def)

text \<open>The timer has fired and removed its entry; the notification is still open, and the function of the timer will complete it.\<close>

lemma watch_fired_reachable: "watch_reachable nav_env (debounce_remove ''/w/i.scip'' watch_changed) {#Removed ''/w/i.scip''#}"
  using watch_reachable.removes [OF watch_reachable.fires [OF watch_changed_reachable]] .

lemma watch_changed_pending:
  "\<exists>st. map_of (activeNotifications (indexNotifier watch_changed)) ''/w'' = Some st \<and> ''/w/i.scip'' \<in> set (ns_pending st)"
  by (simp add: watch_changed_def watch_start_def nav_state_def handle_change_def handleDebounce_def op_bind_def op_simps op_update_def notify_op_def
      NewScip_def nav_env_def scipExt_def suffix_def TrackFile_def NotifyStart_def trackFileInternal_def NewIndexNotifier_def Let_def
      notifyProgress_def send_message_def)

theorem watch_settles_witness:
  "\<exists>st. map_of (activeNotifications (indexNotifier (debounce_remove ''/w/i.scip'' watch_changed))) ''/w'' = Some st \<and>
     ''/w/i.scip'' \<in> set (ns_pending st) \<and> suffix scipExt ''/w/i.scip''"
proof -
  have "indexNotifier (debounce_remove ''/w/i.scip'' watch_changed) = indexNotifier watch_changed" by (simp add: debounce_remove_def)
  with watch_settles [OF watch_fired_reachable] watch_changed_pending show ?thesis by auto
qed

theorem nohash_never_reloaded_witness:
  "\<exists>c c2. load_and_report nav_env ''/w'' ''/w/i.scip'' (loaded_sha watch_start ''/w/i.scip'') watch_start = Some (Ok None, c) \<and>
     reloadIndex nav_env [''/w''] ''/w/i.scip'' c = Some (Ok (), c2) \<and> registries c2 = registries c"
proof -
  have no_sha: "env_ReadFile nav_env (''/w/i.scip'' @ shaExt) = Fail EOF" by (simp add: nav_env_def)
  then have "getSha nav_env ''/w/i.scip'' = Ok (noHash, Some EOF)" by (simp add: getSha_def)
  moreover have "loaded_sha watch_start ''/w/i.scip'' = noHash" by (simp add: loaded_sha_def watch_start_def)
  ultimately obtain c where
    c: "load_and_report nav_env ''/w'' ''/w/i.scip'' (loaded_sha watch_start ''/w/i.scip'') watch_start = Some (Ok None, c)"
    using load_unchanged [of nav_env "''/w/i.scip''" noHash "Some EOF" "''/w''" watch_start] by simp
  from nohash_never_reloaded [OF no_sha c refl refl, of "[''/w'']"] c show ?thesis by blast
qed

end
