(* ===== verification/Startup.thy ===== *)
theory Startup
  imports Plugins
begin

text \<open>
  The declarations (\<^verbatim>\<open>StartupInfo\<close>) of the eight plugins of the language server, in \<^verbatim>\<open>src/ulsp/controller/*\<close>, and the list
  \<^verbatim>\<open>availablePlugins\<close> of \<^verbatim>\<open>src/ulsp/controller/ulsp-daemon/ulsp_daemon.go\<close>. A plugin's functions are the argument \<open>h\<close>;
  a declaration says under which names and with which priorities they are run. The repositories that the indexer and
  the Scala plugin are relevant for come from the configuration.
\<close>

subsection \<open>Declarations\<close>

type_synonym ('p, 'r, 'w) plugin_functions = "lsp_method \<Rightarrow> ('p, 'r, 'w) handler"

definition declare_plugin ::
  "method_names \<Rightarrow> gostring \<Rightarrow> (lsp_method \<times> int) list \<Rightarrow> lsp_method list \<Rightarrow> gostring list option \<Rightarrow>
   ('p, 'r, 'w) plugin_functions \<Rightarrow> ('p, 'r, 'w) plugin_info" where
  "declare_plugin names name priorities methods repos h =
     \<lparr>Priorities = map (\<lambda>(m, p). (method_key names m, p)) priorities,
      Methods = Some \<lparr>PluginNameKey = name, implementation = (\<lambda>m. if m \<in> set methods then Some (h m) else None)\<rparr>,
      NameKey = name, RelevantRepos = repos\<rparr>"

definition StartupInfo_diagnostics :: "method_names \<Rightarrow> ('p, 'r, 'w) plugin_functions \<Rightarrow> ('p, 'r, 'w) plugin_info" where
  "StartupInfo_diagnostics names = declare_plugin names ''diagnostics''
     [(M_Initialize, PriorityHigh), (M_Shutdown, PriorityAsync), (M_EndSession, PriorityRegular)]
     [M_Initialize, M_Shutdown, M_EndSession] None"

definition StartupInfo_doc_sync :: "method_names \<Rightarrow> ('p, 'r, 'w) plugin_functions \<Rightarrow> ('p, 'r, 'w) plugin_info" where
  "StartupInfo_doc_sync names = declare_plugin names ''doc-sync''
     [(M_Initialize, PriorityHigh), (M_Shutdown, PriorityAsync),
      (M_DidOpen, PriorityHigh), (M_DidChange, PriorityHigh), (M_DidClose, PriorityAsync), (M_DidSave, PriorityHigh),
      (M_WillSaveWaitUntil, PriorityRegular), (M_EndSession, PriorityRegular)]
     [M_Initialize, M_Shutdown, M_DidOpen, M_DidChange, M_DidClose, M_DidSave, M_WillSaveWaitUntil, M_EndSession] None"

definition StartupInfo_quick_actions :: "method_names \<Rightarrow> ('p, 'r, 'w) plugin_functions \<Rightarrow> ('p, 'r, 'w) plugin_info" where
  "StartupInfo_quick_actions names = declare_plugin names ''quick-actions''
     [(M_Initialize, PriorityRegular), (M_DidOpen, PriorityAsync), (M_DidSave, PriorityAsync), (M_DidClose, PriorityAsync),
      (M_EndSession, PriorityRegular), (M_CodeAction, PriorityRegular), (M_CodeLens, PriorityRegular),
      (M_ExecuteCommand, PriorityAsync), (M_WorkDoneProgressCancel, PriorityRegular)]
     [M_Initialize, M_DidSave, M_DidOpen, M_DidClose, M_EndSession, M_CodeAction, M_CodeLens, M_ExecuteCommand,
      M_WorkDoneProgressCancel] None"

definition StartupInfo_scip :: "method_names \<Rightarrow> ('p, 'r, 'w) plugin_functions \<Rightarrow> ('p, 'r, 'w) plugin_info" where
  "StartupInfo_scip names = declare_plugin names ''scip''
     [(M_Initialize, PriorityRegular), (M_Initialized, PriorityAsync), (M_DidOpen, PriorityRegular), (M_DidChange, PriorityRegular),
      (M_GotoDefinition, PriorityHigh), (M_GotoDeclaration, PriorityHigh), (M_GotoTypeDefinition, PriorityHigh),
      (M_GotoImplementation, PriorityHigh), (M_References, PriorityHigh), (M_Hover, PriorityHigh), (M_DocumentSymbol, PriorityHigh)]
     [M_Initialize, M_Initialized, M_DidChange, M_DidOpen, M_GotoDeclaration, M_GotoDefinition, M_GotoTypeDefinition,
      M_GotoImplementation, M_References, M_Hover, M_DocumentSymbol] None"

definition StartupInfo_user_guidance :: "method_names \<Rightarrow> ('p, 'r, 'w) plugin_functions \<Rightarrow> ('p, 'r, 'w) plugin_info" where
  "StartupInfo_user_guidance names = declare_plugin names ''user-guidance'' [(M_Initialized, PriorityAsync)] [M_Initialized] None"

definition StartupInfo_jdk :: "method_names \<Rightarrow> ('p, 'r, 'w) plugin_functions \<Rightarrow> ('p, 'r, 'w) plugin_info" where
  "StartupInfo_jdk names = declare_plugin names ''jdk'' [(M_Exit, PriorityAsync)] [M_Exit] None"

definition StartupInfo_indexer ::
  "method_names \<Rightarrow> gostring list \<Rightarrow> ('p, 'r, 'w) plugin_functions \<Rightarrow> ('p, 'r, 'w) plugin_info" where
  "StartupInfo_indexer names javaRepos = declare_plugin names ''indexer''
     [(M_Initialize, PriorityRegular), (M_Initialized, PriorityAsync), (M_DidOpen, PriorityAsync), (M_DidSave, PriorityAsync),
      (M_DidClose, PriorityAsync), (M_EndSession, PriorityRegular), (M_WorkDoneProgressCancel, PriorityRegular)]
     [M_Initialize, M_Initialized, M_DidSave, M_DidOpen, M_DidClose, M_EndSession, M_WorkDoneProgressCancel] (Some javaRepos)"

definition StartupInfo_scala_assist ::
  "method_names \<Rightarrow> gostring list \<Rightarrow> ('p, 'r, 'w) plugin_functions \<Rightarrow> ('p, 'r, 'w) plugin_info" where
  "StartupInfo_scala_assist names scalaRepos =
     declare_plugin names ''scala-assist'' [(M_Initialized, PriorityAsync)] [M_Initialized] (Some scalaRepos)"

text \<open>\<open>h name\<close> are the functions of the plugin \<open>name\<close>.\<close>

definition availablePlugins ::
  "method_names \<Rightarrow> gostring list \<Rightarrow> gostring list \<Rightarrow> (gostring \<Rightarrow> ('p, 'r, 'w) plugin_functions) \<Rightarrow> ('p, 'r, 'w) plugin_info list" where
  "availablePlugins names javaRepos scalaRepos h =
     [StartupInfo_diagnostics names (h ''diagnostics''), StartupInfo_doc_sync names (h ''doc-sync''),
      StartupInfo_quick_actions names (h ''quick-actions''), StartupInfo_scip names (h ''scip''),
      StartupInfo_user_guidance names (h ''user-guidance''), StartupInfo_jdk names (h ''jdk''),
      StartupInfo_indexer names javaRepos (h ''indexer''), StartupInfo_scala_assist names scalaRepos (h ''scala-assist'')]"

lemmas startup_defs = StartupInfo_diagnostics_def StartupInfo_doc_sync_def StartupInfo_quick_actions_def StartupInfo_scip_def
  StartupInfo_user_guidance_def StartupInfo_jdk_def StartupInfo_indexer_def StartupInfo_scala_assist_def

subsection \<open>Every declaration is well-formed\<close>

text \<open>The protocol library gives different methods different names.\<close>

definition names_apart :: "method_names \<Rightarrow> bool" where
  "names_apart names \<longleftrightarrow> distinct (map (method_key names) all_methods)"

lemma method_key_eq:
  assumes "names_apart names"
  shows "method_key names a = method_key names b \<longleftrightarrow> a = b"
  using assms all_methods_complete [of a] all_methods_complete [of b] unfolding names_apart_def
  by (auto simp: distinct_map dest: inj_onD)

lemma validate_keys_declared:
  assumes "names_apart names" and "\<forall>(m, p) \<in> set ps. implementation ms m \<noteq> None"
  shows "validate_keys names ms (map (\<lambda>(m, p). (method_key names m, p)) ps) = Ok ()"
  using assms(2) by (induction ps) (auto simp: method_of_key_key [OF assms(1) [unfolded names_apart_def]])

lemma Validate_declared:
  assumes "names_apart names" and "ps \<noteq> []" and "name \<noteq> []" and "fst ` set ps \<subseteq> set methods"
  shows "Validate names (declare_plugin names name ps methods repos h) = Ok ()"
  using assms by (auto simp: Validate_def declare_plugin_def intro!: validate_keys_declared)

lemma distinct_keys:
  assumes "names_apart names" and "distinct (map fst ps)"
  shows "distinct (map fst (map (\<lambda>(m, p). (method_key names m, p)) ps))"
proof -
  have "map fst (map (\<lambda>(m, p). (method_key names m, p)) ps) = map (method_key names) (map fst ps)" by auto
  with assms show ?thesis by (simp only: distinct_map [of "method_key names"]) (simp add: inj_on_def method_key_eq)
qed

lemma Priorities_distinct:
  assumes "names_apart names" and "distinct (map fst ps)"
  shows "distinct (map fst (Priorities (declare_plugin names name ps methods repos h)))"
  using distinct_keys [OF assms] by (simp add: declare_plugin_def)

lemma startup_valid:
  assumes "names_apart names" and "i \<in> set (availablePlugins names jr sr h)"
  shows "Validate names i = Ok ()"
  using assms(2) by (auto simp: availablePlugins_def startup_defs intro!: Validate_declared [OF assms(1)])

lemma startup_maps:
  assumes "names_apart names" and "i \<in> set (availablePlugins names jr sr h)"
  shows "distinct (map fst (Priorities i))"
  using assms(2) unfolding availablePlugins_def startup_defs
  by (simp only: list.set insert_iff empty_iff simp_thms)
     (elim disjE; simp only: list.map fst_conv Priorities_distinct [OF assms(1)] distinct.simps list.set insert_iff empty_iff
        lsp_method.distinct simp_thms)

lemma map_of_keys:
  assumes "names_apart names"
  shows "map_of (map (\<lambda>(m, p). (method_key names m, p)) ps) (method_key names m) = map_of ps m"
  by (induction ps) (auto simp: method_key_eq [OF assms])

lemma Priorities_declared:
  assumes "names_apart names"
  shows "map_of (Priorities (declare_plugin names name ps methods repos h)) (method_key names m) = map_of ps m"
  by (simp add: declare_plugin_def map_of_keys [OF assms])

lemmas priority_levels = PriorityHigh_def PriorityRegular_def PriorityAsync_def

text \<open>The priority every plugin has for opened and changed documents.\<close>

lemma startup_priorities:
  assumes "names_apart names" and "m \<in> {M_DidOpen, M_DidChange}"
  shows "map_of (Priorities (StartupInfo_diagnostics names h)) (method_key names m) = None"
    and "map_of (Priorities (StartupInfo_doc_sync names h)) (method_key names m) = Some PriorityHigh"
    and "map_of (Priorities (StartupInfo_quick_actions names h)) (method_key names m) = (if m = M_DidOpen then Some PriorityAsync else None)"
    and "map_of (Priorities (StartupInfo_scip names h)) (method_key names m) = Some PriorityRegular"
    and "map_of (Priorities (StartupInfo_user_guidance names h)) (method_key names m) = None"
    and "map_of (Priorities (StartupInfo_jdk names h)) (method_key names m) = None"
    and "map_of (Priorities (StartupInfo_indexer names jr h)) (method_key names m) = (if m = M_DidOpen then Some PriorityAsync else None)"
    and "map_of (Priorities (StartupInfo_scala_assist names sr h)) (method_key names m) = None"
  using assms(2) by (auto simp: startup_defs Priorities_declared [OF assms(1)])

text \<open>
  C15. Start-up. Whatever the functions of the plugins are, and whichever of the plugins a session enables, every declaration
  is valid, so that the registration of a session never fails for its plugins; and when the document store and
  the navigation plugin are enabled, a document that is opened or changed reaches the store before the navigation
  plugin, which are the only plugins that handle it before the client is answered.
\<close>

theorem startup_registration:
  assumes "names_apart names" and "enabled (StartupInfo_doc_sync names (h ''doc-sync''))" and "enabled (StartupInfo_scip names (h ''scip''))"
  shows "(\<forall>i \<in> set (availablePlugins names jr sr h). Validate names i = Ok ()) \<and>
    (\<exists>rt. PluginInfoToRuntimePrioritizedMethods names (filter enabled (availablePlugins names jr sr h)) = Ok rt \<and>
      (\<forall>m \<in> {M_DidOpen, M_DidChange}. map_option Sync (map_of rt (method_key names m)) =
         Some [Methods (StartupInfo_doc_sync names (h ''doc-sync'')), Methods (StartupInfo_scip names (h ''scip''))]))"
proof -
  let ?infos = "filter enabled (availablePlugins names jr sr h)"
  note valid = startup_valid [OF assms(1)]
  have maps: "go_maps ?infos" using startup_maps [OF assms(1)] by (auto simp: go_maps_def list_all_iff)
  have ok: "\<forall>i \<in> set ?infos. Validate names i = Ok ()" using valid by auto
  have open_reg: "registered ?infos (method_key names M_DidOpen) PriorityHigh = [Methods (StartupInfo_doc_sync names (h ''doc-sync''))]"
    "registered ?infos (method_key names M_DidOpen) PriorityRegular = [Methods (StartupInfo_scip names (h ''scip''))]"
    using assms(2,3) by (simp_all add: registered_def availablePlugins_def startup_priorities [OF assms(1)] priority_levels)
  have change_reg: "registered ?infos (method_key names M_DidChange) PriorityHigh = [Methods (StartupInfo_doc_sync names (h ''doc-sync''))]"
    "registered ?infos (method_key names M_DidChange) PriorityRegular = [Methods (StartupInfo_scip names (h ''scip''))]"
    using assms(2,3) by (simp_all add: registered_def availablePlugins_def startup_priorities [OF assms(1)] priority_levels)
  have key: "\<exists>i \<in> set ?infos. method_key names m \<in> fst ` set (Priorities i)" if "m \<in> {M_DidOpen, M_DidChange}" for m
    using that assms(2) by (auto simp: availablePlugins_def StartupInfo_doc_sync_def declare_plugin_def)
  show ?thesis
    using valid prioritized_lookup [OF maps] open_reg change_reg key
    by (auto simp: PluginInfoToRuntimePrioritizedMethods_def collect_plugins_Ok [OF ok])
qed

lemma protocol_names_apart: "names_apart protocol_names"
  by code_simp

theorem startup_registration_witness:
  "\<exists>rt. PluginInfoToRuntimePrioritizedMethods protocol_names
      (filter (\<lambda>i. NameKey i \<in> {''doc-sync'', ''scip''}) (availablePlugins protocol_names [] [] (\<lambda>name m. log_handler name))) = Ok rt \<and>
     map_option (length \<circ> Sync) (map_of rt (method_key protocol_names M_DidOpen)) = Some 2"
proof -
  have "NameKey (StartupInfo_doc_sync protocol_names h) \<in> {''doc-sync'', ''scip''}" "NameKey (StartupInfo_scip protocol_names h) \<in> {''doc-sync'', ''scip''}"
    for h :: "(unit, gostring, gostring list) plugin_functions"
    by (simp_all add: startup_defs declare_plugin_def)
  from startup_registration [OF protocol_names_apart, of "\<lambda>i. NameKey i \<in> {''doc-sync'', ''scip''}" "\<lambda>name m. log_handler name", OF this, of "[]" "[]"]
  show ?thesis by (force simp: option.map_comp [symmetric])
qed

end
