(* ===== verification/Capabilities.thy ===== *)
theory Capabilities
  imports Prelude "HOL-Library.Sublist"
begin

text \<open>
  \<^verbatim>\<open>src/ulsp/mapper/lsp_lifecycle.go\<close>: how the plugins merge what they can do into the answer to \<^verbatim>\<open>initialize\<close>. A field of an
  interface type holds nil, a pointer to the options the server itself uses, or some other value. Nil and empty slices
  are told apart where the code does. The filters of file operations belong to the protocol library and are compared
  only for equality: their type is a variable.
\<close>

subsection \<open>State\<close>

datatype provider = NilProvider | ProviderOptions bool | OtherProvider

record code_action_options =
  CodeActionKinds :: "gostring list option"
  ca_ResolveProvider :: bool

datatype code_action_provider = NilActions | ActionOptions code_action_options | OtherActions

record 'f file_operations =
  DidCreate :: "'f list option"
  WillCreate :: "'f list option"
  DidRename :: "'f list option"
  WillRename :: "'f list option"
  DidDelete :: "'f list option"
  WillDelete :: "'f list option"

text \<open>\<^verbatim>\<open>Workspace\<close> is nil or holds file operations, which may be nil; \<^verbatim>\<open>ExecuteCommandProvider\<close> is nil or holds commands, which may be nil.\<close>

record 'f capabilities =
  Workspace :: "'f file_operations option option"
  CodeActionProvider :: code_action_provider
  CodeLensProvider :: "bool option"
  DefinitionProvider :: provider
  DeclarationProvider :: provider
  ImplementationProvider :: provider
  TypeDefinitionProvider :: provider
  ReferencesProvider :: provider
  HoverProvider :: provider
  DocumentSymbolProvider :: provider
  ExecuteCommandProvider :: "gostring list option option"

definition no_file_operations :: "'f file_operations" where
  "no_file_operations = \<lparr>DidCreate = None, WillCreate = None, DidRename = None, WillRename = None, DidDelete = None, WillDelete = None\<rparr>"

definition no_capabilities :: "'f capabilities" where
  "no_capabilities =
     \<lparr>Workspace = None, CodeActionProvider = NilActions, CodeLensProvider = None, DefinitionProvider = NilProvider,
      DeclarationProvider = NilProvider, ImplementationProvider = NilProvider, TypeDefinitionProvider = NilProvider,
      ReferencesProvider = NilProvider, HoverProvider = NilProvider, DocumentSymbolProvider = NilProvider,
      ExecuteCommandProvider = None\<rparr>"

subsection \<open>Merging lists\<close>

text \<open>
  The two loops that combine the values there are with new ones: \<^verbatim>\<open>seen\<close> is filled by the first loop only.
\<close>

fun fill_seen :: "'a list \<Rightarrow> 'a list \<Rightarrow> 'a list \<Rightarrow> 'a list \<times> 'a list" where
  "fill_seen [] seen combined = (seen, combined)"
| "fill_seen (x # xs) seen combined = fill_seen xs (List.insert x seen) (combined @ [x])"

fun add_unseen :: "'a list \<Rightarrow> 'a list \<Rightarrow> 'a list \<Rightarrow> 'a list" where
  "add_unseen seen [] combined = combined"
| "add_unseen seen (x # xs) combined = add_unseen seen xs (if x \<notin> set seen then combined @ [x] else combined)"

definition append_unseen :: "'a list \<Rightarrow> 'a list \<Rightarrow> 'a list" where
  "append_unseen current new = (let (seen, combined) = fill_seen current [] [] in add_unseen seen new combined)"

fun add_commands :: "gostring list \<Rightarrow> gostring list \<Rightarrow> gostring list \<Rightarrow> gostring list outcome" where
  "add_commands seen [] combined = Ok combined"
| "add_commands seen (cmd # cmds) combined =
     (if cmd \<in> set seen
      then Fail (Errorf ''command %q in ExecuteCommandOptions already exists and cannot be duplicated'' [FStr cmd])
      else add_commands seen cmds (combined @ [cmd]))"

subsection \<open>Providers\<close>

definition ensure_provider :: "bool \<Rightarrow> provider \<Rightarrow> provider" where
  "ensure_provider workDoneProgress p =
     (let p = (if p = NilProvider then ProviderOptions False else p)
      in if workDoneProgress then
           (case p of ProviderOptions w \<Rightarrow> ProviderOptions True | _ \<Rightarrow> ProviderOptions True)
         else p)"

text \<open>A nil result is left alone.\<close>

definition InitializeResultEnsureDefinitionProvider :: "bool \<Rightarrow> 'f capabilities option \<Rightarrow> 'f capabilities option" where
  "InitializeResultEnsureDefinitionProvider w = map_option (\<lambda>c. c\<lparr>DefinitionProvider := ensure_provider w (DefinitionProvider c)\<rparr>)"

definition InitializeResultEnsureDeclarationProvider :: "bool \<Rightarrow> 'f capabilities option \<Rightarrow> 'f capabilities option" where
  "InitializeResultEnsureDeclarationProvider w = map_option (\<lambda>c. c\<lparr>DeclarationProvider := ensure_provider w (DeclarationProvider c)\<rparr>)"

definition InitializeResultEnsureImplementationProvider :: "bool \<Rightarrow> 'f capabilities option \<Rightarrow> 'f capabilities option" where
  "InitializeResultEnsureImplementationProvider w = map_option (\<lambda>c. c\<lparr>ImplementationProvider := ensure_provider w (ImplementationProvider c)\<rparr>)"

definition InitializeResultEnsureTypeDefinitionProvider :: "bool \<Rightarrow> 'f capabilities option \<Rightarrow> 'f capabilities option" where
  "InitializeResultEnsureTypeDefinitionProvider w = map_option (\<lambda>c. c\<lparr>TypeDefinitionProvider := ensure_provider w (TypeDefinitionProvider c)\<rparr>)"

definition InitializeResultEnsureReferencesProvider :: "bool \<Rightarrow> 'f capabilities option \<Rightarrow> 'f capabilities option" where
  "InitializeResultEnsureReferencesProvider w = map_option (\<lambda>c. c\<lparr>ReferencesProvider := ensure_provider w (ReferencesProvider c)\<rparr>)"

definition InitializeResultEnsureHoverProvider :: "bool \<Rightarrow> 'f capabilities option \<Rightarrow> 'f capabilities option" where
  "InitializeResultEnsureHoverProvider w = map_option (\<lambda>c. c\<lparr>HoverProvider := ensure_provider w (HoverProvider c)\<rparr>)"

definition InitializeResultEnsureDocumentSymbolProvider :: "bool \<Rightarrow> 'f capabilities option \<Rightarrow> 'f capabilities option" where
  "InitializeResultEnsureDocumentSymbolProvider w = map_option (\<lambda>c. c\<lparr>DocumentSymbolProvider := ensure_provider w (DocumentSymbolProvider c)\<rparr>)"

definition InitializeResultEnsureCodeLensProvider :: "bool \<Rightarrow> 'f capabilities \<Rightarrow> 'f capabilities" where
  "InitializeResultEnsureCodeLensProvider enableResolveProvider c =
     (let current = (case CodeLensProvider c of None \<Rightarrow> False | Some r \<Rightarrow> r)
      in c\<lparr>CodeLensProvider := Some (if enableResolveProvider then True else current)\<rparr>)"

definition merge_kinds :: "gostring list option \<Rightarrow> gostring list option \<Rightarrow> gostring list option" where
  "merge_kinds current new =
     (case new of
        None \<Rightarrow> current
      | Some ns \<Rightarrow> (case current of None \<Rightarrow> Some ns | Some cs \<Rightarrow> Some (append_unseen cs ns)))"

definition InitializeResultAppendCodeActionProvider ::
  "code_action_options \<Rightarrow> 'f capabilities \<Rightarrow> unit outcome \<times> 'f capabilities" where
  "InitializeResultAppendCodeActionProvider newOptions c =
     (case CodeActionProvider c of
        NilActions \<Rightarrow> (Ok (), c\<lparr>CodeActionProvider := ActionOptions newOptions\<rparr>)
      | OtherActions \<Rightarrow> (Fail (Errorf ''CodeActionProvider does not match expected type of *protocol.CodeActionOptions'' []), c)
      | ActionOptions current \<Rightarrow>
          (Ok (), c\<lparr>CodeActionProvider := ActionOptions
             \<lparr>CodeActionKinds = merge_kinds (CodeActionKinds current) (CodeActionKinds newOptions),
              ca_ResolveProvider = (if ca_ResolveProvider newOptions then True else ca_ResolveProvider current)\<rparr>\<rparr>))"

definition InitializeResultAppendExecuteCommandProvider ::
  "gostring list option \<Rightarrow> 'f capabilities \<Rightarrow> unit outcome \<times> 'f capabilities" where
  "InitializeResultAppendExecuteCommandProvider newCommands c =
     (case ExecuteCommandProvider c of
        None \<Rightarrow> (Ok (), c\<lparr>ExecuteCommandProvider := Some newCommands\<rparr>)
      | Some current \<Rightarrow>
          (case newCommands of
             None \<Rightarrow> (Ok (), c)
           | Some ns \<Rightarrow>
               (case current of
                  None \<Rightarrow> (Ok (), c\<lparr>ExecuteCommandProvider := Some (Some ns)\<rparr>)
                | Some cs \<Rightarrow>
                    (let (seen, combined) = fill_seen cs [] []
                     in case add_commands seen ns combined of
                          Ok cmds \<Rightarrow> (Ok (), c\<lparr>ExecuteCommandProvider := Some (Some cmds)\<rparr>)
                        | Fail e \<Rightarrow> (Fail e, c)
                        | Panic \<Rightarrow> (Panic, c)))))"

definition AppendFileOperationRegistrationOptions :: "'f list option \<Rightarrow> 'f list option \<Rightarrow> 'f list" where
  "AppendFileOperationRegistrationOptions primary secondary =
     (case (primary, secondary) of
        (None, None) \<Rightarrow> []
      | (None, Some s) \<Rightarrow> s
      | (Some p, None) \<Rightarrow> p
      | (Some p, Some s) \<Rightarrow> append_unseen p s)"

definition merge_filters :: "'f list option \<Rightarrow> 'f list option \<Rightarrow> 'f list option" where
  "merge_filters primary secondary =
     (if primary \<noteq> None \<or> secondary \<noteq> None then Some (AppendFileOperationRegistrationOptions primary secondary) else None)"

definition AppendServerCapabilitiesWorkspaceFileOperations ::
  "'f file_operations option \<Rightarrow> 'f file_operations option \<Rightarrow> 'f file_operations" where
  "AppendServerCapabilitiesWorkspaceFileOperations primary secondary =
     (case (primary, secondary) of
        (None, None) \<Rightarrow> no_file_operations
      | (Some p, None) \<Rightarrow> p
      | (None, Some s) \<Rightarrow> s
      | (Some p, Some s) \<Rightarrow>
          \<lparr>DidCreate = merge_filters (DidCreate p) (DidCreate s), WillCreate = merge_filters (WillCreate p) (WillCreate s),
           DidRename = merge_filters (DidRename p) (DidRename s), WillRename = merge_filters (WillRename p) (WillRename s),
           DidDelete = merge_filters (DidDelete p) (DidDelete s), WillDelete = merge_filters (WillDelete p) (WillDelete s)\<rparr>)"

definition InitalizeResultAppendServerCapabilitiesWorkspaceFileOperations ::
  "'f file_operations option \<Rightarrow> 'f capabilities \<Rightarrow> 'f capabilities" where
  "InitalizeResultAppendServerCapabilitiesWorkspaceFileOperations fileOperations c =
     (let current = (case Workspace c of Some (Some ops) \<Rightarrow> ops | _ \<Rightarrow> no_file_operations)
      in c\<lparr>Workspace := Some (Some (AppendServerCapabilitiesWorkspaceFileOperations (Some current) fileOperations))\<rparr>)"

text \<open>\<^verbatim>\<open>initialize\<close> of the navigation plugin (\<^verbatim>\<open>scip.go\<close>).\<close>

definition scip_initialize :: "'f capabilities option \<Rightarrow> 'f capabilities option" where
  "scip_initialize result =
     (let result = InitializeResultEnsureDefinitionProvider False result;
          result = InitializeResultEnsureDeclarationProvider False result;
          result = InitializeResultEnsureImplementationProvider False result;
          result = InitializeResultEnsureReferencesProvider False result;
          result = InitializeResultEnsureTypeDefinitionProvider False result;
          result = InitializeResultEnsureHoverProvider False result
      in InitializeResultEnsureDocumentSymbolProvider False result)"

subsection \<open>What merging keeps\<close>

lemma fill_seen_eq: "fst (fill_seen xs seen combined) = fold List.insert xs seen \<and> snd (fill_seen xs seen combined) = combined @ xs"
  by (induction xs arbitrary: seen combined) auto

lemma fill_seen_set: "set (fst (fill_seen xs seen combined)) = set xs \<union> set seen"
proof -
  have "set (fold List.insert xs seen) = set xs \<union> set seen" by (induction xs arbitrary: seen) auto
  with fill_seen_eq show ?thesis by metis
qed

lemma add_unseen_eq: "add_unseen seen new combined = combined @ filter (\<lambda>x. x \<notin> set seen) new"
  by (induction new arbitrary: combined) auto

lemma append_unseen_eq: "append_unseen current new = current @ filter (\<lambda>x. x \<notin> set current) new"
  using fill_seen_eq [of current "[]" "[]"] fill_seen_set [of current "[]" "[]"]
  by (auto simp: append_unseen_def add_unseen_eq split: prod.split)

lemma append_unseen_set: "set (append_unseen current new) = set current \<union> set new"
  by (auto simp: append_unseen_eq)

lemma add_commands_eq:
  "add_commands seen cmds combined =
     (case find (\<lambda>c. c \<in> set seen) cmds of
        None \<Rightarrow> Ok (combined @ cmds)
      | Some cmd \<Rightarrow> Fail (Errorf ''command %q in ExecuteCommandOptions already exists and cannot be duplicated'' [FStr cmd]))"
  by (induction cmds arbitrary: combined) (auto split: option.split)

lemma append_commands_eq:
  assumes "ExecuteCommandProvider c = Some (Some cs)"
  shows "InitializeResultAppendExecuteCommandProvider (Some ns) c =
    (case find (\<lambda>x. x \<in> set cs) ns of
       None \<Rightarrow> (Ok (), c\<lparr>ExecuteCommandProvider := Some (Some (cs @ ns))\<rparr>)
     | Some cmd \<Rightarrow> (Fail (Errorf ''command %q in ExecuteCommandOptions already exists and cannot be duplicated'' [FStr cmd]), c))"
proof -
  obtain seen combined where f: "fill_seen cs [] [] = (seen, combined)" by fastforce
  with fill_seen_eq [of cs "[]" "[]"] fill_seen_set [of cs "[]" "[]"] have "combined = cs" "set seen = set cs" by auto
  with f assms show ?thesis
    by (simp add: InitializeResultAppendExecuteCommandProvider_def add_commands_eq split: option.split)
qed

text \<open>
  Merging what the plugins can do never takes anything away and never invents anything: the code-action kinds of the answer are
  exactly those some plugin gave, with the earlier ones first and in their order, and a flag is set iff some plugin sets it; commands of
  different plugins are joined, and a command that was already there is refused without changing the answer.
\<close>

theorem capabilities_merge:
  shows "(CodeActionProvider c = ActionOptions \<lparr>CodeActionKinds = Some ks, ca_ResolveProvider = r\<rparr> \<longrightarrow>
      (\<exists>added. snd (InitializeResultAppendCodeActionProvider \<lparr>CodeActionKinds = Some ns, ca_ResolveProvider = r'\<rparr> c) =
         c\<lparr>CodeActionProvider := ActionOptions \<lparr>CodeActionKinds = Some (ks @ added), ca_ResolveProvider = (r \<or> r')\<rparr>\<rparr> \<and>
         set (ks @ added) = set ks \<union> set ns \<and> set ks \<inter> set added = {} \<and> subseq added ns)) \<and>
    (ExecuteCommandProvider c = Some (Some cs) \<longrightarrow>
      (set cs \<inter> set cmds = {} \<longrightarrow> InitializeResultAppendExecuteCommandProvider (Some cmds) c =
         (Ok (), c\<lparr>ExecuteCommandProvider := Some (Some (cs @ cmds))\<rparr>)) \<and>
      (set cs \<inter> set cmds \<noteq> {} \<longrightarrow> (\<exists>e. InitializeResultAppendExecuteCommandProvider (Some cmds) c = (Fail e, c))))"
proof (intro conjI impI)
  assume "CodeActionProvider c = ActionOptions \<lparr>CodeActionKinds = Some ks, ca_ResolveProvider = r\<rparr>"
  then show "\<exists>added. snd (InitializeResultAppendCodeActionProvider \<lparr>CodeActionKinds = Some ns, ca_ResolveProvider = r'\<rparr> c) =
         c\<lparr>CodeActionProvider := ActionOptions \<lparr>CodeActionKinds = Some (ks @ added), ca_ResolveProvider = (r \<or> r')\<rparr>\<rparr> \<and>
         set (ks @ added) = set ks \<union> set ns \<and> set ks \<inter> set added = {} \<and> subseq added ns"
    by (intro exI [of _ "filter (\<lambda>x. x \<notin> set ks) ns"])
       (auto simp: InitializeResultAppendCodeActionProvider_def merge_kinds_def append_unseen_eq)
qed (auto simp: append_commands_eq find_None_iff split: option.split dest!: find_Some_iff [THEN iffD1])

theorem capabilities_merge_witness:
  "\<exists>e. InitializeResultAppendExecuteCommandProvider (Some [''b'', ''a''])
     ((no_capabilities :: unit capabilities)\<lparr>ExecuteCommandProvider := Some (Some [''a''])\<rparr>) =
     (Fail e, no_capabilities\<lparr>ExecuteCommandProvider := Some (Some [''a''])\<rparr>)"
  using capabilities_merge [of "(no_capabilities :: unit capabilities)\<lparr>ExecuteCommandProvider := Some (Some [''a''])\<rparr>" _ _ _ _ "[''a'']" "[''b'', ''a'']"]
  by simp

text \<open>After the navigation plugin every navigation request is announced, and what was announced before still is.\<close>

lemma ensure_provider_eq:
  "ensure_provider w p = (if w \<or> p = NilProvider then ProviderOptions w else p)"
  by (cases p; cases w; simp add: ensure_provider_def)

lemmas ensure_defs = InitializeResultEnsureDefinitionProvider_def InitializeResultEnsureDeclarationProvider_def
  InitializeResultEnsureImplementationProvider_def InitializeResultEnsureTypeDefinitionProvider_def
  InitializeResultEnsureReferencesProvider_def InitializeResultEnsureHoverProvider_def
  InitializeResultEnsureDocumentSymbolProvider_def

lemma scip_initialize_announces:
  "\<exists>c'. scip_initialize (Some c) = Some c' \<and>
     list_all (\<lambda>p. p c' = ensure_provider False (p c)) [DefinitionProvider, DeclarationProvider, ImplementationProvider,
       TypeDefinitionProvider, ReferencesProvider, HoverProvider, DocumentSymbolProvider]"
  by (simp add: scip_initialize_def ensure_defs)

text \<open>A value given twice in the new list alone is kept twice.\<close>

lemma duplicates_inside_new_kept: "append_unseen [''a''] [''b'', ''b''] = [''a'', ''b'', ''b'']"
  by code_simp

text \<open>File operations: the merge announces an operation iff one of the two does, for exactly the filters of both.\<close>

lemma merge_filters_spec:
  "merge_filters p s = None \<longleftrightarrow> p = None \<and> s = None"
  "merge_filters p s = Some fs \<Longrightarrow> set fs = (case p of None \<Rightarrow> {} | Some a \<Rightarrow> set a) \<union> (case s of None \<Rightarrow> {} | Some b \<Rightarrow> set b)"
  by (auto simp: merge_filters_def AppendFileOperationRegistrationOptions_def append_unseen_set split: option.splits if_splits)

end
