(* ===== verification/QuickActions.thy ===== *)
theory QuickActions
  imports DocSync Capabilities Plugins "HOL-Library.Multiset"
begin

text \<open>
  \<^verbatim>\<open>src/ulsp/controller/quick-actions\<close>: the code actions and code lenses of a document (\<^verbatim>\<open>range_store.go\<close>), the commands that are
  running (\<^verbatim>\<open>pending_action_runs.go\<close>) and the plugin that serves both (\<^verbatim>\<open>quick_actions.go\<close>). The actions themselves are
  arguments: \<^verbatim>\<open>Action\<close> is the interface they implement. \<^verbatim>\<open>executeCommand\<close> is split into its locked sections, between
  which other requests run: the check, the insertion of the token, the progress message, the start of the action, and the deferred calls when it ends; so is the end of a session. Contexts that are cancelled and calls
  of the gateway are logged. \<^verbatim>\<open>sort.Slice\<close> is an argument, as the order it is given is not an order.
\<close>

subsection \<open>Actions and their ranges (\<^verbatim>\<open>range_store.go\<close>)\<close>

record offered_action =
  act_Title :: gostring
  act_Kind :: gostring
  act_Command :: "gostring option"

record offered_lens =
  ol_Range :: lsp_range
  ol_Command :: "gostring option"

record range_store =
  rs_actions :: "(uuid \<times> (uri \<times> (lsp_range \<times> offered_action list) list) list) list"
  rs_codeLenses :: "(uuid \<times> (uri \<times> offered_lens list) list) list"
  rs_versions :: "(uuid \<times> (uri \<times> int) list) list"

definition newActionRangeStore :: range_store where
  "newActionRangeStore = \<lparr>rs_actions = [], rs_codeLenses = [], rs_versions = []\<rparr>"

text \<open>\<^verbatim>\<open>if m[u] == nil { m[u] = make(...) }\<close>, and \<^verbatim>\<open>delete(m[u], d)\<close>, which leaves a nil map alone.\<close>

definition ensure_inner :: "'k \<Rightarrow> ('k \<times> 'v list) list \<Rightarrow> ('k \<times> 'v list) list" where
  "ensure_inner u m = (if map_of m u = None then AList.update u [] m else m)"

definition delete_inner :: "'k \<Rightarrow> 'j \<Rightarrow> ('k \<times> ('j \<times> 'v) list) list \<Rightarrow> ('k \<times> ('j \<times> 'v) list) list" where
  "delete_inner u d m = (case map_of m u of None \<Rightarrow> m | Some n \<Rightarrow> AList.update u (AList.delete d n) m)"

definition SetVersion :: "uuid \<Rightarrow> uri \<Rightarrow> int \<Rightarrow> range_store \<Rightarrow> bool \<times> range_store" where
  "SetVersion u document targetVersion a =
     (let a = a\<lparr>rs_versions := ensure_inner u (rs_versions a)\<rparr>;
          set = (True, a\<lparr>rs_versions := AList.update u (AList.update document targetVersion (lookup_list (rs_versions a) u)) (rs_versions a)\<rparr>)
      in case map_of (lookup_list (rs_versions a) u) document of
           Some currentVersion \<Rightarrow> if currentVersion \<ge> targetVersion then (False, a) else set
         | None \<Rightarrow> set)"

definition AddCodeAction :: "uuid \<Rightarrow> uri \<Rightarrow> lsp_range \<Rightarrow> offered_action \<Rightarrow> range_store \<Rightarrow> range_store" where
  "AddCodeAction u document actionRange action a =
     (let docs = lookup_list (rs_actions a) u; ranges = lookup_list docs document
      in a\<lparr>rs_actions := AList.update u
             (AList.update document (AList.update actionRange (lookup_list ranges actionRange @ [action]) ranges) docs) (rs_actions a),
           rs_versions := ensure_inner u (rs_versions a)\<rparr>)"

definition AddCodeLens :: "uuid \<Rightarrow> uri \<Rightarrow> offered_lens \<Rightarrow> range_store \<Rightarrow> range_store" where
  "AddCodeLens u document codeLens a =
     (let docs = lookup_list (rs_codeLenses a) u
      in a\<lparr>rs_codeLenses := AList.update u (AList.update document (lookup_list docs document @ [codeLens]) docs) (rs_codeLenses a),
           rs_versions := ensure_inner u (rs_versions a)\<rparr>)"

definition DeleteExistingDocumentRanges :: "uuid \<Rightarrow> uri \<Rightarrow> range_store \<Rightarrow> range_store" where
  "DeleteExistingDocumentRanges u document a =
     a\<lparr>rs_actions := delete_inner u document (rs_actions a), rs_codeLenses := delete_inner u document (rs_codeLenses a)\<rparr>"

definition ClearDocument :: "uuid \<Rightarrow> uri \<Rightarrow> range_store \<Rightarrow> range_store" where
  "ClearDocument u document a =
     a\<lparr>rs_actions := delete_inner u document (rs_actions a), rs_codeLenses := delete_inner u document (rs_codeLenses a),
       rs_versions := delete_inner u document (rs_versions a)\<rparr>"

definition ranges_DeleteSession :: "uuid \<Rightarrow> range_store \<Rightarrow> range_store" where
  "ranges_DeleteSession u a =
     a\<lparr>rs_actions := AList.delete u (rs_actions a), rs_codeLenses := AList.delete u (rs_codeLenses a)\<rparr>"

definition isLineOverlapping :: "lsp_range \<Rightarrow> lsp_range \<Rightarrow> bool" where
  "isLineOverlapping searchRange actionRange \<longleftrightarrow>
     \<not> (Line (End actionRange) < Line (Start searchRange) \<or> Line (Start actionRange) > Line (End searchRange))"

text \<open>Byte-wise comparison of strings.\<close>

fun string_less :: "gostring \<Rightarrow> gostring \<Rightarrow> bool" where
  "string_less xs [] = False"
| "string_less [] (y # ys) = True"
| "string_less (x # xs) (y # ys) = (byte_val x < byte_val y \<or> (x = y \<and> string_less xs ys))"

definition string_le :: "gostring \<Rightarrow> gostring \<Rightarrow> bool" where
  "string_le x y \<longleftrightarrow> string_less x y \<or> x = y"

definition compareCodeActions :: "offered_action \<Rightarrow> offered_action \<Rightarrow> bool" where
  "compareCodeActions a b =
     (case (act_Command a, act_Command b) of
        (Some ca, Some cb) \<Rightarrow> if ca \<noteq> cb then string_le ca cb else string_le (act_Title a) (act_Title b)
      | _ \<Rightarrow> act_Command b = None \<and> string_less (act_Title a) (act_Title b))"

type_synonym sort_slice = "(offered_action \<Rightarrow> offered_action \<Rightarrow> bool) \<Rightarrow> offered_action list \<Rightarrow> offered_action list"

definition GetMatchingCodeActions :: "sort_slice \<Rightarrow> uuid \<Rightarrow> uri \<Rightarrow> lsp_range \<Rightarrow> range_store \<Rightarrow> offered_action list" where
  "GetMatchingCodeActions sort_slice u document searchRange a =
     (let ranges = lookup_list (lookup_list (rs_actions a) u) document;
          result = concat (map (\<lambda>(r, actions). if isLineOverlapping searchRange r then actions else []) ranges)
      in sort_slice compareCodeActions result)"

definition GetCodeLenses :: "uuid \<Rightarrow> uri \<Rightarrow> range_store \<Rightarrow> offered_lens list" where
  "GetCodeLenses u document a = lookup_list (lookup_list (rs_codeLenses a) u) document"

subsection \<open>Running commands (\<^verbatim>\<open>pending_action_runs.go\<close>)\<close>

record task_identifier =
  task_session :: uuid
  actionName :: gostring
  argsToken :: gostring

type_synonym pending_runs = "(task_identifier \<times> gostring) list"

definition newTaskIdentifier :: "uuid \<Rightarrow> gostring \<Rightarrow> gostring \<Rightarrow> task_identifier" where
  "newTaskIdentifier u name args = \<lparr>task_session = u, actionName = name, argsToken = args\<rparr>"

definition AddInProgressAction :: "gostring \<Rightarrow> uuid \<Rightarrow> gostring \<Rightarrow> gostring \<Rightarrow> pending_runs \<Rightarrow> pending_runs" where
  "AddInProgressAction fresh u name args p = AList.update (newTaskIdentifier u name args) fresh p"

definition DeleteInProgressAction :: "uuid \<Rightarrow> gostring \<Rightarrow> gostring \<Rightarrow> pending_runs \<Rightarrow> pending_runs" where
  "DeleteInProgressAction u name args p =
     (if map_of p (newTaskIdentifier u name args) = None then p else AList.delete (newTaskIdentifier u name args) p)"

definition TokenExists :: "uuid \<Rightarrow> gostring \<Rightarrow> gostring \<Rightarrow> pending_runs \<Rightarrow> bool" where
  "TokenExists u name args p \<longleftrightarrow> map_of p (newTaskIdentifier u name args) \<noteq> None"

definition GetInProgressActionRunToken :: "uuid \<Rightarrow> gostring \<Rightarrow> gostring \<Rightarrow> pending_runs \<Rightarrow> gostring option" where
  "GetInProgressActionRunToken u name args p = map_of p (newTaskIdentifier u name args)"

definition GetInProgressActionRunTokens :: "uuid \<Rightarrow> pending_runs \<Rightarrow> gostring list" where
  "GetInProgressActionRunTokens u p = map snd (filter (\<lambda>(k, v). task_session k = u) p)"

definition runs_DeleteSession :: "uuid \<Rightarrow> pending_runs \<Rightarrow> pending_runs" where
  "runs_DeleteSession u p = filter (\<lambda>(k, v). task_session k \<noteq> u) p"

subsection \<open>The plugin (\<^verbatim>\<open>quick_actions.go\<close>)\<close>

datatype action_result = ResultAction lsp_range offered_action | ResultLens offered_lens | ResultOther

record ('p, 'c) quick_action =
  CommandName :: gostring
  ShouldEnable :: "('p, 'c) session \<Rightarrow> bool"
  IsRelevantDocument :: "('p, 'c) session \<Rightarrow> doc_item \<Rightarrow> bool"
  ProcessDocument :: "doc_item \<Rightarrow> action_result list outcome"
  ProvideWorkDoneProgressParams :: "gostring \<Rightarrow> (gostring \<times> gostring) option outcome"

datatype qa_call = CreateProgress gostring | BeginProgress gostring gostring gostring | EndProgress gostring | CancelContext gostring

record ('p, 'c) quick_actions =
  enabledActions :: "(uuid \<times> ('p, 'c) quick_action list) list"
  pendingActionRuns :: pending_runs
  pendingCmds :: "gostring list"
  currentActionRanges :: range_store
  qa_calls :: "qa_call list"

definition NewQuickActions :: "('p, 'c) quick_actions" where
  "NewQuickActions = \<lparr>enabledActions = [], pendingActionRuns = [], pendingCmds = [], currentActionRanges = newActionRangeStore, qa_calls = []\<rparr>"

definition SupportedCodeActionKinds :: "gostring list" where
  "SupportedCodeActionKinds = [''refactor'']"

definition qa_session :: "('p, 'c) repository \<Rightarrow> gostring \<Rightarrow> ctx \<Rightarrow> ('p, 'c) session outcome" where
  "qa_session sessions fmt cx = wrap_err (Errorf fmt []) (GetFromContext sessions cx)"

fun enable_actions ::
  "('p, 'c) session \<Rightarrow> ('p, 'c) quick_action list \<Rightarrow> gostring list \<Rightarrow> ('p, 'c) quick_actions \<Rightarrow> gostring list \<times> ('p, 'c) quick_actions" where
  "enable_actions s [] commands c = (commands, c)"
| "enable_actions s (action # actions) commands c =
     (if ShouldEnable action s
      then enable_actions s actions (if CommandName action \<noteq> [] then commands @ [CommandName action] else commands)
             (c\<lparr>enabledActions := AList.update (ses_UUID s) (lookup_list (enabledActions c) (ses_UUID s) @ [action]) (enabledActions c)\<rparr>)
      else enable_actions s actions commands c)"

definition qa_initialize ::
  "('p, 'c) repository \<Rightarrow> ('p, 'c) quick_action list \<Rightarrow> ctx \<Rightarrow> 'f capabilities \<Rightarrow> ('p, 'c) quick_actions \<Rightarrow>
   unit outcome \<times> 'f capabilities \<times> ('p, 'c) quick_actions" where
  "qa_initialize sessions allActions cx result c =
     (case qa_session sessions ''getting session: %w'' cx of
        Fail e \<Rightarrow> (Fail e, result, c)
      | Panic \<Rightarrow> (Panic, result, c)
      | Ok s \<Rightarrow>
          (case InitializeResultAppendCodeActionProvider
              \<lparr>CodeActionKinds = Some SupportedCodeActionKinds, ca_ResolveProvider = False\<rparr> result of
             (Fail e, result) \<Rightarrow> (Fail (Join (Errorf ''failed to append CodeActionProvider: %w'' []) e), result, c)
           | (Panic, result) \<Rightarrow> (Panic, result, c)
           | (Ok _, result) \<Rightarrow>
               (let result = InitializeResultEnsureCodeLensProvider False result;
                    (commands, c) = enable_actions s allActions [] c
                in case InitializeResultAppendExecuteCommandProvider (Some commands) result of
                     (r, result) \<Rightarrow> (wrap_err (Errorf ''failed to append ExecuteCommandProvider: %w'' []) r, result, c))))"

fun add_results :: "uuid \<Rightarrow> uri \<Rightarrow> action_result list \<Rightarrow> range_store \<Rightarrow> unit outcome \<times> range_store" where
  "add_results u d [] a = (Ok (), a)"
| "add_results u d (ResultAction r action # rs) a =
     (if act_Kind action \<notin> set SupportedCodeActionKinds
      then (Fail (Errorf ''action returned unsupported kind: %s'' [FStr (act_Kind action)]), a)
      else add_results u d rs (AddCodeAction u d r action a))"
| "add_results u d (ResultLens lens # rs) a = add_results u d rs (AddCodeLens u d lens a)"
| "add_results u d (ResultOther # rs) a = (Fail (Errorf ''action returned invalid type: %T'' []), a)"

fun process_actions ::
  "('p, 'c) session \<Rightarrow> uri \<Rightarrow> doc_item \<Rightarrow> ('p, 'c) quick_action list \<Rightarrow> range_store \<Rightarrow> unit outcome \<times> range_store" where
  "process_actions s d doc [] a = (Ok (), a)"
| "process_actions s d doc (action # actions) a =
     (if \<not> IsRelevantDocument action s doc then process_actions s d doc actions a
      else case ProcessDocument action doc of
          Fail e \<Rightarrow> (Fail (Join (Errorf ''processing document for code action: %w'' []) e), a)
        | Panic \<Rightarrow> (Panic, a)
        | Ok rs \<Rightarrow>
            (case add_results (ses_UUID s) d rs a of
               (Ok _, a) \<Rightarrow> process_actions s d doc actions a
             | (r, a) \<Rightarrow> (r, a)))"

definition refreshAvailableCodeActions ::
  "('p, 'c) repository \<Rightarrow> doc_sync \<Rightarrow> ctx \<Rightarrow> uri \<Rightarrow> ('p, 'c) quick_actions \<Rightarrow> unit outcome \<times> ('p, 'c) quick_actions" where
  "refreshAvailableCodeActions sessions docs cx d c =
     (case qa_session sessions ''getting session for code action: %w'' cx of
        Fail e \<Rightarrow> (Fail e, c)
      | Panic \<Rightarrow> (Panic, c)
      | Ok s \<Rightarrow>
          (case GetTextDocument sessions cx docs d of
             Fail e \<Rightarrow> if is_doc_not_found e then (Ok (), c) else (Fail e, c)
           | Panic \<Rightarrow> (Panic, c)
           | Ok doc \<Rightarrow>
               (case SetVersion (ses_UUID s) d (di_Version doc) (currentActionRanges c) of
                  (shouldRefresh, a) \<Rightarrow>
                    if \<not> shouldRefresh then (Ok (), c\<lparr>currentActionRanges := a\<rparr>)
                    else (case process_actions s d doc (lookup_list (enabledActions c) (ses_UUID s))
                              (DeleteExistingDocumentRanges (ses_UUID s) d a) of
                            (r, a) \<Rightarrow> (r, c\<lparr>currentActionRanges := a\<rparr>)))))"

definition qa_didOpen ::
  "('p, 'c) repository \<Rightarrow> doc_sync \<Rightarrow> ctx \<Rightarrow> uri \<Rightarrow> ('p, 'c) quick_actions \<Rightarrow> unit outcome \<times> ('p, 'c) quick_actions" where
  "qa_didOpen = refreshAvailableCodeActions"

definition qa_didSave ::
  "('p, 'c) repository \<Rightarrow> doc_sync \<Rightarrow> ctx \<Rightarrow> uri \<Rightarrow> ('p, 'c) quick_actions \<Rightarrow> unit outcome \<times> ('p, 'c) quick_actions" where
  "qa_didSave = refreshAvailableCodeActions"

definition qa_didClose ::
  "('p, 'c) repository \<Rightarrow> ctx \<Rightarrow> uri \<Rightarrow> ('p, 'c) quick_actions \<Rightarrow> unit outcome \<times> ('p, 'c) quick_actions" where
  "qa_didClose sessions cx d c =
     (case qa_session sessions ''getting session for code action: %w'' cx of
        Fail e \<Rightarrow> (Fail e, c)
      | Panic \<Rightarrow> (Panic, c)
      | Ok s \<Rightarrow> (Ok (), c\<lparr>currentActionRanges := ClearDocument (ses_UUID s) d (currentActionRanges c)\<rparr>))"

definition qa_cancelPendingCmd :: "gostring \<Rightarrow> ('p, 'c) quick_actions \<Rightarrow> ('p, 'c) quick_actions" where
  "qa_cancelPendingCmd token c =
     (if token \<notin> set (pendingCmds c) then c
      else c\<lparr>pendingCmds := remove1 token (pendingCmds c), qa_calls := qa_calls c @ [CancelContext token]\<rparr>)"

definition qa_workDoneProgressCancel :: "gostring \<Rightarrow> ('p, 'c) quick_actions \<Rightarrow> unit outcome \<times> ('p, 'c) quick_actions" where
  "qa_workDoneProgressCancel token c = (Ok (), qa_cancelPendingCmd token c)"

text \<open>
  The end of a session: the tokens of its commands are read and cancelled, then their entries are deleted. The store of the commands has
  a lock of its own, so commands may go on between the two parts.
\<close>

definition endSession_cancel :: "uuid \<Rightarrow> ('p, 'c) quick_actions \<Rightarrow> ('p, 'c) quick_actions" where
  "endSession_cancel u c =
     (let c = c\<lparr>currentActionRanges := ranges_DeleteSession u (currentActionRanges c)\<rparr>
      in fold qa_cancelPendingCmd (GetInProgressActionRunTokens u (pendingActionRuns c)) c)"

definition endSession_delete :: "uuid \<Rightarrow> ('p, 'c) quick_actions \<Rightarrow> ('p, 'c) quick_actions" where
  "endSession_delete u c = c\<lparr>pendingActionRuns := runs_DeleteSession u (pendingActionRuns c)\<rparr>"

definition qa_endSession :: "uuid \<Rightarrow> ('p, 'c) quick_actions \<Rightarrow> unit outcome \<times> ('p, 'c) quick_actions" where
  "qa_endSession u c = (Ok (), endSession_delete u (endSession_cancel u c))"

definition codeAction ::
  "sort_slice \<Rightarrow> ('p, 'c) repository \<Rightarrow> doc_sync \<Rightarrow> ctx \<Rightarrow> uri \<Rightarrow> lsp_range \<Rightarrow> offered_action list \<Rightarrow> ('p, 'c) quick_actions \<Rightarrow>
   offered_action list outcome \<times> ('p, 'c) quick_actions" where
  "codeAction sort_slice sessions docs cx d rng result c =
     (case qa_session sessions ''getting session for code action: %w'' cx of
        Fail e \<Rightarrow> (Fail e, c)
      | Panic \<Rightarrow> (Panic, c)
      | Ok s \<Rightarrow>
          (case refreshAvailableCodeActions sessions docs cx d c of
             (Fail e, c) \<Rightarrow> (Fail (Join (Errorf ''refreshing available code actions: %w'' []) e), c)
           | (Panic, c) \<Rightarrow> (Panic, c)
           | (Ok _, c) \<Rightarrow> (Ok (result @ GetMatchingCodeActions sort_slice (ses_UUID s) d rng (currentActionRanges c)), c)))"

definition codeLens ::
  "('p, 'c) repository \<Rightarrow> doc_sync \<Rightarrow> ctx \<Rightarrow> uri \<Rightarrow> offered_lens list \<Rightarrow> ('p, 'c) quick_actions \<Rightarrow>
   offered_lens list outcome \<times> ('p, 'c) quick_actions" where
  "codeLens sessions docs cx d result c =
     (case qa_session sessions ''getting session for code lens: %w'' cx of
        Fail e \<Rightarrow> (Fail e, c)
      | Panic \<Rightarrow> (Panic, c)
      | Ok s \<Rightarrow>
          (case refreshAvailableCodeActions sessions docs cx d c of
             (Fail e, c) \<Rightarrow> (Fail (Join (Errorf ''refreshing code lenses: %w'' []) e), c)
           | (Panic, c) \<Rightarrow> (Panic, c)
           | (Ok _, c) \<Rightarrow> (Ok (result @ GetCodeLenses (ses_UUID s) d (currentActionRanges c)), c)))"

text \<open>
  Raw arguments of a command; anything else is not raw JSON. A run that was started: its task, its token and whether
  a progress bar is shown for it.
\<close>

datatype command_argument = RawJSON gostring | OtherArgument

record command_run =
  run_task :: task_identifier
  run_token :: gostring
  run_progress :: bool

definition startWorkDoneProgressMessage :: "gostring \<Rightarrow> (gostring \<times> gostring) option \<Rightarrow> ('p, 'c) quick_actions \<Rightarrow> ('p, 'c) quick_actions" where
  "startWorkDoneProgressMessage token info c =
     (case info of
        None \<Rightarrow> c
      | Some (title, message) \<Rightarrow> c\<lparr>qa_calls := qa_calls c @ [CreateProgress token, BeginProgress token title message]\<rparr>)"

definition endWorkDoneProgressMessage :: "gostring \<Rightarrow> bool \<Rightarrow> ('p, 'c) quick_actions \<Rightarrow> ('p, 'c) quick_actions" where
  "endWorkDoneProgressMessage token shown c = (if \<not> shown then c else c\<lparr>qa_calls := qa_calls c @ [EndProgress token]\<rparr>)"

text \<open>
  A command runs in a goroutine of its own and takes the lock of the pending runs for each access on its own, so it is a sequence of
  steps. First, up to the check for a token: the command returns, or goes on with the action and the arguments.
\<close>

datatype ('p, 'c) command_check = Refused "unit outcome" | Cleared uuid "('p, 'c) quick_action" gostring

definition executeCommand_check ::
  "('p, 'c) repository \<Rightarrow> ctx \<Rightarrow> gostring \<Rightarrow> command_argument list \<Rightarrow> ('p, 'c) quick_actions \<Rightarrow> ('p, 'c) command_check" where
  "executeCommand_check sessions cx command arguments c =
     (case qa_session sessions ''getting session for code action: %w'' cx of
        Fail e \<Rightarrow> Refused (Fail e)
      | Panic \<Rightarrow> Refused Panic
      | Ok s \<Rightarrow>
          (case find (\<lambda>a. CommandName a = command) (lookup_list (enabledActions c) (ses_UUID s)) of
             None \<Rightarrow> Refused (Ok ())
           | Some currentAction \<Rightarrow>
               (if length arguments \<noteq> 1
                then Refused (Fail (Errorf ''invalid args format, expected all args data as a raw json message in the first entry'' []))
                else case arguments ! 0 of
                    OtherArgument \<Rightarrow> Refused (Fail (Errorf ''invalid args type, should be provided as raw json'' []))
                  | RawJSON args \<Rightarrow>
                      (if TokenExists (ses_UUID s) (CommandName currentAction) args (pendingActionRuns c) then Refused (Ok ())
                       else Cleared (ses_UUID s) currentAction args))))"

text \<open>The token is added.\<close>

definition executeCommand_add :: "gostring \<Rightarrow> uuid \<Rightarrow> ('p, 'c) quick_action \<Rightarrow> gostring \<Rightarrow> ('p, 'c) quick_actions \<Rightarrow> ('p, 'c) quick_actions" where
  "executeCommand_add fresh u currentAction args c =
     c\<lparr>pendingActionRuns := AddInProgressAction fresh u (CommandName currentAction) args (pendingActionRuns c)\<rparr>"

text \<open>The progress bar is asked for and shown; an error removes the token again, by the deferred call.\<close>

definition executeCommand_prepare ::
  "gostring \<Rightarrow> uuid \<Rightarrow> ('p, 'c) quick_action \<Rightarrow> gostring \<Rightarrow> ('p, 'c) quick_actions \<Rightarrow> command_run outcome \<times> ('p, 'c) quick_actions" where
  "executeCommand_prepare token u currentAction args c =
     (let commandName = CommandName currentAction
      in case ProvideWorkDoneProgressParams currentAction args of
           Fail e \<Rightarrow> (Fail e, c\<lparr>pendingActionRuns := DeleteInProgressAction u commandName args (pendingActionRuns c)\<rparr>)
         | Panic \<Rightarrow> (Panic, c\<lparr>pendingActionRuns := DeleteInProgressAction u commandName args (pendingActionRuns c)\<rparr>)
         | Ok info \<Rightarrow>
             (Ok \<lparr>run_task = newTaskIdentifier u commandName args, run_token = token, run_progress = (info \<noteq> None)\<rparr>,
              startWorkDoneProgressMessage token info c))"

text \<open>The cancel function is stored; the action runs.\<close>

definition executeCommand_run :: "command_run \<Rightarrow> ('p, 'c) quick_actions \<Rightarrow> ('p, 'c) quick_actions" where
  "executeCommand_run run c = c\<lparr>pendingCmds := List.insert (run_token run) (pendingCmds c)\<rparr>"

text \<open>The deferred calls, the last one first, when the action has returned.\<close>

definition executeCommand_end :: "command_run \<Rightarrow> ('p, 'c) quick_actions \<Rightarrow> ('p, 'c) quick_actions" where
  "executeCommand_end run c =
     (let c = c\<lparr>qa_calls := qa_calls c @ [CancelContext (run_token run)]\<rparr>;
          c = endWorkDoneProgressMessage (run_token run) (run_progress run) c
      in c\<lparr>pendingActionRuns := DeleteInProgressAction (task_session (run_task run)) (actionName (run_task run))
              (argsToken (run_task run)) (pendingActionRuns c)\<rparr>)"

end
