(* ===== verification/QuickActionsSpec.thy ===== *)
theory QuickActionsSpec
  imports QuickActions DocSyncSpec
begin

text \<open>
  What the quick-actions plugin promises: the actions it offers are those its actions compute for the current version of the document,
  restricted to the lines asked for; a command runs at most once at a time with the same arguments, unless two requests for it race between the check and the token.
\<close>

subsection \<open>The actions of a document\<close>

text \<open>The pairs of a range and an action that are stored for a document, and the results of the enabled actions.\<close>

definition range_pairs :: "(lsp_range \<times> offered_action list) list \<Rightarrow> (lsp_range \<times> offered_action) list" where
  "range_pairs m = concat (map (\<lambda>(r, as). map (Pair r) as) m)"

definition stored_actions :: "range_store \<Rightarrow> uuid \<Rightarrow> uri \<Rightarrow> (lsp_range \<times> offered_action) list" where
  "stored_actions a u d = range_pairs (lookup_list (lookup_list (rs_actions a) u) d)"

definition actions_of :: "action_result list \<Rightarrow> (lsp_range \<times> offered_action) list" where
  "actions_of rs = List.map_filter (\<lambda>r. case r of ResultAction rng x \<Rightarrow> Some (rng, x) | _ \<Rightarrow> None) rs"

definition lenses_of :: "action_result list \<Rightarrow> offered_lens list" where
  "lenses_of rs = List.map_filter (\<lambda>r. case r of ResultLens l \<Rightarrow> Some l | _ \<Rightarrow> None) rs"

definition action_results :: "('p, 'c) session \<Rightarrow> doc_item \<Rightarrow> ('p, 'c) quick_action list \<Rightarrow> action_result list" where
  "action_results s doc actions =
     concat (map (\<lambda>x. case ProcessDocument x doc of Ok rs \<Rightarrow> rs | _ \<Rightarrow> []) (filter (\<lambda>x. IsRelevantDocument x s doc) actions))"

text \<open>Every relevant action processes the document and returns what the plugin supports.\<close>

definition result_ok :: "action_result \<Rightarrow> bool" where
  "result_ok r = (case r of ResultAction rng x \<Rightarrow> act_Kind x \<in> set SupportedCodeActionKinds | ResultLens l \<Rightarrow> True | ResultOther \<Rightarrow> False)"

definition actions_ok :: "('p, 'c) session \<Rightarrow> doc_item \<Rightarrow> ('p, 'c) quick_action list \<Rightarrow> bool" where
  "actions_ok s doc actions \<longleftrightarrow>
     list_all (\<lambda>x. IsRelevantDocument x s doc \<longrightarrow> (case ProcessDocument x doc of Ok rs \<Rightarrow> list_all result_ok rs | _ \<Rightarrow> False)) actions"

lemma mset_range_pairs_update:
  "mset (range_pairs (AList.update r (lookup_list m r @ [x]) m)) = add_mset (r, x) (mset (range_pairs m))"
  by (induction m) (auto simp: range_pairs_def lookup_list_def)

lemma stored_AddCodeAction:
  "mset (stored_actions (AddCodeAction u d r x a) v e) =
     (if v = u \<and> e = d then add_mset (r, x) (mset (stored_actions a v e)) else mset (stored_actions a v e))"
  by (auto simp: stored_actions_def AddCodeAction_def Let_def mset_range_pairs_update)

lemma stored_AddCodeLens [simp]: "stored_actions (AddCodeLens u d l a) = stored_actions a"
  by (intro ext) (simp add: stored_actions_def AddCodeLens_def Let_def)

lemma lenses_AddCodeLens:
  "GetCodeLenses v e (AddCodeLens u d l a) = GetCodeLenses v e a @ (if v = u \<and> e = d then [l] else [])"
  by (auto simp: GetCodeLenses_def AddCodeLens_def Let_def)

lemma lenses_AddCodeAction [simp]: "GetCodeLenses v e (AddCodeAction u d r x a) = GetCodeLenses v e a"
  by (simp add: GetCodeLenses_def AddCodeAction_def Let_def)

lemma actions_of_simps [simp]:
  "actions_of [] = []" "actions_of (ResultAction r x # rs) = (r, x) # actions_of rs" "actions_of (ResultLens l # rs) = actions_of rs"
  "actions_of (xs @ ys) = actions_of xs @ actions_of ys"
  by (simp_all add: actions_of_def map_filter_simps) (simp add: map_filter_def)

lemma lenses_of_simps [simp]:
  "lenses_of [] = []" "lenses_of (ResultAction r x # rs) = lenses_of rs" "lenses_of (ResultLens l # rs) = l # lenses_of rs"
  "lenses_of (xs @ ys) = lenses_of xs @ lenses_of ys"
  by (simp_all add: lenses_of_def map_filter_simps) (simp add: map_filter_def)

lemma add_results_eq:
  assumes "list_all result_ok rs"
  shows "\<exists>a'. add_results u d rs a = (Ok (), a') \<and>
    (\<forall>v e. mset (stored_actions a' v e) = mset (stored_actions a v e) + (if v = u \<and> e = d then mset (actions_of rs) else {#}) \<and>
           GetCodeLenses v e a' = GetCodeLenses v e a @ (if v = u \<and> e = d then lenses_of rs else []))"
  using assms
proof (induction rs arbitrary: a)
  case (Cons r rs)
  show ?case
  proof (cases r)
    case (ResultAction rng x)
    with Cons.IH [of "AddCodeAction u d rng x a"] Cons.prems show ?thesis
      by (auto simp: result_ok_def stored_AddCodeAction)
  next
    case (ResultLens l)
    with Cons.IH [of "AddCodeLens u d l a"] Cons.prems show ?thesis
      by (auto simp: result_ok_def lenses_AddCodeLens)
  qed (use Cons.prems in \<open>simp add: result_ok_def\<close>)
qed simp

lemma action_results_Cons:
  "action_results s doc (x # actions) =
     (if IsRelevantDocument x s doc then (case ProcessDocument x doc of Ok rs \<Rightarrow> rs | _ \<Rightarrow> []) else []) @ action_results s doc actions"
  by (simp add: action_results_def)

lemma process_actions_eq:
  assumes "actions_ok s doc actions"
  shows "\<exists>a'. process_actions s d doc actions a = (Ok (), a') \<and>
    (\<forall>v e. mset (stored_actions a' v e) =
        mset (stored_actions a v e) + (if v = ses_UUID s \<and> e = d then mset (actions_of (action_results s doc actions)) else {#}) \<and>
      GetCodeLenses v e a' = GetCodeLenses v e a @ (if v = ses_UUID s \<and> e = d then lenses_of (action_results s doc actions) else []))"
  using assms
proof (induction actions arbitrary: a)
  case (Cons x actions)
  show ?case
  proof (cases "IsRelevantDocument x s doc")
    case True
    with Cons.prems obtain rs where rs: "ProcessDocument x doc = Ok rs" "list_all result_ok rs"
      by (cases "ProcessDocument x doc") (auto simp: actions_ok_def)
    from add_results_eq [OF rs(2), of "ses_UUID s" d a] obtain a1 where
      a1: "add_results (ses_UUID s) d rs a = (Ok (), a1)"
      "\<And>v e. mset (stored_actions a1 v e) = mset (stored_actions a v e) + (if v = ses_UUID s \<and> e = d then mset (actions_of rs) else {#})"
      "\<And>v e. GetCodeLenses v e a1 = GetCodeLenses v e a @ (if v = ses_UUID s \<and> e = d then lenses_of rs else [])" by blast
    have "actions_ok s doc actions" using Cons.prems by (simp add: actions_ok_def)
    from Cons.IH [OF this, of a1] a1 rs True show ?thesis by (auto simp: action_results_Cons)
  next
    case False
    then have same: "process_actions s d doc (x # actions) a = process_actions s d doc actions a"
      "action_results s doc (x # actions) = action_results s doc actions" by (simp_all add: action_results_Cons)
    have "actions_ok s doc actions" using Cons.prems by (simp add: actions_ok_def)
    from Cons.IH [OF this, of a] show ?thesis unfolding same .
  qed
qed (simp add: action_results_def)

lemma stored_after_delete:
  "stored_actions (DeleteExistingDocumentRanges u d a) v e = (if v = u \<and> e = d then [] else stored_actions a v e)"
  "GetCodeLenses v e (DeleteExistingDocumentRanges u d a) = (if v = u \<and> e = d then [] else GetCodeLenses v e a)"
  by (auto simp: stored_actions_def GetCodeLenses_def DeleteExistingDocumentRanges_def delete_inner_def lookup_list_def
      update_conv' delete_conv' range_pairs_def split: option.split)

lemma matching_mset:
  assumes "\<And>less xs. mset (sort_slice less xs) = mset xs"
  shows "mset (GetMatchingCodeActions sort_slice u d rng a) =
    image_mset snd (filter_mset (\<lambda>p. isLineOverlapping rng (fst p)) (mset (stored_actions a u d)))"
proof -
  have "mset (concat (map (\<lambda>(r, as). if isLineOverlapping rng r then as else []) m)) =
      image_mset snd (filter_mset (\<lambda>p. isLineOverlapping rng (fst p)) (mset (range_pairs m)))" for m
    by (induction m) (auto simp: range_pairs_def filter_mset_eq_conv image_mset.compositionality comp_def
        simp flip: mset_map mset_filter)
  then show ?thesis using assms by (simp add: GetMatchingCodeActions_def stored_actions_def)
qed

lemma SetVersion_eq:
  "\<exists>a'. SetVersion u d n a = ((case map_of (lookup_list (rs_versions a) u) d of None \<Rightarrow> True | Some cur \<Rightarrow> cur < n), a') \<and>
     stored_actions a' = stored_actions a \<and> (\<forall>v e. GetCodeLenses v e a' = GetCodeLenses v e a)"
  by (auto simp: SetVersion_def Let_def ensure_inner_def lookup_list_def update_conv' stored_actions_def GetCodeLenses_def fun_eq_iff
      split: option.splits if_splits)

lemma refresh_new_version:
  assumes "GetFromContext sessions cx = Ok s" and "GetTextDocument sessions cx docs d = Ok doc"
    and "case map_of (lookup_list (rs_versions (currentActionRanges c)) (ses_UUID s)) d of None \<Rightarrow> True | Some cur \<Rightarrow> cur < di_Version doc"
    and "actions_ok s doc (lookup_list (enabledActions c) (ses_UUID s))"
  shows "\<exists>c'. refreshAvailableCodeActions sessions docs cx d c = (Ok (), c') \<and>
    mset (stored_actions (currentActionRanges c') (ses_UUID s) d) =
      mset (actions_of (action_results s doc (lookup_list (enabledActions c) (ses_UUID s)))) \<and>
    GetCodeLenses (ses_UUID s) d (currentActionRanges c') = lenses_of (action_results s doc (lookup_list (enabledActions c) (ses_UUID s))) \<and>
    (\<forall>v e. (v, e) \<noteq> (ses_UUID s, d) \<longrightarrow>
      mset (stored_actions (currentActionRanges c') v e) = mset (stored_actions (currentActionRanges c) v e) \<and>
      GetCodeLenses v e (currentActionRanges c') = GetCodeLenses v e (currentActionRanges c))"
proof -
  from SetVersion_eq [of "ses_UUID s" d "di_Version doc" "currentActionRanges c"] assms(3) obtain a where
    a: "SetVersion (ses_UUID s) d (di_Version doc) (currentActionRanges c) = (True, a)"
    "stored_actions a = stored_actions (currentActionRanges c)" "\<And>v e. GetCodeLenses v e a = GetCodeLenses v e (currentActionRanges c)"
    by auto
  from process_actions_eq [OF assms(4), of d "DeleteExistingDocumentRanges (ses_UUID s) d a"] a assms(1,2) show ?thesis
    by (auto simp: refreshAvailableCodeActions_def qa_session_def stored_after_delete)
qed

text \<open>
  C23. Code actions. When a document has a version that was not processed yet, and the enabled actions that are relevant for it process
  it without an error, the answer to a code-action request adds exactly the actions they computed for that version
  whose lines overlap the range asked for, and nothing else that is stored changes.
\<close>

theorem code_actions_current:
  assumes "GetFromContext sessions cx = Ok s" and "GetTextDocument sessions cx docs d = Ok doc"
    and "case map_of (lookup_list (rs_versions (currentActionRanges c)) (ses_UUID s)) d of None \<Rightarrow> True | Some cur \<Rightarrow> cur < di_Version doc"
    and "actions_ok s doc (lookup_list (enabledActions c) (ses_UUID s))"
    and "\<And>less xs. mset (sort_slice less xs) = mset xs"
  shows "\<exists>result' c'. codeAction sort_slice sessions docs cx d rng result c = (Ok (result @ result'), c') \<and>
    mset result' = mset (map snd (filter (\<lambda>p. isLineOverlapping rng (fst p))
      (actions_of (action_results s doc (lookup_list (enabledActions c) (ses_UUID s)))))) \<and>
    (\<forall>v e. (v, e) \<noteq> (ses_UUID s, d) \<longrightarrow>
      mset (stored_actions (currentActionRanges c') v e) = mset (stored_actions (currentActionRanges c) v e))"
proof -
  from refresh_new_version [OF assms(1-4)] obtain c' where c':
    "refreshAvailableCodeActions sessions docs cx d c = (Ok (), c')"
    "mset (stored_actions (currentActionRanges c') (ses_UUID s) d) =
      mset (actions_of (action_results s doc (lookup_list (enabledActions c) (ses_UUID s))))"
    "\<forall>v e. (v, e) \<noteq> (ses_UUID s, d) \<longrightarrow>
      mset (stored_actions (currentActionRanges c') v e) = mset (stored_actions (currentActionRanges c) v e)" by blast
  with assms(1) matching_mset [of sort_slice "ses_UUID s" d rng "currentActionRanges c'", OF assms(5)] show ?thesis
    by (simp add: codeAction_def qa_session_def)
qed

text \<open>
  A version counts as processed before its actions are computed: after an action failed, the same version is not processed
  again, and the request is answered from what was stored before the failure.
\<close>

lemma failed_refresh_not_repeated:
  assumes "GetFromContext sessions cx = Ok s" and "GetTextDocument sessions cx docs d = Ok doc"
    and "refreshAvailableCodeActions sessions docs cx d c = (Fail e, c')"
  shows "\<exists>c2. refreshAvailableCodeActions sessions docs cx d c' = (Ok (), c2) \<and>
    stored_actions (currentActionRanges c2) = stored_actions (currentActionRanges c')"
proof -
  have versions: "map_of (lookup_list (rs_versions (snd (add_results u d rs a))) u) d = map_of (lookup_list (rs_versions a) u) d" for u rs a
    by (induction u d rs a rule: add_results.induct)
       (auto simp: AddCodeAction_def AddCodeLens_def Let_def ensure_inner_def lookup_list_def update_conv' split: option.splits if_splits)
  have processed: "map_of (lookup_list (rs_versions (snd (process_actions s d doc as a))) (ses_UUID s)) d =
      map_of (lookup_list (rs_versions a) (ses_UUID s)) d" for as a
  proof (induction as arbitrary: a)
    case (Cons x as)
    show ?case
      using Cons.IH versions [of "ses_UUID s" _ a]
      by (auto split: outcome.split prod.split) (metis snd_conv)+
  qed simp
  obtain a where a: "SetVersion (ses_UUID s) d (di_Version doc) (currentActionRanges c) = (True, a)"
    "c' = c\<lparr>currentActionRanges := snd (process_actions s d doc (lookup_list (enabledActions c) (ses_UUID s))
        (DeleteExistingDocumentRanges (ses_UUID s) d a))\<rparr>"
    using assms by (auto simp: refreshAvailableCodeActions_def qa_session_def split: prod.splits if_splits)
  then have "map_of (lookup_list (rs_versions a) (ses_UUID s)) d = Some (di_Version doc)"
    by (auto simp: SetVersion_def Let_def update_conv' split: option.splits if_splits)
  then have "map_of (lookup_list (rs_versions (currentActionRanges c')) (ses_UUID s)) d = Some (di_Version doc)"
    using processed a(2) by (simp add: DeleteExistingDocumentRanges_def)
  with SetVersion_eq [of "ses_UUID s" d "di_Version doc" "currentActionRanges c'"] assms(1,2) show ?thesis
    by (auto simp: refreshAvailableCodeActions_def qa_session_def)
qed

text \<open>The order that is given to \<^verbatim>\<open>sort.Slice\<close> is not strict: an action with a command comes before itself.\<close>

lemma compareCodeActions_not_strict: "act_Command x = Some cmd \<Longrightarrow> compareCodeActions x x"
  by (simp add: compareCodeActions_def string_le_def)

subsection \<open>Running commands\<close>

text \<open>
  The calls of \<^verbatim>\<open>executeCommand\<close> that are in flight: after the check, after the token was added, after the
  progress bar was shown, and while the action runs.
\<close>

datatype ('p, 'c) command_call =
    CheckedCall uuid "('p, 'c) quick_action" gostring
  | AddedCall uuid "('p, 'c) quick_action" gostring gostring
  | PreparedCall command_run
  | RunningCall command_run

fun call_task :: "('p, 'c) command_call \<Rightarrow> task_identifier" where
  "call_task (CheckedCall u x args) = newTaskIdentifier u (CommandName x) args"
| "call_task (AddedCall u x args token) = newTaskIdentifier u (CommandName x) args"
| "call_task (PreparedCall run) = run_task run"
| "call_task (RunningCall run) = run_task run"

fun only_checked :: "('p, 'c) command_call \<Rightarrow> bool" where
  "only_checked (CheckedCall u x args) = True"
| "only_checked _ = False"

definition calls_of :: "task_identifier \<Rightarrow> ('p, 'c) command_call multiset \<Rightarrow> ('p, 'c) command_call multiset" where
  "calls_of t calls = {#k \<in># calls. call_task k = t#}"

text \<open>
  All interleavings of commands, requests, cancellations and ends of sessions. The last argument collects the tasks that met a race: a
  check passed while another call of the task stood between its check and its token, or the session ended while a call of the task was in flight.
\<close>

inductive qa_reachable :: "('p, 'c) quick_actions \<Rightarrow> ('p, 'c) command_call multiset \<Rightarrow> task_identifier set \<Rightarrow> bool" where
  new: "qa_reachable NewQuickActions {#} {}"
| enabled: "qa_reachable c calls raced \<Longrightarrow> qa_reachable (snd (enable_actions s actions cmds c)) calls raced"
| check: "qa_reachable c calls raced \<Longrightarrow> executeCommand_check sessions cx command arguments c = Cleared u x args \<Longrightarrow>
    t = newTaskIdentifier u (CommandName x) args \<Longrightarrow>
    raced' = (if \<exists>k \<in># calls_of t calls. only_checked k then insert t raced else raced) \<Longrightarrow>
    qa_reachable c (add_mset (CheckedCall u x args) calls) raced'"
| add: "qa_reachable c (add_mset (CheckedCall u x args) calls) raced \<Longrightarrow>
    qa_reachable (executeCommand_add fresh u x args c) (add_mset (AddedCall u x args fresh) calls) raced"
| prepare: "qa_reachable c (add_mset (AddedCall u x args token) calls) raced \<Longrightarrow>
    executeCommand_prepare token u x args c = (Ok run, c') \<Longrightarrow> qa_reachable c' (add_mset (PreparedCall run) calls) raced"
| failed: "qa_reachable c (add_mset (AddedCall u x args token) calls) raced \<Longrightarrow>
    executeCommand_prepare token u x args c = (r, c') \<Longrightarrow> r \<notin> range Ok \<Longrightarrow> qa_reachable c' calls raced"
| run: "qa_reachable c (add_mset (PreparedCall run) calls) raced \<Longrightarrow>
    qa_reachable (executeCommand_run run c) (add_mset (RunningCall run) calls) raced"
| ended: "qa_reachable c (add_mset (RunningCall run) calls) raced \<Longrightarrow> qa_reachable (executeCommand_end run c) calls raced"
| cancel: "qa_reachable c calls raced \<Longrightarrow> qa_reachable (qa_cancelPendingCmd token c) calls raced"
| refresh: "qa_reachable c calls raced \<Longrightarrow> qa_reachable (snd (refreshAvailableCodeActions sessions docs cx d c)) calls raced"
| close: "qa_reachable c calls raced \<Longrightarrow> qa_reachable (snd (qa_didClose sessions cx d c)) calls raced"
| end_cancel: "qa_reachable c calls raced \<Longrightarrow> qa_reachable (endSession_cancel u c) calls raced"
| end_delete: "qa_reachable c calls raced \<Longrightarrow>
    qa_reachable (endSession_delete u c) calls (raced \<union> {t. task_session t = u \<and> calls_of t calls \<noteq> {#}})"

text \<open>A task without a race: no call, a call that was only checked, or one call whose token is in the store.\<close>

definition task_inv :: "task_identifier \<Rightarrow> ('p, 'c) quick_actions \<Rightarrow> ('p, 'c) command_call multiset \<Rightarrow> bool" where
  "task_inv t c calls \<longleftrightarrow>
     calls_of t calls = {#} \<and> map_of (pendingActionRuns c) t = None \<or>
     (\<exists>k. calls_of t calls = {#k#} \<and> (only_checked k \<longleftrightarrow> map_of (pendingActionRuns c) t = None))"

lemma calls_of_add [simp]: "calls_of t (add_mset k calls) = (if call_task k = t then add_mset k (calls_of t calls) else calls_of t calls)"
  by (simp add: calls_of_def)

lemma calls_of_empty [simp]: "calls_of t {#} = {#}"
  by (simp add: calls_of_def)

lemma task_inv_add:
  "task_inv t c (add_mset k calls) \<longleftrightarrow>
     (if call_task k = t then calls_of t calls = {#} \<and> (only_checked k \<longleftrightarrow> map_of (pendingActionRuns c) t = None) else task_inv t c calls)"
  by (auto simp: task_inv_def)

lemma task_inv_none: "calls_of t calls = {#} \<Longrightarrow> task_inv t c calls \<longleftrightarrow> map_of (pendingActionRuns c) t = None"
  by (simp add: task_inv_def)

lemma task_inv_keep: "task_inv t c calls \<Longrightarrow> map_of (pendingActionRuns c') t = map_of (pendingActionRuns c) t \<Longrightarrow> task_inv t c' calls"
  by (simp add: task_inv_def)

lemma enable_actions_runs: "pendingActionRuns (snd (enable_actions s actions cmds c)) = pendingActionRuns c"
  by (induction s actions cmds c rule: enable_actions.induct) auto

lemma refresh_runs: "pendingActionRuns (snd (refreshAvailableCodeActions sessions docs cx d c)) = pendingActionRuns c"
  by (auto simp: refreshAvailableCodeActions_def split: outcome.split prod.split)

lemma cancel_runs: "pendingActionRuns (qa_cancelPendingCmd token c) = pendingActionRuns c"
  by (simp add: qa_cancelPendingCmd_def)

lemma fold_cancel_runs: "pendingActionRuns (fold qa_cancelPendingCmd ts c) = pendingActionRuns c"
  by (induction ts arbitrary: c) (simp_all add: cancel_runs)

lemma end_cancel_runs: "pendingActionRuns (endSession_cancel u c) = pendingActionRuns c"
  by (simp add: endSession_cancel_def Let_def fold_cancel_runs)

lemma delete_runs: "map_of (runs_DeleteSession u p) t = (if task_session t = u then None else map_of p t)"
  by (induction p) (auto simp: runs_DeleteSession_def)

lemma task_of_fields: "newTaskIdentifier (task_session t) (actionName t) (argsToken t) = t"
  by (simp add: newTaskIdentifier_def)

lemma DeleteInProgressAction_map_of:
  "map_of (DeleteInProgressAction u name args p) t = (if t = newTaskIdentifier u name args then None else map_of p t)"
  by (auto simp: DeleteInProgressAction_def delete_conv')

lemma end_runs: "map_of (pendingActionRuns (executeCommand_end run c)) t = (if t = run_task run then None else map_of (pendingActionRuns c) t)"
  by (simp add: executeCommand_end_def Let_def DeleteInProgressAction_map_of task_of_fields endWorkDoneProgressMessage_def)

lemma add_runs:
  "map_of (pendingActionRuns (executeCommand_add fresh u x args c)) t =
     (if t = newTaskIdentifier u (CommandName x) args then Some fresh else map_of (pendingActionRuns c) t)"
  by (simp add: executeCommand_add_def AddInProgressAction_def update_conv')

lemma prepare_runs:
  assumes "executeCommand_prepare token u x args c = (r, c')"
  shows "map_of (pendingActionRuns c') t =
      (if t = newTaskIdentifier u (CommandName x) args \<and> r \<notin> range Ok then None else map_of (pendingActionRuns c) t) \<and>
    (\<forall>run. r = Ok run \<longrightarrow> run_task run = newTaskIdentifier u (CommandName x) args)"
  using assms
  by (auto simp: executeCommand_prepare_def Let_def DeleteInProgressAction_map_of startWorkDoneProgressMessage_def
      split: outcome.splits option.splits)

lemma check_passes:
  assumes "executeCommand_check sessions cx command arguments c = Cleared u x args"
  shows "map_of (pendingActionRuns c) (newTaskIdentifier u (CommandName x) args) = None"
  using assms by (auto simp: executeCommand_check_def TokenExists_def split: outcome.splits option.splits if_splits command_argument.splits)

lemma qa_reachable_inv: "qa_reachable c calls raced \<Longrightarrow> t \<notin> raced \<Longrightarrow> task_inv t c calls"
proof (induction rule: qa_reachable.induct)
  case (check c calls raced sessions cx command arguments u x args t' raced')
  show ?case
  proof (cases "t' = t")
    case True
    have "task_inv t c calls" "\<not> (\<exists>k \<in># calls_of t calls. only_checked k)" using check True by (auto split: if_splits)
    then have "calls_of t calls = {#}" using check_passes [OF check.hyps(2)] check.hyps(3) True by (auto simp: task_inv_def)
    then show ?thesis using check_passes [OF check.hyps(2)] check.hyps(3) True by (simp add: task_inv_add)
  qed (use check in \<open>auto simp: task_inv_add split: if_splits\<close>)
next
  case (end_delete c calls raced u)
  then show ?case by (auto simp: task_inv_def endSession_delete_def delete_runs)
next
  case (prepare c u x args token calls raced run c')
  then show ?case using prepare_runs [OF prepare.hyps(2), of t] by (auto simp: task_inv_add intro: task_inv_keep split: if_splits)
next
  case (failed c u x args token calls raced r c')
  then show ?case
    using prepare_runs [OF failed.hyps(2), of t] by (auto simp: task_inv_add task_inv_none intro: task_inv_keep split: if_splits)
next
  case (ended c run calls raced)
  then show ?case by (auto simp: task_inv_add task_inv_none end_runs intro: task_inv_keep split: if_splits)
next
  case (add c u x args calls raced fresh)
  then show ?case by (auto simp: task_inv_add add_runs intro: task_inv_keep split: if_splits)
next
  case (run c run calls raced)
  then show ?case by (auto simp: task_inv_add executeCommand_run_def intro: task_inv_keep split: if_splits)
next
  case (close c calls raced sessions cx d)
  then show ?case by (auto simp: qa_didClose_def intro: task_inv_keep split: outcome.split)
qed (auto simp: task_inv_def NewQuickActions_def enable_actions_runs refresh_runs cancel_runs end_cancel_runs)

text \<open>
  C22. A command runs at most once at a time, unless a race is met. In every interleaving of the locked steps of all calls, take a task, that
  is a session, a command name and its arguments, of which no check passed while another call of the task stood between its check and its token,
  and whose session did not end under a call. At most one call of the task is past its check; the token is in the store exactly from the step
  that adds it to the step that deletes it; and in between a request for the same task returns at once. Since the check and the
  token are separate steps the condition is needed: \<open>commands_race\<close>.
\<close>

theorem commands_run_once:
  assumes "qa_reachable c calls raced" and "t \<notin> raced"
  shows "size {#k \<in># calls. call_task k = t#} \<le> 1 \<and>
    (TokenExists (task_session t) (actionName t) (argsToken t) (pendingActionRuns c) \<longleftrightarrow> (\<exists>k \<in># calls. call_task k = t \<and> \<not> only_checked k)) \<and>
    ((\<exists>k \<in># calls. call_task k = t \<and> \<not> only_checked k) \<and> GetFromContext sessions cx = Ok s \<and> ses_UUID s = task_session t \<and>
     find (\<lambda>a. CommandName a = actionName t) (lookup_list (enabledActions c) (ses_UUID s)) = Some x \<longrightarrow>
       executeCommand_check sessions cx (actionName t) [RawJSON (argsToken t)] c = Refused (Ok ()))"
proof -
  have calls: "k \<in># calls \<and> call_task k = t \<longleftrightarrow> k \<in># calls_of t calls" for k by (simp add: calls_of_def)
  have inv: "task_inv t c calls" by (rule qa_reachable_inv [OF assms])
  then have once: "size (calls_of t calls) \<le> 1" by (auto simp: task_inv_def)
  have token: "TokenExists (task_session t) (actionName t) (argsToken t) (pendingActionRuns c) \<longleftrightarrow> (\<exists>k \<in># calls. call_task k = t \<and> \<not> only_checked k)"
  proof -
    have "(\<exists>k \<in># calls. call_task k = t \<and> \<not> only_checked k) \<longleftrightarrow> (\<exists>k \<in># calls_of t calls. \<not> only_checked k)" using calls by blast
    then show ?thesis using inv by (auto simp: task_inv_def TokenExists_def task_of_fields)
  qed
  have refused: "executeCommand_check sessions cx (actionName t) [RawJSON (argsToken t)] c = Refused (Ok ())"
    if "\<exists>k \<in># calls. call_task k = t \<and> \<not> only_checked k" "GetFromContext sessions cx = Ok s" "ses_UUID s = task_session t"
      "find (\<lambda>a. CommandName a = actionName t) (lookup_list (enabledActions c) (ses_UUID s)) = Some x"
  proof -
    have "CommandName x = actionName t" using that(4) by (auto simp: find_Some_iff)
    with that token show ?thesis by (simp add: executeCommand_check_def qa_session_def)
  qed
  show ?thesis using once token refused unfolding calls_of_def by blast
qed

text \<open>The cancel function of a command that has ended stays in the map; only a cancellation removes it.\<close>

lemma ended_command_stays_pending: "pendingCmds (executeCommand_end run c) = pendingCmds c"
  by (simp add: executeCommand_end_def Let_def endWorkDoneProgressMessage_def)

subsection \<open>Witnesses\<close>

definition refactor_action :: "(unit, unit) quick_action" where
  "refactor_action =
     \<lparr>CommandName = ''run'', ShouldEnable = (\<lambda>s. True), IsRelevantDocument = (\<lambda>s d. True),
      ProcessDocument = (\<lambda>d. Ok [ResultAction zero_range \<lparr>act_Title = ''t'', act_Kind = ''refactor'', act_Command = Some ''run''\<rparr>]),
      ProvideWorkDoneProgressParams = (\<lambda>a. Ok None)\<rparr>"

definition sample_quick_actions :: "(unit, unit) quick_actions" where
  "sample_quick_actions = snd (enable_actions sample_session [refactor_action] [] NewQuickActions)"

lemma sample_enabled: "lookup_list (enabledActions sample_quick_actions) (ses_UUID sample_session) = [refactor_action]"
  by (simp add: sample_quick_actions_def refactor_action_def NewQuickActions_def lookup_list_def)

lemma sample_from_context: "GetFromContext sample_sessions (Some ''u'') = Ok sample_session"
  by (simp add: GetFromContext_def ContextToSessionUUID_def sample_sessions_def GetSession_Set sample_session_def UUIDToSession_def)

theorem code_actions_current_witness:
  "\<exists>x c'. codeAction (\<lambda>less xs. xs) sample_sessions open_sync (Some ''u'') ''a'' zero_range [] sample_quick_actions = (Ok [x], c') \<and>
     act_Title x = ''t''"
proof -
  have doc: "GetTextDocument sample_sessions (Some ''u'') open_sync ''a'' = Ok sample_item"
    by (simp add: GetTextDocument_def getDocumentStoreEntry_def sample_uuid open_sync_eq start_sync_def newDocumentStoreEntry_def)
  have none: "case map_of (lookup_list (rs_versions (currentActionRanges sample_quick_actions)) (ses_UUID sample_session)) ''a'' of
      None \<Rightarrow> True | Some cur \<Rightarrow> cur < di_Version sample_item"
    by (simp add: sample_quick_actions_def refactor_action_def NewQuickActions_def newActionRangeStore_def)
  have ok: "actions_ok sample_session sample_item (lookup_list (enabledActions sample_quick_actions) (ses_UUID sample_session))"
    by (simp add: sample_enabled actions_ok_def refactor_action_def result_ok_def SupportedCodeActionKinds_def)
  have "filter (\<lambda>p. isLineOverlapping zero_range (fst p)) (actions_of (action_results sample_session sample_item [refactor_action])) =
      [(zero_range, \<lparr>act_Title = ''t'', act_Kind = ''refactor'', act_Command = Some ''run''\<rparr>)]"
    by (simp add: action_results_def refactor_action_def isLineOverlapping_def zero_range_def)
  with code_actions_current [OF sample_from_context doc none ok, of "\<lambda>less xs. xs" zero_range "[]"] show ?thesis
    by (auto simp: sample_enabled)
qed

text \<open>A command that is running, from the request to the action.\<close>

definition sample_run :: command_run where
  "sample_run = \<lparr>run_task = newTaskIdentifier ''u'' ''run'' ''{}'', run_token = ''tok'', run_progress = False\<rparr>"

definition running_actions :: "(unit, unit) quick_actions" where
  "running_actions = executeCommand_run sample_run
     (snd (executeCommand_prepare ''tok'' ''u'' refactor_action ''{}'' (executeCommand_add ''tok'' ''u'' refactor_action ''{}'' sample_quick_actions)))"

lemma sample_check:
  "executeCommand_check sample_sessions (Some ''u'') ''run'' [RawJSON ''{}''] sample_quick_actions = Cleared ''u'' refactor_action ''{}''"
  by (simp add: executeCommand_check_def qa_session_def sample_from_context sample_enabled TokenExists_def sample_quick_actions_def
      refactor_action_def NewQuickActions_def sample_session_def UUIDToSession_def lookup_list_def)

lemma sample_prepare:
  "executeCommand_prepare token ''u'' refactor_action ''{}'' c =
     (Ok \<lparr>run_task = newTaskIdentifier ''u'' ''run'' ''{}'', run_token = token, run_progress = False\<rparr>, c)"
  by (simp add: executeCommand_prepare_def refactor_action_def startWorkDoneProgressMessage_def)

lemma checked_reachable: "qa_reachable sample_quick_actions {#CheckedCall ''u'' refactor_action ''{}''#} {}"
  by (rule qa_reachable.check [OF qa_reachable.enabled [OF qa_reachable.new, of sample_session "[refactor_action]" "[]", folded sample_quick_actions_def]
        sample_check refl]) simp

lemma running_reachable: "qa_reachable running_actions {#RunningCall sample_run#} {}"
  unfolding running_actions_def
  using qa_reachable.run [OF qa_reachable.prepare [OF qa_reachable.add [OF checked_reachable, of "''tok''"] sample_prepare]]
  by (simp add: sample_prepare sample_run_def)

theorem commands_run_once_witness:
  "executeCommand_check sample_sessions (Some ''u'') ''run'' [RawJSON ''{}''] running_actions = Refused (Ok ())"
proof -
  have "enabledActions running_actions = enabledActions sample_quick_actions"
    by (simp add: running_actions_def sample_prepare executeCommand_add_def executeCommand_run_def)
  then have "find (\<lambda>a. CommandName a = ''run'') (lookup_list (enabledActions running_actions) (ses_UUID sample_session)) = Some refactor_action"
    by (simp add: sample_enabled refactor_action_def)
  with commands_run_once [OF running_reachable, of "newTaskIdentifier ''u'' ''run'' ''{}''" sample_sessions "Some ''u''" sample_session refactor_action]
  show ?thesis by (simp add: sample_from_context sample_run_def newTaskIdentifier_def sample_session_def UUIDToSession_def)
qed

text \<open>The race: two requests for the same task pass the check one after the other, and both commands run.\<close>

lemma commands_race:
  "\<exists>(c :: (unit, unit) quick_actions) run run' raced. qa_reachable c {#RunningCall run, RunningCall run'#} raced \<and> run_task run = run_task run'"
proof -
  let ?t = "newTaskIdentifier ''u'' ''run'' ''{}''"
  let ?run = "\<lambda>token. \<lparr>run_task = ?t, run_token = token, run_progress = False\<rparr>"
  let ?call = "CheckedCall ''u'' refactor_action ''{}''"
  have "qa_reachable sample_quick_actions {#?call, ?call#} {?t}"
    by (rule qa_reachable.check [OF checked_reachable sample_check refl]) (simp add: refactor_action_def)
  from qa_reachable.run [OF qa_reachable.prepare [OF qa_reachable.add [OF this, of "''t1''"] sample_prepare]] obtain c where
    "qa_reachable c {#?call, RunningCall (?run ''t1'')#} {?t}" by (auto simp: add_mset_commute)
  from qa_reachable.run [OF qa_reachable.prepare [OF qa_reachable.add [OF this, of "''t2''"] sample_prepare]]
  have "qa_reachable (executeCommand_run (?run ''t2'') (executeCommand_add ''t2'' ''u'' refactor_action ''{}'' c))
      {#RunningCall (?run ''t2''), RunningCall (?run ''t1'')#} {?t}" .
  moreover have "run_task (?run ''t2'') = run_task (?run ''t1'')" by simp
  ultimately show ?thesis by blast
qed

end
