(* ===== verification/Indexer.thy ===== *)
theory Indexer
  imports DocSyncSpec Plugins "HOL-Library.Multiset"
begin

text \<open>
  \<^verbatim>\<open>src/ulsp/controller/indexer\<close>: running the external indexer when documents are opened and saved. A run of the indexer takes long, so
  \<^verbatim>\<open>syncIndex\<close> is split where other requests can come in between: the check whether the key is being indexed, the
  mark, the start of a run, and at its end the look at the mark, the removal of the entry and the start of the next run. Each of these steps takes the
  lock of the store once. \<open>syncIndex\<close>, \<open>finish_indexing\<close> and \<open>ix_workDoneProgressCancel\<close> put the steps together. A cancel function is known by the token that was made with it;
  cancellations and progress messages are logged. What the indexer itself returns is only counted and logged by the code.
  The target of a Java file (\<^verbatim>\<open>java-utils\<close>) is an argument.
\<close>

subsection \<open>Pending commands (\<^verbatim>\<open>pending_cmd_store.go\<close>)\<close>

record cmd_val =
  cv_token :: gostring
  cv_needsReindexing :: bool

type_synonym pending_cmds = "(gostring \<times> cmd_val) list"

definition setPendingCmd :: "gostring \<Rightarrow> gostring \<Rightarrow> pending_cmds \<Rightarrow> pending_cmds" where
  "setPendingCmd fresh key p = AList.update key \<lparr>cv_token = fresh, cv_needsReindexing = False\<rparr> p"

definition getPendingCmd :: "gostring \<Rightarrow> pending_cmds \<Rightarrow> gostring option" where
  "getPendingCmd key p = map_option cv_token (map_of p key)"

definition deletePendingCmd :: "gostring \<Rightarrow> pending_cmds \<Rightarrow> bool \<times> pending_cmds" where
  "deletePendingCmd key p = (if map_of p key = None then (False, p) else (True, AList.delete key p))"

text \<open>The keys of a session begin with its UUID; the tokens whose commands are cancelled.\<close>

definition cleanSession :: "uuid \<Rightarrow> pending_cmds \<Rightarrow> gostring list \<times> pending_cmds" where
  "cleanSession u p = (map (cv_token \<circ> snd) (filter (\<lambda>(k, v). prefix u k) p), filter (\<lambda>(k, v). \<not> prefix u k) p)"

definition getContainingKey :: "gostring \<Rightarrow> pending_cmds \<Rightarrow> gostring outcome" where
  "getContainingKey token p =
     (case find (\<lambda>(k, v). cv_token v = token) p of
        Some (k, v) \<Rightarrow> Ok k
      | None \<Rightarrow> Fail (Errorf ''no key found for token: %s'' [FStr token]))"

definition markForReindexing :: "gostring \<Rightarrow> pending_cmds \<Rightarrow> bool \<times> pending_cmds" where
  "markForReindexing key p =
     (case map_of p key of
        None \<Rightarrow> (False, p)
      | Some val \<Rightarrow> (True, AList.update key (val\<lparr>cv_needsReindexing := True\<rparr>) p))"

definition needsReindexing :: "gostring \<Rightarrow> pending_cmds \<Rightarrow> bool" where
  "needsReindexing key p = (case map_of p key of None \<Rightarrow> False | Some val \<Rightarrow> cv_needsReindexing val)"

subsection \<open>The plugin (\<^verbatim>\<open>indexer.go\<close>, \<^verbatim>\<open>java_indexer.go\<close>)\<close>

record indexer_impl =
  ix_IsRelevantDocument :: "doc_item \<Rightarrow> bool"
  ix_GetUniqueIndexKey :: "doc_item \<Rightarrow> gostring outcome"

definition NewJavaIndexer :: "(gostring \<Rightarrow> uri \<Rightarrow> gostring outcome) \<Rightarrow> ('p, 'c) session \<Rightarrow> indexer_impl" where
  "NewJavaIndexer GetJavaTarget s =
     \<lparr>ix_IsRelevantDocument = (\<lambda>doc. di_LanguageID doc = ''java'' \<or> di_LanguageID doc = ''scala''),
      ix_GetUniqueIndexKey = (\<lambda>doc. obind (GetJavaTarget (ses_WorkspaceRoot s) (di_URI doc)) (\<lambda>target.
        Ok (ses_UUID s @ ''_'' @ target)))\<rparr>"

datatype ix_call = IxCreate ctx gostring | IxBegin ctx gostring uri | IxEnd ctx gostring | IxCancel gostring

record indexer_ctrl =
  ix_indexer :: "(uuid \<times> indexer_impl) list"
  ix_pendingCmds :: pending_cmds
  ix_calls :: "ix_call list"
  ix_logOpen :: bool

record index_run =
  ir_ctx :: ctx
  ir_key :: gostring
  ir_doc :: doc_item
  ir_token :: gostring

definition NewIndexer :: indexer_ctrl where
  "NewIndexer = \<lparr>ix_indexer = [], ix_pendingCmds = [], ix_calls = [], ix_logOpen = False\<rparr>"

text \<open>\<open>java\<close> says whether Java is enabled for a repository; \<open>openLog\<close> opens the log file.\<close>

definition ix_initialize ::
  "('p, 'c) repository \<Rightarrow> (gostring \<Rightarrow> bool) \<Rightarrow> unit outcome \<Rightarrow> (gostring \<Rightarrow> uri \<Rightarrow> gostring outcome) \<Rightarrow> ctx \<Rightarrow> indexer_ctrl \<Rightarrow>
   unit outcome \<times> indexer_ctrl" where
  "ix_initialize sessions java openLog GetJavaTarget cx c =
     (case wrap_err (Errorf ''initializing: %w'' []) (GetFromContext sessions cx) of
        Fail e \<Rightarrow> (Fail e, c)
      | Panic \<Rightarrow> (Panic, c)
      | Ok s \<Rightarrow>
          if \<not> java (ses_Monorepo s) then (Ok (), c)
          else case (if ix_logOpen c then Ok () else wrap_err (Errorf ''setting up log file: %w'' []) openLog) of
              Fail e \<Rightarrow> (Fail e, c)
            | Panic \<Rightarrow> (Panic, c)
            | Ok _ \<Rightarrow> (Ok (), c\<lparr>ix_logOpen := True, ix_indexer := AList.update (ses_UUID s) (NewJavaIndexer GetJavaTarget s) (ix_indexer c)\<rparr>))"

text \<open>The check of \<^verbatim>\<open>syncIndex\<close> decides how the call goes on: it returns, it sets the mark of the key, or it starts a run.\<close>

datatype sync_start = SyncReturned "unit outcome" | SyncMark gostring | SyncGoOn gostring

definition sync_check :: "('p, 'c) repository \<Rightarrow> ctx \<Rightarrow> doc_item \<Rightarrow> indexer_ctrl \<Rightarrow> sync_start" where
  "sync_check sessions cx doc c =
     (case wrap_err (Errorf ''initializing: %w'' []) (GetFromContext sessions cx) of
        Fail e \<Rightarrow> SyncReturned (Fail e)
      | Panic \<Rightarrow> SyncReturned Panic
      | Ok s \<Rightarrow>
          (case map_of (ix_indexer c) (ses_UUID s) of
             None \<Rightarrow> SyncReturned (Ok ())
           | Some indexer \<Rightarrow>
               if \<not> ix_IsRelevantDocument indexer doc then SyncReturned (Ok ())
               else case ix_GetUniqueIndexKey indexer doc of
                   Fail e \<Rightarrow> SyncReturned (Ok ())
                 | Panic \<Rightarrow> SyncReturned Panic
                 | Ok cmdKey \<Rightarrow> if getPendingCmd cmdKey (ix_pendingCmds c) \<noteq> None then SyncMark cmdKey else SyncGoOn cmdKey))"

definition sync_mark :: "gostring \<Rightarrow> indexer_ctrl \<Rightarrow> indexer_ctrl" where
  "sync_mark cmdKey c = c\<lparr>ix_pendingCmds := snd (markForReindexing cmdKey (ix_pendingCmds c))\<rparr>"

definition syncIndex :: "('p, 'c) repository \<Rightarrow> ctx \<Rightarrow> doc_item \<Rightarrow> indexer_ctrl \<Rightarrow> sync_start \<times> indexer_ctrl" where
  "syncIndex sessions cx doc c =
     (case sync_check sessions cx doc c of
        SyncMark cmdKey \<Rightarrow> (SyncReturned (Ok ()), sync_mark cmdKey c)
      | r \<Rightarrow> (r, c))"

definition sendIndexStartNotification :: "(ctx \<Rightarrow> gostring \<Rightarrow> bool) \<Rightarrow> ctx \<Rightarrow> gostring \<Rightarrow> uri \<Rightarrow> indexer_ctrl \<Rightarrow> indexer_ctrl" where
  "sendIndexStartNotification creates cx token u c =
     c\<lparr>ix_calls := ix_calls c @ IxCreate cx token # (if creates cx token then [IxBegin cx token u] else [])\<rparr>"

definition sendIndexEndNotification :: "ctx \<Rightarrow> gostring \<Rightarrow> indexer_ctrl \<Rightarrow> indexer_ctrl" where
  "sendIndexEndNotification cx token c = c\<lparr>ix_calls := ix_calls c @ [IxEnd cx token]\<rparr>"

text \<open>
  \<^verbatim>\<open>startIndexingOperation\<close> up to the run of the indexer, and the deferred calls after it. \<open>creates\<close> says whether the client accepts a
  new progress. A follow-up run has the background context, which has no session. The deferred \<^verbatim>\<open>cancelFunc\<close> only releases the context of a
  run that has ended.
\<close>

definition start_indexing ::
  "(ctx \<Rightarrow> gostring \<Rightarrow> bool) \<Rightarrow> gostring \<Rightarrow> ctx \<Rightarrow> gostring \<Rightarrow> doc_item \<Rightarrow> indexer_ctrl \<Rightarrow> index_run \<times> indexer_ctrl" where
  "start_indexing creates fresh cx cmdKey doc c =
     (let c = c\<lparr>ix_pendingCmds := setPendingCmd fresh cmdKey (ix_pendingCmds c)\<rparr>
      in (\<lparr>ir_ctx = cx, ir_key = cmdKey, ir_doc = doc, ir_token = fresh\<rparr>, sendIndexStartNotification creates cx fresh (di_URI doc) c))"

definition finish_read :: "index_run \<Rightarrow> indexer_ctrl \<Rightarrow> bool \<times> indexer_ctrl" where
  "finish_read run c = (needsReindexing (ir_key run) (ix_pendingCmds c), sendIndexEndNotification (ir_ctx run) (ir_token run) c)"

definition finish_delete :: "index_run \<Rightarrow> indexer_ctrl \<Rightarrow> indexer_ctrl" where
  "finish_delete run c = c\<lparr>ix_pendingCmds := snd (deletePendingCmd (ir_key run) (ix_pendingCmds c))\<rparr>"

definition finish_restart ::
  "(ctx \<Rightarrow> gostring \<Rightarrow> bool) \<Rightarrow> gostring \<Rightarrow> index_run \<Rightarrow> indexer_ctrl \<Rightarrow> index_run \<times> indexer_ctrl" where
  "finish_restart creates fresh run c = start_indexing creates fresh None (ir_key run) (ir_doc run) c"

definition finish_indexing ::
  "(ctx \<Rightarrow> gostring \<Rightarrow> bool) \<Rightarrow> gostring \<Rightarrow> index_run \<Rightarrow> indexer_ctrl \<Rightarrow> index_run option \<times> indexer_ctrl" where
  "finish_indexing creates fresh run c =
     (let (reindex, c) = finish_read run c;
          c = finish_delete run c
      in if reindex
         then (let (run', c) = finish_restart creates fresh run c in (Some run', c))
         else (None, c))"

definition ix_didOpen :: "('p, 'c) repository \<Rightarrow> ctx \<Rightarrow> doc_item \<Rightarrow> indexer_ctrl \<Rightarrow> sync_start \<times> indexer_ctrl" where
  "ix_didOpen sessions cx doc c = syncIndex sessions cx doc c"

definition ix_didSave :: "('p, 'c) repository \<Rightarrow> doc_sync \<Rightarrow> ctx \<Rightarrow> uri \<Rightarrow> indexer_ctrl \<Rightarrow> sync_start \<times> indexer_ctrl" where
  "ix_didSave sessions docs cx d c =
     (case GetTextDocument sessions cx docs d of
        Ok doc \<Rightarrow> syncIndex sessions cx doc c
      | Fail e \<Rightarrow> (SyncReturned (Fail e), c)
      | Panic \<Rightarrow> (SyncReturned Panic, c))"

definition ix_endSession :: "uuid \<Rightarrow> indexer_ctrl \<Rightarrow> unit outcome \<times> indexer_ctrl" where
  "ix_endSession u c =
     (let (cancelled, p) = cleanSession u (ix_pendingCmds c)
      in (Ok (), c\<lparr>ix_pendingCmds := p, ix_calls := ix_calls c @ map IxCancel cancelled\<rparr>))"

text \<open>A cancellation finds the key of the token, calls the cancel function of the key, which is nil if the entry is gone, and removes the entry.\<close>

definition cancel_call :: "gostring \<Rightarrow> indexer_ctrl \<Rightarrow> unit outcome \<times> indexer_ctrl" where
  "cancel_call key c =
     (case getPendingCmd key (ix_pendingCmds c) of
        None \<Rightarrow> (Panic, c)
      | Some t \<Rightarrow> (Ok (), c\<lparr>ix_calls := ix_calls c @ [IxCancel t]\<rparr>))"

definition cancel_delete :: "gostring \<Rightarrow> indexer_ctrl \<Rightarrow> indexer_ctrl" where
  "cancel_delete key c = c\<lparr>ix_pendingCmds := snd (deletePendingCmd key (ix_pendingCmds c))\<rparr>"

definition ix_workDoneProgressCancel :: "gostring \<Rightarrow> indexer_ctrl \<Rightarrow> unit outcome \<times> indexer_ctrl" where
  "ix_workDoneProgressCancel token c =
     (case getContainingKey token (ix_pendingCmds c) of
        Ok key \<Rightarrow>
          (case cancel_call key c of
             (Ok _, c) \<Rightarrow> (Ok (), cancel_delete key c)
           | (r, c) \<Rightarrow> (r, c))
      | _ \<Rightarrow> (Ok (), c))"

text \<open>\<^verbatim>\<open>UpdateEnv\<close> overwrites entries of the slice it is given and appends the missing ones.\<close>

definition update_entry :: "gostring \<Rightarrow> gostring \<Rightarrow> gostring" where
  "update_entry wsRoot v =
     (if prefix ''WORKSPACE_ROOT='' v then ''WORKSPACE_ROOT='' @ wsRoot
      else if prefix ''PROJECT_ROOT='' v then ''PROJECT_ROOT='' @ wsRoot else v)"

definition UpdateEnv :: "gostring list \<Rightarrow> gostring \<Rightarrow> gostring list" where
  "UpdateEnv env wsRoot =
     (let workspaceUpdated = list_ex (prefix ''WORKSPACE_ROOT='') env;
          projectUpdated = list_ex (prefix ''PROJECT_ROOT='') env;
          env = map (update_entry wsRoot) env;
          env = (if \<not> workspaceUpdated then env @ [''WORKSPACE_ROOT='' @ wsRoot] else env)
      in if \<not> projectUpdated then env @ [''PROJECT_ROOT='' @ wsRoot] else env)"

subsection \<open>One run at a time, and no change lost\<close>

text \<open>
  The calls in flight: a request that passed the check, one that is about to set the mark, a run, a run that looked at its mark, and
  one that removed its entry and starts again.
\<close>

datatype ix_op =
    IxChecked ctx doc_item gostring
  | IxMarking gostring
  | IxActive index_run
  | IxEnding index_run bool
  | IxRemoved index_run

fun op_key :: "ix_op \<Rightarrow> gostring" where
  "op_key (IxChecked cx doc key) = key"
| "op_key (IxMarking key) = key"
| "op_key (IxActive run) = ir_key run"
| "op_key (IxEnding run b) = ir_key run"
| "op_key (IxRemoved run) = ir_key run"

text \<open>Calls between two of their steps, where the entry of the key does not say what they are about to do.\<close>

fun between_steps :: "ix_op \<Rightarrow> bool" where
  "between_steps (IxMarking key) = False"
| "between_steps (IxActive run) = False"
| "between_steps _ = True"

fun is_marking :: "ix_op \<Rightarrow> bool" where
  "is_marking (IxMarking key) = True"
| "is_marking _ = False"

definition ops_of :: "gostring \<Rightarrow> ix_op multiset \<Rightarrow> ix_op multiset" where
  "ops_of k ops = {#x \<in># ops. op_key x = k#}"

text \<open>
  All interleavings of the steps. The set \<open>disturbed\<close> collects the keys that met a race or a cancellation: a request was checked while another call
  of the key was between two of its steps, a run looked at its mark while a mark was being set, or the entry was removed by a cancellation or the end of the session.
  A key is forgiven when nothing of it is in flight or stored. The requests see the session repositories of the set \<open>repos\<close>. The set \<open>owed\<close> holds the keys with a change that was checked and that no run has
  been started for since.
\<close>

inductive ix_reachable :: "('p, 'c) repository set \<Rightarrow> indexer_ctrl \<Rightarrow> ix_op multiset \<Rightarrow> gostring set \<Rightarrow> gostring set \<Rightarrow> bool"
  for repos where
  new: "ix_reachable repos NewIndexer {#} {} {}"
| initialize: "ix_reachable repos c ops disturbed owed \<Longrightarrow> sessions \<in> repos \<Longrightarrow>
    ix_reachable repos (snd (ix_initialize sessions java openLog target cx c)) ops disturbed owed"
| check_start: "ix_reachable repos c ops disturbed owed \<Longrightarrow> sessions \<in> repos \<Longrightarrow> sync_check sessions cx doc c = SyncGoOn key \<Longrightarrow>
    disturbed' = (if \<exists>x \<in># ops_of key ops. between_steps x then insert key disturbed else disturbed) \<Longrightarrow>
    ix_reachable repos c (add_mset (IxChecked cx doc key) ops) disturbed' (insert key owed)"
| check_mark: "ix_reachable repos c ops disturbed owed \<Longrightarrow> sessions \<in> repos \<Longrightarrow> sync_check sessions cx doc c = SyncMark key \<Longrightarrow>
    disturbed' = (if \<exists>x \<in># ops_of key ops. between_steps x then insert key disturbed else disturbed) \<Longrightarrow>
    ix_reachable repos c (add_mset (IxMarking key) ops) disturbed' (insert key owed)"
| mark: "ix_reachable repos c (add_mset (IxMarking key) ops) disturbed owed \<Longrightarrow> ix_reachable repos (sync_mark key c) ops disturbed owed"
| start: "ix_reachable repos c (add_mset (IxChecked cx doc key) ops) disturbed owed \<Longrightarrow> start_indexing creates fresh cx key doc c = (run, c') \<Longrightarrow>
    ix_reachable repos c' (add_mset (IxActive run) ops) disturbed (owed - {key})"
| look: "ix_reachable repos c (add_mset (IxActive run) ops) disturbed owed \<Longrightarrow> finish_read run c = (b, c') \<Longrightarrow>
    disturbed' = (if \<exists>x \<in># ops_of (ir_key run) ops. is_marking x then insert (ir_key run) disturbed else disturbed) \<Longrightarrow>
    ix_reachable repos c' (add_mset (IxEnding run b) ops) disturbed' owed"
| remove: "ix_reachable repos c (add_mset (IxEnding run b) ops) disturbed owed \<Longrightarrow>
    ix_reachable repos (finish_delete run c) (if b then add_mset (IxRemoved run) ops else ops) disturbed owed"
| restart: "ix_reachable repos c (add_mset (IxRemoved run) ops) disturbed owed \<Longrightarrow> finish_restart creates fresh run c = (run', c') \<Longrightarrow>
    ix_reachable repos c' (add_mset (IxActive run') ops) disturbed (owed - {ir_key run})"
| cancel_call: "ix_reachable repos c ops disturbed owed \<Longrightarrow> ix_reachable repos (snd (cancel_call key c)) ops disturbed owed"
| cancel_delete: "ix_reachable repos c ops disturbed owed \<Longrightarrow> ix_reachable repos (cancel_delete key c) ops (insert key disturbed) owed"
| session: "ix_reachable repos c ops disturbed owed \<Longrightarrow> ix_reachable repos (snd (ix_endSession u c)) ops (disturbed \<union> {k. prefix u k}) owed"
| quiet: "ix_reachable repos c ops disturbed owed \<Longrightarrow> ops_of k ops = {#} \<Longrightarrow> getPendingCmd k (ix_pendingCmds c) = None \<Longrightarrow>
    ix_reachable repos c ops (disturbed - {k}) (owed - {k})"

text \<open>
  A key that is not disturbed: nothing of it is in flight; a request is checked; a run is active, with marks being set; a run is ending; a run starts again.
\<close>

definition key_inv :: "gostring \<Rightarrow> indexer_ctrl \<Rightarrow> ix_op multiset \<Rightarrow> bool \<Rightarrow> bool" where
  "key_inv k c ops owed \<longleftrightarrow>
     (let entry = map_of (ix_pendingCmds c) k; calls = ops_of k ops
      in calls = {#} \<and> entry = None \<and> \<not> owed \<or>
         (\<exists>cx doc. calls = {#IxChecked cx doc k#}) \<and> entry = None \<or>
         (\<exists>run n. calls = add_mset (IxActive run) (replicate_mset n (IxMarking k)) \<and> entry \<noteq> None \<and>
            (owed \<longrightarrow> 0 < n \<or> needsReindexing k (ix_pendingCmds c))) \<or>
         (\<exists>run b. calls = {#IxEnding run b#} \<and> entry \<noteq> None \<and> (owed \<longrightarrow> b)) \<or>
         (\<exists>run. calls = {#IxRemoved run#}) \<and> entry = None)"

lemma ops_of_add [simp]: "ops_of k (add_mset x ops) = (if op_key x = k then add_mset x (ops_of k ops) else ops_of k ops)"
  by (simp add: ops_of_def)

lemma ops_of_empty [simp]: "ops_of k {#} = {#}"
  by (simp add: ops_of_def)

lemma key_inv_keep:
  assumes "key_inv k c ops owed" and "map_of (ix_pendingCmds c') k = map_of (ix_pendingCmds c) k" and "ops_of k ops' = ops_of k ops" and "owed' = owed"
  shows "key_inv k c' ops' owed'"
  using assms by (simp add: key_inv_def needsReindexing_def)

lemma key_invE:
  assumes "key_inv k c ops owed"
  obtains (none) "ops_of k ops = {#}" "map_of (ix_pendingCmds c) k = None" "\<not> owed"
  | (checked) cx doc where "ops_of k ops = {#IxChecked cx doc k#}" "map_of (ix_pendingCmds c) k = None"
  | (active) run n where "ops_of k ops = add_mset (IxActive run) (replicate_mset n (IxMarking k))" "map_of (ix_pendingCmds c) k \<noteq> None"
      "owed \<longrightarrow> 0 < n \<or> needsReindexing k (ix_pendingCmds c)"
  | (ending) run b where "ops_of k ops = {#IxEnding run b#}" "map_of (ix_pendingCmds c) k \<noteq> None" "owed \<longrightarrow> b"
  | (removed) run where "ops_of k ops = {#IxRemoved run#}" "map_of (ix_pendingCmds c) k = None"
  using assms unfolding key_inv_def Let_def by (elim disjE exE conjE) (rule that; assumption)+

text \<open>The state of a key, read off one of its calls.\<close>

lemma key_inv_cases:
  assumes "key_inv k c ops owed" and "x \<in># ops_of k ops"
  shows "case x of
      IxChecked cx doc key \<Rightarrow> ops_of k ops = {#x#} \<and> map_of (ix_pendingCmds c) k = None
    | IxMarking key \<Rightarrow> \<exists>run n. ops_of k ops = add_mset (IxActive run) (replicate_mset n x) \<and> map_of (ix_pendingCmds c) k \<noteq> None
    | IxActive run \<Rightarrow> \<exists>n. ops_of k ops = add_mset x (replicate_mset n (IxMarking k)) \<and> map_of (ix_pendingCmds c) k \<noteq> None \<and>
        (owed \<longrightarrow> 0 < n \<or> needsReindexing k (ix_pendingCmds c))
    | IxEnding run b \<Rightarrow> ops_of k ops = {#x#} \<and> map_of (ix_pendingCmds c) k \<noteq> None \<and> (owed \<longrightarrow> b)
    | IxRemoved run \<Rightarrow> ops_of k ops = {#x#} \<and> map_of (ix_pendingCmds c) k = None"
  using assms(1)
proof (cases rule: key_invE)
  case (active run n)
  then have "x = IxActive run \<or> x = IxMarking k" using assms(2) by (auto split: if_splits)
  with active show ?thesis by (elim disjE) auto
qed (use assms(2) in auto)

lemma map_of_mark:
  "map_of (snd (markForReindexing key p)) k =
     (if k = key then map_option (\<lambda>v. v\<lparr>cv_needsReindexing := True\<rparr>) (map_of p k) else map_of p k)"
  by (auto simp: markForReindexing_def update_conv' split: option.split)

lemma map_of_deleted: "map_of (snd (deletePendingCmd key p)) k = (if k = key then None else map_of p k)"
  by (auto simp: deletePendingCmd_def delete_conv')

text \<open>The pending commands as a store of tokens.\<close>

interpretation pending: erasable_store "\<lambda>p. True" "\<lambda>k. True" "\<lambda>p k. getPendingCmd k p" "\<lambda>x k token p. setPendingCmd token k p"
  "\<lambda>k p. snd (deletePendingCmd k p)"
  by unfold_locales (simp_all add: getPendingCmd_def setPendingCmd_def update_conv' map_of_deleted)

lemma initialize_pending: "ix_pendingCmds (snd (ix_initialize sessions java openLog target cx c)) = ix_pendingCmds c"
  by (auto simp: ix_initialize_def split: outcome.split)

lemma cancel_call_pending: "ix_pendingCmds (snd (cancel_call key c)) = ix_pendingCmds c"
  by (simp add: cancel_call_def split: option.split)

lemma start_pending:
  assumes "start_indexing creates fresh cx key doc c = (run, c')"
  shows "run = \<lparr>ir_ctx = cx, ir_key = key, ir_doc = doc, ir_token = fresh\<rparr>"
    and "map_of (ix_pendingCmds c') k = (if k = key then Some \<lparr>cv_token = fresh, cv_needsReindexing = False\<rparr> else map_of (ix_pendingCmds c) k)"
  using assms by (auto simp: start_indexing_def Let_def sendIndexStartNotification_def setPendingCmd_def update_conv')

lemma finish_read_pending:
  assumes "finish_read run c = (b, c')"
  shows "b = needsReindexing (ir_key run) (ix_pendingCmds c)" and "ix_pendingCmds c' = ix_pendingCmds c"
  using assms by (auto simp: finish_read_def sendIndexEndNotification_def)

lemma session_pending: "\<not> prefix u k \<Longrightarrow> map_of (ix_pendingCmds (snd (ix_endSession u c))) k = map_of (ix_pendingCmds c) k"
proof -
  have "map_of (filter (\<lambda>(k, v). \<not> prefix u k) p) k = map_of p k" if "\<not> prefix u k" for p :: pending_cmds
    using that by (induction p) auto
  then show "\<not> prefix u k \<Longrightarrow> ?thesis" by (simp add: ix_endSession_def cleanSession_def)
qed

lemma sync_check_entry:
  "sync_check sessions cx doc c = SyncGoOn key \<Longrightarrow> map_of (ix_pendingCmds c) key = None"
  "sync_check sessions cx doc c = SyncMark key \<Longrightarrow> map_of (ix_pendingCmds c) key \<noteq> None"
  by (auto simp: sync_check_def getPendingCmd_def split: outcome.splits option.splits if_splits)

lemma ix_reachable_inv: "ix_reachable repos c ops disturbed owed \<Longrightarrow> k \<notin> disturbed \<Longrightarrow> key_inv k c ops (k \<in> owed)"
proof (induction rule: ix_reachable.induct)
  case new
  then show ?case by (simp add: key_inv_def NewIndexer_def)
next
  case (initialize c ops disturbed owed sessions java openLog target cx)
  then show ?case by (auto simp: initialize_pending elim: key_inv_keep)
next
  case (check_start c ops disturbed owed sessions cx doc key disturbed')
  then have inv: "key_inv k c ops (k \<in> owed)" by (auto split: if_splits)
  show ?case
  proof (cases "key = k")
    case True
    with check_start have "\<forall>x \<in># ops_of k ops. \<not> between_steps x" by (auto split: if_splits)
    with inv sync_check_entry(1) [OF check_start.hyps(3)] True have "ops_of k ops = {#}" by (auto simp: key_inv_def Let_def)
    with sync_check_entry(1) [OF check_start.hyps(3)] True show ?thesis by (simp add: key_inv_def)
  qed (use inv in \<open>auto elim: key_inv_keep\<close>)
next
  case (check_mark c ops disturbed owed sessions cx doc key disturbed')
  then have inv: "key_inv k c ops (k \<in> owed)" by (auto split: if_splits)
  show ?case
  proof (cases "key = k")
    case True
    with check_mark have "\<forall>x \<in># ops_of k ops. \<not> between_steps x" by (auto split: if_splits)
    with inv sync_check_entry(2) [OF check_mark.hyps(3)] True obtain run n where
      "ops_of k ops = add_mset (IxActive run) (replicate_mset n (IxMarking k))" by (auto simp: key_inv_def Let_def)
    then have "ops_of k (add_mset (IxMarking key) ops) = add_mset (IxActive run) (replicate_mset (Suc n) (IxMarking k))"
      using True by (simp add: add_mset_commute)
    with sync_check_entry(2) [OF check_mark.hyps(3)] True show ?thesis unfolding key_inv_def Let_def by blast
  qed (use inv in \<open>auto elim: key_inv_keep\<close>)
next
  case (mark c key ops disturbed owed)
  show ?case
  proof (cases "key = k")
    case True
    from key_inv_cases [OF mark.IH [OF mark.prems], of "IxMarking key"] True obtain run n where
      calls: "add_mset (IxMarking k) (ops_of k ops) = add_mset (IxActive run) (replicate_mset n (IxMarking k))"
      and entry: "map_of (ix_pendingCmds c) k \<noteq> None" by auto
    then obtain m where "ops_of k ops = add_mset (IxActive run) (replicate_mset m (IxMarking k))"
      by (cases n) (auto simp: add_eq_conv_ex)
    moreover have "map_of (ix_pendingCmds (sync_mark key c)) k \<noteq> None" "needsReindexing k (ix_pendingCmds (sync_mark key c))"
      using entry True by (auto simp: sync_mark_def map_of_mark needsReindexing_def)
    ultimately show ?thesis unfolding key_inv_def Let_def by blast
  qed (use mark in \<open>auto simp: sync_mark_def map_of_mark elim: key_inv_keep\<close>)
next
  case (start c cx doc key ops disturbed owed creates fresh run c')
  note c' = start_pending [OF start.hyps(2)]
  show ?case
  proof (cases "key = k")
    case True
    from key_inv_cases [OF start.IH [OF start.prems], of "IxChecked cx doc key"] True have "ops_of k ops = {#}" by simp
    then have "ops_of k (add_mset (IxActive run) ops) = add_mset (IxActive run) (replicate_mset 0 (IxMarking k))"
      using c'(1) True by simp
    moreover have "map_of (ix_pendingCmds c') k \<noteq> None" "k \<notin> owed - {key}" using c'(2) [of k] True by auto
    ultimately show ?thesis unfolding key_inv_def Let_def by blast
  qed (use start c' in \<open>auto elim: key_inv_keep\<close>)
next
  case (look c run ops disturbed owed b c' disturbed')
  note c' = finish_read_pending [OF look.hyps(2)]
  have inv: "key_inv k c (add_mset (IxActive run) ops) (k \<in> owed)" using look by (auto split: if_splits)
  show ?case
  proof (cases "ir_key run = k")
    case True
    from key_inv_cases [OF inv, of "IxActive run"] True obtain n where n: "ops_of k ops = replicate_mset n (IxMarking k)"
      "map_of (ix_pendingCmds c) k \<noteq> None" "k \<in> owed \<longrightarrow> 0 < n \<or> needsReindexing k (ix_pendingCmds c)" by auto
    moreover have "\<forall>x \<in># ops_of k ops. \<not> is_marking x" using look.hyps(3) look.prems True by (auto split: if_splits)
    ultimately have "n = 0" by (cases n) auto
    with n c' True show ?thesis by (simp add: key_inv_def)
  qed (use inv c' in \<open>auto elim: key_inv_keep\<close>)
next
  case (remove c run b ops disturbed owed)
  show ?case
  proof (cases "ir_key run = k")
    case True
    from key_inv_cases [OF remove.IH [OF remove.prems], of "IxEnding run b"] True have "ops_of k ops = {#}" "k \<in> owed \<longrightarrow> b" by auto
    with True show ?thesis by (auto simp: key_inv_def finish_delete_def map_of_deleted)
  qed (use remove in \<open>auto simp: finish_delete_def map_of_deleted elim: key_inv_keep\<close>)
next
  case (restart c run ops disturbed owed creates fresh run' c')
  note c' = start_pending [OF restart.hyps(2) [unfolded finish_restart_def]]
  show ?case
  proof (cases "ir_key run = k")
    case True
    from key_inv_cases [OF restart.IH [OF restart.prems], of "IxRemoved run"] True have "ops_of k ops = {#}" by simp
    then have "ops_of k (add_mset (IxActive run') ops) = add_mset (IxActive run') (replicate_mset 0 (IxMarking k))"
      using c'(1) True by simp
    moreover have "map_of (ix_pendingCmds c') k \<noteq> None" "k \<notin> owed - {ir_key run}" using c'(2) [of k] True by auto
    ultimately show ?thesis unfolding key_inv_def Let_def by blast
  qed (use restart c' in \<open>auto elim: key_inv_keep\<close>)
next
  case (session c ops disturbed owed u)
  then show ?case by (auto simp: session_pending elim: key_inv_keep)
next
  case (quiet c ops disturbed owed k')
  then show ?case by (cases "k' = k") (auto simp: key_inv_def getPendingCmd_def)
qed (auto simp: cancel_call_pending cancel_delete_def map_of_deleted elim: key_inv_keep)

text \<open>A request for the target of an active run marks the run, and a run that is marked is followed by another one.\<close>

lemma active_entry:
  assumes "ix_reachable repos c ops disturbed owed" and "IxActive run \<in># ops" and "ir_key run \<notin> disturbed"
  shows "map_of (ix_pendingCmds c) (ir_key run) \<noteq> None"
proof -
  have "IxActive run \<in># ops_of (ir_key run) ops" using assms(2) by (simp add: ops_of_def)
  from key_inv_cases [OF ix_reachable_inv [OF assms(1,3)] this] show ?thesis by auto
qed

lemma active_is_marked:
  assumes "map_of (ix_pendingCmds c) (ir_key run) \<noteq> None" and "GetFromContext sessions cx = Ok s"
    and "map_of (ix_indexer c) (ses_UUID s) = Some indexer" and "ix_IsRelevantDocument indexer doc"
    and "ix_GetUniqueIndexKey indexer doc = Ok (ir_key run)"
  shows "sync_check sessions cx doc c = SyncMark (ir_key run)"
  using assms by (simp add: sync_check_def getPendingCmd_def)

lemma marked_is_followed:
  assumes "needsReindexing (ir_key run) (ix_pendingCmds c)"
  shows "\<exists>run' c'. finish_indexing creates fresh run c = (Some run', c') \<and> ir_key run' = ir_key run \<and> ir_doc run' = ir_doc run \<and>
    getPendingCmd (ir_key run) (ix_pendingCmds c') = Some fresh"
  using assms
  by (simp add: finish_indexing_def finish_read_def finish_restart_def Let_def start_indexing_def sendIndexStartNotification_def setPendingCmd_def
      update_conv' getPendingCmd_def)

lemma marked_run_follows:
  assumes "ix_reachable repos c ops disturbed owed" and "IxActive run \<in># ops" and "ir_key run \<notin> disturbed" and "GetFromContext sessions cx = Ok s"
    and "map_of (ix_indexer c) (ses_UUID s) = Some indexer" and "ix_IsRelevantDocument indexer doc"
    and "ix_GetUniqueIndexKey indexer doc = Ok (ir_key run)"
  shows "\<exists>c'. syncIndex sessions cx doc c = (SyncReturned (Ok ()), c') \<and>
      (\<exists>run' c2. finish_indexing creates fresh run c' = (Some run', c2) \<and> ir_key run' = ir_key run \<and> ir_doc run' = ir_doc run \<and>
         getPendingCmd (ir_key run) (ix_pendingCmds c2) = Some fresh)"
proof -
  note entry = active_entry [OF assms(1-3)]
  have "needsReindexing (ir_key run) (ix_pendingCmds (sync_mark (ir_key run) c))"
    using entry by (auto simp: sync_mark_def needsReindexing_def map_of_mark)
  with marked_is_followed [of run "sync_mark (ir_key run) c" creates fresh] active_is_marked [OF entry assms(4-7)]
  show ?thesis by (simp add: syncIndex_def)
qed

text \<open>
  C25. Indexing, in every interleaving of the locked steps, for a target that is not disturbed, that is without a race between its calls and without a cancellation.
  At most one call of the target is past its check and not only about to mark, so at most one run is active. While a run is active, a request for the target only
  marks it, and a run that is marked is followed by another one. No change is lost: after a change that no run has started for yet, there is a call in flight
  that starts one, namely a checked request, an active run that is marked or about to be marked, or a run that ends having seen its mark.
  The condition is needed: \<open>check_then_start_races\<close>, \<open>late_mark_lost\<close>.
\<close>

theorem indexing_not_lost:
  assumes "ix_reachable repos c ops disturbed owed" and "k \<notin> disturbed"
  shows "size {#x \<in># ops. op_key x = k \<and> \<not> is_marking x#} \<le> 1 \<and>
    (IxActive run \<in># ops \<and> ir_key run = k \<longrightarrow>
      (GetFromContext sessions cx = Ok s \<and> map_of (ix_indexer c) (ses_UUID s) = Some indexer \<and> ix_IsRelevantDocument indexer doc \<and>
       ix_GetUniqueIndexKey indexer doc = Ok k \<longrightarrow>
         sync_check sessions cx doc c = SyncMark k \<and> needsReindexing k (ix_pendingCmds (sync_mark k c))) \<and>
      (needsReindexing k (ix_pendingCmds c) \<longrightarrow>
         (\<exists>run' c'. finish_indexing creates fresh run c = (Some run', c') \<and> ir_key run' = k \<and> ir_doc run' = ir_doc run))) \<and>
    (k \<in> owed \<longrightarrow>
      (\<exists>cx doc. IxChecked cx doc k \<in># ops) \<or>
      (\<exists>run. IxActive run \<in># ops \<and> ir_key run = k \<and> (needsReindexing k (ix_pendingCmds c) \<or> IxMarking k \<in># ops)) \<or>
      (\<exists>run. (IxEnding run True \<in># ops \<or> IxRemoved run \<in># ops) \<and> ir_key run = k))"
proof -
  note inv = ix_reachable_inv [OF assms]
  have calls: "{#x \<in># ops. op_key x = k \<and> \<not> is_marking x#} = {#x \<in># ops_of k ops. \<not> is_marking x#}"
    by (simp add: ops_of_def filter_filter_mset conj_commute)
  have "{#x \<in># replicate_mset n (IxMarking k). \<not> is_marking x#} = {#}" for n by (induction n) auto
  with inv have once: "size {#x \<in># ops. op_key x = k \<and> \<not> is_marking x#} \<le> 1"
    unfolding calls by (auto simp: key_inv_def Let_def)
  have mem: "x \<in># ops" "op_key x = k" if "x \<in># ops_of k ops" for x using that by (auto simp: ops_of_def)
  have lost: "(\<exists>cx doc. IxChecked cx doc k \<in># ops) \<or>
      (\<exists>run. IxActive run \<in># ops \<and> ir_key run = k \<and> (needsReindexing k (ix_pendingCmds c) \<or> IxMarking k \<in># ops)) \<or>
      (\<exists>run. (IxEnding run True \<in># ops \<or> IxRemoved run \<in># ops) \<and> ir_key run = k)" if "k \<in> owed"
  proof -
    from inv show ?thesis
    proof (cases rule: key_invE)
      case (active run n)
      then have "needsReindexing k (ix_pendingCmds c) \<or> IxMarking k \<in># ops_of k ops" using that by auto
      with active mem [of "IxActive run"] mem [of "IxMarking k"] show ?thesis by auto
    next
      case (ending run b)
      with mem [of "IxEnding run b"] that show ?thesis by auto
    next
      case (removed run)
      with mem [of "IxRemoved run"] show ?thesis by auto
    next
      case (checked cx doc)
      with mem [of "IxChecked cx doc k"] show ?thesis by auto
    qed (use that in simp)
  qed
  have marks: "sync_check sessions cx doc c = SyncMark k \<and> needsReindexing k (ix_pendingCmds (sync_mark k c))"
    if "IxActive run \<in># ops" "ir_key run = k" "GetFromContext sessions cx = Ok s" "map_of (ix_indexer c) (ses_UUID s) = Some indexer"
      "ix_IsRelevantDocument indexer doc" "ix_GetUniqueIndexKey indexer doc = Ok k"
    using active_entry [OF assms(1) that(1)] active_is_marked [of c run sessions cx s indexer doc] that assms(2)
    by (auto simp: sync_mark_def needsReindexing_def map_of_mark)
  show ?thesis using once lost marks marked_is_followed [of run c creates fresh] by blast
qed

text \<open>
  The check and the start are separate: two requests for a target that both pass the check before either starts lead to
  two runs of it at the same time.
\<close>

lemma check_then_start_races:
  assumes "sync_check sessions cx doc c = SyncGoOn key"
    and "start_indexing creates t1 cx key doc c = (run1, c1)" and "start_indexing creates t2 cx key doc c1 = (run2, c2)"
  shows "ir_key run1 = ir_key run2 \<and> getPendingCmd key (ix_pendingCmds c2) = Some t2"
  using assms by (auto simp: start_indexing_def Let_def sendIndexStartNotification_def setPendingCmd_def getPendingCmd_def update_conv')

text \<open>
  A mark that is set between the look at it and the removal of the entry goes with the entry: no run follows, and the change is not indexed.
\<close>

lemma late_mark_lost:
  assumes "finish_read run c = (False, c1)"
  shows "getPendingCmd (ir_key run) (ix_pendingCmds (finish_delete run (sync_mark (ir_key run) c1))) = None"
  by (simp add: finish_delete_def getPendingCmd_def map_of_deleted)

text \<open>A run that ends between the two reads of a cancellation: the cancel function is nil, and the call panics.\<close>

lemma cancel_after_end_panics: "fst (cancel_call (ir_key run) (finish_delete run c)) = Panic"
  by (simp add: cancel_call_def finish_delete_def getPendingCmd_def map_of_deleted)

text \<open>
  After a cancellation the entry of the key is gone while the cancelled run still ends; when the target is indexed again in
  between, the end of the cancelled run removes the entry of its successor, which is then not seen as running.
\<close>

lemma cancelled_run_removes_successor:
  assumes "start_indexing creates t1 cx key doc c = (run1, c1)" and "ix_workDoneProgressCancel t1 c1 = (Ok (), c2)"
    and "start_indexing creates t2 cx key doc c2 = (run2, c3)"
  shows "\<exists>c4. finish_indexing creates t3 run1 c3 = (None, c4) \<and> getPendingCmd key (ix_pendingCmds c4) = None"
  using start_pending [OF assms(1)] start_pending [OF assms(3)]
  by (auto simp: finish_indexing_def finish_read_def finish_delete_def sendIndexEndNotification_def Let_def
      needsReindexing_def getPendingCmd_def map_of_deleted)

text \<open>The follow-up run has no session: the gateway finds no client for its messages, and it is shown to nobody.\<close>

lemma reindex_without_session: "finish_indexing creates fresh run c = (Some run', c') \<Longrightarrow> ir_ctx run' = None"
  by (auto simp: finish_indexing_def finish_read_def finish_restart_def Let_def start_indexing_def split: if_splits)

text \<open>The environment of the indexer names the workspace exactly once each way, if the session's did at most once.\<close>

lemma UpdateEnv_roots:
  "''WORKSPACE_ROOT='' @ wsRoot \<in> set (UpdateEnv env wsRoot)" "''PROJECT_ROOT='' @ wsRoot \<in> set (UpdateEnv env wsRoot)"
proof -
  have 1: "update_entry wsRoot v = ''WORKSPACE_ROOT='' @ wsRoot" if "prefix ''WORKSPACE_ROOT='' v" for v
    using that by (simp add: update_entry_def)
  have 2: "update_entry wsRoot v = ''PROJECT_ROOT='' @ wsRoot" if "prefix ''PROJECT_ROOT='' v" for v
  proof -
    have "\<not> prefix ''WORKSPACE_ROOT='' v" using that by (cases v) auto
    with that show ?thesis by (simp add: update_entry_def)
  qed
  show "''WORKSPACE_ROOT='' @ wsRoot \<in> set (UpdateEnv env wsRoot)"
    using 1 by (simp add: UpdateEnv_def Let_def list_ex_iff image_iff) metis
  show "''PROJECT_ROOT='' @ wsRoot \<in> set (UpdateEnv env wsRoot)"
    using 2 by (simp add: UpdateEnv_def Let_def list_ex_iff image_iff) metis
qed

subsection \<open>Witness\<close>

definition java_session_doc :: doc_item where
  "java_session_doc = \<lparr>di_URI = ''a'', di_LanguageID = ''java'', di_Version = 1, di_Text = ''ab''\<rparr>"

definition java_ctrl :: indexer_ctrl where
  "java_ctrl = snd (ix_initialize sample_sessions (\<lambda>m. True) (Ok ()) (\<lambda>r u. Ok ''t'') (Some ''u'') NewIndexer)"

lemma java_context: "GetFromContext sample_sessions (Some ''u'') = Ok sample_session"
  by (simp add: GetFromContext_def ContextToSessionUUID_def sample_sessions_def GetSession_Set sample_session_def UUIDToSession_def)

lemma java_indexer: "map_of (ix_indexer java_ctrl) (ses_UUID sample_session) = Some (NewJavaIndexer (\<lambda>r u. Ok ''t'') sample_session)"
  by (simp add: java_ctrl_def ix_initialize_def java_context NewIndexer_def)

lemma java_go: "sync_check sample_sessions (Some ''u'') java_session_doc java_ctrl = SyncGoOn ''u_t''"
  using java_indexer
  by (simp add: sync_check_def java_context NewJavaIndexer_def java_session_doc_def getPendingCmd_def java_ctrl_def ix_initialize_def NewIndexer_def
      sample_session_def UUIDToSession_def)

text \<open>A run is active, a request for its target is about to mark it, and there is a change to be indexed.\<close>

theorem indexing_not_lost_witness:
  "\<exists>c run. ix_reachable {sample_sessions} c {#IxMarking ''u_t'', IxActive run#} {} {''u_t''} \<and>
     sync_check sample_sessions (Some ''u'') java_session_doc c = SyncMark ''u_t'' \<and> needsReindexing ''u_t'' (ix_pendingCmds (sync_mark ''u_t'' c))"
proof -
  let ?ix = "NewJavaIndexer (\<lambda>r u. Ok ''t'') sample_session"
  obtain run c where run: "start_indexing (\<lambda>x t. True) ''t1'' (Some ''u'') ''u_t'' java_session_doc java_ctrl = (run, c)" by fastforce
  then have c: "ir_key run = ''u_t''" "ix_indexer c = ix_indexer java_ctrl"
    by (auto simp: start_indexing_def Let_def sendIndexStartNotification_def)
  have doc: "ix_IsRelevantDocument ?ix java_session_doc" "ix_GetUniqueIndexKey ?ix java_session_doc = Ok ''u_t''"
    by (simp_all add: NewJavaIndexer_def java_session_doc_def sample_session_def UUIDToSession_def)
  have "ix_reachable {sample_sessions} java_ctrl {#} {} {}" unfolding java_ctrl_def by (rule ix_reachable.initialize [OF ix_reachable.new]) simp
  then have "ix_reachable {sample_sessions} java_ctrl {#IxChecked (Some ''u'') java_session_doc ''u_t''#} {} {''u_t''}"
    by (rule ix_reachable.check_start [OF _ _ java_go]) simp_all
  from ix_reachable.start [OF this run] have active: "ix_reachable {sample_sessions} c {#IxActive run#} {} {}" by simp
  have check: "sync_check sample_sessions (Some ''u'') java_session_doc c = SyncMark ''u_t''"
    using active_is_marked [OF active_entry [OF active] java_context, of run ?ix java_session_doc] c java_indexer doc by simp
  have marking: "ix_reachable {sample_sessions} c {#IxMarking ''u_t'', IxActive run#} {} {''u_t''}"
    by (rule ix_reachable.check_mark [OF active _ check]) simp_all
  from indexing_not_lost [OF marking, of "''u_t''" run sample_sessions "Some ''u''" sample_session ?ix java_session_doc] c java_indexer doc java_context
  have "sync_check sample_sessions (Some ''u'') java_session_doc c = SyncMark ''u_t'' \<and> needsReindexing ''u_t'' (ix_pendingCmds (sync_mark ''u_t'' c))"
    by simp
  with marking show ?thesis by blast
qed

end
