(* ===== verification/Gateway.thy ===== *)
theory Gateway
  imports Sessions "HOL-Library.Sublist"
begin

text \<open>
  \<^verbatim>\<open>src/ulsp/gateway/ide-client/ide_client.go\<close>: the calls the server sends to the clients. A call is routed by the session in
  its context. What a client answers is the argument \<open>client\<close>, a function of the connection and the call; the calls that reach a client are logged with it.
  Calls and answers belong to the protocol library: their types are variables. The prompt that waits for a selection
  is a state machine: the two timers fire and the returned function is called at any time.
\<close>

subsection \<open>Routing\<close>

record ('conn, 'call) gateway =
  g_clients :: "(uuid \<times> 'conn) list"
  g_connections :: "(uuid \<times> 'conn) list"
  g_log :: "('conn \<times> 'call) list"

definition NewGateway :: "('conn, 'call) gateway" where
  "NewGateway = \<lparr>g_clients = [], g_connections = [], g_log = []\<rparr>"

definition RegisterClient :: "uuid \<Rightarrow> 'conn \<Rightarrow> ('conn, 'call) gateway \<Rightarrow> unit outcome \<times> ('conn, 'call) gateway" where
  "RegisterClient i conn g =
     (Ok (), g\<lparr>g_clients := AList.update i conn (g_clients g), g_connections := AList.update i conn (g_connections g)\<rparr>)"

definition DeregisterClient :: "uuid \<Rightarrow> ('conn, 'call) gateway \<Rightarrow> unit outcome \<times> ('conn, 'call) gateway" where
  "DeregisterClient i g = (Ok (), g\<lparr>g_clients := AList.delete i (g_clients g), g_connections := AList.delete i (g_connections g)\<rparr>)"

definition getClient :: "ctx \<Rightarrow> ('conn, 'call) gateway \<Rightarrow> ('conn \<times> 'conn) outcome" where
  "getClient cx g =
     obind (ContextToSessionUUID cx) (\<lambda>i.
       case map_of (g_clients g) i of
         None \<Rightarrow> Fail (Errorf ''client with id %q not found'' [FStr i])
       | Some client \<Rightarrow>
           (case map_of (g_connections g) i of
              None \<Rightarrow> Fail (Errorf ''client with id %q not found'' [FStr i])
            | Some conn \<Rightarrow> Ok (client, conn)))"

definition errSendToClient :: go_error where
  "errSendToClient = Errorf ''sending call/notification to IDE: %w'' []"

text \<open>A call of a client, and the methods that only route one: they differ in the call.\<close>

definition client_call :: "('conn \<Rightarrow> 'call \<Rightarrow> 'r outcome) \<Rightarrow> 'conn \<Rightarrow> 'call \<Rightarrow> ('conn, 'call) gateway \<Rightarrow> 'r outcome \<times> ('conn, 'call) gateway" where
  "client_call client conn call g = (client conn call, g\<lparr>g_log := g_log g @ [(conn, call)]\<rparr>)"

definition gateway_send :: "('conn \<Rightarrow> 'call \<Rightarrow> 'r outcome) \<Rightarrow> ctx \<Rightarrow> 'call \<Rightarrow> ('conn, 'call) gateway \<Rightarrow> 'r outcome \<times> ('conn, 'call) gateway" where
  "gateway_send client cx call g =
     (case wrap_err errSendToClient (getClient cx g) of
        Ok (c, conn) \<Rightarrow> client_call client c call g
      | Fail e \<Rightarrow> (Fail e, g)
      | Panic \<Rightarrow> (Panic, g))"

text \<open>The calls of the protocol, with parameters of any type \<open>'p\<close>.\<close>

datatype 'p client_method =
    CallProgress 'p
  | CallWorkDoneProgressCreate 'p
  | CallLogMessage 'p
  | CallPublishDiagnostics 'p
  | CallShowMessage 'p
  | CallTelemetry 'p
  | CallRegisterCapability 'p
  | CallUnregisterCapability 'p
  | CallApplyEdit 'p
  | CallConfiguration 'p
  | CallWorkspaceFolders

definition gateway_Progress ::
  "('conn \<Rightarrow> 'p client_method \<Rightarrow> 'r outcome) \<Rightarrow> ctx \<Rightarrow> 'p \<Rightarrow> ('conn, 'p client_method) gateway \<Rightarrow> 'r outcome \<times> ('conn, 'p client_method) gateway" where
  "gateway_Progress client cx params = gateway_send client cx (CallProgress params)"

definition gateway_WorkDoneProgressCreate ::
  "('conn \<Rightarrow> 'p client_method \<Rightarrow> 'r outcome) \<Rightarrow> ctx \<Rightarrow> 'p \<Rightarrow> ('conn, 'p client_method) gateway \<Rightarrow> 'r outcome \<times> ('conn, 'p client_method) gateway" where
  "gateway_WorkDoneProgressCreate client cx params = gateway_send client cx (CallWorkDoneProgressCreate params)"

definition gateway_LogMessage ::
  "('conn \<Rightarrow> 'p client_method \<Rightarrow> 'r outcome) \<Rightarrow> ctx \<Rightarrow> 'p \<Rightarrow> ('conn, 'p client_method) gateway \<Rightarrow> 'r outcome \<times> ('conn, 'p client_method) gateway" where
  "gateway_LogMessage client cx params = gateway_send client cx (CallLogMessage params)"

definition gateway_PublishDiagnostics ::
  "('conn \<Rightarrow> 'p client_method \<Rightarrow> 'r outcome) \<Rightarrow> ctx \<Rightarrow> 'p \<Rightarrow> ('conn, 'p client_method) gateway \<Rightarrow> 'r outcome \<times> ('conn, 'p client_method) gateway" where
  "gateway_PublishDiagnostics client cx params = gateway_send client cx (CallPublishDiagnostics params)"

definition gateway_ShowMessage ::
  "('conn \<Rightarrow> 'p client_method \<Rightarrow> 'r outcome) \<Rightarrow> ctx \<Rightarrow> 'p \<Rightarrow> ('conn, 'p client_method) gateway \<Rightarrow> 'r outcome \<times> ('conn, 'p client_method) gateway" where
  "gateway_ShowMessage client cx params = gateway_send client cx (CallShowMessage params)"

definition gateway_Telemetry ::
  "('conn \<Rightarrow> 'p client_method \<Rightarrow> 'r outcome) \<Rightarrow> ctx \<Rightarrow> 'p \<Rightarrow> ('conn, 'p client_method) gateway \<Rightarrow> 'r outcome \<times> ('conn, 'p client_method) gateway" where
  "gateway_Telemetry client cx params = gateway_send client cx (CallTelemetry params)"

definition gateway_RegisterCapability ::
  "('conn \<Rightarrow> 'p client_method \<Rightarrow> 'r outcome) \<Rightarrow> ctx \<Rightarrow> 'p \<Rightarrow> ('conn, 'p client_method) gateway \<Rightarrow> 'r outcome \<times> ('conn, 'p client_method) gateway" where
  "gateway_RegisterCapability client cx params = gateway_send client cx (CallRegisterCapability params)"

definition gateway_UnregisterCapability ::
  "('conn \<Rightarrow> 'p client_method \<Rightarrow> 'r outcome) \<Rightarrow> ctx \<Rightarrow> 'p \<Rightarrow> ('conn, 'p client_method) gateway \<Rightarrow> 'r outcome \<times> ('conn, 'p client_method) gateway" where
  "gateway_UnregisterCapability client cx params = gateway_send client cx (CallUnregisterCapability params)"

definition gateway_ApplyEdit ::
  "('conn \<Rightarrow> 'p client_method \<Rightarrow> 'r outcome) \<Rightarrow> ctx \<Rightarrow> 'p \<Rightarrow> ('conn, 'p client_method) gateway \<Rightarrow> 'r outcome \<times> ('conn, 'p client_method) gateway" where
  "gateway_ApplyEdit client cx params = gateway_send client cx (CallApplyEdit params)"

definition gateway_Configuration ::
  "('conn \<Rightarrow> 'p client_method \<Rightarrow> 'r outcome) \<Rightarrow> ctx \<Rightarrow> 'p \<Rightarrow> ('conn, 'p client_method) gateway \<Rightarrow> 'r outcome \<times> ('conn, 'p client_method) gateway" where
  "gateway_Configuration client cx params = gateway_send client cx (CallConfiguration params)"

definition gateway_WorkspaceFolders ::
  "('conn \<Rightarrow> 'p client_method \<Rightarrow> 'r outcome) \<Rightarrow> ctx \<Rightarrow> ('conn, 'p client_method) gateway \<Rightarrow> 'r outcome \<times> ('conn, 'p client_method) gateway" where
  "gateway_WorkspaceFolders client cx = gateway_send client cx CallWorkspaceFolders"

text \<open>\<^verbatim>\<open>ShowDocument\<close> uses the connection, wraps the error of the call too, and has no place for its result.\<close>

definition ShowDocument ::
  "('conn \<Rightarrow> 'call \<Rightarrow> 'r outcome) \<Rightarrow> ctx \<Rightarrow> 'call \<Rightarrow> ('conn, 'call) gateway \<Rightarrow> 'r option outcome \<times> ('conn, 'call) gateway" where
  "ShowDocument client cx call g =
     (case wrap_err errSendToClient (getClient cx g) of
        Ok (c, conn) \<Rightarrow>
          (case client_call client conn call g of (r, g') \<Rightarrow> (obind (wrap_err errSendToClient r) (\<lambda>_. Ok None), g'))
      | Fail e \<Rightarrow> (Fail e, g)
      | Panic \<Rightarrow> (Panic, g))"

text \<open>The writer for log messages: the text without one newline at its end, and the number of bytes written.\<close>

definition TrimSuffix :: "gostring \<Rightarrow> gostring \<Rightarrow> gostring" where
  "TrimSuffix s suf = (if suffix suf s then take (length s - length suf) s else s)"

definition GetLogMessageWriter :: "ctx \<Rightarrow> ('conn, 'call) gateway \<Rightarrow> 'conn outcome" where
  "GetLogMessageWriter cx g = obind (wrap_err (Errorf ''getting IDE log message writer: %w'' []) (getClient cx g)) (\<lambda>(c, conn). Ok c)"

definition writer_Write ::
  "('conn \<Rightarrow> 'call \<Rightarrow> unit outcome) \<Rightarrow> (gostring \<Rightarrow> 'call) \<Rightarrow> 'conn \<Rightarrow> gostring \<Rightarrow> gostring \<Rightarrow> ('conn, 'call) gateway \<Rightarrow>
   int outcome \<times> ('conn, 'call) gateway" where
  "writer_Write client LogMessage c pre p g =
     (case client_call client c (LogMessage (''['' @ pre @ ''] '' @ TrimSuffix p [CHR 0x0A])) g of
        (r, g') \<Rightarrow> (obind (wrap_err (Errorf ''writing to IDE log message writer: %w'' []) r) (\<lambda>_. Ok (int (length p))), g'))"

subsection \<open>Waiting for the user\<close>

datatype prompt_message = PromptCreate | PromptBegin | PromptReport | PromptEnd

record prompt =
  pr_conn :: uuid
  pr_updateTimer :: bool
  pr_endTimer :: bool
  pr_returned :: bool
  pr_sent :: "prompt_message list"

text \<open>
  \<^verbatim>\<open>showWaitingForUserSelection\<close> sends the first two messages, each of which may fail; both timers then run. \<open>Stop\<close> says whether it
  stopped the timer.
\<close>

definition showWaitingForUserSelection ::
  "(uuid \<Rightarrow> prompt_message \<Rightarrow> unit outcome) \<Rightarrow> uuid \<Rightarrow> unit outcome \<Rightarrow> prompt outcome \<times> prompt_message list" where
  "showWaitingForUserSelection client i newUUID =
     (case wrap_err errSendToClient newUUID of
        Fail e \<Rightarrow> (Fail e, [])
      | Panic \<Rightarrow> (Panic, [])
      | Ok _ \<Rightarrow>
          (case wrap_err (Errorf ''creating user input progress: %w'' []) (client i PromptCreate) of
             Fail e \<Rightarrow> (Fail e, [PromptCreate])
           | Panic \<Rightarrow> (Panic, [PromptCreate])
           | Ok _ \<Rightarrow>
               (case wrap_err (Errorf ''starting user input progress: %w'' []) (client i PromptBegin) of
                  Fail e \<Rightarrow> (Fail e, [PromptCreate, PromptBegin])
                | Panic \<Rightarrow> (Panic, [PromptCreate, PromptBegin])
                | Ok _ \<Rightarrow>
                    (Ok \<lparr>pr_conn = i, pr_updateTimer = True, pr_endTimer = True, pr_returned = False, pr_sent = [PromptCreate, PromptBegin]\<rparr>,
                     [PromptCreate, PromptBegin]))))"

definition update_timer_fires :: "prompt \<Rightarrow> prompt" where
  "update_timer_fires p = p\<lparr>pr_updateTimer := False, pr_sent := pr_sent p @ [PromptReport]\<rparr>"

definition end_timer_fires :: "prompt \<Rightarrow> prompt" where
  "end_timer_fires p = p\<lparr>pr_endTimer := False, pr_sent := pr_sent p @ [PromptEnd]\<rparr>"

definition prompt_done :: "prompt \<Rightarrow> prompt" where
  "prompt_done p =
     (let stopped = pr_endTimer p;
          p = p\<lparr>pr_updateTimer := False, pr_endTimer := False, pr_returned := True\<rparr>
      in if stopped then p\<lparr>pr_sent := pr_sent p @ [PromptEnd]\<rparr> else p)"

text \<open>
  \<^verbatim>\<open>ShowMessageRequest\<close>: for messages below the level of an error the prompt is shown around the request. \<open>MessageTypeError\<close> is 1
  and less severe types are greater.
\<close>

definition MessageTypeError :: int where "MessageTypeError = 1"

definition shows_prompt :: "int \<Rightarrow> bool" where
  "shows_prompt messageType \<longleftrightarrow> messageType > MessageTypeError"

definition ShowMessageRequest ::
  "(uuid \<Rightarrow> prompt_message \<Rightarrow> unit outcome) \<Rightarrow> ('conn \<Rightarrow> 'call \<Rightarrow> 'r outcome) \<Rightarrow> unit outcome \<Rightarrow> (prompt \<Rightarrow> prompt) \<Rightarrow> ctx \<Rightarrow> int \<Rightarrow> 'call \<Rightarrow>
   ('conn, 'call) gateway \<Rightarrow> 'r outcome \<times> prompt option \<times> ('conn, 'call) gateway" where
  "ShowMessageRequest prompt_client client newUUID waiting cx messageType call g =
     (case (ContextToSessionUUID cx, wrap_err errSendToClient (getClient cx g)) of
        (Ok i, Ok (c, conn)) \<Rightarrow>
          if \<not> shows_prompt messageType then (case client_call client c call g of (r, g') \<Rightarrow> (r, None, g'))
          else (case fst (showWaitingForUserSelection prompt_client i newUUID) of
                  Ok p \<Rightarrow> (case client_call client c call g of (r, g') \<Rightarrow> (r, Some (prompt_done (waiting p)), g'))
                | Fail e \<Rightarrow> (Fail (Join errSendToClient e), None, g)
                | Panic \<Rightarrow> (Panic, None, g))
      | (_, Fail e) \<Rightarrow> (Fail e, None, g)
      | _ \<Rightarrow> (Panic, None, g))"

subsection \<open>What reaches which client\<close>

definition gateway_inv :: "('conn, 'call) gateway \<Rightarrow> bool" where
  "gateway_inv g \<longleftrightarrow> map_of (g_clients g) = map_of (g_connections g)"

inductive gateway_reachable :: "('conn \<Rightarrow> 'call \<Rightarrow> 'r outcome) \<Rightarrow> ('conn, 'call) gateway \<Rightarrow> bool" for client where
  new: "gateway_reachable client NewGateway"
| register: "gateway_reachable client g \<Longrightarrow> gateway_reachable client (snd (RegisterClient i conn g))"
| deregister: "gateway_reachable client g \<Longrightarrow> gateway_reachable client (snd (DeregisterClient i g))"
| call: "gateway_reachable client g \<Longrightarrow> gateway_reachable client (snd (gateway_send client cx c g))"
| show_document: "gateway_reachable client g \<Longrightarrow> gateway_reachable client (snd (ShowDocument client cx c g))"

lemma gateway_send_frame:
  "g_clients (snd (gateway_send client cx call g)) = g_clients g" "g_connections (snd (gateway_send client cx call g)) = g_connections g"
  "g_clients (snd (ShowDocument client cx call g)) = g_clients g" "g_connections (snd (ShowDocument client cx call g)) = g_connections g"
  by (auto simp: gateway_send_def ShowDocument_def client_call_def split: outcome.split prod.split)

lemma gateway_reachable_inv: "gateway_reachable client g \<Longrightarrow> gateway_inv g"
  by (induction rule: gateway_reachable.induct)
     (simp_all add: gateway_inv_def NewGateway_def RegisterClient_def DeregisterClient_def update_conv' delete_conv' gateway_send_frame)

text \<open>
  Routing. A call with the session of a registered client is sent to exactly the connection that was registered last
  for that session, with the answer of that client; without a session, or for a session that has no client, the call fails and nothing is sent.
\<close>

theorem gateway_routes:
  assumes "gateway_reachable client g"
  shows "gateway_send client (Some i) call (snd (RegisterClient i conn g)) =
      (client conn call, (snd (RegisterClient i conn g))\<lparr>g_log := g_log g @ [(conn, call)]\<rparr>) \<and>
    (i \<noteq> j \<longrightarrow> fst (gateway_send client (Some j) call (snd (RegisterClient i conn g))) = fst (gateway_send client (Some j) call g)) \<and>
    (\<exists>e. gateway_send client (Some i) call (snd (DeregisterClient i g)) = (Fail e, snd (DeregisterClient i g))) \<and>
    (\<exists>e. gateway_send client None call g = (Fail e, g)) \<and>
    (map_of (g_clients g) j = Some conn' \<longrightarrow> fst (gateway_send client (Some j) call g) = client conn' call)"
  using gateway_reachable_inv [OF assms]
  by (auto simp: gateway_send_def getClient_def ContextToSessionUUID_def RegisterClient_def DeregisterClient_def client_call_def
      gateway_inv_def update_conv' delete_conv' split: option.split)

text \<open>The clients are a store: a session has a client exactly if the last operation for it registered one.\<close>

interpretation clients: erasable_store "\<lambda>g. True" "\<lambda>i. True" "\<lambda>g i. map_of (g_clients g) i" "\<lambda>x i conn g. snd (RegisterClient i conn g)"
  "\<lambda>i g. snd (DeregisterClient i g)"
  by unfold_locales (simp_all add: RegisterClient_def DeregisterClient_def update_conv' delete_conv')

lemma client_history: "map_of (g_clients (fold clients.apply_op ops NewGateway)) i = (case last_value ops i of Some c \<Rightarrow> c | None \<Rightarrow> None)"
  by (simp add: clients.lookup_history NewGateway_def split: option.split)

theorem gateway_routes_witness:
  "gateway_send (\<lambda>c m. Ok ()) (Some ''u'') ''hi'' (snd (RegisterClient ''u'' ''c'' NewGateway)) =
     (Ok (), (snd (RegisterClient ''u'' ''c'' NewGateway))\<lparr>g_log := [(''c'', ''hi'')]\<rparr>)"
  using gateway_routes [OF gateway_reachable.new, of "\<lambda>c m. Ok ()" "''u''" "''hi''" "''c''"] by (simp add: NewGateway_def)

inductive prompt_reachable :: "prompt \<Rightarrow> bool" where
  shown: "fst (showWaitingForUserSelection client i newUUID) = Ok p \<Longrightarrow> prompt_reachable p"
| update: "prompt_reachable p \<Longrightarrow> pr_updateTimer p \<Longrightarrow> prompt_reachable (update_timer_fires p)"
| timeout: "prompt_reachable p \<Longrightarrow> pr_endTimer p \<Longrightarrow> prompt_reachable (end_timer_fires p)"
| selected: "prompt_reachable p \<Longrightarrow> \<not> pr_returned p \<Longrightarrow> prompt_reachable (prompt_done p)"

lemma prompt_inv:
  assumes "prompt_reachable p"
  shows "length (filter (\<lambda>m. m = PromptEnd) (pr_sent p)) = (if pr_endTimer p then 0 else 1) \<and>
    (pr_returned p \<longrightarrow> \<not> pr_endTimer p \<and> \<not> pr_updateTimer p)"
  using assms
  by (induction rule: prompt_reachable.induct)
     (auto simp: showWaitingForUserSelection_def update_timer_fires_def end_timer_fires_def prompt_done_def Let_def
        split: outcome.splits if_splits)

text \<open>
  C27. The prompt that waits for a selection: however the two timers and the answer of the user interleave, the progress is ended at most
  once, and it has been ended exactly once, with no timer left, when the request returns. The message of a timer counts as sent when the timer
  fires, although its goroutine may hand it to the client a little later: stopping a timer that has fired does not wait for its function.
\<close>

theorem prompt_ends_once:
  assumes "prompt_reachable p"
  shows "length (filter (\<lambda>m. m = PromptEnd) (pr_sent p)) \<le> 1 \<and>
    (pr_returned p \<longrightarrow> length (filter (\<lambda>m. m = PromptEnd) (pr_sent p)) = 1 \<and> \<not> pr_updateTimer p \<and> \<not> pr_endTimer p) \<and>
    (\<not> pr_returned p \<longrightarrow> (let p' = prompt_done p in pr_returned p' \<and> length (filter (\<lambda>m. m = PromptEnd) (pr_sent p')) = 1))"
proof -
  from prompt_inv [OF assms] have "length (filter (\<lambda>m. m = PromptEnd) (pr_sent p)) = (if pr_endTimer p then 0 else 1)"
    "pr_returned p \<longrightarrow> \<not> pr_endTimer p \<and> \<not> pr_updateTimer p" by blast+
  then show ?thesis by (auto simp: prompt_done_def Let_def)
qed

theorem prompt_ends_once_witness:
  "\<exists>p. fst (showWaitingForUserSelection (\<lambda>i m. Ok ()) ''u'' (Ok ())) = Ok p \<and>
     length (filter (\<lambda>m. m = PromptEnd) (pr_sent (prompt_done (end_timer_fires p)))) = 1"
proof -
  obtain p where p: "fst (showWaitingForUserSelection (\<lambda>i m. Ok ()) ''u'' (Ok ())) = Ok p" "pr_endTimer p" "\<not> pr_returned p"
    by (auto simp: showWaitingForUserSelection_def)
  from prompt_ends_once [OF prompt_reachable.timeout [OF prompt_reachable.shown [OF p(1)] p(2)]] p show ?thesis
    by (auto simp: end_timer_fires_def Let_def)
qed

end
