(* ===== verification/GoStrings.thy ===== *)
theory GoStrings
  imports GoPath
begin

text \<open>
  The functions of the Go packages \<^verbatim>\<open>strings\<close> and \<^verbatim>\<open>path/filepath\<close> that the helpers of the server use, beyond \<open>GoPath\<close>, and
  paths by their elements.
\<close>

text \<open>\<^verbatim>\<open>strings.Index\<close>, \<^verbatim>\<open>strings.SplitN(s, sep, 2)\<close> for a separator that is not empty, and \<^verbatim>\<open>filepath.Dir\<close>.\<close>

fun strings_Index :: "gostring \<Rightarrow> gostring \<Rightarrow> nat option" where
  "strings_Index [] sep = (if sep = [] then Some 0 else None)"
| "strings_Index (c # s) sep = (if prefix sep (c # s) then Some 0 else map_option Suc (strings_Index s sep))"

definition SplitN2 :: "gostring \<Rightarrow> gostring \<Rightarrow> gostring list" where
  "SplitN2 s sep = (case strings_Index s sep of None \<Rightarrow> [s] | Some i \<Rightarrow> [take i s, drop (i + length sep) s])"

text \<open>\<^verbatim>\<open>strings.Split\<close> at a separator of one byte, \<^verbatim>\<open>TrimPrefix\<close>, and \<^verbatim>\<open>TrimSpace\<close> and \<^verbatim>\<open>Fields\<close> of ASCII texts.\<close>

fun strings_Split :: "gostring \<Rightarrow> char \<Rightarrow> gostring list" where
  "strings_Split [] sep = [[]]"
| "strings_Split (c # cs) sep =
     (if c = sep then [] # strings_Split cs sep
      else case strings_Split cs sep of [] \<Rightarrow> [[c]] | x # xs \<Rightarrow> (c # x) # xs)"

definition TrimPrefix :: "gostring \<Rightarrow> gostring \<Rightarrow> gostring" where
  "TrimPrefix s pre = (if prefix pre s then drop (length pre) s else s)"

definition is_space :: "char \<Rightarrow> bool" where
  "is_space c \<longleftrightarrow> c \<in> set [CHR '' '', CHR 0x09, CHR 0x0A, CHR 0x0B, CHR 0x0C, CHR 0x0D]"

definition TrimSpace :: "gostring \<Rightarrow> gostring" where
  "TrimSpace s = rev (dropWhile is_space (rev (dropWhile is_space s)))"

fun fields_loop :: "gostring \<Rightarrow> gostring \<Rightarrow> gostring list" where
  "fields_loop [] cur = (if cur = [] then [] else [cur])"
| "fields_loop (c # cs) cur =
     (if is_space c then (if cur = [] then fields_loop cs [] else cur # fields_loop cs []) else fields_loop cs (cur @ [c]))"

definition strings_Fields :: "gostring \<Rightarrow> gostring list" where
  "strings_Fields s = fields_loop s []"

lemma strings_Split_ne [simp]: "strings_Split s sep \<noteq> []"
  by (cases s) (auto split: list.split)

lemma strings_Split_plain: "sep \<notin> set s \<Longrightarrow> strings_Split s sep = [s]"
  by (induction s) auto

lemma strings_Split_append: "sep \<notin> set s \<Longrightarrow> strings_Split (s @ sep # t) sep = s # strings_Split t sep"
  by (induction s) auto

definition path_Dir :: "gostring \<Rightarrow> gostring" where
  "path_Dir p = Clean (rev (dropWhile (\<lambda>c. c \<noteq> CHR ''/'') (rev p)))"

text \<open>\<^verbatim>\<open>path.Base\<close>: the last element without trailing slashes.\<close>

definition path_Base :: "gostring \<Rightarrow> gostring" where
  "path_Base p =
     (if p = '''' then ''.''
      else let b = base_after_slash (rev (dropWhile (\<lambda>c. c = CHR ''/'') (rev p))) in if b = '''' then ''/'' else b)"

text \<open>An absolute path by its elements.\<close>

definition abs_path :: "gostring list \<Rightarrow> gostring" where
  "abs_path es = CHR ''/'' # join_slash es"

definition plain :: "gostring list \<Rightarrow> bool" where
  "plain es \<longleftrightarrow> list_all elem_ok es \<and> ''..'' \<notin> set es"

lemma plain_append [simp]: "plain (xs @ ys) \<longleftrightarrow> plain xs \<and> plain ys"
  by (auto simp: plain_def)

lemma plain_take: "plain es \<Longrightarrow> plain (take n es)"
  by (metis append_take_drop_id plain_append)

lemma join_slash_snoc: "es \<noteq> [] \<Longrightarrow> join_slash (es @ [x]) = join_slash es @ CHR ''/'' # x"
  by (induction es rule: join_slash.induct) auto

lemma join_slash_append: "es \<noteq> [] \<Longrightarrow> fs \<noteq> [] \<Longrightarrow> join_slash (es @ fs) = join_slash es @ CHR ''/'' # join_slash fs"
  by (induction es rule: join_slash.induct) (auto split: list.split, (cases fs; simp)+)

lemma abs_path_inject:
  assumes "plain es" and "plain fs"
  shows "abs_path es = abs_path fs \<longleftrightarrow> es = fs"
  using path_elems_rooted [of es] path_elems_rooted [of fs] assms unfolding abs_path_def plain_def by metis

lemma path_Dir_snoc:
  assumes "plain (es @ [x])"
  shows "path_Dir (abs_path (es @ [x])) = abs_path es"
proof -
  have x: "CHR ''/'' \<notin> set x" using assms by (simp add: plain_def elem_ok_def)
  have es: "list_all elem_ok es" "''..'' \<notin> set es" using assms by (simp_all add: plain_def)
  have strip: "rev (dropWhile (\<lambda>c. c \<noteq> CHR ''/'') (rev (y @ CHR ''/'' # x))) = y @ ''/''" for y
  proof -
    have "dropWhile (\<lambda>c. c \<noteq> CHR ''/'') (rev x @ CHR ''/'' # rev y) = CHR ''/'' # rev y"
      using x by (subst dropWhile_append2) auto
    then show ?thesis by simp
  qed
  show ?thesis
  proof (cases "es = []")
    case True
    with strip [of "[]"] show ?thesis by (simp add: path_Dir_def abs_path_def Clean_def)
  next
    case False
    have "split_slash (CHR ''/'' # join_slash es @ ''/'') = [] # es @ [[]]"
      using split_slash_snoc [of "join_slash es" "[]"] split_join [OF es(1) False] by simp
    then have "Clean (CHR ''/'' # join_slash es @ ''/'') = abs_path es"
      using clean_elems_plain [OF es] by (simp add: Clean_def abs_path_def clean_elems_append)
    with strip [of "CHR ''/'' # join_slash es"] False show ?thesis
      by (simp add: path_Dir_def abs_path_def join_slash_snoc)
  qed
qed

lemma split_below_root:
  assumes "es \<noteq> []" and "rs \<noteq> []"
  shows "SplitN2 (abs_path (rs @ es)) (abs_path rs @ ''/'') = ['''', join_slash es]"
proof -
  have eq: "abs_path (rs @ es) = (abs_path rs @ ''/'') @ join_slash es"
    using assms by (simp add: abs_path_def join_slash_append)
  then have "strings_Index (abs_path (rs @ es)) (abs_path rs @ ''/'') = Some 0"
    unfolding abs_path_def by (simp only: append_Cons strings_Index.simps) (simp add: eq [unfolded abs_path_def])
  then show ?thesis using eq by (simp add: SplitN2_def)
qed

lemma Clean_suffix:
  assumes "elem_ok f" and "f \<noteq> ''..''"
  shows "suffix f (Clean (p @ CHR ''/'' # f))"
proof -
  have f: "CHR ''/'' \<notin> set f" "f \<noteq> ''''" "f \<noteq> ''.''" using assms(1) by (auto simp: elem_ok_def)
  have split: "split_slash (p @ CHR ''/'' # f) = split_slash p @ [f]" using f(1) by (simp add: split_slash_snoc split_slash_plain)
  have last: "suffix f (join_slash (es @ [f]))" "join_slash (es @ [f]) \<noteq> ''''" for es
    using f(2) by (cases "es = []"; simp add: join_slash_snoc suffix_def)+
  have "\<exists>es. clean_elems rooted (split_slash p @ [f]) [] = es @ [f]" for rooted
    using f(2,3) assms(2) by (simp add: clean_elems_append)
  then obtain es where "clean_elems rooted (split_slash p @ [f]) [] = es rooted @ [f]" for rooted by metis
  then show ?thesis using last split by (auto simp: Clean_def Let_def intro: suffix_ConsI)
qed

lemma Join_below:
  "plain es \<Longrightarrow> es \<noteq> [] \<Longrightarrow> elem_ok x \<Longrightarrow> x \<noteq> ''..'' \<Longrightarrow> path_Join [join_slash es, x] = join_slash (es @ [x])"
proof -
  assume es: "plain es" "es \<noteq> []" and x: "elem_ok x" "x \<noteq> ''..''"
  have ok: "list_all elem_ok (es @ [x])" "''..'' \<notin> set (es @ [x])" using es(1) x by (auto simp: plain_def)
  have "join_slash es \<noteq> []" using es join_slash_empty_iff [of es] by (simp add: plain_def)
  then have "path_Join [join_slash es, x] = Clean (join_slash (es @ [x]))"
    using es(2) by (simp add: path_Join_def join_slash_snoc)
  also have "\<dots> = join_slash (es @ [x])"
    using split_join [OF ok(1)] clean_elems_plain [OF ok] join_slash_hd [OF ok(1)] join_slash_empty_iff [OF ok(1)]
    by (simp add: Clean_def Let_def)
  finally show ?thesis .
qed
end
