(* ===== verification/JavaUtils.thy ===== *)
theory JavaUtils
  imports GoStrings
begin

text \<open>
  \<^verbatim>\<open>src/ulsp/internal/java-utils/utils.go\<close>: the Bazel target of a Java file is named after the nearest directory above it that
  has a build file. The search goes up until it meets the workspace root; the loop has fuel, and \<open>None\<close> is running out of it. The file system is a record of
  the two calls the code makes; \<^verbatim>\<open>URI.Filename\<close> is an argument.
\<close>

subsection \<open>The search\<close>

record java_fs =
  fs_DirExists :: "gostring \<Rightarrow> bool outcome"
  fs_ReadDir :: "gostring \<Rightarrow> gostring list outcome"

definition isBuildFile :: "gostring \<Rightarrow> bool" where
  "isBuildFile fileName \<longleftrightarrow> fileName \<in> set [''BUILD.bazel'', ''BUILD'']"

fun build_search :: "nat \<Rightarrow> java_fs \<Rightarrow> gostring \<Rightarrow> bool \<Rightarrow> gostring \<Rightarrow> gostring outcome option" where
  "build_search 0 fs workspaceRoot includeBuildFile currentDir = None"
| "build_search (Suc fuel) fs workspaceRoot includeBuildFile currentDir =
     (if currentDir = workspaceRoot then Some (Fail (Errorf ''no child directory contained a BUILD file'' []))
      else case fs_ReadDir fs currentDir of
          Fail e \<Rightarrow> Some (Fail e)
        | Panic \<Rightarrow> Some Panic
        | Ok children \<Rightarrow>
            (case find isBuildFile children of
               Some childName \<Rightarrow> Some (Ok (if includeBuildFile then currentDir @ ''/'' @ childName else currentDir))
             | None \<Rightarrow> build_search fuel fs workspaceRoot includeBuildFile (path_Dir currentDir)))"

definition getBuildFile ::
  "nat \<Rightarrow> java_fs \<Rightarrow> ('u \<Rightarrow> gostring) \<Rightarrow> gostring \<Rightarrow> 'u \<Rightarrow> bool \<Rightarrow> gostring outcome option" where
  "getBuildFile fuel fs Filename workspaceRoot u includeBuildFile =
     (let filename = Filename u
      in if \<not> prefix workspaceRoot filename
         then Some (Fail (Errorf ''uri %s is not a child of the workspace %s'' [FStr filename, FStr workspaceRoot]))
         else case fs_DirExists fs filename of
             Fail e \<Rightarrow> Some (Fail e)
           | Panic \<Rightarrow> Some Panic
           | Ok isDir \<Rightarrow> build_search fuel fs workspaceRoot includeBuildFile (if isDir then filename else path_Dir filename))"

definition GetJavaTarget :: "nat \<Rightarrow> java_fs \<Rightarrow> ('u \<Rightarrow> gostring) \<Rightarrow> gostring \<Rightarrow> 'u \<Rightarrow> gostring outcome option" where
  "GetJavaTarget fuel fs Filename workspaceRoot docURI =
     map_option (\<lambda>r. obind r (\<lambda>buildFileDir.
       let targetSegments = SplitN2 buildFileDir (workspaceRoot @ ''/'')
       in if length targetSegments \<noteq> 2 then Fail (Errorf ''missing workspace root'' [])
          else Ok (path_Join [targetSegments ! 1, ''...''])))
     (getBuildFile fuel fs Filename workspaceRoot docURI False)"

definition NormalizeIDEClient :: "gostring \<Rightarrow> gostring" where
  "NormalizeIDEClient ideClient =
     (if ideClient = ''Visual Studio Code'' then ''vscode'' else if ideClient = ''Cursor'' then ''cursor'' else ideClient)"

subsection \<open>Walking up\<close>

text \<open>The first build file of a directory that can be read.\<close>

definition build_in :: "java_fs \<Rightarrow> gostring \<Rightarrow> gostring option" where
  "build_in fs dir = (case fs_ReadDir fs dir of Ok children \<Rightarrow> find isBuildFile children | _ \<Rightarrow> None)"

definition readable :: "java_fs \<Rightarrow> gostring list \<Rightarrow> bool" where
  "readable fs es \<longleftrightarrow> (\<forall>n \<le> length es. \<exists>children. fs_ReadDir fs (abs_path (take n es)) = Ok children)"

lemma readable_butlast: "readable fs (es @ [x]) \<Longrightarrow> readable fs es"
  unfolding readable_def by (metis le_SucI length_append_singleton take_append diff_is_0_eq append_Nil2 take0)

lemma build_search_step:
  assumes "dir \<noteq> root" and "fs_ReadDir fs dir = Ok children" and "build_in fs dir = None"
  shows "build_search (Suc fuel) fs root inc dir = build_search fuel fs root inc (path_Dir dir)"
  using assms by (simp add: build_in_def)

lemma build_search_up:
  assumes "plain (rs @ ds)" and "readable fs (rs @ ds)" and "n \<le> length ds"
    and "\<And>m. n < m \<Longrightarrow> m \<le> length ds \<Longrightarrow> build_in fs (abs_path (rs @ take m ds)) = None"
  shows "build_search (length ds - n + fuel) fs (abs_path rs) inc (abs_path (rs @ ds)) =
    build_search fuel fs (abs_path rs) inc (abs_path (rs @ take n ds))"
  using assms
proof (induction ds rule: rev_induct)
  case (snoc d ds)
  show ?case
  proof (cases "n = length (ds @ [d])")
    case False
    then have n: "n \<le> length ds" using snoc.prems(3) by simp
    have apart: "abs_path (rs @ ds @ [d]) \<noteq> abs_path rs"
      using snoc.prems(1) by (subst abs_path_inject) simp_all
    obtain children where children: "fs_ReadDir fs (abs_path (rs @ ds @ [d])) = Ok children"
      using snoc.prems(2) by (auto simp: readable_def dest!: spec [of _ "length (rs @ ds @ [d])"])
    have none: "build_in fs (abs_path (rs @ ds @ [d])) = None"
      using snoc.prems(4) [of "length (ds @ [d])"] n by simp
    have "path_Dir (abs_path (rs @ ds @ [d])) = abs_path (rs @ ds)"
      using path_Dir_snoc [of "rs @ ds" d] snoc.prems(1) by simp
    then have "build_search (Suc (length ds - n + fuel)) fs (abs_path rs) inc (abs_path (rs @ ds @ [d])) =
        build_search (length ds - n + fuel) fs (abs_path rs) inc (abs_path (rs @ ds))"
      using build_search_step [OF apart children none] by simp
    moreover have "build_search (length ds - n + fuel) fs (abs_path rs) inc (abs_path (rs @ ds)) =
        build_search fuel fs (abs_path rs) inc (abs_path (rs @ take n ds))"
    proof (rule snoc.IH [OF _ _ n])
      show "plain (rs @ ds)" using snoc.prems(1) by simp
      show "readable fs (rs @ ds)" using readable_butlast [of fs "rs @ ds" d] snoc.prems(2) by simp
      show "build_in fs (abs_path (rs @ take m ds)) = None" if "n < m" "m \<le> length ds" for m
        using snoc.prems(4) [of m] that by simp
    qed
    ultimately show ?thesis using n by (simp add: Suc_diff_le)
  qed simp
qed simp

lemma build_search_more: "build_search fuel fs root inc dir = Some r \<Longrightarrow> fuel \<le> fuel' \<Longrightarrow> build_search fuel' fs root inc dir = Some r"
proof (induction fuel arbitrary: fuel' dir)
  case (Suc fuel)
  then obtain k where "fuel' = Suc k" "fuel \<le> k" by (cases fuel') auto
  with Suc show ?case by (auto split: outcome.splits option.splits if_splits)
qed simp

lemma search_file:
  assumes "plain (es @ [f])" and "Filename u = abs_path (es @ [f])" and "fs_DirExists fs (abs_path (es @ [f])) = Ok False"
    and "prefix root (abs_path (es @ [f]))"
  shows "getBuildFile fuel fs Filename root u inc = build_search fuel fs root inc (abs_path es)"
  using assms path_Dir_snoc [OF assms(1)] by (simp add: getBuildFile_def Let_def)

lemma target_search:
  assumes "plain (rs @ ds @ [f])" and "rs \<noteq> []" and "Filename u = abs_path (rs @ ds @ [f])"
    and "fs_DirExists fs (abs_path (rs @ ds @ [f])) = Ok False" and "readable fs (rs @ ds)"
    and "n \<le> length ds" and "\<And>m. n < m \<Longrightarrow> m \<le> length ds \<Longrightarrow> build_in fs (abs_path (rs @ take m ds)) = None"
    and "build_search 1 fs (abs_path rs) False (abs_path (rs @ take n ds)) = Some r" and "length ds < fuel"
  shows "getBuildFile fuel fs Filename (abs_path rs) u False = Some r"
proof -
  have "prefix (abs_path rs) (abs_path (rs @ ds @ [f]))" using assms(2) by (simp add: abs_path_def join_slash_append)
  then have start: "getBuildFile fuel fs Filename (abs_path rs) u False = build_search fuel fs (abs_path rs) False (abs_path (rs @ ds))"
    using search_file [of "rs @ ds" f Filename u fs "abs_path rs"] assms(1,3,4) by simp
  have "plain (rs @ ds)" using assms(1) by simp
  from build_search_up [OF this assms(5,6,7), of 1 False] assms(8)
  have "build_search (length ds - n + 1) fs (abs_path rs) False (abs_path (rs @ ds)) = Some r" by simp
  then have "build_search fuel fs (abs_path rs) False (abs_path (rs @ ds)) = Some r"
    by (rule build_search_more) (use assms(9) in simp)
  with start show ?thesis by simp
qed

lemma target_found:
  assumes "plain (rs @ ds @ [f])" and "rs \<noteq> []" and "Filename u = abs_path (rs @ ds @ [f])"
    and "fs_DirExists fs (abs_path (rs @ ds @ [f])) = Ok False" and "readable fs (rs @ ds)" and "length ds < fuel"
    and "1 \<le> n" and "n \<le> length ds" and "build_in fs (abs_path (rs @ take n ds)) \<noteq> None"
    and "\<And>m. n < m \<Longrightarrow> m \<le> length ds \<Longrightarrow> build_in fs (abs_path (rs @ take m ds)) = None"
  shows "GetJavaTarget fuel fs Filename (abs_path rs) u = Some (Ok (join_slash (take n ds @ [''...''])))"
proof -
  have tn: "take n ds \<noteq> []" "plain (take n ds)" using assms(1,7,8) plain_take by auto
  have "abs_path (rs @ take n ds) \<noteq> abs_path rs" using assms(1) tn by (subst abs_path_inject) auto
  then have "build_search 1 fs (abs_path rs) False (abs_path (rs @ take n ds)) = Some (Ok (abs_path (rs @ take n ds)))"
    using assms(9) by (auto simp: build_in_def split: outcome.splits option.splits)
  from target_search [of rs ds f Filename u fs n, OF assms(1-5,8,10) this assms(6)] split_below_root [OF tn(1) assms(2)] Join_below [OF tn(2,1), of "''...''"]
  show ?thesis by (simp add: GetJavaTarget_def elem_ok_def)
qed

text \<open>
  C32. The target of a Java file. For a file below the workspace root whose directories can be read, the target is the path, relative
  to the root, of the nearest directory above the file that has a build file, with \<open>/...\<close> at its end; when only the root or no directory
  has one, an error is returned. As many steps as there are directories, and one more, are enough.
\<close>

theorem java_target_nearest:
  assumes "plain (rs @ ds @ [f])" and "rs \<noteq> []" and "Filename u = abs_path (rs @ ds @ [f])"
    and "fs_DirExists fs (abs_path (rs @ ds @ [f])) = Ok False" and "readable fs (rs @ ds)" and "length ds < fuel"
  shows "(1 \<le> n \<and> n \<le> length ds \<and> build_in fs (abs_path (rs @ take n ds)) \<noteq> None \<and>
      (\<forall>m. n < m \<and> m \<le> length ds \<longrightarrow> build_in fs (abs_path (rs @ take m ds)) = None) \<longrightarrow>
      GetJavaTarget fuel fs Filename (abs_path rs) u = Some (Ok (join_slash (take n ds @ [''...''])))) \<and>
    ((\<forall>m. 1 \<le> m \<and> m \<le> length ds \<longrightarrow> build_in fs (abs_path (rs @ take m ds)) = None) \<longrightarrow>
      (\<exists>e. GetJavaTarget fuel fs Filename (abs_path rs) u = Some (Fail e)))"
proof (intro conjI impI)
  assume n: "1 \<le> n \<and> n \<le> length ds \<and> build_in fs (abs_path (rs @ take n ds)) \<noteq> None \<and>
      (\<forall>m. n < m \<and> m \<le> length ds \<longrightarrow> build_in fs (abs_path (rs @ take m ds)) = None)"
  then show "GetJavaTarget fuel fs Filename (abs_path rs) u = Some (Ok (join_slash (take n ds @ [''...''])))"
    by (intro target_found [of rs ds f Filename u fs fuel n, OF assms]) auto
next
  assume none: "\<forall>m. 1 \<le> m \<and> m \<le> length ds \<longrightarrow> build_in fs (abs_path (rs @ take m ds)) = None"
  have "getBuildFile fuel fs Filename (abs_path rs) u False = Some (Fail (Errorf ''no child directory contained a BUILD file'' []))"
    by (rule target_search [of rs ds f Filename u fs 0, OF assms(1-5)]) (use none assms(6) in auto)
  then show "\<exists>e. GetJavaTarget fuel fs Filename (abs_path rs) u = Some (Fail e)" by (simp add: GetJavaTarget_def)
qed


subsection \<open>Witnesses\<close>

definition one_build :: java_fs where
  "one_build = \<lparr>fs_DirExists = (\<lambda>p. Ok False), fs_ReadDir = (\<lambda>p. Ok (if p = ''/w/a'' then [''x'', ''BUILD''] else []))\<rparr>"

lemmas build_samples = plain_def elem_ok_def abs_path_def one_build_def build_in_def isBuildFile_def

theorem java_target_nearest_witness: "GetJavaTarget 3 one_build (\<lambda>u. u) ''/w'' ''/w/a/b/C.java'' = Some (Ok ''a/...'')"
proof -
  have "readable one_build ([''w''] @ [''a'', ''b''])" by (simp add: readable_def one_build_def)
  moreover have "build_in one_build (abs_path ([''w''] @ take m [''a'', ''b''])) = None" if "1 < m" "m \<le> 2" for m
  proof -
    from that have "m = 2" by simp
    then show ?thesis by (simp add: build_samples)
  qed
  ultimately show ?thesis
    using java_target_nearest [of "[''w'']" "[''a'', ''b'']" "''C.java''" "\<lambda>u. u" "''/w/a/b/C.java''" one_build 3 1]
    by (simp add: build_samples)
qed


end
