(* ===== verification/UserGuidance.thy ===== *)
theory UserGuidance
  imports GoStrings
begin

text \<open>
  \<^verbatim>\<open>src/ulsp/controller/user-guidance/user_guidance.go\<close>: messages of the configuration that are shown to the user, each one at most
  once. That a message was shown is remembered in a file named after its key, with the title of the selected action as its content. The files are part of
  the state; whether a file operation or a call of the client fails is in the environment. Calls that the client accepted are logged with the
  path of the file.
\<close>

subsection \<open>Data\<close>

record guidance_action =
  ga_Title :: gostring
  ga_URI :: gostring
  ga_External :: bool
  ga_Save :: bool

record guidance_message =
  gm_Key :: gostring
  gm_Kind :: gostring
  gm_Message :: gostring
  gm_Type :: gostring
  gm_Actions :: "guidance_action list"

datatype ug_call = UgLog gostring | UgShow gostring | UgRequest gostring | UgDocument gostring

record ug_env =
  ug_UserCacheDir :: "gostring outcome"
  ug_ReadFile :: "gostring \<Rightarrow> unit outcome"
  ug_MkdirAll :: "gostring \<Rightarrow> unit outcome"
  ug_Create :: "gostring \<Rightarrow> unit outcome"
  ug_WriteFile :: "gostring \<Rightarrow> unit outcome"
  ug_LogMessage :: "guidance_message \<Rightarrow> unit outcome"
  ug_ShowMessage :: "guidance_message \<Rightarrow> unit outcome"
  ug_ShowMessageRequest :: "guidance_message \<Rightarrow> gostring option outcome"
  ug_cancelled :: "go_error \<Rightarrow> bool"
  ug_ShowDocument :: "guidance_action \<Rightarrow> unit outcome"

record ug_state =
  ug_files :: "gostring \<rightharpoonup> gostring"
  ug_calls :: "ug_call list"

type_synonym 'a ug_op = "ug_state \<Rightarrow> 'a outcome \<times> ug_state"

definition ug_bind :: "'a ug_op \<Rightarrow> ('a \<Rightarrow> 'b ug_op) \<Rightarrow> 'b ug_op" where
  "ug_bind m k c = (case m c of (Ok x, c') \<Rightarrow> k x c' | (Fail e, c') \<Rightarrow> (Fail e, c') | (Panic, c') \<Rightarrow> (Panic, c'))"

definition ug_return :: "'a \<Rightarrow> 'a ug_op" where
  "ug_return x c = (Ok x, c)"

definition ug_lift :: "gostring \<Rightarrow> 'a outcome \<Rightarrow> 'a ug_op" where
  "ug_lift w r c = (wrap_err (Errorf w []) r, c)"

definition ug_wrap :: "go_error \<Rightarrow> 'a ug_op \<Rightarrow> 'a ug_op" where
  "ug_wrap w m c = (case m c of (r, c') \<Rightarrow> (wrap_err w r, c'))"

text \<open>A call of the client.\<close>

definition ug_send :: "gostring \<Rightarrow> 'a outcome \<Rightarrow> ug_call \<Rightarrow> 'a ug_op" where
  "ug_send w r call c =
     (case r of Ok x \<Rightarrow> (Ok x, c\<lparr>ug_calls := ug_calls c @ [call]\<rparr>) | _ \<Rightarrow> (wrap_err (Errorf w []) r, c))"

subsection \<open>The files\<close>

definition shownMessagesCacheDir :: gostring where
  "shownMessagesCacheDir = ''ulsp/shown-messages''"

definition buildSentinelFilePath :: "ug_env \<Rightarrow> guidance_message \<Rightarrow> gostring outcome" where
  "buildSentinelFilePath env msg =
     obind (wrap_err (Errorf ''user cache dir: %w'' []) (ug_UserCacheDir env)) (\<lambda>cache.
       Ok (path_Join [cache, shownMessagesCacheDir, gm_Key msg]))"

text \<open>\<^verbatim>\<open>statShownMessage\<close>: \<open>None\<close> is the error that the message was never shown.\<close>

definition statShownMessage :: "ug_env \<Rightarrow> guidance_message \<Rightarrow> gostring option ug_op" where
  "statShownMessage env msg c =
     (obind (wrap_err (Errorf ''build sentinel file path: %w'' []) (buildSentinelFilePath env msg)) (\<lambda>path.
        obind (wrap_err (Errorf ''read sentinel file: %w'' []) (ug_ReadFile env path)) (\<lambda>_. Ok (ug_files c path))), c)"

definition markMessageAsShown :: "ug_env \<Rightarrow> guidance_message \<Rightarrow> gostring option \<Rightarrow> unit ug_op" where
  "markMessageAsShown env msg selection =
     ug_bind (ug_lift ''build sentinel file path: %w'' (buildSentinelFilePath env msg)) (\<lambda>path.
     ug_bind (ug_lift ''mkdir all sentinel: %w'' (ug_MkdirAll env (path_Dir path))) (\<lambda>_.
     ug_bind (ug_lift ''create sentinel file: %w'' (ug_Create env path)) (\<lambda>_ c.
       let c = c\<lparr>ug_files := (ug_files c)(path \<mapsto> '''')\<rparr>
       in case selection of
            None \<Rightarrow> (Ok (), c)
          | Some title \<Rightarrow>
              ug_bind (ug_lift ''write sentinel file: %w'' (ug_WriteFile env path)) (\<lambda>_ c.
                (Ok (), c\<lparr>ug_files := (ug_files c)(path \<mapsto> title)\<rparr>)) c)))"

subsection \<open>Showing a message\<close>

definition sentinel :: "ug_env \<Rightarrow> guidance_message \<Rightarrow> gostring" where
  "sentinel env msg = (case buildSentinelFilePath env msg of Ok p \<Rightarrow> p | _ \<Rightarrow> '''')"

definition OutputMessage :: "ug_env \<Rightarrow> guidance_message \<Rightarrow> unit ug_op" where
  "OutputMessage env msg =
     ug_bind (ug_wrap (Errorf ''stat shown message: %w'' []) (statShownMessage env msg)) (\<lambda>shown.
       case shown of
         Some _ \<Rightarrow> ug_return ()
       | None \<Rightarrow>
           ug_bind (ug_send ''log message: %w'' (ug_LogMessage env msg) (UgLog (sentinel env msg))) (\<lambda>_.
             ug_wrap (Errorf ''mark message as shown: %w'' []) (markMessageAsShown env msg None)))"

text \<open>The first action whose title is the selection, saved and opened.\<close>

definition perform_action :: "ug_env \<Rightarrow> guidance_message \<Rightarrow> gostring \<Rightarrow> guidance_action option ug_op" where
  "perform_action env msg selection =
     (case find (\<lambda>a. ga_Title a = selection) (gm_Actions msg) of
        None \<Rightarrow> (\<lambda>c. (Fail (Errorf ''no action matches selection %s'' [FStr selection]), c))
      | Some action \<Rightarrow>
          ug_bind (if ga_Save action then ug_wrap (Errorf ''mark message as shown: %w'' []) (markMessageAsShown env msg (Some selection)) else ug_return ()) (\<lambda>_.
            if ga_URI action = '''' then ug_return (Some action)
            else ug_bind (ug_send ''show document: %w'' (ug_ShowDocument env action) (UgDocument (ga_URI action))) (\<lambda>_.
              ug_return (Some action))))"

definition NotifyMessage :: "ug_env \<Rightarrow> guidance_message \<Rightarrow> guidance_action option ug_op" where
  "NotifyMessage env msg =
     ug_bind (ug_wrap (Errorf ''stat shown message: %w'' []) (statShownMessage env msg)) (\<lambda>shown.
       if gm_Actions msg = [] then
         (case shown of
            Some _ \<Rightarrow> ug_return None
          | None \<Rightarrow>
              ug_bind (ug_send ''show message: %w'' (ug_ShowMessage env msg) (UgShow (sentinel env msg))) (\<lambda>_.
              ug_bind (ug_wrap (Errorf ''mark message as shown: %w'' []) (markMessageAsShown env msg None)) (\<lambda>_. ug_return None)))
       else
         (case shown of
            Some selection \<Rightarrow> perform_action env msg selection
          | None \<Rightarrow>
              (case ug_ShowMessageRequest env msg of
                 Fail e \<Rightarrow> if ug_cancelled env e then ug_return None else ug_lift ''show message request: %w'' (Fail e)
               | _ \<Rightarrow>
                   ug_bind (ug_send '''' (ug_ShowMessageRequest env msg) (UgRequest (sentinel env msg))) (\<lambda>answer.
                     case answer of None \<Rightarrow> ug_return None | Some selection \<Rightarrow> perform_action env msg selection))))"

text \<open>
  The messages of a configuration are shown by one goroutine each. \<open>order\<close> is the order in which they run; the error that is returned is the
  first one sent.
\<close>

definition display_message :: "ug_env \<Rightarrow> guidance_message \<Rightarrow> unit ug_op" where
  "display_message env msg =
     (if gm_Kind msg = ''output'' then ug_wrap (Errorf ''output message %s: %w'' [FStr (gm_Key msg)]) (OutputMessage env msg)
      else if gm_Kind msg = ''notification''
      then ug_wrap (Errorf ''notify message %s: %w'' [FStr (gm_Key msg)]) (ug_bind (NotifyMessage env msg) (\<lambda>_. ug_return ()))
      else ug_return ())"

fun displayApplicableMessages :: "ug_env \<Rightarrow> guidance_message list \<Rightarrow> unit ug_op" where
  "displayApplicableMessages env [] c = (Ok (), c)"
| "displayApplicableMessages env (msg # order) c =
     (case display_message env msg c of
        (Panic, c') \<Rightarrow> (Panic, c')
      | (Fail e, c') \<Rightarrow> (Fail e, snd (displayApplicableMessages env order c'))
      | (Ok _, c') \<Rightarrow> displayApplicableMessages env order c')"

definition ug_initialized :: "ug_env \<Rightarrow> guidance_message list \<Rightarrow> unit ug_op" where
  "ug_initialized env order = ug_wrap (Errorf ''display applicable messages: %w'' []) (displayApplicableMessages env order)"
subsection \<open>Nothing is shown twice\<close>

text \<open>The files of the messages that were shown without a question, in the order they were shown.\<close>

fun shown_path :: "ug_call \<Rightarrow> gostring option" where
  "shown_path (UgLog p) = Some p"
| "shown_path (UgShow p) = Some p"
| "shown_path (UgRequest p) = None"
| "shown_path (UgDocument u) = None"

definition shown_paths :: "ug_state \<Rightarrow> gostring list" where
  "shown_paths c = List.map_filter shown_path (ug_calls c)"

definition ug_inv :: "ug_state \<Rightarrow> bool" where
  "ug_inv c \<longleftrightarrow> distinct (shown_paths c) \<and> (\<forall>p \<in> set (shown_paths c). ug_files c p \<noteq> None)"

text \<open>An operation that asks nothing of a message keeps the files and adds no message that was shown.\<close>

definition ug_quiet :: "'a ug_op \<Rightarrow> bool" where
  "ug_quiet m \<longleftrightarrow> (\<forall>c. shown_paths (snd (m c)) = shown_paths c \<and> (\<forall>p. ug_files c p \<noteq> None \<longrightarrow> ug_files (snd (m c)) p \<noteq> None))"

lemma quietI:
  "(\<And>c. shown_paths (snd (m c)) = shown_paths c) \<Longrightarrow> (\<And>c p. ug_files c p \<noteq> None \<Longrightarrow> ug_files (snd (m c)) p \<noteq> None) \<Longrightarrow> ug_quiet m"
  by (simp add: ug_quiet_def)

lemma quiet_bind:
  assumes "ug_quiet m" and "\<And>x. ug_quiet (k x)"
  shows "ug_quiet (ug_bind m k)"
proof (rule quietI)
  fix c
  obtain r c' where m: "m c = (r, c')" by fastforce
  with assms(1) have c': "shown_paths c' = shown_paths c" "\<And>p. ug_files c p \<noteq> None \<Longrightarrow> ug_files c' p \<noteq> None"
    unfolding ug_quiet_def by (metis snd_conv)+
  show "shown_paths (snd (ug_bind m k c)) = shown_paths c"
    using assms(2) c'(1) by (cases r) (simp_all add: ug_bind_def m ug_quiet_def)
  show "ug_files (snd (ug_bind m k c)) p \<noteq> None" if "ug_files c p \<noteq> None" for p
    using assms(2) c'(2) [OF that] by (cases r) (simp_all add: ug_bind_def m ug_quiet_def)
qed

lemma quiet_basic:
  "ug_quiet (ug_return x)" "ug_quiet (ug_lift w r)" "ug_quiet (\<lambda>c. (r, c))"
  by (simp_all add: ug_quiet_def ug_return_def ug_lift_def)

lemma quiet_wrap: "ug_quiet m \<Longrightarrow> ug_quiet (ug_wrap w m)"
  by (simp add: ug_quiet_def ug_wrap_def case_prod_beta)

lemma quiet_send: "shown_path call = None \<Longrightarrow> ug_quiet (ug_send w r call)"
  by (auto simp: ug_quiet_def ug_send_def shown_paths_def map_filter_def split: outcome.split)

lemma quiet_stat: "ug_quiet (statShownMessage env msg)"
  by (simp add: ug_quiet_def statShownMessage_def)

lemma quiet_mark: "ug_quiet (markMessageAsShown env msg selection)"
  unfolding markMessageAsShown_def
  by (intro quiet_bind quiet_basic)
     (auto simp: ug_quiet_def Let_def shown_paths_def ug_bind_def ug_lift_def split: option.split outcome.split)

lemma quiet_perform: "ug_quiet (perform_action env msg selection)"
  unfolding perform_action_def
  by (auto intro!: quiet_bind quiet_basic quiet_wrap quiet_mark quiet_send split: option.split)

lemma quiet_inv: "ug_quiet m \<Longrightarrow> ug_inv c \<Longrightarrow> ug_inv (snd (m c))"
  by (simp add: ug_quiet_def ug_inv_def)
lemma announce_inv:
  assumes "ug_inv c" and "ug_files c p = None" and "buildSentinelFilePath env msg = Ok p" and "shown_path call = Some p"
    and "\<And>p. ug_MkdirAll env p = Ok ()" and "\<And>p. ug_Create env p = Ok ()"
  shows "ug_inv (snd (ug_bind (ug_send w r call) (\<lambda>_. ug_wrap w' (markMessageAsShown env msg None)) c))"
proof (cases r)
  case (Ok x)
  have "p \<notin> set (shown_paths c)" using assms(1,2) by (auto simp: ug_inv_def)
  with Ok assms show ?thesis
    by (auto simp: ug_bind_def ug_send_def ug_wrap_def markMessageAsShown_def ug_lift_def ug_inv_def shown_paths_def map_filter_def)
qed (simp_all add: ug_bind_def ug_send_def assms(1))

text \<open>What the file of a message says decides how the message is shown.\<close>

lemma stat_cases:
  obtains (none) p where "buildSentinelFilePath env msg = Ok p" "statShownMessage env msg c = (Ok None, c)" "ug_files c p = None" "sentinel env msg = p"
    | (shown) title where "statShownMessage env msg c = (Ok (Some title), c)"
    | (failed) e where "statShownMessage env msg c = (Fail e, c)"
    | (panic) "statShownMessage env msg c = (Panic, c)"
proof (cases "buildSentinelFilePath env msg")
  case (Ok p)
  then show ?thesis
    using that by (cases "ug_ReadFile env p"; cases "ug_files c p") (auto simp: statShownMessage_def sentinel_def)
qed (use that in \<open>auto simp: statShownMessage_def\<close>)

lemma output_inv:
  assumes "ug_inv c" and "\<And>p. ug_MkdirAll env p = Ok ()" and "\<And>p. ug_Create env p = Ok ()"
  shows "ug_inv (snd (OutputMessage env msg c))"
proof (cases rule: stat_cases [of env msg c])
  case (none p)
  from announce_inv [OF assms(1) none(3,1), of "UgLog p"] assms(2,3) none show ?thesis
    by (simp add: OutputMessage_def ug_bind_def [of "ug_wrap _ (statShownMessage _ _)"] ug_wrap_def [of _ "statShownMessage _ _"])
qed (simp_all add: OutputMessage_def ug_bind_def ug_wrap_def ug_return_def assms(1))

lemma notify_inv:
  assumes "ug_inv c" and "\<And>p. ug_MkdirAll env p = Ok ()" and "\<And>p. ug_Create env p = Ok ()"
  shows "ug_inv (snd (NotifyMessage env msg c))"
proof (cases rule: stat_cases [of env msg c])
  case (none p)
  let ?ask = "ug_bind (ug_send '''' (ug_ShowMessageRequest env msg) (UgRequest p)) (\<lambda>answer.
      case answer of None \<Rightarrow> ug_return None | Some selection \<Rightarrow> perform_action env msg selection)"
  have "ug_quiet ?ask" by (auto intro!: quiet_bind quiet_send quiet_basic quiet_perform split: option.split)
  from quiet_inv [OF this assms(1)] have ask: "ug_inv (snd (?ask c))" .
  have bind: "snd (ug_bind m (\<lambda>_. ug_bind n (\<lambda>_. ug_return None)) c) = snd (ug_bind m (\<lambda>_. n) c)" for m :: "unit ug_op" and n :: "unit ug_op"
    by (simp add: ug_bind_def ug_return_def split: prod.split outcome.split)
  have tell: "ug_inv (snd (ug_bind (ug_send w (ug_ShowMessage env msg) (UgShow p)) (\<lambda>_. ug_wrap w' (markMessageAsShown env msg None)) c))" for w w'
    using announce_inv [OF assms(1) none(3,1), of "UgShow p"] assms(2,3) by simp
  show ?thesis
    using none ask tell assms(1)
    by (auto simp: NotifyMessage_def ug_bind_def [of "ug_wrap _ (statShownMessage _ _)"] ug_wrap_def [of _ "statShownMessage _ _"] bind
        ug_return_def ug_lift_def split: outcome.split)
next
  case (shown title)
  with quiet_inv [OF quiet_perform assms(1)] show ?thesis by (simp add: NotifyMessage_def ug_bind_def ug_wrap_def ug_return_def assms(1))
qed (simp_all add: NotifyMessage_def ug_bind_def ug_wrap_def assms(1))
lemma snd_wrap [simp]: "snd (ug_wrap w m c) = snd (m c)"
  by (simp add: ug_wrap_def case_prod_beta)

lemma snd_then_return: "snd (ug_bind m (\<lambda>_. ug_return x) c) = snd (m c)"
  by (simp add: ug_bind_def ug_return_def split: prod.split outcome.split)

lemma display_inv:
  assumes "ug_inv c" and "\<And>p. ug_MkdirAll env p = Ok ()" and "\<And>p. ug_Create env p = Ok ()"
  shows "ug_inv (snd (displayApplicableMessages env order c))"
  using assms(1)
proof (induction order arbitrary: c)
  case (Cons msg order)
  have "ug_inv (snd (display_message env msg c))"
    using output_inv [OF Cons.prems assms(2,3)] notify_inv [OF Cons.prems assms(2,3)] Cons.prems
    by (simp add: display_message_def snd_then_return) (simp add: ug_return_def)
  with Cons.IH show ?case by (auto split: prod.split outcome.split)
qed simp

text \<open>Sessions are initialized one after the other; the goroutines of each run in some order, and the files stay.\<close>

inductive ug_reachable :: "ug_env \<Rightarrow> ug_state \<Rightarrow> bool" for env where
  start: "ug_reachable env \<lparr>ug_files = files, ug_calls = []\<rparr>"
| initialized: "ug_reachable env c \<Longrightarrow> ug_reachable env (snd (ug_initialized env order c))"

definition requests :: "ug_state \<Rightarrow> ug_call list" where
  "requests c = filter (\<lambda>x. case x of UgRequest p \<Rightarrow> True | _ \<Rightarrow> False) (ug_calls c)"

definition asks_nothing :: "'a ug_op \<Rightarrow> bool" where
  "asks_nothing m \<longleftrightarrow> (\<forall>c. requests (snd (m c)) = requests c)"

lemma asks_nothing_bind:
  assumes "asks_nothing m" and "\<And>x. asks_nothing (k x)"
  shows "asks_nothing (ug_bind m k)"
  unfolding asks_nothing_def
proof
  fix c
  obtain r c' where m: "m c = (r, c')" by fastforce
  with assms(1) have "requests c' = requests c" unfolding asks_nothing_def by (metis snd_conv)
  with assms(2) m show "requests (snd (ug_bind m k c)) = requests c" by (cases r) (simp_all add: ug_bind_def asks_nothing_def)
qed

lemma asks_nothing_basic:
  "asks_nothing (ug_return x)" "asks_nothing (ug_lift w r)" "asks_nothing (\<lambda>c. (r, c))" "asks_nothing (ug_send w r (UgDocument u))"
  "asks_nothing m \<Longrightarrow> asks_nothing (ug_wrap e m)"
  by (simp_all add: asks_nothing_def ug_return_def ug_lift_def ug_send_def requests_def split: outcome.split)

lemma asks_nothing_mark: "asks_nothing (markMessageAsShown env msg selection)"
  unfolding markMessageAsShown_def
  by (intro asks_nothing_bind asks_nothing_basic)
     (auto simp: asks_nothing_def requests_def ug_bind_def ug_lift_def Let_def split: outcome.split option.split)

lemma asks_nothing_perform: "asks_nothing (perform_action env msg selection)"
  unfolding perform_action_def
  by (auto intro!: asks_nothing_bind asks_nothing_basic asks_nothing_mark split: option.split)

text \<open>
  C34. Guidance. When the files can be created, no message is logged or shown twice, whatever sessions are initialized and in whatever order their
  goroutines run, one after the other (\<open>output_race\<close> below is the case in which two overlap); and a message whose file exists is not
  logged or shown, and its question is not asked again.
\<close>

theorem messages_shown_once:
  assumes "ug_reachable env c" and "\<And>p. ug_MkdirAll env p = Ok ()" and "\<And>p. ug_Create env p = Ok ()"
  shows "distinct (shown_paths c) \<and>
    (buildSentinelFilePath env msg = Ok p \<and> ug_ReadFile env p = Ok () \<and> ug_files c p = Some title \<longrightarrow>
      OutputMessage env msg c = (Ok (), c) \<and>
      (gm_Actions msg = [] \<longrightarrow> NotifyMessage env msg c = (Ok None, c)) \<and>
      requests (snd (NotifyMessage env msg c)) = requests c)"
proof (intro conjI impI)
  have "ug_inv c"
    using assms(1)
  proof induction
    case (initialized c order)
    from display_inv [OF initialized.IH assms(2,3)] show ?case by (simp add: ug_initialized_def)
  qed (simp add: ug_inv_def shown_paths_def map_filter_def)
  then show "distinct (shown_paths c)" by (simp add: ug_inv_def)
next
  assume "buildSentinelFilePath env msg = Ok p \<and> ug_ReadFile env p = Ok () \<and> ug_files c p = Some title"
  then have stat: "statShownMessage env msg c = (Ok (Some title), c)" by (simp add: statShownMessage_def)
  then show "OutputMessage env msg c = (Ok (), c)" by (simp add: OutputMessage_def ug_bind_def ug_wrap_def ug_return_def)
  show "NotifyMessage env msg c = (Ok None, c)" if "gm_Actions msg = []"
    using stat that by (simp add: NotifyMessage_def ug_bind_def ug_wrap_def ug_return_def)
  show "requests (snd (NotifyMessage env msg c)) = requests c"
    using stat asks_nothing_perform [of env msg title] by (simp add: NotifyMessage_def ug_bind_def ug_wrap_def ug_return_def asks_nothing_def)
qed

text \<open>
  There is no lock between looking for the file and creating it: two sessions that are initialized at the same time can both find
  that the message was never shown, and then both show it.
\<close>

definition output_unshown :: "ug_env \<Rightarrow> guidance_message \<Rightarrow> unit ug_op" where
  "output_unshown env msg =
     ug_bind (ug_send ''log message: %w'' (ug_LogMessage env msg) (UgLog (sentinel env msg))) (\<lambda>_.
       ug_wrap (Errorf ''mark message as shown: %w'' []) (markMessageAsShown env msg None))"

lemma OutputMessage_split:
  "OutputMessage env msg = ug_bind (ug_wrap (Errorf ''stat shown message: %w'' []) (statShownMessage env msg)) (\<lambda>shown.
     case shown of Some _ \<Rightarrow> ug_return () | None \<Rightarrow> output_unshown env msg)"
  unfolding OutputMessage_def output_unshown_def by (rule refl)

lemma output_race:
  assumes "buildSentinelFilePath env msg = Ok p" and "ug_ReadFile env p = Ok ()" and "ug_files c p = None" and "ug_LogMessage env msg = Ok ()"
  shows "statShownMessage env msg c = (Ok None, c) \<and>
    shown_paths (snd (output_unshown env msg (snd (output_unshown env msg c)))) = shown_paths c @ [sentinel env msg, sentinel env msg]"
proof -
  have mark: "ug_calls (snd (markMessageAsShown env msg None c)) = ug_calls c" for c
    by (auto simp: markMessageAsShown_def ug_bind_def ug_lift_def Let_def split: outcome.split)
  then have "ug_calls (snd (output_unshown env msg c)) = ug_calls c @ [UgLog (sentinel env msg)]" for c
    using assms(4) by (simp add: output_unshown_def ug_bind_def ug_send_def)
  then show ?thesis using assms(1-3) by (simp add: statShownMessage_def shown_paths_def map_filter_def)
qed

text \<open>
  The file is created before the selection is written to it. When the write fails, the file stays empty, and from then on
  the message is never shown again: every later attempt fails without a call of the client, although nothing fails any more.
\<close>

theorem interrupted_save_sticks:
  assumes "buildSentinelFilePath env msg = Ok p" and "ug_ReadFile env p = Ok ()" and "ug_MkdirAll env (path_Dir p) = Ok ()"
    and "ug_Create env p = Ok ()" and "ug_WriteFile env p = Fail e" and "ug_files c p = None"
    and "ug_ShowMessageRequest env msg = Ok (Some selection)"
    and "find (\<lambda>a. ga_Title a = selection) (gm_Actions msg) = Some action" and "ga_Save action"
    and "\<forall>a \<in> set (gm_Actions msg). ga_Title a \<noteq> ''''"
    and "buildSentinelFilePath later msg = Ok p" and "ug_ReadFile later p = Ok ()"
  shows "\<exists>e1 e2 c'. NotifyMessage env msg c = (Fail e1, c') \<and> NotifyMessage later msg c' = (Fail e2, c')"
proof -
  have actions: "gm_Actions msg \<noteq> []" using assms(8) by auto
  have "find (\<lambda>a. ga_Title a = '''') (gm_Actions msg) = None" using assms(10) by (auto simp: find_None_iff)
  then show ?thesis
    using assms actions
    by (simp add: NotifyMessage_def ug_bind_def ug_wrap_def statShownMessage_def ug_send_def perform_action_def markMessageAsShown_def ug_lift_def Let_def)
qed

subsection \<open>Witnesses\<close>

definition calm_env :: ug_env where
  "calm_env = \<lparr>ug_UserCacheDir = Ok ''/c'', ug_ReadFile = (\<lambda>p. Ok ()), ug_MkdirAll = (\<lambda>p. Ok ()), ug_Create = (\<lambda>p. Ok ()),
     ug_WriteFile = (\<lambda>p. Ok ()), ug_LogMessage = (\<lambda>m. Ok ()), ug_ShowMessage = (\<lambda>m. Ok ()),
     ug_ShowMessageRequest = (\<lambda>m. Ok (Some ''Yes'')), ug_cancelled = (\<lambda>e. False), ug_ShowDocument = (\<lambda>a. Ok ())\<rparr>"

definition hello :: guidance_message where
  "hello = \<lparr>gm_Key = ''k'', gm_Kind = ''output'', gm_Message = ''hello'', gm_Type = ''info'', gm_Actions = []\<rparr>"

definition question :: guidance_message where
  "question = \<lparr>gm_Key = ''k'', gm_Kind = ''notification'', gm_Message = ''ok?'', gm_Type = ''info'',
     gm_Actions = [\<lparr>ga_Title = ''Yes'', ga_URI = '''', ga_External = False, ga_Save = True\<rparr>]\<rparr>"

theorem messages_shown_once_witness:
  "shown_paths (snd (ug_initialized calm_env [hello, hello] \<lparr>ug_files = Map.empty, ug_calls = []\<rparr>)) = [sentinel calm_env hello] \<and>
   distinct (shown_paths (snd (ug_initialized calm_env [hello, hello] \<lparr>ug_files = Map.empty, ug_calls = []\<rparr>)))"
  using messages_shown_once [OF ug_reachable.initialized [OF ug_reachable.start], of calm_env "[hello, hello]" Map.empty]
  by (simp add: calm_env_def ug_initialized_def display_message_def hello_def OutputMessage_def ug_bind_def ug_wrap_def statShownMessage_def
      buildSentinelFilePath_def ug_send_def markMessageAsShown_def ug_lift_def ug_return_def shown_paths_def map_filter_def sentinel_def)

theorem interrupted_save_sticks_witness:
  "\<exists>e1 e2 c'. NotifyMessage (calm_env\<lparr>ug_WriteFile := \<lambda>p. Fail EOF\<rparr>) question \<lparr>ug_files = Map.empty, ug_calls = []\<rparr> = (Fail e1, c') \<and>
     NotifyMessage calm_env question c' = (Fail e2, c')"
  by (rule interrupted_save_sticks [where p = "path_Join [''/c'', shownMessagesCacheDir, ''k'']" and selection = "''Yes''"
        and action = "\<lparr>ga_Title = ''Yes'', ga_URI = '''', ga_External = False, ga_Save = True\<rparr>"])
     (simp_all add: calm_env_def question_def buildSentinelFilePath_def)

end
