(* ===== verification/WorkspaceUtils.thy ===== *)
theory WorkspaceUtils
  imports GoStrings ScipModel
begin

text \<open>
  \<^verbatim>\<open>src/ulsp/internal/workspace-utils/utils.go\<close> and \<^verbatim>\<open>src/ulsp/internal/bazelproject\<close>: what the server learns about a
  workspace. The URL parser, the search for a root, the commands, the YAML decoder and the clock are arguments; a call that can only fail or succeed
  with a value is an option where the code does not look at the error.
\<close>

subsection \<open>Root, repository and environment\<close>

text \<open>
  \<open>root_of\<close> is the root of the folder of a URI, \<open>None\<close> when the URI cannot be parsed or has no root. The loop returns the first root and
  the folder that is in conflict with it, for which a warning is shown. The folders named in the last error message are left out.
\<close>

fun root_loop :: "('f \<Rightarrow> gostring option) \<Rightarrow> 'f list \<Rightarrow> gostring \<Rightarrow> gostring \<times> ('f \<times> gostring) option" where
  "root_loop root_of [] result = (result, None)"
| "root_loop root_of (folder # folders) result =
     (case root_of folder of
        None \<Rightarrow> root_loop root_of folders result
      | Some out \<Rightarrow>
          if result = '''' then root_loop root_of folders out
          else if result \<noteq> out then (result, Some (folder, out))
          else root_loop root_of folders result)"

definition GetWorkspaceRoot :: "('f \<Rightarrow> gostring option) \<Rightarrow> 'f list \<Rightarrow> gostring outcome \<times> ('f \<times> gostring) option" where
  "GetWorkspaceRoot root_of workspaceFolders =
     (if workspaceFolders = [] then (Fail (Errorf ''no workspace folders provided'' []), None)
      else let (result, conflict) = root_loop root_of workspaceFolders ''''
           in if result = '''' then (Fail (Errorf ''unable to determine a workspace root among the following searched folders: %v'' []), conflict)
              else (Ok (TrimSpace result), conflict))"

text \<open>\<open>remote\<close> is what the command for the URL of the remote repository writes.\<close>

definition GetRepoName :: "gostring outcome \<Rightarrow> gostring outcome" where
  "GetRepoName remote =
     obind (wrap_err (Errorf ''getting git remote url: %w'' []) remote) (\<lambda>stdout.
       let repoRemoteURL = TrimSpace stdout; repoURLSegments = strings_Split repoRemoteURL CHR '':''
       in if length repoURLSegments \<noteq> 2 then Fail (Errorf ''invalid git remote url: %s'' [FStr repoRemoteURL])
          else Ok (repoURLSegments ! 1))"

definition dirEnvDeniedSubstring :: gostring where
  "dirEnvDeniedSubstring = ''Run `direnv allow` to approve its content''"

definition GetEnv :: "gostring \<Rightarrow> gostring outcome \<Rightarrow> gostring \<Rightarrow> gostring list outcome" where
  "GetEnv dir run stderr =
     (case run of
        Ok stdout \<Rightarrow> Ok (strings_Split (TrimSpace stdout) (CHR 0x0A))
      | Panic \<Rightarrow> Panic
      | Fail e \<Rightarrow>
          if strings_Index stderr dirEnvDeniedSubstring \<noteq> None
          then Fail (Errorf ''please run `direnv allow` inside %s to approve the latest .envrc content, then reload this window'' [FStr dir])
          else Fail (Join (Errorf ''running direnv: %w'' []) e))"

subsection \<open>Project views (\<^verbatim>\<open>project.go\<close>)\<close>

record project_view =
  pv_Targets :: "gostring list"
  pv_Directories :: "gostring list"
  pv_Imports :: "gostring list"
  pv_DeriveTargets :: bool

definition importPrefix :: gostring where
  "importPrefix = ''import ''"

definition import_path :: "gostring \<Rightarrow> gostring" where
  "import_path line =
     (let importPath = TrimPrefix line importPrefix;
          importPath = (case strings_Index importPath ''#'' of None \<Rightarrow> importPath | Some commentStart \<Rightarrow> take commentStart importPath)
      in TrimSpace importPath)"

text \<open>The lines that are YAML, the imports, and the errors.\<close>

fun scan_lines :: "gostring list \<Rightarrow> gostring \<times> gostring list \<times> go_error list" where
  "scan_lines [] = ('''', [], [])"
| "scan_lines (line # lines) =
     (case scan_lines lines of
        (rawYAML, imports, errs) \<Rightarrow>
          if \<not> prefix importPrefix line then (line @ [CHR 0x0A] @ rawYAML, imports, errs)
          else if import_path line = '''' then (rawYAML, imports, Errorf ''invalid import %q'' [FStr line] # errs)
          else (rawYAML, import_path line # imports, errs))"

text \<open>The decoder gives the targets, the directories and the flag. Content and errors are returned together.\<close>

definition ParseProjectView ::
  "(gostring \<Rightarrow> go_error + gostring \<times> gostring \<times> bool) \<Rightarrow> gostring list \<Rightarrow> project_view \<times> go_error list" where
  "ParseProjectView decode lines =
     (case scan_lines lines of
        (rawYAML, imports, errs) \<Rightarrow>
          (case decode rawYAML of
             Inr (targets, directories, derive) \<Rightarrow>
               (\<lparr>pv_Targets = strings_Fields targets, pv_Directories = strings_Fields directories, pv_Imports = imports, pv_DeriveTargets = derive\<rparr>, errs)
           | Inl e \<Rightarrow> (\<lparr>pv_Targets = [], pv_Directories = [], pv_Imports = imports, pv_DeriveTargets = False\<rparr>, errs @ [e])))"

subsection \<open>Preset patterns (\<^verbatim>\<open>project_view.go\<close>)\<close>

record preset_provider =
  pp_workspaceRoot :: gostring
  pp_paths :: "gostring list"
  pp_selectedSource :: gostring
  pp_result :: "gostring list"
  pp_lastChecked :: "int option"

text \<open>\<open>exists\<close> is true only if the check succeeds; \<open>read\<close> opens and parses a file. The targets of the patterns are the caller's; they come with an error too.\<close>

definition reuseTimeout :: int where
  "reuseTimeout = 60"

definition setSource :: "(gostring \<Rightarrow> bool) \<Rightarrow> preset_provider \<Rightarrow> preset_provider" where
  "setSource exists p =
     (if pp_selectedSource p \<noteq> '''' \<and> exists (pp_selectedSource p) then p
      else p\<lparr>pp_selectedSource :=
        (case find exists (map (\<lambda>current. path_Join [pp_workspaceRoot p, current]) (pp_paths p)) of None \<Rightarrow> '''' | Some absPath \<Rightarrow> absPath)\<rparr>)"

definition getPatterns :: "(gostring \<Rightarrow> go_error + project_view \<times> go_error list) \<Rightarrow> gostring \<Rightarrow> go_error + gostring list" where
  "getPatterns read absPath =
     (case read absPath of
        Inl e \<Rightarrow> Inl e
      | Inr (project, errs) \<Rightarrow> if errs \<noteq> [] then Inl (ErrorLines errs) else Inr (pv_Targets project))"

definition GetPresetPatterns ::
  "(gostring \<Rightarrow> bool) \<Rightarrow> (gostring \<Rightarrow> go_error + project_view \<times> go_error list) \<Rightarrow> (gostring list \<Rightarrow> gostring list \<times> go_error option) \<Rightarrow>
   int \<Rightarrow> int \<Rightarrow> preset_provider \<Rightarrow> (gostring list \<times> go_error option) \<times> preset_provider" where
  "GetPresetPatterns exists read getTargets now finished p =
     (if (case pp_lastChecked p of None \<Rightarrow> False | Some t \<Rightarrow> now - t < reuseTimeout)
      then ((pp_result p, None), p\<lparr>pp_lastChecked := Some finished\<rparr>)
      else let p = setSource exists p
           in if pp_selectedSource p = '''' then (([], None), p\<lparr>pp_lastChecked := Some finished\<rparr>)
              else case getPatterns read (pp_selectedSource p) of
                  Inl e \<Rightarrow> (([], Some e), p\<lparr>pp_lastChecked := Some finished\<rparr>)
                | Inr patterns \<Rightarrow>
                    (let (result, err) = getTargets patterns
                     in ((result, err), p\<lparr>pp_result := result, pp_lastChecked := Some finished\<rparr>)))"

subsection \<open>Correctness\<close>

text \<open>The roots that were found, from the first one that is not empty.\<close>

definition found_roots :: "('f \<Rightarrow> gostring option) \<Rightarrow> 'f list \<Rightarrow> gostring list" where
  "found_roots root_of folders = dropWhile (\<lambda>r. r = '''') (List.map_filter root_of folders)"

lemma root_loop_started:
  "result \<noteq> '''' \<Longrightarrow> fst (root_loop root_of folders result) = result \<and>
    (snd (root_loop root_of folders result) = None \<longleftrightarrow> (\<forall>f \<in> set folders. root_of f \<in> {None, Some result}))"
  by (induction folders) (auto split: option.split)

lemma root_loop_start:
  "fst (root_loop root_of folders '''') = (case found_roots root_of folders of [] \<Rightarrow> '''' | r # _ \<Rightarrow> r)"
proof (induction folders)
  case (Cons f folders)
  show ?case
  proof (cases "root_of f")
    case None
    with Cons show ?thesis by (simp add: found_roots_def map_filter_simps)
  next
    case (Some out)
    with Cons root_loop_started [of out root_of folders] show ?thesis
      by (cases "out = ''''") (simp_all add: found_roots_def map_filter_simps)
  qed
qed (simp add: found_roots_def map_filter_simps)

text \<open>
  The workspace root is the first root found among the folders; an error means that no folder has one; when all
  folders that have a root have the same one there is no warning.
\<close>

lemma workspace_root_first:
  "(case found_roots root_of folders of
      [] \<Rightarrow> \<exists>e. fst (GetWorkspaceRoot root_of folders) = Fail e
    | r # _ \<Rightarrow> fst (GetWorkspaceRoot root_of folders) = Ok (TrimSpace r))"
proof -
  have "found_roots root_of [] = []" by (simp add: found_roots_def map_filter_simps)
  moreover have "hd (found_roots root_of folders) \<noteq> ''''" if "found_roots root_of folders \<noteq> []"
    using that unfolding found_roots_def by (metis (full_types) hd_dropWhile)
  ultimately show ?thesis
    using root_loop_start [of root_of folders]
    by (cases "found_roots root_of folders") (auto simp: GetWorkspaceRoot_def Let_def case_prod_beta)
qed

text \<open>The remote of a clone over SSH names the repository.\<close>

lemma repo_name_of_remote:
  assumes "CHR '':'' \<notin> set host" and "CHR '':'' \<notin> set repo" and "TrimSpace (host @ '':'' @ repo @ [CHR 0x0A]) = host @ '':'' @ repo"
  shows "GetRepoName (Ok (host @ '':'' @ repo @ [CHR 0x0A])) = Ok repo"
  using assms strings_Split_append [OF assms(1), of repo] strings_Split_plain [OF assms(2)] by (simp add: GetRepoName_def Let_def)

text \<open>Over HTTPS the scheme is taken for the host.\<close>

lemma https_remote_name: "GetRepoName (Ok ''https://github.com/uber/scip-lsp'') = Ok ''//github.com/uber/scip-lsp''"
  by (simp add: GetRepoName_def TrimSpace_def is_space_def)

text \<open>
  The imports of a project view are its import lines, without comments, and its YAML is the other lines; nothing is lost.
\<close>

lemma scan_lines_spec:
  "scan_lines lines =
     (concat (map (\<lambda>l. l @ [CHR 0x0A]) (filter (\<lambda>l. \<not> prefix importPrefix l) lines)),
      filter (\<lambda>i. i \<noteq> '''') (map import_path (filter (prefix importPrefix) lines)),
      map (\<lambda>l. Errorf ''invalid import %q'' [FStr l]) (filter (\<lambda>l. prefix importPrefix l \<and> import_path l = '''') lines))"
  by (induction lines) auto
subsection \<open>Reusing the last answer\<close>

text \<open>Requests with the state of the file system and the clock when each is handled.\<close>

record preset_request =
  rq_exists :: "gostring \<Rightarrow> bool"
  rq_read :: "gostring \<Rightarrow> go_error + project_view \<times> go_error list"
  rq_targets :: "gostring list \<Rightarrow> gostring list \<times> go_error option"
  rq_now :: int
  rq_finished :: int

definition preset_answer :: "preset_request \<Rightarrow> preset_provider \<Rightarrow> (gostring list \<times> go_error option) \<times> preset_provider" where
  "preset_answer rq = GetPresetPatterns (rq_exists rq) (rq_read rq) (rq_targets rq) (rq_now rq) (rq_finished rq)"

fun preset_answers :: "preset_request list \<Rightarrow> preset_provider \<Rightarrow> (gostring list \<times> go_error option) list" where
  "preset_answers [] p = []"
| "preset_answers (rq # rqs) p = (case preset_answer rq p of (a, p') \<Rightarrow> a # preset_answers rqs p')"

fun frequent :: "int \<Rightarrow> preset_request list \<Rightarrow> bool" where
  "frequent t [] \<longleftrightarrow> True"
| "frequent t (rq # rqs) \<longleftrightarrow> rq_now rq - t < reuseTimeout \<and> frequent (rq_finished rq) rqs"

lemma frequent_answers:
  "pp_lastChecked p = Some t \<Longrightarrow> frequent t rqs \<Longrightarrow> preset_answers rqs p = replicate (length rqs) (pp_result p, None)"
  by (induction rqs arbitrary: t p) (simp_all add: preset_answer_def GetPresetPatterns_def)

text \<open>
  The window of a minute starts again with every request: as long as requests come more often, the project files are not read
  again, however long that lasts and whatever changes; and after a request that failed to read them, the next one within the window
  answers the old patterns without an error.
\<close>

theorem frequent_requests_never_refresh:
  assumes "preset_answer rq p = (a, p')" and "frequent (rq_finished rq) rqs"
  shows "preset_answers rqs p' = replicate (length rqs) (pp_result p', None) \<and>
    ((\<exists>e. getPatterns (rq_read rq) (pp_selectedSource p') = Inl e) \<longrightarrow> pp_result p' = pp_result p)"
proof -
  have "pp_lastChecked p' = Some (rq_finished rq)"
    using assms(1) by (auto simp: preset_answer_def GetPresetPatterns_def Let_def split: if_splits sum.splits option.splits prod.splits)
  moreover have "pp_result (setSource exists p) = pp_result p" for exists by (simp add: setSource_def)
  then have "pp_result p' = pp_result p" if "getPatterns (rq_read rq) (pp_selectedSource p') = Inl e" for e
    using assms(1) that by (auto simp: preset_answer_def GetPresetPatterns_def Let_def split: if_splits sum.splits option.splits prod.splits)
  ultimately show ?thesis using frequent_answers assms(2) by blast
qed

text \<open>The chosen file is kept while it exists, and is otherwise the first of the paths that does.\<close>

lemma setSource_stable:
  "pp_selectedSource p \<noteq> '''' \<Longrightarrow> exists (pp_selectedSource p) \<Longrightarrow> pp_selectedSource (setSource exists p) = pp_selectedSource p"
  "pp_selectedSource (setSource exists p) = '''' \<or> exists (pp_selectedSource (setSource exists p))"
  by (auto simp: setSource_def split: option.split dest: find_Some_iff [THEN iffD1])

end
