(* ===== verification/Jdk.thy ===== *)
theory Jdk
  imports ScipController GoStrings
begin

text \<open>
  \<^verbatim>\<open>src/ulsp/controller/jdk/jdk.go\<close> and its request mappers \<^verbatim>\<open>src/ulsp/mapper/idl/jdk.go\<close>: what a Java debugger asks.
  Class names are translated to and from the descriptors of symbols, over the navigation plugin.
\<close>

subsection \<open>Requests\<close>

record breakpoint_location =
  bl_Line :: int32
  bl_Column :: int32
  bl_ClassName :: gostring
  bl_MethodName :: gostring
  bl_MethodSignature :: gostring

record resolve_breakpoints =
  rb_WorkspaceRoot :: gostring
  rb_SourceURI :: uri
  rb_Breakpoints :: "position list"

record resolve_class =
  rc_WorkspaceRoot :: gostring
  rc_FullyQualifiedName :: gostring
  rc_SourceRelativePath :: gostring

definition SourceBreakpointsToBreakpointPositions :: "(int32 \<times> int32) list \<Rightarrow> position list" where
  "SourceBreakpointsToBreakpointPositions breakpoints = map (\<lambda>(line, column). \<lparr>Line = line, Character = column\<rparr>) breakpoints"

definition ResolveBreakpointsRequestToResolveBreakpoints :: "uri \<Rightarrow> (int32 \<times> int32) list \<Rightarrow> gostring \<Rightarrow> resolve_breakpoints" where
  "ResolveBreakpointsRequestToResolveBreakpoints sourceUri breakpoints workspaceRoot =
     \<lparr>rb_WorkspaceRoot = workspaceRoot, rb_SourceURI = sourceUri, rb_Breakpoints = SourceBreakpointsToBreakpointPositions breakpoints\<rparr>"

definition ResolveClassToPathRequestToResolveClassToPath :: "gostring \<Rightarrow> gostring \<Rightarrow> gostring \<Rightarrow> resolve_class" where
  "ResolveClassToPathRequestToResolveClassToPath fullyQualifiedName sourceRelativePath workspaceRoot =
     \<lparr>rc_WorkspaceRoot = workspaceRoot, rc_FullyQualifiedName = fullyQualifiedName, rc_SourceRelativePath = sourceRelativePath\<rparr>"

definition BreakpointLocationsToBreakpointsResponse ::
  "breakpoint_location list \<Rightarrow> (int32 \<times> int32 \<times> gostring \<times> gostring \<times> gostring) list" where
  "BreakpointLocationsToBreakpointsResponse breakpoints =
     map (\<lambda>bp. (bl_Line bp, bl_Column bp, bl_ClassName bp, bl_MethodName bp, bl_MethodSignature bp)) breakpoints"

subsection \<open>Class names\<close>

definition getPackageAndClass :: "gostring \<Rightarrow> gostring \<times> gostring" where
  "getPackageAndClass fqn =
     (let parts = strings_Split fqn CHR ''.''
      in if length parts = 1 then ('''', parts ! 0) else (strings_Join (butlast parts) ''.'', last parts))"

definition getDescriptors :: "gostring \<Rightarrow> descriptor list outcome" where
  "getDescriptors fqn =
     (case getPackageAndClass fqn of
        (pkgID, class_name) \<Rightarrow>
          if pkgID = '''' \<or> class_name = '''' then Fail (Errorf ''invalid class name %q'' [FStr fqn])
          else Ok (map (\<lambda>segment. \<lparr>Name = segment, Suffix = Descriptor_Namespace, Disambiguator = ''''\<rparr>) (strings_Split pkgID CHR ''.'') @
               [\<lparr>Name = hd (strings_Split class_name CHR ''$''), Suffix = Descriptor_Type, Disambiguator = ''''\<rparr>]))"

fun class_parts :: "descriptor list \<Rightarrow> gostring list \<Rightarrow> gostring \<Rightarrow> gostring list \<times> gostring" where
  "class_parts [] namespace className = (namespace, className)"
| "class_parts (d # ds) namespace className =
     (if Suffix d = Descriptor_Namespace then class_parts ds (namespace @ [Name d]) className
      else if Suffix d = Descriptor_Type
      then class_parts ds namespace (if className = '''' then Name d else className @ ''$'' @ Name d)
      else class_parts ds namespace className)"

definition getFullClassName :: "(gostring \<Rightarrow> scip_symbol outcome) \<Rightarrow> gostring \<Rightarrow> gostring" where
  "getFullClassName parse symbol =
     (case parse symbol of
        Ok symb \<Rightarrow> (let (namespace, className) = class_parts (Descriptors symb) [] '''' in strings_Join namespace ''.'' @ ''.'' @ className)
      | _ \<Rightarrow> '''')"

subsection \<open>Queries\<close>

definition getClassDefinitions :: "symbol_occurrence list \<Rightarrow> symbol_information list" where
  "getClassDefinitions symbols =
     sort_key si_Symbol (List.map_filter (\<lambda>s. case Info s of None \<Rightarrow> None | Some info \<Rightarrow> if Kind info = ScipClass then Some info else None) symbols)"

definition findEnclosingClass :: "('p, 'c) scip_env \<Rightarrow> symbol_information list \<Rightarrow> position \<Rightarrow> gostring" where
  "findEnclosingClass env defs rbp = getFullClassName (ParseSymbol (lib_sym (env_lib env))) (si_Symbol (hd defs))"

definition class_breakpoint :: "gostring \<Rightarrow> position \<Rightarrow> breakpoint_location" where
  "class_breakpoint className rbp =
     \<lparr>bl_Line = Line rbp, bl_Column = Character rbp, bl_ClassName = className, bl_MethodName = '''', bl_MethodSignature = ''''\<rparr>"

definition ResolveBreakpoints :: "('p, 'c) scip_env \<Rightarrow> ctx \<Rightarrow> resolve_breakpoints \<Rightarrow> breakpoint_location list scip_op" where
  "ResolveBreakpoints env cx req =
     op_bind (scip_GetDocumentSymbols env cx (rb_WorkspaceRoot req) (rb_SourceURI req)) (\<lambda>symbols.
       let symbols = (case symbols of None \<Rightarrow> [] | Some s \<Rightarrow> s)
       in if symbols = [] then op_return []
          else let defs = getClassDefinitions symbols
               in if defs = [] then op_return []
                  else if length defs = 1
                  then op_return (map (class_breakpoint (getFullClassName (ParseSymbol (lib_sym (env_lib env))) (si_Symbol (defs ! 0)))) (rb_Breakpoints req))
                  else op_return (map (\<lambda>rbp. class_breakpoint (findEnclosingClass env defs rbp) rbp) (rb_Breakpoints req)))"

text \<open>The location is read through the pointer that the navigation plugin returns.\<close>

definition ResolveClassToPath :: "('p, 'c) scip_env \<Rightarrow> ctx \<Rightarrow> resolve_class \<Rightarrow> uri scip_op" where
  "ResolveClassToPath env cx req =
     op_bind (op_outcome (getDescriptors (rc_FullyQualifiedName req))) (\<lambda>descriptors.
     op_bind (scip_GetSymbolDefinitionOccurrence env cx (rc_WorkspaceRoot req) descriptors ''.'') (\<lambda>s.
       case s of None \<Rightarrow> op_outcome Panic | Some s \<Rightarrow> op_return (Location s)))"

text \<open>
  The service (\<^verbatim>\<open>handler/jdk/jdk.go\<close>): the workspace root is a header of the call. The response that Go returns beside an error is left out.
\<close>

definition handler_ResolveBreakpoints ::
  "('p, 'c) scip_env \<Rightarrow> ctx \<Rightarrow> gostring \<Rightarrow> uri \<Rightarrow> (int32 \<times> int32) list \<Rightarrow> (int32 \<times> int32 \<times> gostring \<times> gostring \<times> gostring) list scip_op" where
  "handler_ResolveBreakpoints env cx workspaceRoot sourceUri breakpoints =
     op_bind (ResolveBreakpoints env cx (ResolveBreakpointsRequestToResolveBreakpoints sourceUri breakpoints workspaceRoot)) (\<lambda>res.
       op_return (BreakpointLocationsToBreakpointsResponse res))"

definition handler_ResolveClassToPath :: "('p, 'c) scip_env \<Rightarrow> ctx \<Rightarrow> gostring \<Rightarrow> gostring \<Rightarrow> gostring \<Rightarrow> uri scip_op" where
  "handler_ResolveClassToPath env cx workspaceRoot fullyQualifiedName sourceRelativePath =
     ResolveClassToPath env cx (ResolveClassToPathRequestToResolveClassToPath fullyQualifiedName sourceRelativePath workspaceRoot)"

subsection \<open>Names there and back\<close>

definition segment_ok :: "gostring \<Rightarrow> bool" where
  "segment_ok s \<longleftrightarrow> s \<noteq> '''' \<and> CHR ''.'' \<notin> set s \<and> CHR ''$'' \<notin> set s"

lemma split_join_dots:
  "ps \<noteq> [] \<Longrightarrow> \<forall>p \<in> set ps. sep \<notin> set p \<Longrightarrow> strings_Split (strings_Join ps [sep]) sep = ps"
  by (induction ps "[sep]" rule: strings_Join.induct) (auto simp: strings_Split_plain strings_Split_append)

lemma strings_Join_snoc: "ps \<noteq> [] \<Longrightarrow> strings_Join (ps @ [x]) sep = strings_Join ps sep @ sep @ x"
  by (induction ps sep rule: strings_Join.induct) auto

lemma strings_Join_ne: "ps \<noteq> [] \<Longrightarrow> \<forall>p \<in> set ps. p \<noteq> '''' \<Longrightarrow> strings_Join ps sep \<noteq> ''''"
  by (induction ps sep rule: strings_Join.induct) auto

lemma class_parts_namespaces:
  "class_parts (map (\<lambda>p. \<lparr>Name = p, Suffix = Descriptor_Namespace, Disambiguator = d p\<rparr>) ps @ ds) ns cl = class_parts ds (ns @ ps) cl"
  by (induction ps arbitrary: ns) auto

definition class_descriptors :: "gostring list \<Rightarrow> gostring \<Rightarrow> descriptor list" where
  "class_descriptors ps cl = map (\<lambda>p. \<lparr>Name = p, Suffix = Descriptor_Namespace, Disambiguator = ''''\<rparr>) ps @
     [\<lparr>Name = cl, Suffix = Descriptor_Type, Disambiguator = ''''\<rparr>]"

lemma getDescriptors_name:
  assumes "ps \<noteq> []" and "\<forall>p \<in> set ps. segment_ok p" and "segment_ok cl" and "rest = [] \<or> hd rest = CHR ''$''" and "CHR ''.'' \<notin> set rest"
  shows "getDescriptors (strings_Join (ps @ [cl @ rest]) ''.'') = Ok (class_descriptors ps cl)"
proof -
  have split: "strings_Split (strings_Join (ps @ [cl @ rest]) ''.'') CHR ''.'' = ps @ [cl @ rest]"
    using assms by (intro split_join_dots) (auto simp: segment_ok_def)
  have pkg: "strings_Split (strings_Join ps ''.'') CHR ''.'' = ps"
    using assms(1,2) by (intro split_join_dots) (auto simp: segment_ok_def)
  have named: "strings_Join ps ''.'' \<noteq> ''''"
    using assms(1,2) by (intro strings_Join_ne) (auto simp: segment_ok_def)
  have "hd (strings_Split (cl @ rest) CHR ''$'') = cl"
    using assms(3,4) by (cases rest) (auto simp: segment_ok_def strings_Split_plain strings_Split_append)
  then show ?thesis
    using split pkg named assms(1,3) by (simp add: getDescriptors_def getPackageAndClass_def Let_def class_descriptors_def segment_ok_def)
qed

text \<open>
  Java class names. The name of a class in a package is translated to descriptors, and the descriptors of a symbol back to the same name;
  for an inner class the descriptors are those of its outermost class.
\<close>

theorem class_name_roundtrip:
  assumes "ps \<noteq> []" and "\<forall>p \<in> set ps. segment_ok p" and "segment_ok cl" and "segment_ok inner"
    and "parse s = Ok \<lparr>Scheme = sch, Package = pkg, Descriptors = class_descriptors ps cl\<rparr>"
  shows "getDescriptors (strings_Join (ps @ [cl]) ''.'') = Ok (class_descriptors ps cl) \<and>
    getFullClassName parse s = strings_Join (ps @ [cl]) ''.'' \<and>
    getDescriptors (strings_Join (ps @ [cl @ ''$'' @ inner]) ''.'') = Ok (class_descriptors ps cl)"
proof (intro conjI)
  show "getDescriptors (strings_Join (ps @ [cl]) ''.'') = Ok (class_descriptors ps cl)"
    using getDescriptors_name [OF assms(1-3), of "[]"] by simp
  show "getDescriptors (strings_Join (ps @ [cl @ ''$'' @ inner]) ''.'') = Ok (class_descriptors ps cl)"
    using getDescriptors_name [OF assms(1-3), of "''$'' @ inner"] assms(4) by (simp add: segment_ok_def)
  show "getFullClassName parse s = strings_Join (ps @ [cl]) ''.''"
    using assms(1,5) by (simp add: getFullClassName_def class_descriptors_def class_parts_namespaces strings_Join_snoc)
qed

text \<open>A class without a package is given a name that begins with a dot, and that name is refused when it is asked for.\<close>

lemma default_package_name:
  assumes "parse s = Ok \<lparr>Scheme = sch, Package = pkg, Descriptors = class_descriptors [] cl\<rparr>" and "segment_ok cl"
  shows "getFullClassName parse s = ''.'' @ cl \<and> (\<exists>e. getDescriptors (''.'' @ cl) = Fail e) \<and> (\<exists>e. getDescriptors cl = Fail e)"
  using assms
  by (simp add: getFullClassName_def class_descriptors_def getDescriptors_def getPackageAndClass_def strings_Split_plain segment_ok_def Let_def)

text \<open>Every breakpoint keeps its position; its class is the one with the least symbol, wherever the breakpoint is.\<close>

lemma breakpoints_kept:
  assumes "ResolveBreakpoints env cx req c = Some (Ok res, c')" and "res \<noteq> []"
  shows "map (\<lambda>b. (bl_Line b, bl_Column b)) res = map (\<lambda>p. (Line p, Character p)) (rb_Breakpoints req) \<and>
    (\<exists>name. \<forall>b \<in> set res. bl_ClassName b = name)"
  using assms
  by (auto simp: ResolveBreakpoints_def op_bind_def op_return_def Let_def findEnclosingClass_def class_breakpoint_def hd_conv_nth comp_def
      split: option.splits outcome.splits if_splits)

text \<open>The service answers with a location for every breakpoint of the request, in order and at its position, or with none at all.\<close>

lemma handler_breakpoints:
  assumes "handler_ResolveBreakpoints env cx root u breakpoints c = Some (Ok res, c')" and "res \<noteq> []"
  shows "map (\<lambda>(line, column, _). (line, column)) res = breakpoints"
proof -
  obtain locations where loc: "ResolveBreakpoints env cx (ResolveBreakpointsRequestToResolveBreakpoints u breakpoints root) c = Some (Ok locations, c')"
      "res = BreakpointLocationsToBreakpointsResponse locations"
    using assms(1) by (auto simp: handler_ResolveBreakpoints_def op_bind_def op_return_def split: option.splits outcome.splits)
  with assms(2) have "locations \<noteq> []" by (auto simp: BreakpointLocationsToBreakpointsResponse_def)
  from breakpoints_kept [OF loc(1) this] loc(2) show ?thesis
    by (simp add: BreakpointLocationsToBreakpointsResponse_def ResolveBreakpointsRequestToResolveBreakpoints_def
        SourceBreakpointsToBreakpointPositions_def comp_def case_prod_beta)
qed

text \<open>
  C35. The file of a class. For a class known to the index of the workspace the answer is the URI of the document that defines it. For
  a class that the index does not know the navigation plugin returns neither an occurrence nor an error, and the location is read without
  a check: the request panics, and so does every request for a workspace without an index.
\<close>

theorem class_to_path:
  assumes "ps \<noteq> []" and "\<forall>p \<in> set ps. segment_ok p" and "segment_ok cl" and "root \<noteq> ''''"
    and "rc_WorkspaceRoot req = root" and "rc_FullyQualifiedName req = strings_Join (ps @ [cl]) ''.''"
  shows "(map_of (registries c) root = None \<longrightarrow> ResolveClassToPath env cx req c = Some (Panic, c)) \<and>
    (\<forall>reg idx. map_of (registries c) root = Some (reg, idx) \<longrightarrow>
       (\<forall>path. api_FromDescriptors (env_api env) (class_descriptors ps cl) ''.'' idx = Ok (None, path) \<longrightarrow>
          (\<exists>c'. ResolveClassToPath env cx req c = Some (Panic, c'))) \<and>
       (\<forall>info path document idx'.
          api_FromDescriptors (env_api env) (class_descriptors ps cl) ''.'' idx = Ok (Some info, path) \<and>
          api_LoadDocument (env_api env) path idx = Some (Ok (Some document), idx') \<longrightarrow>
          (\<exists>c'. ResolveClassToPath env cx req c = Some (Ok (uri_File (env_lib env) (path_Join [WorkspaceRoot reg, path])), c'))))"
proof -
  have ds: "getDescriptors (rc_FullyQualifiedName req) = Ok (class_descriptors ps cl)"
    using getDescriptors_name [OF assms(1-3), of "[]"] assms(6) by simp
  have root: "root_or_session env cx (rc_WorkspaceRoot req) = Ok root" using assms(4,5) by (simp add: root_or_session_def)
  note unfold = ResolveClassToPath_def scip_GetSymbolDefinitionOccurrence_def registry_call_def GetSymbolDefinitionOccurrence_ulsp_def
    ds root op_bind_def op_outcome_def op_return_def op_read_def Let_def
  show ?thesis by (intro conjI allI impI) (auto simp: unfold)
qed

subsection \<open>Witnesses\<close>

theorem class_name_roundtrip_witness:
  "getDescriptors ''a.b.C'' = Ok (class_descriptors [''a'', ''b''] ''C'') \<and>
   getFullClassName (\<lambda>s. Ok \<lparr>Scheme = '''', Package = None, Descriptors = class_descriptors [''a'', ''b''] ''C''\<rparr>) ''s'' = ''a.b.C'' \<and>
   getDescriptors ''a.b.C$D'' = Ok (class_descriptors [''a'', ''b''] ''C'')"
  using class_name_roundtrip [of "[''a'', ''b'']" "''C''" "''D''"
      "\<lambda>s. Ok \<lparr>Scheme = '''', Package = None, Descriptors = class_descriptors [''a'', ''b''] ''C''\<rparr>" "''s''" "''''" None]
  by (simp add: segment_ok_def)

definition unindexed :: scip_ctrl where
  "unindexed = NewScip start_sync NewDiagnostics"

definition class_request :: resolve_class where
  "class_request = \<lparr>rc_WorkspaceRoot = ''/w'', rc_FullyQualifiedName = ''a.B'', rc_SourceRelativePath = ''''\<rparr>"

theorem class_to_path_witness:
  "\<forall>env :: (unit, unit) scip_env. ResolveClassToPath env None class_request unindexed = Some (Panic, unindexed)"
proof
  fix env :: "(unit, unit) scip_env"
  show "ResolveClassToPath env None class_request unindexed = Some (Panic, unindexed)"
    using class_to_path [of "[''a'']" "''B''" "''/w''" class_request unindexed env None]
    by (simp add: segment_ok_def class_request_def unindexed_def NewScip_def)
qed

end
