(* ===== verification/ScalaAssist.thy ===== *)
theory ScalaAssist
  imports DocSyncSpec GoStrings "HOL-Library.Multiset"
begin

text \<open>
  \<^verbatim>\<open>src/ulsp/controller/scala-assist/scala_assist.go\<close>: for every workspace the configuration of the build server is copied, with
  another version in it, whenever it changes. The files are part of the state; the JSON library and whether an operation of the file system fails are in the
  environment. A JSON object is an association list; \<^verbatim>\<open>null\<close> decodes to a nil map, which is \<open>None\<close>. The goroutine that watches takes
  the events one at a time, and updates a copy without the lock that a session holds for its first update, so reading the source and writing the copy are separate steps.
\<close>

subsection \<open>The plugin\<close>

record 'v bsp_env =
  be_NewWatcher :: "unit outcome"
  be_MkdirAll :: "gostring \<Rightarrow> unit outcome"
  be_Add :: "gostring \<Rightarrow> unit outcome"
  be_ReadFile :: "gostring \<Rightarrow> unit outcome"
  be_Unmarshal :: "gostring \<Rightarrow> (gostring \<times> 'v) list option outcome"
  be_MarshalIndent :: "(gostring \<times> 'v) list \<Rightarrow> gostring outcome"
  be_WriteFile :: "gostring \<Rightarrow> unit outcome"
  be_string :: "gostring \<Rightarrow> 'v"

record scala_assist =
  sa_watcher :: bool
  sa_watchedWorkspaces :: "gostring list"
  sa_files :: "gostring \<rightharpoonup> gostring"

definition NewScalaAssist :: "(gostring \<rightharpoonup> gostring) \<Rightarrow> scala_assist" where
  "NewScalaAssist files = \<lparr>sa_watcher = False, sa_watchedWorkspaces = [], sa_files = files\<rparr>"

definition versionOverride :: gostring where
  "versionOverride = ''3.2.0-20240629-e3d8bdf-NIGHTLY''"

definition bsp_sourcePath :: "gostring \<Rightarrow> gostring" where
  "bsp_sourcePath workspaceRoot = path_Join [workspaceRoot, ''.bsp'', ''bazelbsp.json'']"

definition bsp_destPath :: "gostring \<Rightarrow> gostring" where
  "bsp_destPath workspaceRoot = path_Join [workspaceRoot, ''.bsp'', ''bazelbsp_scala.json'']"

text \<open>The new content for a source; a nil map cannot be assigned to.\<close>

definition overridden :: "'v bsp_env \<Rightarrow> gostring \<Rightarrow> gostring outcome" where
  "overridden env sourceData =
     obind (be_Unmarshal env sourceData) (\<lambda>bspConfig.
       case bspConfig of
         None \<Rightarrow> Panic
       | Some obj \<Rightarrow> be_MarshalIndent env (AList.update ''version'' (be_string env versionOverride) obj))"

text \<open>The source is read and converted; without a source there is nothing to write.\<close>

definition bsp_read :: "'v bsp_env \<Rightarrow> gostring \<Rightarrow> scala_assist \<Rightarrow> gostring option outcome" where
  "bsp_read env workspaceRoot c =
     (case sa_files c (bsp_sourcePath workspaceRoot) of
        None \<Rightarrow> Ok None
      | Some sourceData \<Rightarrow>
          obind (be_ReadFile env (bsp_sourcePath workspaceRoot)) (\<lambda>_.
            obind (overridden env sourceData) (\<lambda>modifiedData. Ok (Some modifiedData))))"

definition bsp_write :: "'v bsp_env \<Rightarrow> gostring \<Rightarrow> gostring \<Rightarrow> scala_assist \<Rightarrow> unit outcome \<times> scala_assist" where
  "bsp_write env workspaceRoot modifiedData c =
     (case be_WriteFile env (bsp_destPath workspaceRoot) of
        Ok _ \<Rightarrow> (Ok (), c\<lparr>sa_files := (sa_files c)(bsp_destPath workspaceRoot \<mapsto> modifiedData)\<rparr>)
      | r \<Rightarrow> (r, c))"

definition updateBSPJson :: "'v bsp_env \<Rightarrow> gostring \<Rightarrow> scala_assist \<Rightarrow> unit outcome \<times> scala_assist" where
  "updateBSPJson env workspaceRoot c =
     (case bsp_read env workspaceRoot c of
        Ok None \<Rightarrow> (Ok (), c)
      | Ok (Some modifiedData) \<Rightarrow> bsp_write env workspaceRoot modifiedData c
      | Fail e \<Rightarrow> (Fail e, c)
      | Panic \<Rightarrow> (Panic, c))"

definition ensureWatcher :: "'v bsp_env \<Rightarrow> scala_assist \<Rightarrow> unit outcome \<times> scala_assist" where
  "ensureWatcher env c =
     (if sa_watcher c then (Ok (), c)
      else case wrap_err (Errorf ''create file system watcher: %w'' []) (be_NewWatcher env) of
          Ok _ \<Rightarrow> (Ok (), c\<lparr>sa_watcher := True\<rparr>)
        | r \<Rightarrow> (r, c))"

text \<open>The directory is watched; the result says whether it was not before.\<close>

definition bsp_watch :: "'v bsp_env \<Rightarrow> gostring \<Rightarrow> scala_assist \<Rightarrow> bool outcome \<times> scala_assist" where
  "bsp_watch env workspaceRoot c =
     (if \<not> sa_watcher c then (Fail (Errorf ''watcher not initialized'' []), c)
      else if workspaceRoot \<in> set (sa_watchedWorkspaces c) then (Ok False, c)
      else let bspDir = path_Join [workspaceRoot, ''.bsp'']
           in case obind (wrap_err (Errorf ''create BSP directory %s: %w'' [FStr bspDir]) (be_MkdirAll env bspDir)) (\<lambda>_.
                     wrap_err (Errorf ''watch BSP directory %s: %w'' [FStr bspDir]) (be_Add env bspDir)) of
                Fail e \<Rightarrow> (Fail e, c)
              | Panic \<Rightarrow> (Panic, c)
              | Ok _ \<Rightarrow> (Ok True, c\<lparr>sa_watchedWorkspaces := workspaceRoot # sa_watchedWorkspaces c\<rparr>))"

definition beginWatchingBspDir :: "'v bsp_env \<Rightarrow> gostring \<Rightarrow> scala_assist \<Rightarrow> unit outcome \<times> scala_assist" where
  "beginWatchingBspDir env workspaceRoot c =
     (case bsp_watch env workspaceRoot c of
        (Fail e, c) \<Rightarrow> (Fail e, c)
      | (Panic, c) \<Rightarrow> (Panic, c)
      | (Ok new, c) \<Rightarrow>
          if \<not> new then (Ok (), c)
          else case updateBSPJson env workspaceRoot c of
              (Panic, c') \<Rightarrow> (Panic, c')
            | (_, c') \<Rightarrow> (Ok (), c'))"

definition scala_initialized :: "'v bsp_env \<Rightarrow> ('p, 'c) repository \<Rightarrow> ctx \<Rightarrow> scala_assist \<Rightarrow> unit outcome \<times> scala_assist" where
  "scala_initialized env sessions cx c =
     (case ensureWatcher env c of
        (Ok _, c1) \<Rightarrow>
          (case GetFromContext sessions cx of
             Ok s \<Rightarrow> beginWatchingBspDir env (ses_WorkspaceRoot s) c1
           | Fail e \<Rightarrow> (Fail e, c1)
           | Panic \<Rightarrow> (Panic, c1))
      | (r, c1) \<Rightarrow> (r, c1))"

text \<open>The workspace an event is for, if any. \<open>order\<close> is the order in which Go ranges over the watched workspaces.\<close>

definition event_workspace :: "gostring list \<Rightarrow> bool \<Rightarrow> gostring \<Rightarrow> gostring option" where
  "event_workspace order write name =
     (if \<not> write then None
      else let workspaceRoot = (case find (\<lambda>root. prefix root name) order of None \<Rightarrow> '''' | Some root \<Rightarrow> root)
           in if name \<noteq> bsp_sourcePath workspaceRoot then None
              else if workspaceRoot \<noteq> '''' then Some workspaceRoot else None)"

definition consumeWatcherEvent :: "'v bsp_env \<Rightarrow> gostring list \<Rightarrow> bool \<Rightarrow> gostring \<Rightarrow> scala_assist \<Rightarrow> unit outcome \<times> scala_assist" where
  "consumeWatcherEvent env order write name c =
     (case event_workspace order write name of
        None \<Rightarrow> (Ok (), c)
      | Some workspaceRoot \<Rightarrow>
          (case updateBSPJson env workspaceRoot c of
             (Panic, c') \<Rightarrow> (Panic, c')
           | (_, c') \<Rightarrow> (Ok (), c')))"

subsection \<open>The copy follows its source\<close>

text \<open>
  Updates in flight: one that is about to read, and one that has read and is about to write. The reachable states, with the reports of the watcher that wait, the updates in
  flight, the sources that were changed without a report of a write since they were last read, and the workspaces whose last read was made while another update of
  the workspace was between its read and its write. Other programs do not touch the copies.
\<close>

datatype bsp_update = ToRead (update_root: gostring) | ToWrite (update_root: gostring) gostring

inductive scala_reachable ::
  "'v bsp_env \<Rightarrow> ('p, 'c) repository \<Rightarrow> scala_assist \<Rightarrow> gostring list \<Rightarrow> bsp_update multiset \<Rightarrow> gostring set \<Rightarrow> gostring set \<Rightarrow> bool"
  for env sessions where
  start: "scala_reachable env sessions (NewScalaAssist files) [] {#} {} {}"
| watcher: "scala_reachable env sessions c events updates missed raced \<Longrightarrow>
    scala_reachable env sessions (snd (ensureWatcher env c)) events updates missed raced"
| session: "scala_reachable env sessions c events updates missed raced \<Longrightarrow> GetFromContext sessions cx = Ok s \<Longrightarrow>
    bsp_watch env (ses_WorkspaceRoot s) c = (r, c') \<Longrightarrow>
    scala_reachable env sessions c' events (if r = Ok True then add_mset (ToRead (ses_WorkspaceRoot s)) updates else updates) missed raced"
| changed: "scala_reachable env sessions c events updates missed raced \<Longrightarrow>
    scala_reachable env sessions (c\<lparr>sa_files := (sa_files c)(bsp_sourcePath root := data)\<rparr>)
      (if written then events @ [bsp_sourcePath root] else events) updates
      (if written then missed else insert (bsp_sourcePath root) missed) raced"
| report: "scala_reachable env sessions c (name # events) updates missed raced \<Longrightarrow> set order = set (sa_watchedWorkspaces c) \<Longrightarrow>
    scala_reachable env sessions c events
      (case event_workspace order True name of None \<Rightarrow> updates | Some root \<Rightarrow> add_mset (ToRead root) updates) missed raced"
| reads: "scala_reachable env sessions c events (add_mset (ToRead root) updates) missed raced \<Longrightarrow> bsp_read env root c = r \<Longrightarrow> r \<noteq> Panic \<Longrightarrow>
    scala_reachable env sessions c events (case r of Ok (Some data) \<Rightarrow> add_mset (ToWrite root data) updates | _ \<Rightarrow> updates)
      (missed - {bsp_sourcePath root}) (if \<exists>data. ToWrite root data \<in># updates then insert root raced else raced - {root})"
| writes: "scala_reachable env sessions c events (add_mset (ToWrite root data) updates) missed raced \<Longrightarrow> bsp_write env root data c = (r, c') \<Longrightarrow>
    scala_reachable env sessions c' events updates missed raced"

text \<open>A copy of a decoded source: the version is the override, everything else is as in the source.\<close>

definition copy_of :: "'v bsp_env \<Rightarrow> (gostring \<times> 'v) list \<Rightarrow> gostring \<Rightarrow> bool" where
  "copy_of env obj content \<longleftrightarrow> (\<exists>copy. be_Unmarshal env content = Ok (Some copy) \<and>
     map_of copy ''version'' = Some (be_string env ''3.2.0-20240629-e3d8bdf-NIGHTLY'') \<and>
     (\<forall>key. key \<noteq> ''version'' \<longrightarrow> map_of copy key = map_of obj key))"

definition up_to_date :: "'v bsp_env \<Rightarrow> scala_assist \<Rightarrow> gostring \<Rightarrow> bool" where
  "up_to_date env c root \<longleftrightarrow>
     (\<forall>data obj. sa_files c (bsp_sourcePath root) = Some data \<and> be_Unmarshal env data = Ok (Some obj) \<longrightarrow>
        (\<exists>content. sa_files c (bsp_destPath root) = Some content \<and> copy_of env obj content))"

text \<open>The file system works; JSON objects can be printed, and reading what was printed gives the same object; the paths of the roots do not meet.\<close>

definition calm_bsp :: "'v bsp_env \<Rightarrow> bool" where
  "calm_bsp env \<longleftrightarrow> (\<forall>p. be_ReadFile env p = Ok ()) \<and> (\<forall>p. be_WriteFile env p = Ok ())"

definition json_ok :: "'v bsp_env \<Rightarrow> bool" where
  "json_ok env \<longleftrightarrow> (\<forall>obj. \<exists>content copy. be_MarshalIndent env obj = Ok content \<and> be_Unmarshal env content = Ok (Some copy) \<and> map_of copy = map_of obj)"

definition roots_ok :: "gostring set \<Rightarrow> bool" where
  "roots_ok R \<longleftrightarrow> (\<forall>r \<in> R. r \<noteq> '''') \<and> (\<forall>r \<in> R. \<forall>q. bsp_sourcePath q \<noteq> bsp_destPath r) \<and>
     (\<forall>r \<in> R. prefix r (bsp_sourcePath r)) \<and>
     (\<forall>r \<in> R. \<forall>q \<in> R. r \<noteq> q \<longrightarrow> \<not> prefix r (bsp_sourcePath q) \<and> bsp_destPath r \<noteq> bsp_destPath q \<and> bsp_sourcePath r \<noteq> bsp_sourcePath q)"

lemma roots_okD:
  assumes "roots_ok R" and "r \<in> R"
  shows "r \<noteq> ''''" "bsp_sourcePath q \<noteq> bsp_destPath r" "prefix r (bsp_sourcePath r)"
    "q \<in> R \<Longrightarrow> r \<noteq> q \<Longrightarrow> \<not> prefix r (bsp_sourcePath q)" "q \<in> R \<Longrightarrow> r \<noteq> q \<Longrightarrow> bsp_destPath r \<noteq> bsp_destPath q"
    "q \<in> R \<Longrightarrow> r \<noteq> q \<Longrightarrow> bsp_sourcePath r \<noteq> bsp_sourcePath q"
  using assms unfolding roots_ok_def by blast+

lemma overridden_copy:
  assumes "json_ok env" and "be_Unmarshal env data = Ok (Some obj)"
  shows "\<exists>content. overridden env data = Ok content \<and> copy_of env obj content"
proof -
  from assms(1) obtain content copy where
    "be_MarshalIndent env (AList.update ''version'' (be_string env versionOverride) obj) = Ok content" "be_Unmarshal env content = Ok (Some copy)"
    "map_of copy = map_of (AList.update ''version'' (be_string env versionOverride) obj)" unfolding json_ok_def by blast
  with assms(2) show ?thesis by (auto simp: overridden_def copy_of_def update_conv' versionOverride_def)
qed

text \<open>The content an update has read is the copy of what the source holds now.\<close>

definition fresh_text :: "'v bsp_env \<Rightarrow> scala_assist \<Rightarrow> gostring \<Rightarrow> gostring \<Rightarrow> bool" where
  "fresh_text env c root content \<longleftrightarrow>
     (\<forall>data obj. sa_files c (bsp_sourcePath root) = Some data \<and> be_Unmarshal env data = Ok (Some obj) \<longrightarrow> copy_of env obj content)"

lemma bsp_read_fresh:
  assumes "calm_bsp env" and "json_ok env"
  shows "case bsp_read env root c of Ok (Some content) \<Rightarrow> fresh_text env c root content | _ \<Rightarrow> up_to_date env c root"
proof (cases "sa_files c (bsp_sourcePath root)")
  case None
  then show ?thesis by (simp add: bsp_read_def up_to_date_def)
next
  case (Some data)
  then have read: "bsp_read env root c = obind (overridden env data) (\<lambda>content. Ok (Some content))" using assms(1) by (simp add: bsp_read_def calm_bsp_def)
  show ?thesis
  proof (cases "\<exists>obj. be_Unmarshal env data = Ok (Some obj)")
    case True
    then obtain obj content where "be_Unmarshal env data = Ok (Some obj)" "overridden env data = Ok content" "copy_of env obj content"
      using overridden_copy [OF assms(2)] by blast
    with Some read show ?thesis by (simp add: fresh_text_def)
  next
    case False
    then have "fresh_text env c root content" "up_to_date env c root" for content using Some by (auto simp: fresh_text_def up_to_date_def)
    then show ?thesis by (simp split: outcome.split option.split)
  qed
qed

text \<open>
  The invariant of a watched workspace: at most one update is between its read and its write, unless its last read was raced; and if no change was missed, a report waits, an update
  is about to read, the copy is up to date, or it is about to be.
\<close>

definition writes_of :: "gostring \<Rightarrow> bsp_update multiset \<Rightarrow> bsp_update multiset" where
  "writes_of root updates = {#u \<in># updates. \<exists>data. u = ToWrite root data#}"

definition bsp_inv :: "'v bsp_env \<Rightarrow> gostring \<Rightarrow> scala_assist \<Rightarrow> gostring list \<Rightarrow> bsp_update multiset \<Rightarrow> bool \<Rightarrow> bool" where
  "bsp_inv env root c events updates missed \<longleftrightarrow> size (writes_of root updates) \<le> 1 \<and>
     (missed \<or> bsp_sourcePath root \<in> set events \<or> ToRead root \<in># updates \<or> writes_of root updates = {#} \<and> up_to_date env c root \<or>
      (\<exists>content. writes_of root updates = {#ToWrite root content#} \<and> fresh_text env c root content))"

definition scala_inv :: "'v bsp_env \<Rightarrow> gostring set \<Rightarrow> scala_assist \<Rightarrow> gostring list \<Rightarrow> bsp_update multiset \<Rightarrow> gostring set \<Rightarrow> gostring set \<Rightarrow> bool" where
  "scala_inv env R c events updates missed raced \<longleftrightarrow> set (sa_watchedWorkspaces c) \<subseteq> R \<and>
     (\<forall>u \<in># updates. update_root u \<in> set (sa_watchedWorkspaces c)) \<and>
     (\<forall>root \<in> set (sa_watchedWorkspaces c). root \<notin> raced \<longrightarrow> bsp_inv env root c events updates (bsp_sourcePath root \<in> missed))"

lemma writes_of_simps [simp]:
  "writes_of root {#} = {#}" "writes_of root (add_mset (ToRead q) updates) = writes_of root updates"
  "writes_of root (add_mset (ToWrite q data) updates) = (if q = root then add_mset (ToWrite q data) (writes_of root updates) else writes_of root updates)"
  by (simp_all add: writes_of_def)

lemma writes_of_empty: "writes_of root updates = {#} \<longleftrightarrow> (\<forall>data. ToWrite root data \<notin># updates)"
  by (induction updates) (auto simp: writes_of_def)

lemma file_state_cong:
  assumes "sa_files c' (bsp_sourcePath root) = sa_files c (bsp_sourcePath root)"
  shows "fresh_text env c' root content = fresh_text env c root content"
    and "sa_files c' (bsp_destPath root) = sa_files c (bsp_destPath root) \<Longrightarrow> up_to_date env c' root = up_to_date env c root"
  using assms by (simp_all add: fresh_text_def up_to_date_def)

lemma bsp_inv_mono:
  assumes "bsp_inv env root c events updates missed" and "sa_files c' = sa_files c" and "writes_of root updates' = writes_of root updates"
    and "missed \<Longrightarrow> missed'" and "bsp_sourcePath root \<in> set events \<Longrightarrow> bsp_sourcePath root \<in> set events' \<or> ToRead root \<in># updates'"
    and "ToRead root \<in># updates \<Longrightarrow> ToRead root \<in># updates'"
  shows "bsp_inv env root c' events' updates' missed'"
proof -
  have "up_to_date env c' root = up_to_date env c root" "fresh_text env c' root content = fresh_text env c root content" for content
    using assms(2) by (simp_all add: up_to_date_def fresh_text_def)
  with assms(1,3-6) show ?thesis unfolding bsp_inv_def by auto
qed

lemma find_only:
  assumes "x \<in> set xs" and "P x" and "\<And>y. y \<in> set xs \<Longrightarrow> P y \<Longrightarrow> y = x"
  shows "find P xs = Some x"
proof (cases "find P xs")
  case None
  with assms(1,2) show ?thesis by (simp add: find_None_iff)
next
  case (Some y)
  then have "y \<in> set xs" "P y" by (auto simp: find_Some_iff)
  with assms(3) Some show ?thesis by simp
qed

lemma event_workspace_source:
  assumes "roots_ok R" and "set order \<subseteq> R" and "root \<in> set order"
  shows "event_workspace order True (bsp_sourcePath root) = Some root"
proof -
  have "find (\<lambda>r. prefix r (bsp_sourcePath root)) order = Some root"
    by (rule find_only [OF assms(3)]) (use assms roots_okD(3,4) [OF assms(1)] in blast)+
  with roots_okD(1) [OF assms(1)] assms(2,3) show ?thesis by (auto simp: event_workspace_def)
qed

lemma event_workspace_watched: "event_workspace order write name = Some root \<Longrightarrow> root \<in> set order"
  by (auto simp: event_workspace_def Let_def find_Some_iff split: if_splits option.splits)

lemma bsp_watch_cases:
  assumes "bsp_watch env root c = (r, c')"
  obtains "r = Ok True" "root \<notin> set (sa_watchedWorkspaces c)" "c' = c\<lparr>sa_watchedWorkspaces := root # sa_watchedWorkspaces c\<rparr>" | "r \<noteq> Ok True" "c' = c"
proof (cases "r = Ok True")
  case True
  with assms have "root \<notin> set (sa_watchedWorkspaces c)" "c' = c\<lparr>sa_watchedWorkspaces := root # sa_watchedWorkspaces c\<rparr>"
    by (simp_all add: bsp_watch_def Let_def split: if_splits outcome.splits)
  with True show thesis by (rule that(1))
next
  case False
  with assms have "c' = c" by (simp add: bsp_watch_def Let_def split: if_splits outcome.splits)
  with False show thesis by (rule that(2))
qed

lemma bsp_write_calm:
  "calm_bsp env \<Longrightarrow> bsp_write env root content c = (r, c') \<Longrightarrow> c' = c\<lparr>sa_files := (sa_files c)(bsp_destPath root \<mapsto> content)\<rparr>"
  by (auto simp: bsp_write_def calm_bsp_def)

lemma scala_inv_step:
  assumes "scala_inv env R c events updates missed raced" and "sa_watchedWorkspaces c' = sa_watchedWorkspaces c"
    and "\<And>u. u \<in># updates' \<Longrightarrow> u \<in># updates \<or> update_root u \<in> set (sa_watchedWorkspaces c)"
    and "\<And>root. root \<in> set (sa_watchedWorkspaces c) \<Longrightarrow> root \<in> R \<Longrightarrow> root \<notin> raced' \<Longrightarrow>
      (root \<notin> raced \<Longrightarrow> bsp_inv env root c events updates (bsp_sourcePath root \<in> missed)) \<Longrightarrow>
      bsp_inv env root c' events' updates' (bsp_sourcePath root \<in> missed')"
  shows "scala_inv env R c' events' updates' missed' raced'"
  using assms(1,3,4) unfolding scala_inv_def assms(2) by blast

lemma scala_inv_reads:
  assumes "calm_bsp env" and "json_ok env" and "roots_ok R" and "scala_inv env R c events (add_mset (ToRead root) updates) missed raced"
    and "bsp_read env root c = r"
  shows "scala_inv env R c events (case r of Ok (Some content) \<Rightarrow> add_mset (ToWrite root content) updates | _ \<Rightarrow> updates)
    (missed - {bsp_sourcePath root}) (if \<exists>content. ToWrite root content \<in># updates then insert root raced else raced - {root})"
proof (rule scala_inv_step [OF assms(4) refl])
  have root: "root \<in> set (sa_watchedWorkspaces c)" "root \<in> R" using assms(4) by (auto simp: scala_inv_def)
  let ?updates = "case r of Ok (Some content) \<Rightarrow> add_mset (ToWrite root content) updates | _ \<Rightarrow> updates"
  show "u \<in># add_mset (ToRead root) updates \<or> update_root u \<in> set (sa_watchedWorkspaces c)" if "u \<in># ?updates" for u
    using that root by (auto split: outcome.splits option.splits)
  fix q
  assume q: "q \<in> R" "q \<notin> (if \<exists>content. ToWrite root content \<in># updates then insert root raced else raced - {root})"
    and old: "q \<notin> raced \<Longrightarrow> bsp_inv env q c events (add_mset (ToRead root) updates) (bsp_sourcePath q \<in> missed)"
  show "bsp_inv env q c events ?updates (bsp_sourcePath q \<in> missed - {bsp_sourcePath root})"
  proof (cases "q = root")
    case True
    with q have "writes_of root updates = {#}" by (auto simp: writes_of_empty split: if_splits)
    with bsp_read_fresh [OF assms(1,2), where root = root and c = c] assms(5) True show ?thesis
      by (auto simp: bsp_inv_def split: outcome.splits option.splits)
  next
    case False
    have "bsp_sourcePath q \<noteq> bsp_sourcePath root" using roots_okD(6) [OF assms(3) q(1) root(2)] False by blast
    moreover have "q \<notin> raced" using q False by (auto split: if_splits)
    ultimately show ?thesis
      by (intro bsp_inv_mono [OF old]) (use False in \<open>auto split: outcome.splits option.splits\<close>)
  qed
qed

lemma scala_inv_writes:
  assumes "calm_bsp env" and "roots_ok R" and "scala_inv env R c events (add_mset (ToWrite root content) updates) missed raced"
    and "bsp_write env root content c = (r, c')"
  shows "scala_inv env R c' events updates missed raced"
proof (rule scala_inv_step [OF assms(3)])
  have c': "c' = c\<lparr>sa_files := (sa_files c)(bsp_destPath root \<mapsto> content)\<rparr>" by (rule bsp_write_calm [OF assms(1,4)])
  have root: "root \<in> R" using assms(3) by (auto simp: scala_inv_def)
  show "sa_watchedWorkspaces c' = sa_watchedWorkspaces c" by (simp add: c')
  fix q
  assume q: "q \<in> R" "q \<notin> raced"
    and "q \<notin> raced \<Longrightarrow> bsp_inv env q c events (add_mset (ToWrite root content) updates) (bsp_sourcePath q \<in> missed)"
  then have old: "bsp_inv env q c events (add_mset (ToWrite root content) updates) (bsp_sourcePath q \<in> missed)" by blast
  have source: "sa_files c' (bsp_sourcePath q) = sa_files c (bsp_sourcePath q)" using roots_okD(2) [OF assms(2) root] by (simp add: c')
  show "bsp_inv env q c' events updates (bsp_sourcePath q \<in> missed)"
  proof (cases "q = root")
    case True
    have "up_to_date env c' root" if "fresh_text env c root content"
      using that source True by (simp add: up_to_date_def fresh_text_def c')
    with old True show ?thesis by (auto simp: bsp_inv_def)
  next
    case False
    have "sa_files c' (bsp_destPath q) = sa_files c (bsp_destPath q)" using roots_okD(5) [OF assms(2) q(1) root] False by (simp add: c')
    from file_state_cong [OF source] this old False show ?thesis by (auto simp: bsp_inv_def)
  qed
qed simp

lemma scala_inv_changed:
  assumes "roots_ok R" and "scala_inv env R c events updates missed raced"
  shows "scala_inv env R (c\<lparr>sa_files := (sa_files c)(bsp_sourcePath root := data)\<rparr>)
    (if written then events @ [bsp_sourcePath root] else events) updates (if written then missed else insert (bsp_sourcePath root) missed) raced"
proof (rule scala_inv_step [OF assms(2)])
  let ?c = "c\<lparr>sa_files := (sa_files c)(bsp_sourcePath root := data)\<rparr>"
  fix q
  assume q: "q \<in> R" "q \<notin> raced" and "q \<notin> raced \<Longrightarrow> bsp_inv env q c events updates (bsp_sourcePath q \<in> missed)"
  then have old: "bsp_inv env q c events updates (bsp_sourcePath q \<in> missed)" by blast
  show "bsp_inv env q ?c (if written then events @ [bsp_sourcePath root] else events) updates
      (bsp_sourcePath q \<in> (if written then missed else insert (bsp_sourcePath root) missed))"
  proof (cases "bsp_sourcePath q = bsp_sourcePath root")
    case False
    have source: "sa_files ?c (bsp_sourcePath q) = sa_files c (bsp_sourcePath q)" using False by simp
    have "sa_files ?c (bsp_destPath q) = sa_files c (bsp_destPath q)" using roots_okD(2) [OF assms(1) q(1), of root] by auto
    from file_state_cong [OF source] this old show ?thesis by (auto simp: bsp_inv_def)
  qed (use old in \<open>auto simp: bsp_inv_def\<close>)
qed simp_all

lemma scala_inv_report:
  assumes "roots_ok R" and "scala_inv env R c (name # events) updates missed raced" and "set order = set (sa_watchedWorkspaces c)"
  shows "scala_inv env R c events (case event_workspace order True name of None \<Rightarrow> updates | Some root \<Rightarrow> add_mset (ToRead root) updates) missed raced"
proof (rule scala_inv_step [OF assms(2) refl])
  let ?updates = "case event_workspace order True name of None \<Rightarrow> updates | Some root \<Rightarrow> add_mset (ToRead root) updates"
  show "u \<in># updates \<or> update_root u \<in> set (sa_watchedWorkspaces c)" if "u \<in># ?updates" for u
    using that event_workspace_watched [of order True name] assms(3) by (auto split: option.splits)
  fix q
  assume q: "q \<in> set (sa_watchedWorkspaces c)" "q \<notin> raced"
    and old: "q \<notin> raced \<Longrightarrow> bsp_inv env q c (name # events) updates (bsp_sourcePath q \<in> missed)"
  have "event_workspace order True name = Some q" if "bsp_sourcePath q = name"
    using event_workspace_source [OF assms(1), of order q] assms(2,3) q(1) that by (auto simp: scala_inv_def)
  then show "bsp_inv env q c events ?updates (bsp_sourcePath q \<in> missed)"
    by (intro bsp_inv_mono [OF old [OF q(2)]]) (auto split: option.split)
qed

lemma scala_inv_session:
  assumes "scala_inv env R c events updates missed raced" and "root \<in> R" and "bsp_watch env root c = (r, c')"
  shows "scala_inv env R c' events (if r = Ok True then add_mset (ToRead root) updates else updates) missed raced"
  using assms(3)
proof (cases rule: bsp_watch_cases)
  case 1
  have none: "writes_of root updates = {#}" using assms(1) 1(2) by (force simp: scala_inv_def writes_of_empty)
  have "bsp_inv env q c' events (add_mset (ToRead root) updates) (bsp_sourcePath q \<in> missed)"
    if "q \<in> set (sa_watchedWorkspaces c)" "q \<notin> raced" for q
  proof -
    from assms(1) that have "bsp_inv env q c events updates (bsp_sourcePath q \<in> missed)" by (simp add: scala_inv_def)
    then show ?thesis by (rule bsp_inv_mono) (simp_all add: 1(3))
  qed
  moreover have "bsp_inv env root c' events (add_mset (ToRead root) updates) m" for m by (simp add: bsp_inv_def none)
  ultimately show ?thesis using assms(1,2) 1 by (auto simp: scala_inv_def)
qed (use assms(1) in simp)

text \<open>
  C33. The copy of the build server's configuration, for roots whose paths do not meet and none of which is a prefix of the source of another, and with a file system that works. Take
  a watched workspace whose source holds a JSON object, of which all reports have been handled and all updates have been written, whose last change was reported as a write or was made
  before the last read, and whose last read did not overlap another update. Then its copy holds an object
  with the version \<^verbatim>\<open>3.2.0-20240629-e3d8bdf-NIGHTLY\<close> and with every other entry of the source, whatever sessions, changes and reports there were, in whatever order their steps ran and Go
  visits the workspaces. A change that is not reported as a write is missed (\<open>create_report_dropped\<close>).
\<close>

theorem bsp_copy_follows:
  assumes "scala_reachable env sessions c events updates missed raced" and "calm_bsp env" and "json_ok env" and "roots_ok R"
    and "\<And>cx s. GetFromContext sessions cx = Ok s \<Longrightarrow> ses_WorkspaceRoot s \<in> R"
  shows "\<forall>root \<in> set (sa_watchedWorkspaces c). \<forall>data obj.
    bsp_sourcePath root \<notin> set events \<and> (\<forall>u \<in># updates. update_root u \<noteq> root) \<and> bsp_sourcePath root \<notin> missed \<and> root \<notin> raced \<and>
    sa_files c (bsp_sourcePath root) = Some data \<and> be_Unmarshal env data = Ok (Some obj) \<longrightarrow>
      (\<exists>content copy. sa_files c (bsp_destPath root) = Some content \<and> be_Unmarshal env content = Ok (Some copy) \<and>
         map_of copy ''version'' = Some (be_string env ''3.2.0-20240629-e3d8bdf-NIGHTLY'') \<and>
         (\<forall>key. key \<noteq> ''version'' \<longrightarrow> map_of copy key = map_of obj key))"
proof -
  from assms(1) have inv: "scala_inv env R c events updates missed raced"
  proof induction
    case (watcher c events updates missed raced)
    have "sa_files (snd (ensureWatcher env c)) = sa_files c" "sa_watchedWorkspaces (snd (ensureWatcher env c)) = sa_watchedWorkspaces c"
      by (auto simp: ensureWatcher_def split: outcome.split)
    with watcher.IH show ?case by (auto simp: scala_inv_def elim!: bsp_inv_mono)
  next
    case (session c events updates missed raced cx s r c')
    from scala_inv_session [OF session.IH assms(5) [OF session.hyps(2)] session.hyps(3)] show ?case .
  next
    case (changed c events updates missed raced root data written)
    from scala_inv_changed [OF assms(4) changed.IH] show ?case .
  next
    case (report c name events updates missed raced order)
    from scala_inv_report [OF assms(4) report.IH report.hyps(2)] show ?case .
  next
    case (reads c events root updates missed raced r)
    from scala_inv_reads [OF assms(2-4) reads.IH reads.hyps(2)] show ?case .
  next
    case (writes c events root data updates missed raced r c')
    from scala_inv_writes [OF assms(2,4) writes.IH writes.hyps(2)] show ?case .
  qed (simp add: scala_inv_def NewScalaAssist_def)
  show ?thesis
  proof (intro ballI allI impI)
    fix root data obj
    assume root: "root \<in> set (sa_watchedWorkspaces c)" and settled: "bsp_sourcePath root \<notin> set events \<and> (\<forall>u \<in># updates. update_root u \<noteq> root) \<and>
      bsp_sourcePath root \<notin> missed \<and> root \<notin> raced \<and> sa_files c (bsp_sourcePath root) = Some data \<and> be_Unmarshal env data = Ok (Some obj)"
    have "writes_of root updates = {#}" "ToRead root \<notin># updates" using settled by (auto simp: writes_of_empty)
    with inv root settled have "up_to_date env c root" by (auto simp: scala_inv_def bsp_inv_def)
    with settled show "\<exists>content copy. sa_files c (bsp_destPath root) = Some content \<and> be_Unmarshal env content = Ok (Some copy) \<and>
         map_of copy ''version'' = Some (be_string env ''3.2.0-20240629-e3d8bdf-NIGHTLY'') \<and>
         (\<forall>key. key \<noteq> ''version'' \<longrightarrow> map_of copy key = map_of obj key)"
      unfolding up_to_date_def copy_of_def by blast
  qed
qed

text \<open>A report without a write is dropped: a file that is created with its content, or moved into place, is not copied.\<close>

lemma create_report_dropped: "consumeWatcherEvent env order False name c = (Ok (), c)"
  by (simp add: consumeWatcherEvent_def event_workspace_def)

text \<open>
  A configuration file that holds \<^verbatim>\<open>null\<close> is valid JSON and decodes to a nil map; the version is assigned to it without a check, so the
  plugin panics, in the goroutine of the watcher as well as when a session starts.
\<close>

theorem null_config_panics:
  assumes "be_ReadFile env (bsp_sourcePath root) = Ok ()" and "sa_files c (bsp_sourcePath root) = Some data" and "be_Unmarshal env data = Ok None"
    and "root \<noteq> ''''" and "find (\<lambda>r. prefix r (bsp_sourcePath root)) order = Some root"
  shows "updateBSPJson env root c = (Panic, c) \<and> consumeWatcherEvent env order True (bsp_sourcePath root) c = (Panic, c)"
  using assms by (simp add: updateBSPJson_def bsp_read_def overridden_def consumeWatcherEvent_def event_workspace_def)
subsection \<open>Witnesses\<close>

lemma bsp_path_ends:
  assumes "elem_ok f" and "f \<noteq> ''..''"
  shows "suffix f (path_Join [q, ''.bsp'', f])"
  using Clean_suffix [OF assms, of "''.bsp''"] Clean_suffix [OF assms, of "q @ ''/.bsp''"] by (simp add: path_Join_def)

lemma source_not_dest: "bsp_sourcePath q \<noteq> bsp_destPath r"
proof
  assume eq: "bsp_sourcePath q = bsp_destPath r"
  have "suffix ''bazelbsp.json'' (bsp_sourcePath q)" "suffix ''bazelbsp_scala.json'' (bsp_destPath r)"
    unfolding bsp_sourcePath_def bsp_destPath_def by (rule bsp_path_ends; simp add: elem_ok_def)+
  with eq obtain a b where "a @ ''bazelbsp.json'' = b @ ''bazelbsp_scala.json''" by (auto simp: suffix_def)
  then have "rev ''bazelbsp.json'' @ rev a = rev ''bazelbsp_scala.json'' @ rev b" by (metis rev_append)
  then show False by simp
qed

text \<open>A file format that can be read back: every character of a key or a value is marked, and so are their ends.\<close>

definition print_string :: "gostring \<Rightarrow> gostring" where
  "print_string str = concat (map (\<lambda>x. [CHR ''c'', x]) str)"

definition print_object :: "(gostring \<times> gostring) list \<Rightarrow> gostring" where
  "print_object obj = concat (map (\<lambda>(key, value). print_string key @ ''kk'' @ print_string value @ ''vv'') obj)"

fun parse_object :: "gostring \<Rightarrow> gostring \<Rightarrow> gostring \<Rightarrow> (gostring \<times> gostring) list option" where
  "parse_object [] key current = Some []"
| "parse_object [mark] key current = None"
| "parse_object (mark # x # rest) key current =
     (if mark = CHR ''c'' then parse_object rest key (current @ [x])
      else if mark = CHR ''k'' then parse_object rest current []
      else if mark = CHR ''v'' then map_option (Cons (key, current)) (parse_object rest [] [])
      else None)"

lemma parse_print_string: "parse_object (print_string str @ rest) key current = parse_object rest key (current @ str)"
  by (induction str arbitrary: current) (simp_all add: print_string_def)

lemma parse_print: "parse_object (print_object obj) [] [] = Some obj"
  by (induction obj) (auto simp: print_object_def parse_print_string)

definition plain_env :: "gostring bsp_env" where
  "plain_env = \<lparr>be_NewWatcher = Ok (), be_MkdirAll = (\<lambda>p. Ok ()), be_Add = (\<lambda>p. Ok ()), be_ReadFile = (\<lambda>p. Ok ()),
     be_Unmarshal = (\<lambda>d. if d = ''null'' then Ok None else case parse_object d [] [] of None \<Rightarrow> Fail EOF | Some obj \<Rightarrow> Ok (Some obj)),
     be_MarshalIndent = (\<lambda>obj. Ok (print_object obj)), be_WriteFile = (\<lambda>p. Ok ()), be_string = (\<lambda>s. s)\<rparr>"

lemma plain_json: "json_ok plain_env"
proof -
  have "print_object obj \<noteq> ''null''" for obj
  proof
    assume "print_object obj = ''null''"
    with parse_print [of obj] show False by simp
  qed
  then show ?thesis by (simp add: json_ok_def plain_env_def parse_print)
qed

text \<open>A source with an old version and a name, and the plugin after a session has started and its first update is written.\<close>

definition old_config :: "(gostring \<times> gostring) list" where
  "old_config = [(''name'', ''bsp''), (''version'', ''1'')]"

definition watching :: scala_assist where
  "watching = \<lparr>sa_watcher = True, sa_watchedWorkspaces = [''/w''], sa_files = [bsp_sourcePath ''/w'' \<mapsto> print_object old_config]\<rparr>"

definition started :: scala_assist where
  "started = snd (updateBSPJson plain_env ''/w'' watching)"

lemma bsp_context: "GetFromContext sample_sessions (Some ''u'') = Ok sample_session"
  by (simp add: GetFromContext_def ContextToSessionUUID_def sample_sessions_def GetSession_Set sample_session_def UUIDToSession_def)

lemma bsp_sessions: "GetFromContext sample_sessions cx = Ok s \<Longrightarrow> ses_WorkspaceRoot s \<in> {''/w''}"
proof -
  assume "GetFromContext sample_sessions cx = Ok s"
  then obtain u where "GetSession sample_sessions u = Ok s"
    by (auto simp: GetFromContext_def ContextToSessionUUID_def split: option.splits)
  moreover have "GetSession (NewSessionRepository :: (unit, unit) repository) u = Fail (UUIDNotFoundError u)"
    by (simp add: GetSession_def NewSessionRepository_def)
  ultimately show ?thesis by (auto simp: sample_sessions_def GetSession_Set sample_session_def UUIDToSession_def split: if_splits)
qed

lemma bsp_roots: "roots_ok {''/w''}"
  by (simp add: roots_ok_def source_not_dest) (simp add: bsp_sourcePath_def path_Join_def Clean_def)

lemma watching_reachable: "scala_reachable plain_env sample_sessions watching [] {#ToRead ''/w''#} {} {}"
proof -
  let ?c = "snd (ensureWatcher plain_env (NewScalaAssist [bsp_sourcePath ''/w'' \<mapsto> print_object old_config]))"
  have "scala_reachable plain_env sample_sessions ?c [] {#} {} {}" by (rule scala_reachable.watcher [OF scala_reachable.start])
  moreover have "bsp_watch plain_env (ses_WorkspaceRoot sample_session) ?c = (Ok True, watching)" "ses_WorkspaceRoot sample_session = ''/w''"
    by (simp_all add: bsp_watch_def ensureWatcher_def NewScalaAssist_def plain_env_def watching_def sample_session_def UUIDToSession_def Let_def)
  ultimately show ?thesis using scala_reachable.session [OF _ bsp_context, of plain_env ?c "[]" "{#}" "{}" "{}"] by fastforce
qed

theorem bsp_copy_follows_witness:
  "\<exists>content copy. sa_files started (bsp_destPath ''/w'') = Some content \<and> be_Unmarshal plain_env content = Ok (Some copy) \<and>
     map_of copy ''version'' = Some ''3.2.0-20240629-e3d8bdf-NIGHTLY'' \<and> map_of copy ''name'' = Some ''bsp''"
proof -
  have source: "sa_files watching (bsp_sourcePath ''/w'') = Some (print_object old_config)" by (simp add: watching_def)
  have decoded: "be_Unmarshal plain_env (print_object old_config) = Ok (Some old_config)"
  proof -
    have "print_object old_config \<noteq> ''null''" by (simp add: print_object_def print_string_def old_config_def)
    then show ?thesis by (simp add: plain_env_def parse_print)
  qed
  then obtain content where read: "bsp_read plain_env ''/w'' watching = Ok (Some content)"
    using overridden_copy [OF plain_json decoded] source by (auto simp: bsp_read_def plain_env_def)
  have "scala_reachable plain_env sample_sessions watching [] {#ToWrite ''/w'' content#} {} {}"
    using scala_reachable.reads [OF watching_reachable read] by simp
  moreover have "bsp_write plain_env ''/w'' content watching = (Ok (), started)"
    using read by (simp add: bsp_write_def plain_env_def started_def updateBSPJson_def)
  ultimately have reach: "scala_reachable plain_env sample_sessions started [] {#} {} {}" by (rule scala_reachable.writes)
  have calm: "calm_bsp plain_env" by (simp add: calm_bsp_def plain_env_def)
  have "''/w'' \<in> set (sa_watchedWorkspaces started)" "sa_files started (bsp_sourcePath ''/w'') = Some (print_object old_config)"
    using source source_not_dest [of "''/w''" "''/w''"] read by (simp_all add: started_def updateBSPJson_def bsp_write_def plain_env_def watching_def)
  with bsp_copy_follows [OF reach calm plain_json bsp_roots bsp_sessions] decoded obtain content' copy where
    "sa_files started (bsp_destPath ''/w'') = Some content'" "be_Unmarshal plain_env content' = Ok (Some copy)"
    "map_of copy ''version'' = Some (be_string plain_env ''3.2.0-20240629-e3d8bdf-NIGHTLY'')" "map_of copy ''name'' = map_of old_config ''name''"
    by fastforce
  then show ?thesis by (simp add: old_config_def plain_env_def)
qed

theorem null_config_panics_witness:
  "updateBSPJson plain_env ''/w'' (NewScalaAssist [bsp_sourcePath ''/w'' \<mapsto> ''null'']) =
     (Panic, NewScalaAssist [bsp_sourcePath ''/w'' \<mapsto> ''null''])"
proof -
  have "prefix ''/w'' (bsp_sourcePath ''/w'')" using bsp_roots by (simp add: roots_ok_def)
  then show ?thesis
    using null_config_panics [of plain_env "''/w''" "NewScalaAssist [bsp_sourcePath ''/w'' \<mapsto> ''null'']" "''null''" "[''/w'']"]
    by (simp add: plain_env_def NewScalaAssist_def)
qed

end
