(* ===== verification/JavaActions.thy ===== *)
theory JavaActions
  imports QuickActionsSpec JavaUtils
begin

text \<open>
  \<^verbatim>\<open>src/ulsp/controller/quick-actions/actions-java\<close>: the actions that the quick-actions plugin offers, as instances of the interface
  \<^verbatim>\<open>Action\<close>, and the parts of \<^verbatim>\<open>src/ulsp/entity/ulsp_daemon.go\<close> they ask. The engine for regular expressions, JSON, the client
  and the command runner are in the environment; so is the target of a file. What an action does is logged.
\<close>

subsection \<open>Configuration (\<^verbatim>\<open>entity/ulsp_daemon.go\<close>)\<close>

record monorepo_config =
  mc_Languages :: "gostring list"

type_synonym monorepo_configs = "(gostring \<times> monorepo_config) list"

definition EnableJavaSupport :: "monorepo_config \<Rightarrow> bool" where
  "EnableJavaSupport mce \<longleftrightarrow> ''java'' \<in> set (mc_Languages mce)"

definition EnableScalaSupport :: "monorepo_config \<Rightarrow> bool" where
  "EnableScalaSupport mce \<longleftrightarrow> ''scala'' \<in> set (mc_Languages mce)"

definition relevantRepos :: "(monorepo_config \<Rightarrow> bool) \<Rightarrow> monorepo_configs \<Rightarrow> gostring list" where
  "relevantRepos predicate configs = map fst (filter (\<lambda>(monorepoName, monorepoConfig). predicate monorepoConfig) configs)"

definition RelevantJavaRepos :: "monorepo_configs \<Rightarrow> gostring list" where
  "RelevantJavaRepos configs = relevantRepos EnableJavaSupport configs"

definition RelevantScalaRepos :: "monorepo_configs \<Rightarrow> gostring list" where
  "RelevantScalaRepos configs = relevantRepos EnableScalaSupport configs"

definition IsVSCodeBased :: "gostring \<Rightarrow> bool" where
  "IsVSCodeBased c \<longleftrightarrow> c = ''Visual Studio Code'' \<or> c = ''Cursor''"

text \<open>The entry of a repository; Go's zero value has no languages.\<close>

definition config_of :: "monorepo_configs \<Rightarrow> gostring \<Rightarrow> monorepo_config" where
  "config_of configs repo = (case map_of configs repo of None \<Rightarrow> \<lparr>mc_Languages = []\<rparr> | Some e \<Rightarrow> e)"

subsection \<open>Environment\<close>

type_synonym regexp = "(gostring \<Rightarrow> gostring list list) \<times> (gostring \<Rightarrow> (nat \<times> nat) list option)"

record java_args =
  ja_URI :: uri
  ja_ClassName :: gostring
  ja_MethodName :: gostring

record os_command =
  oc_Args :: "gostring list"
  oc_Dir :: gostring
  oc_Env :: "gostring list"

datatype ja_call = JaLog gostring | JaRun os_command | JaError go_error | JaWrite gostring | JaShow gostring

record ('p, 'c) java_env =
  je_sessions :: "('p, 'c) repository"
  je_configs :: monorepo_configs
  je_clientName :: "'p \<Rightarrow> gostring option"
  je_regexpJavaClassHeader :: regexp
  je_regexpJavaTest :: regexp
  je_Unmarshal :: "gostring \<Rightarrow> java_args outcome"
  je_Filename :: "uri \<Rightarrow> gostring"
  je_GetJavaTarget :: "gostring \<Rightarrow> uri \<Rightarrow> gostring outcome"
  je_Environ :: "gostring list"
  je_GetLogMessageWriter :: "ctx \<Rightarrow> unit outcome"
  je_LogMessage :: "gostring \<Rightarrow> unit outcome"
  je_RunCommand :: "os_command \<Rightarrow> unit outcome"
  je_Write :: "gostring \<Rightarrow> unit outcome"
  je_ShowMessage :: "gostring \<Rightarrow> unit outcome"

definition CmdFormat :: "gostring \<Rightarrow> gostring" where
  "CmdFormat name = ''ulsp.quick-actions.'' @ name"

definition java_enabled :: "('p, 'c) java_env \<Rightarrow> ('p, 'c) session \<Rightarrow> bool" where
  "java_enabled env s \<longleftrightarrow> EnableJavaSupport (config_of (je_configs env) (ses_Monorepo s))"

definition client_name :: "('p, 'c) java_env \<Rightarrow> ('p, 'c) session \<Rightarrow> gostring option" where
  "client_name env s = Option.bind (ses_InitializeParams s) (je_clientName env)"

definition is_java :: "doc_item \<Rightarrow> bool" where
  "is_java document \<longleftrightarrow> di_LanguageID document = ''java''"

text \<open>The matches of an expression; nil is no match. A capturing group that is not there panics.\<close>

definition matches_of :: "regexp \<Rightarrow> gostring \<Rightarrow> regex_match list outcome" where
  "matches_of re text = obind (FindAllStringMatches (fst re) (snd re) text) (\<lambda>ms. Ok (case ms of None \<Rightarrow> [] | Some ms \<Rightarrow> ms))"

definition capture_group :: "regex_match \<Rightarrow> nat \<Rightarrow> gostring outcome" where
  "capture_group m i = (if i < length (CapturingGroups m) then Ok (CapturingGroups m ! i) else Panic)"

fun map_outcome :: "('a \<Rightarrow> 'b outcome) \<Rightarrow> 'a list \<Rightarrow> 'b list outcome" where
  "map_outcome f [] = Ok []"
| "map_outcome f (x # xs) = obind (f x) (\<lambda>y. obind (map_outcome f xs) (\<lambda>ys. Ok (y # ys)))"

text \<open>What the plugin looks at of a lens and of an action.\<close>

definition lens_result :: "java_args code_lens \<Rightarrow> action_result" where
  "lens_result l = ResultLens \<lparr>ol_Range = cl_Range l, ol_Command = Some (cmd_Command (cl_Command l))\<rparr>"

definition action_result :: "java_args code_action_with_range \<Rightarrow> action_result" where
  "action_result a = ResultAction (cwr_Range a) \<lparr>act_Title = ca_Title (cwr_CodeAction a), act_Kind = ca_Kind (cwr_CodeAction a),
     act_Command = Some (cmd_Command (ca_Command (cwr_CodeAction a)))\<rparr>"

definition no_args :: java_args where
  "no_args = \<lparr>ja_URI = '''', ja_ClassName = '''', ja_MethodName = ''''\<rparr>"

subsection \<open>Running a command\<close>

text \<open>
  The common part of \<^verbatim>\<open>Execute\<close>: the session and the arguments, a writer, the command, a message, the run, its error if any, and
  the end message. \<open>prepare\<close> is what the action computes in between; \<open>finish\<close> is the message some actions show at the end.
\<close>

definition java_execute ::
  "('p, 'c) java_env \<Rightarrow> (gostring \<Rightarrow> gostring) \<Rightarrow> (('p, 'c) session \<Rightarrow> java_args \<Rightarrow> os_command outcome) \<Rightarrow> (java_args \<Rightarrow> gostring option) \<Rightarrow>
   ctx \<Rightarrow> gostring \<Rightarrow> unit outcome \<times> ja_call list" where
  "java_execute env start_message prepare finish cx args =
     (case obind (wrap_err (Errorf ''getting session from context: %w'' []) (GetFromContext (je_sessions env) cx)) (\<lambda>s.
           obind (wrap_err (Errorf ''unmarshalling args: %w'' []) (je_Unmarshal env args)) (\<lambda>resultArgs.
           obind (wrap_err (Errorf ''getting writer: %w'' []) (je_GetLogMessageWriter env cx)) (\<lambda>_.
           obind (prepare s resultArgs) (\<lambda>cmd. Ok (resultArgs, cmd))))) of
        Fail e \<Rightarrow> (Fail e, [])
      | Panic \<Rightarrow> (Panic, [])
      | Ok (resultArgs, cmd) \<Rightarrow>
          (let message = start_message (strings_Join (oc_Args cmd) '' '')
           in case wrap_err (Errorf ''logging message: %w'' []) (je_LogMessage env message) of
                Fail e \<Rightarrow> (Fail e, [])
              | Panic \<Rightarrow> (Panic, [])
              | Ok _ \<Rightarrow>
                  (case je_RunCommand env cmd of
                     Fail e \<Rightarrow> (Fail e, [JaLog message, JaRun cmd, JaError e])
                   | Panic \<Rightarrow> (Panic, [JaLog message, JaRun cmd])
                   | Ok _ \<Rightarrow>
                       (case wrap_err (Errorf ''logging message: %w'' []) (je_Write env ''Command completed'') of
                          Fail e \<Rightarrow> (Fail e, [JaLog message, JaRun cmd])
                        | Panic \<Rightarrow> (Panic, [JaLog message, JaRun cmd])
                        | Ok _ \<Rightarrow>
                            (case finish resultArgs of
                               None \<Rightarrow> (Ok (), [JaLog message, JaRun cmd, JaWrite ''Command completed''])
                             | Some shown \<Rightarrow>
                                 (je_ShowMessage env shown, [JaLog message, JaRun cmd, JaWrite ''Command completed'', JaShow shown]))))))"

text \<open>The command with the variables the scripts expect.\<close>

definition workspace_command :: "('p, 'c) java_env \<Rightarrow> gostring \<Rightarrow> gostring \<Rightarrow> gostring list \<Rightarrow> os_command" where
  "workspace_command env workspaceRoot relPath cmdArgs =
     \<lparr>oc_Args = path_Join [workspaceRoot, relPath] # cmdArgs, oc_Dir = workspaceRoot,
      oc_Env = je_Environ env @ [''WORKSPACE_ROOT='' @ workspaceRoot, ''PROJECT_ROOT='' @ workspaceRoot]\<rparr>"

text \<open>\<^verbatim>\<open>s.InitializeParams.ClientInfo.Name\<close>: both pointers may be nil.\<close>

definition client_info_name :: "('p, 'c) java_env \<Rightarrow> ('p, 'c) session \<Rightarrow> gostring outcome" where
  "client_info_name env s = (case client_name env s of None \<Rightarrow> Panic | Some name \<Rightarrow> Ok name)"

subsection \<open>Build (\<^verbatim>\<open>action_java_build.go\<close>)\<close>

definition prepare_JavaBuild :: "('p, 'c) java_env \<Rightarrow> gostring \<Rightarrow> gostring \<Rightarrow> gostring \<Rightarrow> os_command" where
  "prepare_JavaBuild env workspaceRoot target ideClient =
     workspace_command env workspaceRoot ''tools/bazel'' [''build'', target, ''--tool_tag='' @ NormalizeIDEClient ideClient @ '':actions:build'']"

definition Execute_JavaBuild :: "('p, 'c) java_env \<Rightarrow> ctx \<Rightarrow> gostring \<Rightarrow> unit outcome \<times> ja_call list" where
  "Execute_JavaBuild env =
     java_execute env (\<lambda>m. ''Building Java Target: '' @ m)
       (\<lambda>s a. obind (je_GetJavaTarget env (ses_WorkspaceRoot s) (ja_URI a)) (\<lambda>target.
          obind (client_info_name env s) (\<lambda>name. Ok (prepare_JavaBuild env (ses_WorkspaceRoot s) target name))))
       (\<lambda>a. None)"

definition ProcessDocument_JavaBuild :: "('p, 'c) java_env \<Rightarrow> doc_item \<Rightarrow> action_result list outcome" where
  "ProcessDocument_JavaBuild env document =
     obind (matches_of (je_regexpJavaClassHeader env) (di_Text document)) (map_outcome (\<lambda>m.
       obind (capture_group m 0) (\<lambda>className.
         Ok (lens_result (NewCodeLens (rm_Range m) ''Build'' (CmdFormat ''javabuild'')
               \<lparr>ja_URI = di_URI document, ja_ClassName = className, ja_MethodName = ''''\<rparr>)))))"

definition Progress_JavaBuild :: "('p, 'c) java_env \<Rightarrow> ctx \<Rightarrow> gostring \<Rightarrow> (gostring \<times> gostring) option outcome" where
  "Progress_JavaBuild env cx args =
     obind (wrap_err (Errorf ''getting session from context: %w'' []) (GetFromContext (je_sessions env) cx)) (\<lambda>s.
     obind (wrap_err (Errorf ''unmarshalling args: %w'' []) (je_Unmarshal env args)) (\<lambda>resultArgs.
     obind (je_GetJavaTarget env (ses_WorkspaceRoot s) (ja_URI resultArgs)) (\<lambda>target.
       Ok (Some (''Building File '' @ path_Base (je_Filename env (ja_URI resultArgs)), ''Building target '' @ target)))))"

definition ActionJavaBuild :: "('p, 'c) java_env \<Rightarrow> ctx \<Rightarrow> ('p, 'c) quick_action" where
  "ActionJavaBuild env cx =
     \<lparr>CommandName = CmdFormat ''javabuild'', ShouldEnable = java_enabled env, IsRelevantDocument = (\<lambda>s. is_java),
      ProcessDocument = ProcessDocument_JavaBuild env, ProvideWorkDoneProgressParams = Progress_JavaBuild env cx\<rparr>"

subsection \<open>Sync (\<^verbatim>\<open>action_java_sync.go\<close>)\<close>

definition getRelativeFilePath :: "('p, 'c) java_env \<Rightarrow> gostring \<Rightarrow> uri \<Rightarrow> gostring outcome" where
  "getRelativeFilePath env workspaceRoot u =
     (let curFilePath = je_Filename env u
      in if \<not> prefix workspaceRoot curFilePath then Fail (Errorf ''invalid filepath to process'' [])
         else Ok (TrimPrefix curFilePath (workspaceRoot @ ''/'')))"

definition prepare_JavaSync :: "('p, 'c) java_env \<Rightarrow> gostring \<Rightarrow> gostring \<Rightarrow> os_command" where
  "prepare_JavaSync env workspaceRoot filepath = workspace_command env workspaceRoot ''tools/scip/scip_sync.sh'' [''--filepath'', filepath]"

definition Execute_JavaSync :: "('p, 'c) java_env \<Rightarrow> ctx \<Rightarrow> gostring \<Rightarrow> unit outcome \<times> ja_call list" where
  "Execute_JavaSync env =
     java_execute env (\<lambda>m. ''Syncing Index for file: '' @ m)
       (\<lambda>s a. obind (getRelativeFilePath env (ses_WorkspaceRoot s) (ja_URI a)) (\<lambda>filepath. Ok (prepare_JavaSync env (ses_WorkspaceRoot s) filepath)))
       (\<lambda>a. None)"

definition ProcessDocument_JavaSync :: "('p, 'c) java_env \<Rightarrow> doc_item \<Rightarrow> action_result list outcome" where
  "ProcessDocument_JavaSync env document =
     obind (matches_of (je_regexpJavaClassHeader env) (di_Text document)) (map_outcome (\<lambda>m.
       Ok (lens_result (NewCodeLens (rm_Range m) ''Sync File'' (CmdFormat ''javasync'') (no_args\<lparr>ja_URI := di_URI document\<rparr>)))))"

definition Progress_JavaSync :: "('p, 'c) java_env \<Rightarrow> ctx \<Rightarrow> gostring \<Rightarrow> (gostring \<times> gostring) option outcome" where
  "Progress_JavaSync env cx args =
     obind (wrap_err (Errorf ''getting session from context: %w'' []) (GetFromContext (je_sessions env) cx)) (\<lambda>s.
     obind (wrap_err (Errorf ''unmarshalling args: %w'' []) (je_Unmarshal env args)) (\<lambda>resultArgs.
     obind (getRelativeFilePath env (ses_WorkspaceRoot s) (ja_URI resultArgs)) (\<lambda>filepath.
       Ok (Some (''Syncing file '' @ path_Base filepath, ''...'')))))"

definition ActionJavaSync :: "('p, 'c) java_env \<Rightarrow> ctx \<Rightarrow> ('p, 'c) quick_action" where
  "ActionJavaSync env cx =
     \<lparr>CommandName = CmdFormat ''javasync'', ShouldEnable = java_enabled env, IsRelevantDocument = (\<lambda>s. is_java),
      ProcessDocument = ProcessDocument_JavaSync env, ProvideWorkDoneProgressParams = Progress_JavaSync env cx\<rparr>"
subsection \<open>Tests (\<^verbatim>\<open>action_java_test_run.go\<close>, \<^verbatim>\<open>action_java_test_coverage.go\<close>)\<close>

definition getTestCaseName :: "java_args \<Rightarrow> gostring" where
  "getTestCaseName args = (if ja_ClassName args \<noteq> '''' then ja_ClassName args else ja_MethodName args)"

definition prepare_JavaTestRun :: "('p, 'c) java_env \<Rightarrow> gostring \<Rightarrow> gostring \<Rightarrow> gostring \<Rightarrow> gostring \<Rightarrow> os_command" where
  "prepare_JavaTestRun env workspaceRoot target testCaseName ideClient =
     workspace_command env workspaceRoot ''tools/bazel''
       [''test'', ''--test_filter='' @ testCaseName, target, ''--tool_tag='' @ NormalizeIDEClient ideClient @ '':actions:test'']"

definition prepare_JavaTestRunCoverage :: "('p, 'c) java_env \<Rightarrow> gostring \<Rightarrow> gostring \<Rightarrow> gostring \<Rightarrow> gostring \<Rightarrow> os_command" where
  "prepare_JavaTestRunCoverage env workspaceRoot target testCaseName ideClient =
     workspace_command env workspaceRoot ''tools/bazel''
       [''test'', ''--test_filter='' @ testCaseName, ''--collect_code_coverage'', ''--combined_report=lcov'', target,
        ''--tool_tag='' @ NormalizeIDEClient ideClient @ '':actions:codecov'']"

text \<open>Both compute the target and read the name of the client.\<close>

definition prepare_test ::
  "('p, 'c) java_env \<Rightarrow> (gostring \<Rightarrow> gostring \<Rightarrow> gostring \<Rightarrow> gostring \<Rightarrow> os_command) \<Rightarrow> ('p, 'c) session \<Rightarrow> java_args \<Rightarrow> os_command outcome" where
  "prepare_test env prepare s a =
     obind (je_GetJavaTarget env (ses_WorkspaceRoot s) (ja_URI a)) (\<lambda>target.
     obind (client_info_name env s) (\<lambda>name. Ok (prepare (ses_WorkspaceRoot s) target (getTestCaseName a) name)))"

definition Execute_JavaTestRun :: "('p, 'c) java_env \<Rightarrow> ctx \<Rightarrow> gostring \<Rightarrow> unit outcome \<times> ja_call list" where
  "Execute_JavaTestRun env =
     java_execute env (\<lambda>m. ''Running Java Test: '' @ m) (prepare_test env (prepare_JavaTestRun env))
       (\<lambda>a. Some (''Completed test '' @ getTestCaseName a))"

definition Execute_JavaTestRunCoverage :: "('p, 'c) java_env \<Rightarrow> ctx \<Rightarrow> gostring \<Rightarrow> unit outcome \<times> ja_call list" where
  "Execute_JavaTestRunCoverage env =
     java_execute env (\<lambda>m. ''Running Java Test Coverage: '' @ m) (prepare_test env (prepare_JavaTestRunCoverage env))
       (\<lambda>a. Some (''Completed code coverage for '' @ getTestCaseName a))"

definition test_args :: "doc_item \<Rightarrow> regex_match \<Rightarrow> java_args outcome" where
  "test_args document m =
     obind (capture_group m 0) (\<lambda>methodName. obind (capture_group m 1) (\<lambda>className.
       Ok \<lparr>ja_URI = di_URI document, ja_ClassName = className, ja_MethodName = methodName\<rparr>))"

definition ProcessDocument_JavaTestRun :: "('p, 'c) java_env \<Rightarrow> doc_item \<Rightarrow> action_result list outcome" where
  "ProcessDocument_JavaTestRun env document =
     obind (matches_of (je_regexpJavaTest env) (di_Text document)) (map_outcome (\<lambda>m.
       obind (test_args document m) (\<lambda>args. Ok (lens_result (NewCodeLens (rm_Range m) ''Run Test'' (CmdFormat ''javatestrun'') args)))))"

definition ProcessDocument_JavaTestRunCoverage :: "('p, 'c) java_env \<Rightarrow> doc_item \<Rightarrow> action_result list outcome" where
  "ProcessDocument_JavaTestRunCoverage env document =
     obind (matches_of (je_regexpJavaTest env) (di_Text document)) (map_outcome (\<lambda>m.
       obind (test_args document m) (\<lambda>args.
         let title = ''Run Java Test Coverage: '' @ (if ja_MethodName args = '''' then ja_ClassName args else ja_MethodName args)
         in Ok (action_result (NewCodeActionWithRange (rm_Range m) title (CmdFormat ''javatestcoverage'') ''refactor'' args)))))"

definition enabled_for_others :: "('p, 'c) java_env \<Rightarrow> ('p, 'c) session \<Rightarrow> bool" where
  "enabled_for_others env s \<longleftrightarrow> (case client_name env s of None \<Rightarrow> False | Some name \<Rightarrow> java_enabled env s \<and> \<not> IsVSCodeBased name)"

definition ActionJavaTestRun :: "('p, 'c) java_env \<Rightarrow> ('p, 'c) quick_action" where
  "ActionJavaTestRun env =
     \<lparr>CommandName = CmdFormat ''javatestrun'', ShouldEnable = enabled_for_others env, IsRelevantDocument = (\<lambda>s. is_java),
      ProcessDocument = ProcessDocument_JavaTestRun env, ProvideWorkDoneProgressParams = (\<lambda>args. Ok None)\<rparr>"

definition ActionJavaTestRunCoverage :: "('p, 'c) java_env \<Rightarrow> ('p, 'c) quick_action" where
  "ActionJavaTestRunCoverage env =
     \<lparr>CommandName = CmdFormat ''javatestcoverage'', ShouldEnable = java_enabled env, IsRelevantDocument = (\<lambda>s. is_java),
      ProcessDocument = ProcessDocument_JavaTestRunCoverage env, ProvideWorkDoneProgressParams = (\<lambda>args. Ok None)\<rparr>"

subsection \<open>Test explorer (\<^verbatim>\<open>action_java_test_explorer.go\<close>, \<^verbatim>\<open>action_java_test_explorer_info.go\<close>)\<close>

definition enabled_for_vscode :: "('p, 'c) java_env \<Rightarrow> ('p, 'c) session \<Rightarrow> bool" where
  "enabled_for_vscode env s \<longleftrightarrow> (case client_name env s of None \<Rightarrow> False | Some name \<Rightarrow> java_enabled env s \<and> IsVSCodeBased name)"

definition ProcessDocument_JavaTestExplorer :: "('p, 'c) java_env \<Rightarrow> doc_item \<Rightarrow> action_result list outcome" where
  "ProcessDocument_JavaTestExplorer env document =
     obind (matches_of (je_regexpJavaTest env) (di_Text document)) (map_outcome (\<lambda>m.
       Ok (lens_result (NewCodeLens (rm_Range m) ''Show Test Explorer'' ''workbench.view.extension.test'' no_args))))"

definition Execute_JavaTestExplorer :: "unit outcome" where
  "Execute_JavaTestExplorer = Fail (Errorf ''action %q should be handled by the IDE and is not implemented in uLSP'' [FStr ''workbench.view.extension.test''])"

definition ActionJavaTestExplorer :: "('p, 'c) java_env \<Rightarrow> ('p, 'c) quick_action" where
  "ActionJavaTestExplorer env =
     \<lparr>CommandName = '''', ShouldEnable = enabled_for_vscode env, IsRelevantDocument = (\<lambda>s. is_java),
      ProcessDocument = ProcessDocument_JavaTestExplorer env, ProvideWorkDoneProgressParams = (\<lambda>args. Ok None)\<rparr>"

definition ProcessDocument_JavaTestExplorerInfo :: "('p, 'c) java_env \<Rightarrow> doc_item \<Rightarrow> action_result list outcome" where
  "ProcessDocument_JavaTestExplorerInfo env document =
     obind (matches_of (je_regexpJavaTest env) (di_Text document)) (map_outcome (\<lambda>m.
       Ok (lens_result (NewCodeLens (rm_Range m) ''Learn More'' (CmdFormat ''javatestexplorerinfo'') no_args))))"

definition ActionJavaTestExplorerInfo :: "('p, 'c) java_env \<Rightarrow> ('p, 'c) quick_action" where
  "ActionJavaTestExplorerInfo env =
     \<lparr>CommandName = CmdFormat ''javatestexplorerinfo'', ShouldEnable = enabled_for_vscode env, IsRelevantDocument = (\<lambda>s. is_java),
      ProcessDocument = ProcessDocument_JavaTestExplorerInfo env, ProvideWorkDoneProgressParams = (\<lambda>args. Ok None)\<rparr>"

definition allActions :: "('p, 'c) java_env \<Rightarrow> ctx \<Rightarrow> ('p, 'c) quick_action list" where
  "allActions env cx = [ActionJavaTestRun env, ActionJavaTestRunCoverage env, ActionJavaBuild env cx, ActionJavaTestExplorer env,
     ActionJavaTestExplorerInfo env, ActionJavaSync env cx]"

subsection \<open>The actions keep the contract of the plugin\<close>

text \<open>
  What the documentation of the engine says of an expression with a number of groups: there is one list of submatches for every
  match, with the match itself before its groups.
\<close>

definition regexp_ok :: "nat \<Rightarrow> regexp \<Rightarrow> bool" where
  "regexp_ok groups re \<longleftrightarrow> (\<forall>text is. snd re text = Some is \<longrightarrow>
     length (fst re text) = length is \<and> (\<forall>m \<in> set (fst re text). length m = Suc groups))"

lemma EditOffsets_no_panic: "EditOffsetsToTextEdits text es \<noteq> Panic"
proof (induction es)
  case (Cons e es)
  have "OffsetPosition text i \<noteq> Panic" for i by (simp add: OffsetPosition_def split: prod.split)
  with Cons show ?case
    by (cases "OffsetPosition text (int (eo_start e))"; cases "OffsetPosition text (int (eo_end e))"; cases "EditOffsetsToTextEdits text es") auto
qed simp

lemma EditOffsets_length: "EditOffsetsToTextEdits text es = Ok rs \<Longrightarrow> length rs = length es"
  by (induction es arbitrary: rs) (auto simp: obind_Ok_iff)

lemma match_results_groups:
  "length ranges = length subs \<Longrightarrow> \<forall>m \<in> set subs. length m = Suc n \<Longrightarrow>
   \<exists>ms. match_results ranges subs = Ok ms \<and> (\<forall>m \<in> set ms. length (CapturingGroups m) = n)"
proof (induction ranges subs rule: list_induct2)
  case (Cons r ranges s subs)
  then obtain ms where "match_results ranges subs = Ok ms" "\<forall>m \<in> set ms. length (CapturingGroups m) = n" by auto
  moreover obtain m groups where "s = m # groups" "length groups = n" using Cons.prems by (cases s) auto
  ultimately show ?case by simp
qed simp

lemma matches_ok:
  assumes "regexp_ok n re"
  obtains ms where "matches_of re str = Ok ms" "\<forall>m \<in> set ms. length (CapturingGroups m) = n"
proof (cases "snd re str")
  case None
  then show ?thesis using that [of "[]"] by (simp add: matches_of_def FindAllStringMatches_def)
next
  case (Some indexes)
  let ?es = "map (\<lambda>(i, j). \<lparr>eo_start = i, eo_end = j, eo_text = []\<rparr>) indexes"
  show ?thesis
  proof (cases "EditOffsetsToTextEdits str ?es")
    case (Ok ranges)
    have "length ranges = length (fst re str)" "\<forall>m \<in> set (fst re str). length m = Suc n"
      using EditOffsets_length [OF Ok] assms Some by (auto simp: regexp_ok_def)
    from match_results_groups [OF this] obtain ms where
      "match_results ranges (fst re str) = Ok ms" "\<forall>m \<in> set ms. length (CapturingGroups m) = n" by blast
    then show ?thesis using that [of ms] Some Ok by (simp add: matches_of_def FindAllStringMatches_def)
  next
    case (Fail e)
    then show ?thesis using that [of "[]"] Some by (simp add: matches_of_def FindAllStringMatches_def)
  qed (simp add: EditOffsets_no_panic)
qed

lemma map_outcome_ok:
  "\<forall>x \<in> set xs. \<exists>y. f x = Ok y \<and> P y \<Longrightarrow> \<exists>ys. map_outcome f xs = Ok ys \<and> list_all P ys"
  by (induction xs) fastforce+

text \<open>A processor that maps the matches of an expression to results the plugin supports.\<close>

lemma processor_ok:
  assumes "regexp_ok n re" and "\<And>m. length (CapturingGroups m) = n \<Longrightarrow> \<exists>r. f m = Ok r \<and> result_ok r"
  shows "\<exists>rs. obind (matches_of re str) (map_outcome f) = Ok rs \<and> list_all result_ok rs"
proof -
  from matches_ok [OF assms(1), of str] obtain ms where ms: "matches_of re str = Ok ms" "\<forall>m \<in> set ms. length (CapturingGroups m) = n" .
  then have "\<forall>m \<in> set ms. \<exists>r. f m = Ok r \<and> result_ok r" using assms(2) by blast
  from map_outcome_ok [OF this] ms(1) show ?thesis by simp
qed

lemmas process_defs = ProcessDocument_JavaBuild_def ProcessDocument_JavaSync_def ProcessDocument_JavaTestRun_def
  ProcessDocument_JavaTestRunCoverage_def ProcessDocument_JavaTestExplorer_def ProcessDocument_JavaTestExplorerInfo_def

lemmas action_defs = ActionJavaBuild_def ActionJavaSync_def ActionJavaTestRun_def ActionJavaTestRunCoverage_def ActionJavaTestExplorer_def
  ActionJavaTestExplorerInfo_def

lemma java_processors_ok:
  assumes "regexp_ok 1 (je_regexpJavaClassHeader env)" and "regexp_ok 2 (je_regexpJavaTest env)" and "x \<in> set (allActions env cx)"
  shows "\<exists>rs. ProcessDocument x doc = Ok rs \<and> list_all result_ok rs"
proof -
  note ok = processor_ok [OF assms(1), where str = "di_Text doc"] processor_ok [OF assms(2), where str = "di_Text doc"]
  note defs = lens_result_def action_result_def NewCodeLens_def NewCodeActionWithRange_def NewCodeAction_def result_ok_def capture_group_def
    test_args_def SupportedCodeActionKinds_def Let_def
  have "\<exists>rs. ProcessDocument_JavaBuild env doc = Ok rs \<and> list_all result_ok rs" unfolding process_defs by (rule ok) (simp add: defs)
  moreover have "\<exists>rs. ProcessDocument_JavaSync env doc = Ok rs \<and> list_all result_ok rs" unfolding process_defs by (rule ok) (simp add: defs)
  moreover have "\<exists>rs. ProcessDocument_JavaTestRun env doc = Ok rs \<and> list_all result_ok rs" unfolding process_defs by (rule ok) (simp add: defs)
  moreover have "\<exists>rs. ProcessDocument_JavaTestRunCoverage env doc = Ok rs \<and> list_all result_ok rs" unfolding process_defs by (rule ok) (simp add: defs)
  moreover have "\<exists>rs. ProcessDocument_JavaTestExplorer env doc = Ok rs \<and> list_all result_ok rs" unfolding process_defs by (rule ok) (simp add: defs)
  moreover have "\<exists>rs. ProcessDocument_JavaTestExplorerInfo env doc = Ok rs \<and> list_all result_ok rs" unfolding process_defs by (rule ok) (simp add: defs)
  ultimately show ?thesis using assms(3) by (auto simp: allActions_def action_defs)
qed
lemma enable_actions_eq:
  "lookup_list (enabledActions (snd (enable_actions s xs cmds c))) (ses_UUID s) =
     lookup_list (enabledActions c) (ses_UUID s) @ filter (\<lambda>x. ShouldEnable x s) xs"
  "fst (enable_actions s xs cmds c) = cmds @ filter (\<lambda>n. n \<noteq> '''') (map CommandName (filter (\<lambda>x. ShouldEnable x s) xs))"
  by (induction xs arbitrary: cmds c) (auto simp: lookup_list_def update_conv')

lemma actions_refresh_ok:
  assumes "GetFromContext sessions cx = Ok s" and "GetTextDocument sessions cx docs d = Ok doc"
    and "actions_ok s doc (lookup_list (enabledActions c) (ses_UUID s))"
  shows "\<exists>c'. refreshAvailableCodeActions sessions docs cx d c = (Ok (), c')"
proof (cases "case map_of (lookup_list (rs_versions (currentActionRanges c)) (ses_UUID s)) d of None \<Rightarrow> True | Some cur \<Rightarrow> cur < di_Version doc")
  case True
  from refresh_new_version [OF assms(1,2) True assms(3)] show ?thesis by blast
next
  case False
  with SetVersion_eq [of "ses_UUID s" d "di_Version doc" "currentActionRanges c"] assms(1,2) show ?thesis
    by (auto simp: refreshAvailableCodeActions_def qa_session_def)
qed

lemma initialize_enables:
  assumes "GetFromContext sessions cx = Ok s" and "qa_initialize sessions xs cx result c0 = (Ok (), result', c)"
    and "lookup_list (enabledActions c0) (ses_UUID s) = []"
  shows "lookup_list (enabledActions c) (ses_UUID s) = filter (\<lambda>x. ShouldEnable x s) xs"
proof -
  from assms(1,2) have "c = snd (enable_actions s xs [] c0)"
    by (auto simp: qa_initialize_def qa_session_def Let_def split: prod.splits outcome.splits)
  with enable_actions_eq(1) [of s xs "[]" c0] assms(3) show ?thesis by simp
qed

text \<open>
  Later states of the plugin: it was initialized for other sessions, handled requests about documents, ran and cancelled commands and
  saw sessions end.
\<close>

inductive qa_later :: "uuid \<Rightarrow> ('p, 'c) quick_actions \<Rightarrow> ('p, 'c) quick_actions \<Rightarrow> bool" for u c where
  refl: "qa_later u c c"
| other: "qa_later u c c1 \<Longrightarrow> ses_UUID s \<noteq> u \<Longrightarrow> qa_later u c (snd (enable_actions s actions cmds c1))"
| refresh: "qa_later u c c1 \<Longrightarrow> qa_later u c (snd (refreshAvailableCodeActions sessions docs cx d c1))"
| close: "qa_later u c c1 \<Longrightarrow> qa_later u c (snd (qa_didClose sessions cx d c1))"
| cancel: "qa_later u c c1 \<Longrightarrow> qa_later u c (qa_cancelPendingCmd token c1)"
| add: "qa_later u c c1 \<Longrightarrow> qa_later u c (executeCommand_add fresh v x args c1)"
| prepare: "qa_later u c c1 \<Longrightarrow> qa_later u c (snd (executeCommand_prepare token v x args c1))"
| run: "qa_later u c c1 \<Longrightarrow> qa_later u c (executeCommand_run run c1)"
| ended: "qa_later u c c1 \<Longrightarrow> qa_later u c (executeCommand_end run c1)"
| session: "qa_later u c c1 \<Longrightarrow> qa_later u c (snd (qa_endSession v c1))"

lemma enable_actions_other: "ses_UUID s \<noteq> u \<Longrightarrow> lookup_list (enabledActions (snd (enable_actions s xs cmds c))) u = lookup_list (enabledActions c) u"
  by (induction xs arbitrary: cmds c) (auto simp: lookup_list_def update_conv')

lemma fold_cancel_enabled: "enabledActions (fold qa_cancelPendingCmd ts c) = enabledActions c"
  by (induction ts arbitrary: c) (simp_all add: qa_cancelPendingCmd_def)

lemma enable_actions_ranges: "currentActionRanges (snd (enable_actions s xs cmds c)) = currentActionRanges c"
  by (induction xs arbitrary: cmds c) auto

lemma qa_later_enabled: "qa_later u c c1 \<Longrightarrow> lookup_list (enabledActions c1) u = lookup_list (enabledActions c) u"
proof (induction rule: qa_later.induct)
  case (refresh c1 sessions docs cx d)
  then show ?case by (auto simp: refreshAvailableCodeActions_def split: outcome.split prod.split)
next
  case (prepare c1 token v x args)
  then show ?case by (auto simp: executeCommand_prepare_def Let_def startWorkDoneProgressMessage_def split: outcome.split option.split)
qed (auto simp: enable_actions_other qa_didClose_def qa_cancelPendingCmd_def executeCommand_add_def executeCommand_run_def executeCommand_end_def
    endWorkDoneProgressMessage_def Let_def qa_endSession_def endSession_delete_def endSession_cancel_def fold_cancel_enabled split: outcome.split)

text \<open>The commands of the lenses of a list of results, and of a processor that makes a lens, or no lens, of every match.\<close>

definition lens_commands :: "action_result list \<Rightarrow> gostring option list" where
  "lens_commands rs = map ol_Command (lenses_of rs)"

lemma lens_commands_append [simp]: "lens_commands (xs @ ys) = lens_commands xs @ lens_commands ys"
  by (simp add: lens_commands_def)

lemma map_outcome_lenses:
  assumes "map_outcome f ms = Ok rs" and "\<forall>m \<in> set ms. \<exists>r. f m = Ok r \<and> lens_commands [r] = cmds"
  shows "lens_commands rs = concat (replicate (length ms) cmds)"
  using assms
proof (induction ms arbitrary: rs)
  case Nil
  then show ?case by (simp add: lens_commands_def)
next
  case (Cons m ms)
  then obtain r rs' where r: "f m = Ok r" "lens_commands [r] = cmds" "map_outcome f ms = Ok rs'" "rs = r # rs'"
    by (auto simp: obind_Ok_iff)
  then have "lens_commands rs = lens_commands ([r] @ rs')" by simp
  with Cons r show ?case by (simp del: append_Cons)
qed

lemma processor_lenses:
  assumes "regexp_ok n re" and "matches_of re str = Ok ms"
    and "\<And>m. length (CapturingGroups m) = n \<Longrightarrow> \<exists>r. f m = Ok r \<and> lens_commands [r] = cmds"
  shows "lens_commands (case obind (matches_of re str) (map_outcome f) of Ok rs \<Rightarrow> rs | _ \<Rightarrow> []) = concat (replicate (length ms) cmds)"
proof -
  from matches_ok [OF assms(1), of str] assms(2) have ms: "\<forall>m \<in> set ms. length (CapturingGroups m) = n" by (metis outcome.inject(1))
  then have "\<forall>m \<in> set ms. \<exists>r. f m = Ok r \<and> True" using assms(3) by blast
  from map_outcome_ok [OF this] obtain rs where "map_outcome f ms = Ok rs" by blast
  with map_outcome_lenses [of f ms rs cmds] ms assms(2,3) show ?thesis by simp
qed

text \<open>The commands of the lenses of a Java document with \<open>hs\<close> class headers and \<open>ts\<close> tests, by the kind of the client.\<close>

definition java_lens_commands :: "bool \<Rightarrow> nat \<Rightarrow> nat \<Rightarrow> gostring option list" where
  "java_lens_commands vscode hs ts =
     (if vscode
      then replicate hs (Some ''ulsp.quick-actions.javabuild'') @ replicate ts (Some ''workbench.view.extension.test'') @
        replicate ts (Some ''ulsp.quick-actions.javatestexplorerinfo'')
      else replicate ts (Some ''ulsp.quick-actions.javatestrun'') @ replicate hs (Some ''ulsp.quick-actions.javabuild'')) @
     replicate hs (Some ''ulsp.quick-actions.javasync'')"

lemma concat_replicate_single: "concat (replicate n [x]) = replicate n x"
  by (induction n) simp_all

lemma java_lenses:
  assumes "regexp_ok 1 (je_regexpJavaClassHeader env)" and "regexp_ok 2 (je_regexpJavaTest env)"
    and "matches_of (je_regexpJavaClassHeader env) (di_Text doc) = Ok hs" and "matches_of (je_regexpJavaTest env) (di_Text doc) = Ok ts"
    and "java_enabled env s" and "client_name env s = Some name" and "is_java doc"
  shows "lens_commands (action_results s doc (filter (\<lambda>x. ShouldEnable x s) (allActions env cx))) =
    java_lens_commands (IsVSCodeBased name) (length hs) (length ts)"
proof -
  note header = processor_lenses [OF assms(1,3)] and test = processor_lenses [OF assms(2,4)]
  note defs = lens_commands_def lens_result_def action_result_def NewCodeLens_def NewCodeActionWithRange_def NewCodeAction_def capture_group_def
    test_args_def Let_def CmdFormat_def
  let ?res = "\<lambda>r. case r of Ok rs \<Rightarrow> rs | _ \<Rightarrow> []"
  have "lens_commands (?res (ProcessDocument_JavaBuild env doc)) = concat (replicate (length hs) [Some ''ulsp.quick-actions.javabuild''])"
    unfolding process_defs by (rule header) (simp add: defs)
  moreover have "lens_commands (?res (ProcessDocument_JavaSync env doc)) = concat (replicate (length hs) [Some ''ulsp.quick-actions.javasync''])"
    unfolding process_defs by (rule header) (simp add: defs)
  moreover have "lens_commands (?res (ProcessDocument_JavaTestRun env doc)) = concat (replicate (length ts) [Some ''ulsp.quick-actions.javatestrun''])"
    unfolding process_defs by (rule test) (simp add: defs)
  moreover have "lens_commands (?res (ProcessDocument_JavaTestRunCoverage env doc)) = concat (replicate (length ts) [])"
    unfolding process_defs by (rule test) (simp add: defs)
  moreover have "lens_commands (?res (ProcessDocument_JavaTestExplorer env doc)) = concat (replicate (length ts) [Some ''workbench.view.extension.test''])"
    unfolding process_defs by (rule test) (simp add: defs)
  moreover have "lens_commands (?res (ProcessDocument_JavaTestExplorerInfo env doc)) =
      concat (replicate (length ts) [Some ''ulsp.quick-actions.javatestexplorerinfo''])"
    unfolding process_defs by (rule test) (simp add: defs)
  moreover have "lens_commands (action_results s doc []) = []" by (simp add: action_results_def lens_commands_def)
  ultimately show ?thesis
    using assms(5-7) by (simp add: allActions_def action_defs enabled_for_others_def enabled_for_vscode_def action_results_Cons concat_replicate_single
        concat_replicate_trivial java_lens_commands_def)
qed

text \<open>
  C24. The actions that are offered. With an engine that behaves as documented, let the plugin be initialized for a session with the
  actions of the repository. The commands that are announced have different names, and in every later state every refresh for a document of the
  session succeeds. In a repository with Java and for a client that gave its name, the first refresh for a version of a Java document leaves exactly
  these lenses: building and syncing for every class header, and for every test the test explorer and its explanation if the client is based on VS Code, and the lens
  that runs the test otherwise, so never both.
\<close>

theorem java_actions_serve:
  assumes "regexp_ok 1 (je_regexpJavaClassHeader env)" and "regexp_ok 2 (je_regexpJavaTest env)"
    and "GetFromContext sessions cx = Ok s" and "qa_initialize sessions (allActions env cx) cx result c0 = (Ok (), result', c)"
    and "lookup_list (enabledActions c0) (ses_UUID s) = []" and "qa_later (ses_UUID s) c c1" and "GetTextDocument sessions cx docs d = Ok doc"
  shows "distinct (fst (enable_actions s (allActions env cx) [] c0)) \<and>
    (\<exists>c'. refreshAvailableCodeActions sessions docs cx d c1 = (Ok (), c') \<and>
      (java_enabled env s \<and> client_name env s = Some name \<and> is_java doc \<and>
       matches_of (je_regexpJavaClassHeader env) (di_Text doc) = Ok hs \<and> matches_of (je_regexpJavaTest env) (di_Text doc) = Ok ts \<and>
       (case map_of (lookup_list (rs_versions (currentActionRanges c1)) (ses_UUID s)) d of None \<Rightarrow> True | Some cur \<Rightarrow> cur < di_Version doc) \<longrightarrow>
         map ol_Command (GetCodeLenses (ses_UUID s) d (currentActionRanges c')) =
           java_lens_commands (IsVSCodeBased name) (length hs) (length ts)))"
proof
  show "distinct (fst (enable_actions s (allActions env cx) [] c0))"
    by (simp add: enable_actions_eq(2)) (simp add: allActions_def action_defs CmdFormat_def)
  have enabled: "lookup_list (enabledActions c1) (ses_UUID s) = filter (\<lambda>x. ShouldEnable x s) (allActions env cx)"
    using initialize_enables [OF assms(3,4,5)] qa_later_enabled [OF assms(6)] by simp
  have ok: "actions_ok s doc (lookup_list (enabledActions c1) (ses_UUID s))"
    unfolding enabled actions_ok_def list_all_iff
  proof (intro ballI impI)
    fix x
    assume "x \<in> set (filter (\<lambda>x. ShouldEnable x s) (allActions env cx))"
    then have "x \<in> set (allActions env cx)" by simp
    from java_processors_ok [OF assms(1,2) this, of doc]
    show "case ProcessDocument x doc of Ok rs \<Rightarrow> \<forall>r \<in> set rs. result_ok r | _ \<Rightarrow> False" by (auto simp: list_all_iff)
  qed
  let ?new = "case map_of (lookup_list (rs_versions (currentActionRanges c1)) (ses_UUID s)) d of None \<Rightarrow> True | Some cur \<Rightarrow> cur < di_Version doc"
  obtain c' where c': "refreshAvailableCodeActions sessions docs cx d c1 = (Ok (), c')"
    using actions_refresh_ok [OF assms(3,7) ok] by blast
  have "GetCodeLenses (ses_UUID s) d (currentActionRanges c') =
      lenses_of (action_results s doc (filter (\<lambda>x. ShouldEnable x s) (allActions env cx)))" if ?new
    using refresh_new_version [OF assms(3,7) that ok] c' unfolding enabled by auto
  with java_lenses [OF assms(1,2), unfolded lens_commands_def] c'
  show "\<exists>c'. refreshAvailableCodeActions sessions docs cx d c1 = (Ok (), c') \<and>
      (java_enabled env s \<and> client_name env s = Some name \<and> is_java doc \<and>
       matches_of (je_regexpJavaClassHeader env) (di_Text doc) = Ok hs \<and> matches_of (je_regexpJavaTest env) (di_Text doc) = Ok ts \<and> ?new \<longrightarrow>
         map ol_Command (GetCodeLenses (ses_UUID s) d (currentActionRanges c')) =
           java_lens_commands (IsVSCodeBased name) (length hs) (length ts))"
    by (intro exI [of _ c']) simp
qed

text \<open>
  A client that does not give its name. The protocol makes the name optional, and the build action is offered without it, but running
  it reads the name through a nil pointer: the command panics before anything is logged or run.
\<close>

theorem build_without_client_name_panics:
  assumes "GetFromContext (je_sessions env) cx = Ok s" and "java_enabled env s" and "client_name env s = None"
    and "je_Unmarshal env args = Ok a" and "je_GetLogMessageWriter env cx = Ok ()"
    and "je_GetJavaTarget env (ses_WorkspaceRoot s) (ja_URI a) = Ok target"
  shows "ShouldEnable (ActionJavaBuild env cx) s \<and> Execute_JavaBuild env cx args = (Panic, []) \<and>
    ShouldEnable (ActionJavaTestRunCoverage env) s \<and> Execute_JavaTestRunCoverage env cx args = (Panic, [])"
  using assms
  by (simp add: action_defs Execute_JavaBuild_def Execute_JavaTestRunCoverage_def prepare_test_def java_execute_def client_info_name_def)

text \<open>
  What a successful run does: it logs the command, runs it once in the workspace root with both roots in its environment, and reports
  the end.
\<close>

lemma java_execute_ok:
  assumes "java_execute env start_message prepare finish cx args = (Ok (), calls)"
  shows "\<exists>s a cmd. GetFromContext (je_sessions env) cx = Ok s \<and> prepare s a = Ok cmd \<and>
    calls = [JaLog (start_message (strings_Join (oc_Args cmd) '' '')), JaRun cmd, JaWrite ''Command completed''] @
      (case finish a of None \<Rightarrow> [] | Some m \<Rightarrow> [JaShow m])"
proof -
  from assms obtain s a cmd where "GetFromContext (je_sessions env) cx = Ok s" "prepare s a = Ok cmd"
    "calls = [JaLog (start_message (strings_Join (oc_Args cmd) '' '')), JaRun cmd, JaWrite ''Command completed''] @
      (case finish a of None \<Rightarrow> [] | Some m \<Rightarrow> [JaShow m])"
    by (auto simp: java_execute_def Let_def obind_Ok_iff split: outcome.splits option.splits)
  then show ?thesis by blast
qed

lemma build_runs_once:
  assumes "Execute_JavaBuild env cx args = (Ok (), calls)"
  shows "\<exists>s target name cmd message. GetFromContext (je_sessions env) cx = Ok s \<and> cmd = prepare_JavaBuild env (ses_WorkspaceRoot s) target name \<and>
    calls = [JaLog message, JaRun cmd, JaWrite ''Command completed''] \<and> oc_Dir cmd = ses_WorkspaceRoot s \<and>
    ''WORKSPACE_ROOT='' @ ses_WorkspaceRoot s \<in> set (oc_Env cmd)"
proof -
  have "oc_Dir (prepare_JavaBuild env root target name) = root \<and> ''WORKSPACE_ROOT='' @ root \<in> set (oc_Env (prepare_JavaBuild env root target name))"
    for root target name by (simp add: prepare_JavaBuild_def workspace_command_def)
  with java_execute_ok [OF assms [unfolded Execute_JavaBuild_def]] show ?thesis by (auto simp: obind_Ok_iff)
qed

text \<open>As with the search for build files, a sibling of the root is taken for a file below it, and its path stays absolute.\<close>

lemma sibling_path_stays_absolute:
  assumes "prefix root (je_Filename env u)" and "\<not> prefix (root @ ''/'') (je_Filename env u)"
  shows "getRelativeFilePath env root u = Ok (je_Filename env u)"
  using assms by (simp add: getRelativeFilePath_def TrimPrefix_def Let_def)

subsection \<open>Witnesses\<close>

definition no_match :: regexp where
  "no_match = ((\<lambda>s. []), (\<lambda>s. None))"

definition sample_java :: "(unit, unit) java_env" where
  "sample_java = \<lparr>je_sessions = sample_sessions, je_configs = [('''', \<lparr>mc_Languages = [''java'']\<rparr>)], je_clientName = (\<lambda>p. None),
     je_regexpJavaClassHeader = ((\<lambda>s. [[''class A'', ''A'']]), (\<lambda>s. Some [(0, 0)])), je_regexpJavaTest = no_match,
     je_Unmarshal = (\<lambda>a. Ok no_args), je_Filename = (\<lambda>u. u), je_GetJavaTarget = (\<lambda>r u. Ok ''t''), je_Environ = [],
     je_GetLogMessageWriter = (\<lambda>cx. Ok ()), je_LogMessage = (\<lambda>m. Ok ()), je_RunCommand = (\<lambda>c. Ok ()), je_Write = (\<lambda>m. Ok ()),
     je_ShowMessage = (\<lambda>m. Ok ())\<rparr>"

theorem build_without_client_name_panics_witness: "Execute_JavaBuild sample_java (Some ''u'') ''{}'' = (Panic, [])"
proof -
  have "java_enabled sample_java sample_session" "client_name sample_java sample_session = None"
    by (simp_all add: java_enabled_def client_name_def sample_java_def config_of_def sample_session_def UUIDToSession_def EnableJavaSupport_def)
  then show ?thesis
    using build_without_client_name_panics [of sample_java "Some ''u''" sample_session "''{}''" no_args "''t''"] sample_from_context
    by (simp add: sample_java_def)
qed

text \<open>A Java document with one class and one test, and an editor that is not based on VS Code.\<close>

definition java_session :: "(unit, unit) session" where
  "java_session = sample_session\<lparr>ses_InitializeParams := Some ()\<rparr>"

definition java_sessions :: "(unit, unit) repository" where
  "java_sessions = snd (SetSession NewSessionRepository (Some java_session))"

definition java_item :: doc_item where
  "java_item = \<lparr>di_URI = ''a'', di_LanguageID = ''java'', di_Version = 1, di_Text = ''class A''\<rparr>"

definition java_sync :: doc_sync where
  "java_sync = snd (didOpen java_sessions (Some ''u'') (snd (initialize java_sessions (Some ''u'') start_sync)) java_item)"

definition named_java :: "(unit, unit) java_env" where
  "named_java = sample_java\<lparr>je_clientName := (\<lambda>p. Some ''vim''), je_regexpJavaTest := ((\<lambda>s. [[''t A'', ''t'', ''A'']]), (\<lambda>s. Some [(0, 0)]))\<rparr>"

definition java_actions :: "(unit, unit) quick_actions" where
  "java_actions = snd (snd (qa_initialize java_sessions (allActions named_java (Some ''u'')) (Some ''u'') (no_capabilities :: unit capabilities) NewQuickActions))"

lemma java_from_context: "GetFromContext java_sessions (Some ''u'') = Ok java_session" "session_uuid java_sessions (Some ''u'') = Ok ''u''"
  by (simp_all add: session_uuid_def GetFromContext_def ContextToSessionUUID_def java_sessions_def GetSession_Set java_session_def
      sample_session_def UUIDToSession_def)

lemma java_document: "GetTextDocument java_sessions (Some ''u'') java_sync ''a'' = Ok java_item"
  by (simp add: GetTextDocument_def getDocumentStoreEntry_def java_sync_def didOpen_def initialize_def with_session_def java_from_context
      start_sync_def validateSize_def java_item_def put_entry_def newDocumentStoreEntry_def)

lemma java_matches:
  "\<exists>h. matches_of (je_regexpJavaClassHeader named_java) (di_Text java_item) = Ok [h]"
  "\<exists>t. matches_of (je_regexpJavaTest named_java) (di_Text java_item) = Ok [t]"
proof -
  have "OffsetPosition ''class A'' 0 = Ok \<lparr>Line = 0, Character = 0\<rparr>"
    by (simp add: initLines_def OffsetPosition_def lineCol16_def line_of_def sort_search.simps)
  then show "\<exists>h. matches_of (je_regexpJavaClassHeader named_java) (di_Text java_item) = Ok [h]"
    "\<exists>t. matches_of (je_regexpJavaTest named_java) (di_Text java_item) = Ok [t]"
    by (simp_all add: named_java_def sample_java_def java_item_def matches_of_def FindAllStringMatches_def)
qed

theorem java_actions_serve_witness:
  "\<exists>c'. refreshAvailableCodeActions java_sessions java_sync (Some ''u'') ''a'' (qa_cancelPendingCmd ''tok'' java_actions) = (Ok (), c') \<and>
     map ol_Command (GetCodeLenses ''u'' ''a'' (currentActionRanges c')) =
       [Some ''ulsp.quick-actions.javatestrun'', Some ''ulsp.quick-actions.javabuild'', Some ''ulsp.quick-actions.javasync'']"
proof -
  let ?cx = "Some ''u''" and ?c1 = "qa_cancelPendingCmd ''tok'' java_actions"
  have re: "regexp_ok 1 (je_regexpJavaClassHeader named_java)" "regexp_ok 2 (je_regexpJavaTest named_java)"
    by (simp_all add: regexp_ok_def named_java_def sample_java_def)
  have "fst (qa_initialize java_sessions (allActions named_java ?cx) ?cx (no_capabilities :: unit capabilities) NewQuickActions) = Ok ()"
    by (simp add: qa_initialize_def qa_session_def java_from_context no_capabilities_def InitializeResultAppendCodeActionProvider_def
        InitializeResultEnsureCodeLensProvider_def InitializeResultAppendExecuteCommandProvider_def Let_def split: prod.split)
  then obtain result where init: "qa_initialize java_sessions (allActions named_java ?cx) ?cx (no_capabilities :: unit capabilities) NewQuickActions =
      (Ok (), result, java_actions)" by (metis java_actions_def prod.collapse)
  have none: "lookup_list (enabledActions NewQuickActions) (ses_UUID java_session) = []" by (simp add: NewQuickActions_def lookup_list_def)
  have later: "qa_later (ses_UUID java_session) java_actions ?c1" by (rule qa_later.cancel [OF qa_later.refl])
  obtain h t where ms: "matches_of (je_regexpJavaClassHeader named_java) (di_Text java_item) = Ok [h]"
    "matches_of (je_regexpJavaTest named_java) (di_Text java_item) = Ok [t]" using java_matches by blast
  have "java_actions = snd (enable_actions java_session (allActions named_java ?cx) [] NewQuickActions)"
    using init by (auto simp: qa_initialize_def qa_session_def java_from_context Let_def split: prod.splits outcome.splits)
  from arg_cong [OF this, of currentActionRanges] have
    "currentActionRanges java_actions = currentActionRanges (NewQuickActions :: (unit, unit) quick_actions)" unfolding enable_actions_ranges .
  then have "currentActionRanges java_actions = newActionRangeStore" by (simp add: NewQuickActions_def)
  then have new: "map_of (lookup_list (rs_versions (currentActionRanges ?c1)) (ses_UUID java_session)) ''a'' = None"
    by (simp add: qa_cancelPendingCmd_def newActionRangeStore_def lookup_list_def)
  have java: "java_enabled named_java java_session" "client_name named_java java_session = Some ''vim''" "is_java java_item" "ses_UUID java_session = ''u''"
    by (simp_all add: java_enabled_def client_name_def named_java_def sample_java_def config_of_def java_session_def sample_session_def
        UUIDToSession_def EnableJavaSupport_def is_java_def java_item_def)
  from java_actions_serve [OF re java_from_context(1) init none later java_document, of "''vim''" "[h]" "[t]"] ms new java
  obtain c' where "refreshAvailableCodeActions java_sessions java_sync ?cx ''a'' ?c1 = (Ok (), c')"
    "map ol_Command (GetCodeLenses ''u'' ''a'' (currentActionRanges c')) = java_lens_commands (IsVSCodeBased ''vim'') 1 1"
    by auto
  then show ?thesis by (simp add: java_lens_commands_def IsVSCodeBased_def)
qed

end
