(* ===== verification/Transport.thy ===== *)
theory Transport
  imports DaemonSpec GoStrings
begin

text \<open>
  The edge of the server: the JSON-RPC listener (\<^verbatim>\<open>internal/jsonrpcfx/json_rpc.go\<close>), the file with its addresses
  (\<^verbatim>\<open>internal/serverinfofile/server_info_file.go\<close>, \<^verbatim>\<open>handler/server_info.go\<close>), the executor of commands (\<^verbatim>\<open>internal/executor\<close>)
  and the writer of log files (\<^verbatim>\<open>internal/logfilewriter\<close>). The interface between the listener and the daemon is the locale
  \<open>connection_manager\<close>; the daemon is its interpretation.
\<close>

subsection \<open>The server info file\<close>

record info_file =
  if_infofile :: gostring
  if_fileContents :: "(gostring \<times> gostring) list"
  if_disk :: "gostring option"

text \<open>A field of the configuration that must not be empty.\<close>

definition required_field :: "gostring \<Rightarrow> gostring outcome \<Rightarrow> gostring outcome" where
  "required_field key populate =
     obind (wrap_err (Errorf ''getting config field %q: %w'' [FStr key]) populate) (\<lambda>v.
       if v = '''' then Fail (Errorf ''missing field %q in config'' [FStr key]) else Ok v)"

definition NewServerInfoFile :: "gostring outcome \<Rightarrow> gostring option \<Rightarrow> info_file outcome" where
  "NewServerInfoFile populate disk =
     obind (required_field ''serverInfoFilePath'' populate) (\<lambda>path.
       Ok \<lparr>if_infofile = path, if_fileContents = [], if_disk = disk\<rparr>)"

text \<open>
  \<open>marshal\<close> is \<^verbatim>\<open>json.Marshal\<close>; \<open>writing\<close> is the result of writing the file, with what the file holds afterwards if it fails, since it is
  truncated first.
\<close>

definition UpdateField ::
  "((gostring \<times> gostring) list \<Rightarrow> gostring outcome) \<Rightarrow> unit outcome \<times> gostring option \<Rightarrow> gostring \<Rightarrow> gostring \<Rightarrow> info_file \<Rightarrow>
   unit outcome \<times> info_file" where
  "UpdateField marshal writing key val m =
     (let m = m\<lparr>if_fileContents := AList.update key val (if_fileContents m)\<rparr>
      in case wrap_err (Errorf ''marshalling json: %w'' []) (marshal (if_fileContents m)) of
           Ok jsonOutput \<Rightarrow>
             (case wrap_err (Errorf ''creating info file: %w'' []) (fst writing) of
                Ok _ \<Rightarrow> (Ok (), m\<lparr>if_disk := Some jsonOutput\<rparr>)
              | r \<Rightarrow> (r, m\<lparr>if_disk := snd writing\<rparr>))
         | Fail e \<Rightarrow> (Fail e, m)
         | Panic \<Rightarrow> (Panic, m))"

text \<open>Removing a file that does not exist is an error.\<close>

definition OnStop_infofile :: "go_error \<Rightarrow> info_file \<Rightarrow> unit outcome \<times> info_file" where
  "OnStop_infofile notExist m =
     (if if_infofile m = '''' then (Ok (), m)
      else case if_disk m of
          None \<Rightarrow> (Fail notExist, m)
        | Some _ \<Rightarrow> (Ok (), m\<lparr>if_disk := None\<rparr>))"

text \<open>The block of the configuration with the inbounds; any other value fails the type assertions. A missing key is such a value too.\<close>

datatype cfg_value = CfgString gostring | CfgMap "(gostring \<times> cfg_value) list" | CfgOther

definition cfg_entry :: "gostring \<Rightarrow> (gostring \<times> cfg_value) list \<Rightarrow> cfg_value" where
  "cfg_entry key m = (case map_of m key of None \<Rightarrow> CfgOther | Some v \<Rightarrow> v)"

definition invalid_entry :: "gostring \<Rightarrow> go_error" where
  "invalid_entry key = Errorf ''type error or missing field for key %q'' [FStr key]"

fun output_inbounds ::
  "(gostring \<Rightarrow> gostring \<Rightarrow> info_file \<Rightarrow> unit outcome \<times> info_file) \<Rightarrow> (gostring \<times> cfg_value) list \<Rightarrow> info_file \<Rightarrow> unit outcome \<times> info_file" where
  "output_inbounds update [] m = (Ok (), m)"
| "output_inbounds update ((currentKey, currentInboundRaw) # rest) m =
     (case currentInboundRaw of
        CfgMap currentInboundValue \<Rightarrow>
          (case cfg_entry ''address'' currentInboundValue of
             CfgString address \<Rightarrow>
               (case update (currentKey @ ''-address'') address m of
                  (Ok _, m') \<Rightarrow> output_inbounds update rest m'
                | (Fail e, m') \<Rightarrow> (Fail (Join (Errorf ''outputting %q address to info file: %w'' [FStr currentKey]) e), m')
                | (Panic, m') \<Rightarrow> (Panic, m'))
           | _ \<Rightarrow> (Fail (invalid_entry ''address''), m))
      | _ \<Rightarrow> (Fail (invalid_entry currentKey), m))"

text \<open>\<open>populate\<close> reads the block of the configuration; the entries come in the order in which Go ranges over them.\<close>

definition outputYARPCConnectionInfo ::
  "(gostring \<Rightarrow> gostring \<Rightarrow> info_file \<Rightarrow> unit outcome \<times> info_file) \<Rightarrow> (gostring \<times> cfg_value) list outcome \<Rightarrow> info_file \<Rightarrow> unit outcome \<times> info_file" where
  "outputYARPCConnectionInfo update populate m =
     (case populate of
        Fail e \<Rightarrow> (Fail (Join (Errorf ''loading yarpc config: %v'' []) e), m)
      | Panic \<Rightarrow> (Panic, m)
      | Ok cfgData \<Rightarrow>
          (case cfg_entry ''inbounds'' cfgData of
             CfgMap inbounds \<Rightarrow> output_inbounds update inbounds m
           | _ \<Rightarrow> (Fail (invalid_entry ''inbounds''), m)))"

subsection \<open>Connections\<close>

text \<open>
  The listener. Of the connection manager it keeps whether one is registered: the manager is the daemon. \<^verbatim>\<open>ServeStream\<close> runs
  once per connection and blocks until it is closed, so it is split there: \<open>tr_serving\<close> are the streams that are blocked.
\<close>

record jsonrpc_module =
  jm_Address :: gostring
  jm_connectionMgr :: bool
  jm_ln :: bool

record ('p, 'r, 'w, 'c) transport =
  tr_module :: jsonrpc_module
  tr_daemon :: "('p, 'r, 'w, 'c) daemon"
  tr_serving :: "uuid list"

definition NewJSONRPC :: "gostring outcome \<Rightarrow> jsonrpc_module outcome" where
  "NewJSONRPC populate =
     obind (required_field ''jsonrpc.address'' populate) (\<lambda>address. Ok \<lparr>jm_Address = address, jm_connectionMgr = False, jm_ln = False\<rparr>)"

definition RegisterConnectionManager :: "jsonrpc_module \<Rightarrow> unit outcome \<times> jsonrpc_module" where
  "RegisterConnectionManager m =
     (if jm_connectionMgr m then (Fail (Errorf ''cannot register a duplicate connection manager'' []), m)
      else (Ok (), m\<lparr>jm_connectionMgr := True\<rparr>))"

text \<open>\<open>listen\<close> resolves the address and opens the listener.\<close>

definition jsonrpc_setup :: "(gostring \<Rightarrow> unit outcome) \<Rightarrow> jsonrpc_module \<Rightarrow> unit outcome \<times> jsonrpc_module" where
  "jsonrpc_setup listen m =
     (if jm_Address m = '''' then (Fail (Errorf ''setup called before address is set'' []), m)
      else case listen (jm_Address m) of
          Ok _ \<Rightarrow> (Ok (), m\<lparr>jm_ln := True\<rparr>)
        | r \<Rightarrow> (r, m))"

text \<open>The goroutine that serves: an error of the info file or of the listener ends the process.\<close>

definition jsonrpc_start ::
  "(gostring \<Rightarrow> gostring \<Rightarrow> info_file \<Rightarrow> unit outcome \<times> info_file) \<Rightarrow> unit outcome \<Rightarrow> jsonrpc_module \<Rightarrow> info_file \<Rightarrow> unit outcome \<times> info_file" where
  "jsonrpc_start update serve m f =
     (case update ''lsp-address'' (jm_Address m) f of
        (Ok _, f') \<Rightarrow> (if serve = Ok () then Ok () else Panic, f')
      | (_, f') \<Rightarrow> (Panic, f'))"

definition ServeStream_begin ::
  "('p, 'r) daemon_env \<Rightarrow> uuid outcome \<Rightarrow> 'c option \<Rightarrow> ('p, 'r, 'w, 'c) transport \<Rightarrow> uuid outcome \<times> ('p, 'r, 'w, 'c) transport" where
  "ServeStream_begin env newUUID conn t =
     (if \<not> jm_connectionMgr (tr_module t) then (Fail (Errorf ''cannot serve connection, no connection manager set'' []), t)
      else case NewConnection env newUUID (tr_daemon t) conn of
          (Ok u, c) \<Rightarrow> (Ok u, t\<lparr>tr_daemon := c, tr_serving := u # tr_serving t\<rparr>)
        | (r, c) \<Rightarrow> (r, t\<lparr>tr_daemon := c\<rparr>))"

text \<open>After \<^verbatim>\<open>conn.Done()\<close>; \<open>err\<close> is \<^verbatim>\<open>conn.Err()\<close>.\<close>

definition ServeStream_end ::
  "('p, 'r) daemon_env \<Rightarrow> unit outcome \<Rightarrow> uuid \<Rightarrow> ('p, 'r, 'w, 'c) transport \<Rightarrow> unit outcome \<times> ('p, 'r, 'w, 'c) transport" where
  "ServeStream_end env err u t =
     (case RemoveConnection env (tr_daemon t) u of
        (r, c) \<Rightarrow> (if r = Panic then Panic else err, t\<lparr>tr_daemon := c, tr_serving := remove1 u (tr_serving t)\<rparr>))"

subsection \<open>Commands\<close>

text \<open>A command with what can be read from its standard input; \<open>None\<close> is no input.\<close>

record exec_cmd =
  ec_Args :: "gostring list"
  ec_Dir :: gostring
  ec_Stdin :: "gostring outcome option"
  ec_Env :: "gostring list"

text \<open>\<^verbatim>\<open>logCommand\<close> reads the input to log it and puts a reader of the same bytes in its place; the slice of the arguments panics when there are none.\<close>

definition logCommand :: "exec_cmd \<Rightarrow> exec_cmd outcome" where
  "logCommand cmd =
     (if ec_Args cmd = [] then Panic
      else case ec_Stdin cmd of
          None \<Rightarrow> Ok cmd
        | Some input \<Rightarrow> obind input (\<lambda>stdinBytes. Ok (cmd\<lparr>ec_Stdin := Some (Ok stdinBytes)\<rparr>)))"

text \<open>\<open>run\<close> is \<^verbatim>\<open>ExecFunc\<close>, which may be nil.\<close>

definition RunCommand :: "(exec_cmd \<Rightarrow> unit outcome) option \<Rightarrow> exec_cmd \<Rightarrow> gostring list \<Rightarrow> unit outcome" where
  "RunCommand run cmd env =
     obind (logCommand cmd) (\<lambda>cmd. case run of None \<Rightarrow> Ok () | Some f \<Rightarrow> f (cmd\<lparr>ec_Env := env\<rparr>))"

text \<open>Output, error output, exit code and error; the exit code of a command that did not start is -1.\<close>

definition RunCaptured ::
  "(exec_cmd \<Rightarrow> gostring \<times> gostring \<times> int option \<times> go_error option) option \<Rightarrow> exec_cmd \<Rightarrow> (gostring \<times> gostring \<times> int \<times> go_error option) outcome" where
  "RunCaptured run cmd =
     (case logCommand cmd of
        Panic \<Rightarrow> Panic
      | Fail e \<Rightarrow> Ok ('''', '''', -1, Some e)
      | Ok cmd \<Rightarrow>
          (case run of
             None \<Rightarrow> Ok ('''', '''', 0, None)
           | Some f \<Rightarrow> (case f cmd of (stdout, stderr, state, err) \<Rightarrow>
               Ok (stdout, stderr, (case state of None \<Rightarrow> -1 | Some code \<Rightarrow> code), err))))"

subsection \<open>Log files\<close>

text \<open>The lines that are logged, and the number of bytes that is returned.\<close>

definition loggerWriter_Write :: "gostring \<Rightarrow> gostring list \<times> nat" where
  "loggerWriter_Write p = (filter (\<lambda>line. line \<noteq> '''') (strings_Split p (CHR 0x0A)), length p)"

text \<open>The path of the new file is registered in the server info file; the error of that is not looked at.\<close>

definition SetupOutputWriter ::
  "(gostring \<Rightarrow> gostring \<Rightarrow> info_file \<Rightarrow> unit outcome \<times> info_file) \<Rightarrow> (gostring \<Rightarrow> unit outcome) \<Rightarrow> (gostring \<Rightarrow> gostring outcome) \<Rightarrow>
   gostring \<Rightarrow> gostring \<Rightarrow> info_file \<Rightarrow> gostring outcome \<times> info_file" where
  "SetupOutputWriter update MkdirAll TempFile tempDir name m =
     (let logsDirPath = path_Join [tempDir, name]
      in case obind (MkdirAll logsDirPath) (\<lambda>_. TempFile logsDirPath) of
           Ok logFile \<Rightarrow>
             (case update (''output:'' @ name) logFile m of (Panic, m') \<Rightarrow> (Panic, m') | (_, m') \<Rightarrow> (Ok logFile, m'))
         | Fail e \<Rightarrow> (Fail e, m)
         | Panic \<Rightarrow> (Panic, m))"

section \<open>What it guarantees\<close>

subsection \<open>The info file holds the last value of every field\<close>

lemma UpdateField_contents [simp]:
  "if_fileContents (snd (UpdateField marshal writing key val m)) = AList.update key val (if_fileContents m)"
  "if_infofile (snd (UpdateField marshal writing key val m)) = if_infofile m"
  by (auto simp: UpdateField_def Let_def split: outcome.split)

interpretation info: keyed_store "\<lambda>m. True" "\<lambda>k. True" "\<lambda>m. map_of (if_fileContents m)" "\<lambda>w key val m. snd (UpdateField marshal w key val m)"
  for marshal
  by unfold_locales (simp_all add: update_conv')

lemma UpdateField_Ok:
  "UpdateField marshal writing key val m = (Ok (), m') \<Longrightarrow> marshal (if_fileContents m') = Ok out \<Longrightarrow> if_disk m' = Some out"
  by (auto simp: UpdateField_def Let_def split: outcome.splits)

text \<open>An inbound that is written to the file: its name and its address.\<close>

fun inbound_address :: "gostring \<times> cfg_value \<Rightarrow> (gostring \<times> gostring) option" where
  "inbound_address (name, CfgMap m) = (case cfg_entry ''address'' m of CfgString a \<Rightarrow> Some (name @ ''-address'', a) | _ \<Rightarrow> None)"
| "inbound_address (name, _) = None"

lemma output_inbounds_fields:
  assumes "output_inbounds (UpdateField marshal writing) inbounds m = (Ok (), m')"
  shows "(\<forall>i \<in> set inbounds. inbound_address i \<noteq> None) \<and>
    map_of (if_fileContents m') k = (case map_of (rev (List.map_filter inbound_address inbounds)) k of Some a \<Rightarrow> Some a | None \<Rightarrow> map_of (if_fileContents m) k) \<and>
    (inbounds \<noteq> [] \<longrightarrow> (\<forall>out. marshal (if_fileContents m') = Ok out \<longrightarrow> if_disk m' = Some out))"
  using assms
proof (induction inbounds arbitrary: m)
  case (Cons i inbounds)
  obtain name v where i: "i = (name, v)" by (cases i)
  from Cons.prems i obtain val a m1 where v: "v = CfgMap val" "cfg_entry ''address'' val = CfgString a"
    and up: "UpdateField marshal writing (name @ ''-address'') a m = (Ok (), m1)"
    and rest: "output_inbounds (UpdateField marshal writing) inbounds m1 = (Ok (), m')"
    by (auto split: cfg_value.splits outcome.splits prod.splits)
  have m1: "if_fileContents m1 = AList.update (name @ ''-address'') a (if_fileContents m)"
    using UpdateField_contents(1) [of marshal writing "name @ ''-address''" a m] up by simp
  have "marshal (if_fileContents m') = Ok out \<longrightarrow> if_disk m' = Some out" for out
  proof (cases inbounds)
    case Nil
    with rest UpdateField_Ok [OF up] show ?thesis by simp
  qed (use Cons.IH [OF rest] in \<open>simp\<close>)
  moreover have "map_of (if_fileContents m1) k = (if k = name @ ''-address'' then Some a else map_of (if_fileContents m) k)"
    by (simp add: m1 update_conv')
  ultimately show ?case
    using Cons.IH [OF rest] i v by (auto simp: map_filter_simps map_add_def split: option.splits)
qed (simp add: map_filter_simps)
text \<open>
  The addresses of the server. When the inbounds of the configuration and then the address of the listener have been written
  to the info file without an error, every inbound had an address, the file has a field for each of them and one for the listener,
  and the file on disk is the encoding of these fields.
\<close>

theorem addresses_published:
  assumes "outputYARPCConnectionInfo (UpdateField marshal writing) (Ok cfgData) f = (Ok (), f1)"
    and "jsonrpc_start (UpdateField marshal writing) serve m f1 = (Ok (), f2)"
    and "marshal (if_fileContents f2) = Ok out"
  shows "\<exists>inbounds. cfg_entry ''inbounds'' cfgData = CfgMap inbounds \<and> if_disk f2 = Some out \<and>
    map_of (if_fileContents f2) ''lsp-address'' = Some (jm_Address m) \<and>
    (\<forall>(name, v) \<in> set inbounds. inbound_address (name, v) \<noteq> None) \<and>
    (\<forall>k. k \<noteq> ''lsp-address'' \<longrightarrow> map_of (if_fileContents f2) k =
       (case map_of (rev (List.map_filter inbound_address inbounds)) k of Some a \<Rightarrow> Some a | None \<Rightarrow> map_of (if_fileContents f) k))"
proof -
  obtain inbounds where inb: "cfg_entry ''inbounds'' cfgData = CfgMap inbounds"
      "output_inbounds (UpdateField marshal writing) inbounds f = (Ok (), f1)"
    using assms(1) by (auto simp: outputYARPCConnectionInfo_def split: cfg_value.splits)
  have up: "UpdateField marshal writing ''lsp-address'' (jm_Address m) f1 = (Ok (), f2)"
    using assms(2) by (auto simp: jsonrpc_start_def split: outcome.splits prod.splits if_splits)
  then have f2: "if_fileContents f2 = AList.update ''lsp-address'' (jm_Address m) (if_fileContents f1)"
    using UpdateField_contents(1) [of marshal writing "''lsp-address''" "jm_Address m" f1] by simp
  show ?thesis
    using inb(1) output_inbounds_fields [OF inb(2)] UpdateField_Ok [OF up assms(3)] by (auto simp: f2 update_conv')
qed

subsection \<open>Every session belongs to a connection\<close>

text \<open>
  What the listener relies on: accepting a connection adds at most its own session, a request adds none, and removing a connection
  removes its session.
\<close>

locale connection_manager =
  fixes inv :: "'s \<Rightarrow> bool" and sessions :: "'s \<Rightarrow> 'u set"
    and connect :: "'i \<Rightarrow> 's \<Rightarrow> 'u outcome \<times> 's" and handle :: "'q \<Rightarrow> 's \<Rightarrow> 's" and remove :: "'u \<Rightarrow> 's \<Rightarrow> 's"
  assumes connect_inv: "inv s \<Longrightarrow> connect i s = (r, s') \<Longrightarrow> r \<noteq> Panic \<Longrightarrow> inv s'"
    and connect_sessions: "inv s \<Longrightarrow> connect i s = (r, s') \<Longrightarrow> r \<noteq> Panic \<Longrightarrow> sessions s' \<subseteq> sessions s \<union> {u. r = Ok u}"
    and handle_inv: "inv s \<Longrightarrow> inv (handle q s)"
    and handle_sessions: "inv s \<Longrightarrow> sessions (handle q s) \<subseteq> sessions s"
    and remove_inv: "inv s \<Longrightarrow> inv (remove u s)"
    and remove_sessions: "inv s \<Longrightarrow> sessions (remove u s) \<subseteq> sessions s - {u}"
begin

definition served :: "'s \<Rightarrow> 'u list \<Rightarrow> bool" where
  "served s us \<longleftrightarrow> inv s \<and> sessions s \<subseteq> set us"

lemma served_accept: "served s us \<Longrightarrow> connect i s = (Ok u, s') \<Longrightarrow> served s' (u # us)"
  using connect_inv [of s i "Ok u" s'] connect_sessions [of s i "Ok u" s'] by (auto simp: served_def)

lemma served_refused: "served s us \<Longrightarrow> connect i s = (Fail e, s') \<Longrightarrow> served s' us"
  using connect_inv [of s i "Fail e" s'] connect_sessions [of s i "Fail e" s'] by (auto simp: served_def)

lemma served_request: "served s us \<Longrightarrow> served (handle q s) us"
  using handle_inv [of s q] handle_sessions [of s q] by (auto simp: served_def)

lemma served_close: "served s us \<Longrightarrow> served (remove u s) (remove1 u us)"
proof -
  assume a: "served s us"
  have "x \<in> set (remove1 u us)" if "x \<in> sessions (remove u s)" for x
  proof -
    from that a remove_sessions [of s u] have "x \<noteq> u" "x \<in> set us" by (auto simp: served_def)
    then show ?thesis by (simp add: in_set_remove1)
  qed
  with a remove_inv [of s u] show ?thesis by (auto simp: served_def)
qed

lemma all_closed: "served s [] \<Longrightarrow> sessions s = {}"
  by (simp add: served_def)

end

text \<open>The sessions of the daemon and the operations that can only lose some.\<close>

definition session_keys :: "('p, 'r, 'w, 'c) daemon \<Rightarrow> uuid set" where
  "session_keys c = fst ` set (memstore (d_sessions c))"

definition fewer :: "('p, 'r, 'w, 'c) daemon \<Rightarrow> ('p, 'r, 'w, 'c) daemon \<Rightarrow> bool" where
  "fewer c c' \<longleftrightarrow> session_keys c' \<subseteq> session_keys c"

definition narrow_call :: "(('p, 'r, 'w, 'c) daemon \<Rightarrow> ctx \<Rightarrow> 'p params \<Rightarrow> ('a, 'p, 'r, 'w, 'c) daemon_result) \<Rightarrow> bool" where
  "narrow_call f \<longleftrightarrow> (\<forall>c cx ps. sessions_inv (d_sessions c) \<longrightarrow> fewer c (snd (f c cx ps)))"

definition narrow_route :: "('p, 'r, 'w, 'c) route \<Rightarrow> bool" where
  "narrow_route h \<longleftrightarrow> (\<forall>c cx raw. sessions_inv (d_sessions c) \<longrightarrow> fewer c (snd (snd (h c cx raw))))"

lemma fewer_refl [simp]: "fewer c c" by (simp add: fewer_def)

lemma fewer_frame [simp]: "d_sessions c' = d_sessions c \<Longrightarrow> fewer c c'" by (simp add: fewer_def session_keys_def)

lemma execute_sessions: "d_sessions (snd (executePluginMethods names c cx key m ps r)) = d_sessions c"
  by (auto simp: executePluginMethods_def split: outcome.split option.split prod.split)

lemma notify_sessions [simp]: "d_sessions (snd (notify env key m c cx ps)) = d_sessions c"
  using execute_sessions [of "env_names env" c cx key m ps None] by (auto simp: notify_def split: outcome.split prod.split)

lemma query_sessions [simp]: "d_sessions (snd (query env key m zero c cx ps)) = d_sessions c"
  using execute_sessions [of "env_names env" c cx key m ps "Some zero"] by (auto simp: query_def split: outcome.split prod.split)

lemma register_sessions [simp]: "d_sessions (snd (registerSessionPlugins names c cx)) = d_sessions c"
  by (auto simp: registerSessionPlugins_def split: outcome.split)

lemma framesD:
  "notify env key m c cx ps = (r, c') \<Longrightarrow> d_sessions c' = d_sessions c"
  "query env key m zero c cx ps = (q, c') \<Longrightarrow> d_sessions c' = d_sessions c"
  "registerSessionPlugins names c cx = (r', c') \<Longrightarrow> d_sessions c' = d_sessions c"
  using notify_sessions [of env key m c cx ps] query_sessions [of env key m zero c cx ps] register_sessions [of names c cx] by simp_all

lemma snd_reply_with [simp]: "snd (snd (reply_with lib r c)) = c"
  by (simp add: reply_with_def split: outcome.split)

lemma narrow_notify: "narrow_call (notify env m m)"
  by (simp add: narrow_call_def)

lemma narrow_query: "narrow_call (query env m m zero)"
  by (simp add: narrow_call_def)

lemma narrow_no_result: "narrow_call f \<Longrightarrow> narrow_call (no_result f)"
  by (simp add: narrow_call_def no_result_def case_prod_beta)

lemma narrow_params: "narrow_call call \<Longrightarrow> narrow_route (route_params lib dec call)"
  by (simp add: narrow_route_def narrow_call_def route_params_def case_prod_beta split: outcome.split)

lemma narrow_documents:
  "narrow_route (router_DidChange env lib)" "narrow_route (router_DidChangeWatchedFiles env lib)"
  "narrow_route (router_DidOpen env lib)" "narrow_route (router_DidClose env lib)"
  "narrow_route (router_WillSave env lib)" "narrow_route (router_DidSave env lib)"
  "narrow_route (router_DidRenameFiles env lib)" "narrow_route (router_DidCreateFiles env lib)"
  "narrow_route (router_DidDeleteFiles env lib)" "narrow_route (router_WorkDoneProgressCancel env lib)"
  "narrow_route (router_ExecuteCommand env lib)"
  unfolding router_notifications daemon_notifications
  by (intro narrow_params narrow_no_result narrow_notify)+

lemma narrow_queries:
  "narrow_route (router_WillSaveWaitUntil env lib)" "narrow_route (router_WillRenameFiles env lib)"
  "narrow_route (router_WillCreateFiles env lib)" "narrow_route (router_WillDeleteFiles env lib)"
  "narrow_route (router_CodeAction env lib)" "narrow_route (router_CodeLens env lib)"
  "narrow_route (router_CodeLensResolve env lib)" "narrow_route (router_GotoDeclaration env lib)"
  "narrow_route (router_GotoDefinition env lib)" "narrow_route (router_GotoTypeDefinition env lib)"
  "narrow_route (router_GotoImplementation env lib)" "narrow_route (router_References env lib)"
  "narrow_route (router_DocumentSymbol env lib)"
  unfolding router_queries daemon_queries
  by (intro narrow_params narrow_query)+

lemma keys_Set: "fst ` set (memstore (snd (SetSession r (Some s)))) = insert (ses_UUID s) (fst ` set (memstore r))"
  by (simp add: SetSession_def Let_def dom_update)

lemma keys_Delete: "fst ` set (memstore (DeleteSession r u)) = fst ` set (memstore r) - {u}"
  by (auto simp: DeleteSession_def Let_def AList.delete_eq)

lemma fewer_Initialize: "sessions_inv (d_sessions c) \<Longrightarrow> fewer c (snd (daemon_Initialize env c cx p))"
proof (cases "obind (wrap_err (Errorf ''getting session from context: %w'' []) (GetFromContext (d_sessions c) cx)) (initialized_session env p)")
  case (Ok s)
  assume inv: "sessions_inv (d_sessions c)"
  from Ok obtain s0 where s0: "GetFromContext (d_sessions c) cx = Ok s0" "initialized_session env p s0 = Ok s" by (auto simp: obind_Ok_iff)
  have "d_sessions (snd (daemon_Initialize env c cx p)) = snd (SetSession (d_sessions c) (Some s))"
    using Ok by (auto simp: daemon_Initialize_def Let_def split: outcome.split prod.split dest: framesD(3))
  moreover have "ses_UUID s \<in> session_keys c"
    using GetFromContext_Ok [OF inv s0(1)] initialized_session_UUID [OF s0(2)]
    by (simp add: session_keys_def map_of_eq_None_iff)
  ultimately show ?thesis by (simp add: fewer_def session_keys_def keys_Set)
qed (simp_all add: daemon_Initialize_def)

lemma fewer_EndSession: "fewer c (snd (daemon_EndSession env c cx u))"
  by (auto simp: daemon_EndSession_def gateway_call_def refreshIdleTimer_def fewer_def session_keys_def keys_Delete Let_def
      split: outcome.split prod.split dest!: framesD(1) intro: rev_image_eqI)

lemma fewer_Exit: "fewer c (snd (daemon_Exit env c cx))"
proof -
  obtain r c1 where n: "notify env M_Exit M_Exit c cx NoParams = (r, c1)" by (cases "notify env M_Exit M_Exit c cx NoParams")
  have "fewer c1 c' \<Longrightarrow> fewer c c'" for c' using framesD(1) [OF n] by (simp add: fewer_def session_keys_def)
  with fewer_EndSession [of c1 env cx] show ?thesis by (auto simp: daemon_Exit_def n split: outcome.split)
qed

lemma narrow_lifecycle:
  "narrow_route (router_Initialize env lib)" "narrow_route (router_Initialized env lib)" "narrow_route (router_Shutdown env lib)"
  "narrow_route (router_Exit env lib)" "narrow_route (router_RequestFullShutdown lib)" "narrow_route (router_CodeLensRefresh env lib)"
  "narrow_route (router_Hover env lib)"
proof -
  show "narrow_route (router_Initialize env lib)"
    by (simp add: narrow_route_def router_Initialize_def fewer_Initialize case_prod_beta split: outcome.split)
  have "narrow_call (daemon_Initialized env)"
    by (auto simp: narrow_call_def daemon_Initialized_def gateway_call_def split: outcome.split prod.split dest!: framesD(1))
  then show "narrow_route (router_Initialized env lib)"
    unfolding router_Initialized_def by (intro narrow_params narrow_no_result)
  have "narrow_call (daemon_Hover env)"
    by (auto simp: narrow_call_def daemon_Hover_def split: outcome.split option.split prod.split dest!: framesD(2))
  then show "narrow_route (router_Hover env lib)" unfolding router_Hover_def by (rule narrow_params)
qed (simp_all add: narrow_route_def router_Shutdown_def daemon_Shutdown_def router_Exit_def fewer_Exit router_RequestFullShutdown_def
    daemon_RequestFullShutdown_def router_CodeLensRefresh_def daemon_CodeLensRefresh_def case_prod_beta)

lemma fewer_HandleReq:
  fixes c :: "('p, 'r, 'w, 'c) daemon"
  assumes "sessions_inv (d_sessions c)"
  shows "fewer c (snd (snd (HandleReq env lib u c method raw)))"
proof (cases "map_of (routes env lib :: (gostring \<times> ('p, 'r, 'w, 'c) route) list) method")
  case (Some h)
  from map_of_SomeD [OF Some] have "h \<in> set (map snd (routes env lib))" by force
  then have "narrow_route h"
    unfolding routes_def
    by (simp only: list.map snd_conv list.set insert_iff empty_iff) (elim disjE; simp add: narrow_documents narrow_queries narrow_lifecycle)
  with assms Some show ?thesis by (simp add: HandleReq_def narrow_route_def)
qed (simp add: HandleReq_def)
text \<open>The daemon keeps the contract: what \<^verbatim>\<open>NewConnection\<close>, \<^verbatim>\<open>HandleReq\<close> and \<^verbatim>\<open>RemoveConnection\<close> do to the sessions.\<close>

definition manager_ok :: "('p, 'r) daemon_env \<Rightarrow> ('p, 'r, 'arg) router_lib \<Rightarrow> ('p, 'r, 'w, 'c) daemon \<Rightarrow> bool" where
  "manager_ok env lib c \<longleftrightarrow> env_ok env \<and> lib_ok lib \<and> daemon_ok env c"

definition connect_with :: "('p, 'r) daemon_env \<Rightarrow> uuid \<times> 'c option \<Rightarrow> ('p, 'r, 'w, 'c) daemon \<Rightarrow> (uuid, 'p, 'r, 'w, 'c) daemon_result" where
  "connect_with env i c = NewConnection env (Ok (fst i)) c (snd i)"

definition handle_with ::
  "('p, 'r) daemon_env \<Rightarrow> ('p, 'r, 'arg) router_lib \<Rightarrow> uuid \<times> gostring \<times> byte list \<Rightarrow> ('p, 'r, 'w, 'c) daemon \<Rightarrow> ('p, 'r, 'w, 'c) daemon" where
  "handle_with env lib q c = (case q of (u, method, raw) \<Rightarrow> snd (snd (HandleReq env lib u c method raw)))"

lemma session_keys_simps [simp]:
  "session_keys (refreshIdleTimer c) = session_keys c" "session_keys (c\<lparr>d_gateway := g\<rparr>) = session_keys c"
  "session_keys (c\<lparr>d_sessions := snd (SetSession r (Some s))\<rparr>) = insert (ses_UUID s) (fst ` set (memstore r))"
  by (simp_all add: session_keys_def refreshIdleTimer_def keys_Set)

lemma connect_keys:
  assumes "NewConnection env newUUID c conn = (r, c')"
  shows "session_keys c' \<subseteq> session_keys c \<union> {u. r = Ok u}"
proof (cases newUUID)
  case (Ok u)
  then show ?thesis
    using assms by (cases "env_gateway env (RegisterClient u)")
      (auto simp: NewConnection_def daemon_InitSession_def gateway_call_def UUIDToSession_def session_keys_def [of c])
qed (use assms in \<open>auto simp: NewConnection_def daemon_InitSession_def\<close>)

interpretation listener: connection_manager "manager_ok env lib" "session_keys :: ('p, 'r, 'w, 'c) daemon \<Rightarrow> uuid set" "connect_with env"
  "handle_with env lib" "\<lambda>u c. snd (RemoveConnection env c u)"
  for env :: "('p, 'r) daemon_env" and lib :: "('p, 'r, 'arg) router_lib"
proof
  fix c c' :: "('p, 'r, 'w, 'c) daemon" and i r
  assume c: "manager_ok env lib c" and con: "connect_with env i c = (r, c')"
  then show "manager_ok env lib c'"
    using NewConnection_safe [of env c "Ok (fst i)" "snd i"] by (simp add: manager_ok_def connect_with_def)
  show "session_keys c' \<subseteq> session_keys c \<union> {u. r = Ok u}" using con connect_keys by (simp add: connect_with_def)
next
  fix c :: "('p, 'r, 'w, 'c) daemon" and q :: "uuid \<times> gostring \<times> byte list" and u :: uuid
  obtain u' name raw where q: "q = (u', name, raw)" by (cases q)
  assume c: "manager_ok env lib c"
  with HandleReq_answered [of env lib c u' name raw] q show "manager_ok env lib (handle_with env lib q c)"
    by (simp add: manager_ok_def answered_def handle_with_def)
  from c q show "session_keys (handle_with env lib q c) \<subseteq> session_keys c"
    using fewer_HandleReq [of c env lib u' name raw] by (simp add: manager_ok_def daemon_ok_def fewer_def handle_with_def)
  from c RemoveConnection_safe [of env c u] show "manager_ok env lib (snd (RemoveConnection env c u))"
    by (simp add: manager_ok_def safe_def)
  from c RemoveConnection_sessions [of env c u] show "session_keys (snd (RemoveConnection env c u)) \<subseteq> session_keys c - {u}"
    by (simp add: manager_ok_def session_keys_def keys_Delete)
qed

abbreviation daemon_served :: "('p, 'r) daemon_env \<Rightarrow> ('p, 'r, 'arg) router_lib \<Rightarrow> ('p, 'r, 'w, 'c) daemon \<Rightarrow> uuid list \<Rightarrow> bool" where
  "daemon_served env lib \<equiv> connection_manager.served (manager_ok env lib) session_keys"

text \<open>The listener and the daemon together. Requests are handled for any UUID, also after their connection was closed.\<close>

inductive transport_step ::
  "('p, 'r) daemon_env \<Rightarrow> ('p, 'r, 'arg) router_lib \<Rightarrow> ('p, 'r, 'w, 'c) transport \<Rightarrow> ('p, 'r, 'w, 'c) transport \<Rightarrow> bool"
  for env :: "('p, 'r) daemon_env" and lib :: "('p, 'r, 'arg) router_lib" where
  register: "RegisterConnectionManager (tr_module t) = (r, m) \<Longrightarrow> transport_step env lib t (t\<lparr>tr_module := m\<rparr>)"
| accept: "ServeStream_begin env (Ok v) conn t = (r, t') \<Longrightarrow> r \<noteq> Panic \<Longrightarrow> transport_step env lib t t'"
| request: "HandleReq env lib u (tr_daemon t) name raw = (replies, r, c) \<Longrightarrow> transport_step env lib t (t\<lparr>tr_daemon := c\<rparr>)"
| background: "run_async i (tr_daemon t) = (r, c) \<Longrightarrow> transport_step env lib t (t\<lparr>tr_daemon := c\<rparr>)"
| close: "u \<in> set (tr_serving t) \<Longrightarrow> ServeStream_end env err u t = (r, t') \<Longrightarrow> transport_step env lib t t'"

inductive_cases transport_stepE: "transport_step env lib t t'"

definition transport_start :: "('p, 'r, 'w) plugin list \<Rightarrow> ('p, 'r, 'w, 'c) transport \<Rightarrow> bool" where
  "transport_start plugins t \<longleftrightarrow>
     (\<exists>timeout cfg w address. NewDaemon timeout cfg plugins w = Some (tr_daemon t) \<and> NewJSONRPC address = Ok (tr_module t)) \<and> tr_serving t = []"

lemma NewDaemon_keys: "NewDaemon timeout cfg plugins w = Some c \<Longrightarrow> session_keys c = {}"
  by (auto simp: NewDaemon_def NewSessionRepository_def session_keys_def refreshIdleTimer_def split: outcome.splits if_splits)

lemma background_served:
  assumes "daemon_served env lib c us" and "run_async i c = (r, c')"
  shows "daemon_served env lib c' us"
proof -
  have "d_sessions c' = d_sessions c" using assms(2) by (auto simp: run_async_def Let_def split: if_splits prod.splits)
  with assms run_async_safe [of env c i] show ?thesis by (auto simp: listener.served_def manager_ok_def session_keys_def)
qed

lemma transport_step_served:
  assumes "transport_step env lib t t'" and "daemon_served env lib (tr_daemon t) (tr_serving t)"
  shows "daemon_served env lib (tr_daemon t') (tr_serving t')"
  using assms(1)
proof cases
  case (accept v conn r)
  then show ?thesis
    using assms(2) listener.served_accept [OF assms(2), of "(v, conn)"] listener.served_refused [OF assms(2), of "(v, conn)"]
    by (auto simp: ServeStream_begin_def connect_with_def split: if_splits outcome.splits prod.splits)
next
  case (request u name raw replies r c)
  with listener.served_request [OF assms(2), of "(u, name, raw)"] show ?thesis by (simp add: handle_with_def)
next
  case (background i r c)
  with background_served [OF assms(2)] show ?thesis by simp
next
  case (close u err r)
  with listener.served_close [OF assms(2), of u] show ?thesis by (auto simp: ServeStream_end_def split: prod.splits)
qed (use assms(2) in simp)

text \<open>
  C18. Sessions and connections. Whatever connections are accepted, refused and closed, and whatever requests and background tasks run, every session of the
  daemon belongs to a connection that is being served; so when the last stream has been closed no session is left and the idle
  timer runs, unless the server has stopped. Before a connection manager is registered every connection is refused and no session exists.
\<close>

theorem sessions_are_served:
  assumes "server_env_ok env lib plugins" and "transport_start plugins t0" and "(transport_step env lib)\<^sup>*\<^sup>* t0 t"
  shows "fst ` set (memstore (d_sessions (tr_daemon t))) \<subseteq> set (tr_serving t) \<and>
    (tr_serving t = [] \<and> \<not> d_stopped (tr_daemon t) \<longrightarrow> (\<exists>time. d_idleTimer (tr_daemon t) = Running time)) \<and>
    (\<not> jm_connectionMgr (tr_module t) \<longrightarrow> ServeStream_begin env newUUID conn t = (Fail (Errorf ''cannot serve connection, no connection manager set'' []), t))"
proof -
  from assms(2) obtain timeout cfg w where "NewDaemon timeout cfg plugins w = Some (tr_daemon t0)" "tr_serving t0 = []"
    by (auto simp: transport_start_def)
  moreover from this(1) have "session_keys (tr_daemon t0) = {}" by (rule NewDaemon_keys)
  moreover from calculation(1) assms(1) have "daemon_ok env (tr_daemon t0)" by (simp add: server_env_ok_def NewDaemon_ok)
  ultimately have "daemon_served env lib (tr_daemon t0) (tr_serving t0)"
    using assms(1) by (simp add: listener.served_def manager_ok_def server_env_ok_def)
  with assms(3) have served: "daemon_served env lib (tr_daemon t) (tr_serving t)"
    by (induction rule: rtranclp_induct) (auto intro: transport_step_served)
  then have "SessionCount (d_sessions (tr_daemon t)) = 0" if "tr_serving t = []"
    using that by (simp add: listener.served_def session_keys_def SessionCount_def)
  with served show ?thesis
    by (auto simp: listener.served_def manager_ok_def session_keys_def daemon_ok_def timer_ok_def ServeStream_begin_def)
qed
subsection \<open>Log lines and commands\<close>

text \<open>No byte of what is written is lost but the ends of the lines, and what is logged are lines.\<close>

lemma concat_split: "concat (strings_Split p sep) = filter (\<lambda>c. c \<noteq> sep) p"
proof (induction p)
  case (Cons c p)
  have "strings_Split p sep \<noteq> []" by simp
  with Cons show ?case by (auto split: list.split)
qed simp

lemma split_lines: "line \<in> set (strings_Split p sep) \<Longrightarrow> sep \<notin> set line"
  by (induction p arbitrary: line) (auto split: if_splits list.splits)

lemma written_lines:
  "concat (fst (loggerWriter_Write p)) = filter (\<lambda>c. c \<noteq> CHR 0x0A) p \<and>
   (\<forall>line \<in> set (fst (loggerWriter_Write p)). line \<noteq> '''' \<and> CHR 0x0A \<notin> set line) \<and> snd (loggerWriter_Write p) = length p"
proof -
  have "concat (filter (\<lambda>line. line \<noteq> []) xs) = concat xs" for xs :: "gostring list" by (induction xs) auto
  then show ?thesis by (auto simp: loggerWriter_Write_def concat_split dest: split_lines)
qed

text \<open>The input that was read for the log is still there when the command runs; with no arguments at all it panics.\<close>

lemma command_input_kept:
  "RunCommand (Some f) cmd env =
     (if ec_Args cmd = [] then Panic
      else case ec_Stdin cmd of Some (Fail e) \<Rightarrow> Fail e | Some Panic \<Rightarrow> Panic | _ \<Rightarrow> f (cmd\<lparr>ec_Env := env\<rparr>))"
  by (cases cmd) (auto simp: RunCommand_def logCommand_def split: option.split outcome.split)

text \<open>The info file is removed at the end; before it was written that is an error.\<close>

lemma stop_after_update:
  "UpdateField marshal writing key val m = (Ok (), m') \<Longrightarrow> if_infofile m \<noteq> '''' \<Longrightarrow> fst (OnStop_infofile e m') = Ok () \<and> if_disk (snd (OnStop_infofile e m')) = None"
  by (auto simp: UpdateField_def OnStop_infofile_def Let_def split: outcome.splits)

lemma stop_before_update: "NewServerInfoFile populate None = Ok m \<Longrightarrow> OnStop_infofile e m = (Fail e, m)"
  by (auto simp: NewServerInfoFile_def required_field_def OnStop_infofile_def obind_Ok_iff split: if_splits)

subsection \<open>Witnesses\<close>

definition sample_inbounds :: "(gostring \<times> cfg_value) list" where
  "sample_inbounds = [(''inbounds'', CfgMap [(''grpc'', CfgMap [(''address'', CfgString '':5437'')])])]"

definition sample_info :: info_file where
  "sample_info = \<lparr>if_infofile = ''/tmp/info'', if_fileContents = [], if_disk = None\<rparr>"

definition sample_module :: jsonrpc_module where
  "sample_module = \<lparr>jm_Address = '':27883'', jm_connectionMgr = False, jm_ln = False\<rparr>"

definition sample_published :: info_file where
  "sample_published = \<lparr>if_infofile = ''/tmp/info'', if_fileContents = [(''grpc-address'', '':5437''), (''lsp-address'', '':27883'')],
     if_disk = Some ''{}''\<rparr>"

theorem addresses_published_witness:
  "if_disk sample_published = Some ''{}'' \<and> map_of (if_fileContents sample_published) ''lsp-address'' = Some '':27883'' \<and>
   map_of (if_fileContents sample_published) ''grpc-address'' = Some '':5437''"
proof -
  have "outputYARPCConnectionInfo (UpdateField (\<lambda>m. Ok ''{}'') (Ok (), None)) (Ok sample_inbounds) sample_info =
      (Ok (), sample_info\<lparr>if_fileContents := [(''grpc-address'', '':5437'')], if_disk := Some ''{}''\<rparr>)"
    by (simp add: outputYARPCConnectionInfo_def sample_inbounds_def cfg_entry_def UpdateField_def sample_info_def)
  moreover have "jsonrpc_start (UpdateField (\<lambda>m. Ok ''{}'') (Ok (), None)) (Ok ()) sample_module
      (sample_info\<lparr>if_fileContents := [(''grpc-address'', '':5437'')], if_disk := Some ''{}''\<rparr>) = (Ok (), sample_published)"
    by (simp add: jsonrpc_start_def UpdateField_def sample_info_def sample_module_def sample_published_def)
  ultimately show ?thesis
    using addresses_published [of "\<lambda>m. Ok ''{}''" "(Ok (), None)" sample_inbounds sample_info _ "Ok ()" sample_module sample_published "''{}''"]
    by (auto simp: sample_inbounds_def cfg_entry_def sample_module_def map_filter_simps)
qed

definition sample_listening :: "(unit, gostring, gostring list, unit) transport" where
  "sample_listening = \<lparr>tr_module = sample_module, tr_daemon = sample_start, tr_serving = []\<rparr>"

definition sample_serving :: "(unit, gostring, gostring list, unit) transport" where
  "sample_serving = \<lparr>tr_module = sample_module\<lparr>jm_connectionMgr := True\<rparr>, tr_daemon = sample_connected, tr_serving = [''u1'']\<rparr>"

theorem sessions_are_served_witness:
  "fst ` set (memstore (d_sessions (tr_daemon sample_serving))) \<subseteq> set (tr_serving sample_serving) \<and>
   0 < SessionCount (d_sessions (tr_daemon sample_serving)) \<and> tr_serving sample_serving = [''u1'']"
proof -
  have start: "transport_start sample_server_plugins sample_listening"
    unfolding transport_start_def
  proof (intro conjI exI)
    show "NewDaemon (Ok 30) (Ok [(''doc'', True), (''idx'', True), (''fmt'', True)]) sample_server_plugins [] = Some (tr_daemon sample_listening)"
      by (simp add: sample_listening_def sample_start_def NewDaemon_def)
    show "NewJSONRPC (Ok '':27883'') = Ok (tr_module sample_listening)" by (simp add: NewJSONRPC_def required_field_def sample_listening_def sample_module_def)
    show "tr_serving sample_listening = []" by (simp add: sample_listening_def)
  qed
  let ?t = "sample_listening\<lparr>tr_module := sample_module\<lparr>jm_connectionMgr := True\<rparr>\<rparr>"
  have "transport_step sample_env sample_lib sample_listening ?t"
    by (rule transport_step.register) (simp add: RegisterConnectionManager_def sample_listening_def sample_module_def)
  moreover have "NewConnection sample_env (Ok ''u1'') sample_start None = (Ok ''u1'', sample_connected)"
    by (simp add: sample_connected_def NewConnection_def daemon_InitSession_def gateway_call_def sample_env_def)
  then have "ServeStream_begin sample_env (Ok ''u1'') None ?t = (Ok ''u1'', sample_serving)"
    by (simp add: ServeStream_begin_def sample_listening_def sample_module_def sample_serving_def)
  then have "transport_step sample_env sample_lib ?t sample_serving" by (rule transport_step.accept) simp
  ultimately have steps: "(transport_step sample_env sample_lib)\<^sup>*\<^sup>* sample_listening sample_serving" by (meson rtranclp.simps)
  have "0 < SessionCount (d_sessions sample_connected)" by code_simp
  with sessions_are_served [OF sample_env_ok start steps] show ?thesis by (simp add: sample_serving_def)
qed

end
