(* ===== verification/IndexerRun.thy ===== *)
theory IndexerRun
  imports Indexer Transport JavaUtils
begin

text \<open>
  The indexer plugin with the parts it calls: the command of the Java indexer (\<^verbatim>\<open>SyncIndex\<close> of \<^verbatim>\<open>controller/indexer/java_indexer.go\<close>)
  run by the executor, and its key computed from the build files by the Java helpers.
\<close>

text \<open>The result and what is written to the output: an error is reported there.\<close>

definition javaIndexer_SyncIndex ::
  "(exec_cmd \<Rightarrow> unit outcome) option \<Rightarrow> (uri \<Rightarrow> gostring) \<Rightarrow> ('p, 'c) session \<Rightarrow> doc_item \<Rightarrow> unit outcome \<times> go_error list" where
  "javaIndexer_SyncIndex run Filename s doc =
     (let wsRoot = ses_WorkspaceRoot s;
          cmd = \<lparr>ec_Args = [path_Join [wsRoot, ''tools/scip/scip_sync.sh''], ''--filepath'', Filename (di_URI doc)], ec_Dir = wsRoot,
                 ec_Stdin = None, ec_Env = []\<rparr>
      in case RunCommand run cmd (UpdateEnv (ses_Env s) wsRoot) of
           Fail e \<Rightarrow> (Fail e, [Join (Errorf ''Error during run: %s'' []) e])
         | r \<Rightarrow> (r, []))"

lemma SyncIndex_command:
  "\<exists>cmd. javaIndexer_SyncIndex (Some f) Filename s doc = (case f cmd of Fail e \<Rightarrow> (Fail e, [Join (Errorf ''Error during run: %s'' []) e]) | r \<Rightarrow> (r, [])) \<and>
     ec_Dir cmd = ses_WorkspaceRoot s \<and> last (ec_Args cmd) = Filename (di_URI doc) \<and>
     ''WORKSPACE_ROOT='' @ ses_WorkspaceRoot s \<in> set (ec_Env cmd) \<and> ''PROJECT_ROOT='' @ ses_WorkspaceRoot s \<in> set (ec_Env cmd)"
  using UpdateEnv_roots [of "ses_WorkspaceRoot s" "ses_Env s"]
  by (intro exI [of _ "\<lparr>ec_Args = [path_Join [ses_WorkspaceRoot s, ''tools/scip/scip_sync.sh''], ''--filepath'', Filename (di_URI doc)],
        ec_Dir = ses_WorkspaceRoot s, ec_Stdin = None, ec_Env = UpdateEnv (ses_Env s) (ses_WorkspaceRoot s)\<rparr>"])
     (simp add: javaIndexer_SyncIndex_def command_input_kept Let_def)

subsection \<open>Files of the same target\<close>

text \<open>The key of the plugin with the search of the Java helpers; for the files below it always ends.\<close>

definition java_target :: "nat \<Rightarrow> java_fs \<Rightarrow> (uri \<Rightarrow> gostring) \<Rightarrow> gostring \<Rightarrow> uri \<Rightarrow> gostring outcome" where
  "java_target fuel fs Filename root u = (case GetJavaTarget fuel fs Filename root u of None \<Rightarrow> Panic | Some r \<Rightarrow> r)"

definition source_file :: "java_fs \<Rightarrow> (uri \<Rightarrow> gostring) \<Rightarrow> gostring list \<Rightarrow> gostring list \<Rightarrow> gostring \<Rightarrow> uri \<Rightarrow> bool" where
  "source_file fs Filename rs ds f u \<longleftrightarrow> plain (rs @ ds @ [f]) \<and> rs \<noteq> [] \<and> Filename u = abs_path (rs @ ds @ [f]) \<and>
     fs_DirExists fs (abs_path (rs @ ds @ [f])) = Ok False \<and> readable fs (rs @ ds)"

definition nearest_build :: "java_fs \<Rightarrow> gostring list \<Rightarrow> gostring list \<Rightarrow> gostring list \<Rightarrow> bool" where
  "nearest_build fs rs ds bs \<longleftrightarrow> (\<exists>n. 1 \<le> n \<and> n \<le> length ds \<and> bs = take n ds \<and> build_in fs (abs_path (rs @ bs)) \<noteq> None \<and>
     (\<forall>m. n < m \<and> m \<le> length ds \<longrightarrow> build_in fs (abs_path (rs @ take m ds)) = None))"

lemma target_of_file:
  assumes "source_file fs Filename rs ds f u" and "nearest_build fs rs ds bs" and "length ds < fuel"
  shows "java_target fuel fs Filename (abs_path rs) u = Ok (join_slash (bs @ [''...'']))"
proof -
  from assms(2) obtain n where "1 \<le> n" "n \<le> length ds" "bs = take n ds" "build_in fs (abs_path (rs @ take n ds)) \<noteq> None"
    "\<And>m. n < m \<Longrightarrow> m \<le> length ds \<Longrightarrow> build_in fs (abs_path (rs @ take m ds)) = None"
    unfolding nearest_build_def by blast
  with target_found [of rs ds f Filename u fs fuel n] assms(1,3) show ?thesis by (simp add: source_file_def java_target_def)
qed

text \<open>
  C26. Files of one target share a run. Two Java files have the same nearest build directory, and the indexer runs for the target of the first, which met no race
  and no cancellation since it was last idle. Then
  opening or saving the second starts no run of its own, but the active run is followed by another one of the target that they share.
\<close>

theorem files_share_a_run:
  assumes "ix_reachable repos c ops disturbed owed" and "IxActive run \<in># ops" and "ir_key run \<notin> disturbed" and "GetFromContext sessions cx = Ok s"
    and "map_of (ix_indexer c) (ses_UUID s) = Some (NewJavaIndexer (java_target fuel fs Filename) s)" and "ses_WorkspaceRoot s = abs_path rs"
    and "source_file fs Filename rs ds f (di_URI doc)" and "nearest_build fs rs ds bs" and "length ds < fuel"
    and "source_file fs Filename rs ds' f' (di_URI doc')" and "nearest_build fs rs ds' bs" and "length ds' < fuel"
    and "di_LanguageID doc' = ''java''"
    and "ix_GetUniqueIndexKey (NewJavaIndexer (java_target fuel fs Filename) s) doc = Ok (ir_key run)"
  shows "\<exists>c'. syncIndex sessions cx doc' c = (SyncReturned (Ok ()), c') \<and>
    (\<exists>run' c2. finish_indexing creates fresh run c' = (Some run', c2) \<and> ir_key run' = ses_UUID s @ ''_'' @ join_slash (bs @ [''...'']))"
proof -
  note target = target_of_file [OF assms(7-9)] target_of_file [OF assms(10-12)]
  have "ix_GetUniqueIndexKey (NewJavaIndexer (java_target fuel fs Filename) s) doc' = Ok (ir_key run)"
    "ir_key run = ses_UUID s @ ''_'' @ join_slash (bs @ [''...''])"
    using assms(6,14) target by (simp_all add: NewJavaIndexer_def)
  with marked_run_follows [OF assms(1-5), of doc' creates fresh] assms(13) show ?thesis by (simp add: NewJavaIndexer_def) metis
qed
subsection \<open>Witness\<close>

definition indexed_session :: "(unit, unit) session" where
  "indexed_session = (UUIDToSession ''u'' None)\<lparr>ses_WorkspaceRoot := ''/w''\<rparr>"

definition indexed_sessions :: "(unit, unit) repository" where
  "indexed_sessions = snd (SetSession NewSessionRepository (Some indexed_session))"

definition indexed_ctrl :: indexer_ctrl where
  "indexed_ctrl = snd (ix_initialize indexed_sessions (\<lambda>m. True) (Ok ()) (java_target 5 one_build (\<lambda>u. u)) (Some ''u'') NewIndexer)"

definition inner_file :: doc_item where
  "inner_file = \<lparr>di_URI = ''/w/a/b/C.java'', di_LanguageID = ''java'', di_Version = 1, di_Text = ''''\<rparr>"

definition outer_file :: doc_item where
  "outer_file = \<lparr>di_URI = ''/w/a/D.java'', di_LanguageID = ''java'', di_Version = 1, di_Text = ''''\<rparr>"

lemma inner_source: "source_file one_build (\<lambda>u. u) [''w''] [''a'', ''b''] ''C.java'' ''/w/a/b/C.java''" "nearest_build one_build [''w''] [''a'', ''b''] [''a'']"
proof -
  show "source_file one_build (\<lambda>u. u) [''w''] [''a'', ''b''] ''C.java'' ''/w/a/b/C.java''"
    by (simp add: source_file_def build_samples readable_def)
  have "build_in one_build (abs_path ([''w''] @ take m [''a'', ''b''])) = None" if "1 < m" "m \<le> 2" for m
  proof -
    from that have "m = 2" by simp
    then show ?thesis by (simp add: build_samples)
  qed
  then show "nearest_build one_build [''w''] [''a'', ''b''] [''a'']"
    unfolding nearest_build_def by (intro exI [of _ 1]) (simp add: build_samples)
qed

lemma outer_source: "source_file one_build (\<lambda>u. u) [''w''] [''a''] ''D.java'' ''/w/a/D.java''" "nearest_build one_build [''w''] [''a''] [''a'']"
  by (simp_all add: source_file_def nearest_build_def build_samples readable_def exI [of _ 1])

theorem files_share_a_run_witness:
  "\<exists>c'. syncIndex indexed_sessions (Some ''u'') outer_file
      (snd (start_indexing (\<lambda>x t. True) ''t1'' (Some ''u'') ''u_a/...'' inner_file indexed_ctrl)) = (SyncReturned (Ok ()), c') \<and>
     (\<exists>run' c2. finish_indexing (\<lambda>x t. True) ''t2'' (fst (start_indexing (\<lambda>x t. True) ''t1'' (Some ''u'') ''u_a/...'' inner_file indexed_ctrl)) c' =
        (Some run', c2) \<and> ir_key run' = ''u_a/...'')"
proof -
  let ?ix = "NewJavaIndexer (java_target 5 one_build (\<lambda>u. u)) indexed_session"
  have session: "GetFromContext indexed_sessions (Some ''u'') = Ok indexed_session"
    by (simp add: GetFromContext_def ContextToSessionUUID_def indexed_sessions_def GetSession_Set indexed_session_def UUIDToSession_def)
  have root: "ses_WorkspaceRoot indexed_session = abs_path [''w'']" "ses_UUID indexed_session = ''u''"
    by (simp_all add: indexed_session_def abs_path_def UUIDToSession_def)
  have indexer: "map_of (ix_indexer indexed_ctrl) (ses_UUID indexed_session) = Some ?ix"
    by (simp add: indexed_ctrl_def ix_initialize_def session NewIndexer_def)
  have key: "ix_GetUniqueIndexKey ?ix inner_file = Ok ''u_a/...''"
    using target_of_file [OF inner_source, of 5] root by (simp add: NewJavaIndexer_def inner_file_def)
  obtain run c where run: "start_indexing (\<lambda>x t. True) ''t1'' (Some ''u'') ''u_a/...'' inner_file indexed_ctrl = (run, c)" by fastforce
  then have c: "ir_key run = ''u_a/...''" "ix_indexer c = ix_indexer indexed_ctrl"
    by (auto simp: start_indexing_def Let_def sendIndexStartNotification_def)
  have go: "sync_check indexed_sessions (Some ''u'') inner_file indexed_ctrl = SyncGoOn ''u_a/...''"
  proof -
    have "ix_pendingCmds indexed_ctrl = []" by (simp add: indexed_ctrl_def initialize_pending NewIndexer_def)
    moreover have "ix_IsRelevantDocument ?ix inner_file" by (simp add: NewJavaIndexer_def inner_file_def)
    ultimately show ?thesis by (simp add: sync_check_def session indexer key getPendingCmd_def)
  qed
  have "ix_reachable {indexed_sessions} indexed_ctrl {#} {} {}" unfolding indexed_ctrl_def by (rule ix_reachable.initialize [OF ix_reachable.new]) simp
  then have "ix_reachable {indexed_sessions} indexed_ctrl {#IxChecked (Some ''u'') inner_file ''u_a/...''#} {} {''u_a/...''}"
    by (rule ix_reachable.check_start [OF _ _ go]) simp_all
  from ix_reachable.start [OF this run] have reach: "ix_reachable {indexed_sessions} c {#IxActive run#} {} {}" by simp
  have "\<exists>c'. syncIndex indexed_sessions (Some ''u'') outer_file c = (SyncReturned (Ok ()), c') \<and>
      (\<exists>run' c2. finish_indexing (\<lambda>x t. True) ''t2'' run c' = (Some run', c2) \<and> ir_key run' = ses_UUID indexed_session @ ''_'' @ join_slash ([''a''] @ [''...'']))"
  proof (rule files_share_a_run [OF reach _ _ session _ root(1)])
    show "map_of (ix_indexer c) (ses_UUID indexed_session) = Some ?ix" using indexer c(2) by simp
    show "source_file one_build (\<lambda>u. u) [''w''] [''a'', ''b''] ''C.java'' (di_URI inner_file)" using inner_source(1) by (simp add: inner_file_def)
    show "source_file one_build (\<lambda>u. u) [''w''] [''a''] ''D.java'' (di_URI outer_file)" using outer_source(1) by (simp add: outer_file_def)
    show "ix_GetUniqueIndexKey ?ix inner_file = Ok (ir_key run)" using key c(1) by simp
  qed (simp_all add: inner_source outer_source outer_file_def)
  then show ?thesis using run root(2) by simp
qed

end
