(* ===== verification/LegacyRegistry.thy ===== *)
theory LegacyRegistry
  imports UlspRegistry
begin

text \<open>
  \<^verbatim>\<open>src/ulsp/controller/scip/types.go\<close> and the lookups of \<^verbatim>\<open>consume.go\<close>: the registry that keeps whole indices in memory, the
  predecessor of the partial one. Symbol data, packages and the occurrences of a file are shared through pointers, so they live in a
  heap: an address is the position in the list of the objects of its type. Locks are left out, every operation is one step.
\<close>

subsection \<open>Data\<close>

type_synonym addr = nat

type_synonym package_id = gostring

record file_occurrences =
  fo_file :: uri
  fo_Occurrences :: "occurrence list"

record symbol_data =
  sdt_Info :: "symbol_information option"
  sdt_Definition :: "occurrence option"
  sdt_Location :: "location_link option"
  sdt_References :: "(package_id \<times> addr list) list"

record package_meta =
  pm_Pkg :: scip_package
  pm_SymbolData :: "(gostring \<times> addr) list"

record file_info =
  fi_URI :: uri
  fi_Document :: document
  fi_Package :: "addr option"
  fi_Locals :: "(gostring \<times> addr) list"
  fi_Definitions :: "(gostring \<times> addr) list"
  fi_ExternalRefs :: "addr list"

record legacy_registry =
  lr_WorkspaceRoot :: gostring
  lr_Packages :: "(package_id \<times> addr) list"
  lr_Documents :: "(uri \<times> file_info) list"
  lr_files :: "file_occurrences list"
  lr_symbols :: "symbol_data list"
  lr_packages :: "package_meta list"

subsection \<open>Creating\<close>

definition NewSymbolData :: "symbol_information option \<Rightarrow> occurrence option \<Rightarrow> location_link option \<Rightarrow> symbol_data" where
  "NewSymbolData info definition location =
     \<lparr>sdt_Info = info, sdt_Definition = definition, sdt_Location = location, sdt_References = []\<rparr>"

definition NewScipPackage :: "scip_package \<Rightarrow> package_meta" where
  "NewScipPackage pkg = \<lparr>pm_Pkg = pkg, pm_SymbolData = []\<rparr>"

definition NewFileInfo :: "uri \<Rightarrow> document \<Rightarrow> addr option \<Rightarrow> (gostring \<times> addr) list \<Rightarrow> addr list option \<Rightarrow> file_info" where
  "NewFileInfo u doc pkg definitions externalRefs =
     \<lparr>fi_URI = u, fi_Document = doc, fi_Package = pkg, fi_Locals = [], fi_Definitions = definitions,
      fi_ExternalRefs = (case externalRefs of None \<Rightarrow> [] | Some refs \<Rightarrow> refs)\<rparr>"

definition GetURI_legacy :: "libs \<Rightarrow> legacy_registry \<Rightarrow> gostring \<Rightarrow> uri" where
  "GetURI_legacy lib r relPath = uri_File lib (path_Join [lr_WorkspaceRoot r, relPath])"

definition getOrCreatePackage :: "scip_package \<Rightarrow> legacy_registry \<Rightarrow> addr \<times> legacy_registry" where
  "getOrCreatePackage pkg r =
     (case map_of (lr_Packages r) (spkg_Name pkg) of
        Some p \<Rightarrow> (p, r)
      | None \<Rightarrow>
          let p = length (lr_packages r)
          in (p, r\<lparr>lr_Packages := AList.update (spkg_Name pkg) p (lr_Packages r), lr_packages := lr_packages r @ [NewScipPackage pkg]\<rparr>))"

text \<open>The symbol data of a symbol in a table, with the table and the heap afterwards; the table is a package's or the locals of a file.\<close>

definition get_or_create :: "gostring \<Rightarrow> (gostring \<times> addr) list \<Rightarrow> legacy_registry \<Rightarrow> addr \<times> (gostring \<times> addr) list \<times> legacy_registry" where
  "get_or_create symbol table r =
     (case map_of table symbol of
        Some sd \<Rightarrow> (sd, table, r)
      | None \<Rightarrow>
          let sd = length (lr_symbols r)
          in (sd, AList.update symbol sd table, r\<lparr>lr_symbols := lr_symbols r @ [NewSymbolData None None None]\<rparr>))"

definition getOrCreateSymbolData_package :: "addr \<Rightarrow> gostring \<Rightarrow> legacy_registry \<Rightarrow> addr \<times> legacy_registry" where
  "getOrCreateSymbolData_package p symbol r =
     (let (sd, table, r') = get_or_create symbol (pm_SymbolData (lr_packages r ! p)) r
      in (sd, r'\<lparr>lr_packages := (lr_packages r')[p := (lr_packages r' ! p)\<lparr>pm_SymbolData := table\<rparr>]\<rparr>))"

definition getOrCreateSymbolData_file :: "file_info \<Rightarrow> gostring \<Rightarrow> legacy_registry \<Rightarrow> addr \<times> file_info \<times> legacy_registry" where
  "getOrCreateSymbolData_file f symbol r =
     (let (sd, table, r') = get_or_create symbol (fi_Locals f) r in (sd, f\<lparr>fi_Locals := table\<rparr>, r'))"

subsection \<open>References\<close>

text \<open>The entry of the file, if there is one, gets the occurrence; otherwise a new one is made. The entry is returned.\<close>

definition AddReference :: "addr \<Rightarrow> uri \<Rightarrow> package_id \<Rightarrow> occurrence \<Rightarrow> legacy_registry \<Rightarrow> addr \<times> legacy_registry" where
  "AddReference sd docURI pkgID occ r =
     (let s = lr_symbols r ! sd; fos = (case map_of (sdt_References s) pkgID of None \<Rightarrow> [] | Some fos \<Rightarrow> fos)
      in case find (\<lambda>fo. fo_file (lr_files r ! fo) = docURI) fos of
           Some fo \<Rightarrow> (fo, r\<lparr>lr_files := (lr_files r)[fo := (lr_files r ! fo)\<lparr>fo_Occurrences := fo_Occurrences (lr_files r ! fo) @ [occ]\<rparr>]\<rparr>)
         | None \<Rightarrow>
             let fo = length (lr_files r)
             in (fo, r\<lparr>lr_files := lr_files r @ [\<lparr>fo_file = docURI, fo_Occurrences = [occ]\<rparr>],
                       lr_symbols := (lr_symbols r)[sd := s\<lparr>sdt_References := AList.update pkgID (fos @ [fo]) (sdt_References s)\<rparr>]\<rparr>))"

text \<open>One occurrence of a local symbol.\<close>

definition store_occurrence :: "rangelib \<Rightarrow> uri \<Rightarrow> addr \<Rightarrow> occurrence \<Rightarrow> legacy_registry \<Rightarrow> legacy_registry" where
  "store_occurrence rl docURI sd occ r =
     (if has_role occ SymbolRole_Definition
      then r\<lparr>lr_symbols := (lr_symbols r)[sd := (lr_symbols r ! sd)\<lparr>sdt_Definition := Some occ,
             sdt_Location := Some (ScipOccurrenceToLocationLink rl docURI occ None)\<rparr>]\<rparr>
      else snd (AddReference sd docURI ''local'' occ r))"

text \<open>
  The two loops, in the order in which Go ranges over the maps, over a table of symbol data: \<^verbatim>\<open>storeLocalSymbols\<close> of a file
  uses its locals, that of a package its symbols.
\<close>

fun store_infos :: "(gostring \<times> symbol_information) list \<Rightarrow> (gostring \<times> addr) list \<times> legacy_registry \<Rightarrow> (gostring \<times> addr) list \<times> legacy_registry" where
  "store_infos [] tr = tr"
| "store_infos ((symbol, info) # rest) (table, r) =
     (let (sd, table', r') = get_or_create symbol table r
      in store_infos rest (table', r'\<lparr>lr_symbols := (lr_symbols r')[sd := (lr_symbols r' ! sd)\<lparr>sdt_Info := Some info\<rparr>]\<rparr>))"

fun store_occurrences ::
  "rangelib \<Rightarrow> uri \<Rightarrow> (gostring \<times> occurrence list) list \<Rightarrow> (gostring \<times> addr) list \<times> legacy_registry \<Rightarrow> (gostring \<times> addr) list \<times> legacy_registry" where
  "store_occurrences rl docURI [] tr = tr"
| "store_occurrences rl docURI ((symbol, occs) # rest) (table, r) =
     (let (sd, table', r') = get_or_create symbol table r
      in store_occurrences rl docURI rest (table', fold (store_occurrence rl docURI sd) occs r'))"

definition storeLocalSymbols_file ::
  "rangelib \<Rightarrow> (gostring \<times> symbol_information) list \<Rightarrow> (gostring \<times> occurrence list) list \<Rightarrow> file_info \<Rightarrow> legacy_registry \<Rightarrow> file_info \<times> legacy_registry" where
  "storeLocalSymbols_file rl localSymbs localOccs f r =
     (let (table, r') = store_occurrences rl (fi_URI f) localOccs (store_infos localSymbs (fi_Locals f, r))
      in (f\<lparr>fi_Locals := table\<rparr>, r'))"

definition storeLocalSymbols_package ::
  "rangelib \<Rightarrow> (gostring \<times> symbol_information) list \<Rightarrow> (gostring \<times> occurrence list) list \<Rightarrow> uri \<Rightarrow> addr \<Rightarrow> legacy_registry \<Rightarrow> legacy_registry" where
  "storeLocalSymbols_package rl localSymbs localOccs docURI p r =
     (let (table, r') = store_occurrences rl docURI localOccs (store_infos localSymbs (pm_SymbolData (lr_packages r ! p), r))
      in r'\<lparr>lr_packages := (lr_packages r')[p := (lr_packages r' ! p)\<lparr>pm_SymbolData := table\<rparr>]\<rparr>)"

text \<open>What clearing does to one symbol: a definition in the document is forgotten.\<close>

definition forget_definition :: "uri \<Rightarrow> symbol_data \<Rightarrow> symbol_data" where
  "forget_definition docURI s =
     (case sdt_Location s of
        Some l \<Rightarrow> if TargetURI l = docURI then s\<lparr>sdt_Definition := None, sdt_Location := None\<rparr> else s
      | None \<Rightarrow> s)"

definition ClearReferences :: "uri \<Rightarrow> legacy_registry \<Rightarrow> legacy_registry outcome" where
  "ClearReferences docURI r =
     (case map_of (lr_Documents r) docURI of
        None \<Rightarrow> Ok r
      | Some doc \<Rightarrow>
          (case fi_Package doc of
             None \<Rightarrow> Panic
           | Some p \<Rightarrow>
               Ok (r\<lparr>lr_files := fold (\<lambda>ref fs. fs[ref := (fs ! ref)\<lparr>fo_Occurrences := []\<rparr>]) (fi_ExternalRefs doc) (lr_files r),
                     lr_symbols := fold (\<lambda>sd ss. ss[sd := forget_definition docURI (ss ! sd)])
                       (map snd (pm_SymbolData (lr_packages r ! p))) (lr_symbols r),
                     lr_Documents := AList.delete docURI (lr_Documents r)\<rparr>)))"

subsection \<open>Lookups\<close>

text \<open>The package of the document is a pointer that may be nil.\<close>

definition GetSymbolDataForSymbol :: "symlib \<Rightarrow> legacy_registry \<Rightarrow> gostring \<Rightarrow> addr option \<Rightarrow> addr option outcome" where
  "GetSymbolDataForSymbol sl r symbol localPkg =
     (if IsLocalSymbol sl symbol
      then case localPkg of None \<Rightarrow> Panic | Some p \<Rightarrow> Ok (map_of (pm_SymbolData (lr_packages r ! p)) symbol)
      else obind (ParseScipSymbol (ParseSymbol sl) symbol) (\<lambda>sy.
             case Package sy of
               None \<Rightarrow> Panic
             | Some pkg \<Rightarrow>
                 (case map_of (lr_Packages r) (spkg_Name pkg) of
                    None \<Rightarrow> Ok None
                  | Some p \<Rightarrow> Ok (map_of (pm_SymbolData (lr_packages r ! p)) symbol))))"

definition GetSymbolForPosition :: "libs \<Rightarrow> legacy_registry \<Rightarrow> uri \<Rightarrow> position \<Rightarrow> (occurrence option \<times> addr option) outcome" where
  "GetSymbolForPosition lib r u pos =
     (case map_of (lr_Documents r) u of
        None \<Rightarrow> Ok (None, None)
      | Some doc \<Rightarrow>
          (case GetOccurrenceForPosition_ulsp (lib_range lib) (Occurrences (fi_Document doc)) pos of
             None \<Rightarrow> Ok (None, None)
           | Some occ \<Rightarrow>
               if IsLocalSymbol (lib_sym lib) (Symbol occ) \<and> fi_Locals doc \<noteq> [] then Ok (Some occ, map_of (fi_Locals doc) (Symbol occ))
               else obind (GetSymbolDataForSymbol (lib_sym lib) r (Symbol occ) (fi_Package doc)) (\<lambda>sd. Ok (Some occ, sd))))"

text \<open>Errors of the lookups are dropped.\<close>

fun document_symbol_data :: "symlib \<Rightarrow> legacy_registry \<Rightarrow> file_info \<Rightarrow> occurrence list \<Rightarrow> addr list outcome" where
  "document_symbol_data sl r doc [] = Ok []"
| "document_symbol_data sl r doc (occ # occs) =
     (if \<not> has_role occ SymbolRole_Definition then document_symbol_data sl r doc occs
      else case (if IsLocalSymbol sl (Symbol occ) then Ok (map_of (fi_Locals doc) (Symbol occ))
                 else GetSymbolDataForSymbol sl r (Symbol occ) (fi_Package doc)) of
          Panic \<Rightarrow> Panic
        | Ok (Some sd) \<Rightarrow> obind (document_symbol_data sl r doc occs) (\<lambda>sds. Ok (sd # sds))
        | _ \<Rightarrow> document_symbol_data sl r doc occs)"

definition GetDocumentSymbolForFile :: "symlib \<Rightarrow> legacy_registry \<Rightarrow> uri \<Rightarrow> addr list outcome" where
  "GetDocumentSymbolForFile sl r u =
     (case map_of (lr_Documents r) u of None \<Rightarrow> Ok [] | Some doc \<Rightarrow> document_symbol_data sl r doc (Occurrences (fi_Document doc)))"

definition GetFileInfo :: "legacy_registry \<Rightarrow> uri \<Rightarrow> file_info option" where
  "GetFileInfo r fileURI = map_of (lr_Documents r) fileURI"

definition GetPackageInfo :: "legacy_registry \<Rightarrow> package_id \<Rightarrow> addr option" where
  "GetPackageInfo r pkgID = map_of (lr_Packages r) pkgID"
section \<open>References by document\<close>

text \<open>The entries of a symbol for a package, and the references of a symbol from a file.\<close>

definition entries :: "legacy_registry \<Rightarrow> addr \<Rightarrow> package_id \<Rightarrow> addr list" where
  "entries r sd pkg =
     (if sd < length (lr_symbols r) then case map_of (sdt_References (lr_symbols r ! sd)) pkg of None \<Rightarrow> [] | Some fos \<Rightarrow> fos else [])"

definition refs_of :: "legacy_registry \<Rightarrow> addr \<Rightarrow> package_id \<Rightarrow> uri \<Rightarrow> occurrence list" where
  "refs_of r sd pkg u =
     (case find (\<lambda>fo. fo_file (lr_files r ! fo) = u) (entries r sd pkg) of None \<Rightarrow> [] | Some fo \<Rightarrow> fo_Occurrences (lr_files r ! fo))"

text \<open>An entry belongs to one symbol and one package.\<close>

definition refs_inv :: "legacy_registry \<Rightarrow> bool" where
  "refs_inv r \<longleftrightarrow> (\<forall>sd pkg. (\<forall>fo \<in> set (entries r sd pkg). fo < length (lr_files r)) \<and>
     (\<forall>sd' pkg'. (sd, pkg) \<noteq> (sd', pkg') \<longrightarrow> set (entries r sd pkg) \<inter> set (entries r sd' pkg') = {}))"

lemma find_in: "find P xs = Some x \<Longrightarrow> x \<in> set xs \<and> P x"
  by (auto simp: find_Some_iff)

lemma AddReference_found:
  fixes occ :: occurrence
  assumes "refs_inv r" and "sd < length (lr_symbols r)" and "find (\<lambda>fo. fo_file (lr_files r ! fo) = u) (entries r sd pkg) = Some fo"
  defines "r' \<equiv> r\<lparr>lr_files := (lr_files r)[fo := (lr_files r ! fo)\<lparr>fo_Occurrences := fo_Occurrences (lr_files r ! fo) @ [occ]\<rparr>]\<rparr>"
  shows "AddReference sd u pkg occ r = (fo, r')" and "refs_inv r'"
    and "refs_of r' sd' pkg' u' = refs_of r sd' pkg' u' @ (if (sd', pkg', u') = (sd, pkg, u) then [occ] else [])"
proof -
  show "AddReference sd u pkg occ r = (fo, r')"
    using assms(2,3) by (simp add: AddReference_def r'_def entries_def Let_def split: option.splits)
  have fo: "fo \<in> set (entries r sd pkg)" "fo_file (lr_files r ! fo) = u" using find_in [OF assms(3)] by simp_all
  with assms(1) have len: "fo < length (lr_files r)" by (auto simp: refs_inv_def)
  have ent: "entries r' sd' pkg' = entries r sd' pkg'" for sd' pkg' by (simp add: entries_def r'_def)
  with assms(1) show "refs_inv r'" by (simp add: refs_inv_def r'_def)
  have same: "fo_file (lr_files r' ! a) = fo_file (lr_files r ! a)" for a
    using len by (cases "a = fo") (simp_all add: r'_def)
  show "refs_of r' sd' pkg' u' = refs_of r sd' pkg' u' @ (if (sd', pkg', u') = (sd, pkg, u) then [occ] else [])"
  proof (cases "find (\<lambda>fo. fo_file (lr_files r ! fo) = u') (entries r sd' pkg')")
    case None
    with assms(3) have "(sd', pkg', u') \<noteq> (sd, pkg, u)" by auto
    with None show ?thesis by (simp add: refs_of_def ent same)
  next
    case (Some a)
    have "a = fo \<longleftrightarrow> (sd', pkg', u') = (sd, pkg, u)"
      using find_in [OF Some] fo assms(1,3) Some unfolding refs_inv_def by (metis IntI empty_iff option.inject prod.inject)
    with Some len show ?thesis by (auto simp: refs_of_def ent same) (simp_all add: r'_def)
  qed
qed

lemma AddReference_new:
  fixes occ :: occurrence
  assumes "refs_inv r" and "sd < length (lr_symbols r)" and "find (\<lambda>fo. fo_file (lr_files r ! fo) = u) (entries r sd pkg) = None"
  defines "s \<equiv> lr_symbols r ! sd" and "fo \<equiv> length (lr_files r)"
  defines "r' \<equiv> r\<lparr>lr_files := lr_files r @ [\<lparr>fo_file = u, fo_Occurrences = [occ]\<rparr>],
      lr_symbols := (lr_symbols r)[sd := s\<lparr>sdt_References := AList.update pkg (entries r sd pkg @ [fo]) (sdt_References s)\<rparr>]\<rparr>"
  shows "AddReference sd u pkg occ r = (fo, r')" and "refs_inv r'"
    and "refs_of r' sd' pkg' u' = refs_of r sd' pkg' u' @ (if (sd', pkg', u') = (sd, pkg, u) then [occ] else [])"
proof -
  show "AddReference sd u pkg occ r = (fo, r')"
    using assms(2,3) by (simp add: AddReference_def r'_def entries_def s_def fo_def Let_def split: option.splits)
  have ent: "entries r' sd' pkg' = entries r sd' pkg' @ (if (sd', pkg') = (sd, pkg) then [fo] else [])" for sd' pkg'
    using assms(2) by (auto simp: entries_def r'_def s_def update_conv' nth_list_update)
  have old: "\<forall>a \<in> set (entries r sd' pkg'). a < fo" for sd' pkg' using assms(1) by (simp add: refs_inv_def fo_def)
  have len: "length (lr_files r') = Suc fo" by (simp add: r'_def fo_def)
  show "refs_inv r'"
    using assms(1) old unfolding refs_inv_def len by (fastforce simp: ent)
  have keep: "find (\<lambda>fo. fo_file (lr_files r' ! fo) = u') (entries r sd' pkg') = find (\<lambda>fo. fo_file (lr_files r ! fo) = u') (entries r sd' pkg')"
    for u' sd' pkg' using old [of sd' pkg'] by (intro find_cong) (auto simp: r'_def fo_def nth_append)
  have find_app: "find P (xs @ ys) = (case find P xs of None \<Rightarrow> find P ys | Some x \<Rightarrow> Some x)" for P and xs ys :: "addr list"
    by (induction xs) auto
  have new: "lr_files r' ! fo = \<lparr>fo_file = u, fo_Occurrences = [occ]\<rparr>" by (simp add: r'_def fo_def)
  have kept: "fo_Occurrences (lr_files r' ! a) = fo_Occurrences (lr_files r ! a)" if "a < fo" for a
    using that by (simp add: r'_def fo_def nth_append)
  show "refs_of r' sd' pkg' u' = refs_of r sd' pkg' u' @ (if (sd', pkg', u') = (sd, pkg, u) then [occ] else [])"
  proof (cases "find (\<lambda>fo. fo_file (lr_files r ! fo) = u') (entries r sd' pkg')")
    case None
    then show ?thesis by (auto simp: refs_of_def ent find_app keep new)
  next
    case (Some a)
    with find_in [OF Some] old [of sd' pkg'] assms(3) show ?thesis by (auto simp: refs_of_def ent find_app keep kept)
  qed
qed

text \<open>Adding a reference adds it for its symbol, package and file, and changes no other reference.\<close>

lemma AddReference_spec:
  assumes "refs_inv r" and "sd < length (lr_symbols r)"
  obtains fo r' where "AddReference sd u pkg occ r = (fo, r')" "refs_inv r'"
    "\<And>sd' pkg' u'. refs_of r' sd' pkg' u' = refs_of r sd' pkg' u' @ (if (sd', pkg', u') = (sd, pkg, u) then [occ] else [])"
  using AddReference_found [OF assms, of u pkg _ occ] AddReference_new [OF assms, of u pkg occ]
  by (cases "find (\<lambda>fo. fo_file (lr_files r ! fo) = u) (entries r sd pkg)") blast+

subsection \<open>Clearing a document\<close>

text \<open>A loop that applies an idempotent function to the objects at the given addresses.\<close>

lemma fold_update_length: "length (fold (\<lambda>a xs. xs[a := g (xs ! a)]) addrs xs) = length xs"
  by (induction addrs arbitrary: xs) simp_all

lemma fold_update_nth:
  assumes "\<And>x. g (g x) = g x" and "i < length xs"
  shows "fold (\<lambda>a xs. xs[a := g (xs ! a)]) addrs xs ! i = (if i \<in> set addrs then g (xs ! i) else xs ! i)"
  using assms(2)
proof (induction addrs arbitrary: xs)
  case (Cons a addrs)
  then show ?case by (cases "a = i") (simp_all add: assms(1))
qed simp

lemma forget_definition_simps [simp]:
  "forget_definition u (forget_definition u s) = forget_definition u s" "sdt_References (forget_definition u s) = sdt_References s"
  by (simp_all add: forget_definition_def split: option.split)

lemmas clear_files_nth = fold_update_nth [where g = "\<lambda>f. f\<lparr>fo_Occurrences := []\<rparr>", simplified]

lemmas forget_nth = fold_update_nth [where g = "forget_definition u" for u, simplified]


text \<open>
  So a reference survives the clearing of its document: a document is made without external references, and the entry that adding a reference
  returns is not recorded by its caller.
\<close>

lemma reference_survives_clearing:
  assumes "refs_inv r" and "sd < length (lr_symbols r)" and "map_of (lr_Documents r) u = Some (NewFileInfo u doc (Some p) defs None)"
  shows "\<exists>fo r1 r2. AddReference sd u pkg occ r = (fo, r1) \<and> ClearReferences u r1 = Ok r2 \<and> occ \<in> set (refs_of r2 sd pkg u)"
proof -
  obtain fo r1 where add: "AddReference sd u pkg occ r = (fo, r1)" "refs_of r1 sd pkg u = refs_of r sd pkg u @ [occ]"
    by (rule AddReference_spec [OF assms(1,2), of u pkg occ]) auto
  have "lr_Documents r1 = lr_Documents r" using add(1) by (auto simp: AddReference_def Let_def split: option.splits)
  then have look: "map_of (lr_Documents r1) u = Some (NewFileInfo u doc (Some p) defs None)" using assms(3) by simp
  define r2 where "r2 = r1\<lparr>lr_symbols := fold (\<lambda>sd ss. ss[sd := forget_definition u (ss ! sd)]) (map snd (pm_SymbolData (lr_packages r1 ! p))) (lr_symbols r1),
    lr_Documents := AList.delete u (lr_Documents r1)\<rparr>"
  have "ClearReferences u r1 = Ok r2" using look by (simp add: ClearReferences_def NewFileInfo_def r2_def)
  moreover have "entries r2 sd pkg = entries r1 sd pkg" for sd pkg by (simp add: entries_def r2_def fold_update_length forget_nth)
  then have "refs_of r2 sd pkg u = refs_of r1 sd pkg u" by (simp add: refs_of_def r2_def cong: option.case_cong)
  ultimately show ?thesis using add by auto
qed

subsection \<open>Creating and looking up\<close>

lemma getOrCreatePackage_stable:
  "getOrCreatePackage pkg r = (p, r') \<Longrightarrow> GetPackageInfo r' (spkg_Name pkg) = Some p \<and> getOrCreatePackage pkg r' = (p, r') \<and>
     (\<forall>id. id \<noteq> spkg_Name pkg \<longrightarrow> GetPackageInfo r' id = GetPackageInfo r id)"
  by (auto simp: getOrCreatePackage_def GetPackageInfo_def Let_def update_conv' split: option.splits)

lemma getOrCreateSymbolData_lookup:
  assumes "getOrCreateSymbolData_package p symbol r = (sd, r')" and "p < length (lr_packages r)"
  shows "map_of (pm_SymbolData (lr_packages r' ! p)) symbol = Some sd \<and> getOrCreateSymbolData_package p symbol r' = (sd, r')"
  using assms
  by (auto simp: getOrCreateSymbolData_package_def get_or_create_def Let_def update_conv' split: option.splits)

subsection \<open>Witness\<close>

definition sample_occ :: "gostring \<Rightarrow> occurrence" where
  "sample_occ s = \<lparr>Range = [0, 0, 1], Symbol = s, SymbolRoles = 0, OverrideDocumentation = [], SyntaxKind = 0, EnclosingRange = []\<rparr>"

text \<open>
  Two documents of a package, each of which defines a symbol. The first has the entry of a reference to the second symbol among its external references.
\<close>

definition sample_link :: "uri \<Rightarrow> location_link" where
  "sample_link u = \<lparr>OriginSelectionRange = None, TargetURI = u, TargetRange = zero_range, TargetSelectionRange = zero_range\<rparr>"

definition sample_legacy :: legacy_registry where
  "sample_legacy =
     \<lparr>lr_WorkspaceRoot = ''/w'', lr_Packages = [(''p'', 0)],
      lr_Documents = [(''a'', NewFileInfo ''a'' (Document [] '''' ''a'' [] [] '''' []) (Some 0) [] (Some [0])),
        (''b'', NewFileInfo ''b'' (Document [] '''' ''b'' [] [] '''' []) (Some 0) [] None)],
      lr_files = [\<lparr>fo_file = ''a'', fo_Occurrences = [sample_occ ''t'']\<rparr>, \<lparr>fo_file = ''b'', fo_Occurrences = [sample_occ ''s'']\<rparr>],
      lr_symbols = [NewSymbolData None (Some (sample_occ ''s'')) (Some (sample_link ''a'')), NewSymbolData None (Some (sample_occ ''t'')) (Some (sample_link ''b''))],
      lr_packages = [\<lparr>pm_Pkg = \<lparr>spkg_Manager = '''', spkg_Name = ''p'', spkg_Version = ''''\<rparr>, pm_SymbolData = [(''s'', 0), (''t'', 1)]\<rparr>]\<rparr>"


end
