(* ===== verification/Spec2Isabelle.thy ===== *)
theory Spec2Isabelle
  imports DocSyncSpec UlspRegistry DaemonSpec Notifier ScipReload Startup QuickActionsSpec Indexer Gateway
    JavaUtils UserGuidance WorkspaceUtils Jdk ScalaAssist JavaActions IndexerRun LegacyRegistry Transport
begin

text \<open>
  \<^bold>\<open>The program.\<close> scip-lsp is a language server over SCIP indexes. \<^verbatim>\<open>src/scip-lib\<close> reads the indexes and answers
  code-intelligence queries from them; \<^verbatim>\<open>src/ulsp\<close> is the server: JSON-RPC requests are routed to a daemon controller,
  which hands each to the plugins that declared the method; the plugins keep the open documents, load the
  indexes, and answer the queries through the library. This development models these parts file by file and
  proves what makes them correct. The definitions keep the names of the source, with a suffix or prefix where
  two files use the same name.

  \<^bold>\<open>Conventions\<close> (\<open>Prelude\<close>). A byte is a \<open>char\<close>, a string and a byte slice are char lists; machine integers that
  can wrap are words. A call that can fail returns an \<open>outcome\<close>: a value, an error that keeps its wrapping,
  or a panic. State is passed explicitly; pointers that are shared are addresses of an explicit heap. A loop whose
  end depends on the input has fuel, and \<open>None\<close> is running out of it; the termination properties show that more fuel
  than bytes left to read is enough. An operation that holds a lock throughout is one step. Where a request takes a lock several times and
  requests run concurrently (commands, indexing runs, debounce timers, updates of the build configuration), each locked section is a step of its own, the whole
  operation is their composition, and the properties range over all interleavings of the steps, with the calls in flight as a multiset; a race the code has is then a
  condition of the property, and a lemma shows that the condition is needed. Elsewhere goroutines
  are explicit queues or an argument that picks the order. Logging and metrics are left out. Libraries outside the repository
  (protobuf wire decoding, SCIP symbol parsing, diff, JSON, regular expressions, URIs) are arguments; what the
  code needs of them is a named hypothesis, and every property has a witness with a concrete instance.

  \<^bold>\<open>Reading an index.\<close>
  \<^item> \<open>BufferPool\<close> (\<^verbatim>\<open>scanner/bufferpool.go\<close>): buckets of reusable buffers; \<open>Get\<close> returns the requested length from
    the smallest sufficient bucket.
  \<^item> \<open>Scanner\<close>, \<open>ScanFolder\<close> (\<^verbatim>\<open>scanner/scan.go\<close>): the streaming scan of the wire format and of a folder of indexes.
    \<open>ScannerSpec\<close>: on the encoding of an index the scan visits exactly its documents, symbols and occurrences, in order.
    \<open>ScannerRobust\<close>: it ends on every input without backward lengths; two malformed inputs on which it loops or panics.
  \<^item> \<open>ScipModel\<close> (\<^verbatim>\<open>model/scip.go\<close>, \<^verbatim>\<open>mapper/*.go\<close>), \<open>ScipUtils\<close> (\<^verbatim>\<open>utils/utils.go\<close>): data, conversions and the search
    for the occurrence at a position, correct on sorted disjoint ranges.
  \<^item> \<open>GoPath\<close>, \<open>GoStrings\<close>: the parts of \<^verbatim>\<open>path/filepath\<close> and \<^verbatim>\<open>strings\<close> the code uses.

  \<^bold>\<open>The partially loaded index.\<close>
  \<^item> \<open>PrefixTree\<close>, \<open>PrefixTreeSpec\<close>, \<open>PrefixTreeMerge\<close>, \<open>PrefixTreePrune\<close> (\<^verbatim>\<open>partialloader/prefixtree.go\<close>): a heap of tree
    nodes with parents; adding, merging and pruning against the map from descriptor paths to symbols.
  \<^item> \<open>PartialIndex\<close>, \<open>PartialIndexSpec\<close>, \<open>PartialIndexDocs\<close> (\<^verbatim>\<open>partialloader/index.go\<close>): loading an index makes exactly
    its symbols and implementors known; documents are read on demand; references are complete.
  \<^item> \<open>Registry\<close>, \<open>RegistrySpec\<close> (\<^verbatim>\<open>registry/partial_registry.go\<close>): the queries over any index behind the interface; the
    locale \<open>index_contract\<close> states what they rely on, and the partial index is an interpretation.
  \<^item> \<open>UlspRegistry\<close> (\<^verbatim>\<open>controller/scip/partial_registry.go\<close>, \<^verbatim>\<open>consume.go\<close>): the server's copy, shown to agree.
  \<^item> \<open>LegacyRegistry\<close> (\<^verbatim>\<open>controller/scip/types.go\<close>, \<^verbatim>\<open>consume.go\<close>): the eager registry as a heap of symbols and documents;
    clearing a document removes exactly its definitions and the entries recorded as its external references, which storing local symbols does not record.

  \<^bold>\<open>Documents and positions.\<close>
  \<^item> \<open>TextOffset\<close>, \<open>TextOffsetSpec\<close> (\<^verbatim>\<open>internal/protocol/mapper.go\<close>): UTF-16 positions and byte offsets are inverse.
  \<^item> \<open>TextEdits\<close> (\<^verbatim>\<open>mapper/lsp.go\<close>, \<^verbatim>\<open>mapper/document.go\<close>): content changes, diffs and text edits; the edits of a diff lead to its target unless
    one of them is cut between a carriage return and its newline.
  \<^item> \<open>PositionMapper\<close> (\<^verbatim>\<open>doc-sync/position_mapper.go\<close>): a position in kept text is mapped to the same place of that text, one in inserted text to the
    place of the insertion and reported as new.
  \<^item> \<open>DocSync\<close>, \<open>DocSyncSpec\<close> (\<^verbatim>\<open>doc-sync/doc_sync.go\<close>): every handler of the document store, an abstract view of a
    document it refines, and the invariant of the reachable states that the cached position mapper is current.

  \<^bold>\<open>The server.\<close>
  \<^item> \<open>Transport\<close> (\<^verbatim>\<open>internal/jsonrpcfx\<close>, \<^verbatim>\<open>serverinfofile\<close>, \<^verbatim>\<open>executor\<close>, \<^verbatim>\<open>logfilewriter\<close>): the listener over the locale
    \<open>connection_manager\<close>, which the router and daemon interpret; every session of the daemon belongs to a stream that is served.
  \<^item> \<open>Sessions\<close> (\<^verbatim>\<open>repository/session\<close>): the session store, an interpretation of the locale \<open>erasable_store\<close>, which extends
    \<open>keyed_store\<close> by deletion; the clients of the gateway and the pending commands of the indexer interpret it too.
  \<^item> \<open>Plugins\<close> (\<^verbatim>\<open>entity/ulsp-plugin\<close>, \<^verbatim>\<open>mapper/ulsp_plugin.go\<close>): validation and prioritization of plugins.
  \<^item> \<open>Daemon\<close> (\<^verbatim>\<open>controller/ulsp-daemon\<close>), \<open>Router\<close> (\<^verbatim>\<open>handler/ulsp-daemon\<close>): dispatch, lifecycle, idle timer, routing.
    \<open>DaemonSpec\<close>: the server as a step relation; dispatch never meets a missing handler, the timer runs
    exactly while the server is idle, and closing the connections and waiting for the timer stops the server.
  \<^item> \<open>Startup\<close> (\<^verbatim>\<open>StartupInfo\<close> of the plugins, \<^verbatim>\<open>controller/ulsp-daemon/ulsp_daemon.go\<close>): their declarations always pass the
    registration, in the order the plugins rely on.
  \<^item> \<open>Capabilities\<close> (\<^verbatim>\<open>mapper/lsp_lifecycle.go\<close>): what the plugins announce is joined and never lost.
  \<^item> \<open>Gateway\<close> (\<^verbatim>\<open>gateway/ide-client/ide_client.go\<close>): calls reach the client of their session; the prompt that waits for the user
    ends once however its timers interleave (a timer that fires counts as having sent its message).

  \<^bold>\<open>The plugins.\<close>
  \<^item> \<open>IndexNotifier\<close> (\<^verbatim>\<open>controller/scip/scip_notify.go\<close>), \<open>Notifier\<close> (\<^verbatim>\<open>internal/persistent-notifier\<close>): progress of index loads. Batches
    end exactly with their last file for every interleaving; a sender is never blocked for good and never sends on a closed channel.
  \<^item> \<open>ScipController\<close> (\<^verbatim>\<open>controller/scip/scip.go\<close>): loading, watching and querying. \<open>ScipSpec\<close>: a query in an open document is asked at the position in
    the indexed text and its answer is moved to the edited texts, so this composes registry, document store and
    position mapper. \<open>ScipReload\<close>: for roots that are not prefixes of one another, events and the steps of the debounce timers in any order leave no
    notification open that no timer completes.
  \<^item> \<open>Diagnostics\<close> (\<^verbatim>\<open>controller/diagnostics\<close>): stored for and published to exactly the sessions of the workspace.
  \<^item> \<open>QuickActions\<close>, \<open>QuickActionsSpec\<close> (\<^verbatim>\<open>controller/quick-actions\<close>): the stores and handlers; offered actions are those
    of the current text, and a command runs at most once at a time unless two requests race between the check and the token.
  \<^item> \<open>JavaActions\<close> (\<^verbatim>\<open>controller/quick-actions/actions-java\<close>, \<^verbatim>\<open>entity\<close>): the six Java actions as instances of the plugin's action
    record, and the repository configuration that enables them; the lenses a client is left with after a refresh.
  \<^item> \<open>Indexer\<close> (\<^verbatim>\<open>controller/indexer\<close>): one run per target at a time, and no change is lost, for targets without a race or a cancellation. \<open>IndexerRun\<close>
    (\<^verbatim>\<open>java_indexer.go\<close>) composes it with the Java helpers and the executor: files under one build file share a run.
  \<^item> \<open>UserGuidance\<close> (\<^verbatim>\<open>controller/user-guidance\<close>): no message is shown twice, whatever sessions are initialized one after the other.
  \<^item> \<open>Jdk\<close> (\<^verbatim>\<open>controller/jdk\<close>, \<^verbatim>\<open>handler/jdk\<close>): breakpoints and classes resolved through the registry, errors and panics included.
  \<^item> \<open>ScalaAssist\<close> (\<^verbatim>\<open>controller/scala-assist\<close>): the copy of the build configuration has the overriding version and the other entries of its source,
    once all changes were reported as writes and handled.
  \<^item> \<open>JavaUtils\<close>, \<open>WorkspaceUtils\<close> (\<^verbatim>\<open>internal/java-utils\<close>, \<^verbatim>\<open>workspace-utils\<close>, \<^verbatim>\<open>bazelproject\<close>): build targets, workspace roots and
    project views. The target is that of the nearest build file; the search has fuel, since it may not end outside the workspace.

  \<^bold>\<open>Not modelled.\<close> The wrappers of the file system, the clock, the configuration and the logger, which only call libraries;
  dependency injection and the start of the process; the translation of errors to those of the RPC library (the
  errors themselves are constructors); generated code and mocks; and the parts of the repository in other languages (the
  editor extension, the BSP server, the Java tools). Metrics and log lines have no counterpart in the model. What an external command does
  and what an editor answers are arguments of the definitions that use them.
\<close>

end
